(* ===== verification/Prelude.thy ===== *)
theory Prelude
  imports Main "HOL-Library.Word" "HOL-Library.Monad_Syntax" "HOL-Library.Code_Target_Numeral"
begin

text \<open>
  Shared vocabulary of the development: machine words, the status codes of the firmware
  interfaces, byte-addressed memory with little-endian fields, and the lemmas on reading
  and writing memory that every component uses.

  Addresses are natural numbers and memory is a total map from addresses to bytes.  A
  \<^verbatim>\<open>NULL\<close> pointer is \<open>None\<close> of an option.  Integer fields are read as natural numbers in
  the range of their width; flag bytes and attribute masks are words, so that the bit
  operations of the source are the bit operations of the model.
\<close>

unbundle bit_operations_syntax

named_theorems mem_simps \<open>reading back what was written to memory\<close>
named_theorems nv_consts \<open>numeric values of the constants of the source\<close>

section \<open>Machine types and status codes\<close>

type_synonym u8 = "8 word"
type_synonym u16 = "16 word"
type_synonym u32 = "32 word"
type_synonym u64 = "64 word"
type_synonym memory = "nat \<Rightarrow> u8"
type_synonym char16 = "16 word"

datatype efi_status =
    EFI_SUCCESS
  | EFI_INVALID_PARAMETER
  | EFI_UNSUPPORTED
  | EFI_BUFFER_TOO_SMALL
  | EFI_DEVICE_ERROR
  | EFI_WRITE_PROTECTED
  | EFI_OUT_OF_RESOURCES
  | EFI_NOT_FOUND
  | EFI_ACCESS_DENIED
  | EFI_ALREADY_STARTED
  | EFI_SECURITY_VIOLATION
  | EFI_NO_RESPONSE

definition EFI_ERROR :: "efi_status \<Rightarrow> bool" where
  "EFI_ERROR s \<longleftrightarrow> s \<noteq> EFI_SUCCESS"

lemma EFI_ERROR_simps [simp]:
  "\<not> EFI_ERROR EFI_SUCCESS"
  "EFI_ERROR s \<longleftrightarrow> s \<noteq> EFI_SUCCESS"
  by (simp_all add: EFI_ERROR_def)

text \<open>Unsigned arithmetic of \<^verbatim>\<open>UINTN\<close> on the 64-bit build: subtraction wraps.\<close>

definition uintn_sub :: "nat \<Rightarrow> nat \<Rightarrow> nat" where
  "uintn_sub a b = nat ((int a - int b) mod 2 ^ 64)"

lemma uintn_sub_le [simp]: "b \<le> a \<Longrightarrow> a < 2 ^ 64 \<Longrightarrow> uintn_sub a b = a - b"
  by (simp add: uintn_sub_def mod_pos_pos_trivial nat_diff_distrib')

lemma uintn_sub_wrap: "a < b \<Longrightarrow> b \<le> 2 ^ 64 \<Longrightarrow> uintn_sub a b = 2 ^ 64 - (b - a)"
proof -
  assume ab: "a < b" and b: "b \<le> 2 ^ 64"
  have "(int a - int b) mod 2 ^ 64 = (int a - int b + 2 ^ 64) mod 2 ^ 64"
    by (simp only: mod_add_self2)
  also have "\<dots> = int a - int b + 2 ^ 64"
    using ab b by (intro mod_pos_pos_trivial) auto
  finally show ?thesis
    using ab b by (simp add: uintn_sub_def)
qed

section \<open>Little-endian fields\<close>

fun le_nat :: "u8 list \<Rightarrow> nat" where
  "le_nat [] = 0"
| "le_nat (b # bs) = unat b + 256 * le_nat bs"

fun le_bytes :: "nat \<Rightarrow> nat \<Rightarrow> u8 list" where
  "le_bytes 0 n = []"
| "le_bytes (Suc k) n = word_of_nat n # le_bytes k (n div 256)"

lemma length_le_bytes [simp]: "length (le_bytes k n) = k"
  by (induction k arbitrary: n) auto

lemma unat_u8_less [simp]: "unat (b :: u8) < 256"
  using unsigned_less [of b, where ?'a = nat] by simp

lemma unat_byte_of_nat [simp]: "unat (word_of_nat n :: u8) = n mod 256"
  by (simp add: unat_of_nat)

lemma le_nat_bound: "le_nat bs < 256 ^ length bs"
proof (induction bs)
  case Nil
  then show ?case by simp
next
  case (Cons b bs)
  have "unat b + 256 * le_nat bs < 256 * (le_nat bs + 1)"
    using unat_u8_less [of b] by simp
  also have "\<dots> \<le> 256 * 256 ^ length bs"
    using Cons by (intro mult_le_mono2) simp
  finally show ?case by simp
qed

lemma le_nat_le_bytes: "le_nat (le_bytes k n) = n mod 256 ^ k"
proof (induction k arbitrary: n)
  case 0
  then show ?case by simp
next
  case (Suc k)
  have "n mod 256 ^ Suc k = n mod 256 + 256 * (n div 256 mod 256 ^ k)"
    by (simp add: mod_mult2_eq)
  with Suc show ?case by simp
qed

lemma le_nat_le_bytes_id [simp]: "n < 256 ^ k \<Longrightarrow> le_nat (le_bytes k n) = n"
  by (simp add: le_nat_le_bytes)

lemma le_bytes_le_nat [simp]: "le_bytes (length bs) (le_nat bs) = bs"
proof (induction bs)
  case Nil
  then show ?case by simp
next
  case (Cons b bs)
  have b: "unat b < 256" by simp
  then have "(unat b + 256 * le_nat bs) div 256 = le_nat bs"
    by simp
  moreover have "(word_of_nat (unat b + 256 * le_nat bs) :: u8) = b"
  proof (rule word_unat_eq_iff [THEN iffD2])
    show "unat (word_of_nat (unat b + 256 * le_nat bs) :: u8) = unat b"
      by (simp only: unat_byte_of_nat mod_mult_self2 mod_less [OF b])
  qed
  ultimately show ?case using Cons by simp
qed

section \<open>Memory\<close>

definition rd_bytes :: "memory \<Rightarrow> nat \<Rightarrow> nat \<Rightarrow> u8 list" where
  "rd_bytes m a k = map m [a..<a + k]"

definition wr_bytes :: "memory \<Rightarrow> nat \<Rightarrow> u8 list \<Rightarrow> memory" where
  "wr_bytes m a bs = (\<lambda>i. if a \<le> i \<and> i < a + length bs then bs ! (i - a) else m i)"

definition rd :: "nat \<Rightarrow> memory \<Rightarrow> nat \<Rightarrow> nat" where
  "rd k m a = le_nat (rd_bytes m a k)"

abbreviation ReadUnaligned16 :: "memory \<Rightarrow> nat \<Rightarrow> nat" where
  "ReadUnaligned16 \<equiv> rd 2"

abbreviation ReadUnaligned32 :: "memory \<Rightarrow> nat \<Rightarrow> nat" where
  "ReadUnaligned32 \<equiv> rd 4"

text \<open>Two memories agree on the addresses from \<open>lo\<close> up to, not including, \<open>hi\<close>.\<close>

definition same_on :: "nat \<Rightarrow> nat \<Rightarrow> memory \<Rightarrow> memory \<Rightarrow> bool" where
  "same_on lo hi m m' \<longleftrightarrow> (\<forall>i. lo \<le> i \<and> i < hi \<longrightarrow> m i = m' i)"

lemma length_rd_bytes [simp]: "length (rd_bytes m a k) = k"
  by (simp add: rd_bytes_def)

lemma rd_bytes_0 [simp]: "rd_bytes m a 0 = []"
  by (simp add: rd_bytes_def)

lemma rd_bytes_Suc: "rd_bytes m a (Suc k) = m a # rd_bytes m (Suc a) k"
  by (simp add: rd_bytes_def upt_conv_Cons del: upt_Suc)

lemma rd_bytes_nth [simp]: "i < k \<Longrightarrow> rd_bytes m a k ! i = m (a + i)"
  by (simp add: rd_bytes_def)

lemma rd_bytes_append: "rd_bytes m a (j + k) = rd_bytes m a j @ rd_bytes m (a + j) k"
proof -
  have "[a..<a + (j + k)] = [a..<a + j] @ [a + j..<a + j + k]"
    using upt_add_eq_append [of a "a + j" k] by (simp only: le_add1 add.assoc)
  then show ?thesis
    by (simp only: rd_bytes_def map_append)
qed

lemma rd_bound: "rd k m a < 256 ^ k"
  unfolding rd_def using le_nat_bound [of "rd_bytes m a k"] by simp

lemma rd_1 [simp]: "rd (Suc 0) m a = unat (m a)"
  by (simp add: rd_def rd_bytes_def)

lemma rd_2: "rd 2 m a = unat (m a) + 256 * unat (m (Suc a))"
proof -
  have "rd_bytes m a (Suc (Suc 0)) = [m a, m (Suc a)]"
    by (simp only: rd_bytes_Suc rd_bytes_0)
  then show ?thesis
    by (simp only: rd_def numeral_2_eq_2 le_nat.simps) simp
qed

lemma rd_bytes_cong: "same_on lo hi m m' \<Longrightarrow> lo \<le> a \<Longrightarrow> a + k \<le> hi \<Longrightarrow> rd_bytes m a k = rd_bytes m' a k"
  by (auto simp: same_on_def rd_bytes_def)

lemma rd_cong: "same_on lo hi m m' \<Longrightarrow> lo \<le> a \<Longrightarrow> a + k \<le> hi \<Longrightarrow> rd k m a = rd k m' a"
  by (simp add: rd_def rd_bytes_cong)

lemma same_onD: "same_on lo hi m m' \<Longrightarrow> lo \<le> i \<Longrightarrow> i < hi \<Longrightarrow> m i = m' i"
  by (simp add: same_on_def)

lemma same_on_refl [simp]: "same_on lo hi m m"
  by (simp add: same_on_def)

lemma same_on_sym: "same_on lo hi m m' \<Longrightarrow> same_on lo hi m' m"
  by (simp add: same_on_def)

lemma same_on_trans: "same_on lo hi m m' \<Longrightarrow> same_on lo hi m' m'' \<Longrightarrow> same_on lo hi m m''"
  by (simp add: same_on_def)

lemma same_on_sub: "same_on lo hi m m' \<Longrightarrow> lo \<le> lo' \<Longrightarrow> hi' \<le> hi \<Longrightarrow> same_on lo' hi' m m'"
  by (simp add: same_on_def)

lemma wr_bytes_Nil [simp]: "wr_bytes m a [] = m"
  by (auto simp: wr_bytes_def fun_eq_iff)

lemma wr_bytes_in: "a \<le> i \<Longrightarrow> i < a + length bs \<Longrightarrow> wr_bytes m a bs i = bs ! (i - a)"
  by (simp add: wr_bytes_def)

lemma wr_bytes_out: "i < a \<or> a + length bs \<le> i \<Longrightarrow> wr_bytes m a bs i = m i"
  by (auto simp: wr_bytes_def)

lemma wr_bytes_append:
  "wr_bytes (wr_bytes m a xs) (a + length xs) ys = wr_bytes m a (xs @ ys)"
  by (auto simp: wr_bytes_def nth_append fun_eq_iff)

lemma wr_bytes_append':
  "b = a + length xs \<Longrightarrow> wr_bytes (wr_bytes m a xs) b ys = wr_bytes m a (xs @ ys)"
  by (simp add: wr_bytes_append)

lemma wr_bytes_over:
  "length xs = length ys \<Longrightarrow> wr_bytes (wr_bytes m a (xs @ zs)) a ys = wr_bytes m a (ys @ zs)"
  by (auto simp: wr_bytes_def nth_append fun_eq_iff)

lemma wr_bytes_mid:
  "b = a + length xs \<Longrightarrow> length ys = length ys' \<Longrightarrow>
   wr_bytes (wr_bytes m a (xs @ ys @ zs)) b ys' = wr_bytes m a (xs @ ys' @ zs)"
  by (auto simp: wr_bytes_def nth_append fun_eq_iff)

lemma wr_bytes_comm:
  "a + length xs \<le> b \<or> b + length ys \<le> a \<Longrightarrow>
   wr_bytes (wr_bytes m a xs) b ys = wr_bytes (wr_bytes m b ys) a xs"
  by (auto simp: wr_bytes_def fun_eq_iff)

lemma wr_bytes_rd_bytes [simp]: "wr_bytes m a (rd_bytes m a k) = m"
  by (auto simp: wr_bytes_def fun_eq_iff)

lemma rd_bytes_wr_sub:
  "off + k \<le> length bs \<Longrightarrow> rd_bytes (wr_bytes m a bs) (a + off) k = take k (drop off bs)"
  by (rule nth_equalityI) (auto simp: wr_bytes_def)

lemma rd_bytes_wr_same [simp]: "rd_bytes (wr_bytes m a bs) a (length bs) = bs"
  using rd_bytes_wr_sub [of 0 "length bs" bs m a] by simp

lemma rd_bytes_wr_disjoint:
  "b + k \<le> a \<or> a + length bs \<le> b \<Longrightarrow> rd_bytes (wr_bytes m a bs) b k = rd_bytes m b k"
  by (rule nth_equalityI) (auto simp: wr_bytes_def)

lemma rd_wr_disjoint:
  "b + k \<le> a \<or> a + length bs \<le> b \<Longrightarrow> rd k (wr_bytes m a bs) b = rd k m b"
  by (simp add: rd_def rd_bytes_wr_disjoint)

lemma rd_wr_sub:
  "off + k \<le> length bs \<Longrightarrow> rd k (wr_bytes m a bs) (a + off) = le_nat (take k (drop off bs))"
  by (simp add: rd_def rd_bytes_wr_sub)

lemma same_on_wr: "hi \<le> a \<or> a + length bs \<le> lo \<Longrightarrow> same_on lo hi (wr_bytes m a bs) m"
  by (auto simp: same_on_def wr_bytes_def)

lemmas [mem_simps] = rd_bytes_wr_sub rd_wr_sub rd_bytes_wr_disjoint rd_wr_disjoint
  wr_bytes_in wr_bytes_out

text \<open>A byte sequence can be programmed over another if it only clears bits (a flash part
  whose erased state is all ones).\<close>

definition programmable_byte :: "u8 \<Rightarrow> u8 \<Rightarrow> bool" where
  "programmable_byte old new \<longleftrightarrow> NOT old AND new = 0"

lemma programmable_erased [simp]: "programmable_byte 0xFF b"
proof -
  have "NOT (0xFF :: u8) = 0" by code_simp
  then show ?thesis by (simp only: programmable_byte_def and_zero_eq zero_and_eq)
qed

lemma programmable_refl [simp]: "programmable_byte b b"
  by (simp add: programmable_byte_def)

definition erased :: "memory \<Rightarrow> nat \<Rightarrow> nat \<Rightarrow> bool" where
  "erased m lo hi \<longleftrightarrow> (\<forall>i. lo \<le> i \<and> i < hi \<longrightarrow> m i = 0xFF)"

lemma erasedD: "erased m lo hi \<Longrightarrow> lo \<le> i \<Longrightarrow> i < hi \<Longrightarrow> m i = 0xFF"
  by (simp add: erased_def)

lemma erased_sub: "erased m lo hi \<Longrightarrow> lo \<le> lo' \<Longrightarrow> hi' \<le> hi \<Longrightarrow> erased m lo' hi'"
  by (simp add: erased_def)

section \<open>Counted loops over options\<close>

lemma find_append:
  "List.find P (xs @ ys) = (case List.find P xs of None \<Rightarrow> List.find P ys | Some x \<Rightarrow> Some x)"
  by (induction xs) auto

lemma find_cong_set: "(\<And>x. x \<in> set xs \<Longrightarrow> P x = Q x) \<Longrightarrow> List.find P xs = List.find Q xs"
  by (induction xs) auto

end
