(* ===== verification/NvramRead.thy ===== *)
theory NvramRead
  imports Prelude
begin

text \<open>
  The NVRAM data area access routines of \<^verbatim>\<open>AmiModulePkg/NVRAM/NvramRead.c\<close>, over the byte
  image of a variable store.

  A store is a region of memory described by an \<^verbatim>\<open>NVRAM_STORE_INFO\<close>.  Variable records
  (\<^verbatim>\<open>NVAR\<close>) lie one after the other from \<open>pFirstVar\<close> to \<open>pEndOfVars\<close>; GUIDs referenced by
  index grow downwards from \<open>NvramGuidsAddress\<close>.  A record is a ten-byte header (signature,
  size, next, flags), the GUID or a GUID index and the name unless the record is data-only,
  the data, and an optional extended header at its end.  A record's \<open>next\<close> field links it to
  the record that holds a newer value of the variable.

  The erase polarity of the flash part is the one of the build
  (\<^verbatim>\<open>FLASH_ERASE_POLARITY = 1\<close>): an erased byte is \<open>0xFF\<close>.
\<close>

section \<open>Constants and records\<close>

definition FLASH_EMPTY_BYTE :: u8 where [nv_consts]: "FLASH_EMPTY_BYTE = 0xFF"
definition FLASH_EMPTY_FLAG :: u8 where [nv_consts]: "FLASH_EMPTY_FLAG = FLASH_EMPTY_BYTE"
definition FLASH_EMPTY_NEXT :: nat where [nv_consts]: "FLASH_EMPTY_NEXT = 0xFFFFFF"
definition FLASH_EMPTY_SIZE :: nat where [nv_consts]: "FLASH_EMPTY_SIZE = 0xFFFF"
definition FLASH_EMPTY_SIGNATURE :: nat where [nv_consts]: "FLASH_EMPTY_SIGNATURE = 0xFFFFFFFF"

definition NVRAM_FLAG_VALID :: u8 where [nv_consts]: "NVRAM_FLAG_VALID = 0x80"
definition NVRAM_FLAG_RUNTIME :: u8 where [nv_consts]: "NVRAM_FLAG_RUNTIME = 1"
definition NVRAM_FLAG_ASCII_NAME :: u8 where [nv_consts]: "NVRAM_FLAG_ASCII_NAME = 2"
definition NVRAM_FLAG_GUID :: u8 where [nv_consts]: "NVRAM_FLAG_GUID = 4"
definition NVRAM_FLAG_DATA_ONLY :: u8 where [nv_consts]: "NVRAM_FLAG_DATA_ONLY = 8"
definition NVRAM_FLAG_EXT_HEDER :: u8 where [nv_consts]: "NVRAM_FLAG_EXT_HEDER = 0x10"
definition NVRAM_FLAG_HARDWARE_ERROR_RECORD :: u8 where
  [nv_consts]: "NVRAM_FLAG_HARDWARE_ERROR_RECORD = 0x20"
definition NVRAM_FLAG_AUTH_WRITE :: u8 where [nv_consts]: "NVRAM_FLAG_AUTH_WRITE = 0x40"
definition NVRAM_EXT_FLAG_CHECKSUM :: u8 where [nv_consts]: "NVRAM_EXT_FLAG_CHECKSUM = 1"

definition ALL_FLAGS :: u8 where
  "ALL_FLAGS = NVRAM_FLAG_VALID OR NVRAM_FLAG_RUNTIME OR NVRAM_FLAG_ASCII_NAME OR NVRAM_FLAG_GUID
     OR NVRAM_FLAG_DATA_ONLY OR NVRAM_FLAG_EXT_HEDER OR NVRAM_FLAG_HARDWARE_ERROR_RECORD
     OR NVRAM_FLAG_AUTH_WRITE"

text \<open>\<^verbatim>\<open>NVAR_SIGNATURE\<close> is the text \<open>NVAR\<close> read as a little-endian 32-bit number.\<close>

definition NVAR_SIGNATURE :: nat where
  [nv_consts]: "NVAR_SIGNATURE = 0x4E + 0x56 * 256 + (0x41 + 0x52 * 256) * 65536"

definition NVRAM_STORE_FLAG_NON_VALATILE :: u8 where
  [nv_consts]: "NVRAM_STORE_FLAG_NON_VALATILE = 1"
definition NVRAM_STORE_FLAG_READ_ONLY :: u8 where
  [nv_consts]: "NVRAM_STORE_FLAG_READ_ONLY = 2"
definition NVRAM_STORE_FLAG_DO_NOT_ENUMERATE :: u8 where
  [nv_consts]: "NVRAM_STORE_FLAG_DO_NOT_ENUMERATE = 4"

definition EFI_VARIABLE_NON_VOLATILE :: u32 where [nv_consts]: "EFI_VARIABLE_NON_VOLATILE = 1"
definition EFI_VARIABLE_BOOTSERVICE_ACCESS :: u32 where
  [nv_consts]: "EFI_VARIABLE_BOOTSERVICE_ACCESS = 2"
definition EFI_VARIABLE_RUNTIME_ACCESS :: u32 where
  [nv_consts]: "EFI_VARIABLE_RUNTIME_ACCESS = 4"
definition EFI_VARIABLE_HARDWARE_ERROR_RECORD :: u32 where
  [nv_consts]: "EFI_VARIABLE_HARDWARE_ERROR_RECORD = 8"
definition EFI_VARIABLE_AUTHENTICATED_WRITE_ACCESS :: u32 where
  [nv_consts]: "EFI_VARIABLE_AUTHENTICATED_WRITE_ACCESS = 0x10"
definition EFI_VARIABLE_TIME_BASED_AUTHENTICATED_WRITE_ACCESS :: u32 where
  [nv_consts]: "EFI_VARIABLE_TIME_BASED_AUTHENTICATED_WRITE_ACCESS = 0x20"
definition EFI_VARIABLE_APPEND_WRITE :: u32 where [nv_consts]: "EFI_VARIABLE_APPEND_WRITE = 0x40"

definition UEFI23_1_AUTHENTICATED_VARIABLE_ATTRIBUTES :: u32 where
  [nv_consts]: "UEFI23_1_AUTHENTICATED_VARIABLE_ATTRIBUTES = 0x30"

text \<open>\<^verbatim>\<open>sizeof(NVAR)\<close> of the packed header, and \<^verbatim>\<open>sizeof(EFI_GUID)\<close>.\<close>

definition sizeof_NVAR :: nat where [nv_consts]: "sizeof_NVAR = 10"
definition sizeof_GUID :: nat where [nv_consts]: "sizeof_GUID = 16"

record NVRAM_STORE_INFO =
  NvramAddress :: nat
  NvramSize :: nat
  NvramGuidsAddress :: nat
  pEndOfVars :: nat
  pFirstVar :: nat
  NextGuid :: nat
  LastVarSize :: nat
  pLastReturned :: "nat option"
  Flags :: u8

text \<open>Bit tests of the source, \<^verbatim>\<open>x & mask\<close> used as a truth value.\<close>

definition has :: "'a::len word \<Rightarrow> 'a word \<Rightarrow> bool" where
  "has x b \<longleftrightarrow> x AND b \<noteq> 0"

section \<open>Header fields\<close>

definition nvar_signature :: "memory \<Rightarrow> nat \<Rightarrow> nat" where
  "nvar_signature m p = ReadUnaligned32 m p"

definition nvar_size :: "memory \<Rightarrow> nat \<Rightarrow> nat" where
  "nvar_size m p = ReadUnaligned16 m (p + 4)"

definition nvar_next :: "memory \<Rightarrow> nat \<Rightarrow> nat" where
  "nvar_next m p = rd 3 m (p + 6)"

definition nvar_flags :: "memory \<Rightarrow> nat \<Rightarrow> u8" where
  "nvar_flags m p = m (p + 9)"

section \<open>Low level access routines\<close>

definition NvGetGuid :: "memory \<Rightarrow> nat \<Rightarrow> NVRAM_STORE_INFO \<Rightarrow> nat" where
  "NvGetGuid m pVar info =
     (if has (nvar_flags m pVar) NVRAM_FLAG_GUID then pVar + sizeof_NVAR
      else NvramGuidsAddress info - sizeof_GUID * unat (m (pVar + sizeof_NVAR)))"

definition NvGetName :: "memory \<Rightarrow> nat \<Rightarrow> nat" where
  "NvGetName m pVar =
     pVar + sizeof_NVAR + (if has (nvar_flags m pVar) NVRAM_FLAG_GUID then sizeof_GUID else 1)"

definition NvGetExtSize :: "memory \<Rightarrow> nat \<Rightarrow> nat" where
  "NvGetExtSize m pVar = pVar + nvar_size m pVar - 2"

definition NvGetExtFlags :: "memory \<Rightarrow> nat \<Rightarrow> nat" where
  "NvGetExtFlags m pVar = NvGetExtSize m pVar + 2 - ReadUnaligned16 m (NvGetExtSize m pVar)"

definition NvCalculateNvarChecksum :: "memory \<Rightarrow> nat \<Rightarrow> u8" where
  "NvCalculateNvarChecksum m pVar =
     (if \<not> has (nvar_flags m pVar) NVRAM_FLAG_EXT_HEDER
         \<or> \<not> has (m (NvGetExtFlags m pVar)) NVRAM_EXT_FLAG_CHECKSUM
      then 0
      else 0 - (sum_list (rd_bytes m (pVar + sizeof_NVAR) (nvar_size m pVar - sizeof_NVAR))
                + sum_list (rd_bytes m (pVar + 4) 2)
                + nvar_flags m pVar))"

section \<open>Validation routines\<close>

definition NvIsValid :: "memory \<Rightarrow> nat \<Rightarrow> bool" where
  "NvIsValid m pVar \<longleftrightarrow>
     has (nvar_flags m pVar XOR NOT FLASH_EMPTY_FLAG) NVRAM_FLAG_VALID
     \<and> \<not> has (nvar_flags m pVar) NVRAM_FLAG_DATA_ONLY"

text \<open>The size test shared by \<^verbatim>\<open>NvIsVariable\<close> and the skipping loop of \<^verbatim>\<open>NvGetNextNvar\<close>.\<close>

definition nvar_size_ok :: "memory \<Rightarrow> nat \<Rightarrow> NVRAM_STORE_INFO \<Rightarrow> bool" where
  "nvar_size_ok m pVar info \<longleftrightarrow>
     nvar_size m pVar \<noteq> FLASH_EMPTY_SIZE \<and> nvar_size m pVar > sizeof_NVAR
     \<and> pVar + nvar_size m pVar \<le> pEndOfVars info"

definition NvIsVariable :: "memory \<Rightarrow> nat \<Rightarrow> NVRAM_STORE_INFO \<Rightarrow> bool" where
  "NvIsVariable m pVar info \<longleftrightarrow>
     nvar_signature m pVar = NVAR_SIGNATURE
     \<and> nvar_flags m pVar \<noteq> FLASH_EMPTY_FLAG
     \<and> \<not> has (nvar_flags m pVar) (NOT ALL_FLAGS)
     \<and> nvar_size_ok m pVar info
     \<and> (nvar_next m pVar = FLASH_EMPTY_NEXT
        \<or> nvar_next m pVar \<ge> nvar_size m pVar
          \<and> nvar_next m pVar \<le> (pEndOfVars info - pVar) mod 2 ^ 32)
     \<and> (\<not> has (nvar_flags m pVar) NVRAM_FLAG_EXT_HEDER
        \<or> \<not> has (m (NvGetExtFlags m pVar)) NVRAM_EXT_FLAG_CHECKSUM
        \<or> \<not> has (nvar_flags m pVar) NVRAM_FLAG_VALID
        \<or> NvCalculateNvarChecksum m pVar = 0)"

lemma NvIsVariable_size_ok: "NvIsVariable m p info \<Longrightarrow> nvar_size_ok m p info"
  by (simp add: NvIsVariable_def)

lemma nvar_size_okD:
  assumes "nvar_size_ok m p info"
  shows "10 < nvar_size m p" "p + nvar_size m p \<le> pEndOfVars info"
    "p < p + nvar_size m p" "p + 10 < pEndOfVars info"
  using assms by (auto simp: nvar_size_ok_def sizeof_NVAR_def)

lemma NvIsVariable_next:
  assumes "NvIsVariable m p info" and "nvar_next m p \<noteq> FLASH_EMPTY_NEXT"
  shows "nvar_size m p \<le> nvar_next m p" "p + nvar_next m p \<le> pEndOfVars info"
proof -
  from assms show "nvar_size m p \<le> nvar_next m p"
    by (simp add: NvIsVariable_def)
  from assms have "nvar_next m p \<le> (pEndOfVars info - p) mod 2 ^ 32"
    by (simp add: NvIsVariable_def)
  also have "\<dots> \<le> pEndOfVars info - p"
    by simp
  finally show "p + nvar_next m p \<le> pEndOfVars info"
    using nvar_size_okD(4) [OF NvIsVariable_size_ok [OF assms(1)]] by simp
qed

section \<open>Iteration routines\<close>

text \<open>The loop of \<^verbatim>\<open>NvGetDataNvar\<close>; \<open>pLastVar\<close> is its second variable.\<close>

function NvGetDataNvar_loop :: "memory \<Rightarrow> NVRAM_STORE_INFO \<Rightarrow> nat \<Rightarrow> nat option \<Rightarrow> nat option" where
  "NvGetDataNvar_loop m info pVar pLastVar =
     (if NvIsVariable m pVar info
      then if nvar_next m pVar = FLASH_EMPTY_NEXT then Some pVar
           else NvGetDataNvar_loop m info (pVar + nvar_next m pVar) (Some pVar)
      else pLastVar)"
  by pat_completeness auto
termination
proof (relation "measure (\<lambda>(m, info, p, l). pEndOfVars info - p)", simp)
  fix m info p l
  assume v: "NvIsVariable m p info" and n: "nvar_next m p \<noteq> FLASH_EMPTY_NEXT"
  from NvIsVariable_next [OF v n] nvar_size_okD [OF NvIsVariable_size_ok [OF v]]
  show "((m, info, p + nvar_next m p, Some p), m, info, p, l)
          \<in> measure (\<lambda>(m, info, p, l). pEndOfVars info - p)"
    by simp
qed

declare NvGetDataNvar_loop.simps [simp del]

definition NvGetDataNvar :: "memory \<Rightarrow> nat \<Rightarrow> NVRAM_STORE_INFO \<Rightarrow> nat option" where
  "NvGetDataNvar m pVar info = NvGetDataNvar_loop m info pVar None"

text \<open>The \<^verbatim>\<open>do ... while (TRUE)\<close> loop of \<^verbatim>\<open>NvGetNextNvar\<close>: skip corrupted records whose size
  field is usable, give up at the first one whose size is not.\<close>

function NvGetNextNvar_loop :: "memory \<Rightarrow> NVRAM_STORE_INFO \<Rightarrow> nat \<Rightarrow> nat option" where
  "NvGetNextNvar_loop m info pVar =
     (if pEndOfVars info \<le> pVar then None
      else if NvIsVariable m pVar info then Some pVar
      else if nvar_size_ok m pVar info then NvGetNextNvar_loop m info (pVar + nvar_size m pVar)
      else None)"
  by pat_completeness auto
termination
proof (relation "measure (\<lambda>(m, info, p). pEndOfVars info - p)", simp)
  fix m info p
  assume "\<not> pEndOfVars info \<le> p" and "nvar_size_ok m p info"
  then show "((m, info, p + nvar_size m p), m, info, p)
               \<in> measure (\<lambda>(m, info, p). pEndOfVars info - p)"
    using nvar_size_okD(1) [of m p info] by simp
qed

declare NvGetNextNvar_loop.simps [simp del]

definition NvGetNextNvar :: "memory \<Rightarrow> nat option \<Rightarrow> NVRAM_STORE_INFO \<Rightarrow> nat option" where
  "NvGetNextNvar m pVar info =
     (case pVar of None \<Rightarrow> None
      | Some p \<Rightarrow>
          if pEndOfVars info \<le> p then None
          else if NvIsVariable m p info
          then if pEndOfVars info \<le> p + nvar_size m p then None
               else NvGetNextNvar_loop m info (p + nvar_size m p)
          else NvGetNextNvar_loop m info p)"

lemma NvGetNextNvar_loop_Some:
  "NvGetNextNvar_loop m info p = Some q \<Longrightarrow> p \<le> q \<and> q < pEndOfVars info \<and> NvIsVariable m q info"
proof (induction m info p rule: NvGetNextNvar_loop.induct)
  case (1 m info p)
  then show ?case
    by (subst (asm) (2) NvGetNextNvar_loop.simps) (auto split: if_splits)
qed

lemma NvGetNextNvar_loop_greater:
  assumes "NvGetNextNvar_loop m info p = Some q" and "\<not> NvIsVariable m p info"
  shows "p < q"
proof -
  from NvGetNextNvar_loop_Some [OF assms(1)] have "p \<le> q" and "NvIsVariable m q info"
    by auto
  with assms(2) show ?thesis
    by (cases "p = q") auto
qed

text \<open>Iteration always moves forward and stays inside the store.\<close>

lemma NvGetNextNvar_Some:
  assumes "NvGetNextNvar m (Some p) info = Some q"
  shows "p < q \<and> q < pEndOfVars info \<and> NvIsVariable m q info"
proof (cases "NvIsVariable m p info")
  case True
  with assms have "NvGetNextNvar_loop m info (p + nvar_size m p) = Some q"
    by (auto simp: NvGetNextNvar_def split: if_splits)
  from NvGetNextNvar_loop_Some [OF this] nvar_size_okD(3) [OF NvIsVariable_size_ok [OF True]]
  show ?thesis by linarith
next
  case False
  with assms have "NvGetNextNvar_loop m info p = Some q"
    by (auto simp: NvGetNextNvar_def split: if_splits)
  with NvGetNextNvar_loop_Some NvGetNextNvar_loop_greater False show ?thesis
    by blast
qed

function NvGetNextValid :: "memory \<Rightarrow> nat option \<Rightarrow> NVRAM_STORE_INFO \<Rightarrow> nat option" where
  "NvGetNextValid m pVar info =
     (case NvGetNextNvar m pVar info of
        None \<Rightarrow> None
      | Some q \<Rightarrow> if NvIsValid m q then Some q else NvGetNextValid m (Some q) info)"
  by pat_completeness auto
termination
proof (relation "measure (\<lambda>(m, p, info). case p of None \<Rightarrow> 0 | Some q \<Rightarrow> Suc (pEndOfVars info) - q)",
    simp)
  fix m :: memory and p info q
  assume q: "NvGetNextNvar m p info = Some q"
  then obtain p' where p': "p = Some p'"
    by (cases p) (auto simp: NvGetNextNvar_def)
  with q have "p' < q" and "q < pEndOfVars info"
    using NvGetNextNvar_Some by blast+
  with p' show "((m, Some q, info), m, p, info)
      \<in> measure (\<lambda>(m, p, info). case p of None \<Rightarrow> 0 | Some q \<Rightarrow> Suc (pEndOfVars info) - q)"
    by (simp add: diff_less_mono2)
qed

declare NvGetNextValid.simps [simp del]

definition NvGetFirstValid :: "memory \<Rightarrow> NVRAM_STORE_INFO \<Rightarrow> nat option" where
  "NvGetFirstValid m info =
     (let pNvar = pFirstVar info in
      if \<not> NvIsVariable m pNvar info then None
      else if NvIsValid m pNvar then Some pNvar
      else NvGetNextValid m (Some pNvar) info)"

lemma NvGetNextValid_Some:
  "NvGetNextValid m (Some p) info = Some q \<Longrightarrow>
     p < q \<and> q < pEndOfVars info \<and> NvIsVariable m q info \<and> NvIsValid m q"
proof (induction m "Some p" info arbitrary: p rule: NvGetNextValid.induct)
  case (1 m info p)
  from "1.prems" obtain r where r: "NvGetNextNvar m (Some p) info = Some r"
    by (subst (asm) NvGetNextValid.simps) (auto split: option.splits)
  note pr = NvGetNextNvar_Some [OF r]
  show ?case
  proof (cases "NvIsValid m r")
    case True
    with "1.prems" r pr show ?thesis
      by (subst (asm) NvGetNextValid.simps) auto
  next
    case False
    with "1.prems" r have "NvGetNextValid m (Some r) info = Some q"
      by (subst (asm) NvGetNextValid.simps) auto
    with "1.hyps" [OF r False] pr show ?thesis by auto
  qed
qed

text \<open>The measure of every loop that advances with \<^verbatim>\<open>NvGetNextValid\<close>.\<close>

definition next_measure :: "NVRAM_STORE_INFO \<Rightarrow> nat option \<Rightarrow> nat" where
  "next_measure info p = (case p of None \<Rightarrow> 0 | Some q \<Rightarrow> Suc (Suc (pEndOfVars info) - q))"

lemma NvGetNextValid_measure:
  "next_measure info (NvGetNextValid m (Some p) info) < next_measure info (Some p)"
proof (cases "NvGetNextValid m (Some p) info")
  case None
  then show ?thesis by (simp add: next_measure_def)
next
  case (Some q)
  from NvGetNextValid_Some [OF Some] have "p < q" "q < pEndOfVars info" by auto
  with Some show ?thesis by (simp add: next_measure_def diff_less_mono2)
qed

section \<open>Data of a record\<close>

text \<open>\<^verbatim>\<open>NvGetData\<close> returns the address of the data and stores its size; the size is computed
  in \<^verbatim>\<open>UINTN\<close> arithmetic.\<close>

definition NvGetData :: "memory \<Rightarrow> nat \<Rightarrow> nat \<Rightarrow> NVRAM_STORE_INFO \<Rightarrow> (nat \<times> nat) option" where
  "NvGetData m pVar NameLength info =
     (case NvGetDataNvar m pVar info of
        None \<Rightarrow> None
      | Some p \<Rightarrow>
          let DataOffset = sizeof_NVAR +
                (if \<not> has (nvar_flags m p) NVRAM_FLAG_DATA_ONLY
                 then NameLength + (if has (nvar_flags m p) NVRAM_FLAG_GUID then sizeof_GUID else 1)
                 else 0);
              ExtSize = (if has (nvar_flags m p) NVRAM_FLAG_EXT_HEDER
                         then ReadUnaligned16 m (NvGetExtSize m p) else 0)
          in Some (p + DataOffset, uintn_sub (uintn_sub (nvar_size m p) DataOffset) ExtSize))"

section \<open>Comparison routines\<close>

definition NvAttribEq :: "memory \<Rightarrow> nat \<Rightarrow> u32 \<Rightarrow> NVRAM_STORE_INFO \<Rightarrow> bool" where
  "NvAttribEq m pNvar Attributes info \<longleftrightarrow>
     (\<not> has (nvar_flags m pNvar) NVRAM_FLAG_RUNTIME) = (\<not> has Attributes EFI_VARIABLE_RUNTIME_ACCESS)
     \<and> (\<not> has (Flags info) NVRAM_STORE_FLAG_NON_VALATILE) = (\<not> has Attributes EFI_VARIABLE_NON_VOLATILE)
     \<and> (\<not> has (nvar_flags m pNvar) NVRAM_FLAG_HARDWARE_ERROR_RECORD)
       = (\<not> has Attributes EFI_VARIABLE_HARDWARE_ERROR_RECORD)
     \<and> (\<not> has (nvar_flags m pNvar) NVRAM_FLAG_AUTH_WRITE)
       = (\<not> has Attributes UEFI23_1_AUTHENTICATED_VARIABLE_ATTRIBUTES)"

text \<open>Names in a store are zero-terminated strings of one-byte or two-byte characters; \<open>w\<close> is
  the width.  Names passed by a caller are lists of characters whose terminator is implicit.\<close>

definition name_width :: "memory \<Rightarrow> nat \<Rightarrow> nat" where
  "name_width m p = (if has (nvar_flags m p) NVRAM_FLAG_ASCII_NAME then 1 else 2)"

definition name_char :: "nat \<Rightarrow> memory \<Rightarrow> nat \<Rightarrow> char16" where
  "name_char w m p = word_of_nat (rd w m p)"

text \<open>The comparison loop of \<^verbatim>\<open>NvarEqNvar\<close> runs until a difference or a terminator; in a memory
  with neither it does not return.\<close>

partial_function (option) NvarEqNvar_names :: "nat \<Rightarrow> memory \<Rightarrow> nat \<Rightarrow> nat \<Rightarrow> bool option" where
  "NvarEqNvar_names w m a b =
     (if name_char w m a \<noteq> 0 \<and> name_char w m a = name_char w m b
      then NvarEqNvar_names w m (a + w) (b + w)
      else Some (name_char w m a = name_char w m b))"

definition NvarEqNvar ::
    "memory \<Rightarrow> nat \<Rightarrow> NVRAM_STORE_INFO \<Rightarrow> nat \<Rightarrow> NVRAM_STORE_INFO \<Rightarrow> bool option" where
  "NvarEqNvar m Nvar1 Info1 Nvar2 Info2 =
     (if has (nvar_flags m Nvar1) NVRAM_FLAG_ASCII_NAME \<noteq> has (nvar_flags m Nvar2) NVRAM_FLAG_ASCII_NAME
      then Some False
      else if Flags Info1 AND NVRAM_STORE_FLAG_NON_VALATILE \<noteq> Flags Info2 AND NVRAM_STORE_FLAG_NON_VALATILE
      then Some False
      else if rd_bytes m (NvGetGuid m Nvar1 Info1) sizeof_GUID \<noteq> rd_bytes m (NvGetGuid m Nvar2 Info2) sizeof_GUID
      then Some False
      else NvarEqNvar_names (name_width m Nvar1) m (NvGetName m Nvar1) (NvGetName m Nvar2))"

text \<open>The two comparison loops of \<^verbatim>\<open>NvVarEq\<close>, on one-byte and two-byte characters: the result
  is the address just after the terminator of the record's name, if the names are equal.\<close>

fun NvVarEq_name :: "nat \<Rightarrow> memory \<Rightarrow> nat \<Rightarrow> char16 list \<Rightarrow> nat option" where
  "NvVarEq_name w m pN [] = (if name_char w m pN = 0 then Some (pN + w) else None)"
| "NvVarEq_name w m pN (c # sName) =
     (if name_char w m pN \<noteq> 0 \<and> name_char w m pN = c then NvVarEq_name w m (pN + w) sName
      else if name_char w m pN = c then Some (pN + w) else None)"

text \<open>\<^verbatim>\<open>NvVarEq\<close>: \<open>Some NameSize\<close> for \<^verbatim>\<open>TRUE\<close>, \<open>None\<close> for \<^verbatim>\<open>FALSE\<close>.\<close>

definition NvVarEq ::
    "memory \<Rightarrow> nat \<Rightarrow> char16 list \<Rightarrow> u8 list \<Rightarrow> NVRAM_STORE_INFO \<Rightarrow> nat option" where
  "NvVarEq m pNvar sName pGuid info =
     (case NvVarEq_name (name_width m pNvar) m (NvGetName m pNvar) sName of
        None \<Rightarrow> None
      | Some pN \<Rightarrow>
          if rd_bytes m (NvGetGuid m pNvar info) sizeof_GUID = pGuid
          then Some (pN - NvGetName m pNvar) else None)"

section \<open>High level routines on a single store\<close>

function NvFindVariable_loop ::
    "memory \<Rightarrow> NVRAM_STORE_INFO \<Rightarrow> char16 list \<Rightarrow> u8 list \<Rightarrow> nat option \<Rightarrow> (nat \<times> nat) option" where
  "NvFindVariable_loop m info sName pGuid pNvar =
     (case pNvar of
        None \<Rightarrow> None
      | Some p \<Rightarrow>
          (case NvVarEq m p sName pGuid info of
             Some NameSize \<Rightarrow> Some (p, NameSize)
           | None \<Rightarrow> NvFindVariable_loop m info sName pGuid (NvGetNextValid m (Some p) info)))"
  by pat_completeness auto
termination
  by (relation "measure (\<lambda>(m, info, s, g, p). next_measure info p)")
    (auto simp: NvGetNextValid_measure)

declare NvFindVariable_loop.simps [simp del]

definition NvFindVariable ::
    "memory \<Rightarrow> char16 list \<Rightarrow> u8 list \<Rightarrow> NVRAM_STORE_INFO \<Rightarrow> (nat \<times> nat) option" where
  "NvFindVariable m sName pGuid info =
     NvFindVariable_loop m info sName pGuid (NvGetFirstValid m info)"

function NvFindVariableByNvar_loop ::
    "memory \<Rightarrow> nat \<Rightarrow> NVRAM_STORE_INFO \<Rightarrow> NVRAM_STORE_INFO \<Rightarrow> nat option \<Rightarrow> nat option option" where
  "NvFindVariableByNvar_loop m SourceNvar SourceInfo DestInfo pNvar =
     (case pNvar of
        None \<Rightarrow> Some None
      | Some p \<Rightarrow>
          (case NvarEqNvar m SourceNvar SourceInfo p DestInfo of
             None \<Rightarrow> None
           | Some eq \<Rightarrow>
               if eq then Some (Some p)
               else NvFindVariableByNvar_loop m SourceNvar SourceInfo DestInfo
                      (NvGetNextValid m (Some p) DestInfo)))"
  by pat_completeness auto
termination
  by (relation "measure (\<lambda>(m, n, s, info, p). next_measure info p)")
    (auto simp: NvGetNextValid_measure)

declare NvFindVariableByNvar_loop.simps [simp del]

definition NvFindVariableByNvar ::
    "memory \<Rightarrow> nat \<Rightarrow> NVRAM_STORE_INFO \<Rightarrow> NVRAM_STORE_INFO \<Rightarrow> nat option option" where
  "NvFindVariableByNvar m SourceNvar SourceInfo DestInfo =
     NvFindVariableByNvar_loop m SourceNvar SourceInfo DestInfo (NvGetFirstValid m DestInfo)"

definition nvar_attributes :: "memory \<Rightarrow> nat \<Rightarrow> NVRAM_STORE_INFO \<Rightarrow> u32" where
  "nvar_attributes m pNvar info =
     EFI_VARIABLE_BOOTSERVICE_ACCESS
     OR (if has (nvar_flags m pNvar) NVRAM_FLAG_RUNTIME then EFI_VARIABLE_RUNTIME_ACCESS else 0)
     OR (if has (Flags info) NVRAM_STORE_FLAG_NON_VALATILE then EFI_VARIABLE_NON_VOLATILE else 0)
     OR (if has (nvar_flags m pNvar) NVRAM_FLAG_HARDWARE_ERROR_RECORD
         then EFI_VARIABLE_HARDWARE_ERROR_RECORD else 0)
     OR (if has (nvar_flags m pNvar) NVRAM_FLAG_AUTH_WRITE
         then ucast (m (NvGetExtFlags m pNvar)) AND UEFI23_1_AUTHENTICATED_VARIABLE_ATTRIBUTES else 0)"

text \<open>\<open>Attributes\<close> tells whether the output pointer is not \<^verbatim>\<open>NULL\<close>.\<close>

definition NvGetAttributesFromNvar ::
    "memory \<Rightarrow> nat option \<Rightarrow> NVRAM_STORE_INFO option \<Rightarrow> bool \<Rightarrow> efi_status \<times> u32 option" where
  "NvGetAttributesFromNvar m pNvar pInfo Attributes =
     (case (pNvar, pInfo) of
        (Some p, Some info) \<Rightarrow>
          if \<not> Attributes then (EFI_INVALID_PARAMETER, None)
          else (EFI_SUCCESS, Some (nvar_attributes m p info))
      | _ \<Rightarrow> (EFI_INVALID_PARAMETER, None))"

text \<open>Results of the variable reading services: the status and what was stored through the
  output pointers (\<open>None\<close> where nothing was stored).\<close>

record get_result =
  gr_Status :: efi_status
  gr_Attributes :: "u32 option"
  gr_DataSize :: "nat option"
  gr_Data :: "u8 list option"
  gr_Var :: "nat option"

definition gr_fail :: "efi_status \<Rightarrow> get_result" where
  "gr_fail s = \<lparr>gr_Status = s, gr_Attributes = None, gr_DataSize = None, gr_Data = None, gr_Var = None\<rparr>"

text \<open>\<open>want\<close> tells whether the caller passed an \<^verbatim>\<open>Attributes\<close> pointer.  \<^verbatim>\<open>NvGetData\<close> cannot
  return \<^verbatim>\<open>NULL\<close> here, since \<^verbatim>\<open>NvIsVariable\<close> was tested (\<open>NvGetData_Some\<close> below).\<close>

definition NvGetVariableFromNvar ::
    "memory \<Rightarrow> nat option \<Rightarrow> nat \<Rightarrow> bool \<Rightarrow> nat \<Rightarrow> NVRAM_STORE_INFO \<Rightarrow> get_result" where
  "NvGetVariableFromNvar m pNvar NameSize want DataSize info =
     (case pNvar of
        None \<Rightarrow> gr_fail EFI_NOT_FOUND
      | Some p \<Rightarrow>
          if \<not> NvIsVariable m p info then gr_fail EFI_NOT_FOUND
          else
            let attr = snd (NvGetAttributesFromNvar m (Some p) (Some info) want) in
            (case NvGetData m p NameSize info of
               None \<Rightarrow> gr_fail EFI_NOT_FOUND
             | Some (pN, Size) \<Rightarrow>
                 if DataSize < Size
                 then \<lparr>gr_Status = EFI_BUFFER_TOO_SMALL, gr_Attributes = attr,
                       gr_DataSize = Some Size, gr_Data = None, gr_Var = None\<rparr>
                 else \<lparr>gr_Status = EFI_SUCCESS, gr_Attributes = attr,
                       gr_DataSize = Some Size, gr_Data = Some (rd_bytes m pN Size), gr_Var = None\<rparr>))"

text \<open>Caller arguments of the reading services; \<open>None\<close> is a \<^verbatim>\<open>NULL\<close> pointer.  \<open>Data\<close> tells
  whether the data pointer is not \<^verbatim>\<open>NULL\<close>.\<close>

record get_args =
  ga_VariableName :: "char16 list option"
  ga_VendorGuid :: "u8 list option"
  ga_Attributes :: bool
  ga_DataSize :: "nat option"
  ga_Data :: bool

definition NvGetVariable :: "memory \<Rightarrow> get_args \<Rightarrow> NVRAM_STORE_INFO \<Rightarrow> get_result" where
  "NvGetVariable m a info =
     (case (ga_VariableName a, ga_VendorGuid a, ga_DataSize a) of
        (Some name, Some guid, Some dsize) \<Rightarrow>
          if \<not> ga_Data a \<and> dsize \<noteq> 0 then gr_fail EFI_INVALID_PARAMETER
          else
            let found = NvFindVariable m name guid info;
                pNvar = map_option fst found;
                NameSize = (case found of None \<Rightarrow> 0 | Some (_, n) \<Rightarrow> n)
            in (NvGetVariableFromNvar m pNvar NameSize (ga_Attributes a) dsize info)\<lparr>gr_Var := pNvar\<rparr>
      | _ \<Rightarrow> gr_fail EFI_INVALID_PARAMETER)"

text \<open>Arguments of the enumeration services, stored to and read through pointers.\<close>

record name_args =
  na_VariableNameSize :: "nat option"
  na_VariableName :: "char16 list option"
  na_VendorGuid :: "u8 list option"

text \<open>The scanning loop \<^verbatim>\<open>while (*pN++);\<close>, which returns the address after the terminator, and
  the copying loop.\<close>

partial_function (option) name_end :: "nat \<Rightarrow> memory \<Rightarrow> nat \<Rightarrow> nat option" where
  "name_end w m pN = (if name_char w m pN \<noteq> 0 then name_end w m (pN + w) else Some (pN + w))"

partial_function (option) name_copy :: "nat \<Rightarrow> memory \<Rightarrow> nat \<Rightarrow> char16 list option" where
  "name_copy w m pN =
     (if name_char w m pN \<noteq> 0
      then Option.bind (name_copy w m (pN + w)) (\<lambda>cs. Some (name_char w m pN # cs))
      else Some [])"

declare NvarEqNvar_names.simps [code] name_end.simps [code] name_copy.simps [code]

definition NvGetNameFromNvar ::
    "memory \<Rightarrow> nat option \<Rightarrow> name_args \<Rightarrow> NVRAM_STORE_INFO
       \<Rightarrow> (efi_status \<times> name_args \<times> NVRAM_STORE_INFO) option" where
  "NvGetNameFromNvar m pNvar a info =
     (case (pNvar, na_VariableNameSize a, na_VariableName a, na_VendorGuid a) of
        (Some p, Some bufsize, Some _, Some _) \<Rightarrow>
          do {
            let pNameStart = NvGetName m p;
            pN \<leftarrow> name_end (name_width m p) m pNameStart;
            let NameSize = (if has (nvar_flags m p) NVRAM_FLAG_ASCII_NAME
                            then (pN - pNameStart) * 2 else pN - pNameStart);
            if NameSize > bufsize
            then Some (EFI_BUFFER_TOO_SMALL, a\<lparr>na_VariableNameSize := Some NameSize\<rparr>, info)
            else do {
              name \<leftarrow> name_copy (name_width m p) m pNameStart;
              Some (EFI_SUCCESS,
                    \<lparr>na_VariableNameSize = Some NameSize, na_VariableName = Some name,
                     na_VendorGuid = Some (rd_bytes m (NvGetGuid m p info) sizeof_GUID)\<rparr>,
                    info\<lparr>pLastReturned := Some p\<rparr>)
            }
          }
      | _ \<Rightarrow> Some (EFI_INVALID_PARAMETER, a, info))"

text \<open>\<^verbatim>\<open>while (pNvar && !(pNvar->flags & NVRAM_FLAG_RUNTIME)) pNvar = NvGetNextValid(...)\<close>.\<close>

function skip_to_runtime :: "memory \<Rightarrow> NVRAM_STORE_INFO \<Rightarrow> nat option \<Rightarrow> nat option" where
  "skip_to_runtime m info pNvar =
     (case pNvar of
        None \<Rightarrow> None
      | Some p \<Rightarrow> if has (nvar_flags m p) NVRAM_FLAG_RUNTIME then Some p
                  else skip_to_runtime m info (NvGetNextValid m (Some p) info))"
  by pat_completeness auto
termination
  by (relation "measure (\<lambda>(m, info, p). next_measure info p)")
    (auto simp: NvGetNextValid_measure)

declare skip_to_runtime.simps [simp del]

text \<open>The first character of a name buffer.\<close>

definition name0 :: "char16 list \<Rightarrow> char16" where
  "name0 name = (case name of [] \<Rightarrow> 0 | c # _ \<Rightarrow> c)"

text \<open>The starting point of the search: the first record, or the record after the one the
  caller names.  \<open>None\<close> is the early \<^verbatim>\<open>EFI_INVALID_PARAMETER\<close> return.\<close>

definition next_start ::
    "memory \<Rightarrow> char16 list \<Rightarrow> u8 list \<Rightarrow> NVRAM_STORE_INFO \<Rightarrow> bool \<Rightarrow> nat option option" where
  "next_start m name guid info Runtime =
     (if name0 name = 0 then Some (NvGetFirstValid m info)
      else
        let cached = (case pLastReturned info of
                        None \<Rightarrow> None
                      | Some p \<Rightarrow> if NvIsVariable m p info \<and> NvVarEq m p name guid info \<noteq> None
                                  then Some p else None);
            cur = (case cached of
                     Some p \<Rightarrow> Some p
                   | None \<Rightarrow> map_option fst (NvFindVariable m name guid info))
        in case cur of
             None \<Rightarrow> None
           | Some p \<Rightarrow>
               if Runtime \<and> \<not> has (nvar_flags m p) NVRAM_FLAG_RUNTIME then None
               else Some (NvGetNextValid m (Some p) info))"

definition NvGetNextVariableNvar ::
    "memory \<Rightarrow> char16 list option \<Rightarrow> u8 list option \<Rightarrow> NVRAM_STORE_INFO \<Rightarrow> bool
       \<Rightarrow> efi_status \<times> NVRAM_STORE_INFO \<times> nat option" where
  "NvGetNextVariableNvar m VariableName VendorGuid info Runtime =
     (case (VariableName, VendorGuid) of
        (Some name, Some guid) \<Rightarrow>
          (case next_start m name guid info Runtime of
             None \<Rightarrow> (EFI_INVALID_PARAMETER, info, None)
           | Some pNvar \<Rightarrow>
               (case (if Runtime then skip_to_runtime m info pNvar else pNvar) of
                  None \<Rightarrow> (EFI_NOT_FOUND, info\<lparr>pLastReturned := None\<rparr>, None)
                | Some p \<Rightarrow> (EFI_SUCCESS, info, Some p)))
      | _ \<Rightarrow> (EFI_INVALID_PARAMETER, info, None))"

definition NvGetNextVariableName ::
    "memory \<Rightarrow> name_args \<Rightarrow> NVRAM_STORE_INFO \<Rightarrow> bool
       \<Rightarrow> (efi_status \<times> name_args \<times> NVRAM_STORE_INFO) option" where
  "NvGetNextVariableName m a info Runtime =
     (case NvGetNextVariableNvar m (na_VariableName a) (na_VendorGuid a) info Runtime of
        (Status, info', pNvar) \<Rightarrow>
          if EFI_ERROR Status then Some (Status, a, info')
          else NvGetNameFromNvar m pNvar a info')"

definition NvInitInfoBuffer :: "memory \<Rightarrow> NVRAM_STORE_INFO \<Rightarrow> nat \<Rightarrow> u8 \<Rightarrow> NVRAM_STORE_INFO" where
  "NvInitInfoBuffer m info HeaderSize flags =
     (let info1 = info\<lparr>NvramGuidsAddress := NvramAddress info + NvramSize info - sizeof_GUID,
                       pFirstVar := NvramAddress info + HeaderSize,
                       NextGuid := 0, Flags := flags, LastVarSize := 0, pLastReturned := None\<rparr>
      in if \<not> has flags NVRAM_STORE_FLAG_NON_VALATILE
         then info1\<lparr>pEndOfVars := pFirstVar info1\<rparr>
         else
           let info2 = info1\<lparr>pEndOfVars := NvramAddress info + NvramSize info\<rparr>;
               pVar = NvGetFirstValid m info2
           in if pVar = Some (pFirstVar info2) then info2
              else (case pVar of
                      Some p \<Rightarrow> info2\<lparr>pFirstVar := p\<rparr>
                    | None \<Rightarrow> info2\<lparr>pEndOfVars := pFirstVar info2\<rparr>))"

definition AmiDefaultsVariableGuid :: "u8 list" where
  "AmiDefaultsVariableGuid =
     [0x6f, 0xd2, 0x99, 0x45, 0x11, 0x1a, 0xb8, 0x49, 0xb9, 0x1f, 0x85, 0x87, 0x45, 0xcf, 0xf8, 0x24]"

definition NvGetDefaultsInfo ::
    "memory \<Rightarrow> char16 list \<Rightarrow> NVRAM_STORE_INFO \<Rightarrow> NVRAM_STORE_INFO \<Rightarrow> NVRAM_STORE_INFO option" where
  "NvGetDefaultsInfo m DefaultsVar pInInfo pOutInfo =
     (case NvFindVariable m DefaultsVar AmiDefaultsVariableGuid pInInfo of
        None \<Rightarrow> None
      | Some (pNvar, NameSize) \<Rightarrow>
          (case NvGetData m pNvar NameSize pInInfo of
             None \<Rightarrow> None
           | Some (addr, dsize) \<Rightarrow>
               Some (NvInitInfoBuffer m (pOutInfo\<lparr>NvramAddress := addr, NvramSize := dsize\<rparr>) 0
                       (NVRAM_STORE_FLAG_NON_VALATILE OR NVRAM_STORE_FLAG_READ_ONLY
                        OR NVRAM_STORE_FLAG_DO_NOT_ENUMERATE))))"

section \<open>High level routines on several stores\<close>

text \<open>\<^verbatim>\<open>NvGetVariable2\<close>: the stores are searched in the order of the array.  An attempt that
  does not find the variable stores nothing through the output pointers.\<close>

fun NvGetVariable2 :: "memory \<Rightarrow> get_args \<Rightarrow> NVRAM_STORE_INFO list \<Rightarrow> get_result" where
  "NvGetVariable2 m a [] = gr_fail EFI_NOT_FOUND"
| "NvGetVariable2 m a (i # is) =
     (let r = NvGetVariable m a i
      in if gr_Status r \<noteq> EFI_NOT_FOUND then r else NvGetVariable2 m a is)"

text \<open>Is the variable of record \<open>Nvar\<close> of store \<open>src\<close> also in one of the stores before it?  (The
  loop over \<^verbatim>\<open>j\<close> of \<^verbatim>\<open>NvGetNextVariableName2\<close>.)\<close>

fun found_before :: "memory \<Rightarrow> nat \<Rightarrow> NVRAM_STORE_INFO \<Rightarrow> NVRAM_STORE_INFO list \<Rightarrow> bool option" where
  "found_before m Nvar src [] = Some False"
| "found_before m Nvar src (i # is) =
     (case NvFindVariableByNvar m Nvar src i of
        None \<Rightarrow> None
      | Some (Some _) \<Rightarrow> Some True
      | Some None \<Rightarrow> found_before m Nvar src is)"

definition next_candidate :: "memory \<Rightarrow> NVRAM_STORE_INFO \<Rightarrow> bool \<Rightarrow> nat \<Rightarrow> nat option" where
  "next_candidate m info Runtime p =
     (let q = NvGetNextValid m (Some p) info in if Runtime then skip_to_runtime m info q else q)"

lemma skip_to_runtime_measure: "next_measure info (skip_to_runtime m info p) \<le> next_measure info p"
proof (induction m info p rule: skip_to_runtime.induct)
  case (1 m info p)
  show ?case
  proof (cases p)
    case None
    then show ?thesis by (simp add: skip_to_runtime.simps [of m info None])
  next
    case (Some q)
    show ?thesis
    proof (cases "has (nvar_flags m q) NVRAM_FLAG_RUNTIME")
      case True
      with Some show ?thesis by (simp add: skip_to_runtime.simps [of m info "Some q"])
    next
      case False
      from "1.IH" [OF Some False] NvGetNextValid_measure [of info m q]
      have "next_measure info (skip_to_runtime m info (NvGetNextValid m (Some q) info))
              \<le> next_measure info (Some q)" by linarith
      with Some False show ?thesis by (simp add: skip_to_runtime.simps [of m info "Some q"])
    qed
  qed
qed

lemma next_candidate_measure:
  "next_measure info (next_candidate m info Runtime p) < next_measure info (Some p)"
  using NvGetNextValid_measure [of info m p]
    skip_to_runtime_measure [of info m "NvGetNextValid m (Some p) info"]
  by (simp add: next_candidate_def Let_def)

text \<open>The loop that skips records which a store of higher priority also has.\<close>

function skip_duplicates ::
    "memory \<Rightarrow> NVRAM_STORE_INFO list \<Rightarrow> NVRAM_STORE_INFO \<Rightarrow> bool \<Rightarrow> nat option \<Rightarrow> nat option option" where
  "skip_duplicates m before info Runtime Nvar =
     (case Nvar of
        None \<Rightarrow> Some None
      | Some p \<Rightarrow>
          (case found_before m p info before of
             None \<Rightarrow> None
           | Some dup \<Rightarrow>
               if \<not> dup then Some (Some p)
               else skip_duplicates m before info Runtime (next_candidate m info Runtime p)))"
  by pat_completeness auto
termination
  by (relation "measure (\<lambda>(m, b, info, r, p). next_measure info p)")
    (auto simp: next_candidate_measure)

declare skip_duplicates.simps [simp del]

text \<open>One iteration of the loop of \<^verbatim>\<open>NvGetNextVariableName2\<close> up to the test of the status: the
  next record of store \<open>i\<close> that no earlier store has.\<close>

definition next_in_store ::
    "memory \<Rightarrow> NVRAM_STORE_INFO list \<Rightarrow> nat \<Rightarrow> char16 list \<Rightarrow> u8 list \<Rightarrow> bool
       \<Rightarrow> (efi_status \<times> NVRAM_STORE_INFO list \<times> nat option) option" where
  "next_in_store m infos i name guid Runtime =
     (case NvGetNextVariableNvar m (Some name) (Some guid) (infos ! i) Runtime of
        (Status, info, Nvar) \<Rightarrow>
          if \<not> EFI_ERROR Status \<and> has (Flags info) NVRAM_STORE_FLAG_DO_NOT_ENUMERATE
          then (case skip_duplicates m (take i infos) info Runtime Nvar of
                  None \<Rightarrow> None
                | Some None \<Rightarrow>
                    Some (EFI_NOT_FOUND, infos[i := info\<lparr>pLastReturned := None\<rparr>], None)
                | Some (Some p) \<Rightarrow> Some (EFI_SUCCESS, infos[i := info], Some p))
          else Some (Status, infos[i := info], Nvar))"

lemma length_next_in_store:
  "next_in_store m infos i name guid Runtime = Some (s, infos', n) \<Longrightarrow> length infos' = length infos"
  by (auto simp: next_in_store_def split: prod.splits option.splits if_splits)

text \<open>The loop of \<^verbatim>\<open>NvGetNextVariableName2\<close>.  \<open>lst\<close> is \<^verbatim>\<open>*LastInfoIndex\<close> (\<open>None\<close> for a \<^verbatim>\<open>NULL\<close>
  pointer), \<open>Status\<close> is \<open>None\<close> as long as the local variable is not initialised.  A status that
  is neither \<^verbatim>\<open>EFI_SUCCESS\<close> nor \<^verbatim>\<open>EFI_NOT_FOUND\<close> restarts the search from store 0, once:
  afterwards \<^verbatim>\<open>*LastInfoIndex\<close> is 0.\<close>

type_synonym next_name_result =
  "efi_status option \<times> name_args \<times> NVRAM_STORE_INFO list \<times> nat option"

function NvGetNextVariableName2_loop ::
    "memory \<Rightarrow> bool \<Rightarrow> nat \<Rightarrow> char16 \<Rightarrow> char16 list \<Rightarrow> u8 list \<Rightarrow> nat \<Rightarrow> NVRAM_STORE_INFO list \<Rightarrow> nat option
       \<Rightarrow> efi_status option \<Rightarrow> next_name_result option" where
  "NvGetNextVariableName2_loop m Runtime bufsize OrgName name guid i infos lst Status =
     (if length infos \<le> i
      then Some (Status, \<lparr>na_VariableNameSize = Some bufsize, na_VariableName = Some name,
                          na_VendorGuid = Some guid\<rparr>, infos, map_option (\<lambda>_. 0) lst)
      else (case next_in_store m infos i name guid Runtime of
        None \<Rightarrow> None
      | Some (st, infos', Nvar) \<Rightarrow>
          if \<not> EFI_ERROR st
          then (case NvGetNameFromNvar m Nvar
                       \<lparr>na_VariableNameSize = Some bufsize, na_VariableName = Some name,
                        na_VendorGuid = Some guid\<rparr> (infos' ! i) of
                  None \<Rightarrow> None
                | Some (st', a, info) \<Rightarrow>
                    Some (Some st',
                      if EFI_ERROR st'
                      then a\<lparr>na_VariableName := map_option (\<lambda>n. n[0 := OrgName]) (na_VariableName a)\<rparr>
                      else a,
                      infos'[i := info], map_option (\<lambda>_. i) lst))
          else if st = EFI_NOT_FOUND
          then NvGetNextVariableName2_loop m Runtime bufsize OrgName (name[0 := 0]) guid (Suc i) infos' lst
                 (Some st)
          else if i \<noteq> 0 \<and> lst = Some i
          then NvGetNextVariableName2_loop m Runtime bufsize OrgName name guid 0 infos' (Some 0) (Some st)
          else NvGetNextVariableName2_loop m Runtime bufsize OrgName name guid (Suc i) infos' lst (Some st)))"
  by pat_completeness auto
termination
  by (relation "measures [\<lambda>(m, r, b, c, n, g, i, infos, l, s). case l of None \<Rightarrow> 0 | Some k \<Rightarrow> k,
                          \<lambda>(m, r, b, c, n, g, i, infos, l, s). length infos - i]",
      auto dest!: length_next_in_store)
    (metis diff_less length_greater_0_conv lessI)

declare NvGetNextVariableName2_loop.simps [simp del]

definition NvGetNextVariableName2 ::
    "memory \<Rightarrow> nat \<Rightarrow> char16 list \<Rightarrow> u8 list \<Rightarrow> NVRAM_STORE_INFO list \<Rightarrow> nat option \<Rightarrow> bool
       \<Rightarrow> next_name_result option" where
  "NvGetNextVariableName2 m bufsize name guid infos LastInfoIndex Runtime =
     (let lst = (if name0 name = 0 then map_option (\<lambda>_. 0) LastInfoIndex else LastInfoIndex);
          i = (case lst of Some k \<Rightarrow> k | None \<Rightarrow> 0)
      in NvGetNextVariableName2_loop m Runtime bufsize (name0 name) name guid i infos lst None)"

section \<open>FFS file state of a store\<close>

definition EFI_FILE_HEADER_CONSTRUCTION :: u8 where [nv_consts]: "EFI_FILE_HEADER_CONSTRUCTION = 1"
definition EFI_FILE_HEADER_VALID :: u8 where [nv_consts]: "EFI_FILE_HEADER_VALID = 2"
definition EFI_FILE_DATA_VALID :: u8 where [nv_consts]: "EFI_FILE_DATA_VALID = 4"
definition EFI_FILE_MARKED_FOR_UPDATE :: u8 where [nv_consts]: "EFI_FILE_MARKED_FOR_UPDATE = 8"
definition EFI_FILE_DELETED :: u8 where [nv_consts]: "EFI_FILE_DELETED = 0x10"
definition EFI_FILE_HEADER_INVALID :: u8 where [nv_consts]: "EFI_FILE_HEADER_INVALID = 0x20"

definition VALID_STATE_FLAGS :: u8 where
  [nv_consts]: "VALID_STATE_FLAGS = 0xF"

text \<open>Offsets of the fields read in the firmware volume header (\<^verbatim>\<open>FvLength\<close>, \<^verbatim>\<open>HeaderLength\<close>) and
  in the FFS file header (\<^verbatim>\<open>State\<close>).\<close>

definition FvLength_offset :: nat where [nv_consts]: "FvLength_offset = 32"
definition HeaderLength_offset :: nat where [nv_consts]: "HeaderLength_offset = 48"
definition State_offset :: nat where [nv_consts]: "State_offset = 23"

definition GetNvramFfsFileStatePtr :: "memory \<Rightarrow> NVRAM_STORE_INFO \<Rightarrow> nat option" where
  "GetNvramFfsFileStatePtr m info =
     (if rd 8 m (NvramAddress info + FvLength_offset) = NvramSize info
      then Some (NvramAddress info + rd 2 m (NvramAddress info + HeaderLength_offset) + State_offset)
      else None)"

definition GetNvramFfsFileState :: "memory \<Rightarrow> NVRAM_STORE_INFO \<Rightarrow> u8" where
  "GetNvramFfsFileState m info =
     (case GetNvramFfsFileStatePtr m info of
        None \<Rightarrow> EFI_FILE_HEADER_INVALID
      | Some StatePtr \<Rightarrow>
          let State = NOT (m StatePtr) in if State = 0 then EFI_FILE_HEADER_INVALID else State)"

text \<open>The decision of \<^verbatim>\<open>IsMainNvramStoreValid\<close> on the two states: whether the main store is the
  valid one, and, if not, whether the backup is (the value stored to \<^verbatim>\<open>*BackupStoreValid\<close>).\<close>

definition ffs_main_valid :: "u8 \<Rightarrow> u8 \<Rightarrow> bool" where
  "ffs_main_valid MainState BackupState \<longleftrightarrow>
     \<not> (MainState AND EFI_FILE_DATA_VALID = 0
        \<or> MainState AND EFI_FILE_MARKED_FOR_UPDATE \<noteq> 0 \<and> BackupState AND EFI_FILE_DATA_VALID \<noteq> 0
        \<or> MainState AND NOT VALID_STATE_FLAGS \<noteq> 0)"

definition ffs_backup_valid :: "u8 \<Rightarrow> bool" where
  "ffs_backup_valid BackupState \<longleftrightarrow>
     BackupState AND EFI_FILE_DATA_VALID \<noteq> 0 \<and> BackupState AND NOT VALID_STATE_FLAGS = 0"

definition IsMainNvramStoreValid ::
    "memory \<Rightarrow> NVRAM_STORE_INFO \<Rightarrow> nat option \<Rightarrow> bool \<times> bool option" where
  "IsMainNvramStoreValid m MainInfo BackUpAddress =
     (case BackUpAddress of
        None \<Rightarrow> (True, None)
      | Some addr \<Rightarrow>
          let MainState = GetNvramFfsFileState m MainInfo;
              BackupState = GetNvramFfsFileState m (MainInfo\<lparr>NvramAddress := addr\<rparr>)
          in if ffs_main_valid MainState BackupState then (True, None)
             else (False, Some (ffs_backup_valid BackupState)))"

section \<open>The records of a store as a list\<close>

text \<open>The abstract view: the records that the iteration routines visit from an address on, in
  order, and the valid ones among the records of a store.\<close>

function nvars_from :: "memory \<Rightarrow> NVRAM_STORE_INFO \<Rightarrow> nat \<Rightarrow> nat list" where
  "nvars_from m info p =
     (case NvGetNextNvar_loop m info p of
        None \<Rightarrow> []
      | Some q \<Rightarrow> q # nvars_from m info (q + nvar_size m q))"
  by pat_completeness auto
termination
proof (relation "measure (\<lambda>(m, info, p). Suc (pEndOfVars info) - p)", simp)
  fix m info p q
  assume "NvGetNextNvar_loop m info p = Some q"
  from NvGetNextNvar_loop_Some [OF this] have "p \<le> q" "q < pEndOfVars info" "NvIsVariable m q info"
    by auto
  with nvar_size_okD(3) [OF NvIsVariable_size_ok, of m q info]
  show "((m, info, q + nvar_size m q), m, info, p) \<in> measure (\<lambda>(m, info, p). Suc (pEndOfVars info) - p)"
    by (simp add: diff_less_mono2)
qed

declare nvars_from.simps [simp del]

definition nvars :: "memory \<Rightarrow> NVRAM_STORE_INFO \<Rightarrow> nat list" where
  "nvars m info = (if NvIsVariable m (pFirstVar info) info then nvars_from m info (pFirstVar info) else [])"

definition valid_nvars :: "memory \<Rightarrow> NVRAM_STORE_INFO \<Rightarrow> nat list" where
  "valid_nvars m info = filter (NvIsValid m) (nvars m info)"

lemma NvGetNextNvar_loop_end [simp]: "pEndOfVars info \<le> p \<Longrightarrow> NvGetNextNvar_loop m info p = None"
  by (simp add: NvGetNextNvar_loop.simps)

lemma NvGetNextNvar_loop_here: "NvIsVariable m p info \<Longrightarrow> NvGetNextNvar_loop m info p = Some p"
  using nvar_size_okD(4) [OF NvIsVariable_size_ok, of m p info]
  by (simp add: NvGetNextNvar_loop.simps)

lemma NvGetNextNvar_variable:
  "NvIsVariable m p info \<Longrightarrow>
   NvGetNextNvar m (Some p) info = NvGetNextNvar_loop m info (p + nvar_size m p)"
  using nvar_size_okD(4) [OF NvIsVariable_size_ok, of m p info]
  by (simp add: NvGetNextNvar_def)

lemma nvars_from_variable:
  "NvIsVariable m p info \<Longrightarrow> nvars_from m info p = p # nvars_from m info (p + nvar_size m p)"
  by (subst nvars_from.simps) (simp add: NvGetNextNvar_loop_here)

lemma nvars_from_range:
  "q \<in> set (nvars_from m info p) \<Longrightarrow> p \<le> q \<and> q < pEndOfVars info \<and> NvIsVariable m q info"
proof (induction m info p rule: nvars_from.induct)
  case (1 m info p)
  obtain r where r: "NvGetNextNvar_loop m info p = Some r"
    using "1.prems"
    by (cases "NvGetNextNvar_loop m info p") (auto simp: nvars_from.simps [of m info p])
  note pr = NvGetNextNvar_loop_Some [OF r]
  from "1.prems" r have "q = r \<or> q \<in> set (nvars_from m info (r + nvar_size m r))"
    by (subst (asm) nvars_from.simps) auto
  with pr "1.IH" [OF r] show ?case by auto
qed

lemma nvars_range:
  "q \<in> set (nvars m info) \<Longrightarrow> pFirstVar info \<le> q \<and> q < pEndOfVars info \<and> NvIsVariable m q info"
  unfolding nvars_def using nvars_from_range by (auto split: if_splits)

text \<open>Walking with \<^verbatim>\<open>NvGetNextValid\<close> is a search in the list.\<close>

lemma NvGetNextValid_find:
  "NvIsVariable m p info \<Longrightarrow>
   NvGetNextValid m (Some p) info = List.find (NvIsValid m) (nvars_from m info (p + nvar_size m p))"
proof (induction "pEndOfVars info - p" arbitrary: p rule: less_induct)
  case less
  note p = NvGetNextNvar_variable [OF less.prems]
  show ?case
  proof (cases "NvGetNextNvar_loop m info (p + nvar_size m p)")
    case None
    then show ?thesis
      by (subst NvGetNextValid.simps) (simp add: p nvars_from.simps [of m info "p + nvar_size m p"])
  next
    case (Some q)
    from NvGetNextNvar_loop_Some [OF Some] nvar_size_okD(3) [OF NvIsVariable_size_ok [OF less.prems]]
    have q: "p < q" "q < pEndOfVars info" "NvIsVariable m q info" by auto
    then have "pEndOfVars info - q < pEndOfVars info - p" by simp
    from less.hyps [OF this q(3)] Some show ?thesis
      by (subst NvGetNextValid.simps) (simp add: p nvars_from.simps [of m info "p + nvar_size m p"])
  qed
qed

lemma NvGetFirstValid_find: "NvGetFirstValid m info = List.find (NvIsValid m) (nvars m info)"
  by (simp add: NvGetFirstValid_def nvars_def nvars_from_variable NvGetNextValid_find Let_def)

text \<open>Any loop \<^verbatim>\<open>for (p = first; p; p = NvGetNextValid(p))\<close> is a recursion over the valid records.\<close>

lemma NvFindVariable_loop_find:
  "NvFindVariable_loop m info s g (List.find (NvIsValid m) (nvars_from m info p)) =
   map_option (\<lambda>q. (q, the (NvVarEq m q s g info)))
     (List.find (\<lambda>q. NvIsValid m q \<and> NvVarEq m q s g info \<noteq> None) (nvars_from m info p))"
proof (induction m info p rule: nvars_from.induct)
  case (1 m info p)
  show ?case
  proof (cases "NvGetNextNvar_loop m info p")
    case None
    then show ?thesis by (simp add: nvars_from.simps [of m info p] NvFindVariable_loop.simps)
  next
    case (Some q)
    then have L: "nvars_from m info p = q # nvars_from m info (q + nvar_size m q)"
      by (simp add: nvars_from.simps [of m info p])
    from NvGetNextNvar_loop_Some [OF Some] have "NvIsVariable m q info" by simp
    from NvGetNextValid_find [OF this] "1.IH" [OF Some] show ?thesis
      by (cases "NvVarEq m q s g info")
        (simp_all add: L NvFindVariable_loop.simps [of m info s g "Some q"])
  qed
qed

lemma NvFindVariable_find:
  "NvFindVariable m s g info =
   map_option (\<lambda>q. (q, the (NvVarEq m q s g info)))
     (List.find (\<lambda>q. NvVarEq m q s g info \<noteq> None) (valid_nvars m info))"
proof -
  have filt: "List.find Q (filter P xs) = List.find (\<lambda>q. P q \<and> Q q) xs" for P Q and xs :: "nat list"
    by (induction xs) auto
  show ?thesis
    using NvFindVariable_loop_find [of m info s g "pFirstVar info"]
    by (simp add: NvFindVariable_def NvGetFirstValid_find valid_nvars_def filt nvars_def
        NvFindVariable_loop.simps [of m info s g None])
qed

lemma NvFindVariable_Some:
  assumes "NvFindVariable m s g info = Some (p, n)"
  shows "p \<in> set (valid_nvars m info)" "NvVarEq m p s g info = Some n" "NvIsVariable m p info"
    "NvIsValid m p"
proof -
  from assms have f: "List.find (\<lambda>q. NvVarEq m q s g info \<noteq> None) (valid_nvars m info) = Some p"
    and n: "n = the (NvVarEq m p s g info)"
    by (auto simp: NvFindVariable_find)
  from f show p: "p \<in> set (valid_nvars m info)"
    by (metis find_Some_iff nth_mem)
  from f have "NvVarEq m p s g info \<noteq> None"
    by (metis (mono_tags, lifting) find_Some_iff)
  with n show "NvVarEq m p s g info = Some n" by auto
  from p show "NvIsVariable m p info" "NvIsValid m p"
    using nvars_range by (auto simp: valid_nvars_def)
qed

section \<open>Reading a variable\<close>

lemma NvGetDataNvar_loop_Some:
  "NvIsVariable m p info \<or> l \<noteq> None \<Longrightarrow> NvGetDataNvar_loop m info p l \<noteq> None"
proof (induction m info p l rule: NvGetDataNvar_loop.induct)
  case (1 m info p l)
  then show ?case
    by (subst NvGetDataNvar_loop.simps) auto
qed

lemma NvGetData_Some: "NvIsVariable m p info \<Longrightarrow> \<exists>a n. NvGetData m p k info = Some (a, n)"
  using NvGetDataNvar_loop_Some [of m p info None]
  by (auto simp: NvGetData_def NvGetDataNvar_def Let_def)

text \<open>The arguments that pass the checks at the start of \<^verbatim>\<open>NvGetVariable\<close>.\<close>

definition get_args_ok :: "get_args \<Rightarrow> bool" where
  "get_args_ok a \<longleftrightarrow> ga_VariableName a \<noteq> None \<and> ga_VendorGuid a \<noteq> None \<and> ga_DataSize a \<noteq> None
     \<and> (ga_Data a \<or> ga_DataSize a = Some 0)"

lemma NvGetVariable_bad_args:
  "\<not> get_args_ok a \<Longrightarrow> NvGetVariable m a info = gr_fail EFI_INVALID_PARAMETER"
  by (auto simp: get_args_ok_def NvGetVariable_def split: option.splits)

lemma NvGetVariable_cases:
  assumes "ga_VariableName a = Some s" "ga_VendorGuid a = Some g" "ga_DataSize a = Some n"
    and "ga_Data a \<or> n = 0"
  shows "NvGetVariable m a info =
    (case NvFindVariable m s g info of
       None \<Rightarrow> gr_fail EFI_NOT_FOUND
     | Some (p, ns) \<Rightarrow>
         (case NvGetData m p ns info of
            None \<Rightarrow> (gr_fail EFI_NOT_FOUND)\<lparr>gr_Var := Some p\<rparr>
          | Some (d, k) \<Rightarrow>
              \<lparr>gr_Status = if n < k then EFI_BUFFER_TOO_SMALL else EFI_SUCCESS,
               gr_Attributes = if ga_Attributes a then Some (nvar_attributes m p info) else None,
               gr_DataSize = Some k,
               gr_Data = if n < k then None else Some (rd_bytes m d k),
               gr_Var = Some p\<rparr>))"
proof (cases "NvFindVariable m s g info")
  case None
  with assms show ?thesis
    by (simp add: NvGetVariable_def NvGetVariableFromNvar_def gr_fail_def)
next
  case (Some r)
  obtain p ns where r: "r = (p, ns)" by (cases r)
  with NvFindVariable_Some(3) Some have p: "NvIsVariable m p info" by blast
  from NvGetData_Some [OF this] obtain d k where "NvGetData m p ns info = Some (d, k)" by blast
  with assms Some r p show ?thesis
    by (auto simp: NvGetVariable_def NvGetVariableFromNvar_def NvGetAttributesFromNvar_def)
qed


text \<open>A zero-terminated name in memory.\<close>

fun name_at :: "nat \<Rightarrow> memory \<Rightarrow> nat \<Rightarrow> char16 list \<Rightarrow> bool" where
  "name_at w m p [] \<longleftrightarrow> name_char w m p = 0"
| "name_at w m p (c # cs) \<longleftrightarrow> c \<noteq> 0 \<and> name_char w m p = c \<and> name_at w m (p + w) cs"

lemma name_at_end: "name_at w m p cs \<Longrightarrow> name_end w m p = Some (p + w * (length cs + 1))"
  by (induction cs arbitrary: p) (auto simp: name_end.simps [of w m p] name_end.simps algebra_simps)

lemma name_at_copy: "name_at w m p cs \<Longrightarrow> name_copy w m p = Some cs"
  by (induction cs arbitrary: p) (auto simp: name_copy.simps)

lemma name_at_eq: "name_at w m p cs \<Longrightarrow> NvVarEq_name w m p cs = Some (p + w * (length cs + 1))"
  by (induction cs arbitrary: p) (auto simp: algebra_simps)

text \<open>A client that enumerates a store with \<^verbatim>\<open>NvGetNextVariableName\<close>, starting from the empty name
  and passing back each name and GUID it was given.\<close>

fun enumerate_store ::
    "nat \<Rightarrow> memory \<Rightarrow> nat \<Rightarrow> NVRAM_STORE_INFO \<Rightarrow> char16 list \<Rightarrow> u8 list \<Rightarrow> (char16 list \<times> u8 list) list option" where
  "enumerate_store 0 m buf info name guid = None"
| "enumerate_store (Suc k) m buf info name guid =
     (case NvGetNextVariableName m
             \<lparr>na_VariableNameSize = Some buf, na_VariableName = Some name, na_VendorGuid = Some guid\<rparr>
             info False of
        None \<Rightarrow> None
      | Some (st, a, info') \<Rightarrow>
          if st = EFI_SUCCESS
          then (case (na_VariableName a, na_VendorGuid a) of
                  (Some n, Some g) \<Rightarrow> map_option ((#) (n, g)) (enumerate_store k m buf info' n g)
                | _ \<Rightarrow> None)
          else if st = EFI_NOT_FOUND then Some [] else None)"

text \<open>The walk does not depend on the cached enumeration position.\<close>

lemma NvIsVariable_pLast [simp]: "NvIsVariable m p (info\<lparr>pLastReturned := x\<rparr>) = NvIsVariable m p info"
  by (simp add: NvIsVariable_def nvar_size_ok_def)

lemma NvGetNextNvar_loop_pLast [simp]:
  "NvGetNextNvar_loop m (info\<lparr>pLastReturned := x\<rparr>) p = NvGetNextNvar_loop m info p"
proof (induction m info p rule: NvGetNextNvar_loop.induct)
  case (1 m info p)
  then show ?case
    by (simp add: NvGetNextNvar_loop.simps [of m _ p] nvar_size_ok_def)
qed

lemma nvars_from_pLast [simp]:
  "nvars_from m (info\<lparr>pLastReturned := x\<rparr>) p = nvars_from m info p"
proof (induction m info p rule: nvars_from.induct)
  case (1 m info p)
  then show ?case
    by (simp add: nvars_from.simps [of m _ p] split: option.splits)
qed

lemma nvars_pLast [simp]: "nvars m (info\<lparr>pLastReturned := x\<rparr>) = nvars m info"
  by (simp add: nvars_def)

lemma NvGetGuid_pLast [simp]: "NvGetGuid m p (info\<lparr>pLastReturned := x\<rparr>) = NvGetGuid m p info"
  by (simp add: NvGetGuid_def)

lemma nvars_from_suffix:
  "nvars_from m info p = xs @ y # zs \<Longrightarrow> zs = nvars_from m info (y + nvar_size m y)"
proof (induction m info p arbitrary: xs rule: nvars_from.induct)
  case (1 m info p)
  obtain q where q: "NvGetNextNvar_loop m info p = Some q"
    using "1.prems"
    by (cases "NvGetNextNvar_loop m info p") (auto simp: nvars_from.simps [of m info p])
  with "1.prems" have e: "q # nvars_from m info (q + nvar_size m q) = xs @ y # zs"
    by (simp add: nvars_from.simps [of m info p])
  show ?case
  proof (cases xs)
    case Nil
    with e show ?thesis by auto
  next
    case (Cons x xs')
    with e have "nvars_from m info (q + nvar_size m q) = xs' @ y # zs" by auto
    from "1.IH" [OF q this] show ?thesis .
  qed
qed

text \<open>What the valid records after a record look like, by the head of their list.\<close>

lemma valid_after:
  assumes "filter (NvIsValid m) (nvars_from m info p) = y # ys"
  shows "List.find (NvIsValid m) (nvars_from m info p) = Some y" "NvIsVariable m y info"
    "ys = filter (NvIsValid m) (nvars_from m info (y + nvar_size m y))"
proof -
  from assms obtain us vs where s: "nvars_from m info p = us @ y # vs"
    and "\<forall>u\<in>set us. \<not> NvIsValid m u" and "NvIsValid m y" and ys: "ys = filter (NvIsValid m) vs"
    by (auto simp: filter_eq_Cons_iff)
  then have "List.find (NvIsValid m) us = None" by (auto simp: find_None_iff)
  with s \<open>NvIsValid m y\<close> show "List.find (NvIsValid m) (nvars_from m info p) = Some y"
    by (simp add: find_append)
  from s have "y \<in> set (nvars_from m info p)" by simp
  with nvars_from_range show "NvIsVariable m y info" by blast
  from nvars_from_suffix [OF s] ys show "ys = filter (NvIsValid m) (nvars_from m info (y + nvar_size m y))"
    by simp
qed

text \<open>The names under which the records of a list are enumerated.\<close>

definition named :: "memory \<Rightarrow> nat \<Rightarrow> (nat \<Rightarrow> char16 list) \<Rightarrow> nat list \<Rightarrow> bool" where
  "named m buf names ps \<longleftrightarrow>
     (\<forall>p\<in>set ps. names p \<noteq> [] \<and> name_at (name_width m p) m (NvGetName m p) (names p)
        \<and> 2 * (length (names p) + 1) \<le> buf)"

lemma NvGetNameFromNvar_named:
  assumes "named m buf names (p # ps)"
  shows "\<exists>k. NvGetNameFromNvar m (Some p)
      \<lparr>na_VariableNameSize = Some buf, na_VariableName = Some n, na_VendorGuid = Some g\<rparr> info =
    Some (EFI_SUCCESS, \<lparr>na_VariableNameSize = Some k, na_VariableName = Some (names p),
       na_VendorGuid = Some (rd_bytes m (NvGetGuid m p info) sizeof_GUID)\<rparr>, info\<lparr>pLastReturned := Some p\<rparr>)"
  using assms name_at_end [of "name_width m p" m "NvGetName m p" "names p"]
    name_at_copy [of "name_width m p" m "NvGetName m p" "names p"]
  by (auto simp: NvGetNameFromNvar_def named_def name_width_def)

lemma enumerate_store_from:
  assumes "NvIsVariable m p info" and "ys = filter (NvIsValid m) (nvars_from m info (p + nvar_size m p))"
    and "named m buf names (p # ys)"
  shows "enumerate_store (Suc (length ys)) m buf (info\<lparr>pLastReturned := Some p\<rparr>) (names p)
      (rd_bytes m (NvGetGuid m p info) sizeof_GUID) =
    Some (map (\<lambda>q. (names q, rd_bytes m (NvGetGuid m q info) sizeof_GUID)) ys)"
  using assms
proof (induction ys arbitrary: p)
  case Nil
  let ?i = "info\<lparr>pLastReturned := Some p\<rparr>"
  from Nil.prems have n: "name_at (name_width m p) m (NvGetName m p) (names p)" "names p \<noteq> []"
    by (auto simp: named_def)
  then have n0: "name0 (names p) \<noteq> 0" by (cases "names p") (auto simp: name0_def)
  have nx: "NvGetNextValid m (Some p) ?i = None"
    using Nil.prems(1) Nil.prems(2) [symmetric]
    by (simp add: NvGetNextValid_find find_None_iff filter_empty_conv)
  from n0 n Nil.prems nx show ?case
    by (simp add: NvGetNextVariableName_def NvGetNextVariableNvar_def next_start_def NvVarEq_def
        name_at_eq)
next
  case (Cons y ys)
  let ?i = "info\<lparr>pLastReturned := Some p\<rparr>"
  note y = valid_after [OF Cons.prems(2) [symmetric]]
  from Cons.prems(3) have n: "name_at (name_width m p) m (NvGetName m p) (names p)" "names p \<noteq> []"
    and nm: "named m buf names (y # ys)"
    by (auto simp: named_def)
  from n have n0: "name0 (names p) \<noteq> 0" by (cases "names p") (auto simp: name0_def)
  have nx: "NvGetNextValid m (Some p) ?i = Some y"
    using Cons.prems(1) y(1) by (simp add: NvGetNextValid_find)
  from NvGetNameFromNvar_named [OF nm, of "names p" "rd_bytes m (NvGetGuid m p info) sizeof_GUID" ?i]
    n0 n Cons.prems(1) nx Cons.IH [OF y(2,3) nm]
  show ?case
    by (auto simp: NvGetNextVariableName_def NvGetNextVariableNvar_def next_start_def NvVarEq_def
        name_at_eq)
qed

section \<open>An example store\<close>

text \<open>A small store with two variables, named \<open>A\<close> and \<open>B\<close>, for evaluating the routines.\<close>

definition ex_mem :: memory where
  "ex_mem = wr_bytes (\<lambda>_. 0xFF) 0
     [0x4e, 0x56, 0x41, 0x52, 16, 0, 0xff, 0xff, 0xff, 0x82, 0, 65, 0, 7, 8, 9,
      0x4e, 0x56, 0x41, 0x52, 15, 0, 0xff, 0xff, 0xff, 0x82, 0, 66, 0, 7, 8]"

definition ex_info :: NVRAM_STORE_INFO where
  "ex_info = \<lparr>NvramAddress = 0, NvramSize = 128, NvramGuidsAddress = 112, pEndOfVars = 31,
     pFirstVar = 0, NextGuid = 1, LastVarSize = 15, pLastReturned = None, Flags = 1\<rparr>"

definition ex_guid :: "u8 list" where
  "ex_guid = replicate 16 0xFF"

definition ex_get :: "nat \<Rightarrow> get_args" where
  "ex_get n = \<lparr>ga_VariableName = Some [65], ga_VendorGuid = Some ex_guid, ga_Attributes = True,
     ga_DataSize = Some n, ga_Data = True\<rparr>"

section \<open>Properties\<close>


text \<open>Iteration is safe and ends: every record that \<^verbatim>\<open>NvGetNextValid\<close> returns lies strictly
  after the one it started from and inside the variable area, and has a plausible header and the
  valid flag; so any walk of a store visits at most as many records as it has bytes.\<close>

theorem NvGetNextValid_progress:
  assumes "NvGetNextValid m (Some p) info = Some q"
  shows "p < q \<and> q + nvar_size m q \<le> pEndOfVars info \<and> NvIsVariable m q info \<and> NvIsValid m q"
  using NvGetNextValid_Some [OF assms] nvar_size_okD(2) [OF NvIsVariable_size_ok, of m q info]
  by blast

theorem NvGetNextValid_progress_witness:
  "0 < (16::nat) \<and> 16 + nvar_size ex_mem 16 \<le> pEndOfVars ex_info
     \<and> NvIsVariable ex_mem 16 ex_info \<and> NvIsValid ex_mem 16"
proof -
  have "NvGetNextValid ex_mem (Some 0) ex_info = Some 16" by code_simp
  from NvGetNextValid_progress [OF this] show ?thesis .
qed

text \<open>C15: the output buffer protocol of \<^verbatim>\<open>NvGetVariable\<close>.  Data are only stored when the call succeeds
  and they fit the caller's buffer; a call with too small a buffer stores the size needed, and the
  same call with that size succeeds and fills the buffer exactly.\<close>

theorem NvGetVariable_buffer_protocol:
  assumes "NvGetVariable m a info = r" and "gr_Status r \<in> {EFI_SUCCESS, EFI_BUFFER_TOO_SMALL}"
  shows "(gr_Data r \<noteq> None \<longleftrightarrow> gr_Status r = EFI_SUCCESS)
    \<and> (\<forall>d. gr_Data r = Some d \<longrightarrow> gr_DataSize r = Some (length d) \<and> length d \<le> the (ga_DataSize a))
    \<and> (gr_Status r = EFI_BUFFER_TOO_SMALL \<longrightarrow>
         the (ga_DataSize a) < the (gr_DataSize r) \<and>
         (\<exists>d. length d = the (gr_DataSize r) \<and>
           NvGetVariable m (a\<lparr>ga_DataSize := gr_DataSize r, ga_Data := True\<rparr>) info
             = r\<lparr>gr_Status := EFI_SUCCESS, gr_Data := Some d\<rparr>))"
proof -
  have "get_args_ok a"
    using assms NvGetVariable_bad_args [of a m info]
    by (cases "get_args_ok a") (auto simp: gr_fail_def)
  then obtain s g n where a: "ga_VariableName a = Some s" "ga_VendorGuid a = Some g"
      "ga_DataSize a = Some n" "ga_Data a \<or> n = 0"
    by (auto simp: get_args_ok_def)
  note G = NvGetVariable_cases [OF a, of m info]
  from assms G obtain p ns where p: "NvFindVariable m s g info = Some (p, ns)"
    by (cases "NvFindVariable m s g info") (auto simp: gr_fail_def)
  from NvGetData_Some [OF NvFindVariable_Some(3) [OF p]]
  obtain d k where d: "NvGetData m p ns info = Some (d, k)" by blast
  from NvGetVariable_cases [of "a\<lparr>ga_DataSize := Some k, ga_Data := True\<rparr>" s g k m info] a p d
  have retry: "NvGetVariable m (a\<lparr>ga_DataSize := Some k, ga_Data := True\<rparr>) info =
    \<lparr>gr_Status = EFI_SUCCESS,
     gr_Attributes = if ga_Attributes a then Some (nvar_attributes m p info) else None,
     gr_DataSize = Some k, gr_Data = Some (rd_bytes m d k), gr_Var = Some p\<rparr>"
    by simp
  have r: "r = \<lparr>gr_Status = if n < k then EFI_BUFFER_TOO_SMALL else EFI_SUCCESS,
     gr_Attributes = if ga_Attributes a then Some (nvar_attributes m p info) else None,
     gr_DataSize = Some k, gr_Data = if n < k then None else Some (rd_bytes m d k), gr_Var = Some p\<rparr>"
    using assms(1) G p d by simp
  show ?thesis
  proof (cases "n < k")
    case True
    have "\<exists>e. length e = k \<and> rd_bytes m d k = e" by simp
    with True retry a(3) show ?thesis by (simp add: r)
  next
    case False
    with a(3) show ?thesis by (simp add: r)
  qed
qed

theorem NvGetVariable_buffer_protocol_witness:
  "gr_Status (NvGetVariable ex_mem (ex_get 1) ex_info) = EFI_BUFFER_TOO_SMALL
   \<and> the (ga_DataSize (ex_get 1)) < the (gr_DataSize (NvGetVariable ex_mem (ex_get 1) ex_info))"
proof -
  have s: "gr_Status (NvGetVariable ex_mem (ex_get 1) ex_info) = EFI_BUFFER_TOO_SMALL" by code_simp
  from NvGetVariable_buffer_protocol [OF refl, of ex_mem "ex_get 1" ex_info] s show ?thesis by simp
qed

text \<open>C14: enumeration is complete: a client that starts from the empty name and passes each name
  back to \<^verbatim>\<open>NvGetNextVariableName\<close> receives every valid variable of the store exactly once, in
  store order, and then \<^verbatim>\<open>EFI_NOT_FOUND\<close>.\<close>

theorem enumeration_complete:
  assumes "named m buf names (valid_nvars m info)"
  shows "enumerate_store (Suc (length (valid_nvars m info))) m buf info [] guid =
    Some (map (\<lambda>p. (names p, rd_bytes m (NvGetGuid m p info) sizeof_GUID)) (valid_nvars m info))"
proof (cases "valid_nvars m info")
  case Nil
  then have "NvGetFirstValid m info = None"
    by (simp add: valid_nvars_def NvGetFirstValid_find find_None_iff filter_empty_conv)
  with Nil show ?thesis
    by (simp add: NvGetNextVariableName_def NvGetNextVariableNvar_def next_start_def name0_def)
next
  case (Cons y ys)
  then have f: "filter (NvIsValid m) (nvars_from m info (pFirstVar info)) = y # ys"
    and n: "nvars m info = nvars_from m info (pFirstVar info)"
    by (auto simp: valid_nvars_def nvars_def split: if_splits)
  note y = valid_after [OF f]
  from assms Cons have nm: "named m buf names (y # ys)" by simp
  from NvGetNameFromNvar_named [OF nm, of "[]" guid info] y(1) n Cons
    enumerate_store_from [OF y(2,3) nm]
  show ?thesis
    by (auto simp: NvGetNextVariableName_def NvGetNextVariableNvar_def next_start_def name0_def
        NvGetFirstValid_find)
qed

theorem enumeration_complete_witness:
  "valid_nvars ex_mem ex_info = [0, 16] \<and>
   enumerate_store (Suc (length (valid_nvars ex_mem ex_info))) ex_mem 80 ex_info [] [] =
    Some (map (\<lambda>p. (if p = 0 then [65] else [66], rd_bytes ex_mem (NvGetGuid ex_mem p ex_info) sizeof_GUID))
      (valid_nvars ex_mem ex_info))"
proof -
  have "named ex_mem 80 (\<lambda>p. if p = 0 then [65] else [66]) (valid_nvars ex_mem ex_info)"
    by code_simp
  moreover have "valid_nvars ex_mem ex_info = [0, 16]" by code_simp
  ultimately show ?thesis using enumeration_complete by blast
qed

end
