(* ===== verification/NvramFlash.thy ===== *)
theory NvramFlash
  imports NvramRead
begin

text \<open>
  The update interfaces of the NVRAM driver (\<^verbatim>\<open>AmiModulePkg/NVRAM/NvramDxe.c\<close>): the memory based
  one, the flash based one and the hybrid one, which keeps a copy of the flash in memory.

  The flash device is a parameter, a \<open>flash_dev\<close> with the two operations of the flash part
  driver that change its contents; memory-mapped flash is a part of memory.  As in the build,
  \<^verbatim>\<open>FlashNotMemoryMapped\<close> is false and an erased byte is \<open>0xFF\<close>.

  The source of a write is a list of bytes together with the address it is read from, which
  the comparison loop of \<^verbatim>\<open>IsProgrammableOrEqual\<close> tests for alignment.
\<close>

section \<open>Words of eight bytes\<close>

definition word64 :: "u8 list \<Rightarrow> u64" where
  "word64 bs = word_of_nat (le_nat bs)"

lemma bit_le_nat: "bit (le_nat bs) n \<longleftrightarrow> n div 8 < length bs \<and> bit (bs ! (n div 8)) (n mod 8)"
proof (induction bs arbitrary: n)
  case Nil
  then show ?case by simp
next
  case (Cons b bs)
  show ?case
  proof (cases "n < 8")
    case True
    have "(2::nat) ^ 8 = 2 ^ n * 2 ^ (8 - n)"
      using True by (simp only: flip: power_add) simp
    then have e: "256 * le_nat bs = 2 ^ n * (2 ^ (8 - n) * le_nat bs)" by simp
    have "(unat b + 256 * le_nat bs) div 2 ^ n = unat b div 2 ^ n + 2 ^ (8 - n) * le_nat bs"
      by (simp only: e div_mult_self2 add.commute) simp
    moreover have "even ((2::nat) ^ (8 - n) * le_nat bs)" using True by simp
    ultimately have "bit (le_nat (b # bs)) n \<longleftrightarrow> bit (unat b) n"
      by (simp add: bit_iff_odd)
    then show ?thesis using True by (simp add: bit_unsigned_iff)
  next
    case False
    then obtain k where n: "n = 8 + k" using le_Suc_ex not_less by blast
    have "(unat b + 256 * le_nat bs) div 2 ^ n = (unat b + 256 * le_nat bs) div 256 div 2 ^ k"
      by (simp add: n power_add div_mult2_eq)
    also have "\<dots> = le_nat bs div 2 ^ k"
      using unat_u8_less [of b] by (simp del: unat_u8_less)
    finally have "bit (le_nat (b # bs)) n \<longleftrightarrow> bit (le_nat bs) k"
      by (simp add: bit_iff_odd)
    moreover have "n div 8 = Suc (k div 8)" by (simp add: n)
    ultimately show ?thesis
      using Cons [of k] by (simp add: n)
  qed
qed

lemma bit_word64:
  "length bs = 8 \<Longrightarrow> bit (word64 bs) n \<longleftrightarrow> n < 64 \<and> bit (bs ! (n div 8)) (n mod 8)"
proof -
  assume l: "length bs = 8"
  have "le_nat bs < 2 ^ 64" using le_nat_bound [of bs] l by simp
  then have "unat (word64 bs) = le_nat bs" by (simp add: word64_def unat_of_nat)
  moreover have "bit (word64 bs) n \<longleftrightarrow> bit (unat (word64 bs)) n" by (simp add: bit_unsigned_iff)
  ultimately show ?thesis by (auto simp: bit_le_nat l div_less_iff_less_mult)
qed

lemma word64_eq_iff: "length bs = 8 \<Longrightarrow> length cs = 8 \<Longrightarrow> word64 bs = word64 cs \<longleftrightarrow> bs = cs"
proof
  assume l: "length bs = 8" "length cs = 8" and e: "word64 bs = word64 cs"
  have "le_nat bs < 2 ^ 64" "le_nat cs < 2 ^ 64"
    using le_nat_bound [of bs] le_nat_bound [of cs] l by simp_all
  then have "le_nat bs = le_nat cs"
    using arg_cong [OF e, of unat] by (simp add: word64_def unat_of_nat)
  then show "bs = cs"
    using le_bytes_le_nat [of bs] le_bytes_le_nat [of cs] l by simp
qed simp

lemma word64_programmable:
  assumes "length ds = 8" and "length ss = 8"
  shows "NOT (word64 ds) AND word64 ss = 0 \<longleftrightarrow> list_all2 programmable_byte ds ss"
proof
  assume z: "NOT (word64 ds) AND word64 ss = 0"
  have "programmable_byte (ds ! i) (ss ! i)" if i: "i < 8" for i
    unfolding programmable_byte_def
  proof (rule bit_eqI)
    fix n assume "possible_bit TYPE(u8) n"
    then have n: "n < 8" by simp
    have "\<not> bit (NOT (word64 ds) AND word64 ss) (8 * i + n)" using z by simp
    with i n show "bit (NOT (ds ! i) AND ss ! i) n = bit 0 n"
      by (simp add: bit_and_iff bit_not_iff bit_word64 assms div_mult_self4)
  qed
  with assms show "list_all2 programmable_byte ds ss" by (simp add: list_all2_conv_all_nth)
next
  assume l: "list_all2 programmable_byte ds ss"
  show "NOT (word64 ds) AND word64 ss = 0"
  proof (rule bit_eqI)
    fix n assume "possible_bit TYPE(u64) n"
    then have n: "n < 64" by simp
    then have "n div 8 < 8" by (simp add: div_less_iff_less_mult)
    with l assms have "NOT (ds ! (n div 8)) AND ss ! (n div 8) = 0"
      by (simp add: list_all2_conv_all_nth programmable_byte_def)
    then have "\<not> bit (NOT (ds ! (n div 8)) AND ss ! (n div 8)) (n mod 8)" by simp
    with n show "bit (NOT (word64 ds) AND word64 ss) n = bit 0 n"
      by (simp add: bit_and_iff bit_not_iff bit_word64 assms)
  qed
qed

section \<open>Memory-based interface\<close>

definition DummyUpdateRoutine :: "nat \<Rightarrow> nat \<Rightarrow> bool" where
  "DummyUpdateRoutine Address sz = True"

definition MemErase :: "nat \<Rightarrow> nat \<Rightarrow> memory \<Rightarrow> bool \<times> memory" where
  "MemErase Address sz m = (True, wr_bytes m Address (replicate sz FLASH_EMPTY_BYTE))"

definition MemProgram :: "nat \<Rightarrow> u8 list \<Rightarrow> memory \<Rightarrow> bool \<times> memory" where
  "MemProgram Address bs m = (True, wr_bytes m Address bs)"

section \<open>Flash-based interface\<close>

record flash_dev =
  FlashProgram :: "nat \<Rightarrow> u8 list \<Rightarrow> memory \<Rightarrow> bool \<times> memory"
  FlashEraseBlock :: "nat \<Rightarrow> memory \<Rightarrow> bool \<times> memory"

definition FlashBlockSize :: nat where [nv_consts]: "FlashBlockSize = 0x1000"
definition FlashDeviceBase :: nat where [nv_consts]: "FlashDeviceBase = 0xFFB00000"
definition INT_SIZE :: nat where [nv_consts]: "INT_SIZE = 8"

definition BLOCK :: "nat \<Rightarrow> nat" where
  "BLOCK adr = adr - uintn_sub adr FlashDeviceBase mod FlashBlockSize"

text \<open>The write protection of the device: a counter of enable requests and the blocks enabled.\<close>

record flash_lock =
  WriteEnableStatus :: nat
  enabled_blocks :: "nat list"

function blocks_upto :: "nat \<Rightarrow> nat \<Rightarrow> nat list" where
  "blocks_upto p e = (if p < e then p # blocks_upto (p + FlashBlockSize) e else [])"
  by pat_completeness auto
termination
  by (relation "measure (\<lambda>(p, e). e - p)") (auto simp: FlashBlockSize_def)

declare blocks_upto.simps [simp del]

definition NvEnableWrites :: "nat \<Rightarrow> nat \<Rightarrow> flash_lock \<Rightarrow> bool \<times> flash_lock" where
  "NvEnableWrites Address sz l =
     (True, l\<lparr>WriteEnableStatus := Suc (WriteEnableStatus l),
              enabled_blocks := fold (\<lambda>p bs. List.insert p bs) (blocks_upto (BLOCK Address) (Address + sz))
                                  (enabled_blocks l)\<rparr>)"

definition NvDisableWrites :: "nat \<Rightarrow> nat \<Rightarrow> flash_lock \<Rightarrow> bool \<times> flash_lock" where
  "NvDisableWrites Address sz l =
     (True, l\<lparr>enabled_blocks := fold (\<lambda>p bs. removeAll p bs) (blocks_upto (BLOCK Address) (Address + sz))
                                  (enabled_blocks l),
              WriteEnableStatus := WriteEnableStatus l - 1\<rparr>)"

text \<open>The two loops of \<^verbatim>\<open>IsProgrammableOrEqual\<close>.  The result is \<open>None\<close> for the early return with both
  flags cleared, otherwise the value of \<^verbatim>\<open>*pIsEqual\<close>.\<close>

fun programmable_words :: "memory \<Rightarrow> nat \<Rightarrow> u8 list \<Rightarrow> nat \<Rightarrow> bool \<Rightarrow> bool option" where
  "programmable_words m Dest Source 0 eq = Some eq"
| "programmable_words m Dest Source (Suc n) eq =
     (let s = word64 (take INT_SIZE Source); d = word64 (rd_bytes m Dest INT_SIZE) in
      if NOT d AND s \<noteq> 0 then None
      else programmable_words m (Dest + INT_SIZE) (drop INT_SIZE Source) n (eq \<and> d = s))"

fun programmable_bytes :: "memory \<Rightarrow> nat \<Rightarrow> u8 list \<Rightarrow> bool \<Rightarrow> bool option" where
  "programmable_bytes m pDest [] eq = Some eq"
| "programmable_bytes m pDest (s # pSource) eq =
     (if NOT (m pDest) AND s \<noteq> 0 then None
      else programmable_bytes m (Suc pDest) pSource (eq \<and> m pDest = s))"

text \<open>\<^verbatim>\<open>IsProgrammableOrEqual\<close> returns the pair (\<^verbatim>\<open>*pIsProgrammable\<close>, \<^verbatim>\<open>*pIsEqual\<close>).  The word loop
  advances local copies of the two pointers, so the byte loop that follows it reads again from
  the start of the two areas.\<close>

definition IsProgrammableOrEqual :: "memory \<Rightarrow> nat \<Rightarrow> nat \<Rightarrow> u8 list \<Rightarrow> bool \<times> bool" where
  "IsProgrammableOrEqual m pDest pSource bs =
     (let words = (if pDest mod INT_SIZE = 0 \<and> pSource mod INT_SIZE = 0
                   then length bs div INT_SIZE else 0);
          rest = length bs - words * INT_SIZE
      in case programmable_words m pDest bs words True of
           None \<Rightarrow> (False, False)
         | Some eq \<Rightarrow>
             (case programmable_bytes m pDest (take rest bs) eq of
                None \<Rightarrow> (False, False)
              | Some eq' \<Rightarrow> (True, eq')))"

text \<open>What the loops compute, and the part of the source that \<^verbatim>\<open>IsProgrammableOrEqual\<close> looks at.\<close>

lemma programmable_bytes_spec:
  "programmable_bytes m d ss eq =
     (if list_all2 programmable_byte (rd_bytes m d (length ss)) ss
      then Some (eq \<and> rd_bytes m d (length ss) = ss) else None)"
  by (induction ss arbitrary: d eq) (auto simp: rd_bytes_Suc programmable_byte_def)

lemma programmable_words_spec:
  "8 * n \<le> length ss \<Longrightarrow>
   programmable_words m d ss n eq =
     (if list_all2 programmable_byte (rd_bytes m d (8 * n)) (take (8 * n) ss)
      then Some (eq \<and> rd_bytes m d (8 * n) = take (8 * n) ss) else None)"
proof (induction n arbitrary: d ss eq)
  case 0
  then show ?case by simp
next
  case (Suc n)
  have t: "take (8 + 8 * n) ss = take 8 ss @ take (8 * n) (drop 8 ss)"
    by (simp add: take_add)
  have r: "rd_bytes m d (8 + 8 * n) = rd_bytes m d 8 @ rd_bytes m (d + 8) (8 * n)"
    by (rule rd_bytes_append)
  have l: "length (take 8 ss) = 8" "8 * n \<le> length (drop 8 ss)" using Suc.prems by auto
  show ?case
    using l word64_programmable [of "rd_bytes m d 8" "take 8 ss"]
      word64_eq_iff [of "rd_bytes m d 8" "take 8 ss"]
    by (auto simp: t r INT_SIZE_def Suc.IH list_all2_append)
qed

definition checked_part :: "nat \<Rightarrow> nat \<Rightarrow> u8 list \<Rightarrow> u8 list" where
  "checked_part pDest pSource bs =
     (if pDest mod INT_SIZE = 0 \<and> pSource mod INT_SIZE = 0 \<and> INT_SIZE \<le> length bs
      then take (length bs div INT_SIZE * INT_SIZE) bs else bs)"

lemma list_all2_prefix:
  "list_all2 P xs ys \<Longrightarrow> k \<le> length xs \<Longrightarrow> list_all2 P (take k xs) (take k ys)"
  by (simp add: list_all2_takeI)

lemma take_rd_bytes: "k \<le> n \<Longrightarrow> take k (rd_bytes m d n) = rd_bytes m d k"
  by (rule nth_equalityI) auto

lemma IsProgrammableOrEqual_checked:
  "IsProgrammableOrEqual m pDest pSource bs =
     (let cs = checked_part pDest pSource bs; ds = rd_bytes m pDest (length cs)
      in (list_all2 programmable_byte ds cs, ds = cs))"
proof -
  let ?n = "length bs"
  have refl: "list_all2 programmable_byte cs cs" for cs
    by (simp add: list_all2_conv_all_nth)
  show ?thesis
  proof (cases "pDest mod 8 = 0 \<and> pSource mod 8 = 0 \<and> 8 \<le> ?n")
    case True
    let ?k = "?n div 8 * 8"
    let ?cs = "take ?k bs"
    let ?r = "?n - ?k"
    from True have "8 \<le> ?n" by simp
    then have k: "?k \<le> ?n" "8 \<le> ?k" "?r \<le> ?k" by presburger+
    have tr: "take ?r (take ?k bs) = take ?r bs" using k by (simp add: min_absorb1)
    have pre: "list_all2 programmable_byte (rd_bytes m pDest ?r) (take ?r bs)"
      if "list_all2 programmable_byte (rd_bytes m pDest ?k) ?cs"
      using list_all2_prefix [OF that, of ?r] k by (simp add: take_rd_bytes tr)
    have eqr: "rd_bytes m pDest ?r = take ?r bs" if "rd_bytes m pDest ?k = ?cs"
      using arg_cong [OF that, of "take ?r"] k by (simp add: take_rd_bytes tr)
    have w: "programmable_words m pDest bs (?n div 8) True =
      (if list_all2 programmable_byte (rd_bytes m pDest ?k) ?cs
       then Some (rd_bytes m pDest ?k = ?cs) else None)"
      using programmable_words_spec [of "?n div 8" bs m pDest True] k by (simp add: mult.commute)
    from True k pre eqr refl [of ?cs] show ?thesis
      by (auto simp: IsProgrammableOrEqual_def checked_part_def INT_SIZE_def Let_def w
          programmable_bytes_spec min_absorb2)
  next
    case False
    then have "(if pDest mod 8 = 0 \<and> pSource mod 8 = 0 then ?n div 8 else 0) = 0" by auto
    then show ?thesis
      using False refl [of bs]
      by (auto simp: IsProgrammableOrEqual_def checked_part_def INT_SIZE_def Let_def
          programmable_bytes_spec)
  qed
qed

section \<open>Programming and erasing flash\<close>

fun clean_words :: "memory \<Rightarrow> nat \<Rightarrow> nat \<Rightarrow> bool" where
  "clean_words m pDest 0 = True"
| "clean_words m pDest (Suc n) =
     (if word64 (rd_bytes m pDest INT_SIZE) \<noteq> NOT 0 then False else clean_words m (pDest + INT_SIZE) n)"

fun clean_bytes :: "memory \<Rightarrow> nat \<Rightarrow> nat \<Rightarrow> bool" where
  "clean_bytes m pDest 0 = True"
| "clean_bytes m pDest (Suc n) = (if m pDest \<noteq> FLASH_EMPTY_BYTE then False else clean_bytes m (Suc pDest) n)"

text \<open>Here the word loop advances the pointer that the byte loop uses.\<close>

definition IsClean :: "memory \<Rightarrow> nat \<Rightarrow> nat \<Rightarrow> bool" where
  "IsClean m pDest sz =
     (let words = (if pDest mod INT_SIZE = 0 then sz div INT_SIZE else 0)
      in clean_words m pDest words
         \<and> clean_bytes m (pDest + words * INT_SIZE) (sz - words * INT_SIZE))"

lemma clean_bytes_spec: "clean_bytes m p n \<longleftrightarrow> erased m p (p + n)"
proof (induction n arbitrary: p)
  case 0
  then show ?case by (auto simp: erased_def)
next
  case (Suc n)
  have "erased m p (p + Suc n) \<longleftrightarrow> m p = 0xFF \<and> erased m (Suc p) (Suc p + n)"
    by (auto simp: erased_def) (metis Suc_leI le_neq_implies_less)
  with Suc show ?case by (simp add: FLASH_EMPTY_BYTE_def)
qed

lemma erased_split: "erased m a (a + (j + k)) \<longleftrightarrow> erased m a (a + j) \<and> erased m (a + j) (a + j + k)"
  by (auto simp: erased_def) (metis add.assoc le_cases not_le)

lemma rd_bytes_replicate_iff: "rd_bytes m a k = replicate k 0xFF \<longleftrightarrow> erased m a (a + k)"
  by (auto simp: erased_def list_eq_iff_nth_eq) (metis add_diff_inverse_nat le_add_diff_inverse less_diff_conv2 add.commute not_le)

lemma word64_ones: "word64 (replicate 8 0xFF) = NOT 0"
  by code_simp

lemma clean_words_spec: "clean_words m p n \<longleftrightarrow> erased m p (p + 8 * n)"
proof (induction n arbitrary: p)
  case 0
  then show ?case by (auto simp: erased_def)
next
  case (Suc n)
  have "word64 (rd_bytes m p 8) = NOT 0 \<longleftrightarrow> erased m p (p + 8)"
    using word64_eq_iff [of "rd_bytes m p 8" "replicate 8 0xFF"] rd_bytes_replicate_iff [of m p 8]
    by (simp only: word64_ones length_rd_bytes length_replicate)
  with Suc erased_split [of m p 8 "8 * n"] show ?case by (simp add: INT_SIZE_def)
qed

lemma IsClean_spec: "IsClean m p n \<longleftrightarrow> erased m p (p + n)"
proof (cases "p mod 8 = 0")
  case True
  let ?w = "8 * (n div 8)"
  have n: "?w + (n - ?w) = n" by simp
  have "erased m p (p + (?w + (n - ?w))) \<longleftrightarrow> erased m p (p + ?w) \<and> erased m (p + ?w) (p + ?w + (n - ?w))"
    by (rule erased_split)
  with True show ?thesis
    by (simp only: n IsClean_def clean_words_spec clean_bytes_spec INT_SIZE_def Let_def mult.commute
        simp_thms if_True)
next
  case False
  then show ?thesis
    by (simp add: IsClean_def clean_bytes_spec INT_SIZE_def)
qed

text \<open>\<^verbatim>\<open>NvProgram\<close>; \<open>pData\<close> is the address the bytes \<open>bs\<close> are read from.\<close>

definition NvProgram :: "flash_dev \<Rightarrow> nat \<Rightarrow> nat \<Rightarrow> u8 list \<Rightarrow> memory \<Rightarrow> bool \<times> memory" where
  "NvProgram dev Address pData bs m =
     (if bs = [] then (True, m)
      else
        let (Programmable, Equal) = IsProgrammableOrEqual m Address pData bs in
        if Equal then (True, m)
        else if \<not> Programmable then (False, m)
        else
          let (Status, m') = FlashProgram dev Address (take (length bs mod 2 ^ 32) bs) m in
          (if Status then rd_bytes m' Address (length bs) = bs else False, m'))"

text \<open>The global variables of the driver that its routines share: the buffers of
  \<^verbatim>\<open>SelectiveAllocate\<close>, the runtime flag and the mode of a copy.  \<open>Malloc\<close> is the result of the
  pool allocator.\<close>

record buffer_state =
  NvramDriverBuffer :: nat
  NvramDriverBufferSize :: nat
  FirstPartAlloc :: bool
  SecondPartAlloc :: bool
  Runtime :: bool
  SaveOnlyPreservedVars :: bool

definition SelectiveAllocate :: "nat option \<Rightarrow> bool \<Rightarrow> nat \<Rightarrow> buffer_state \<Rightarrow> nat option \<times> buffer_state" where
  "SelectiveAllocate Malloc FirstPart sz b =
     (if NvramDriverBuffer b \<noteq> 0
      then if FirstPart
           then if \<not> FirstPartAlloc b
                then (Some (NvramDriverBuffer b), b\<lparr>FirstPartAlloc := True\<rparr>) else (None, b)
           else if \<not> SecondPartAlloc b
                then (Some (NvramDriverBuffer b + NvramDriverBufferSize b div 3 * 2),
                      b\<lparr>SecondPartAlloc := True\<rparr>)
                else (None, b)
      else if \<not> Runtime b then (Malloc, b)
      else (None, b))"

definition SelectiveFree :: "nat \<Rightarrow> buffer_state \<Rightarrow> buffer_state" where
  "SelectiveFree Target b =
     (if NvramDriverBuffer b \<noteq> 0 \<and> Target = NvramDriverBuffer b then b\<lparr>FirstPartAlloc := False\<rparr>
      else if NvramDriverBuffer b \<noteq> 0
              \<and> Target = NvramDriverBuffer b + NvramDriverBufferSize b div 3 * 2
      then b\<lparr>SecondPartAlloc := False\<rparr>
      else b)"

text \<open>The loop of \<^verbatim>\<open>NvErase\<close> that erases the blocks after the first one; \<open>n\<close> is the number of
  blocks from \<open>p\<close> to \<open>pEndBlock\<close>.\<close>

fun erase_blocks :: "flash_dev \<Rightarrow> nat \<Rightarrow> nat \<Rightarrow> memory \<Rightarrow> bool \<times> memory" where
  "erase_blocks dev 0 p m = (True, m)"
| "erase_blocks dev (Suc n) p m =
     (let (ok, m') = FlashEraseBlock dev p m
      in if ok then erase_blocks dev n (p + FlashBlockSize) m' else (False, m'))"

definition NvErase ::
    "flash_dev \<Rightarrow> nat option \<Rightarrow> nat \<Rightarrow> nat \<Rightarrow> buffer_state \<times> memory \<Rightarrow> bool \<times> buffer_state \<times> memory" where
  "NvErase dev Malloc Address sz s =
     (let (b, m) = s;
          pEnd = Address + sz;
          pStartBlock = BLOCK Address;
          pEndBlock = BLOCK (pEnd - 1) + FlashBlockSize;
          PrologSize = Address - pStartBlock;
          EpilogSize = pEndBlock - pEnd;
          Prolog = rd_bytes m pStartBlock PrologSize;
          Epilog = rd_bytes m pEnd EpilogSize
      in if sz = 0 \<or> IsClean m Address sz then (True, b, m)
         else
           let (pBuffer, b1) = (if PrologSize + EpilogSize \<noteq> 0
                                then SelectiveAllocate Malloc True (PrologSize + EpilogSize) b
                                else (None, b))
           in if PrologSize + EpilogSize \<noteq> 0 \<and> pBuffer = None then (False, b1, m)
              else
                let buf = (case pBuffer of Some a \<Rightarrow> a | None \<Rightarrow> 0);
                    (ok1, m1) = FlashEraseBlock dev pStartBlock m;
                    (ok2, m2) = (if ok1 \<and> PrologSize \<noteq> 0 then NvProgram dev pStartBlock buf Prolog m1
                                 else (ok1, m1));
                    (ok3, m3) = (if ok2 then erase_blocks dev ((pEndBlock - pStartBlock) div FlashBlockSize - 1)
                                               (pStartBlock + FlashBlockSize) m2
                                 else (False, m2));
                    (ok4, m4) = (if ok3 \<and> EpilogSize \<noteq> 0
                                 then NvProgram dev pEnd (buf + PrologSize) Epilog m3 else (ok3, m3))
                in (ok4, case pBuffer of Some a \<Rightarrow> SelectiveFree a b1 | None \<Rightarrow> b1, m4))"

section \<open>Hybrid interface\<close>

definition uintn_add :: "nat \<Rightarrow> nat \<Rightarrow> nat" where
  "uintn_add a b = (a + b) mod 2 ^ 64"

datatype VARIABLE_INTERFACE = MemInterface | NvInterface | HybridInterface

record VARSTORE_INFO =
  vs_HeaderLength :: nat
  NvramMode :: u32
  InfoCount :: nat
  LastInfoIndex :: nat
  NvramInfo :: "NVRAM_STORE_INFO list"
  NvInfo :: "nat option"
  MemInfo :: "nat option"
  vs_NvInterface :: VARIABLE_INTERFACE
  BackupAddress :: "nat option"
  AddressDelta :: nat
  NvramFlashAddress :: nat

text \<open>\<open>NvInfo\<close> and \<open>MemInfo\<close> are indices into the array \<open>NvramInfo\<close> (pointers to its elements in the
  source).\<close>

definition HybridGetAddressDelta :: "VARSTORE_INFO \<Rightarrow> nat \<Rightarrow> nat \<Rightarrow> nat" where
  "HybridGetAddressDelta vs Address sz =
     (case NvInfo vs of
        None \<Rightarrow> AddressDelta vs
      | Some i \<Rightarrow>
          let info = NvramInfo vs ! i in
          if NvramAddress info \<le> Address \<and> Address + sz \<le> NvramAddress info + NvramSize info
          then AddressDelta vs else 0)"

definition HybridEnableWrites :: "VARSTORE_INFO \<Rightarrow> nat \<Rightarrow> nat \<Rightarrow> flash_lock \<Rightarrow> bool \<times> flash_lock" where
  "HybridEnableWrites vs Address sz =
     NvEnableWrites (uintn_add (HybridGetAddressDelta vs Address sz) Address) sz"

definition HybridDisableWrites :: "VARSTORE_INFO \<Rightarrow> nat \<Rightarrow> nat \<Rightarrow> flash_lock \<Rightarrow> bool \<times> flash_lock" where
  "HybridDisableWrites vs Address sz =
     NvDisableWrites (uintn_add (HybridGetAddressDelta vs Address sz) Address) sz"

definition HybridErase ::
    "flash_dev \<Rightarrow> nat option \<Rightarrow> VARSTORE_INFO \<Rightarrow> nat \<Rightarrow> nat \<Rightarrow> buffer_state \<times> memory
       \<Rightarrow> bool \<times> buffer_state \<times> memory" where
  "HybridErase dev Malloc vs Address sz s =
     (let Delta = HybridGetAddressDelta vs Address sz;
          (ok, b', m') = NvErase dev Malloc (uintn_add Delta Address) sz s
      in if Delta = 0 then (ok, b', m')
         else if ok then (let (r, m'') = MemErase Address sz m' in (r, b', m''))
         else (False, b', wr_bytes m' Address (rd_bytes m' (uintn_add Delta Address) sz)))"

definition HybridProgram ::
    "flash_dev \<Rightarrow> VARSTORE_INFO \<Rightarrow> nat \<Rightarrow> nat \<Rightarrow> u8 list \<Rightarrow> memory \<Rightarrow> bool \<times> memory" where
  "HybridProgram dev vs Address pData bs m =
     (let Delta = HybridGetAddressDelta vs Address (length bs);
          (ok, m') = NvProgram dev (uintn_add Delta Address) pData bs m
      in if Delta = 0 then (ok, m')
         else if ok then MemProgram Address bs m'
         else (False, wr_bytes m' Address (rd_bytes m' (uintn_add Delta Address) (length bs))))"

text \<open>\<^verbatim>\<open>InitHybridInterface\<close> on the store that \<open>NvStore\<close> describes; \<open>Pool\<close> is the address
  \<^verbatim>\<open>AllocatePool\<close> returned, if it succeeded.\<close>

definition InitHybridInterface ::
    "nat option \<Rightarrow> NVRAM_STORE_INFO \<Rightarrow> VARSTORE_INFO \<Rightarrow> memory \<Rightarrow> NVRAM_STORE_INFO \<times> VARSTORE_INFO \<times> memory" where
  "InitHybridInterface Pool NvStore vs m =
     (let flash = NvramAddress NvStore;
          (store', iface, m') = (case Pool of
             Some a \<Rightarrow> (NvStore\<lparr>NvramAddress := a\<rparr>, HybridInterface,
                        wr_bytes m a (rd_bytes m flash (NvramSize NvStore)))
           | None \<Rightarrow> (NvStore, NvInterface, m));
          store'' = NvInitInfoBuffer m' store' (vs_HeaderLength vs) NVRAM_STORE_FLAG_NON_VALATILE
      in (store'', vs\<lparr>NvramFlashAddress := flash, vs_NvInterface := iface,
                      AddressDelta := uintn_sub flash (NvramAddress store'')\<rparr>, m'))"

definition SwapVarstoresInHybridMode ::
    "NVRAM_STORE_INFO \<Rightarrow> VARSTORE_INFO \<Rightarrow> memory \<Rightarrow> bool \<times> NVRAM_STORE_INFO \<times> VARSTORE_INFO \<times> memory" where
  "SwapVarstoresInHybridMode BackupInfo vs m =
     (if NvramFlashAddress vs = 0 then (False, BackupInfo, vs, m)
      else
        let orig = NvramFlashAddress vs;
            backup = (case BackupAddress vs of Some a \<Rightarrow> a | None \<Rightarrow> 0);
            info = NvramInfo vs ! (case NvInfo vs of Some i \<Rightarrow> i | None \<Rightarrow> 0);
            vs1 = vs\<lparr>NvramFlashAddress := backup\<rparr>;
            (vs2, m2) = (if AddressDelta vs \<noteq> 0
                         then (vs1\<lparr>AddressDelta := uintn_sub backup (NvramAddress info)\<rparr>,
                               wr_bytes m (NvramAddress info) (rd_bytes m backup (NvramSize info)))
                         else (vs1, m));
            BackupInfo' = NvInitInfoBuffer m2
              (BackupInfo\<lparr>NvramAddress := NvramAddress info, NvramSize := NvramSize info\<rparr>)
              (vs_HeaderLength vs) (Flags info)
        in (True, BackupInfo', vs2\<lparr>BackupAddress := Some orig\<rparr>, m2))"

definition HybridStoreToRealStore :: "VARSTORE_INFO \<Rightarrow> NVRAM_STORE_INFO \<Rightarrow> NVRAM_STORE_INFO" where
  "HybridStoreToRealStore vs InInfo =
     InInfo\<lparr>NvramAddress := NvramFlashAddress vs,
            NvramGuidsAddress := uintn_add (NvramGuidsAddress InInfo) (AddressDelta vs),
            pEndOfVars := uintn_add (pEndOfVars InInfo) (AddressDelta vs),
            pFirstVar := uintn_add (pFirstVar InInfo) (AddressDelta vs),
            pLastReturned := None\<rparr>"

section \<open>The flash part as an interface\<close>

text \<open>What the driver relies on: programming and erasing change nothing outside their range, and
  an erase that reports success leaves the block erased.  A working part also programs
  whatever only clears bits.\<close>

locale flash_device =
  fixes dev :: flash_dev
  assumes program_frame:
      "FlashProgram dev a bs m = (ok, m') \<Longrightarrow> i < a \<or> a + length bs \<le> i \<Longrightarrow> m' i = m i"
    and erase_frame:
      "FlashEraseBlock dev p m = (ok, m') \<Longrightarrow> i < p \<or> p + FlashBlockSize \<le> i \<Longrightarrow> m' i = m i"
    and erase_ok: "FlashEraseBlock dev p m = (True, m') \<Longrightarrow> erased m' p (p + FlashBlockSize)"
begin

lemma NvProgram_frame:
  assumes "NvProgram dev a src bs m = (ok, m')" and "i < a \<or> a + length bs \<le> i"
  shows "m' i = m i"
proof -
  have "i < a \<or> a + length (take (length bs mod 2 ^ 32) bs) \<le> i"
    using assms(2) by auto
  with assms(1) program_frame show ?thesis
    by (auto simp: NvProgram_def split: if_splits prod.splits)
qed

lemma erase_blocks_frame:
  "erase_blocks dev n p m = (ok, m') \<Longrightarrow> i < p \<or> p + n * FlashBlockSize \<le> i \<Longrightarrow> m' i = m i"
proof (induction n arbitrary: p m)
  case 0
  then show ?case by simp
next
  case (Suc n)
  obtain ok1 m1 where e: "FlashEraseBlock dev p m = (ok1, m1)" by (cases "FlashEraseBlock dev p m")
  from Suc.prems(2) have "m1 i = m i" by (intro erase_frame [OF e]) auto
  with Suc.IH [of "p + FlashBlockSize" m1] Suc.prems e show ?case
    by (auto simp: add.assoc split: if_splits)
qed

lemma erase_blocks_ok:
  "erase_blocks dev n p m = (True, m') \<Longrightarrow> erased m' p (p + n * FlashBlockSize)"
proof (induction n arbitrary: p m)
  case 0
  then show ?case by (auto simp: erased_def)
next
  case (Suc n)
  obtain ok1 m1 where e: "FlashEraseBlock dev p m = (ok1, m1)" by (cases "FlashEraseBlock dev p m")
  with Suc.prems have ok1: "ok1" and r: "erase_blocks dev n (p + FlashBlockSize) m1 = (True, m')"
    by (auto split: if_splits)
  have "erased m1 p (p + FlashBlockSize)" using erase_ok e ok1 by simp
  then have "erased m' p (p + FlashBlockSize)"
    using erase_blocks_frame [OF r] by (simp add: erased_def)
  with Suc.IH [OF r] erased_split [of m' p FlashBlockSize "n * FlashBlockSize"] show ?case
    by (simp add: add.assoc)
qed

end

lemma NvProgram_success:
  assumes "NvProgram dev a src bs m = (True, m')" and "checked_part a src bs = bs"
  shows "rd_bytes m' a (length bs) = bs"
  using assms by (auto simp: NvProgram_def IsProgrammableOrEqual_checked Let_def
      split: if_splits prod.splits)

lemma checked_part_all:
  assumes "a mod 8 \<noteq> 0 \<or> src mod 8 \<noteq> 0 \<or> length bs < 8 \<or> length bs mod 8 = 0"
  shows "checked_part a src bs = bs"
proof -
  have "length bs div 8 * 8 = length bs" if "length bs mod 8 = 0"
    using that div_mult_mod_eq [of "length bs" 8] by linarith
  with assms show ?thesis by (auto simp: checked_part_def INT_SIZE_def)
qed

lemma BLOCK_eq: "a < 2 ^ 64 \<Longrightarrow> BLOCK a = a - a mod FlashBlockSize"
proof -
  assume a: "a < 2 ^ 64"
  have "(4096::int) dvd 2 ^ 64" by simp
  then have "(int a - int FlashDeviceBase) mod 2 ^ 64 mod 4096 = (int a - int FlashDeviceBase) mod 4096"
    by (rule mod_mod_cancel)
  also have "\<dots> = int a mod 4096"
    by (simp add: FlashDeviceBase_def mod_diff_eq [symmetric])
  finally have "int (uintn_sub a FlashDeviceBase mod 4096) = int (a mod 4096)"
    by (simp add: uintn_sub_def zmod_int)
  then show ?thesis by (simp add: BLOCK_def FlashBlockSize_def)
qed

text \<open>The block-aligned hull of a non-empty range.\<close>

lemma block_hull:
  assumes "0 < n" and "a + n < 2 ^ 64"
  defines "s \<equiv> BLOCK a" and "e \<equiv> BLOCK (a + n - 1) + FlashBlockSize"
  shows "s \<le> a" "a < s + FlashBlockSize" "a + n \<le> e"
    "s + FlashBlockSize + ((e - s) div FlashBlockSize - 1) * FlashBlockSize = e"
    "a - s = a mod FlashBlockSize" "e - (a + n) < FlashBlockSize" "e mod FlashBlockSize = 0"
    "s + FlashBlockSize \<le> e" "e < a + n + FlashBlockSize"
proof -
  define q r where "q = a div 4096" and "r = a mod 4096"
  define q' r' where "q' = (a + n - 1) div 4096" and "r' = (a + n - 1) mod 4096"
  have a: "a = 4096 * q + r" "r < 4096" by (simp_all add: q_def r_def)
  have l: "a + n - 1 = 4096 * q' + r'" "r' < 4096" by (simp_all add: q'_def r'_def)
  have "q \<le> q'" unfolding q_def q'_def using assms(1) by (intro div_le_mono) simp
  then obtain d where d: "q' = q + d" using le_Suc_ex by blast
  have s: "s = 4096 * q"
    using assms BLOCK_eq [of a] a by (simp add: FlashBlockSize_def r_def [symmetric])
  have "BLOCK (a + n - 1) = (a + n - 1) - r'"
    using assms(2) BLOCK_eq [of "a + n - 1"] by (simp add: FlashBlockSize_def r'_def)
  with l have "BLOCK (a + n - 1) = 4096 * q'" by simp
  then have e: "e = 4096 * (q + d + 1)" by (simp add: e_def d FlashBlockSize_def)
  have "e - s = 4096 * (d + 1)" by (simp add: s e)
  then have k: "(e - s) div 4096 - 1 = d" by simp
  show "s \<le> a" "a < s + FlashBlockSize" using a s by (simp_all add: FlashBlockSize_def)
  show "a + n \<le> e" "e - (a + n) < FlashBlockSize" "e < a + n + FlashBlockSize"
    using assms(1) l d e by (simp_all add: FlashBlockSize_def)
  show "s + FlashBlockSize + ((e - s) div FlashBlockSize - 1) * FlashBlockSize = e"
    "e mod FlashBlockSize = 0" "s + FlashBlockSize \<le> e"
    using k by (simp_all add: FlashBlockSize_def s e)
  show "a - s = a mod FlashBlockSize" using a s by (simp add: FlashBlockSize_def)
qed

text \<open>The successful runs of \<^verbatim>\<open>NvErase\<close>, stage by stage: the first block is erased and its beginning
  restored, the other blocks are erased, the end of the last block is restored.\<close>

lemma NvProgram_Nil [simp]: "NvProgram dev a src [] m = (True, m)"
  by (simp add: NvProgram_def)

lemma NvErase_stages:
  assumes "NvErase dev Malloc a n (b, m) = (ok, b', m')" and "n \<noteq> 0" and "\<not> IsClean m a n"
  defines "s \<equiv> BLOCK a" and "e \<equiv> BLOCK (a + n - 1) + FlashBlockSize"
  shows "(\<not> ok \<and> m' = m) \<or> (\<exists>buf ok1 m1 ok2 m2 ok3 m3.
    FlashEraseBlock dev s m = (ok1, m1)
    \<and> (if ok1 then NvProgram dev s buf (rd_bytes m s (a - s)) m1 = (ok2, m2) else \<not> ok2 \<and> m2 = m1)
    \<and> (if ok2 then erase_blocks dev ((e - s) div FlashBlockSize - 1) (s + FlashBlockSize) m2 = (ok3, m3)
       else \<not> ok3 \<and> m3 = m2)
    \<and> (if ok3 then NvProgram dev (a + n) (buf + (a - s)) (rd_bytes m (a + n) (e - (a + n))) m3 = (ok, m')
       else \<not> ok \<and> m' = m3))"
proof -
  let ?P = "a - s" and ?E = "e - (a + n)"
  obtain pb b1 where pb: "(if ?P + ?E \<noteq> 0 then SelectiveAllocate Malloc True (?P + ?E) b else (None, b)) = (pb, b1)"
    by fastforce
  let ?buf = "case pb of Some x \<Rightarrow> x | None \<Rightarrow> 0"
  obtain ok1 m1 where 1: "FlashEraseBlock dev s m = (ok1, m1)" by fastforce
  obtain ok2 m2 where 2: "(if ok1 \<and> ?P \<noteq> 0 then NvProgram dev s ?buf (rd_bytes m s ?P) m1 else (ok1, m1)) = (ok2, m2)"
    by fastforce
  obtain ok3 m3 where 3: "(if ok2 then erase_blocks dev ((e - s) div FlashBlockSize - 1) (s + FlashBlockSize) m2
      else (False, m2)) = (ok3, m3)" by fastforce
  obtain ok4 m4 where 4: "(if ok3 \<and> ?E \<noteq> 0 then NvProgram dev (a + n) (?buf + ?P) (rd_bytes m (a + n) ?E) m3
      else (ok3, m3)) = (ok4, m4)" by fastforce
  have r: "(ok, b', m') = (if ?P + ?E \<noteq> 0 \<and> pb = None then (False, b1, m)
      else (ok4, case pb of Some x \<Rightarrow> SelectiveFree x b1 | None \<Rightarrow> b1, m4))"
    using assms(1,2,3) pb 1 2 3 4 unfolding NvErase_def s_def e_def Let_def
    by (simp only: prod.case simp_thms if_False)
  show ?thesis
  proof (cases "?P + ?E \<noteq> 0 \<and> pb = None")
    case True
    with r show ?thesis by simp
  next
    case False
    with r have o: "ok = ok4" "m' = m4" by (simp_all split: if_splits)
    have s2: "if ok1 then NvProgram dev s ?buf (rd_bytes m s ?P) m1 = (ok2, m2) else \<not> ok2 \<and> m2 = m1"
      using 2 by (cases "?P = 0"; cases ok1; simp)
    have s3: "if ok2 then erase_blocks dev ((e - s) div FlashBlockSize - 1) (s + FlashBlockSize) m2 = (ok3, m3)
       else \<not> ok3 \<and> m3 = m2" using 3 by (cases ok2) simp_all
    have s4: "if ok3 then NvProgram dev (a + n) (?buf + ?P) (rd_bytes m (a + n) ?E) m3 = (ok, m')
       else \<not> ok \<and> m' = m3" using 4 o by (cases "?E = 0"; cases ok3; simp)
    from 1 s2 s3 s4 show ?thesis by blast
  qed
qed

context flash_device
begin

lemma NvErase_hull_frame:
  assumes "NvErase dev Malloc a n (b, m) = (ok, b', m')" and "a + n < 2 ^ 64"
    and "i < BLOCK a \<or> BLOCK (a + n - 1) + FlashBlockSize \<le> i"
  shows "m' i = m i"
proof (cases "n = 0 \<or> IsClean m a n")
  case True
  with assms(1) show ?thesis by (simp add: NvErase_def Let_def)
next
  case False
  then have n: "0 < n" "n \<noteq> 0" "\<not> IsClean m a n" by auto
  note h = block_hull [OF n(1) assms(2)]
  from NvErase_stages [OF assms(1) n(2,3)] show ?thesis
  proof (elim disjE conjE exE)
    fix buf ok1 m1 ok2 m2 ok3 m3
    let ?s = "BLOCK a" and ?e = "BLOCK (a + n - 1) + FlashBlockSize"
    assume 1: "FlashEraseBlock dev ?s m = (ok1, m1)"
      and 2: "if ok1 then NvProgram dev ?s buf (rd_bytes m ?s (a - ?s)) m1 = (ok2, m2) else \<not> ok2 \<and> m2 = m1"
      and 3: "if ok2 then erase_blocks dev ((?e - ?s) div FlashBlockSize - 1) (?s + FlashBlockSize) m2 = (ok3, m3)
         else \<not> ok3 \<and> m3 = m2"
      and 4: "if ok3 then NvProgram dev (a + n) (buf + (a - ?s)) (rd_bytes m (a + n) (?e - (a + n))) m3 = (ok, m')
         else \<not> ok \<and> m' = m3"
    have "m1 i = m i" using erase_frame [OF 1, of i] assms(3) h by auto
    moreover have "m2 i = m1 i"
      using 2 NvProgram_frame [of ?s buf "rd_bytes m ?s (a - ?s)" m1 ok2 m2 i] assms(3) h
      by (auto split: if_splits)
    moreover have "m3 i = m2 i"
      using 3 erase_blocks_frame [of _ "?s + FlashBlockSize" m2 ok3 m3 i] assms(3) h
      by (auto split: if_splits)
    moreover have "m' i = m3 i"
      using 4 NvProgram_frame [of "a + n" _ "rd_bytes m (a + n) (?e - (a + n))" m3 ok m' i] assms(3) h
      by (auto split: if_splits)
    ultimately show ?thesis by simp
  qed simp
qed

lemma NvErase_success:
  assumes "NvErase dev Malloc a n (b, m) = (True, b', m')" and "a + n < 2 ^ 64"
    and "a mod 8 = 0" and "n mod 8 = 0"
  shows "m' i = (if a \<le> i \<and> i < a + n then 0xFF else m i)"
proof (cases "n = 0 \<or> IsClean m a n")
  case True
  with assms(1) show ?thesis by (auto simp: NvErase_def Let_def IsClean_spec erased_def)
next
  case False
  then have n: "0 < n" "n \<noteq> 0" "\<not> IsClean m a n" by auto
  let ?s = "BLOCK a" and ?e = "BLOCK (a + n - 1) + FlashBlockSize"
  note h = block_hull [OF n(1) assms(2)]
  from NvErase_stages [OF assms(1) n(2,3)] obtain buf m1 m2 m3
    where 1: "FlashEraseBlock dev ?s m = (True, m1)"
      and 2: "NvProgram dev ?s buf (rd_bytes m ?s (a - ?s)) m1 = (True, m2)"
      and 3: "erase_blocks dev ((?e - ?s) div FlashBlockSize - 1) (?s + FlashBlockSize) m2 = (True, m3)"
      and 4: "NvProgram dev (a + n) (buf + (a - ?s)) (rd_bytes m (a + n) (?e - (a + n))) m3 = (True, m')"
    by (auto split: if_splits)
  have P8: "(a - ?s) mod 8 = 0"
    using h(5) assms(3) mod_mod_cancel [of 8 4096 a] by (simp add: FlashBlockSize_def)
  have E8: "(?e - (a + n)) mod 8 = 0"
  proof -
    have "(a + n) mod 8 = 0" using assms(3,4) by (simp add: mod_add_eq [symmetric])
    moreover have "?e mod 8 = 0"
      using h(7) mod_mod_cancel [of 8 4096 ?e] by (simp add: FlashBlockSize_def)
    ultimately show ?thesis using h(3) by (simp add: mod_eq_0_iff_dvd dvd_diff_nat)
  qed
  have prolog: "m2 i = m i" if "?s \<le> i" "i < a" for i
    using NvProgram_success [OF 2] checked_part_all [of ?s buf] P8 that
    by (metis add_diff_cancel_left' add_diff_inverse_nat diff_less_mono length_rd_bytes not_less rd_bytes_nth)
  have epilog: "m' i = m i" if "a + n \<le> i" "i < ?e" for i
    using NvProgram_success [OF 4] checked_part_all [of "a + n"] E8 that
    by (metis add_diff_cancel_left' add_diff_inverse_nat diff_less_mono length_rd_bytes not_less rd_bytes_nth)
  have er1: "m1 i = 0xFF" if "?s \<le> i" "i < ?s + FlashBlockSize" for i
    using erase_ok [OF 1] that by (simp add: erased_def)
  have er3: "m3 i = 0xFF" if "?s + FlashBlockSize \<le> i" "i < ?e" for i
    using erase_blocks_ok [OF 3] h(4) that by (simp add: erased_def)
  have f2: "m2 i = m1 i" if "i < ?s \<or> a \<le> i" for i
    using NvProgram_frame [OF 2, of i] that h(1) by auto
  have f3: "m3 i = m2 i" if "i < ?s + FlashBlockSize \<or> ?e \<le> i" for i
    using erase_blocks_frame [OF 3, of i] that h(4) by auto
  have f4: "m' i = m3 i" if "i < a + n \<or> ?e \<le> i" for i
    using NvProgram_frame [OF 4, of i] that h(3) by auto
  consider "i < ?s \<or> ?e \<le> i" | "?s \<le> i" "i < a" | "a \<le> i" "i < a + n" | "a + n \<le> i" "i < ?e"
    by linarith
  then show ?thesis
  proof cases
    case 1
    then show ?thesis using NvErase_hull_frame [OF assms(1,2)] h(1,3) by auto
  next
    case 2
    then show ?thesis using prolog f3 f4 h(2) n(1) by simp
  next
    case 3
    then show ?thesis
      using er1 er3 f2 f3 f4 h(1,2,3) by (cases "i < ?s + FlashBlockSize") auto
  next
    case 4
    then show ?thesis using epilog by simp
  qed
qed

end

text \<open>The contract between the variable writing code and an update interface: a write that only
  clears bits succeeds and changes exactly the bytes written.\<close>

locale write_interface =
  fixes WriteBytes :: "nat \<Rightarrow> u8 list \<Rightarrow> memory \<Rightarrow> bool \<times> memory"
  assumes write_clearing:
    "list_all2 programmable_byte (rd_bytes m a (length bs)) bs \<Longrightarrow> length bs < 2 ^ 32 \<Longrightarrow>
     WriteBytes a bs m = (True, wr_bytes m a bs)"
begin

lemma write_erased:
  assumes "erased m a (a + length bs)" and "length bs < 2 ^ 32"
  shows "WriteBytes a bs m = (True, wr_bytes m a bs)"
  using assms
  by (intro write_clearing) (auto simp: list_all2_conv_all_nth erased_def)

end

interpretation memp: write_interface MemProgram
  by unfold_locales (simp add: MemProgram_def)

locale working_flash = flash_device +
  assumes program_works:
    "list_all2 programmable_byte (rd_bytes m a (length bs)) bs \<Longrightarrow>
     FlashProgram dev a bs m = (True, wr_bytes m a bs)"

locale flash_writer = working_flash +
  fixes src :: nat
  assumes unaligned_src: "src mod 8 \<noteq> 0"

sublocale flash_writer \<subseteq> nvp: write_interface "\<lambda>a bs m. NvProgram dev a src bs m"
proof
  fix m a and bs :: "u8 list"
  assume c: "list_all2 programmable_byte (rd_bytes m a (length bs)) bs" and l: "length bs < 2 ^ 32"
  have "checked_part a src bs = bs" using unaligned_src by (intro checked_part_all) simp
  then have i: "IsProgrammableOrEqual m a src bs = (True, rd_bytes m a (length bs) = bs)"
    using c by (simp add: IsProgrammableOrEqual_checked)
  have e: "wr_bytes m a bs = m" if "rd_bytes m a (length bs) = bs"
    using wr_bytes_rd_bytes [of m a "length bs"] that by simp
  from l have "take (length bs mod 2 ^ 32) bs = bs" by simp
  with i program_works [OF c] e show "NvProgram dev a src bs m = (True, wr_bytes m a bs)"
    by (auto simp: NvProgram_def Let_def)
qed

text \<open>A NOR flash part: programming clears bits, erasing sets a whole block.\<close>

definition nor_program :: "nat \<Rightarrow> u8 list \<Rightarrow> memory \<Rightarrow> bool \<times> memory" where
  "nor_program a bs m = (True, wr_bytes m a (map2 (AND) (rd_bytes m a (length bs)) bs))"

definition nor_erase :: "nat \<Rightarrow> memory \<Rightarrow> bool \<times> memory" where
  "nor_erase p m = (True, wr_bytes m p (replicate FlashBlockSize 0xFF))"

definition nor_dev :: flash_dev where
  "nor_dev = \<lparr>FlashProgram = nor_program, FlashEraseBlock = nor_erase\<rparr>"

lemma programmable_and: "programmable_byte old new \<Longrightarrow> old AND new = new"
proof -
  assume "programmable_byte old new"
  then have z: "NOT old AND new = 0" by (simp add: programmable_byte_def)
  have "new = (old OR NOT old) AND new" by simp
  also have "\<dots> = (old AND new) OR (NOT old AND new)" by (rule bit.conj_disj_distrib2)
  finally show ?thesis using z by simp
qed

interpretation nor: flash_writer nor_dev 1
proof
  fix m m' :: memory and a i :: nat and bs ok
  assume "FlashProgram nor_dev a bs m = (ok, m')" "i < a \<or> a + length bs \<le> i"
  then show "m' i = m i" by (auto simp: nor_dev_def nor_program_def wr_bytes_def)
next
  fix m m' :: memory and p i :: nat and ok
  assume "FlashEraseBlock nor_dev p m = (ok, m')" "i < p \<or> p + FlashBlockSize \<le> i"
  then show "m' i = m i" by (auto simp: nor_dev_def nor_erase_def wr_bytes_def)
next
  fix m m' :: memory and p :: nat
  assume "FlashEraseBlock nor_dev p m = (True, m')"
  then show "erased m' p (p + FlashBlockSize)"
    by (auto simp: nor_dev_def nor_erase_def wr_bytes_def erased_def)
next
  fix m :: memory and a and bs :: "u8 list"
  assume c: "list_all2 programmable_byte (rd_bytes m a (length bs)) bs"
  have "map2 (AND) (rd_bytes m a (length bs)) bs = bs"
    by (rule nth_equalityI) (use c in \<open>auto simp: list_all2_conv_all_nth programmable_and\<close>)
  then show "FlashProgram nor_dev a bs m = (True, wr_bytes m a bs)"
    by (simp add: nor_dev_def nor_program_def)
qed simp

section \<open>The memory copy of the hybrid interface\<close>

text \<open>A store in hybrid mode: the copy in memory and the store in flash are two disjoint regions
  below the end of the address space and the delta leads from one to the other.\<close>

definition hybrid_ok :: "VARSTORE_INFO \<Rightarrow> bool" where
  "hybrid_ok vs \<longleftrightarrow>
     (case NvInfo vs of None \<Rightarrow> False | Some i \<Rightarrow>
        let nv = NvramAddress (NvramInfo vs ! i); sz = NvramSize (NvramInfo vs ! i);
            fl = NvramFlashAddress vs
        in AddressDelta vs = uintn_sub fl nv \<and> nv + sz < 2 ^ 64 \<and> fl + sz < 2 ^ 64
           \<and> (nv + sz \<le> fl \<or> fl + sz \<le> nv))"

definition mirror :: "VARSTORE_INFO \<Rightarrow> memory \<Rightarrow> bool" where
  "mirror vs m \<longleftrightarrow>
     (\<forall>k < NvramSize (NvramInfo vs ! the (NvInfo vs)).
        m (NvramAddress (NvramInfo vs ! the (NvInfo vs)) + k) = m (NvramFlashAddress vs + k))"

definition in_store :: "VARSTORE_INFO \<Rightarrow> nat \<Rightarrow> nat \<Rightarrow> bool" where
  "in_store vs a n \<longleftrightarrow>
     NvramAddress (NvramInfo vs ! the (NvInfo vs)) \<le> a
     \<and> a + n \<le> NvramAddress (NvramInfo vs ! the (NvInfo vs)) + NvramSize (NvramInfo vs ! the (NvInfo vs))"

definition flash_of :: "VARSTORE_INFO \<Rightarrow> nat \<Rightarrow> nat" where
  "flash_of vs a = NvramFlashAddress vs + (a - NvramAddress (NvramInfo vs ! the (NvInfo vs)))"

lemma uintn_delta: "nv \<le> a \<Longrightarrow> a < 2 ^ 64 \<Longrightarrow> fl + (a - nv) < 2 ^ 64 \<Longrightarrow> uintn_add (uintn_sub fl nv) a = fl + (a - nv)"
proof -
  assume a: "nv \<le> a" "a < 2 ^ 64" "fl + (a - nv) < 2 ^ 64"
  have "int (uintn_add (uintn_sub fl nv) a) = ((int fl - int nv) mod 2 ^ 64 + int a) mod 2 ^ 64"
    by (simp add: uintn_add_def uintn_sub_def zmod_int)
  also have "\<dots> = (int fl - int nv + int a) mod 2 ^ 64" by (simp only: mod_add_left_eq)
  also have "\<dots> = int (fl + (a - nv)) mod 2 ^ 64" using a by (simp add: algebra_simps of_nat_diff)
  also have "\<dots> = int (fl + (a - nv))" using a(3) by (intro mod_pos_pos_trivial) auto
  finally show ?thesis by simp
qed

lemma hybrid_delta:
  assumes "hybrid_ok vs" and "in_store vs a n" and "0 < n"
  shows "HybridGetAddressDelta vs a n = AddressDelta vs" "AddressDelta vs \<noteq> 0"
    "uintn_add (AddressDelta vs) a = flash_of vs a"
proof -
  from assms(1) obtain i where i: "NvInfo vs = Some i" by (auto simp: hybrid_ok_def split: option.splits)
  let ?I = "NvramInfo vs ! i"
  from assms(1) i have h: "AddressDelta vs = uintn_sub (NvramFlashAddress vs) (NvramAddress ?I)"
    "NvramAddress ?I + NvramSize ?I < 2 ^ 64" "NvramFlashAddress vs + NvramSize ?I < 2 ^ 64"
    "NvramAddress ?I + NvramSize ?I \<le> NvramFlashAddress vs \<or> NvramFlashAddress vs + NvramSize ?I \<le> NvramAddress ?I"
    by (auto simp: hybrid_ok_def Let_def)
  from assms(2) i have s: "NvramAddress ?I \<le> a" "a + n \<le> NvramAddress ?I + NvramSize ?I"
    by (auto simp: in_store_def)
  from s i show "HybridGetAddressDelta vs a n = AddressDelta vs" by (simp add: HybridGetAddressDelta_def)
  show u: "uintn_add (AddressDelta vs) a = flash_of vs a"
    using uintn_delta [of "NvramAddress ?I" a "NvramFlashAddress vs"] h s assms(3) i
    by (simp add: flash_of_def)
  show "AddressDelta vs \<noteq> 0"
  proof
    assume "AddressDelta vs = 0"
    then have "flash_of vs a = a" using u s h(2) assms(3) by (simp add: uintn_add_def)
    then have "NvramFlashAddress vs + (a - NvramAddress ?I) = a"
      by (simp only: flash_of_def i option.sel)
    with h(4) s assms(3) show False by linarith
  qed
qed

text \<open>Overwriting a range of the copy and the corresponding range of the flash with the same
  bytes keeps the two equal.\<close>

lemma mirror_step:
  assumes h: "hybrid_ok vs" and s: "in_store vs a (length bs)" and mir: "mirror vs m"
    and f: "\<And>i. i < flash_of vs a \<or> flash_of vs a + length bs \<le> i \<Longrightarrow> m1 i = m i"
    and e: "rd_bytes m1 (flash_of vs a) (length bs) = bs"
  shows "mirror vs (wr_bytes m1 a bs)"
  unfolding mirror_def
proof (intro allI impI)
  fix k
  let ?I = "NvramInfo vs ! the (NvInfo vs)"
  let ?nv = "NvramAddress ?I" and ?fl = "NvramFlashAddress vs"
  assume k: "k < NvramSize ?I"
  from h have d: "?nv + NvramSize ?I \<le> ?fl \<or> ?fl + NvramSize ?I \<le> ?nv"
    by (auto simp: hybrid_ok_def Let_def split: option.splits)
  from s have a: "?nv \<le> a" "a + length bs \<le> ?nv + NvramSize ?I" by (auto simp: in_store_def)
  have fa: "flash_of vs a = ?fl + (a - ?nv)" by (simp add: flash_of_def)
  have fk: "wr_bytes m1 a bs (?fl + k) = m1 (?fl + k)"
    using d a k by (intro wr_bytes_out) auto
  show "wr_bytes m1 a bs (?nv + k) = wr_bytes m1 a bs (?fl + k)"
  proof (cases "a \<le> ?nv + k \<and> ?nv + k < a + length bs")
    case True
    then have j: "?nv + k - a < length bs" "flash_of vs a + (?nv + k - a) = ?fl + k"
      using a fa by auto
    have "m1 (?fl + k) = bs ! (?nv + k - a)"
      using arg_cong [OF e, of "\<lambda>xs. xs ! (?nv + k - a)"] j by simp
    with True fk show ?thesis by (simp add: wr_bytes_in)
  next
    case False
    have "m1 (?nv + k) = m (?nv + k)" using d a k fa by (intro f) auto
    moreover have "m1 (?fl + k) = m (?fl + k)" using False a fa by (intro f) auto
    moreover have "m (?nv + k) = m (?fl + k)" using mir k by (simp add: mirror_def)
    moreover have "wr_bytes m1 a bs (?nv + k) = m1 (?nv + k)"
      using False by (intro wr_bytes_out) auto
    ultimately show ?thesis using fk by simp
  qed
qed

section \<open>Properties\<close>

text \<open>\<^verbatim>\<open>IsProgrammableOrEqual\<close> agrees with its byte-wise meaning whenever its word loop covers the
  whole area (one of the pointers is not word aligned, or the size is a multiple of the word
  size, or smaller than a word): the two flags tell whether every byte can be programmed by
  clearing bits and whether the areas are equal.\<close>

theorem IsProgrammableOrEqual_correct:
  assumes "a mod 8 \<noteq> 0 \<or> src mod 8 \<noteq> 0 \<or> length bs < 8 \<or> length bs mod 8 = 0"
  shows "IsProgrammableOrEqual m a src bs =
    (list_all2 programmable_byte (rd_bytes m a (length bs)) bs, rd_bytes m a (length bs) = bs)"
  using checked_part_all [OF assms] by (simp add: IsProgrammableOrEqual_checked Let_def)

theorem IsProgrammableOrEqual_correct_witness:
  "IsProgrammableOrEqual (\<lambda>_. 0xFF) 8 3 (replicate 9 7) = (True, False)"
proof -
  have "IsProgrammableOrEqual (\<lambda>_. 0xFF) 8 3 (replicate 9 7) =
    (list_all2 programmable_byte (rd_bytes (\<lambda>_. 0xFF) 8 (length (replicate 9 (7::u8)))) (replicate 9 7),
     rd_bytes (\<lambda>_. 0xFF) 8 (length (replicate 9 (7::u8))) = replicate 9 7)"
    by (rule IsProgrammableOrEqual_correct) simp
  also have "\<dots> = (True, False)" by code_simp
  finally show ?thesis .
qed

text \<open>The byte loop of \<^verbatim>\<open>IsProgrammableOrEqual\<close> starts again from the first byte, so with both
  pointers word aligned the bytes after the last whole word are never looked at: if the whole
  words are equal already, \<^verbatim>\<open>NvProgram\<close> reports success and leaves the tail unwritten, whatever it
  is.\<close>

theorem NvProgram_skips_tail:
  assumes "a mod 8 = 0" and "src mod 8 = 0" and "8 \<le> length bs"
    and "rd_bytes m a (length bs div 8 * 8) = take (length bs div 8 * 8) bs"
  shows "NvProgram dev a src bs m = (True, m)"
proof -
  let ?k = "length bs div 8 * 8"
  have "list_all2 programmable_byte (take ?k bs) (take ?k bs)"
    by (simp add: list_all2_conv_all_nth)
  moreover have "checked_part a src bs = take ?k bs"
    using assms(1-3) by (simp add: checked_part_def INT_SIZE_def)
  moreover have "length (take ?k bs) = ?k" by (simp add: min_absorb2)
  ultimately have "IsProgrammableOrEqual m a src bs = (True, True)"
    using assms(4) by (simp only: IsProgrammableOrEqual_checked Let_def simp_thms)
  with assms(3) show ?thesis by (simp add: NvProgram_def)
qed

theorem NvProgram_skips_tail_witness:
  "NvProgram nor_dev 0 0 (replicate 8 255 @ [1]) (\<lambda>_. 0xFF) = (True, \<lambda>_. 0xFF)
   \<and> rd_bytes (\<lambda>_. 0xFF) 0 9 \<noteq> (replicate 8 255 @ [1] :: u8 list)"
proof -
  have "rd_bytes (\<lambda>_. 0xFF) 0 8 = (replicate 8 255 :: u8 list)" by code_simp
  then have "NvProgram nor_dev 0 0 (replicate 8 255 @ [1]) (\<lambda>_. 0xFF) = (True, \<lambda>_. 0xFF)"
    by (intro NvProgram_skips_tail) simp_all
  moreover have "rd_bytes (\<lambda>_. 0xFF) 0 9 \<noteq> (replicate 8 255 @ [1] :: u8 list)" by code_simp
  ultimately show ?thesis ..
qed

text \<open>C18: when the comparison covers the whole area, a \<^verbatim>\<open>TRUE\<close> result of \<^verbatim>\<open>NvProgram\<close> means that the
  flash holds the data, whatever the device did: the driver reads back what it programmed.\<close>

theorem NvProgram_verified:
  assumes "NvProgram dev a src bs m = (True, m')"
    and "a mod 8 \<noteq> 0 \<or> src mod 8 \<noteq> 0 \<or> length bs < 8 \<or> length bs mod 8 = 0"
  shows "rd_bytes m' a (length bs) = bs"
  using NvProgram_success [OF assms(1) checked_part_all [OF assms(2)]] .

theorem NvProgram_verified_witness:
  "rd_bytes (snd (NvProgram nor_dev 8 1 [1, 2, 3] (\<lambda>_. 0xFF))) 8 (length ([1, 2, 3] :: u8 list)) = [1, 2, 3]"
proof -
  have "fst (NvProgram nor_dev 8 1 [1, 2, 3] (\<lambda>_. 0xFF))" by code_simp
  then have "NvProgram nor_dev 8 1 [1, 2, 3] (\<lambda>_. 0xFF) = (True, snd (NvProgram nor_dev 8 1 [1, 2, 3] (\<lambda>_. 0xFF)))"
    by (metis prod.collapse)
  from NvProgram_verified [OF this] show ?thesis by simp
qed


text \<open>A block-sized store whose first byte is programmed.\<close>

definition ex_buffers :: buffer_state where
  "ex_buffers = \<lparr>NvramDriverBuffer = 0, NvramDriverBufferSize = 0, FirstPartAlloc = False,
     SecondPartAlloc = False, Runtime = False, SaveOnlyPreservedVars = False\<rparr>"

lemma NvErase_ex:
  "NvErase nor_dev None 0 4096 (ex_buffers, (\<lambda>_. 0xFF)(0 := 0)) =
     (True, ex_buffers, wr_bytes ((\<lambda>_. 0xFF)(0 := 0)) 0 (replicate 4096 0xFF))"
proof -
  have "\<not> IsClean ((\<lambda>_. 0xFF)(0 := 0)) 0 4096" by (auto simp: IsClean_spec erased_def)
  moreover have "BLOCK 0 = 0" "BLOCK 4095 = 0" by code_simp+
  ultimately show ?thesis
    by (simp add: NvErase_def Let_def FlashBlockSize_def nor_dev_def nor_erase_def)
qed



definition ex_vs :: VARSTORE_INFO where
  "ex_vs = \<lparr>vs_HeaderLength = 0, NvramMode = 0, InfoCount = 1, LastInfoIndex = 0,
     NvramInfo = [ex_info\<lparr>NvramAddress := 0, NvramSize := 4096\<rparr>], NvInfo = Some 0, MemInfo = None,
     vs_NvInterface = HybridInterface, BackupAddress = None, AddressDelta = 8192,
     NvramFlashAddress = 8192\<rparr>"

lemma ex_vs_ok: "hybrid_ok ex_vs" by code_simp

lemma ex_vs_mirror: "mirror ex_vs (\<lambda>_. c)" by (simp add: mirror_def)


lemma block_hull_aligned:
  assumes "0 < n" and "a + n < 2 ^ 64" and "a mod FlashBlockSize = 0" and "n mod FlashBlockSize = 0"
  shows "BLOCK a = a" "BLOCK (a + n - 1) + FlashBlockSize = a + n"
proof -
  let ?e = "BLOCK (a + n - 1) + FlashBlockSize"
  note h = block_hull [OF assms(1,2)]
  show "BLOCK a = a" using h(1,5) assms(3) by simp
  have "(a + n) mod FlashBlockSize = 0" using assms(3,4) by (simp add: mod_add_eq [symmetric])
  then have "(?e - (a + n)) mod FlashBlockSize = 0" using h(3,7) by (simp add: mod_eq_0_iff_dvd dvd_diff_nat)
  then have "?e - (a + n) = 0" using h(6) by simp
  with h(3) show "?e = a + n" by simp
qed

text \<open>\<^verbatim>\<open>HybridErase\<close> on whole flash blocks of the store keeps the memory copy equal to the flash
  store whether or not the erase succeeds, and on success the copy is erased too.\<close>

theorem HybridErase_keeps_mirror:
  assumes "flash_device dev" and "hybrid_ok vs" and "mirror vs m" and "in_store vs a n"
    and "flash_of vs a mod FlashBlockSize = 0" and "n mod FlashBlockSize = 0"
    and "HybridErase dev Malloc vs a n (b, m) = (ok, b', m')"
  shows "mirror vs m' \<and> (ok \<longrightarrow> erased m' a (a + n))"
proof (cases "n = 0")
  case True
  with assms(3,7) show ?thesis
    by (auto simp: HybridErase_def NvErase_def MemErase_def erased_def Let_def split: if_splits)
next
  case False
  then have n: "0 < n" by simp
  note d = hybrid_delta [OF assms(2,4) n]
  let ?f = "flash_of vs a"
  have f64: "?f + n < 2 ^ 64"
    using assms(2,4) by (auto simp: hybrid_ok_def in_store_def flash_of_def Let_def split: option.splits)
  obtain ok1 b1 m1 where e: "NvErase dev Malloc ?f n (b, m) = (ok1, b1, m1)" by (metis prod_cases3)
  note hull = block_hull_aligned [OF n f64 assms(5,6)]
  have frame: "m1 i = m i" if "i < ?f \<or> ?f + n \<le> i" for i
    using flash_device.NvErase_hull_frame [OF assms(1) e f64, of i] that by (simp only: hull)
  show ?thesis
  proof (cases ok1)
    case True
    have "8 dvd ?f" "8 dvd n"
      using assms(5,6) dvd_trans [of 8 "4096::nat"] by (auto simp: FlashBlockSize_def mod_eq_0_iff_dvd)
    then have "m1 i = 0xFF" if "?f \<le> i" "i < ?f + n" for i
      using flash_device.NvErase_success [OF assms(1) _ f64, of Malloc b m b1 m1 i] e True that
      by (simp add: mod_eq_0_iff_dvd)
    then have r: "rd_bytes m1 ?f n = replicate n 0xFF"
      by (simp add: rd_bytes_replicate_iff erased_def)
    have "mirror vs (wr_bytes m1 a (replicate n 0xFF))"
      by (rule mirror_step [OF assms(2) _ assms(3)]) (use assms(4) frame r in auto)
    moreover have "erased (wr_bytes m1 a (replicate n 0xFF)) a (a + n)"
      by (auto simp: erased_def wr_bytes_def)
    ultimately show ?thesis
      using True e d assms(7) by (auto simp: HybridErase_def MemErase_def FLASH_EMPTY_BYTE_def)
  next
    case False
    have "mirror vs (wr_bytes m1 a (rd_bytes m1 ?f n))"
      by (rule mirror_step [OF assms(2) _ assms(3)]) (use assms(4) frame in auto)
    with False e d assms(7) show ?thesis by (auto simp: HybridErase_def)
  qed
qed

theorem HybridErase_keeps_mirror_witness:
  "mirror ex_vs (snd (snd (HybridErase nor_dev None ex_vs 0 4096 (ex_buffers, \<lambda>_. 0))))"
proof -
  let ?r = "HybridErase nor_dev None ex_vs 0 4096 (ex_buffers, \<lambda>_. 0)"
  have "in_store ex_vs 0 4096" "flash_of ex_vs 0 mod FlashBlockSize = 0" "4096 mod FlashBlockSize = 0"
    by code_simp+
  from HybridErase_keeps_mirror [OF nor.flash_device_axioms ex_vs_ok ex_vs_mirror this,
      of None ex_buffers 0 "fst ?r" "fst (snd ?r)" "snd (snd ?r)"]
  show ?thesis by simp
qed

end
