(* ===== verification/NvramWrite.thy ===== *)
theory NvramWrite
  imports NvramFlash
begin

text \<open>
  The routines of \<^verbatim>\<open>AmiModulePkg/NVRAM/NvramDxe.c\<close> that change a variable store: creating,
  updating, deleting and copying variables, garbage collection into a fresh store, and the
  discovery of the records of a store at start-up.

  The update interface is a parameter \<open>WB\<close>, the \<^verbatim>\<open>WriteBytes\<close> routine of a \<^verbatim>\<open>VARIABLE_INTERFACE\<close>.
  The bracketing \<^verbatim>\<open>EnableUpdate\<close> and \<^verbatim>\<open>DisableUpdate\<close> calls only change the write protection of
  the flash part (\<open>NvEnableWrites\<close>, \<open>NvDisableWrites\<close>), not the contents of a store.
  \<open>cks\<close> is the global \<^verbatim>\<open>NvramChecksumSupport\<close>.  \<^verbatim>\<open>FlashNotMemoryMapped\<close> is false, as in the build.

  A sequence of writes that stops at the first failure is a state \<open>(ok, p, m)\<close>: the status of the
  last write, the write position and memory.
\<close>

section \<open>Sequences of writes\<close>

type_synonym writer = "nat \<Rightarrow> u8 list \<Rightarrow> memory \<Rightarrow> bool \<times> memory"
type_synonym wstate = "bool \<times> nat \<times> memory"

text \<open>\<^verbatim>\<open>ok = WriteBytes(p, n, bs); p += n; if (!ok) break;\<close>\<close>

definition w_adv :: "writer \<Rightarrow> u8 list \<Rightarrow> wstate \<Rightarrow> wstate" where
  "w_adv WB bs st = (case st of (ok, p, m) \<Rightarrow>
     if \<not> ok then st else let (ok', m') = WB p bs m in (ok', p + length bs, m'))"

text \<open>\<^verbatim>\<open>ok = WriteBytes(p, n, bs); if (!ok) break; p += k;\<close>\<close>

definition w_brk :: "writer \<Rightarrow> u8 list \<Rightarrow> nat \<Rightarrow> wstate \<Rightarrow> wstate" where
  "w_brk WB bs k st = (case st of (ok, p, m) \<Rightarrow>
     if \<not> ok then st else let (ok', m') = WB p bs m in (ok', if ok' then p + k else p, m'))"

text \<open>\<^verbatim>\<open>ok = WriteBytes(a, n, bs); if (!ok) break;\<close> at an address other than \<^verbatim>\<open>p\<close>.\<close>

definition w_at :: "writer \<Rightarrow> nat \<Rightarrow> u8 list \<Rightarrow> wstate \<Rightarrow> wstate" where
  "w_at WB a bs st = (case st of (ok, p, m) \<Rightarrow>
     if \<not> ok then st else let (ok', m') = WB a bs m in (ok', p, m'))"

text \<open>\<^verbatim>\<open>p = v;\<close>\<close>

definition w_goto :: "nat \<Rightarrow> wstate \<Rightarrow> wstate" where
  "w_goto v st = (case st of (ok, p, m) \<Rightarrow> if \<not> ok then st else (ok, v, m))"

text \<open>The checksum of the record at \<open>pVar\<close>, adjusted for the erased checksum field, written to \<open>a\<close>.\<close>

definition w_checksum :: "writer \<Rightarrow> nat \<Rightarrow> nat \<Rightarrow> wstate \<Rightarrow> wstate" where
  "w_checksum WB pVar a st = (case st of (ok, p, m) \<Rightarrow>
     w_at WB a [NvCalculateNvarChecksum m pVar + FLASH_EMPTY_BYTE] st)"

section \<open>Space and recovery\<close>

definition IsEnoughSpace :: "NVRAM_STORE_INFO \<Rightarrow> nat \<Rightarrow> bool" where
  "IsEnoughSpace info sz \<longleftrightarrow>
     uintn_add (pEndOfVars info) sz
       \<le> uintn_sub (uintn_sub (NvramAddress info + NvramSize info) (sizeof_GUID * (NextGuid info + 1)))
           sizeof_NVAR"

text \<open>The first address from \<open>p\<close> on, below \<open>e\<close>, that is not erased; \<open>e\<close> if there is none.\<close>

function first_programmed :: "memory \<Rightarrow> nat \<Rightarrow> nat \<Rightarrow> nat" where
  "first_programmed m p e =
     (if p < e \<and> m p = FLASH_EMPTY_BYTE then first_programmed m (Suc p) e else p)"
  by pat_completeness auto
termination
  by (relation "measure (\<lambda>(m, p, e). e - p)") auto

declare first_programmed.simps [simp del]

definition RecoverFromFlashUpdateFailure ::
    "memory \<Rightarrow> NVRAM_STORE_INFO \<Rightarrow> nat \<Rightarrow> nat \<Rightarrow> nat \<Rightarrow> NVRAM_STORE_INFO" where
  "RecoverFromFlashUpdateFailure m info EndOfVars DataSize PrevVar =
     (if EndOfVars = pEndOfVars info then info
      else
        let NewVar = pEndOfVars info in
        if nvar_size m NewVar = DataSize
        then if nvar_signature m NewVar = NVAR_SIGNATURE \<and> NvGetDataNvar m PrevVar info \<noteq> Some NewVar
             then info\<lparr>LastVarSize := DataSize mod 2 ^ 16\<rparr>
             else info\<lparr>pEndOfVars := pEndOfVars info + DataSize, LastVarSize := 0\<rparr>
        else
          let p = first_programmed m (pEndOfVars info) EndOfVars in
          if p = EndOfVars then info
          else info\<lparr>pEndOfVars := p, LastVarSize := DataSize mod 2 ^ 16\<rparr>)"

section \<open>Extended security fields\<close>

definition HASH_SHA256_LEN :: nat where [nv_consts]: "HASH_SHA256_LEN = 32"

record EXT_SEC_FLAGS =
  AuthFlags :: u8
  Mc :: nat
  KeyHash :: "u8 list"

text \<open>\<^verbatim>\<open>EXT_SEC_FLAGS ExtSecFlags = {0,0,{0}}\<close>\<close>

definition no_ext_flags :: EXT_SEC_FLAGS where
  "no_ext_flags = \<lparr>AuthFlags = 0, Mc = 0, KeyHash = replicate HASH_SHA256_LEN 0\<rparr>"

definition GetVarAuthExtFlags ::
    "memory \<Rightarrow> nat option \<Rightarrow> NVRAM_STORE_INFO option \<Rightarrow> EXT_SEC_FLAGS \<Rightarrow> EXT_SEC_FLAGS" where
  "GetVarAuthExtFlags m Var pInfo ExtFlags =
     (case (Var, pInfo) of
        (Some v, Some info) \<Rightarrow>
          let e1 = (if has (Flags info) NVRAM_STORE_FLAG_NON_VALATILE
                    then ExtFlags\<lparr>AuthFlags := AuthFlags ExtFlags OR ucast EFI_VARIABLE_NON_VOLATILE\<rparr>
                    else ExtFlags)
          in if has (nvar_flags m v) (NVRAM_FLAG_AUTH_WRITE OR NVRAM_FLAG_EXT_HEDER)
             then e1\<lparr>AuthFlags := AuthFlags e1
                       OR (m (NvGetExtFlags m v) AND ucast UEFI23_1_AUTHENTICATED_VARIABLE_ATTRIBUTES),
                     Mc := (case NvGetDataNvar m v info of
                              Some d \<Rightarrow> rd 8 m (NvGetExtFlags m d + 1) | None \<Rightarrow> Mc e1),
                     KeyHash := rd_bytes m (NvGetExtFlags m v + 1 + 8) HASH_SHA256_LEN\<rparr>
             else e1
      | _ \<Rightarrow> ExtFlags)"

text \<open>\<^verbatim>\<open>FlashMemFlashWrite\<close> copies in chunks of 256 bytes through a buffer; \<open>src\<close> reads the source.
  The size left is not decremented for the last chunk, so a size that is a multiple of 256 keeps
  the loop running until a write fails.\<close>

partial_function (option) FlashMemFlashWrite ::
    "writer \<Rightarrow> nat \<Rightarrow> nat \<Rightarrow> nat \<Rightarrow> memory \<Rightarrow> (bool \<times> nat \<times> memory) option" where
  "FlashMemFlashWrite WB PointerTo From SizeToWrite m =
     (let TempSize = (if SizeToWrite \<le> 256 then SizeToWrite else 256);
          left = (if SizeToWrite \<le> 256 then SizeToWrite else SizeToWrite - 256);
          (Result, m') = WB PointerTo (rd_bytes m From TempSize) m
      in if TempSize < 256 \<or> left = 0 \<or> \<not> Result then Some (Result, PointerTo + TempSize, m')
         else FlashMemFlashWrite WB (PointerTo + TempSize) (From + TempSize) left m')"

declare FlashMemFlashWrite.simps [code]

definition FindVariable ::
    "memory \<Rightarrow> char16 list \<Rightarrow> u8 list \<Rightarrow> bool \<Rightarrow> bool \<Rightarrow> NVRAM_STORE_INFO
       \<Rightarrow> efi_status \<times> u32 option \<times> (nat \<times> nat) option" where
  "FindVariable m VariableName VendorGuid Attributes Data info =
     (case NvFindVariable m VariableName VendorGuid info of
        Some (Nvar, NameSize) \<Rightarrow>
          if Data
          then (EFI_SUCCESS,
                if Attributes then snd (NvGetAttributesFromNvar m (Some Nvar) (Some info) True) else None,
                NvGetData m Nvar NameSize info)
          else (EFI_NOT_FOUND, None, None)
      | None \<Rightarrow> (EFI_NOT_FOUND, None, None))"

section \<open>Creating a variable\<close>

text \<open>The flags, the size of the extended header and the extended flags that the attributes ask for
  (shared by the first part of \<^verbatim>\<open>CreateVariableEx\<close>).\<close>

definition create_flags :: "bool \<Rightarrow> u32 \<Rightarrow> u8 \<times> nat \<times> u8" where
  "create_flags cks Attributes =
     (let auth = has Attributes UEFI23_1_AUTHENTICATED_VARIABLE_ATTRIBUTES;
          f1 = NVRAM_FLAG_VALID
               OR (if has Attributes EFI_VARIABLE_RUNTIME_ACCESS then NVRAM_FLAG_RUNTIME else 0)
               OR (if has Attributes EFI_VARIABLE_HARDWARE_ERROR_RECORD
                   then NVRAM_FLAG_HARDWARE_ERROR_RECORD else 0)
               OR (if auth then NVRAM_FLAG_EXT_HEDER OR NVRAM_FLAG_AUTH_WRITE else 0);
          x1 = (if auth then 1 + 8 + HASH_SHA256_LEN + 2 else 0);
          e1 = (if auth then ucast (Attributes AND UEFI23_1_AUTHENTICATED_VARIABLE_ATTRIBUTES) else 0)
      in if cks
         then (f1 OR NVRAM_FLAG_EXT_HEDER, if x1 = 0 then 4 else x1 + 1, e1 OR NVRAM_EXT_FLAG_CHECKSUM)
         else (f1, x1, e1))"

text \<open>The search of the GUID area: the index of the GUID, or the number of GUIDs in use.\<close>

fun guid_search :: "memory \<Rightarrow> nat \<Rightarrow> u8 list \<Rightarrow> nat \<Rightarrow> nat \<Rightarrow> nat" where
  "guid_search m base g 0 i = i"
| "guid_search m base g (Suc n) i =
     (if rd_bytes m (base - sizeof_GUID * i) sizeof_GUID \<noteq> g then guid_search m base g n (Suc i) else i)"

text \<open>The characters of a name up to its terminator, whether all of them fit a byte, and the bytes
  a name is stored as.\<close>

definition c_string :: "char16 list \<Rightarrow> char16 list" where
  "c_string name = takeWhile (\<lambda>c. c \<noteq> 0) name"

definition name_ascii :: "char16 list \<Rightarrow> bool" where
  "name_ascii name = list_all (\<lambda>c. drop_bit 8 c = 0) (c_string name)"

definition name_bytes :: "char16 list \<Rightarrow> u8 list" where
  "name_bytes name =
     (if name_ascii name then map ucast (c_string name) @ [0]
      else concat (map (\<lambda>c. le_bytes 2 (unat c)) (c_string name)) @ [0, 0])"

record create_plan =
  cp_flags :: u8
  cp_ExtSize :: nat
  cp_ExtFlags :: u8
  cp_guid :: nat
  cp_Size :: nat

text \<open>Everything \<^verbatim>\<open>CreateVariableEx\<close> computes before it writes.  \<open>cp_Size\<close> is the size without data and
  extended header.\<close>

definition plan_create ::
    "bool \<Rightarrow> memory \<Rightarrow> char16 list \<Rightarrow> u8 list \<Rightarrow> u32 \<Rightarrow> NVRAM_STORE_INFO \<Rightarrow> nat option \<Rightarrow> nat \<Rightarrow> create_plan" where
  "plan_create cks m VariableName VendorGuid Attributes info OldVar AppendDataSize =
     (let (f1, x, e) = create_flags cks Attributes;
          guid = guid_search m (NvramGuidsAddress info) VendorGuid (NextGuid info) 0;
          full = (case OldVar of Some v \<Rightarrow> has (nvar_flags m v) NVRAM_FLAG_GUID | None \<Rightarrow> False)
                 \<or> NextGuid info > 255 \<and> guid \<ge> NextGuid info
      in \<lparr>cp_flags = f1 OR (if full then NVRAM_FLAG_GUID else 0)
                        OR (if name_ascii VariableName then NVRAM_FLAG_ASCII_NAME else 0),
          cp_ExtSize = x, cp_ExtFlags = e, cp_guid = guid,
          cp_Size = sizeof_NVAR + AppendDataSize + (if full then sizeof_GUID else 1)
                    + length (name_bytes VariableName)\<rparr>)"

text \<open>The header as it is first programmed: without its signature.\<close>

definition nvar_header :: "nat \<Rightarrow> nat \<Rightarrow> u8 \<Rightarrow> u8 list" where
  "nvar_header sz nxt flags =
     le_bytes 4 FLASH_EMPTY_SIGNATURE @ le_bytes 2 sz @ le_bytes 3 nxt @ [flags]"

definition write_guid :: "writer \<Rightarrow> create_plan \<Rightarrow> u8 list \<Rightarrow> NVRAM_STORE_INFO \<Rightarrow> wstate \<Rightarrow> wstate" where
  "write_guid WB cp VendorGuid info st =
     (if has (cp_flags cp) NVRAM_FLAG_GUID then w_adv WB VendorGuid st
      else
        let st' = (if cp_guid cp = NextGuid info
                   then w_at WB (NvramGuidsAddress info - sizeof_GUID * NextGuid info) VendorGuid st
                   else st)
        in w_adv WB [word_of_nat (cp_guid cp)] st')"

definition write_name :: "writer \<Rightarrow> char16 list \<Rightarrow> wstate \<Rightarrow> wstate" where
  "write_name WB name st =
     (if name_ascii name
      then w_adv WB [0] (fold (\<lambda>c. w_adv WB [ucast c]) (c_string name) st)
      else w_adv WB [0, 0] (fold (\<lambda>c. w_adv WB (le_bytes 2 (unat c))) (c_string name) st))"

text \<open>The extended header of an authenticated variable.\<close>

definition write_auth_ext :: "writer \<Rightarrow> u32 \<Rightarrow> u8 \<Rightarrow> EXT_SEC_FLAGS \<Rightarrow> nat \<Rightarrow> nat \<Rightarrow> wstate \<Rightarrow> wstate" where
  "write_auth_ext WB Attributes ExtFlags sec ExtSize pSize st =
     (if has Attributes UEFI23_1_AUTHENTICATED_VARIABLE_ATTRIBUTES
      then w_brk WB (le_bytes 2 ExtSize) 0
             (w_goto pSize
               (w_brk WB (take HASH_SHA256_LEN (KeyHash sec)) 0
                 (w_brk WB (le_bytes 8 (Mc sec)) 8
                   (w_brk WB [ExtFlags] 1 st))))
      else st)"

text \<open>The checksum and, for a variable that is not authenticated, the extended header around it;
  \<open>p1\<close> is the address after the data.\<close>

definition write_checksum_ext :: "writer \<Rightarrow> bool \<Rightarrow> u8 \<Rightarrow> u8 \<Rightarrow> nat \<Rightarrow> nat \<Rightarrow> nat \<Rightarrow> wstate \<Rightarrow> wstate" where
  "write_checksum_ext WB cks flags ExtFlags ExtSize p1 pVar st =
     (if \<not> cks then st
      else
        let p = p1 + ExtSize; st1 = w_goto p st in
        if \<not> has flags NVRAM_FLAG_AUTH_WRITE
        then w_checksum WB pVar (p - 3) (w_at WB p1 [ExtFlags] (w_at WB (p - 2) (le_bytes 2 ExtSize) st1))
        else w_checksum WB pVar (p - 3) st1)"

definition CreateVariableEx ::
    "writer \<Rightarrow> bool \<Rightarrow> char16 list \<Rightarrow> u8 list \<Rightarrow> u32 \<Rightarrow> u8 list \<Rightarrow> nat option \<Rightarrow> EXT_SEC_FLAGS \<Rightarrow> u8 list
       \<Rightarrow> NVRAM_STORE_INFO \<Rightarrow> memory \<Rightarrow> efi_status \<times> NVRAM_STORE_INFO \<times> memory" where
  "CreateVariableEx WB cks VariableName VendorGuid Attributes Data OldVar sec AppendData info m =
     (let cp = plan_create cks m VariableName VendorGuid Attributes info OldVar (length AppendData);
          Size0 = cp_Size cp; ExtSize = cp_ExtSize cp;
          sz = Size0 + (length Data + ExtSize);
          pVar = pEndOfVars info
      in if 2 ^ 64 - 1 - Size0 < (length Data + ExtSize) mod 2 ^ 64
         then (EFI_OUT_OF_RESOURCES, info, m)
         else if \<not> IsEnoughSpace info sz then (EFI_OUT_OF_RESOURCES, info, m)
         else
           let st1 = w_adv WB (nvar_header (sz mod 2 ^ 16) FLASH_EMPTY_NEXT (cp_flags cp)) (True, pVar, m);
               new_guid = (fst st1 \<and> \<not> has (cp_flags cp) NVRAM_FLAG_GUID \<and> cp_guid cp = NextGuid info);
               info1 = (if new_guid then info\<lparr>NextGuid := Suc (NextGuid info)\<rparr> else info);
               st2 = write_guid WB cp VendorGuid info st1;
               st3 = write_name WB VariableName st2;
               st4 = (if has Attributes EFI_VARIABLE_APPEND_WRITE then w_adv WB AppendData st3 else st3);
               st5 = w_adv WB Data st4;
               p1 = fst (snd st5);
               st6 = write_auth_ext WB Attributes (cp_ExtFlags cp) sec ExtSize (pVar + sz - 2) st5;
               st7 = write_checksum_ext WB cks (cp_flags cp) (cp_ExtFlags cp) ExtSize p1 pVar st6;
               (ok, p, m') = w_at WB pVar (le_bytes 4 NVAR_SIGNATURE) st7
           in if ok
              then (EFI_SUCCESS,
                    info1\<lparr>pEndOfVars := pEndOfVars info + sz, LastVarSize := sz mod 2 ^ 16\<rparr>, m')
              else (EFI_DEVICE_ERROR, RecoverFromFlashUpdateFailure m' info1 p sz pVar, m'))"

definition CreateVariable ::
    "writer \<Rightarrow> bool \<Rightarrow> char16 list \<Rightarrow> u8 list \<Rightarrow> u32 \<Rightarrow> u8 list \<Rightarrow> nat option \<Rightarrow> EXT_SEC_FLAGS
       \<Rightarrow> NVRAM_STORE_INFO \<Rightarrow> memory \<Rightarrow> efi_status \<times> NVRAM_STORE_INFO \<times> memory" where
  "CreateVariable WB cks VariableName VendorGuid Attributes Data OldVar sec info m =
     CreateVariableEx WB cks VariableName VendorGuid Attributes Data OldVar sec [] info m"

section \<open>Updating and deleting a variable\<close>

definition update_flags :: "bool \<Rightarrow> u32 \<Rightarrow> u8 \<times> nat \<times> u8" where
  "update_flags cks Attributes =
     (let auth = has Attributes UEFI23_1_AUTHENTICATED_VARIABLE_ATTRIBUTES;
          f1 = NVRAM_FLAG_VALID OR NVRAM_FLAG_DATA_ONLY
               OR (if auth then NVRAM_FLAG_EXT_HEDER OR NVRAM_FLAG_AUTH_WRITE else 0);
          x1 = (if auth then 1 + 8 + 2 else 0)
      in if cks then (f1 OR NVRAM_FLAG_EXT_HEDER, if x1 = 0 then 4 else x1 + 1, NVRAM_EXT_FLAG_CHECKSUM)
         else (f1, x1, 0))"

text \<open>The extended header of an updated authenticated variable has no key hash.\<close>

definition write_update_ext :: "writer \<Rightarrow> u32 \<Rightarrow> u8 \<Rightarrow> EXT_SEC_FLAGS \<Rightarrow> nat \<Rightarrow> nat \<Rightarrow> wstate \<Rightarrow> wstate" where
  "write_update_ext WB Attributes ExtFlags sec ExtSize pSize st =
     (if has Attributes UEFI23_1_AUTHENTICATED_VARIABLE_ATTRIBUTES
      then w_brk WB (le_bytes 2 ExtSize) 0
             (w_goto pSize (w_brk WB (le_bytes 8 (Mc sec)) 0 (w_brk WB [ExtFlags] 1 st)))
      else st)"

text \<open>\<^verbatim>\<open>UpdateVariable\<close>.  \<open>Entry\<close> is the index entry of the variable, if the caller passed one, reduced
  to its \<^verbatim>\<open>FinalDataNvar\<close>.  \<open>None\<close> stands for a run that uses a record without data
  (\<^verbatim>\<open>NvGetData\<close> or \<^verbatim>\<open>NvGetDataNvar\<close> returning \<^verbatim>\<open>NULL\<close>), which the code does not test for.\<close>

definition UpdateVariable ::
    "writer \<Rightarrow> bool \<Rightarrow> nat \<Rightarrow> nat \<Rightarrow> u32 \<Rightarrow> u8 list \<Rightarrow> nat option option \<Rightarrow> EXT_SEC_FLAGS
       \<Rightarrow> NVRAM_STORE_INFO \<Rightarrow> memory
       \<Rightarrow> (efi_status \<times> nat option option \<times> NVRAM_STORE_INFO \<times> memory) option" where
  "UpdateVariable WB cks OldVar NameSize Attributes Data Entry sec info m =
     (if \<not> NvAttribEq m OldVar Attributes info then Some (EFI_INVALID_PARAMETER, Entry, info, m)
      else
        let OldNvar = (case Entry of Some (Some f) \<Rightarrow> f | _ \<Rightarrow> OldVar);
            append = has Attributes EFI_VARIABLE_APPEND_WRITE
        in do {
          (OldData, OldDataSize) \<leftarrow> NvGetData m OldNvar NameSize info;
          let (flags, ExtSize, ExtFlags) = update_flags cks Attributes;
          if \<not> append \<and> OldDataSize = length Data \<and> rd_bytes m OldData OldDataSize = Data
             \<and> (\<not> cks \<or> has (nvar_flags m OldVar) NVRAM_FLAG_EXT_HEDER)
          then Some (EFI_SUCCESS, Entry, info, m)
          else
            let sz = (sizeof_NVAR + (if append then OldDataSize else 0) + length Data + ExtSize) mod 2 ^ 64;
                pVar = pEndOfVars info
            in if \<not> IsEnoughSpace info sz then Some (EFI_OUT_OF_RESOURCES, Entry, info, m)
               else do {
                 let st1 = w_adv WB (nvar_header (sz mod 2 ^ 16) FLASH_EMPTY_NEXT flags) (True, pVar, m);
                 let st2 = (if append
                            then (case st1 of (ok, p, m1) \<Rightarrow> w_adv WB (rd_bytes m1 OldData OldDataSize) st1)
                            else st1);
                 let st3 = w_adv WB Data st2;
                 let p1 = fst (snd st3);
                 let st4 = write_update_ext WB Attributes ExtFlags sec ExtSize (pVar + sz - 2) st3;
                 let st5 = write_checksum_ext WB cks flags ExtFlags ExtSize p1 pVar st4;
                 let (ok6, p6, m6) = w_at WB pVar (le_bytes 4 NVAR_SIGNATURE) st5;
                 if \<not> ok6
                 then Some (EFI_DEVICE_ERROR, Entry, RecoverFromFlashUpdateFailure m6 info p6 sz OldVar, m6)
                 else do {
                   LastVar \<leftarrow> (case Entry of Some (Some f) \<Rightarrow> Some f | _ \<Rightarrow> NvGetDataNvar m6 OldVar info);
                   let (ok, p, m') = w_at WB (LastVar + 6) (le_bytes 3 (pVar - LastVar)) (ok6, p6, m6);
                   if ok
                   then Some (EFI_SUCCESS, map_option (\<lambda>_. Some pVar) Entry,
                              info\<lparr>pEndOfVars := pVar + sz, LastVarSize := sz mod 2 ^ 16\<rparr>, m')
                   else Some (EFI_DEVICE_ERROR, Entry, RecoverFromFlashUpdateFailure m' info p sz LastVar, m')
                 }
               }
        })"

definition DeleteVariable :: "writer \<Rightarrow> nat \<Rightarrow> memory \<Rightarrow> efi_status \<times> memory" where
  "DeleteVariable WB Var m =
     (let flag = nvar_flags m Var XOR NVRAM_FLAG_VALID;
          (ok, m') = WB (Var + 9) [flag] m
      in (if ok then EFI_SUCCESS else EFI_DEVICE_ERROR, m'))"

section \<open>Copying variables and garbage collection\<close>

definition CopyVariable ::
    "writer \<Rightarrow> bool \<Rightarrow> char16 list \<Rightarrow> u8 list \<Rightarrow> nat \<Rightarrow> NVRAM_STORE_INFO \<Rightarrow> NVRAM_STORE_INFO \<Rightarrow> memory
       \<Rightarrow> efi_status \<times> NVRAM_STORE_INFO \<times> memory" where
  "CopyVariable WB cks VariableName VendorGuid DataSize FromInfo ToInfo m =
     (let r = NvGetVariable m \<lparr>ga_VariableName = Some VariableName, ga_VendorGuid = Some VendorGuid,
                ga_Attributes = True, ga_DataSize = Some DataSize, ga_Data = True\<rparr> FromInfo
      in case (gr_Attributes r, gr_Data r, gr_Var r) of
           (Some Attributes, Some Data, Some nVar) \<Rightarrow>
             if EFI_ERROR (gr_Status r) then (gr_Status r, ToInfo, m)
             else CreateVariable WB cks VariableName VendorGuid Attributes Data (Some nVar)
                    (GetVarAuthExtFlags m (Some nVar) (Some FromInfo) no_ext_flags) ToInfo m
         | _ \<Rightarrow> (gr_Status r, ToInfo, m))"

text \<open>\<open>preserve\<close> is the build-time list \<^verbatim>\<open>gSdlVarLst\<close>.\<close>

definition VarNotInPreserveList ::
    "(char16 list \<times> u8 list) list \<Rightarrow> char16 list option \<Rightarrow> u8 list option \<Rightarrow> bool" where
  "VarNotInPreserveList preserve VarName Guid =
     (case (VarName, Guid) of
        (Some n, Some g) \<Rightarrow> \<not> list_ex (\<lambda>(en, eg). eg = g \<and> c_string en = c_string n) preserve
      | _ \<Rightarrow> True)"

definition RT_BS :: u32 where "RT_BS = EFI_VARIABLE_RUNTIME_ACCESS OR EFI_VARIABLE_BOOTSERVICE_ACCESS"
definition RT_BS_NV :: u32 where "RT_BS_NV = RT_BS OR EFI_VARIABLE_NON_VOLATILE"
definition RT_BS_NV_AT :: u32 where
  "RT_BS_NV_AT = RT_BS_NV OR EFI_VARIABLE_TIME_BASED_AUTHENTICATED_WRITE_ACCESS"

definition gStdEfiVarList :: "(char16 list \<times> u32) list" where
  "gStdEfiVarList = map (\<lambda>(n, a). (map of_char n, a))
    [(''LangCodes'', RT_BS), (''Lang'', RT_BS_NV), (''Timeout'', RT_BS_NV),
     (''PlatformLangCodes'', RT_BS), (''PlatformLang'', RT_BS_NV), (''ConIn'', RT_BS_NV),
     (''ConOut'', RT_BS_NV), (''ErrOut'', RT_BS_NV), (''ConInDev'', RT_BS), (''ConOutDev'', RT_BS),
     (''ErrOutDev'', RT_BS), (''BootOrder'', RT_BS_NV), (''BootNext'', RT_BS_NV),
     (''BootCurrent'', RT_BS), (''BootOptionSupport'', RT_BS), (''DriverOrder'', RT_BS_NV),
     (''HwErrRecSupport'', RT_BS_NV), (''SetupMode'', RT_BS), (''KEK'', RT_BS_NV_AT),
     (''PK'', RT_BS_NV_AT), (''SignatureSupport'', RT_BS), (''SecureBoot'', RT_BS),
     (''KEKDefault'', RT_BS), (''PKDefault'', RT_BS), (''dbDefault'', RT_BS), (''dbxDefault'', RT_BS),
     (''dbtDefault'', RT_BS), (''OsIndicationsSupported'', RT_BS), (''OsIndications'', RT_BS_NV),
     (''VendorKeys'', RT_BS)]"

definition gStdEfiVarListWildCard :: "(char16 list \<times> u32) list" where
  "gStdEfiVarListWildCard = map (\<lambda>(n, a). (map of_char n, a))
    [(''Boot****'', RT_BS_NV), (''Driver****'', RT_BS_NV), (''Key****'', RT_BS_NV)]"

definition is_hex_char :: "char16 \<Rightarrow> bool" where
  "is_hex_char c \<longleftrightarrow> (0x30 \<le> c \<and> c \<le> 0x39) \<or> (0x61 \<le> c \<and> c \<le> 0x66) \<or> (0x41 \<le> c \<and> c \<le> 0x46)"

definition VarNotInEfiGlobalVarList :: "char16 list \<Rightarrow> u32 \<Rightarrow> bool" where
  "VarNotInEfiGlobalVarList VariNameToTest Attributes =
     (let name = c_string VariNameToTest;
          CommonLength = uintn_sub (length name) 4
      in if list_ex (\<lambda>(n, a). n = name \<and> (a = Attributes \<or> Attributes = 0)) gStdEfiVarList then False
         else case List.find (\<lambda>(n, a). uintn_add CommonLength 4 = length n
                       \<and> take CommonLength n = take CommonLength name
                       \<and> (a = Attributes \<or> Attributes = 0)) gStdEfiVarListWildCard of
                Some _ \<Rightarrow> \<not> list_all is_hex_char (take 4 (drop CommonLength name))
              | None \<Rightarrow> True)"

definition StdDefaults :: "char16 list" where "StdDefaults = map of_char ''StdDefaults''"
definition MfgDefaults :: "char16 list" where "MfgDefaults = map of_char ''MfgDefaults''"

type_synonym copy_filter = "char16 list \<Rightarrow> u8 list \<Rightarrow> NVRAM_STORE_INFO \<Rightarrow> memory \<Rightarrow> bool"

definition SkipSpecificNvar :: "nat option \<Rightarrow> copy_filter" where
  "SkipSpecificNvar SkipVar VarName VarGuid info m =
     (case SkipVar of None \<Rightarrow> False | Some v \<Rightarrow> NvVarEq m v VarName VarGuid info \<noteq> None)"

definition SkipVarsWithDefaults :: "NVRAM_STORE_INFO option \<Rightarrow> copy_filter" where
  "SkipVarsWithDefaults DefInfo VarName VarGuid info m =
     (case DefInfo of
        None \<Rightarrow> False
      | Some d \<Rightarrow> c_string VarName = StdDefaults \<or> c_string VarName = MfgDefaults
                  \<or> NvFindVariable m VarName VarGuid d \<noteq> None)"

text \<open>The settings of a copy: the interface that writes the destination, the checksum support, the
  filter and the preserve list.  \<open>sv\<close> below is the global \<^verbatim>\<open>SaveOnlyPreservedVars\<close> while it runs.\<close>

record copy_env =
  ce_WB :: writer
  ce_cks :: bool
  ce_filter :: "copy_filter option"
  ce_preserve :: "(char16 list \<times> u8 list) list"

definition copy_skips :: "copy_env \<Rightarrow> bool \<Rightarrow> copy_filter" where
  "copy_skips ce sv name guid info m \<longleftrightarrow>
     (case ce_filter ce of Some f \<Rightarrow> f name guid info m | None \<Rightarrow> False)
     \<or> sv \<and> VarNotInPreserveList (ce_preserve ce) (Some name) (Some guid)"

partial_function (option) CopyVariables_loop ::
    "copy_env \<Rightarrow> bool \<Rightarrow> nat \<Rightarrow> char16 list \<Rightarrow> u8 list \<Rightarrow> NVRAM_STORE_INFO \<Rightarrow> NVRAM_STORE_INFO \<Rightarrow> memory
       \<Rightarrow> (efi_status \<times> NVRAM_STORE_INFO \<times> NVRAM_STORE_INFO \<times> memory) option" where
  "CopyVariables_loop ce sv sz TmpName Guid info NewInfo m =
     Option.bind (NvGetNextVariableName m \<lparr>na_VariableNameSize = Some sz,
         na_VariableName = Some TmpName, na_VendorGuid = Some Guid\<rparr> info False)
       (\<lambda>(Status, a, info').
          if EFI_ERROR Status
          then Some (if Status = EFI_NOT_FOUND then EFI_SUCCESS else Status, info', NewInfo, m)
          else
            let name = the (na_VariableName a); guid = the (na_VendorGuid a) in
            if copy_skips ce sv name guid info' m
            then CopyVariables_loop ce sv sz name guid info' NewInfo m
            else
              let r = CopyVariable (ce_WB ce) (ce_cks ce) name guid sz info' NewInfo m in
              if EFI_ERROR (fst r) \<and> fst r \<noteq> EFI_NOT_FOUND
              then Some (fst r, info', fst (snd r), snd (snd r))
              else CopyVariables_loop ce sv sz name guid info' (fst (snd r)) (snd (snd r)))"

declare CopyVariables_loop.simps [code]

text \<open>\<^verbatim>\<open>CopyVariables\<close>: the temporary buffer is taken from \<open>b\<close> and given back, and
  \<^verbatim>\<open>SaveOnlyPreservedVars\<close> reset, on every path on which the buffer could be allocated.\<close>

definition CopyVariables ::
    "copy_env \<Rightarrow> nat option \<Rightarrow> NVRAM_STORE_INFO \<Rightarrow> NVRAM_STORE_INFO \<Rightarrow> buffer_state \<Rightarrow> memory
       \<Rightarrow> (efi_status \<times> NVRAM_STORE_INFO \<times> NVRAM_STORE_INFO \<times> buffer_state \<times> memory) option" where
  "CopyVariables ce Malloc info NewInfo b m =
     (case SelectiveAllocate Malloc True (NvramSize info * 2) b of
        (None, b1) \<Rightarrow> Some (EFI_OUT_OF_RESOURCES, info, NewInfo, b1, m)
      | (Some TmpBuffer, b1) \<Rightarrow>
          map_option (\<lambda>(st, i, n, m').
              (st, i, n, (SelectiveFree TmpBuffer b1)\<lparr>SaveOnlyPreservedVars := False\<rparr>, m'))
            (CopyVariables_loop ce (SaveOnlyPreservedVars b) (NvramSize info) [] [] info NewInfo m))"

text \<open>\<^verbatim>\<open>CopyVarStore\<close>; \<open>EB\<close> is the \<^verbatim>\<open>EraseBytes\<close> routine of the destination interface.\<close>

definition CopyVarStore ::
    "copy_env \<Rightarrow> (nat \<Rightarrow> nat \<Rightarrow> buffer_state \<times> memory \<Rightarrow> bool \<times> buffer_state \<times> memory) \<Rightarrow> nat option \<Rightarrow> nat
       \<Rightarrow> NVRAM_STORE_INFO \<Rightarrow> NVRAM_STORE_INFO \<Rightarrow> buffer_state \<Rightarrow> memory
       \<Rightarrow> (efi_status \<times> NVRAM_STORE_INFO \<times> NVRAM_STORE_INFO \<times> buffer_state \<times> memory) option" where
  "CopyVarStore ce EB Malloc HeaderLength info NewInfo b m =
     (if Runtime b \<and> NvramDriverBuffer b = 0 then Some (EFI_OUT_OF_RESOURCES, info, NewInfo, b, m)
      else
        let (ok1, b1, m1) = EB (NvramAddress NewInfo) (NvramSize NewInfo) (b, m);
            New1 = NewInfo\<lparr>pFirstVar := NvramAddress NewInfo + HeaderLength,
                           pEndOfVars := NvramAddress NewInfo + HeaderLength,
                           LastVarSize := 0, pLastReturned := None, NextGuid := 0\<rparr>
        in if \<not> ok1 then Some (EFI_DEVICE_ERROR, info, New1, b1, m1)
           else
             let (ok2, m2) = ce_WB ce (NvramAddress NewInfo) (rd_bytes m1 (NvramAddress info) HeaderLength) m1
             in if \<not> ok2 then Some (EFI_DEVICE_ERROR, info, New1, b1, m2)
                else CopyVariables ce Malloc info New1 b1 m2)"

text \<open>\<^verbatim>\<open>InitVolatileStore\<close>; \<open>Pool\<close> is the result of the pool allocation.\<close>

definition InitVolatileStore ::
    "nat option \<Rightarrow> NVRAM_STORE_INFO \<Rightarrow> nat \<Rightarrow> nat \<Rightarrow> u8 \<Rightarrow> buffer_state \<Rightarrow> memory
       \<Rightarrow> efi_status \<times> NVRAM_STORE_INFO \<times> buffer_state \<times> memory" where
  "InitVolatileStore Pool info sz HeaderLength flags b m =
     (let (addr, b1) = (if NvramDriverBuffer b \<noteq> 0 \<and> has flags NVRAM_STORE_FLAG_NON_VALATILE
                        then SelectiveAllocate Pool False sz b else (Pool, b))
      in case addr of
           None \<Rightarrow> (EFI_OUT_OF_RESOURCES, info, b1, m)
         | Some a \<Rightarrow>
             let m1 = wr_bytes m a (replicate sz FLASH_EMPTY_BYTE)
             in (EFI_SUCCESS,
                 NvInitInfoBuffer m1 (info\<lparr>NvramAddress := a, NvramSize := sz\<rparr>) HeaderLength flags, b1, m1))"

section \<open>Discovery of the records of a store\<close>

definition IsStoreOk :: "memory \<Rightarrow> NVRAM_STORE_INFO \<Rightarrow> bool" where
  "IsStoreOk m info \<longleftrightarrow>
     (LastVarSize info = 0 \<or> NvIsVariable m (pEndOfVars info - LastVarSize info) info)
     \<and> ReadUnaligned32 m (pEndOfVars info) = FLASH_EMPTY_SIGNATURE
     \<and> nvar_size m (pEndOfVars info) = FLASH_EMPTY_SIZE
     \<and> rd 4 m (NvramGuidsAddress info - sizeof_GUID * NextGuid info) = FLASH_EMPTY_SIGNATURE"

lemma NvGetNextNvar_measure:
  "next_measure info (NvGetNextNvar m (Some p) info) < next_measure info (Some p)"
  using NvGetNextNvar_Some [of m p info]
  by (cases "NvGetNextNvar m (Some p) info") (auto simp: next_measure_def diff_less_mono2)

text \<open>The loop of \<^verbatim>\<open>EnumerateStore\<close>: the last record and the largest GUID index in use.\<close>

function EnumerateStore_loop :: "memory \<Rightarrow> NVRAM_STORE_INFO \<Rightarrow> nat option \<Rightarrow> nat \<Rightarrow> nat \<Rightarrow> nat \<times> nat" where
  "EnumerateStore_loop m info Var LastVar NextG =
     (case Var of
        None \<Rightarrow> (LastVar, NextG)
      | Some v \<Rightarrow>
          let guid = unat (m (v + sizeof_NVAR));
              NextG' = (if nvar_flags m v AND (NVRAM_FLAG_DATA_ONLY OR NVRAM_FLAG_GUID) = 0 \<and> guid > NextG
                        then guid else NextG)
          in EnumerateStore_loop m info (NvGetNextNvar m (Some v) info) v NextG')"
  by pat_completeness auto
termination
  by (relation "measure (\<lambda>(m, info, p, l, g). next_measure info p)") (auto simp: NvGetNextNvar_measure)

declare EnumerateStore_loop.simps [simp del]

definition EnumerateStore :: "memory \<Rightarrow> NVRAM_STORE_INFO \<Rightarrow> NVRAM_STORE_INFO" where
  "EnumerateStore m info =
     (if \<not> NvIsVariable m (pFirstVar info) info then info
      else
        let (LastVar, g) = EnumerateStore_loop m info (Some (pFirstVar info)) (pFirstVar info) 0;
            NextG = Suc g;
            e = LastVar + nvar_size m LastVar;
            info1 = info\<lparr>LastVarSize := nvar_size m LastVar, pEndOfVars := e, NextGuid := NextG\<rparr>
        in if nvar_size m e \<noteq> FLASH_EMPTY_SIZE
              \<and> int (nvar_size m e) \<le> int (NvramGuidsAddress info - sizeof_GUID * NextG) - int e
           then info1\<lparr>LastVarSize := (LastVarSize info1 + nvar_size m e) mod 2 ^ 16,
                      pEndOfVars := e + nvar_size m e\<rparr>
           else info1)"

definition NVRAM_MODE_MANUFACTORING :: u32 where [nv_consts]: "NVRAM_MODE_MANUFACTORING = 1"
definition NVRAM_MODE_DEFAULT_CONFIGURATION :: u32 where
  [nv_consts]: "NVRAM_MODE_DEFAULT_CONFIGURATION = 4"

text \<open>One step of the discovery: a store added at the end of the array.\<close>

definition add_store :: "NVRAM_STORE_INFO \<Rightarrow> VARSTORE_INFO \<Rightarrow> VARSTORE_INFO" where
  "add_store info vs =
     vs\<lparr>NvramInfo := (NvramInfo vs)[InfoCount vs := info], InfoCount := Suc (InfoCount vs)\<rparr>"

definition add_defaults :: "memory \<Rightarrow> char16 list \<Rightarrow> NVRAM_STORE_INFO \<Rightarrow> VARSTORE_INFO \<Rightarrow> VARSTORE_INFO" where
  "add_defaults m name info vs =
     (case NvGetDefaultsInfo m name info (NvramInfo vs ! InfoCount vs) of
        Some d \<Rightarrow> add_store d vs | None \<Rightarrow> vs)"

definition VarStoreDiscovery ::
    "memory \<Rightarrow> NVRAM_STORE_INFO \<Rightarrow> NVRAM_STORE_INFO \<Rightarrow> VARSTORE_INFO \<Rightarrow> VARSTORE_INFO" where
  "VarStoreDiscovery m nv mem vs0 =
     (let vs1 = vs0\<lparr>InfoCount := 0, LastInfoIndex := 0\<rparr>;
          mfg = has (NvramMode vs0) NVRAM_MODE_MANUFACTORING;
          hide = (\<lambda>i. i\<lparr>Flags := Flags i OR NVRAM_STORE_FLAG_DO_NOT_ENUMERATE\<rparr>);
          vs2 = (if mfg then add_defaults m MfgDefaults nv vs1 else vs1);
          vs3 = (if \<not> has (NvramMode vs0) NVRAM_MODE_DEFAULT_CONFIGURATION
                 then add_defaults m StdDefaults nv
                        (add_store (if mfg then hide nv else nv) (vs2\<lparr>NvInfo := Some (InfoCount vs2)\<rparr>))
                 else (let v = add_defaults m StdDefaults nv vs2
                       in add_store (hide nv) (v\<lparr>NvInfo := Some (InfoCount v)\<rparr>)));
          vs4 = add_store mem (vs3\<lparr>MemInfo := Some (InfoCount vs3)\<rparr>)
      in case NvInfo vs4 of
           Some i \<Rightarrow> vs4\<lparr>NvramInfo := (NvramInfo vs4)[i := EnumerateStore m (NvramInfo vs4 ! i)]\<rparr>
         | None \<Rightarrow> vs4)"

end
