(* ===== verification/NvramStore.thy ===== *)
theory NvramStore
  imports NvramWrite
begin

text \<open>
  The invariant of a variable store and what the writing routines do to it.

  A store is well formed when its records follow one another from \<open>pFirstVar\<close> to \<open>pEndOfVars\<close>, every
  one of them either a plausible record or one that is skipped by its size, names and GUID indices
  lie inside their record and the GUID area, \<open>next\<close> links lead to data-only records of the store, and
  the space between the records and the GUID area is erased.
\<close>

section \<open>The invariant\<close>

text \<open>The size of the extended header of a record.\<close>

definition ext_size :: "memory \<Rightarrow> nat \<Rightarrow> nat" where
  "ext_size m p = (if has (nvar_flags m p) NVRAM_FLAG_EXT_HEDER then ReadUnaligned16 m (NvGetExtSize m p) else 0)"

definition ext_ok :: "memory \<Rightarrow> nat \<Rightarrow> bool" where
  "ext_ok m p \<longleftrightarrow> (has (nvar_flags m p) NVRAM_FLAG_EXT_HEDER \<longrightarrow> 2 \<le> ext_size m p)
     \<and> (has (nvar_flags m p) NVRAM_FLAG_AUTH_WRITE \<longrightarrow> has (nvar_flags m p) NVRAM_FLAG_EXT_HEDER)
     \<and> ext_size m p + 10 \<le> nvar_size m p"

definition rec_ok :: "memory \<Rightarrow> NVRAM_STORE_INFO \<Rightarrow> nat \<Rightarrow> bool" where
  "rec_ok m info p \<longleftrightarrow>
     (if nvar_signature m p = NVAR_SIGNATURE then NvIsVariable m p info \<and> ext_ok m p
      else nvar_size_ok m p info)"

function chain :: "memory \<Rightarrow> NVRAM_STORE_INFO \<Rightarrow> nat \<Rightarrow> bool" where
  "chain m info p =
     (if p = pEndOfVars info then True
      else if p < pEndOfVars info \<and> rec_ok m info p then chain m info (p + nvar_size m p)
      else False)"
  by pat_completeness auto
termination
proof (relation "measure (\<lambda>(m, info, p). pEndOfVars info - p)", simp)
  fix m info p
  assume "p \<noteq> pEndOfVars info" "p < pEndOfVars info \<and> rec_ok m info p"
  then show "((m, info, p + nvar_size m p), m, info, p) \<in> measure (\<lambda>(m, info, p). pEndOfVars info - p)"
    using nvar_size_okD(1) [of m p info] NvIsVariable_size_ok [of m p info]
    by (auto simp: rec_ok_def split: if_splits)
qed

declare chain.simps [simp del]

text \<open>A zero-terminated name that ends before \<open>e\<close>.\<close>

function name_fits :: "nat \<Rightarrow> memory \<Rightarrow> nat \<Rightarrow> nat \<Rightarrow> bool" where
  "name_fits w m a e =
     (if 0 < w \<and> a + w \<le> e then if name_char w m a = 0 then True else name_fits w m (a + w) e
      else False)"
  by pat_completeness auto
termination
  by (relation "measure (\<lambda>(w, m, a, e). e - a)") auto

declare name_fits.simps [simp del]

definition var_ok :: "memory \<Rightarrow> NVRAM_STORE_INFO \<Rightarrow> nat \<Rightarrow> bool" where
  "var_ok m info p \<longleftrightarrow>
     has (nvar_flags m p) NVRAM_FLAG_DATA_ONLY
     \<or> name_fits (name_width m p) m (NvGetName m p) (p + nvar_size m p - ext_size m p)
       \<and> (has (nvar_flags m p) NVRAM_FLAG_GUID \<or> unat (m (p + sizeof_NVAR)) < NextGuid info)"

definition link_ok :: "memory \<Rightarrow> NVRAM_STORE_INFO \<Rightarrow> nat \<Rightarrow> bool" where
  "link_ok m info p \<longleftrightarrow>
     nvar_next m p = FLASH_EMPTY_NEXT
     \<or> p + nvar_next m p \<in> set (nvars m info) \<and> has (nvar_flags m (p + nvar_next m p)) NVRAM_FLAG_DATA_ONLY"

text \<open>The first address of the GUIDs in use.\<close>

definition guid_area :: "NVRAM_STORE_INFO \<Rightarrow> nat" where
  "guid_area info = NvramAddress info + NvramSize info - 16 * NextGuid info"

definition layout_ok :: "NVRAM_STORE_INFO \<Rightarrow> bool" where
  "layout_ok info \<longleftrightarrow>
     0x2000 \<le> NvramAddress info
     \<and> NvramAddress info \<le> pFirstVar info \<and> pFirstVar info \<le> pEndOfVars info
     \<and> NvramAddress info + NvramSize info < 2 ^ 63 \<and> NvramSize info < 2 ^ 24
     \<and> NvramGuidsAddress info + 16 = NvramAddress info + NvramSize info
     \<and> NextGuid info \<le> 256 \<and> pEndOfVars info + 16 * NextGuid info \<le> NvramAddress info + NvramSize info"

text \<open>No two records link to the same record.\<close>

definition links_inj :: "memory \<Rightarrow> NVRAM_STORE_INFO \<Rightarrow> bool" where
  "links_inj m info \<longleftrightarrow>
     inj_on (\<lambda>p. p + nvar_next m p) {p \<in> set (nvars m info). nvar_next m p \<noteq> FLASH_EMPTY_NEXT}"

definition store_ok :: "memory \<Rightarrow> NVRAM_STORE_INFO \<Rightarrow> bool" where
  "store_ok m info \<longleftrightarrow>
     layout_ok info \<and> erased m (pEndOfVars info) (guid_area info)
     \<and> chain m info (pFirstVar info)
     \<and> (pFirstVar info = pEndOfVars info \<or> NvIsVariable m (pFirstVar info) info)
     \<and> (\<forall>p\<in>set (nvars m info). var_ok m info p \<and> link_ok m info p) \<and> links_inj m info"

section \<open>Records do not depend on the rest of memory\<close>

lemma rec_ok_size: "rec_ok m info p \<Longrightarrow> nvar_size_ok m p info"
  by (auto simp: rec_ok_def NvIsVariable_size_ok split: if_splits)

lemma chain_step:
  "p < pEndOfVars info \<Longrightarrow> chain m info p \<longleftrightarrow> rec_ok m info p \<and> chain m info (p + nvar_size m p)"
  by (simp add: chain.simps [of m info p])

lemma chain_end [simp]: "chain m info (pEndOfVars info)"
  by (simp add: chain.simps)

lemma chain_le: "chain m info p \<Longrightarrow> p \<le> pEndOfVars info"
  by (simp add: chain.simps [of m info p] split: if_splits)

text \<open>Header fields, the extended header and the checksum of a record only depend on its bytes.\<close>

lemma header_cong:
  assumes "same_on p (p + 10) m m'"
  shows "nvar_signature m' p = nvar_signature m p" "nvar_size m' p = nvar_size m p"
    "nvar_next m' p = nvar_next m p" "nvar_flags m' p = nvar_flags m p"
  using rd_cong [OF assms, of p 4] rd_cong [OF assms, of "p + 4" 2] rd_cong [OF assms, of "p + 6" 3]
    same_onD [OF assms, of "p + 9"]
  by (simp_all add: nvar_signature_def nvar_size_def nvar_next_def nvar_flags_def)

lemma ext_cong:
  assumes "same_on p (p + nvar_size m p) m m'" and "10 < nvar_size m p"
  shows "ext_size m' p = ext_size m p" "ext_ok m' p = ext_ok m p" "name_width m' p = name_width m p"
    "NvGetName m' p = NvGetName m p"
proof -
  have h: "same_on p (p + 10) m m'" using same_on_sub [OF assms(1)] assms(2) by simp
  note hc = header_cong [OF h]
  have "rd 2 m' (p + nvar_size m p - 2) = rd 2 m (p + nvar_size m p - 2)"
    using rd_cong [OF assms(1), of "p + nvar_size m p - 2" 2] assms(2) by simp
  with hc show e: "ext_size m' p = ext_size m p" by (simp add: ext_size_def NvGetExtSize_def)
  with hc show "ext_ok m' p = ext_ok m p" by (simp add: ext_ok_def)
  from hc show "name_width m' p = name_width m p" "NvGetName m' p = NvGetName m p"
    by (simp_all add: name_width_def NvGetName_def)
qed

text \<open>Two memories with the same record at \<open>p\<close>, up to the link and the validity flag.\<close>

definition body_same :: "memory \<Rightarrow> memory \<Rightarrow> nat \<Rightarrow> bool" where
  "body_same m m' p \<longleftrightarrow>
     same_on p (p + 6) m m' \<and> same_on (p + 10) (p + nvar_size m p) m m'
     \<and> (\<forall>F. F AND NVRAM_FLAG_VALID = 0 \<longrightarrow> has (nvar_flags m' p) F = has (nvar_flags m p) F)"

lemma body_sameI: "same_on p (p + nvar_size m p) m m' \<Longrightarrow> 10 < nvar_size m p \<Longrightarrow> body_same m m' p"
  using same_on_sub [of p "p + nvar_size m p" m m'] same_onD [of p "p + nvar_size m p" m m' "p + 9"]
  by (simp add: body_same_def nvar_flags_def)

lemma body_sameD:
  assumes "body_same m m' p"
  shows "nvar_signature m' p = nvar_signature m p" "nvar_size m' p = nvar_size m p"
    "has (nvar_flags m' p) NVRAM_FLAG_EXT_HEDER = has (nvar_flags m p) NVRAM_FLAG_EXT_HEDER"
    "has (nvar_flags m' p) NVRAM_FLAG_AUTH_WRITE = has (nvar_flags m p) NVRAM_FLAG_AUTH_WRITE"
    "has (nvar_flags m' p) NVRAM_FLAG_ASCII_NAME = has (nvar_flags m p) NVRAM_FLAG_ASCII_NAME"
    "has (nvar_flags m' p) NVRAM_FLAG_GUID = has (nvar_flags m p) NVRAM_FLAG_GUID"
    "has (nvar_flags m' p) NVRAM_FLAG_DATA_ONLY = has (nvar_flags m p) NVRAM_FLAG_DATA_ONLY"
    "has (nvar_flags m' p) NVRAM_FLAG_RUNTIME = has (nvar_flags m p) NVRAM_FLAG_RUNTIME"
    "has (nvar_flags m' p) NVRAM_FLAG_HARDWARE_ERROR_RECORD = has (nvar_flags m p) NVRAM_FLAG_HARDWARE_ERROR_RECORD"
proof -
  from assms have s: "same_on p (p + 6) m m'"
    and f: "F AND NVRAM_FLAG_VALID = 0 \<Longrightarrow> has (nvar_flags m' p) F = has (nvar_flags m p) F" for F
    by (auto simp: body_same_def)
  show "nvar_signature m' p = nvar_signature m p" "nvar_size m' p = nvar_size m p"
    using rd_cong [OF s, of p 4] rd_cong [OF s, of "p + 4" 2]
    by (simp_all add: nvar_signature_def nvar_size_def)
  show "has (nvar_flags m' p) NVRAM_FLAG_EXT_HEDER = has (nvar_flags m p) NVRAM_FLAG_EXT_HEDER"
    "has (nvar_flags m' p) NVRAM_FLAG_AUTH_WRITE = has (nvar_flags m p) NVRAM_FLAG_AUTH_WRITE"
    "has (nvar_flags m' p) NVRAM_FLAG_ASCII_NAME = has (nvar_flags m p) NVRAM_FLAG_ASCII_NAME"
    "has (nvar_flags m' p) NVRAM_FLAG_GUID = has (nvar_flags m p) NVRAM_FLAG_GUID"
    "has (nvar_flags m' p) NVRAM_FLAG_DATA_ONLY = has (nvar_flags m p) NVRAM_FLAG_DATA_ONLY"
    "has (nvar_flags m' p) NVRAM_FLAG_RUNTIME = has (nvar_flags m p) NVRAM_FLAG_RUNTIME"
    "has (nvar_flags m' p) NVRAM_FLAG_HARDWARE_ERROR_RECORD = has (nvar_flags m p) NVRAM_FLAG_HARDWARE_ERROR_RECORD"
    by (rule f, simp add: nv_consts)+
qed

text \<open>Reading two bytes at the end of a record.\<close>

lemma body_same_end:
  assumes "body_same m m' p" and "12 \<le> nvar_size m p"
  shows "rd 2 m' (p + nvar_size m p - 2) = rd 2 m (p + nvar_size m p - 2)"
proof -
  have "same_on (p + 10) (p + nvar_size m p) m m'" using assms(1) by (simp add: body_same_def)
  from rd_cong [OF this, of "p + nvar_size m p - 2" 2] assms(2) show ?thesis by simp
qed

lemma body_ext:
  assumes "body_same m m' p" and "ext_ok m p"
  shows "ext_size m' p = ext_size m p" "ext_ok m' p" "name_width m' p = name_width m p"
    "NvGetName m' p = NvGetName m p"
proof -
  note hc = body_sameD [OF assms(1)]
  show e: "ext_size m' p = ext_size m p"
  proof (cases "has (nvar_flags m p) NVRAM_FLAG_EXT_HEDER")
    case True
    with assms(2) have "12 \<le> nvar_size m p" by (simp add: ext_ok_def)
    from body_same_end [OF assms(1) this] hc show ?thesis by (simp add: ext_size_def NvGetExtSize_def)
  next
    case False
    with hc show ?thesis by (simp add: ext_size_def)
  qed
  with hc assms(2) show "ext_ok m' p" by (simp add: ext_ok_def)
  from hc show "name_width m' p = name_width m p" "NvGetName m' p = NvGetName m p"
    by (simp_all add: name_width_def NvGetName_def)
qed

lemma body_ext_flags:
  assumes "body_same m m' p" and "ext_ok m p" and "has (nvar_flags m p) NVRAM_FLAG_EXT_HEDER"
  shows "NvGetExtFlags m' p = NvGetExtFlags m p" "m' (NvGetExtFlags m p) = m (NvGetExtFlags m p)"
    "p + 10 \<le> NvGetExtFlags m p" "NvGetExtFlags m p < p + nvar_size m p"
proof -
  note hc = body_sameD [OF assms(1)]
  let ?e = "rd 2 m (NvGetExtSize m p)"
  from assms(2,3) have e: "2 \<le> ?e" "?e + 10 \<le> nvar_size m p"
    by (auto simp: ext_ok_def ext_size_def)
  have x: "NvGetExtSize m' p = NvGetExtSize m p" using hc by (simp add: NvGetExtSize_def)
  have "rd 2 m' (NvGetExtSize m p) = ?e"
    using body_same_end [OF assms(1)] e by (simp add: NvGetExtSize_def)
  with x show f: "NvGetExtFlags m' p = NvGetExtFlags m p" by (simp add: NvGetExtFlags_def)
  from e show r: "p + 10 \<le> NvGetExtFlags m p" "NvGetExtFlags m p < p + nvar_size m p"
    by (simp_all add: NvGetExtFlags_def NvGetExtSize_def)
  from assms(1) have "same_on (p + 10) (p + nvar_size m p) m m'" by (simp add: body_same_def)
  from same_onD [OF this r] show "m' (NvGetExtFlags m p) = m (NvGetExtFlags m p)" by simp
qed

lemma body_attributes:
  assumes "body_same m m' p" and "ext_ok m p" and "Flags info' = Flags info"
  shows "nvar_attributes m' p info' = nvar_attributes m p info"
proof -
  have "m' (NvGetExtFlags m' p) = m (NvGetExtFlags m p)" if "has (nvar_flags m p) NVRAM_FLAG_AUTH_WRITE"
    using body_ext_flags [OF assms(1,2)] assms(2) that by (simp add: ext_ok_def)
  with body_sameD [OF assms(1)] assms(3) show ?thesis by (simp add: nvar_attributes_def)
qed

lemma checksum_cong:
  assumes "body_same m m' p" and "ext_ok m p" and "10 < nvar_size m p" and "nvar_flags m' p = nvar_flags m p"
  shows "NvCalculateNvarChecksum m' p = NvCalculateNvarChecksum m p"
proof (cases "has (nvar_flags m p) NVRAM_FLAG_EXT_HEDER")
  case True
  note ec = body_ext_flags [OF assms(1,2) True]
  have "same_on p (p + 6) m m'" "same_on (p + 10) (p + nvar_size m p) m m'"
    using assms(1) by (auto simp: body_same_def)
  from rd_bytes_cong [OF this(1), of "p + 4" 2] rd_bytes_cong [OF this(2), of "p + 10" "nvar_size m p - 10"]
  have "rd_bytes m' (p + 10) (nvar_size m p - 10) = rd_bytes m (p + 10) (nvar_size m p - 10)"
    "rd_bytes m' (p + 4) 2 = rd_bytes m (p + 4) 2" using assms(3) by simp_all
  with body_sameD [OF assms(1)] assms(4) ec True show ?thesis
    by (simp add: NvCalculateNvarChecksum_def sizeof_NVAR_def)
next
  case False
  with assms(4) show ?thesis by (simp add: NvCalculateNvarChecksum_def)
qed

lemma NvIsVariable_body:
  assumes v: "NvIsVariable m p info" and x: "ext_ok m p" and b: "body_same m m' p"
    and f: "nvar_flags m' p = nvar_flags m p" and e: "pEndOfVars info \<le> pEndOfVars info'"
    and n: "nvar_next m' p = FLASH_EMPTY_NEXT
      \<or> nvar_next m' p \<ge> nvar_size m p \<and> nvar_next m' p \<le> (pEndOfVars info' - p) mod 2 ^ 32"
  shows "NvIsVariable m' p info'"
proof -
  note so = nvar_size_okD [OF NvIsVariable_size_ok [OF v]]
  note hc = body_sameD [OF b]
  have cs: "NvCalculateNvarChecksum m' p = NvCalculateNvarChecksum m p"
    by (rule checksum_cong [OF b x so(1) f])
  have xf: "has (nvar_flags m p) NVRAM_FLAG_EXT_HEDER \<longrightarrow> m' (NvGetExtFlags m' p) = m (NvGetExtFlags m p)"
    using body_ext_flags [OF b x] by simp
  have "nvar_size_ok m' p info'"
    using NvIsVariable_size_ok [OF v] hc e by (simp add: nvar_size_ok_def)
  with v n cs xf hc f show ?thesis unfolding NvIsVariable_def by auto
qed

text \<open>A plausible record stays one when the store grows behind it.\<close>

lemma NvIsVariable_grow:
  assumes v: "NvIsVariable m p info" and x: "ext_ok m p"
    and s: "same_on p (p + nvar_size m p) m m'"
    and e: "pEndOfVars info \<le> pEndOfVars info'" "pEndOfVars info' - p < 2 ^ 32"
  shows "NvIsVariable m' p info'"
proof -
  note so = nvar_size_okD [OF NvIsVariable_size_ok [OF v]]
  have h: "same_on p (p + 10) m m'" using same_on_sub [OF s] so(1) by simp
  note hc = header_cong [OF h]
  have "nvar_next m p = FLASH_EMPTY_NEXT
      \<or> nvar_next m p \<ge> nvar_size m p \<and> nvar_next m p \<le> (pEndOfVars info' - p) mod 2 ^ 32"
    using NvIsVariable_next [OF v] e by (cases "nvar_next m p = FLASH_EMPTY_NEXT") auto
  then show ?thesis
    using NvIsVariable_body [OF v x body_sameI [OF s so(1)] hc(4) e(1)] hc(3) by simp
qed

section \<open>Growing a store\<close>

lemma nvars_from_end [simp]: "pEndOfVars info \<le> p \<Longrightarrow> nvars_from m info p = []"
  by (simp add: nvars_from.simps [of m info p])

lemma nvars_from_chain:
  assumes "p < pEndOfVars info" and "rec_ok m info p"
  shows "nvars_from m info p =
    (if NvIsVariable m p info then [p] else []) @ nvars_from m info (p + nvar_size m p)"
proof (cases "NvIsVariable m p info")
  case True
  then show ?thesis by (simp add: nvars_from_variable)
next
  case False
  with assms have "NvGetNextNvar_loop m info p = NvGetNextNvar_loop m info (p + nvar_size m p)"
    by (simp add: NvGetNextNvar_loop.simps [of m info p] rec_ok_size)
  with False show ?thesis
    by (simp add: nvars_from.simps [of m info p] nvars_from.simps [of m info "p + nvar_size m p"])
qed

lemma rec_ok_grow:
  assumes "rec_ok m info p" and "same_on p (p + nvar_size m p) m m'"
    and "pEndOfVars info \<le> pEndOfVars info'" "pEndOfVars info' - p < 2 ^ 32"
  shows "rec_ok m' info' p" "NvIsVariable m' p info' \<longleftrightarrow> NvIsVariable m p info"
    "nvar_size m' p = nvar_size m p"
proof -
  note so = nvar_size_okD [OF rec_ok_size [OF assms(1)]]
  have h: "same_on p (p + 10) m m'" using same_on_sub [OF assms(2)] so(1) by simp
  note hc = header_cong [OF h]
  show "nvar_size m' p = nvar_size m p" by (rule hc)
  have "rec_ok m' info' p \<and> (NvIsVariable m' p info' \<longleftrightarrow> NvIsVariable m p info)"
  proof (cases "nvar_signature m p = NVAR_SIGNATURE")
    case True
    with assms(1) have v: "NvIsVariable m p info" "ext_ok m p" by (auto simp: rec_ok_def)
    from NvIsVariable_grow [OF v assms(2,3,4)] ext_cong(2) [OF assms(2) so(1)] v True hc
    show ?thesis by (simp add: rec_ok_def)
  next
    case False
    have "nvar_size_ok m' p info'"
      using rec_ok_size [OF assms(1)] hc assms(3) by (simp add: nvar_size_ok_def)
    with False hc show ?thesis by (simp add: rec_ok_def NvIsVariable_def)
  qed
  then show "rec_ok m' info' p" "NvIsVariable m' p info' \<longleftrightarrow> NvIsVariable m p info" by auto
qed

lemma chain_grow:
  "chain m info p \<Longrightarrow> same_on p (pEndOfVars info) m m' \<Longrightarrow> pEndOfVars info \<le> pEndOfVars info' \<Longrightarrow>
   pEndOfVars info' - p < 2 ^ 32 \<Longrightarrow>
   nvars_from m' info' p = nvars_from m info p @ nvars_from m' info' (pEndOfVars info)
   \<and> (chain m' info' (pEndOfVars info) \<longrightarrow> chain m' info' p)"
proof (induction m info p rule: chain.induct)
  case (1 m info p)
  show ?case
  proof (cases "p = pEndOfVars info")
    case True
    then show ?thesis by simp
  next
    case False
    with "1.prems"(1) have p: "p < pEndOfVars info" "rec_ok m info p"
      and c: "chain m info (p + nvar_size m p)"
      by (simp_all add: chain.simps [of m info p] split: if_splits)
    let ?q = "p + nvar_size m p"
    have q: "?q \<le> pEndOfVars info" using chain_le [OF c] .
    note g = rec_ok_grow [OF p(2) same_on_sub [OF "1.prems"(2) order_refl q] "1.prems"(3,4)]
    have s: "same_on ?q (pEndOfVars info) m m'" using same_on_sub [OF "1.prems"(2)] by simp
    have l: "pEndOfVars info' - ?q < 2 ^ 32" using "1.prems"(4) by simp
    note ih = "1.IH" [OF False conjI [OF p] c s "1.prems"(3) l]
    have p': "p < pEndOfVars info'" using p(1) "1.prems"(3) by simp
    show ?thesis
      using ih nvars_from_chain [OF p] nvars_from_chain [OF p' g(1)] g chain_step [OF p', of m']
      by simp
  qed
qed

text \<open>The store described by \<open>info'\<close> in \<open>m'\<close> extends the one described by \<open>info\<close> in \<open>m\<close>: the records
  and the GUIDs in use are the same bytes.\<close>

definition store_grows :: "memory \<Rightarrow> NVRAM_STORE_INFO \<Rightarrow> memory \<Rightarrow> NVRAM_STORE_INFO \<Rightarrow> bool" where
  "store_grows m info m' info' \<longleftrightarrow>
     NvramAddress info' = NvramAddress info \<and> NvramSize info' = NvramSize info
     \<and> NvramGuidsAddress info' = NvramGuidsAddress info \<and> pFirstVar info' = pFirstVar info
     \<and> Flags info' = Flags info \<and> pEndOfVars info \<le> pEndOfVars info' \<and> NextGuid info \<le> NextGuid info'
     \<and> same_on (pFirstVar info) (pEndOfVars info) m m'
     \<and> same_on (guid_area info) (NvramAddress info + NvramSize info) m m'"

lemma layout_end: "layout_ok info \<Longrightarrow> pEndOfVars info - pFirstVar info < 2 ^ 32"
  by (auto simp: layout_ok_def)

lemma name_fits_le: "name_fits w m a e \<Longrightarrow> 0 < w" "name_fits w m a e \<Longrightarrow> a + w \<le> e"
  by (simp_all add: name_fits.simps [of w m a e] split: if_splits)

lemma name_fits_cong:
  "name_fits w m a e \<Longrightarrow> same_on a e m m' \<Longrightarrow>
   name_fits w m' a e \<and> NvVarEq_name w m' a s = NvVarEq_name w m a s"
proof (induction w m a e arbitrary: s rule: name_fits.induct)
  case (1 w m a e)
  note w = name_fits_le [OF "1.prems"(1)]
  have c: "name_char w m' a = name_char w m a"
    using rd_cong [OF "1.prems"(2) order_refl w(2)] by (simp add: name_char_def)
  show ?case
  proof (cases "name_char w m a = 0")
    case True
    with w c show ?thesis by (cases s) (simp_all add: name_fits.simps [of w m' a])
  next
    case False
    with "1.prems"(1) w have f: "name_fits w m (a + w) e" by (simp add: name_fits.simps [of w m a])
    have "same_on (a + w) e m m'" using same_on_sub [OF "1.prems"(2)] by simp
    note ih = "1.IH" [OF conjI [OF w] False f this]
    show ?thesis
      using ih [of "tl s"] ih [of "[]"] w c False by (cases s) (simp_all add: name_fits.simps [of w m' a])
  qed
qed

lemma chain_ext_ok: "chain m info p \<Longrightarrow> q \<in> set (nvars_from m info p) \<Longrightarrow> ext_ok m q"
proof (induction m info p rule: chain.induct)
  case (1 m info p)
  show ?case
  proof (cases "p = pEndOfVars info")
    case True
    with "1.prems" show ?thesis by simp
  next
    case False
    with "1.prems"(1) have p: "p < pEndOfVars info" "rec_ok m info p"
      and c: "chain m info (p + nvar_size m p)"
      by (simp_all add: chain.simps [of m info p] split: if_splits)
    from "1.prems"(2) nvars_from_chain [OF p] "1.IH" [OF False conjI [OF p] c] p(2)
    show ?thesis by (auto simp: rec_ok_def NvIsVariable_def split: if_splits)
  qed
qed

lemma store_okD:
  assumes "store_ok m info" and "p \<in> set (nvars m info)"
  shows "NvIsVariable m p info" "pFirstVar info \<le> p" "10 < nvar_size m p" "p + nvar_size m p \<le> pEndOfVars info"
    "ext_ok m p" "var_ok m info p" "link_ok m info p"
proof -
  show v: "NvIsVariable m p info" and "pFirstVar info \<le> p" using nvars_range [OF assms(2)] by auto
  from nvar_size_okD [OF NvIsVariable_size_ok [OF v]]
  show "10 < nvar_size m p" "p + nvar_size m p \<le> pEndOfVars info" by auto
  have "p \<in> set (nvars_from m info (pFirstVar info))" "chain m info (pFirstVar info)"
    using assms by (auto simp: nvars_def store_ok_def split: if_splits)
  then show "ext_ok m p" using chain_ext_ok by blast
  show "var_ok m info p" "link_ok m info p" using assms by (auto simp: store_ok_def)
qed

lemma store_nvars: "store_ok m info \<Longrightarrow> nvars m info = nvars_from m info (pFirstVar info)"
  by (auto simp: store_ok_def nvars_def)

lemma grows_same:
  assumes "store_ok m info" and "store_grows m info m' info'" and "p \<in> set (nvars m info)"
  shows "same_on p (p + nvar_size m p) m m'" "same_on p (p + 10) m m'"
proof -
  note d = store_okD [OF assms(1,3)]
  have s: "same_on (pFirstVar info) (pEndOfVars info) m m'" using assms(2) by (simp add: store_grows_def)
  show "same_on p (p + nvar_size m p) m m'" "same_on p (p + 10) m m'"
    using same_on_sub [OF s] d by auto
qed

lemma NvVarEq_body:
  assumes s: "store_ok m info" and p: "p \<in> set (nvars m info)" and v: "\<not> has (nvar_flags m p) NVRAM_FLAG_DATA_ONLY"
    and b: "body_same m m' p" and g: "NvramGuidsAddress info' = NvramGuidsAddress info" "NextGuid info \<le> NextGuid info'"
    and ga: "same_on (guid_area info) (NvramAddress info + NvramSize info) m m'"
  shows "NvVarEq m' p nm h info' = NvVarEq m p nm h info" "var_ok m' info' p"
proof -
  note d = store_okD [OF s p]
  note hc = body_sameD [OF b] body_ext [OF b d(5)]
  have sm: "same_on (p + 10) (p + nvar_size m p) m m'" using b by (simp add: body_same_def)
  let ?e = "p + nvar_size m p - ext_size m p"
  from d(6) v have f: "name_fits (name_width m p) m (NvGetName m p) ?e"
    and gi: "has (nvar_flags m p) NVRAM_FLAG_GUID \<or> unat (m (p + 10)) < NextGuid info"
    by (auto simp: var_ok_def sizeof_NVAR_def)
  have "p + 10 \<le> NvGetName m p" by (simp add: NvGetName_def nv_consts)
  then have "same_on (NvGetName m p) ?e m m'" using same_on_sub [OF sm] by simp
  note nc = name_fits_cong [OF f this]
  have n1: "NvGetName m p + 1 \<le> p + nvar_size m p"
    using name_fits_le [OF f] by simp
  have m10: "m' (p + 10) = m (p + 10)" using same_onD [OF sm, of "p + 10"] d(3) by simp
  have gd: "rd_bytes m' (NvGetGuid m' p info') 16 = rd_bytes m (NvGetGuid m p info) 16"
  proof (cases "has (nvar_flags m p) NVRAM_FLAG_GUID")
    case True
    then have "p + 10 + 16 \<le> p + nvar_size m p" using n1 by (simp add: NvGetName_def nv_consts)
    then have "rd_bytes m (p + 10) 16 = rd_bytes m' (p + 10) 16"
      by (intro rd_bytes_cong [OF sm]) auto
    with True hc show ?thesis by (simp add: NvGetGuid_def sizeof_NVAR_def)
  next
    case False
    with gi have i: "unat (m (p + 10)) < NextGuid info" by simp
    let ?a = "NvramGuidsAddress info - 16 * unat (m (p + 10))"
    have l: "NvramGuidsAddress info + 16 = NvramAddress info + NvramSize info"
      "pEndOfVars info + 16 * NextGuid info \<le> NvramAddress info + NvramSize info"
      using s by (auto simp: store_ok_def layout_ok_def)
    have "rd_bytes m ?a 16 = rd_bytes m' ?a 16"
      by (rule rd_bytes_cong [OF ga]) (use i l in \<open>auto simp: guid_area_def\<close>)
    with False hc m10 g(1) show ?thesis by (simp add: NvGetGuid_def nv_consts)
  qed
  from hc nc gd show "NvVarEq m' p nm h info' = NvVarEq m p nm h info" for nm h
    by (simp add: NvVarEq_def sizeof_GUID_def split: option.splits)
  from hc nc gi m10 g(2) show "var_ok m' info' p"
    by (auto simp: var_ok_def sizeof_NVAR_def)
qed

lemma NvVarEq_grow:
  assumes "store_ok m info" and "store_grows m info m' info'" and "p \<in> set (nvars m info)"
    and "\<not> has (nvar_flags m p) NVRAM_FLAG_DATA_ONLY"
  shows "NvVarEq m' p nm h info' = NvVarEq m p nm h info" "var_ok m' info' p"
proof -
  have "body_same m m' p"
    using body_sameI grows_same(1) [OF assms(1-3)] store_okD(3) [OF assms(1,3)] .
  note n = NvVarEq_body [OF assms(1,3,4) this]
  from assms(2) show "NvVarEq m' p nm h info' = NvVarEq m p nm h info" "var_ok m' info' p"
    by (auto intro!: n simp: store_grows_def)
qed

lemma NvGetDataNvar_grow:
  assumes "store_ok m info" and "store_grows m info m' info'" and "layout_ok info'"
  shows "p \<in> set (nvars m info) \<Longrightarrow> NvGetDataNvar_loop m' info' p l = NvGetDataNvar_loop m info p l"
  using assms
proof (induction m info p l rule: NvGetDataNvar_loop.induct)
  case (1 m info p l)
  note d = store_okD [OF "1.prems"(2,1)]
  note sm = grows_same [OF "1.prems"(2,3,1)]
  note hc = header_cong [OF sm(2)]
  have e: "pEndOfVars info \<le> pEndOfVars info'" "pFirstVar info' = pFirstVar info"
    using "1.prems"(3) by (auto simp: store_grows_def)
  have "pEndOfVars info' - p < 2 ^ 32" using layout_end [OF "1.prems"(4)] e(2) d(2) by linarith
  note v = NvIsVariable_grow [OF d(1,5) sm(1) e(1) this]
  show ?case
  proof (cases "nvar_next m p = FLASH_EMPTY_NEXT")
    case True
    with v d(1) hc show ?thesis by (simp add: NvGetDataNvar_loop.simps [of _ _ p])
  next
    case False
    with d(7) have "p + nvar_next m p \<in> set (nvars m info)" by (simp add: link_ok_def)
    from "1.IH" [OF d(1) False this "1.prems"(2-4)] v d(1) hc False show ?thesis
      by (simp add: NvGetDataNvar_loop.simps [of _ _ p])
  qed
qed

lemma name_eq_bound: "name_fits w m a e \<Longrightarrow> NvVarEq_name w m a s = Some q \<Longrightarrow> a < q \<and> q \<le> e"
proof (induction w m a e arbitrary: s rule: name_fits.induct)
  case (1 w m a e)
  note w = name_fits_le [OF "1.prems"(1)]
  show ?case
  proof (cases "name_char w m a = 0")
    case True
    with w "1.prems"(2) show ?thesis by (cases s) (auto split: if_splits)
  next
    case False
    with "1.prems"(1) w have f: "name_fits w m (a + w) e" by (simp add: name_fits.simps [of w m a])
    from False "1.prems"(2) obtain c cs where "NvVarEq_name w m (a + w) cs = Some q"
      by (cases s) (auto split: if_splits)
    from "1.IH" [OF conjI [OF w] False f this] show ?thesis by simp
  qed
qed

lemma NvGetDataNvar_loop_in:
  "store_ok m info \<Longrightarrow> p \<in> set (nvars m info) \<Longrightarrow> NvGetDataNvar_loop m info p l = Some q \<Longrightarrow>
   q = p \<or> q \<in> set (nvars m info) \<and> has (nvar_flags m q) NVRAM_FLAG_DATA_ONLY"
proof (induction m info p l rule: NvGetDataNvar_loop.induct)
  case (1 m info p l)
  note d = store_okD [OF "1.prems"(1,2)]
  show ?case
  proof (cases "nvar_next m p = FLASH_EMPTY_NEXT")
    case True
    with d(1) "1.prems"(3) show ?thesis by (simp add: NvGetDataNvar_loop.simps [of _ _ p])
  next
    case False
    with d(7) have n: "p + nvar_next m p \<in> set (nvars m info)"
      "has (nvar_flags m (p + nvar_next m p)) NVRAM_FLAG_DATA_ONLY" by (auto simp: link_ok_def)
    from "1.prems"(3) d(1) False
    have "NvGetDataNvar_loop m info (p + nvar_next m p) (Some p) = Some q"
      by (simp add: NvGetDataNvar_loop.simps [of _ _ p])
    from "1.IH" [OF d(1) False "1.prems"(1) n(1) this] n show ?thesis by auto
  qed
qed

text \<open>The data of a variable found by name lies inside the records, and reading it gives the same
  bytes after the store has grown.\<close>

lemma NvGetData_bounds:
  assumes s: "store_ok m info" and p: "p \<in> set (nvars m info)"
    and v: "\<not> has (nvar_flags m p) NVRAM_FLAG_DATA_ONLY" and e: "NvVarEq m p nm g info = Some k"
    and dt: "NvGetData m p k info = Some (a, n)"
  shows "pFirstVar info \<le> a" "a + n \<le> pEndOfVars info"
proof -
  obtain q where q: "NvGetDataNvar m p info = Some q" using dt by (auto simp: NvGetData_def split: option.splits)
  note qi = NvGetDataNvar_loop_in [OF s p q [unfolded NvGetDataNvar_def]]
  from qi p have qn: "q \<in> set (nvars m info)" by auto
  note d = store_okD [OF s qn]
  define off where "off = 10 + (if \<not> has (nvar_flags m q) NVRAM_FLAG_DATA_ONLY
      then k + (if has (nvar_flags m q) NVRAM_FLAG_GUID then 16 else 1) else 0)"
  have an: "a = q + off" "n = uintn_sub (uintn_sub (nvar_size m q) off) (ext_size m q)"
    using dt q by (auto simp: NvGetData_def off_def ext_size_def Let_def nv_consts)
  have "off + ext_size m q \<le> nvar_size m q"
  proof (cases "has (nvar_flags m q) NVRAM_FLAG_DATA_ONLY")
    case True
    with d(5) show ?thesis by (simp add: off_def ext_ok_def)
  next
    case False
    with qi have "q = p" by auto
    from store_okD(6) [OF s p] v
    have f: "name_fits (name_width m p) m (NvGetName m p) (p + nvar_size m p - ext_size m p)"
      by (simp add: var_ok_def)
    from e obtain r where r: "NvVarEq_name (name_width m p) m (NvGetName m p) nm = Some r"
      and k: "k = r - NvGetName m p" by (auto simp: NvVarEq_def split: option.splits if_splits)
    from name_eq_bound [OF f r] k d(5) False \<open>q = p\<close> show ?thesis
      by (auto simp: off_def NvGetName_def nv_consts ext_ok_def)
  qed
  moreover have "nvar_size m q < 2 ^ 64" using rd_bound [of 2 m "q + 4"] by (simp add: nvar_size_def)
  ultimately have "n = nvar_size m q - off - ext_size m q" using an by simp
  with an d \<open>off + ext_size m q \<le> nvar_size m q\<close>
  show "pFirstVar info \<le> a" "a + n \<le> pEndOfVars info" by auto
qed

lemma NvGetData_grow:
  assumes "store_ok m info" and "store_grows m info m' info'" and "layout_ok info'"
    and "p \<in> set (nvars m info)"
  shows "NvGetData m' p k info' = NvGetData m p k info"
proof -
  have n: "NvGetDataNvar m' p info' = NvGetDataNvar m p info"
    using NvGetDataNvar_grow [OF assms(1-3) assms(4)] by (simp add: NvGetDataNvar_def)
  show ?thesis
  proof (cases "NvGetDataNvar m p info")
    case None
    with n show ?thesis by (simp add: NvGetData_def)
  next
    case (Some q)
    from NvGetDataNvar_loop_in [OF assms(1,4) Some [unfolded NvGetDataNvar_def]] assms(4)
    have q: "q \<in> set (nvars m info)" by auto
    note d = store_okD [OF assms(1) q]
    note sm = grows_same [OF assms(1,2) q]
    have "ext_size m' q = ext_size m q" by (rule ext_cong [OF sm(1) d(3)])
    with n Some header_cong [OF sm(2)] show ?thesis
      by (simp add: NvGetData_def ext_size_def Let_def)
  qed
qed

section \<open>Appending a record\<close>

text \<open>What it takes to extend a well-formed store by one record: the old contents are kept, and a
  plausible record without successor lies between the old and the new end of the records.\<close>

definition appends :: "memory \<Rightarrow> NVRAM_STORE_INFO \<Rightarrow> memory \<Rightarrow> NVRAM_STORE_INFO \<Rightarrow> bool" where
  "appends m info m' info' \<longleftrightarrow>
     store_grows m info m' info' \<and> layout_ok info' \<and> erased m' (pEndOfVars info') (guid_area info')
     \<and> NvIsVariable m' (pEndOfVars info) info' \<and> ext_ok m' (pEndOfVars info)
     \<and> pEndOfVars info + nvar_size m' (pEndOfVars info) = pEndOfVars info'
     \<and> var_ok m' info' (pEndOfVars info) \<and> nvar_next m' (pEndOfVars info) = FLASH_EMPTY_NEXT"

lemma old_record_grow:
  assumes s: "store_ok m info" and g: "store_grows m info m' info'" and l: "layout_ok info'"
    and p: "p \<in> set (nvars m info)"
  shows "NvIsVariable m' p info'" "NvIsValid m' p = NvIsValid m p" "nvar_flags m' p = nvar_flags m p"
    "nvar_next m' p = nvar_next m p" "var_ok m' info' p"
proof -
  note d = store_okD [OF s p]
  note sm = grows_same [OF s g p]
  note hc = header_cong [OF sm(2)]
  have e: "pEndOfVars info \<le> pEndOfVars info'" "pFirstVar info' = pFirstVar info"
    using g by (auto simp: store_grows_def)
  have "pEndOfVars info' - p < 2 ^ 32" using layout_end [OF l] e(2) d(2) by linarith
  from NvIsVariable_grow [OF d(1,5) sm(1) e(1) this] show "NvIsVariable m' p info'" .
  from hc show "NvIsValid m' p = NvIsValid m p" "nvar_flags m' p = nvar_flags m p"
    "nvar_next m' p = nvar_next m p" by (simp_all add: NvIsValid_def)
  show "var_ok m' info' p"
    using NvVarEq_grow(2) [OF s g p] hc by (cases "has (nvar_flags m p) NVRAM_FLAG_DATA_ONLY") (auto simp: var_ok_def)
qed

lemma appends_nvars:
  assumes s: "store_ok m info" and a: "appends m info m' info'"
  shows "nvars m' info' = nvars m info @ [pEndOfVars info]"
    "chain m' info' (pFirstVar info')" "NvIsVariable m' (pFirstVar info') info'"
proof -
  let ?n = "pEndOfVars info"
  from a have g: "store_grows m info m' info'" and l: "layout_ok info'" and v: "NvIsVariable m' ?n info'"
    and x: "ext_ok m' ?n" and e: "?n + nvar_size m' ?n = pEndOfVars info'" by (auto simp: appends_def)
  have f: "pFirstVar info' = pFirstVar info" and le: "?n \<le> pEndOfVars info'"
    and sm: "same_on (pFirstVar info) ?n m m'" using g by (auto simp: store_grows_def)
  have c: "chain m info (pFirstVar info)" using s by (simp add: store_ok_def)
  have b: "pEndOfVars info' - pFirstVar info < 2 ^ 32" using layout_end [OF l] f by simp
  note cg = chain_grow [OF c sm le b]
  have n1: "nvars_from m' info' ?n = [?n]" using nvars_from_variable [OF v] e by simp
  have "rec_ok m' info' ?n" using v x by (simp add: rec_ok_def NvIsVariable_def)
  then have "chain m' info' ?n"
    using chain_step [of ?n info' m'] nvar_size_okD(4) [OF NvIsVariable_size_ok [OF v]] e by simp
  with cg f show "chain m' info' (pFirstVar info')" by simp
  show vf: "NvIsVariable m' (pFirstVar info') info'"
  proof (cases "pFirstVar info = ?n")
    case True
    with v f show ?thesis by simp
  next
    case False
    then have fv: "NvIsVariable m (pFirstVar info) info" using s by (simp add: store_ok_def)
    then have "pFirstVar info \<in> set (nvars m info)"
      by (simp add: nvars_def nvars_from_variable)
    from old_record_grow(1) [OF s g l this] f show ?thesis by simp
  qed
  from vf cg n1 f store_nvars [OF s] show "nvars m' info' = nvars m info @ [?n]" by (simp add: nvars_def)
qed

lemma appends_store_ok:
  assumes s: "store_ok m info" and a: "appends m info m' info'"
  shows "store_ok m' info'"
proof -
  from a have g: "store_grows m info m' info'" and l: "layout_ok info'" by (auto simp: appends_def)
  note n = appends_nvars [OF s a]
  have "var_ok m' info' p \<and> link_ok m' info' p" if "p \<in> set (nvars m' info')" for p
  proof (cases "p \<in> set (nvars m info)")
    case True
    note o = old_record_grow [OF s g l]
    from store_okD(7) [OF s True] o(3,4) [OF True]
    have "link_ok m' info' p"
      using o(3) [of "p + nvar_next m p"] n(1) by (auto simp: link_ok_def)
    with o(5) [OF True] show ?thesis by simp
  next
    case False
    with that n(1) have "p = pEndOfVars info" by simp
    with a show ?thesis by (simp add: appends_def link_ok_def)
  qed
  moreover have "links_inj m' info'"
  proof -
    have e: "{p \<in> set (nvars m' info'). nvar_next m' p \<noteq> FLASH_EMPTY_NEXT} =
        {p \<in> set (nvars m info). nvar_next m p \<noteq> FLASH_EMPTY_NEXT}"
      using n(1) a old_record_grow(4) [OF s g l] by (auto simp: appends_def)
    have "links_inj m info" using s by (simp add: store_ok_def)
    then show ?thesis
      unfolding links_inj_def e using old_record_grow(4) [OF s g l] by (auto simp: inj_on_def)
  qed
  ultimately show ?thesis using a n by (simp add: store_ok_def appends_def)
qed

text \<open>Lookups after a record was appended: variables that were there are found where they were, with
  the same data; the new record is found under its name if the name was not in use.\<close>

lemma appends_find:
  assumes s: "store_ok m info" and a: "appends m info m' info'"
  shows "NvFindVariable m' nm g info' =
    (case NvFindVariable m nm g info of
       Some r \<Rightarrow> Some r
     | None \<Rightarrow> if NvIsValid m' (pEndOfVars info)
               then map_option (Pair (pEndOfVars info)) (NvVarEq m' (pEndOfVars info) nm g info') else None)"
proof -
  from a have gr: "store_grows m info m' info'" and l: "layout_ok info'" by (auto simp: appends_def)
  let ?P = "\<lambda>m i p. NvVarEq m p nm g i \<noteq> None"
  have valid: "filter (NvIsValid m') (nvars m info) = valid_nvars m info"
    unfolding valid_nvars_def using old_record_grow(2) [OF s gr l] by (intro filter_cong) auto
  have eq: "NvVarEq m' p nm g info' = NvVarEq m p nm g info" if "p \<in> set (valid_nvars m info)" for p
  proof -
    from that have "p \<in> set (nvars m info)" "\<not> has (nvar_flags m p) NVRAM_FLAG_DATA_ONLY"
      by (auto simp: valid_nvars_def NvIsValid_def)
    from NvVarEq_grow(1) [OF s gr this] show ?thesis .
  qed
  have fc: "List.find (?P m' info') (valid_nvars m info) = List.find (?P m info) (valid_nvars m info)"
    by (rule find_cong_set) (simp add: eq)
  have v': "valid_nvars m' info' = valid_nvars m info
      @ (if NvIsValid m' (pEndOfVars info) then [pEndOfVars info] else [])"
    using appends_nvars(1) [OF s a] valid by (simp add: valid_nvars_def)
  show ?thesis
  proof (cases "List.find (?P m info) (valid_nvars m info)")
    case None
    then show ?thesis
      by (cases "NvVarEq m' (pEndOfVars info) nm g info'")
        (simp_all add: NvFindVariable_find v' find_append fc del: not_None_eq)
  next
    case (Some p)
    then have "p \<in> set (valid_nvars m info)" by (metis find_Some_iff nth_mem)
    with Some eq show ?thesis by (simp add: NvFindVariable_find v' find_append fc del: not_None_eq)
  qed
qed

lemma appends_old_data:
  assumes s: "store_ok m info" and a: "appends m info m' info'"
    and f: "NvFindVariable m nm g info = Some (p, k)"
  shows "\<exists>a n. NvGetData m p k info = Some (a, n) \<and> NvGetData m' p k info' = Some (a, n)
    \<and> rd_bytes m' a n = rd_bytes m a n"
proof -
  from a have gr: "store_grows m info m' info'" and l: "layout_ok info'" by (auto simp: appends_def)
  from NvFindVariable_Some [OF f] have p: "p \<in> set (nvars m info)" "\<not> has (nvar_flags m p) NVRAM_FLAG_DATA_ONLY"
    and v: "NvIsVariable m p info" and e: "NvVarEq m p nm g info = Some k"
    by (auto simp: valid_nvars_def NvIsValid_def)
  obtain x n where d: "NvGetData m p k info = Some (x, n)" using NvGetData_Some [OF v] by blast
  note b = NvGetData_bounds [OF s p e d]
  have sm: "same_on (pFirstVar info) (pEndOfVars info) m m'" using gr by (simp add: store_grows_def)
  from rd_bytes_cong [OF sm b] d NvGetData_grow [OF s gr l p(1), of k] show ?thesis by simp
qed

lemma grow_attributes:
  assumes s: "store_ok m info" and g: "store_grows m info m' info'" and p: "p \<in> set (nvars m info)"
  shows "nvar_attributes m' p info' = nvar_attributes m p info"
  using store_okD [OF s p] grows_same [OF s g p] g
  by (intro body_attributes body_sameI) (simp_all add: store_grows_def)

lemma appends_get_old:
  assumes s: "store_ok m info" and a: "appends m info m' info'"
    and args: "ga_VariableName b = Some nm" "ga_VendorGuid b = Some g"
    and f: "NvFindVariable m nm g info \<noteq> None"
  shows "NvGetVariable m' b info' = NvGetVariable m b info"
proof (cases "get_args_ok b")
  case False
  then show ?thesis by (simp add: NvGetVariable_bad_args)
next
  case True
  with args obtain n where n: "ga_DataSize b = Some n" "ga_Data b \<or> n = 0" by (auto simp: get_args_ok_def)
  from a have gr: "store_grows m info m' info'" by (simp add: appends_def)
  from f obtain p k where fk: "NvFindVariable m nm g info = Some (p, k)" by auto
  then have f': "NvFindVariable m' nm g info' = Some (p, k)" using appends_find [OF s a] by simp
  from NvFindVariable_Some [OF fk] have p: "p \<in> set (nvars m info)" by (auto simp: valid_nvars_def)
  from appends_old_data [OF s a fk] grow_attributes [OF s gr p] fk f' show ?thesis
    by (auto simp: NvGetVariable_cases [OF args n])
qed

end
