(* ===== verification/NvramCreate.thy ===== *)
theory NvramCreate
  imports NvramStore
begin

text \<open>
  Creating, deleting and updating a variable in a well-formed store, through any update interface
  that programs what only clears bits: the bytes each routine writes, that the store stays well
  formed, and what a lookup finds afterwards.
\<close>

section \<open>Writing into erased space\<close>

text \<open>The state after \<open>xs\<close> was written at \<open>p\<close> and the write position advanced past it.\<close>

abbreviation written :: "memory \<Rightarrow> nat \<Rightarrow> u8 list \<Rightarrow> wstate" where
  "written m p xs \<equiv> (True, p + length xs, wr_bytes m p xs)"

context write_interface
begin

lemma write_next:
  assumes "erased m p (p + N)" and "length xs + length bs \<le> N" and "N < 2 ^ 32"
  shows "WriteBytes (p + length xs) bs (wr_bytes m p xs) = (True, wr_bytes m p (xs @ bs))"
proof -
  have "erased (wr_bytes m p xs) (p + length xs) (p + length xs + length bs)"
    using assms(1,2) by (auto simp: erased_def wr_bytes_def)
  from write_erased [OF this] assms(2,3) show ?thesis by (simp add: wr_bytes_append)
qed

lemma w_adv_written:
  assumes "erased m p (p + N)" and "length xs + length bs \<le> N" and "N < 2 ^ 32"
  shows "w_adv WriteBytes bs (written m p xs) = written m p (xs @ bs)"
  using write_next [OF assms] by (simp add: w_adv_def)

lemma w_brk_written:
  assumes "erased m p (p + N)" and "length xs + length bs \<le> N" and "N < 2 ^ 32"
  shows "w_brk WriteBytes bs k (written m p xs) = (True, p + length xs + k, wr_bytes m p (xs @ bs))"
  using write_next [OF assms] by (simp add: w_brk_def)

lemma fold_w_adv:
  assumes "erased m p (p + N)" and "N < 2 ^ 32"
  shows "length xs + length (concat (map f cs)) \<le> N \<Longrightarrow>
    fold (\<lambda>c. w_adv WriteBytes (f c)) cs (written m p xs) = written m p (xs @ concat (map f cs))"
proof (induction cs arbitrary: xs)
  case Nil
  then show ?case by simp
next
  case (Cons c cs)
  then have l: "length xs + length (f c) \<le> N" "length (xs @ f c) + length (concat (map f cs)) \<le> N" by auto
  from w_adv_written [OF assms(1) l(1) assms(2)] Cons.IH [OF l(2)] show ?case by simp
qed

lemma write_name_written:
  assumes "erased m p (p + N)" and "length xs + length (name_bytes nm) \<le> N" and "N < 2 ^ 32"
  shows "write_name WriteBytes nm (written m p xs) = written m p (xs @ name_bytes nm)"
proof (cases "name_ascii nm")
  case True
  have c: "concat (map (\<lambda>c. [ucast c]) (c_string nm)) = (map ucast (c_string nm) :: u8 list)"
    by (induction "c_string nm") simp_all
  have l: "length xs + length (c_string nm) + 1 \<le> N" using assms(2) True by (simp add: name_bytes_def)
  from fold_w_adv [OF assms(1,3), of xs "\<lambda>c. [ucast c]" "c_string nm"] l
  have "fold (\<lambda>c. w_adv WriteBytes [ucast c]) (c_string nm) (written m p xs) =
      written m p (xs @ map ucast (c_string nm))" by (simp add: c)
  moreover have "w_adv WriteBytes [0] (written m p (xs @ map ucast (c_string nm))) =
      written m p ((xs @ map ucast (c_string nm)) @ [0])"
    by (rule w_adv_written [OF assms(1) _ assms(3)]) (use l in simp)
  ultimately show ?thesis using True by (simp add: write_name_def name_bytes_def)
next
  case False
  let ?b = "concat (map (\<lambda>c. le_bytes 2 (unat c)) (c_string nm))"
  have l: "length xs + length ?b + 2 \<le> N" using assms(2) False by (simp add: name_bytes_def)
  from fold_w_adv [OF assms(1,3), of xs "\<lambda>c. le_bytes 2 (unat c)" "c_string nm"] l
  have "fold (\<lambda>c. w_adv WriteBytes (le_bytes 2 (unat c))) (c_string nm) (written m p xs) =
      written m p (xs @ ?b)" by simp
  moreover have "w_adv WriteBytes [0, 0] (written m p (xs @ ?b)) = written m p ((xs @ ?b) @ [0, 0])"
    by (rule w_adv_written [OF assms(1) _ assms(3)]) (use l in simp)
  ultimately show ?thesis using False by (simp add: write_name_def name_bytes_def)
qed

end

section \<open>The bytes of a new record\<close>

text \<open>The extended header of an authenticated variable (no checksum support).\<close>

definition ext_bytes :: "u32 \<Rightarrow> EXT_SEC_FLAGS \<Rightarrow> u8 list" where
  "ext_bytes Attributes sec =
     (if has Attributes UEFI23_1_AUTHENTICATED_VARIABLE_ATTRIBUTES
      then [ucast (Attributes AND UEFI23_1_AUTHENTICATED_VARIABLE_ATTRIBUTES)] @ le_bytes 8 (Mc sec)
           @ take HASH_SHA256_LEN (KeyHash sec) @ le_bytes 2 43
      else [])"

definition guid_bytes :: "create_plan \<Rightarrow> u8 list \<Rightarrow> u8 list" where
  "guid_bytes cp VendorGuid =
     (if has (cp_flags cp) NVRAM_FLAG_GUID then VendorGuid else [word_of_nat (cp_guid cp)])"

definition body_bytes ::
    "create_plan \<Rightarrow> char16 list \<Rightarrow> u8 list \<Rightarrow> u32 \<Rightarrow> u8 list \<Rightarrow> EXT_SEC_FLAGS \<Rightarrow> u8 list" where
  "body_bytes cp VariableName VendorGuid Attributes Data sec =
     guid_bytes cp VendorGuid @ name_bytes VariableName @ Data @ ext_bytes Attributes sec"

definition record_bytes :: "nat \<Rightarrow> u8 \<Rightarrow> u8 list \<Rightarrow> u8 list" where
  "record_bytes sz flags body =
     le_bytes 4 NVAR_SIGNATURE @ le_bytes 2 sz @ le_bytes 3 FLASH_EMPTY_NEXT @ [flags] @ body"

lemma has_or [simp]: "has (a OR b) c \<longleftrightarrow> has a c \<or> has b c"
  by (simp add: has_def bit.conj_disj_distrib2 or_eq_0_iff)

lemma has_0 [simp]: "\<not> has 0 c"
  by (simp add: has_def)

lemma has_if [simp]: "has (if b then x else y) c \<longleftrightarrow> b \<and> has x c \<or> \<not> b \<and> has y c"
  by simp

lemma create_flags_bits:
  assumes "create_flags False A = (f, x, e)"
  shows "\<not> has f NVRAM_FLAG_GUID" "\<not> has f NVRAM_FLAG_ASCII_NAME" "\<not> has f NVRAM_FLAG_DATA_ONLY"
    "has f NVRAM_FLAG_VALID" "has f NVRAM_FLAG_RUNTIME = has A EFI_VARIABLE_RUNTIME_ACCESS"
    "has f NVRAM_FLAG_HARDWARE_ERROR_RECORD = has A EFI_VARIABLE_HARDWARE_ERROR_RECORD"
    "has f NVRAM_FLAG_AUTH_WRITE = has A UEFI23_1_AUTHENTICATED_VARIABLE_ATTRIBUTES"
    "has f NVRAM_FLAG_EXT_HEDER = has A UEFI23_1_AUTHENTICATED_VARIABLE_ATTRIBUTES"
    "x = (if has A UEFI23_1_AUTHENTICATED_VARIABLE_ATTRIBUTES then 43 else 0)"
    "e = (if has A UEFI23_1_AUTHENTICATED_VARIABLE_ATTRIBUTES
          then ucast (A AND UEFI23_1_AUTHENTICATED_VARIABLE_ATTRIBUTES) else 0)"
  using assms
  by (auto simp: create_flags_def Let_def nv_consts has_def [of "numeral _"] has_def [of 1] cong: if_cong)

text \<open>The plan in terms of the bytes that will be written.\<close>

definition full_guid :: "memory \<Rightarrow> u8 list \<Rightarrow> NVRAM_STORE_INFO \<Rightarrow> nat option \<Rightarrow> bool" where
  "full_guid m VendorGuid info OldVar \<longleftrightarrow>
     (case OldVar of Some v \<Rightarrow> has (nvar_flags m v) NVRAM_FLAG_GUID | None \<Rightarrow> False)
     \<or> NextGuid info > 255
       \<and> guid_search m (NvramGuidsAddress info) VendorGuid (NextGuid info) 0 \<ge> NextGuid info"

lemma plan_create_simps:
  assumes "cp = plan_create False m nm g A info OldVar k"
  shows "has (cp_flags cp) NVRAM_FLAG_GUID = full_guid m g info OldVar"
    "has (cp_flags cp) NVRAM_FLAG_ASCII_NAME = name_ascii nm"
    "\<not> has (cp_flags cp) NVRAM_FLAG_DATA_ONLY" "has (cp_flags cp) NVRAM_FLAG_VALID"
    "has (cp_flags cp) NVRAM_FLAG_RUNTIME = has A EFI_VARIABLE_RUNTIME_ACCESS"
    "has (cp_flags cp) NVRAM_FLAG_HARDWARE_ERROR_RECORD = has A EFI_VARIABLE_HARDWARE_ERROR_RECORD"
    "has (cp_flags cp) NVRAM_FLAG_AUTH_WRITE = has A UEFI23_1_AUTHENTICATED_VARIABLE_ATTRIBUTES"
    "has (cp_flags cp) NVRAM_FLAG_EXT_HEDER = has A UEFI23_1_AUTHENTICATED_VARIABLE_ATTRIBUTES"
    "cp_ExtSize cp = (if has A UEFI23_1_AUTHENTICATED_VARIABLE_ATTRIBUTES then 43 else 0)"
    "cp_ExtFlags cp = (if has A UEFI23_1_AUTHENTICATED_VARIABLE_ATTRIBUTES
       then ucast (A AND UEFI23_1_AUTHENTICATED_VARIABLE_ATTRIBUTES) else 0)"
    "cp_guid cp = guid_search m (NvramGuidsAddress info) g (NextGuid info) 0"
    "cp_Size cp = 10 + k + (if full_guid m g info OldVar then 16 else 1) + length (name_bytes nm)"
proof -
  obtain f x e where c: "create_flags False A = (f, x, e)" by (metis prod_cases3)
  note b = create_flags_bits [OF c]
  have n: "has NVRAM_FLAG_GUID NVRAM_FLAG_GUID" "\<not> has NVRAM_FLAG_ASCII_NAME NVRAM_FLAG_GUID"
    "has NVRAM_FLAG_ASCII_NAME NVRAM_FLAG_ASCII_NAME" "\<not> has NVRAM_FLAG_GUID NVRAM_FLAG_ASCII_NAME"
    by (simp_all add: has_def nv_consts)
  have z: "\<not> has NVRAM_FLAG_GUID F \<and> \<not> has NVRAM_FLAG_ASCII_NAME F"
    if "F \<in> {NVRAM_FLAG_DATA_ONLY, NVRAM_FLAG_RUNTIME, NVRAM_FLAG_HARDWARE_ERROR_RECORD,
             NVRAM_FLAG_AUTH_WRITE, NVRAM_FLAG_EXT_HEDER, NVRAM_FLAG_VALID}" for F
    using that by (auto simp: has_def nv_consts)
  note zs = z [of NVRAM_FLAG_DATA_ONLY] z [of NVRAM_FLAG_RUNTIME] z [of NVRAM_FLAG_HARDWARE_ERROR_RECORD]
    z [of NVRAM_FLAG_AUTH_WRITE] z [of NVRAM_FLAG_EXT_HEDER] z [of NVRAM_FLAG_VALID]
  show "has (cp_flags cp) NVRAM_FLAG_GUID = full_guid m g info OldVar"
    "has (cp_flags cp) NVRAM_FLAG_ASCII_NAME = name_ascii nm"
    "\<not> has (cp_flags cp) NVRAM_FLAG_DATA_ONLY" "has (cp_flags cp) NVRAM_FLAG_VALID"
    "has (cp_flags cp) NVRAM_FLAG_RUNTIME = has A EFI_VARIABLE_RUNTIME_ACCESS"
    "has (cp_flags cp) NVRAM_FLAG_HARDWARE_ERROR_RECORD = has A EFI_VARIABLE_HARDWARE_ERROR_RECORD"
    "has (cp_flags cp) NVRAM_FLAG_AUTH_WRITE = has A UEFI23_1_AUTHENTICATED_VARIABLE_ATTRIBUTES"
    "has (cp_flags cp) NVRAM_FLAG_EXT_HEDER = has A UEFI23_1_AUTHENTICATED_VARIABLE_ATTRIBUTES"
    "cp_ExtSize cp = (if has A UEFI23_1_AUTHENTICATED_VARIABLE_ATTRIBUTES then 43 else 0)"
    "cp_ExtFlags cp = (if has A UEFI23_1_AUTHENTICATED_VARIABLE_ATTRIBUTES
       then ucast (A AND UEFI23_1_AUTHENTICATED_VARIABLE_ATTRIBUTES) else 0)"
    "cp_guid cp = guid_search m (NvramGuidsAddress info) g (NextGuid info) 0"
    "cp_Size cp = 10 + k + (if full_guid m g info OldVar then 16 else 1) + length (name_bytes nm)"
    using b zs n unfolding assms plan_create_def c full_guid_def
    by (simp_all add: Let_def sizeof_NVAR_def sizeof_GUID_def cong: if_cong)
qed

lemma guid_search_le: "guid_search m base g n i \<le> i + n"
proof (induction n arbitrary: i)
  case 0
  then show ?case by simp
next
  case (Suc n)
  from Suc [of "Suc i"] show ?case by simp
qed

lemma guid_search_found:
  "guid_search m base g n i < i + n \<Longrightarrow>
   rd_bytes m (base - 16 * guid_search m base g n i) 16 = g"
proof (induction n arbitrary: i)
  case 0
  then show ?case by simp
next
  case (Suc n)
  then show ?case by (cases "rd_bytes m (base - 16 * i) 16 = g") (simp_all add: sizeof_GUID_def)
qed

section \<open>What CreateVariableEx writes\<close>

lemma IsEnoughSpace_bound:
  assumes "layout_ok info" and "IsEnoughSpace info sz" and "sz < 2 ^ 32"
  shows "pEndOfVars info + sz + 16 * (NextGuid info + 1) + 10 \<le> NvramAddress info + NvramSize info"
proof -
  let ?e = "NvramAddress info + NvramSize info" and ?k = "16 * (NextGuid info + 1)"
  have l: "?e < 2 ^ 63" "0x2000 \<le> NvramAddress info" "NextGuid info \<le> 256"
    "pEndOfVars info \<le> ?e" using assms(1) by (auto simp: layout_ok_def)
  have "uintn_sub ?e ?k = ?e - ?k" using l by (intro uintn_sub_le) auto
  moreover have "uintn_sub (?e - ?k) 10 = ?e - ?k - 10" using l by (intro uintn_sub_le) auto
  moreover have "uintn_add (pEndOfVars info) sz = pEndOfVars info + sz"
    using l assms(3) by (simp add: uintn_add_def)
  ultimately show ?thesis using assms(2) l by (simp add: IsEnoughSpace_def nv_consts)
qed

text \<open>The slot of the GUID area that a new GUID is written to, and memory with that GUID in it.\<close>

definition new_guid :: "create_plan \<Rightarrow> NVRAM_STORE_INFO \<Rightarrow> bool" where
  "new_guid cp info \<longleftrightarrow> \<not> has (cp_flags cp) NVRAM_FLAG_GUID \<and> cp_guid cp = NextGuid info"

definition guid_slot :: "NVRAM_STORE_INFO \<Rightarrow> nat" where
  "guid_slot info = NvramGuidsAddress info - 16 * NextGuid info"

definition mem_guid :: "create_plan \<Rightarrow> NVRAM_STORE_INFO \<Rightarrow> u8 list \<Rightarrow> memory \<Rightarrow> memory" where
  "mem_guid cp info g m = (if new_guid cp info then wr_bytes m (guid_slot info) g else m)"

lemma length_header [simp]: "length (nvar_header sz nx f) = 10"
  by (simp add: nvar_header_def)

lemma length_ext_bytes:
  "has A UEFI23_1_AUTHENTICATED_VARIABLE_ATTRIBUTES \<longrightarrow> length (KeyHash sec) = 32 \<Longrightarrow>
   length (ext_bytes A sec) = (if has A UEFI23_1_AUTHENTICATED_VARIABLE_ATTRIBUTES then 43 else 0)"
  by (simp add: ext_bytes_def HASH_SHA256_LEN_def)

lemma empty_signature: "le_bytes 4 FLASH_EMPTY_SIGNATURE = replicate 4 0xFF"
  by code_simp

context write_interface
begin

lemma write_guid_written:
  assumes er: "erased m p (p + N)" and N: "10 + length (guid_bytes cp g) \<le> N" "N < 2 ^ 32" and g: "length g = 16"
    and slot: "p + N \<le> guid_slot info" "erased m (guid_slot info) (guid_slot info + 16)"
  shows "write_guid WriteBytes cp g info (written m p (nvar_header sz nx f)) =
    written (mem_guid cp info g m) p (nvar_header sz nx f @ guid_bytes cp g)"
    "erased (mem_guid cp info g m) p (p + N)"
proof -
  let ?h = "nvar_header sz nx f"
  show er0: "erased (mem_guid cp info g m) p (p + N)"
    using er slot(1) by (auto simp: mem_guid_def erased_def wr_bytes_def)
  show "write_guid WriteBytes cp g info (written m p ?h) = written (mem_guid cp info g m) p (?h @ guid_bytes cp g)"
  proof (cases "new_guid cp info")
    case False
    have "w_adv WriteBytes (guid_bytes cp g) (written m p ?h) = written m p (?h @ guid_bytes cp g)"
      by (rule w_adv_written [OF er _ N(2)]) (use N in simp)
    with False show ?thesis
      by (auto simp: write_guid_def guid_bytes_def mem_guid_def new_guid_def)
  next
    case True
    let ?s = "guid_slot info"
    have "erased (wr_bytes m p ?h) ?s (?s + length g)"
      using slot N g by (auto simp: erased_def wr_bytes_def)
    from write_erased [OF this] g
    have "WriteBytes ?s g (wr_bytes m p ?h) = (True, wr_bytes (wr_bytes m p ?h) ?s g)" by simp
    also have "wr_bytes (wr_bytes m p ?h) ?s g = wr_bytes (mem_guid cp info g m) p ?h"
      using True slot N by (simp add: mem_guid_def) (rule wr_bytes_comm, simp)
    finally have w: "w_at WriteBytes ?s g (written m p ?h) = written (mem_guid cp info g m) p ?h"
      by (simp add: w_at_def)
    have "w_adv WriteBytes (guid_bytes cp g) (written (mem_guid cp info g m) p ?h) =
        written (mem_guid cp info g m) p (?h @ guid_bytes cp g)"
      by (rule w_adv_written [OF er0 _ N(2)]) (use N in simp)
    with True w show ?thesis
      by (simp add: write_guid_def guid_bytes_def new_guid_def guid_slot_def sizeof_GUID_def)
  qed
qed

lemma write_auth_ext_written:
  assumes er: "erased m p (p + N)" and N: "length xs + length (ext_bytes A sec) = N" "N < 2 ^ 32"
    and h: "has A UEFI23_1_AUTHENTICATED_VARIABLE_ATTRIBUTES \<longrightarrow> length (KeyHash sec) = 32"
    and ef: "has A UEFI23_1_AUTHENTICATED_VARIABLE_ATTRIBUTES \<longrightarrow>
        ef = ucast (A AND UEFI23_1_AUTHENTICATED_VARIABLE_ATTRIBUTES)"
    and xs: "has A UEFI23_1_AUTHENTICATED_VARIABLE_ATTRIBUTES \<longrightarrow> cp_ExtSize cp = 43"
  shows "\<exists>q. write_auth_ext WriteBytes A ef sec (cp_ExtSize cp) (p + N - 2) (written m p xs) =
      (True, q, wr_bytes m p (xs @ ext_bytes A sec))"
proof (cases "has A UEFI23_1_AUTHENTICATED_VARIABLE_ATTRIBUTES")
  case False
  then show ?thesis by (simp add: write_auth_ext_def ext_bytes_def)
next
  case True
  let ?k = "take 32 (KeyHash sec)"
  from True h have k: "length ?k = 32" by simp
  from True N(1) length_ext_bytes [OF h] have N': "length xs + 43 = N" by simp
  let ?x1 = "xs @ [ef]" and ?x2 = "(xs @ [ef]) @ le_bytes 8 (Mc sec)"
  let ?x3 = "((xs @ [ef]) @ le_bytes 8 (Mc sec)) @ ?k"
  have 1: "w_brk WriteBytes [ef] 1 (written m p xs) = written m p ?x1"
    using w_brk_written [OF er _ N(2), of xs "[ef]" 1] N' by simp
  have 2: "w_brk WriteBytes (le_bytes 8 (Mc sec)) 8 (written m p ?x1) = written m p ?x2"
    using w_brk_written [OF er _ N(2), of ?x1 "le_bytes 8 (Mc sec)" 8] N' by simp
  have 3: "w_brk WriteBytes ?k 0 (written m p ?x2) = (True, p + length ?x2 + 0, wr_bytes m p ?x3)"
    by (rule w_brk_written [OF er _ N(2)]) (use N' k in simp)
  have 4: "w_goto (p + N - 2) (True, q, wr_bytes m p ?x3) = written m p ?x3" for q
    using N' k by (simp add: w_goto_def)
  have 5: "w_brk WriteBytes (le_bytes 2 43) 0 (written m p ?x3) = (True, p + length ?x3 + 0, wr_bytes m p (?x3 @ le_bytes 2 43))"
    by (rule w_brk_written [OF er _ N(2)]) (use N' k in simp)
  have "write_auth_ext WriteBytes A ef sec (cp_ExtSize cp) (p + N - 2) (written m p xs) =
      (True, p + length ?x3 + 0, wr_bytes m p (?x3 @ le_bytes 2 43))"
    using True xs unfolding write_auth_ext_def HASH_SHA256_LEN_def
    by (simp only: 1 2 3 4 5 if_True simp_thms)
  with True ef show ?thesis by (simp add: ext_bytes_def HASH_SHA256_LEN_def)
qed

lemma signature_written:
  assumes "length (xs :: u8 list) < 2 ^ 32"
  shows "w_at WriteBytes p (le_bytes 4 NVAR_SIGNATURE)
      (True, q, wr_bytes m p (le_bytes 4 FLASH_EMPTY_SIGNATURE @ xs)) =
    (True, q, wr_bytes m p (le_bytes 4 NVAR_SIGNATURE @ xs))"
proof -
  let ?m = "wr_bytes m p (le_bytes 4 FLASH_EMPTY_SIGNATURE @ xs)"
  have "rd_bytes ?m p 4 = replicate 4 0xFF"
    using rd_bytes_wr_sub [of 0 4 "le_bytes 4 FLASH_EMPTY_SIGNATURE @ xs" m p] by (simp add: empty_signature)
  then have "list_all2 programmable_byte (rd_bytes ?m p (length (le_bytes 4 NVAR_SIGNATURE))) (le_bytes 4 NVAR_SIGNATURE)"
    by (simp add: list_all2_conv_all_nth)
  from write_clearing [OF this] show ?thesis
    by (simp add: w_at_def wr_bytes_over)
qed

end

text \<open>The size of the new record.\<close>

definition create_size ::
    "memory \<Rightarrow> char16 list \<Rightarrow> u8 list \<Rightarrow> u32 \<Rightarrow> u8 list \<Rightarrow> nat option \<Rightarrow> u8 list \<Rightarrow> NVRAM_STORE_INFO \<Rightarrow> nat" where
  "create_size m nm g A Data OldVar App info =
     (let cp = plan_create False m nm g A info OldVar (length App)
      in cp_Size cp + (length Data + cp_ExtSize cp))"

text \<open>The conditions under which a creation reports success: the store's free space is erased and large
  enough, and the arguments have the sizes their C types have.  The new record can be read back if its
  size also fits the 16-bit size field and is not the value of an erased one, which the code does not
  test for.\<close>

definition create_fits ::
    "memory \<Rightarrow> char16 list \<Rightarrow> u8 list \<Rightarrow> u32 \<Rightarrow> u8 list \<Rightarrow> nat option \<Rightarrow> EXT_SEC_FLAGS \<Rightarrow> u8 list
       \<Rightarrow> NVRAM_STORE_INFO \<Rightarrow> bool" where
  "create_fits m nm g A Data OldVar sec App info \<longleftrightarrow>
     layout_ok info \<and> erased m (pEndOfVars info) (guid_area info) \<and> length g = 16
     \<and> (has A UEFI23_1_AUTHENTICATED_VARIABLE_ATTRIBUTES \<longrightarrow> length (KeyHash sec) = 32)
     \<and> (App = [] \<or> has A EFI_VARIABLE_APPEND_WRITE)
     \<and> create_size m nm g A Data OldVar App info < 2 ^ 32
     \<and> IsEnoughSpace info (create_size m nm g A Data OldVar App info)"

definition create_ok ::
    "memory \<Rightarrow> char16 list \<Rightarrow> u8 list \<Rightarrow> u32 \<Rightarrow> u8 list \<Rightarrow> nat option \<Rightarrow> EXT_SEC_FLAGS \<Rightarrow> u8 list
       \<Rightarrow> NVRAM_STORE_INFO \<Rightarrow> bool" where
  "create_ok m nm g A Data OldVar sec App info \<longleftrightarrow>
     create_fits m nm g A Data OldVar sec App info \<and> create_size m nm g A Data OldVar App info < 0xFFFF"

definition created_info :: "create_plan \<Rightarrow> nat \<Rightarrow> NVRAM_STORE_INFO \<Rightarrow> NVRAM_STORE_INFO" where
  "created_info cp sz info =
     (if new_guid cp info then info\<lparr>NextGuid := Suc (NextGuid info)\<rparr> else info)
       \<lparr>pEndOfVars := pEndOfVars info + sz, LastVarSize := sz mod 2 ^ 16\<rparr>"

lemma create_fitsD:
  assumes "create_fits m nm g A Data OldVar sec App info"
    and "cp = plan_create False m nm g A info OldVar (length App)"
    and "sz = cp_Size cp + (length Data + cp_ExtSize cp)"
  shows "layout_ok info" "erased m (pEndOfVars info) (guid_area info)" "length g = 16"
    "has A UEFI23_1_AUTHENTICATED_VARIABLE_ATTRIBUTES \<longrightarrow> length (KeyHash sec) = 32"
    "App = [] \<or> has A EFI_VARIABLE_APPEND_WRITE" "IsEnoughSpace info sz"
    "pEndOfVars info + sz + 16 * (NextGuid info + 1) + 10 \<le> NvramAddress info + NvramSize info"
    "pEndOfVars info + sz \<le> guid_slot info" "guid_slot info + 16 = guid_area info" "sz < 2 ^ 32"
    "erased m (pEndOfVars info) (pEndOfVars info + sz)" "erased m (guid_slot info) (guid_slot info + 16)"
    "length (record_bytes sz (cp_flags cp) (body_bytes cp nm g A (App @ Data) sec)) = sz"
proof -
  have sz: "create_size m nm g A Data OldVar App info = sz" using assms by (simp add: create_size_def Let_def)
  show 1: "layout_ok info" "erased m (pEndOfVars info) (guid_area info)" "length g = 16"
    "has A UEFI23_1_AUTHENTICATED_VARIABLE_ATTRIBUTES \<longrightarrow> length (KeyHash sec) = 32"
    "App = [] \<or> has A EFI_VARIABLE_APPEND_WRITE" "IsEnoughSpace info sz" "sz < 2 ^ 32"
    using assms(1) sz by (auto simp: create_fits_def)
  from IsEnoughSpace_bound [OF 1(1,6,7)]
  show b: "pEndOfVars info + sz + 16 * (NextGuid info + 1) + 10 \<le> NvramAddress info + NvramSize info" .
  have l: "NvramGuidsAddress info + 16 = NvramAddress info + NvramSize info"
    "NvramAddress info \<le> pEndOfVars info" using 1(1) by (auto simp: layout_ok_def)
  from b l show s: "pEndOfVars info + sz \<le> guid_slot info" "guid_slot info + 16 = guid_area info"
    by (auto simp: guid_slot_def guid_area_def)
  from s erased_sub [OF 1(2)]
  show "erased m (pEndOfVars info) (pEndOfVars info + sz)" "erased m (guid_slot info) (guid_slot info + 16)"
    by auto
  note ps = plan_create_simps [OF assms(2)]
  show "length (record_bytes sz (cp_flags cp) (body_bytes cp nm g A (App @ Data) sec)) = sz"
    using 1(3) length_ext_bytes [OF 1(4)] ps
    by (simp add: record_bytes_def body_bytes_def guid_bytes_def assms(3))
qed

lemma create_okD:
  assumes "create_ok m nm g A Data OldVar sec App info"
    and "cp = plan_create False m nm g A info OldVar (length App)"
    and "sz = cp_Size cp + (length Data + cp_ExtSize cp)"
  shows "create_fits m nm g A Data OldVar sec App info" "sz < 0xFFFF"
  using assms by (auto simp: create_ok_def create_size_def Let_def)

lemma le_bytes_mod: "le_bytes k (n mod 256 ^ k) = le_bytes k n"
proof (induction k arbitrary: n)
  case (Suc k)
  have "(n mod 256 ^ Suc k) div 256 = (n div 256) mod 256 ^ k"
    by (simp add: mod_mult2_eq div_add1_eq)
  moreover have "(n mod 256 ^ Suc k) mod 256 = n mod 256"
    by (simp add: mod_mult2_eq)
  ultimately have "word_of_nat (n mod 256 ^ Suc k) = (word_of_nat n :: u8)"
    by (simp add: word_of_nat_eq_iff take_bit_eq_mod)
  with Suc [of "n div 256"] \<open>(n mod 256 ^ Suc k) div 256 = _\<close> show ?case by simp
qed simp

lemma nvar_header_mod: "nvar_header (sz mod 2 ^ 16) nx f = nvar_header sz nx f"
  using le_bytes_mod [of 2 sz] by (simp add: nvar_header_def)

context write_interface
begin

lemma CreateVariableEx_success:
  assumes c: "create_fits m nm g A Data OldVar sec App info"
    and cp: "cp = plan_create False m nm g A info OldVar (length App)"
    and sz: "sz = cp_Size cp + (length Data + cp_ExtSize cp)"
  shows "CreateVariableEx WriteBytes False nm g A Data OldVar sec App info m =
    (EFI_SUCCESS, created_info cp sz info,
     wr_bytes (mem_guid cp info g m) (pEndOfVars info)
       (record_bytes sz (cp_flags cp) (body_bytes cp nm g A (App @ Data) sec)))"
proof -
  note d = create_fitsD [OF c cp sz]
  note ps = plan_create_simps [OF cp]
  let ?p = "pEndOfVars info"
  let ?h = "nvar_header sz FLASH_EMPTY_NEXT (cp_flags cp)"
  let ?m0 = "mem_guid cp info g m"
  let ?gb = "guid_bytes cp g" and ?nb = "name_bytes nm" and ?xb = "ext_bytes A sec"
  have N: "sz < 2 ^ 32" using d(10) by simp
  have len: "10 + length ?gb + length ?nb + length App + length Data + length ?xb = sz"
    using d(13) by (simp add: record_bytes_def body_bytes_def)
  have h1: "w_adv WriteBytes ?h (True, ?p, m) = written m ?p ?h"
    using w_adv_written [OF d(11) _ N, of "[]" ?h] len by simp
  have l2: "10 + length ?gb \<le> sz" using len by simp
  note h2 = write_guid_written [OF d(11) l2 N d(3) d(8,12)]
  note er = h2(2)
  have h3: "write_name WriteBytes nm (written ?m0 ?p (?h @ ?gb)) = written ?m0 ?p ((?h @ ?gb) @ ?nb)"
    by (rule write_name_written [OF er _ N]) (use len in simp)
  let ?x3 = "(?h @ ?gb) @ ?nb"
  have "w_adv WriteBytes App (written ?m0 ?p ?x3) = written ?m0 ?p (?x3 @ App)"
    by (rule w_adv_written [OF er _ N]) (use len in simp)
  then have h4: "(if has A EFI_VARIABLE_APPEND_WRITE then w_adv WriteBytes App (written ?m0 ?p ?x3)
      else written ?m0 ?p ?x3) = written ?m0 ?p (?x3 @ App)"
    using d(5) by auto
  have h5: "w_adv WriteBytes Data (written ?m0 ?p (?x3 @ App)) = written ?m0 ?p ((?x3 @ App) @ Data)"
    by (rule w_adv_written [OF er _ N]) (use len in simp)
  let ?x5 = "(?x3 @ App) @ Data"
  have l6: "length ?x5 + length ?xb = sz" using len by simp
  obtain q where h6: "write_auth_ext WriteBytes A (cp_ExtFlags cp) sec (cp_ExtSize cp) (?p + sz - 2)
      (written ?m0 ?p ?x5) = (True, q, wr_bytes ?m0 ?p (?x5 @ ?xb))"
    using write_auth_ext_written [OF er l6 N d(4), of "cp_ExtFlags cp" cp] ps(9,10) by auto
  let ?t = "le_bytes 2 sz @ le_bytes 3 FLASH_EMPTY_NEXT @ [cp_flags cp] @ ?gb @ ?nb @ App @ Data @ ?xb"
  have x: "?x5 @ ?xb = le_bytes 4 FLASH_EMPTY_SIGNATURE @ ?t" by (simp add: nvar_header_def)
  have r: "record_bytes sz (cp_flags cp) (body_bytes cp nm g A (App @ Data) sec) = le_bytes 4 NVAR_SIGNATURE @ ?t"
    by (simp add: record_bytes_def body_bytes_def)
  have h7: "w_at WriteBytes ?p (le_bytes 4 NVAR_SIGNATURE) (True, q, wr_bytes ?m0 ?p (?x5 @ ?xb)) =
      (True, q, wr_bytes ?m0 ?p (record_bytes sz (cp_flags cp) (body_bytes cp nm g A (App @ Data) sec)))"
    unfolding x r by (rule signature_written) (use len N in simp)
  have ov: "\<not> 2 ^ 64 - 1 - cp_Size cp < (length Data + cp_ExtSize cp) mod 2 ^ 64"
    using N sz by simp
  have nock: "write_checksum_ext WriteBytes False f e x p1 pV st = st" for f e x p1 pV st
    by (simp add: write_checksum_ext_def)
  show ?thesis
    unfolding CreateVariableEx_def Let_def cp [symmetric] sz [symmetric] nvar_header_mod h1 h2(1) h3 h4 h5 h6 nock h7
    using ov d(6) by (simp add: created_info_def new_guid_def)
qed

end

section \<open>Reading back a record\<close>

lemma record_fields:
  assumes "sz < 2 ^ 16"
  shows "nvar_signature (wr_bytes m p (record_bytes sz f body)) p = NVAR_SIGNATURE"
    "nvar_size (wr_bytes m p (record_bytes sz f body)) p = sz"
    "nvar_next (wr_bytes m p (record_bytes sz f body)) p = FLASH_EMPTY_NEXT"
    "nvar_flags (wr_bytes m p (record_bytes sz f body)) p = f"
proof -
  let ?r = "record_bytes sz f body"
  let ?a = "le_bytes 4 NVAR_SIGNATURE" and ?b = "le_bytes 2 sz" and ?c = "le_bytes 3 FLASH_EMPTY_NEXT"
  have r: "?r = ?a @ ?b @ ?c @ [f] @ body" by (simp add: record_bytes_def)
  have l: "length ?r = 10 + length body" by (simp add: r)
  have t: "take 4 (drop 0 ?r) = ?a" "take 2 (drop 4 ?r) = ?b" "take 3 (drop 6 ?r) = ?c" "?r ! 9 = f"
    by (simp_all add: r nth_append)
  show "nvar_signature (wr_bytes m p ?r) p = NVAR_SIGNATURE"
    using rd_wr_sub [of 0 4 ?r m p] t(1) l by (simp add: nvar_signature_def le_nat_le_bytes NVAR_SIGNATURE_def)
  show "nvar_size (wr_bytes m p ?r) p = sz"
    using rd_wr_sub [of 4 2 ?r m p] t(2) l assms by (simp add: nvar_size_def le_nat_le_bytes)
  show "nvar_next (wr_bytes m p ?r) p = FLASH_EMPTY_NEXT"
    using rd_wr_sub [of 6 3 ?r m p] t(3) l by (simp add: nvar_next_def le_nat_le_bytes FLASH_EMPTY_NEXT_def)
  show "nvar_flags (wr_bytes m p ?r) p = f"
    using t(4) l by (simp add: nvar_flags_def wr_bytes_def)
qed

lemma length_record [simp]: "length (record_bytes sz f body) = 10 + length body"
  by (simp add: record_bytes_def)

lemma drop_record: "drop (10 + k) (record_bytes sz f body) = drop k body"
  by (simp add: record_bytes_def)

lemma NvVarEq_name_c_string: "NvVarEq_name w m a nm = NvVarEq_name w m a (c_string nm)"
  by (induction nm arbitrary: a) (simp_all add: c_string_def)

lemma name_at_fits:
  "0 < w \<Longrightarrow> name_at w m a cs \<Longrightarrow> a + w * (length cs + 1) \<le> e \<Longrightarrow> name_fits w m a e"
proof (induction cs arbitrary: a)
  case Nil
  then show ?case by (simp add: name_fits.simps [of w m a])
next
  case (Cons c cs)
  then show ?case by (simp add: name_fits.simps [of w m a] algebra_simps)
qed

lemma ascii_char: "drop_bit 8 (c :: char16) = 0 \<Longrightarrow> word_of_nat (unat (ucast c :: u8)) = c"
proof -
  assume "drop_bit 8 c = 0"
  then have "c div 256 = 0" by (simp add: drop_bit_eq_div)
  then have "unat (c div 256) = 0" by simp
  then have "unat c < 256" by (simp add: unat_div div_eq_0_iff)
  then have "unat (ucast c :: u8) = unat c" by (simp add: unsigned_ucast_eq take_bit_nat_eq_self)
  then show ?thesis by simp
qed

lemma name_at_ascii:
  "rd_bytes m a (length cs + 1) = map ucast cs @ [0] \<Longrightarrow> \<forall>c\<in>set cs. c \<noteq> 0 \<and> drop_bit 8 c = 0 \<Longrightarrow>
   name_at 1 m a cs"
proof (induction cs arbitrary: a)
  case Nil
  then show ?case by (simp add: name_char_def rd_bytes_Suc)
next
  case (Cons c cs)
  from Cons.prems(1) have "m a = ucast c" "rd_bytes m (Suc a) (length cs + 1) = map ucast cs @ [0]"
    by (simp_all add: rd_bytes_Suc)
  with Cons show ?case using ascii_char [of c] by (simp add: name_char_def)
qed

lemma name_at_wide:
  "rd_bytes m a (2 * length cs + 2) = concat (map (\<lambda>c. le_bytes 2 (unat c)) cs) @ [0, 0] \<Longrightarrow>
   \<forall>c\<in>set cs. c \<noteq> 0 \<Longrightarrow> name_at 2 m a cs"
proof (induction cs arbitrary: a)
  case Nil
  then have "rd 2 m a = 0" by (simp add: rd_def numeral_2_eq_2)
  then show ?case by (simp add: name_char_def)
next
  case (Cons c cs)
  let ?t = "concat (map (\<lambda>c. le_bytes 2 (unat c)) cs) @ [0, 0]"
  have "rd_bytes m a (2 + (2 * length cs + 2)) = le_bytes 2 (unat c) @ ?t"
    using Cons.prems(1) by simp
  then have "rd_bytes m a 2 @ rd_bytes m (a + 2) (2 * length cs + 2) = le_bytes 2 (unat c) @ ?t"
    by (simp only: rd_bytes_append [of m a 2 "2 * length cs + 2"])
  then have e: "rd_bytes m a 2 = le_bytes 2 (unat c)" "rd_bytes m (a + 2) (2 * length cs + 2) = ?t"
    by simp_all
  have "unat c < 256 ^ 2" using unsigned_less [of c, where ?'a = nat] by simp
  then have "rd 2 m a = unat c" using e(1) by (simp add: rd_def)
  with Cons e(2) show ?case by (simp add: name_char_def)
qed

text \<open>A name written by \<^verbatim>\<open>CreateVariableEx\<close> compares equal to itself and to no other.\<close>

lemma name_bytes_at:
  assumes "rd_bytes m a (length (name_bytes nm)) = name_bytes nm"
    and "w = (if name_ascii nm then 1 else 2)"
  shows "name_at w m a (c_string nm)" "w * (length (c_string nm) + 1) = length (name_bytes nm)"
proof -
  have nz: "\<forall>c\<in>set (c_string nm). c \<noteq> 0" by (auto simp: c_string_def dest: set_takeWhileD)
  have lc: "length (concat (map (\<lambda>c. le_bytes 2 (unat c)) cs)) = 2 * length cs" for cs :: "char16 list"
    by (induction cs) auto
  show "w * (length (c_string nm) + 1) = length (name_bytes nm)"
    using assms(2) lc by (simp add: name_bytes_def)
  show "name_at w m a (c_string nm)"
  proof (cases "name_ascii nm")
    case True
    then have "\<forall>c\<in>set (c_string nm). drop_bit 8 c = 0" by (simp add: name_ascii_def list_all_iff)
    with True nz assms name_at_ascii [of m a "c_string nm"] show ?thesis by (simp add: name_bytes_def)
  next
    case False
    with nz assms lc name_at_wide [of m a "c_string nm"] show ?thesis by (simp add: name_bytes_def)
  qed
qed

section \<open>The created record\<close>

text \<open>A fixed creation: the plan, the size, and the store before and after it.\<close>

definition created_mem ::
    "create_plan \<Rightarrow> nat \<Rightarrow> char16 list \<Rightarrow> u8 list \<Rightarrow> u32 \<Rightarrow> u8 list \<Rightarrow> EXT_SEC_FLAGS \<Rightarrow> NVRAM_STORE_INFO
       \<Rightarrow> memory \<Rightarrow> memory" where
  "created_mem cp sz nm g A D sec info m =
     wr_bytes (mem_guid cp info g m) (pEndOfVars info)
       (record_bytes sz (cp_flags cp) (body_bytes cp nm g A D sec))"

locale creation =
  fixes m :: memory and nm :: "char16 list" and g :: "u8 list" and A :: u32 and Data App :: "u8 list"
    and OldVar :: "nat option" and sec :: EXT_SEC_FLAGS and info :: NVRAM_STORE_INFO
    and cp :: create_plan and sz :: nat and m' :: memory and info' :: NVRAM_STORE_INFO
  assumes ok: "create_ok m nm g A Data OldVar sec App info"
    and cp: "cp = plan_create False m nm g A info OldVar (length App)"
    and sz: "sz = cp_Size cp + (length Data + cp_ExtSize cp)"
    and m': "m' = created_mem cp sz nm g A (App @ Data) sec info m"
    and info': "info' = created_info cp sz info"
begin

abbreviation "p \<equiv> pEndOfVars info"
abbreviation "gb \<equiv> guid_bytes cp g"
abbreviation "body \<equiv> body_bytes cp nm g A (App @ Data) sec"
abbreviation "auth \<equiv> has A UEFI23_1_AUTHENTICATED_VARIABLE_ATTRIBUTES"

lemmas fits = create_okD(1) [OF ok cp sz] and small = create_okD(2) [OF ok cp sz]
lemmas d = create_fitsD [OF fits cp sz]
lemmas ps = plan_create_simps [OF cp]

lemma sz16: "sz < 2 ^ 16"
  using small by simp

lemma fields:
  "nvar_signature m' p = NVAR_SIGNATURE" "nvar_size m' p = sz" "nvar_next m' p = FLASH_EMPTY_NEXT"
  "nvar_flags m' p = cp_flags cp"
  unfolding m' created_mem_def by (rule record_fields [OF sz16])+

lemma body_len: "10 + length body = sz"
  using d(13) by simp

lemma parts_len: "length gb + length (name_bytes nm) + length (App @ Data) + length (ext_bytes A sec) = length body"
  by (simp add: body_bytes_def)

lemma gb_len: "length gb = (if has (cp_flags cp) NVRAM_FLAG_GUID then 16 else 1)"
  using d(3) by (simp add: guid_bytes_def)

lemma ext_len: "length (ext_bytes A sec) = (if auth then 43 else 0)"
  by (rule length_ext_bytes [OF d(4)])

lemma rd_body: "k + n \<le> length body \<Longrightarrow> rd_bytes m' (p + 10 + k) n = take n (drop k body)"
  using rd_bytes_wr_sub [of "10 + k" n "record_bytes sz (cp_flags cp) body" "mem_guid cp info g m" p]
  by (simp add: m' created_mem_def drop_record add.assoc)

lemma rd_gb: "rd_bytes m' (p + 10) (length gb) = gb"
  using rd_body [of 0 "length gb"] parts_len by (simp add: body_bytes_def)

lemma rd_name: "rd_bytes m' (p + 10 + length gb) (length (name_bytes nm)) = name_bytes nm"
  using rd_body [of "length gb" "length (name_bytes nm)"] parts_len by (simp add: body_bytes_def)

lemma rd_data:
  "rd_bytes m' (p + 10 + (length gb + length (name_bytes nm))) (length (App @ Data)) = App @ Data"
  using rd_body [of "length gb + length (name_bytes nm)" "length (App @ Data)"] parts_len
  by (simp add: body_bytes_def)

lemma rd_ext:
  "rd_bytes m' (p + 10 + (length gb + length (name_bytes nm) + length (App @ Data))) (length (ext_bytes A sec))
     = ext_bytes A sec"
  using rd_body [of "length gb + length (name_bytes nm) + length (App @ Data)" "length (ext_bytes A sec)"] parts_len
  by (simp add: body_bytes_def)

lemma ext_pos: "p + 10 + (length gb + length (name_bytes nm) + length (App @ Data)) = p + sz - length (ext_bytes A sec)"
  using parts_len body_len by simp

lemma ext_facts:
  "ext_size m' p = (if auth then 43 else 0)" "ext_ok m' p"
  "auth \<Longrightarrow> NvGetExtFlags m' p = p + sz - 43"
  "auth \<Longrightarrow> m' (NvGetExtFlags m' p) = ucast (A AND UEFI23_1_AUTHENTICATED_VARIABLE_ATTRIBUTES)"
proof -
  have e: "rd_bytes m' (p + sz - 43) 43 = ext_bytes A sec" if auth
    using rd_ext that by (simp only: ext_pos ext_len if_True)
  have l43: "43 \<le> sz - 11" if auth using parts_len body_len gb_len ext_len that by (auto split: if_splits)
  have h: "length (take 32 (KeyHash sec)) = 32" if auth using d(4) that by simp
  have x: "rd 2 m' (p + sz - 2) = 43" if auth
  proof -
    have "rd_bytes m' (p + sz - 43) (41 + 2) = ext_bytes A sec" using e that by simp
    then have "rd_bytes m' (p + sz - 43) 41 @ rd_bytes m' (p + sz - 43 + 41) 2 = ext_bytes A sec"
      by (simp only: rd_bytes_append)
    also have "ext_bytes A sec = (ucast (A AND UEFI23_1_AUTHENTICATED_VARIABLE_ATTRIBUTES) # le_bytes 8 (Mc sec)
        @ take 32 (KeyHash sec)) @ le_bytes 2 43"
      using that by (simp add: ext_bytes_def HASH_SHA256_LEN_def)
    finally have "rd_bytes m' (p + sz - 43 + 41) 2 = le_bytes 2 43"
      using h [OF that] by (simp only: append_eq_append_conv length_rd_bytes length_le_bytes simp_thms)
    moreover have "p + sz - 43 + 41 = p + sz - 2" using l43 [OF that] by simp
    ultimately show ?thesis by (simp add: rd_def)
  qed
  show s: "ext_size m' p = (if auth then 43 else 0)"
    using x ps(8) by (simp add: ext_size_def fields NvGetExtSize_def)
  show "ext_ok m' p"
    using s l43 ps(7,8) body_len by (auto simp: ext_ok_def fields)
  show f: "NvGetExtFlags m' p = p + sz - 43" if auth
    using x [OF that] l43 [OF that] by (simp add: NvGetExtFlags_def NvGetExtSize_def fields)
  show "m' (NvGetExtFlags m' p) = ucast (A AND UEFI23_1_AUTHENTICATED_VARIABLE_ATTRIBUTES)" if auth
    using arg_cong [OF e [OF that], of "\<lambda>xs. xs ! 0"] that
    by (simp add: f [OF that]) (simp add: ext_bytes_def)
qed

lemma variable: "NvIsVariable m' p info'"
proof -
  have "cp_flags cp \<noteq> 0xFF"
  proof
    assume "cp_flags cp = 0xFF"
    with ps(3) show False by (simp add: has_def nv_consts)
  qed
  moreover have "NOT ALL_FLAGS = 0" by code_simp
  moreover have "10 < sz" "sz < 0xFFFF"
    using parts_len body_len gb_len small by (auto simp: layout_ok_def split: if_splits)
  moreover have "\<not> has (m' (NvGetExtFlags m' p)) NVRAM_EXT_FLAG_CHECKSUM" if auth
  proof -
    have "(A AND 0x30) AND 1 = 0" by (simp add: and.assoc)
    then have "ucast ((A AND 0x30) AND 1) = (0 :: u8)" by simp
    then show ?thesis using ext_facts(4) [OF that]
      by (simp add: has_def nv_consts) (simp add: unsigned_and_eq and.assoc)
  qed
  moreover have "pEndOfVars info' = p + sz" by (simp add: info' created_info_def)
  ultimately show ?thesis
    using ps(8) unfolding NvIsVariable_def nvar_size_ok_def fields
    by (auto simp: nv_consts has_def [of _ 0])
qed

end

lemma NvIsValid_iff:
  "NvIsValid m p \<longleftrightarrow> has (nvar_flags m p) NVRAM_FLAG_VALID \<and> \<not> has (nvar_flags m p) NVRAM_FLAG_DATA_ONLY"
proof -
  have "NOT FLASH_EMPTY_FLAG = 0" by code_simp
  then show ?thesis by (simp add: NvIsValid_def)
qed

lemma and_exp_if: "(a :: 'a::len word) AND 2 ^ k = (if has a (2 ^ k) then 2 ^ k else 0)"
proof (cases "bit a k")
  case True
  then have "has a (2 ^ k)" by (simp add: has_def and_exp_eq_0_iff_not_bit)
  moreover have "a AND 2 ^ k = 2 ^ k"
  proof (rule bit_word_eqI)
    fix n
    show "bit (a AND 2 ^ k) n \<longleftrightarrow> bit (2 ^ k :: 'a word) n"
      using True by (auto simp: bit_and_iff bit_exp_iff)
  qed
  ultimately show ?thesis by simp
next
  case False
  then show ?thesis by (simp add: has_def and_exp_eq_0_iff_not_bit)
qed

lemma ucast_byte_mask:
  assumes "drop_bit 8 (M :: u32) = 0"
  shows "ucast (ucast (A AND M) :: u8) AND M = A AND M"
proof (rule bit_word_eqI)
  fix n
  have "bit M n \<longrightarrow> n < 8"
  proof (rule ccontr)
    assume "\<not> (bit M n \<longrightarrow> n < 8)"
    then obtain k where "bit M (8 + k)" using le_iff_add [of 8 n] by auto
    with assms bit_drop_bit_eq [of 8 M] show False by (simp add: fun_eq_iff)
  qed
  then show "bit (ucast (ucast (A AND M) :: u8) AND M) n \<longleftrightarrow> bit (A AND M) n"
    by (auto simp: bit_and_iff bit_unsigned_iff)
qed

context creation
begin

lemma name_facts:
  "NvGetName m' p = p + 10 + length gb" "name_width m' p = (if name_ascii nm then 1 else 2)"
  "NvVarEq_name (name_width m' p) m' (NvGetName m' p) nm = Some (NvGetName m' p + length (name_bytes nm))"
  "name_fits (name_width m' p) m' (NvGetName m' p) (p + sz - ext_size m' p)"
proof -
  show n: "NvGetName m' p = p + 10 + length gb"
    by (simp add: NvGetName_def fields gb_len nv_consts)
  show w: "name_width m' p = (if name_ascii nm then 1 else 2)"
    using ps(2) by (simp add: name_width_def fields)
  have "rd_bytes m' (NvGetName m' p) (length (name_bytes nm)) = name_bytes nm"
    using rd_name n by simp
  note a = name_bytes_at [OF this w]
  show "NvVarEq_name (name_width m' p) m' (NvGetName m' p) nm = Some (NvGetName m' p + length (name_bytes nm))"
    using name_at_eq [OF a(1)] a(2) by (simp add: NvVarEq_name_c_string [of _ _ _ nm])
  have "0 < name_width m' p" by (simp add: w)
  moreover have "NvGetName m' p + length (name_bytes nm) \<le> p + sz - ext_size m' p"
    using parts_len body_len ext_len ext_facts(1) n by simp
  ultimately show "name_fits (name_width m' p) m' (NvGetName m' p) (p + sz - ext_size m' p)"
    using name_at_fits [OF _ a(1)] a(2) by simp
qed

lemma guid_index:
  assumes "\<not> has (cp_flags cp) NVRAM_FLAG_GUID"
  shows "cp_guid cp \<le> 255" "cp_guid cp \<le> NextGuid info" "m' (p + 10) = word_of_nat (cp_guid cp)"
    "unat (m' (p + 10)) = cp_guid cp"
proof -
  have "cp_guid cp \<le> NextGuid info"
    using guid_search_le [of m "NvramGuidsAddress info" g "NextGuid info" 0] ps(11) by simp
  moreover have "NextGuid info \<le> 255 \<or> cp_guid cp < NextGuid info"
    using assms ps(1,11) by (auto simp: full_guid_def)
  moreover have "NextGuid info \<le> 256" using d(1) by (simp add: layout_ok_def)
  ultimately show i: "cp_guid cp \<le> 255" "cp_guid cp \<le> NextGuid info" by auto
  show "m' (p + 10) = word_of_nat (cp_guid cp)"
    using rd_gb assms by (simp add: guid_bytes_def rd_bytes_Suc)
  with i(1) show "unat (m' (p + 10)) = cp_guid cp" by simp
qed

lemma area: "p + sz \<le> guid_slot info" "guid_slot info + 16 = guid_area info" "p + sz \<le> guid_area info"
  "NvramGuidsAddress info + 16 = NvramAddress info + NvramSize info"
  using d(1,8,9) by (auto simp: layout_ok_def)

lemma m'_out: "i < p \<or> p + sz \<le> i \<Longrightarrow> m' i = mem_guid cp info g m i"
  using body_len by (simp add: m' created_mem_def wr_bytes_out)

lemma m'_old: "i < p \<or> guid_area info \<le> i \<Longrightarrow> m' i = m i"
  using m'_out [of i] area d(3) by (auto simp: mem_guid_def wr_bytes_def)

lemma guid_read: "rd_bytes m' (NvGetGuid m' p info') 16 = g"
proof (cases "has (cp_flags cp) NVRAM_FLAG_GUID")
  case True
  then show ?thesis using rd_gb gb_len by (simp add: NvGetGuid_def fields guid_bytes_def sizeof_NVAR_def)
next
  case False
  note gi = guid_index [OF False]
  let ?a = "NvramGuidsAddress info - 16 * cp_guid cp"
  have "NvramGuidsAddress info' = NvramGuidsAddress info" by (simp add: info' created_info_def)
  with False gi(4) have a: "NvGetGuid m' p info' = ?a" by (simp add: NvGetGuid_def fields nv_consts)
  show ?thesis
  proof (cases "cp_guid cp = NextGuid info")
    case True
    with False have ng: "new_guid cp info" by (simp add: new_guid_def)
    have "m' i = mem_guid cp info g m i" if "?a \<le> i" for i
      using m'_out [of i] that True area(1) by (simp add: guid_slot_def)
    then have "rd_bytes m' ?a 16 = rd_bytes (mem_guid cp info g m) ?a 16"
      by (intro nth_equalityI) auto
    with True ng d(3) show ?thesis
      using rd_bytes_wr_same [of m "guid_slot info" g] by (simp add: a mem_guid_def guid_slot_def)
  next
    case ne: False
    with gi(2) have lt: "cp_guid cp < NextGuid info" by simp
    have "rd_bytes m ?a 16 = g"
      using guid_search_found [of m "NvramGuidsAddress info" g "NextGuid info" 0] lt ps(11) by simp
    moreover have "guid_area info \<le> ?a" using lt area(4) d(7) by (simp add: guid_area_def)
    then have "rd_bytes m' ?a 16 = rd_bytes m ?a 16" using m'_old by (intro nth_equalityI) auto
    ultimately show ?thesis by (simp add: a)
  qed
qed

lemma found: "NvVarEq m' p nm g info' = Some (length (name_bytes nm))"
  using name_facts guid_read by (simp add: NvVarEq_def sizeof_GUID_def)

lemma info_simps [simp]:
  "NvramAddress info' = NvramAddress info" "NvramSize info' = NvramSize info"
  "NvramGuidsAddress info' = NvramGuidsAddress info" "pFirstVar info' = pFirstVar info"
  "Flags info' = Flags info" "pEndOfVars info' = p + sz" "LastVarSize info' = sz"
  "NextGuid info' = (if new_guid cp info then Suc (NextGuid info) else NextGuid info)"
  using sz16 by (simp_all add: info' created_info_def)

lemma new_var_ok: "var_ok m' info' p"
proof -
  have "has (cp_flags cp) NVRAM_FLAG_GUID \<or> unat (m' (p + 10)) < NextGuid info'"
  proof (cases "has (cp_flags cp) NVRAM_FLAG_GUID")
    case False
    from guid_index [OF False] False show ?thesis by (auto simp: new_guid_def)
  qed simp
  with name_facts(4) show ?thesis by (simp add: var_ok_def fields sizeof_NVAR_def)
qed

lemma new_layout: "layout_ok info'" "erased m' (pEndOfVars info') (guid_area info')"
proof -
  have n: "NextGuid info < 256" if "new_guid cp info" using guid_index that by (auto simp: new_guid_def)
  with d(1,7) show l: "layout_ok info'" by (auto simp: layout_ok_def)
  have "m' i = 0xFF" if "p + sz \<le> i" "i < guid_area info'" for i
  proof -
    have "mem_guid cp info g m i = m i"
      using that area d(3) by (auto simp: mem_guid_def wr_bytes_def guid_area_def)
    moreover have "i < guid_area info" using that by (auto simp: guid_area_def split: if_splits)
    ultimately show ?thesis using that m'_out [of i] erasedD [OF d(2), of i] by simp
  qed
  then show "erased m' (pEndOfVars info') (guid_area info')" by (simp add: erased_def)
qed

lemma appended: "appends m info m' info'"
proof -
  have "same_on (pFirstVar info) p m m'" "same_on (guid_area info) (NvramAddress info + NvramSize info) m m'"
    using m'_old by (auto simp: same_on_def)
  then have "store_grows m info m' info'" by (simp add: store_grows_def)
  with new_layout variable ext_facts(2) new_var_ok fields show ?thesis by (simp add: appends_def)
qed

lemma valid: "NvIsValid m' p"
  using ps(3,4) by (simp add: NvIsValid_iff fields)

lemma data_read:
  "NvGetData m' p (length (name_bytes nm)) info' =
     Some (p + 10 + (length gb + length (name_bytes nm)), length (App @ Data))"
proof -
  have n: "NvGetDataNvar m' p info' = Some p"
    using variable by (simp add: NvGetDataNvar_def NvGetDataNvar_loop.simps [of _ _ p] fields)
  let ?o = "10 + (length (name_bytes nm) + length gb)"
  have x: "(if has (nvar_flags m' p) NVRAM_FLAG_EXT_HEDER then rd 2 m' (NvGetExtSize m' p) else 0)
      = length (ext_bytes A sec)" using ext_facts(1) ext_len by (simp add: ext_size_def)
  have s: "sz < 2 ^ 64" using d(10) by simp
  have "uintn_sub (uintn_sub sz ?o) (length (ext_bytes A sec)) = length (App @ Data)"
    using parts_len body_len s by simp
  with n x ps(3) gb_len show ?thesis
    by (cases "has (cp_flags cp) NVRAM_FLAG_GUID") (simp_all add: NvGetData_def Let_def fields nv_consts)
qed

lemma attributes:
  "nvar_attributes m' p info' =
     EFI_VARIABLE_BOOTSERVICE_ACCESS
     OR (A AND (EFI_VARIABLE_RUNTIME_ACCESS OR EFI_VARIABLE_HARDWARE_ERROR_RECORD
                OR UEFI23_1_AUTHENTICATED_VARIABLE_ATTRIBUTES))
     OR (if has (Flags info) NVRAM_STORE_FLAG_NON_VALATILE then EFI_VARIABLE_NON_VOLATILE else 0)"
proof -
  have 4: "A AND 4 = (if has A 4 then 4 else 0)" and 8: "A AND 8 = (if has A 8 then 8 else 0)"
    using and_exp_if [of A 2] and_exp_if [of A 3] by simp_all
  have s: "A AND 60 = (A AND 4) OR (A AND 8) OR (A AND 48)"
    by (simp flip: bit.conj_disj_distrib)
  have x: "(if auth then ucast (m' (NvGetExtFlags m' p)) AND UEFI23_1_AUTHENTICATED_VARIABLE_ATTRIBUTES else 0)
      = A AND UEFI23_1_AUTHENTICATED_VARIABLE_ATTRIBUTES"
  proof (cases auth)
    case True
    have "ucast (ucast (A AND 0x30) :: u8) AND 0x30 = A AND (0x30 :: u32)"
      by (rule ucast_byte_mask) code_simp
    with True ext_facts(4) show ?thesis by (simp add: nv_consts)
  next
    case False
    then show ?thesis by (simp add: has_def)
  qed
  show ?thesis
    unfolding nvar_attributes_def fields ps(5-7) x
    by (simp add: nv_consts s 4 8 or.assoc or.commute or.left_commute)
qed

end

section \<open>Creating a variable in a well-formed store\<close>

lemma name_at_unique: "name_at w m a cs \<Longrightarrow> NvVarEq_name w m a s = Some q \<Longrightarrow> c_string s = cs"
proof (induction cs arbitrary: a s)
  case Nil
  then show ?case by (cases s) (auto simp: c_string_def split: if_splits)
next
  case (Cons c cs)
  then show ?case by (cases s) (auto simp: c_string_def split: if_splits)
qed

context creation
begin

lemma found_only:
  assumes "NvVarEq m' p s h info' \<noteq> None"
  shows "c_string s = c_string nm" "h = g"
proof -
  from assms obtain q where q: "NvVarEq_name (name_width m' p) m' (NvGetName m' p) s = Some q"
    and h: "rd_bytes m' (NvGetGuid m' p info') 16 = h"
    by (auto simp: NvVarEq_def sizeof_GUID_def split: option.splits if_splits)
  have "rd_bytes m' (NvGetName m' p) (length (name_bytes nm)) = name_bytes nm"
    using rd_name name_facts(1) by simp
  from name_at_unique [OF name_bytes_at(1) [OF this name_facts(2)] q] h guid_read
  show "c_string s = c_string nm" "h = g" by simp_all
qed

lemma get_new:
  assumes "store_ok m info" and "NvFindVariable m nm g info = None"
    and "ga_VariableName b = Some nm" "ga_VendorGuid b = Some g" "ga_DataSize b = Some n" "ga_Data b"
    and "length App + length Data \<le> n"
  shows "NvGetVariable m' b info' =
    \<lparr>gr_Status = EFI_SUCCESS,
     gr_Attributes = if ga_Attributes b then Some (nvar_attributes m' p info') else None,
     gr_DataSize = Some (length (App @ Data)), gr_Data = Some (App @ Data), gr_Var = Some p\<rparr>"
proof -
  have "NvFindVariable m' nm g info' = Some (p, length (name_bytes nm))"
    using appends_find [OF assms(1) appended] assms(2) valid found by simp
  with data_read rd_data assms(7) show ?thesis
    using NvGetVariable_cases [OF assms(3-5)] assms(6) by simp
qed

lemma get_other:
  assumes s: "store_ok m info" and b: "ga_VariableName b = Some s" "ga_VendorGuid b = Some h"
    and ne: "(c_string s, h) \<noteq> (c_string nm, g)"
  shows "NvGetVariable m' b info' = NvGetVariable m b info"
proof (cases "NvFindVariable m s h info")
  case (Some r)
  then show ?thesis by (intro appends_get_old [OF s appended b]) simp
next
  case None
  have "NvVarEq m' p s h info' = None" using found_only [of s h] ne by blast
  then have f': "NvFindVariable m' s h info' = None"
    using appends_find [OF s appended, of s h] None by simp
  show ?thesis
  proof (cases "get_args_ok b")
    case True
    with b obtain n where "ga_DataSize b = Some n" "ga_Data b \<or> n = 0" by (auto simp: get_args_ok_def)
    from NvGetVariable_cases [OF b this] None f' show ?thesis by simp
  qed (simp add: NvGetVariable_bad_args)
qed

end

text \<open>The state after a creation, and that every update interface reaches it.\<close>

definition create_result ::
    "memory \<Rightarrow> char16 list \<Rightarrow> u8 list \<Rightarrow> u32 \<Rightarrow> u8 list \<Rightarrow> nat option \<Rightarrow> EXT_SEC_FLAGS \<Rightarrow> u8 list
       \<Rightarrow> NVRAM_STORE_INFO \<Rightarrow> NVRAM_STORE_INFO \<times> memory" where
  "create_result m nm g A Data OldVar sec App info =
     (let cp = plan_create False m nm g A info OldVar (length App);
          sz = cp_Size cp + (length Data + cp_ExtSize cp)
      in (created_info cp sz info, created_mem cp sz nm g A (App @ Data) sec info m))"

lemma create_result_creation:
  assumes "create_ok m nm g A Data OldVar sec App info"
    and "create_result m nm g A Data OldVar sec App info = (info', m')"
  obtains cp sz where "creation m nm g A Data App OldVar sec info cp sz m' info'"
  using assms that by (auto simp: create_result_def Let_def intro!: creation.intro)

lemma CreateVariableEx_result:
  assumes "write_interface WB" and "create_ok m nm g A Data OldVar sec App info"
    and "create_result m nm g A Data OldVar sec App info = (info', m')"
  shows "CreateVariableEx WB False nm g A Data OldVar sec App info m = (EFI_SUCCESS, info', m')"
  using write_interface.CreateVariableEx_success [OF assms(1) create_okD(1) [OF assms(2) refl refl] refl refl] assms(3)
  by (simp add: create_result_def created_mem_def Let_def)


text \<open>A record whose size field has wrapped to less than a header ends the iteration.\<close>

lemma oversized_invisible:
  assumes s: "store_ok m info" and c: "create_fits m nm g A Data OldVar sec App info"
    and cp: "cp = plan_create False m nm g A info OldVar (length App)"
    and sz: "sz = cp_Size cp + (length Data + cp_ExtSize cp)"
    and m': "m' = created_mem cp sz nm g A (App @ Data) sec info m" and info': "info' = created_info cp sz info"
    and big: "sz mod 2 ^ 16 \<le> 10"
  shows "nvars m' info' = nvars m info" "NvFindVariable m' n h info' = NvFindVariable m n h info"
proof -
  let ?p = "pEndOfVars info"
  note d = create_fitsD [OF c cp sz]
  have i: "NvramAddress info' = NvramAddress info" "NvramSize info' = NvramSize info"
    "NvramGuidsAddress info' = NvramGuidsAddress info" "pFirstVar info' = pFirstVar info" "Flags info' = Flags info"
    "pEndOfVars info' = ?p + sz" "NextGuid info \<le> NextGuid info'"
    by (simp_all add: info' created_info_def)
  have gs: "guid_slot info + 16 = guid_area info" "?p + sz \<le> guid_slot info" by (rule d)+
  have out: "m' j = m j" if "j < ?p \<or> guid_area info \<le> j" for j
    using that gs d(3,13) by (auto simp: m' created_mem_def mem_guid_def wr_bytes_out)
  have sm: "same_on (pFirstVar info) ?p m m'" "same_on (guid_area info) (NvramAddress info + NvramSize info) m m'"
    using out by (auto simp: same_on_def)
  then have g: "store_grows m info m' info'" using i by (simp add: store_grows_def)
  have "nvar_size m' ?p = sz mod 2 ^ 16"
  proof -
    have "rd_bytes m' (?p + 4) 2 = le_bytes 2 sz"
      using rd_bytes_wr_sub [of 4 2 "record_bytes sz (cp_flags cp) (body_bytes cp nm g A (App @ Data) sec)"
          "mem_guid cp info g m" ?p]
      by (simp add: m' created_mem_def record_bytes_def)
    then show ?thesis by (simp add: nvar_size_def rd_def le_nat_le_bytes)
  qed
  with big have ns: "\<not> nvar_size_ok m' ?p info'" by (simp add: nvar_size_ok_def nv_consts)
  then have nv: "\<not> NvIsVariable m' ?p info'" using NvIsVariable_size_ok by blast
  from ns nv have e: "nvars_from m' info' ?p = []"
    by (simp add: nvars_from.simps [of m' info' ?p] NvGetNextNvar_loop.simps [of m' info' ?p])
  have l: "?p + sz - pFirstVar info < 2 ^ 32"
    using d(1,7) by (auto simp: layout_ok_def)
  have "chain m info (pFirstVar info)" using s by (simp add: store_ok_def)
  from chain_grow [OF this sm(1)] i l e
  have n: "nvars_from m' info' (pFirstVar info) = nvars_from m info (pFirstVar info)" by simp
  have old: "NvIsVariable m' p info'" if "p \<in> set (nvars m info)" for p
  proof -
    note so = store_okD [OF s that]
    have "pEndOfVars info' - p < 2 ^ 32" using l i so(2) by simp
    from NvIsVariable_grow [OF so(1,5) grows_same(1) [OF s g that] _ this] i show ?thesis by simp
  qed
  show nn: "nvars m' info' = nvars m info"
  proof (cases "pFirstVar info = ?p")
    case True
    with nv i show ?thesis by (simp add: nvars_def store_nvars [OF s])
  next
    case False
    with s have v: "NvIsVariable m (pFirstVar info) info" by (simp add: store_ok_def)
    then have "pFirstVar info \<in> set (nvars m info)" by (simp add: nvars_def nvars_from_variable)
    from old [OF this] n i v show ?thesis by (simp add: nvars_def store_nvars [OF s])
  qed
  have hc: "nvar_flags m' p = nvar_flags m p" if "p \<in> set (nvars m info)" for p
    by (rule header_cong(4) [OF grows_same(2) [OF s g that]])
  then have valid: "valid_nvars m' info' = valid_nvars m info"
    unfolding valid_nvars_def nn by (intro filter_cong) (auto simp: NvIsValid_def)
  have eq: "NvVarEq m' p n h info' = NvVarEq m p n h info" if "p \<in> set (valid_nvars m info)" for p
  proof -
    from that have "p \<in> set (nvars m info)" "\<not> has (nvar_flags m p) NVRAM_FLAG_DATA_ONLY"
      by (auto simp: valid_nvars_def NvIsValid_def)
    from NvVarEq_grow(1) [OF s g this] show ?thesis .
  qed
  have "List.find (\<lambda>p. NvVarEq m' p n h info' \<noteq> None) (valid_nvars m info) =
      List.find (\<lambda>p. NvVarEq m p n h info \<noteq> None) (valid_nvars m info)"
    by (rule find_cong_set) (simp add: eq)
  moreover have "p \<in> set (valid_nvars m info)" if "List.find P (valid_nvars m info) = Some p" for P p
    using that by (metis find_Some_iff nth_mem)
  ultimately show "NvFindVariable m' n h info' = NvFindVariable m n h info"
    using eq by (cases "List.find (\<lambda>p. NvVarEq m p n h info \<noteq> None) (valid_nvars m info)")
      (simp_all add: NvFindVariable_find valid del: not_None_eq)
qed

section \<open>An example store\<close>

text \<open>An erased store of 1 KB, and the store after the variable \<open>A\<close> was created in it.\<close>

definition blank :: memory where
  "blank = (\<lambda>_. 0xFF)"

definition blank_info :: NVRAM_STORE_INFO where
  "blank_info = \<lparr>NvramAddress = 0x10000, NvramSize = 0x400, NvramGuidsAddress = 0x103F0,
     pEndOfVars = 0x10000, pFirstVar = 0x10000, NextGuid = 0, LastVarSize = 0, pLastReturned = None,
     Flags = NVRAM_STORE_FLAG_NON_VALATILE\<rparr>"

definition guid_A :: "u8 list" where
  "guid_A = [0x11, 0x22, 0x33, 0x44, 0x55, 0x66, 0x77, 0x88, 0x99, 0xAA, 0xBB, 0xCC, 0xDD, 0xEE, 0, 1]"

definition guid_B :: "u8 list" where
  "guid_B = replicate 16 0x42"

definition store_A :: "NVRAM_STORE_INFO \<times> memory" where
  "store_A = create_result blank [65] guid_A 7 [1, 2, 3] None no_ext_flags [] blank_info"

lemma create_okI:
  assumes "store_ok m info" and "length g = 16"
    and "has A UEFI23_1_AUTHENTICATED_VARIABLE_ATTRIBUTES \<longrightarrow> length (KeyHash sec) = 32"
    and "App = [] \<or> has A EFI_VARIABLE_APPEND_WRITE"
    and "create_size m nm g A Data OldVar App info < 0xFFFF"
    and "IsEnoughSpace info (create_size m nm g A Data OldVar App info)"
  shows "create_ok m nm g A Data OldVar sec App info"
  using assms by (simp add: create_ok_def create_fits_def store_ok_def)

lemma blank_ok: "store_ok blank blank_info"
proof -
  have "layout_ok blank_info" by code_simp
  moreover have "nvars blank blank_info = []" by code_simp
  moreover have "erased blank lo hi" for lo hi by (simp add: erased_def blank_def)
  moreover have "pFirstVar blank_info = pEndOfVars blank_info" by (simp add: blank_info_def)
  ultimately show ?thesis by (simp add: store_ok_def links_inj_def)
qed

lemma create_A_ok: "create_ok blank [65] guid_A 7 [1, 2, 3] None no_ext_flags [] blank_info"
  by (rule create_okI [OF blank_ok]) code_simp+

interpretation exA: creation blank "[65]" guid_A 7 "[1, 2, 3]" "[]" None no_ext_flags blank_info
  "plan_create False blank [65] guid_A 7 blank_info None 0" 16 "snd store_A" "fst store_A"
proof unfold_locales
  have s: "cp_Size (plan_create False blank [65] guid_A 7 blank_info None (length []))
      + (length [1, 2, 3 :: u8] + cp_ExtSize (plan_create False blank [65] guid_A 7 blank_info None (length []))) = 16"
    by code_simp
  then show "16 = cp_Size (plan_create False blank [65] guid_A 7 blank_info None 0)
      + (length [1, 2, 3 :: u8] + cp_ExtSize (plan_create False blank [65] guid_A 7 blank_info None 0))"
    by simp
  from s show "snd store_A = created_mem (plan_create False blank [65] guid_A 7 blank_info None 0) 16 [65]
      guid_A 7 ([] @ [1, 2, 3]) no_ext_flags blank_info blank"
    "fst store_A = created_info (plan_create False blank [65] guid_A 7 blank_info None 0) 16 blank_info"
    by (simp_all only: store_A_def create_result_def Let_def fst_conv snd_conv list.size(3))
qed (use create_A_ok in simp_all)

lemma store_A_ok: "store_ok (snd store_A) (fst store_A)"
  by (rule appends_store_ok [OF blank_ok exA.appended])

lemma create_B_ok: "create_ok (snd store_A) [0x3b2] guid_B 0x23 [9] None (no_ext_flags\<lparr>KeyHash := replicate 32 5\<rparr>) [] (fst store_A)"
  by (rule create_okI [OF store_A_ok]) code_simp+

section \<open>Properties\<close>

text \<open>C1: create then get.  In a well-formed store, through an update interface that programs every
  byte sequence that only clears bits (the RAM interface, or the flash interface on a working part),
  \<^verbatim>\<open>CreateVariable\<close> of a variable that is not in the store and fits in the free space succeeds, and
  \<^verbatim>\<open>NvGetVariable\<close> then returns exactly the data, with the attributes the variable was created with:
  boot-service access always, runtime access, hardware error record and the authenticated write bits
  as asked for, and the volatility of the store.\<close>

theorem CreateVariable_roundtrip:
  assumes "write_interface WB" and "store_ok m info"
    and "create_ok m nm g A Data OldVar sec [] info" and "NvFindVariable m nm g info = None"
    and "length Data \<le> n"
  shows "\<exists>info' m'. CreateVariable WB False nm g A Data OldVar sec info m = (EFI_SUCCESS, info', m')
    \<and> NvGetVariable m' \<lparr>ga_VariableName = Some nm, ga_VendorGuid = Some g, ga_Attributes = True,
         ga_DataSize = Some n, ga_Data = True\<rparr> info' =
      \<lparr>gr_Status = EFI_SUCCESS,
       gr_Attributes = Some (EFI_VARIABLE_BOOTSERVICE_ACCESS
         OR (A AND (EFI_VARIABLE_RUNTIME_ACCESS OR EFI_VARIABLE_HARDWARE_ERROR_RECORD
                    OR UEFI23_1_AUTHENTICATED_VARIABLE_ATTRIBUTES))
         OR (if has (Flags info) NVRAM_STORE_FLAG_NON_VALATILE then EFI_VARIABLE_NON_VOLATILE else 0)),
       gr_DataSize = Some (length Data), gr_Data = Some Data, gr_Var = Some (pEndOfVars info)\<rparr>"
proof -
  obtain info' m' where r: "create_result m nm g A Data OldVar sec [] info = (info', m')" by fastforce
  obtain cp sz where c: "creation m nm g A Data [] OldVar sec info cp sz m' info'"
    using create_result_creation [OF assms(3) r] by blast
  from CreateVariableEx_result [OF assms(1,3) r] assms(5)
    creation.get_new [OF c assms(2,4)] creation.attributes [OF c]
  show ?thesis by (simp add: CreateVariable_def)
qed

theorem CreateVariable_roundtrip_witness:
  "\<exists>info' m'. CreateVariable MemProgram False [0x3b2] guid_B 0x23 [9] None
       (no_ext_flags\<lparr>KeyHash := replicate 32 5\<rparr>) (fst store_A) (snd store_A) = (EFI_SUCCESS, info', m')
    \<and> gr_Data (NvGetVariable m' \<lparr>ga_VariableName = Some [0x3b2], ga_VendorGuid = Some guid_B,
         ga_Attributes = True, ga_DataSize = Some 4, ga_Data = True\<rparr> info') = Some [9]"
proof -
  have f: "NvFindVariable (snd store_A) [0x3b2] guid_B (fst store_A) = None" by code_simp
  have "length [9 :: u8] \<le> 4" by simp
  from CreateVariable_roundtrip [OF memp.write_interface_axioms store_A_ok create_B_ok f this]
  show ?thesis by auto
qed

text \<open>C4: creating a variable keeps the store well formed and changes nothing else: for every other
  name or GUID, \<^verbatim>\<open>NvGetVariable\<close> returns the same status, attributes and data as before, whatever its
  arguments, and the record is appended at the end of the list of records.\<close>

theorem CreateVariable_frame:
  assumes "write_interface WB" and "store_ok m info"
    and "create_ok m nm g A Data OldVar sec [] info"
    and "CreateVariable WB False nm g A Data OldVar sec info m = (Status, info', m')"
  shows "store_ok m' info' \<and> nvars m' info' = nvars m info @ [pEndOfVars info]
    \<and> (\<forall>b s h. ga_VariableName b = Some s \<and> ga_VendorGuid b = Some h
          \<and> (c_string s, h) \<noteq> (c_string nm, g) \<longrightarrow>
        NvGetVariable m' b info' = NvGetVariable m b info)"
proof -
  obtain i' n' where r: "create_result m nm g A Data OldVar sec [] info = (i', n')" by fastforce
  obtain cp sz where c: "creation m nm g A Data [] OldVar sec info cp sz n' i'"
    using create_result_creation [OF assms(3) r] by blast
  from CreateVariableEx_result [OF assms(1,3) r] assms(4) have e: "i' = info'" "n' = m'"
    by (simp_all add: CreateVariable_def)
  note c = c [unfolded e]
  from appends_store_ok [OF assms(2) creation.appended [OF c]]
    appends_nvars(1) [OF assms(2) creation.appended [OF c]] creation.get_other [OF c assms(2)]
  show ?thesis by auto
qed

theorem CreateVariable_frame_witness:
  "\<exists>Status info' m'. CreateVariable MemProgram False [0x3b2] guid_B 0x23 [9] None
       (no_ext_flags\<lparr>KeyHash := replicate 32 5\<rparr>) (fst store_A) (snd store_A) = (Status, info', m')
    \<and> nvars m' info' = [0x10000, 0x10010]
    \<and> NvGetVariable m' \<lparr>ga_VariableName = Some [65], ga_VendorGuid = Some guid_A, ga_Attributes = True,
         ga_DataSize = Some 4, ga_Data = True\<rparr> info'
      = NvGetVariable (snd store_A) \<lparr>ga_VariableName = Some [65], ga_VendorGuid = Some guid_A,
         ga_Attributes = True, ga_DataSize = Some 4, ga_Data = True\<rparr> (fst store_A)"
proof -
  let ?C = "CreateVariable MemProgram False [0x3b2] guid_B 0x23 [9] None
       (no_ext_flags\<lparr>KeyHash := replicate 32 5\<rparr>) (fst store_A) (snd store_A)"
  obtain Status info' m' where c: "?C = (Status, info', m')" by (metis prod_cases3)
  have n: "nvars (snd store_A) (fst store_A) = [0x10000]" "pEndOfVars (fst store_A) = 0x10010" by code_simp+
  have "(c_string [65 :: char16], guid_A) \<noteq> (c_string [0x3b2], guid_B)" by code_simp
  with CreateVariable_frame [OF memp.write_interface_axioms store_A_ok create_B_ok c] n c
  show ?thesis by auto
qed



end
