(* ===== verification/NvramUpdate.thy ===== *)
theory NvramUpdate
  imports NvramCreate
begin

text \<open>
  Rewriting the header of one record: \<^verbatim>\<open>DeleteVariable\<close> clears the validity flag of a record,
  \<^verbatim>\<open>UpdateVariable\<close> appends a data-only record and links the last record of the variable to it.
  Both keep the store well formed and leave every other variable alone.
\<close>

section \<open>Records of a store do not overlap\<close>

lemma chain_disjoint:
  "chain m info a \<Longrightarrow> p \<in> set (nvars_from m info a) \<Longrightarrow> q \<in> set (nvars_from m info a) \<Longrightarrow> p < q \<Longrightarrow>
   p + nvar_size m p \<le> q"
proof (induction m info a rule: chain.induct)
  case (1 m info a)
  show ?case
  proof (cases "a = pEndOfVars info")
    case True
    with "1.prems" show ?thesis by simp
  next
    case False
    with "1.prems"(1) have a: "a < pEndOfVars info" "rec_ok m info a"
      and c: "chain m info (a + nvar_size m a)"
      by (simp_all add: chain.simps [of m info a] split: if_splits)
    note n = nvars_from_chain [OF a]
    have ge: "a + nvar_size m a \<le> r" if "r \<in> set (nvars_from m info (a + nvar_size m a))" for r
      using nvars_from_range [OF that] by simp
    from "1.prems"(2-4) n ge [of p] ge [of q] "1.IH" [OF False conjI [OF a] c] show ?thesis
      by (auto split: if_splits)
  qed
qed

lemma nvars_disjoint:
  assumes "store_ok m info" and "p \<in> set (nvars m info)" and "q \<in> set (nvars m info)" and "p \<noteq> q"
  shows "p + nvar_size m p \<le> q \<or> q + nvar_size m q \<le> p"
proof -
  have c: "chain m info (pFirstVar info)" using assms(1) by (simp add: store_ok_def)
  note d = chain_disjoint [OF c, folded store_nvars [OF assms(1)]]
  from assms(4) d [OF assms(2,3)] d [OF assms(3,2)] show ?thesis by (cases "p < q") auto
qed

section \<open>Rewriting the link and the flags of one record\<close>

definition patches :: "memory \<Rightarrow> NVRAM_STORE_INFO \<Rightarrow> nat \<Rightarrow> memory \<Rightarrow> bool" where
  "patches m info p m' \<longleftrightarrow>
     p \<in> set (nvars m info) \<and> (\<forall>i. i < p + 6 \<or> p + 10 \<le> i \<longrightarrow> m' i = m i)
     \<and> body_same m m' p \<and> NvIsVariable m' p info"

lemma patch_body:
  assumes s: "store_ok m info" and pt: "patches m info p m'" and q: "q \<in> set (nvars m info)"
  shows "body_same m m' q" "q \<noteq> p \<Longrightarrow> same_on q (q + nvar_size m q) m m'"
proof -
  from pt have p: "p \<in> set (nvars m info)" and o: "\<And>i. i < p + 6 \<or> p + 10 \<le> i \<Longrightarrow> m' i = m i"
    by (auto simp: patches_def)
  show sm: "same_on q (q + nvar_size m q) m m'" if "q \<noteq> p"
    using nvars_disjoint [OF s p q] that store_okD(3) [OF s p] o by (auto simp: same_on_def)
  show "body_same m m' q"
    using pt body_sameI [OF sm store_okD(3) [OF s q]] by (cases "q = p") (auto simp: patches_def)
qed

lemma patch_chain:
  assumes "p + 10 < pEndOfVars info" "pEndOfVars info < 2 ^ 32 + p"
    and "\<And>i. i < p + 6 \<or> p + 10 \<le> i \<Longrightarrow> m' i = m i" and "body_same m m' p"
    and "NvIsVariable m' p info" "NvIsVariable m p info" "ext_ok m p"
  shows "chain m info a \<Longrightarrow> p \<in> set (nvars_from m info a) \<or> p + 10 \<le> a \<Longrightarrow> pEndOfVars info - a < 2 ^ 32 \<Longrightarrow>
    nvars_from m' info a = nvars_from m info a \<and> chain m' info a"
  using assms
proof (induction m info a rule: chain.induct)
  case (1 m info a)
  show ?case
  proof (cases "a = pEndOfVars info")
    case True
    with "1.prems" show ?thesis by simp
  next
    case False
    with "1.prems"(1) have a: "a < pEndOfVars info" "rec_ok m info a"
      and c: "chain m info (a + nvar_size m a)"
      by (simp_all add: chain.simps [of m info a] split: if_splits)
    let ?q = "a + nvar_size m a"
    note n = nvars_from_chain [OF a]
    note sz = nvar_size_okD [OF rec_ok_size [OF a(2)]]
    have q: "p \<in> set (nvars_from m info ?q) \<or> p + 10 \<le> ?q"
      using "1.prems"(2) n sz(1) by (auto split: if_splits)
    have l: "pEndOfVars info - ?q < 2 ^ 32" using "1.prems"(3) by simp
    note ih = "1.IH" [OF False conjI [OF a] c q l "1.prems"(4-10)]
    have r: "rec_ok m' info a \<and> NvIsVariable m' a info = NvIsVariable m a info \<and> nvar_size m' a = nvar_size m a"
    proof (cases "a = p")
      case True
      with "1.prems" body_sameD(2) [OF "1.prems"(7)] body_ext(2) [OF "1.prems"(7,10)] show ?thesis
        by (auto simp: rec_ok_def NvIsVariable_def)
    next
      case ne: False
      have "?q \<le> p \<or> p + 10 \<le> a"
        using "1.prems"(2) n ne nvars_from_range [of p m info ?q] by (auto split: if_splits)
      then have "same_on a ?q m m'" using "1.prems"(6) by (auto simp: same_on_def)
      from rec_ok_grow [OF a(2) this order_refl "1.prems"(3)] show ?thesis by simp
    qed
    then have n': "nvars_from m' info a = (if NvIsVariable m a info then [a] else []) @ nvars_from m' info ?q"
      using nvars_from_chain [OF a(1), of m'] by simp
    from r ih n n' chain_step [OF a(1), of m'] show ?thesis by simp
  qed
qed

lemma patch_nvars:
  assumes s: "store_ok m info" and pt: "patches m info p m'"
  shows "nvars m' info = nvars m info" "chain m' info (pFirstVar info)" "NvIsVariable m' (pFirstVar info) info"
proof -
  from pt have p: "p \<in> set (nvars m info)" and o: "\<And>i. i < p + 6 \<or> p + 10 \<le> i \<Longrightarrow> m' i = m i"
    and b: "body_same m m' p" and v: "NvIsVariable m' p info" by (auto simp: patches_def)
  note d = store_okD [OF s p]
  have l: "pEndOfVars info - pFirstVar info < 2 ^ 32" using s layout_end by (simp add: store_ok_def)
  have c: "chain m info (pFirstVar info)" using s by (simp add: store_ok_def)
  have p': "p \<in> set (nvars_from m info (pFirstVar info)) \<or> p + 10 \<le> pFirstVar info"
    using p store_nvars [OF s] by simp
  have e: "p + 10 < pEndOfVars info" "pEndOfVars info < 2 ^ 32 + p" using d l by auto
  note pc = patch_chain [OF e o b v d(1,5) c p' l]
  then show "chain m' info (pFirstVar info)" by blast
  have "pFirstVar info \<noteq> pEndOfVars info" using d by auto
  then have f: "NvIsVariable m (pFirstVar info) info" using s by (simp add: store_ok_def)
  then have fn: "pFirstVar info \<in> set (nvars m info)" by (simp add: nvars_def nvars_from_variable)
  show vf: "NvIsVariable m' (pFirstVar info) info"
  proof (cases "pFirstVar info = p")
    case False
    from NvIsVariable_grow [OF f store_okD(5) [OF s fn] patch_body(2) [OF s pt fn False]] l show ?thesis by simp
  qed (use v in simp)
  from vf pc store_nvars [OF s] show "nvars m' info = nvars m info" by (simp add: nvars_def)
qed

lemma patch_variable:
  assumes "store_ok m info" and "patches m info p m'" and "q \<in> set (nvars m info)"
  shows "NvIsVariable m' q info"
  using nvars_range [of q m' info] assms(3) patch_nvars(1) [OF assms(1,2)] by simp

lemma patch_same_header:
  assumes "store_ok m info" and "patches m info p m'" and "q \<in> set (nvars m info)" and "q \<noteq> p"
  shows "nvar_next m' q = nvar_next m q" "nvar_flags m' q = nvar_flags m q"
  using header_cong [OF same_on_sub [OF patch_body(2) [OF assms] order_refl, of "q + 10"]]
    store_okD(3) [OF assms(1,3)] by auto

lemma patch_VarEq:
  assumes s: "store_ok m info" and pt: "patches m info p m'" and q: "q \<in> set (nvars m info)"
    and v: "\<not> has (nvar_flags m q) NVRAM_FLAG_DATA_ONLY"
  shows "NvVarEq m' q nm h info = NvVarEq m q nm h info" "var_ok m' info q"
proof -
  have p: "p \<in> set (nvars m info)" and o: "\<And>i. i < p + 6 \<or> p + 10 \<le> i \<Longrightarrow> m' i = m i"
    using pt by (auto simp: patches_def)
  have "pEndOfVars info \<le> guid_area info" using s by (auto simp: store_ok_def layout_ok_def guid_area_def)
  then have "same_on (guid_area info) (NvramAddress info + NvramSize info) m m'"
    using store_okD(3,4) [OF s p] o by (auto simp: same_on_def)
  from NvVarEq_body [OF s q v patch_body(1) [OF s pt q] refl order_refl this]
  show "NvVarEq m' q nm h info = NvVarEq m q nm h info" "var_ok m' info q" by auto
qed

lemma patch_store_ok:
  assumes s: "store_ok m info" and pt: "patches m info p m'"
    and l: "link_ok m' info p" and i: "links_inj m' info"
  shows "store_ok m' info"
proof -
  note n = patch_nvars [OF s pt]
  have p: "p \<in> set (nvars m info)" and o: "\<And>i. i < p + 6 \<or> p + 10 \<le> i \<Longrightarrow> m' i = m i"
    using pt by (auto simp: patches_def)
  have "erased m' (pEndOfVars info) (guid_area info)"
    using s o store_okD(3,4) [OF s p] by (auto simp: store_ok_def erased_def)
  moreover have "var_ok m' info q" if q: "q \<in> set (nvars m info)" for q
  proof (cases "has (nvar_flags m q) NVRAM_FLAG_DATA_ONLY")
    case True
    with body_sameD(7) [OF patch_body(1) [OF s pt q]] show ?thesis by (simp add: var_ok_def)
  next
    case False
    from patch_VarEq(2) [OF s pt q False] show ?thesis .
  qed
  moreover have "link_ok m' info q" if q: "q \<in> set (nvars m info)" for q
  proof (cases "q = p")
    case False
    from store_okD(7) [OF s q] patch_same_header(1) [OF s pt q False] n(1)
      body_sameD(7) [OF patch_body(1) [OF s pt, of "q + nvar_next m q"]]
    show ?thesis by (auto simp: link_ok_def)
  qed (use l in simp)
  ultimately show ?thesis using s n i by (simp add: store_ok_def)
qed

section \<open>Where the data of a variable is\<close>

text \<open>The data area of a record, as \<^verbatim>\<open>NvGetData\<close> computes it from the last record of the variable.\<close>

definition data_at :: "memory \<Rightarrow> nat \<Rightarrow> nat \<Rightarrow> nat \<times> nat" where
  "data_at m q k =
     (let off = 10 + (if has (nvar_flags m q) NVRAM_FLAG_DATA_ONLY then 0
                      else k + (if has (nvar_flags m q) NVRAM_FLAG_GUID then 16 else 1))
      in (q + off, uintn_sub (uintn_sub (nvar_size m q) off) (ext_size m q)))"

lemma NvGetData_at: "NvGetData m p k info = map_option (\<lambda>q. data_at m q k) (NvGetDataNvar m p info)"
  by (cases "NvGetDataNvar m p info") (auto simp: NvGetData_def data_at_def ext_size_def Let_def nv_consts)

lemma data_at_body: "body_same m m' q \<Longrightarrow> ext_ok m q \<Longrightarrow> data_at m' q k = data_at m q k"
  using body_sameD [of m m' q] body_ext [of m m' q] by (simp add: data_at_def Let_def)

lemma NvGetDataNvar_in:
  "store_ok m info \<Longrightarrow> p \<in> set (nvars m info) \<Longrightarrow> NvGetDataNvar m p info = Some q \<Longrightarrow> q \<in> set (nvars m info)"
  using NvGetDataNvar_loop_in [of m info p None q] by (auto simp: NvGetDataNvar_def)

text \<open>The data of a variable lies behind the header of a record.\<close>

lemma data_at_bounds:
  assumes s: "store_ok m info" and f: "NvFindVariable m nm g info = Some (p, k)"
    and q: "NvGetDataNvar m p info = Some q" and d: "data_at m q k = (a, n)"
  shows "q + 10 \<le> a" "a + n \<le> q + nvar_size m q"
proof -
  from NvFindVariable_Some [OF f] have p: "p \<in> set (nvars m info)" "\<not> has (nvar_flags m p) NVRAM_FLAG_DATA_ONLY"
    and e: "NvVarEq m p nm g info = Some k" by (auto simp: valid_nvars_def NvIsValid_def)
  show "q + 10 \<le> a" using d by (auto simp: data_at_def Let_def)
  note qi = NvGetDataNvar_loop_in [OF s p(1) q [unfolded NvGetDataNvar_def]]
  from qi p have "q \<in> set (nvars m info)" by auto
  note dq = store_okD [OF s this]
  show "a + n \<le> q + nvar_size m q"
  proof (cases "has (nvar_flags m q) NVRAM_FLAG_DATA_ONLY")
    case True
    then show ?thesis using d dq(5) rd_bound [of 2 m "q + 4"]
      by (auto simp: data_at_def ext_ok_def nvar_size_def)
  next
    case False
    with qi have "q = p" by auto
    have "name_fits (name_width m p) m (NvGetName m p) (p + nvar_size m p - ext_size m p)"
      using store_okD(6) [OF s p(1)] p(2) by (simp add: var_ok_def)
    moreover obtain r where "NvVarEq_name (name_width m p) m (NvGetName m p) nm = Some r" "k = r - NvGetName m p"
      using e by (auto simp: NvVarEq_def split: option.splits if_splits)
    ultimately have "10 + (k + (if has (nvar_flags m p) NVRAM_FLAG_GUID then 16 else 1)) + ext_size m p \<le> nvar_size m p"
      using name_eq_bound dq(5) \<open>q = p\<close> by (fastforce simp: NvGetName_def nv_consts ext_ok_def)
    with False d \<open>q = p\<close> rd_bound [of 2 m "p + 4"] show ?thesis
      by (auto simp: data_at_def nvar_size_def Let_def)
  qed
qed

section \<open>Deleting a variable\<close>

lemma patch_data:
  assumes s: "store_ok m info" and pt: "patches m info p m'" and n: "nvar_next m' p = nvar_next m p"
  shows "q \<in> set (nvars m info) \<Longrightarrow> NvGetDataNvar_loop m' info q l = NvGetDataNvar_loop m info q l"
  using assms
proof (induction m info q l rule: NvGetDataNvar_loop.induct)
  case (1 m info q l)
  note d = store_okD [OF "1.prems"(2,1)]
  note v' = patch_variable [OF "1.prems"(2,3,1)]
  have nx: "nvar_next m' q = nvar_next m q"
    using patch_same_header(1) [OF "1.prems"(2,3,1)] "1.prems"(4) by (cases "q = p") auto
  show ?case
  proof (cases "nvar_next m q = FLASH_EMPTY_NEXT")
    case True
    with d(1) v' nx show ?thesis by (simp add: NvGetDataNvar_loop.simps [of _ _ q])
  next
    case False
    with d(7) have "q + nvar_next m q \<in> set (nvars m info)" by (auto simp: link_ok_def)
    from "1.IH" [OF d(1) False this "1.prems"(2-4)] d(1) v' nx False show ?thesis
      by (simp add: NvGetDataNvar_loop.simps [of _ _ q])
  qed
qed

lemma xor_valid:
  assumes "has f NVRAM_FLAG_VALID"
  shows "programmable_byte f (f XOR NVRAM_FLAG_VALID)" "\<not> has (f XOR NVRAM_FLAG_VALID) NVRAM_FLAG_VALID"
    "F AND NVRAM_FLAG_VALID = 0 \<Longrightarrow> has (f XOR NVRAM_FLAG_VALID) F = has f F"
proof -
  have b: "f AND 0x80 = 0x80" using assms and_exp_if [of f 7] by (simp add: nv_consts)
  have "NOT f AND (f XOR 0x80) = NOT f AND 0x80"
    by (simp add: bit.conj_xor_distrib)
  also have "\<dots> = NOT f AND (f AND 0x80)" using b by simp
  also have "\<dots> = 0" by (simp add: and.assoc [symmetric])
  finally show "programmable_byte f (f XOR NVRAM_FLAG_VALID)" by (simp add: programmable_byte_def nv_consts)
  show "\<not> has (f XOR NVRAM_FLAG_VALID) NVRAM_FLAG_VALID"
    using b by (simp add: has_def nv_consts bit.conj_xor_distrib2)
  show "F AND NVRAM_FLAG_VALID = 0 \<Longrightarrow> has (f XOR NVRAM_FLAG_VALID) F = has f F"
    by (simp add: has_def bit.conj_xor_distrib2 and.commute [of NVRAM_FLAG_VALID])
qed

lemma delete_patches:
  assumes s: "store_ok m info" and p: "p \<in> set (nvars m info)" and v: "has (nvar_flags m p) NVRAM_FLAG_VALID"
    and m': "m' = wr_bytes m (p + 9) [nvar_flags m p XOR NVRAM_FLAG_VALID]"
  shows "patches m info p m'" "nvar_next m' p = nvar_next m p"
    "nvar_flags m' p = nvar_flags m p XOR NVRAM_FLAG_VALID"
proof -
  note x = xor_valid [OF v]
  have o: "m' i = m i" if "i \<noteq> p + 9" for i using that by (auto simp: m' wr_bytes_def)
  show f: "nvar_flags m' p = nvar_flags m p XOR NVRAM_FLAG_VALID"
    by (simp add: m' nvar_flags_def wr_bytes_def)
  show nx: "nvar_next m' p = nvar_next m p"
    by (simp add: m' nvar_next_def rd_wr_disjoint)
  have b: "body_same m m' p"
    using o x(3) by (simp add: body_same_def same_on_def f)
  note hc = body_sameD [OF b]
  have "nvar_flags m' p \<noteq> FLASH_EMPTY_FLAG" using x(2) f by (auto simp: has_def nv_consts)
  moreover have "NOT ALL_FLAGS = 0" by code_simp
  moreover have "nvar_size_ok m' p info"
    using NvIsVariable_size_ok [OF store_okD(1) [OF s p]] hc by (simp add: nvar_size_ok_def)
  ultimately have "NvIsVariable m' p info"
    using store_okD(1) [OF s p] hc x(2) nx f by (simp add: NvIsVariable_def has_def [of _ 0])
  with b o p show "patches m info p m'" by (simp add: patches_def)
qed

lemma body_bytes_same:
  "body_same m m' q \<Longrightarrow> q + 10 \<le> a \<Longrightarrow> a + n \<le> q + nvar_size m q \<Longrightarrow> rd_bytes m' a n = rd_bytes m a n"
  using rd_bytes_cong [of "q + 10" "q + nvar_size m q" m m' a n] by (simp add: body_same_def)

lemma NvVarEq_name_unique:
  "NvVarEq_name w m a s = Some x \<Longrightarrow> NvVarEq_name w m a t = Some y \<Longrightarrow> c_string s = c_string t \<and> x = y"
proof (induction s arbitrary: a t)
  case Nil
  then show ?case by (cases t) (auto simp: c_string_def split: if_splits)
next
  case (Cons c s)
  then show ?case by (cases t) (auto simp: c_string_def split: if_splits)
qed

lemma NvVarEq_unique:
  "NvVarEq m p s h info = Some j \<Longrightarrow> NvVarEq m p t g info = Some k \<Longrightarrow> c_string s = c_string t \<and> h = g \<and> j = k"
  using NvVarEq_name_unique [of "name_width m p" m "NvGetName m p" s _ t]
  by (auto simp: NvVarEq_def split: option.splits if_splits)

text \<open>When \<^verbatim>\<open>NvGetVariable\<close> answers the same in two stores.\<close>

lemma get_same:
  assumes b: "ga_VariableName b = Some s" "ga_VendorGuid b = Some h"
    and f: "NvFindVariable m' s h info' = NvFindVariable m s h info"
    and d: "\<And>q k. NvFindVariable m s h info = Some (q, k) \<Longrightarrow>
      NvGetData m' q k info' = NvGetData m q k info \<and> nvar_attributes m' q info' = nvar_attributes m q info
      \<and> (\<forall>a n. NvGetData m q k info = Some (a, n) \<longrightarrow> rd_bytes m' a n = rd_bytes m a n)"
  shows "NvGetVariable m' b info' = NvGetVariable m b info"
proof (cases "get_args_ok b")
  case True
  with b obtain n where n: "ga_DataSize b = Some n" "ga_Data b \<or> n = 0" by (auto simp: get_args_ok_def)
  show ?thesis
  proof (cases "NvFindVariable m s h info")
    case None
    with f show ?thesis by (simp add: NvGetVariable_cases [OF b n])
  next
    case (Some r)
    obtain q k where r: "r = (q, k)" by (cases r)
    with d [of q k] Some f show ?thesis
      by (cases "NvGetData m q k info") (auto simp: NvGetVariable_cases [OF b n])
  qed
qed (simp add: NvGetVariable_bad_args)

locale deletion =
  fixes m :: memory and info :: NVRAM_STORE_INFO and p :: nat and m' :: memory
  assumes s: "store_ok m info" and p: "p \<in> set (nvars m info)" and v: "has (nvar_flags m p) NVRAM_FLAG_VALID"
    and m': "m' = wr_bytes m (p + 9) [nvar_flags m p XOR NVRAM_FLAG_VALID]"
begin

lemmas pt = delete_patches [OF s p v m']
lemmas nv = patch_nvars(1) [OF s pt(1)]

lemma next_same: "q \<in> set (nvars m info) \<Longrightarrow> nvar_next m' q = nvar_next m q"
  using patch_same_header(1) [OF s pt(1)] pt(2) by (cases "q = p") auto

lemma stays_ok: "store_ok m' info"
proof (rule patch_store_ok [OF s pt(1)])
  show "link_ok m' info p"
    using store_okD(7) [OF s p] nv pt(2) body_sameD(7) [OF patch_body(1) [OF s pt(1), of "p + nvar_next m p"]]
    by (auto simp: link_ok_def)
  have e: "{q \<in> set (nvars m' info). nvar_next m' q \<noteq> FLASH_EMPTY_NEXT} =
      {q \<in> set (nvars m info). nvar_next m q \<noteq> FLASH_EMPTY_NEXT}"
    using nv next_same by auto
  have "links_inj m info" using s by (simp add: store_ok_def)
  then show "links_inj m' info" unfolding links_inj_def e using next_same by (auto simp: inj_on_def)
qed

lemma valid_records: "valid_nvars m' info = filter (\<lambda>q. q \<noteq> p) (valid_nvars m info)"
proof -
  have "NvIsValid m' q = (q \<noteq> p \<and> NvIsValid m q)" if "q \<in> set (nvars m info)" for q
    using patch_same_header(2) [OF s pt(1) that] pt(3) xor_valid(2) [OF v]
    by (cases "q = p") (auto simp: NvIsValid_iff)
  then show ?thesis
    unfolding valid_nvars_def nv filter_filter by (intro filter_cong) auto
qed

lemma lookup:
  "NvFindVariable m' nm g info =
    map_option (\<lambda>q. (q, the (NvVarEq m q nm g info)))
      (List.find (\<lambda>q. NvVarEq m q nm g info \<noteq> None) (filter (\<lambda>q. q \<noteq> p) (valid_nvars m info)))"
proof -
  have eq: "NvVarEq m' q nm g info = NvVarEq m q nm g info" if "q \<in> set (valid_nvars m info)" for q
    using that by (intro patch_VarEq(1) [OF s pt(1)]) (auto simp: valid_nvars_def NvIsValid_iff)
  let ?F = "filter (\<lambda>q. q \<noteq> p) (valid_nvars m info)"
  have fc: "List.find (\<lambda>q. NvVarEq m' q nm g info \<noteq> None) ?F = List.find (\<lambda>q. NvVarEq m q nm g info \<noteq> None) ?F"
    by (rule find_cong_set) (simp add: eq)
  show ?thesis
  proof (cases "List.find (\<lambda>q. NvVarEq m q nm g info \<noteq> None) ?F")
    case None
    then show ?thesis by (simp add: NvFindVariable_find valid_records fc del: not_None_eq)
  next
    case (Some q)
    then have q: "q \<in> set ?F" by (metis find_Some_iff nth_mem)
    then have "NvVarEq m' q nm g info = NvVarEq m q nm g info" using eq by simp
    with Some show ?thesis by (simp add: NvFindVariable_find valid_records fc del: not_None_eq)
  qed
qed

lemma lookup_other:
  assumes "NvVarEq m p nm g info = None"
  shows "NvFindVariable m' nm g info = NvFindVariable m nm g info"
proof -
  have "List.find P (filter (\<lambda>q. q \<noteq> p) xs) = List.find P xs" if "\<not> P p" for P and xs :: "nat list"
    using that by (induction xs) auto
  then show ?thesis using assms by (simp only: lookup NvFindVariable_find [of m] simp_thms not_False_eq_True)
qed

lemma data_same:
  assumes f: "NvFindVariable m nm g info = Some (q, k)"
  shows "NvGetData m' q k info = NvGetData m q k info" "nvar_attributes m' q info = nvar_attributes m q info"
    "NvGetData m q k info = Some (a, n) \<Longrightarrow> rd_bytes m' a n = rd_bytes m a n"
proof -
  from NvFindVariable_Some(1) [OF f] have q: "q \<in> set (nvars m info)" by (simp add: valid_nvars_def)
  note bs = patch_body(1) [OF s pt(1)]
  show "nvar_attributes m' q info = nvar_attributes m q info"
    by (rule body_attributes [OF bs [OF q] store_okD(5) [OF s q] refl])
  have l: "NvGetDataNvar m' q info = NvGetDataNvar m q info"
    using patch_data [OF s pt(1,2) q] by (simp add: NvGetDataNvar_def)
  have da: "data_at m' r k = data_at m r k" if "NvGetDataNvar m q info = Some r" for r
    using NvGetDataNvar_in [OF s q that] data_at_body bs store_okD(5) [OF s] by blast
  then show "NvGetData m' q k info = NvGetData m q k info"
    using l by (cases "NvGetDataNvar m q info") (simp_all add: NvGetData_at)
  assume "NvGetData m q k info = Some (a, n)"
  then obtain r where r: "NvGetDataNvar m q info = Some r" "data_at m r k = (a, n)" by (auto simp: NvGetData_at)
  from body_bytes_same [OF bs [OF NvGetDataNvar_in [OF s q r(1)]] data_at_bounds [OF s f r]]
  show "rd_bytes m' a n = rd_bytes m a n" .
qed

lemma get_other:
  assumes "ga_VariableName b = Some nm" "ga_VendorGuid b = Some g" and "NvVarEq m p nm g info = None"
  shows "NvGetVariable m' b info = NvGetVariable m b info"
  using data_same by (intro get_same [OF assms(1,2) lookup_other [OF assms(3)]]) blast

end

interpretation delA: deletion "snd store_A" "fst store_A" "0x10000"
  "wr_bytes (snd store_A) (0x10000 + 9) [nvar_flags (snd store_A) 0x10000 XOR NVRAM_FLAG_VALID]"
proof unfold_locales
  show "0x10000 \<in> set (nvars (snd store_A) (fst store_A))" by code_simp
  show "has (nvar_flags (snd store_A) 0x10000) NVRAM_FLAG_VALID" by code_simp
qed (simp_all add: store_A_ok)

lemma DeleteVariable_deletion:
  assumes "write_interface WB" and "store_ok m info" and "NvFindVariable m nm g info = Some (p, k)"
  shows "\<exists>m'. DeleteVariable WB p m = (EFI_SUCCESS, m') \<and> deletion m info p m'"
proof -
  from NvFindVariable_Some [OF assms(3)] have p: "p \<in> set (nvars m info)" and v: "has (nvar_flags m p) NVRAM_FLAG_VALID"
    by (auto simp: valid_nvars_def NvIsValid_iff)
  let ?m = "wr_bytes m (p + 9) [nvar_flags m p XOR NVRAM_FLAG_VALID]"
  have "list_all2 programmable_byte (rd_bytes m (p + 9) (Suc 0)) [nvar_flags m p XOR NVRAM_FLAG_VALID]"
    using xor_valid(1) [OF v] by (simp add: rd_bytes_Suc nvar_flags_def)
  then have "WB (p + 9) [nvar_flags m p XOR NVRAM_FLAG_VALID] m = (True, ?m)"
    by (intro write_interface.write_clearing [OF assms(1)]) simp_all
  then have "DeleteVariable WB p m = (EFI_SUCCESS, ?m)" by (simp add: DeleteVariable_def)
  moreover have "deletion m info p ?m" using assms(2) p v by (intro deletion.intro) auto
  ultimately show ?thesis by blast
qed

text \<open>C3: \<^verbatim>\<open>DeleteVariable\<close> of the record a lookup found succeeds, keeps the store well formed, and
  removes exactly that variable: with no second record of the same name and GUID the lookup fails
  afterwards, and for every other name or GUID \<^verbatim>\<open>NvGetVariable\<close> answers as before.\<close>

theorem DeleteVariable_correct:
  assumes "write_interface WB" and "store_ok m info" and "NvFindVariable m nm g info = Some (p, k)"
    and "\<forall>q\<in>set (valid_nvars m info). q \<noteq> p \<longrightarrow> NvVarEq m q nm g info = None"
    and "DeleteVariable WB p m = (Status, m')"
  shows "Status = EFI_SUCCESS \<and> store_ok m' info \<and> NvFindVariable m' nm g info = None
    \<and> (\<forall>b s h. ga_VariableName b = Some s \<and> ga_VendorGuid b = Some h
          \<and> (c_string s, h) \<noteq> (c_string nm, g) \<longrightarrow>
        NvGetVariable m' b info = NvGetVariable m b info)"
proof -
  from DeleteVariable_deletion [OF assms(1-3)] assms(5)
  have st: "Status = EFI_SUCCESS" and d: "deletion m info p m'" by auto
  have "List.find (\<lambda>q. NvVarEq m q nm g info \<noteq> None) (filter (\<lambda>q. q \<noteq> p) (valid_nvars m info)) = None"
    using assms(4) by (auto simp: find_None_iff)
  then have "NvFindVariable m' nm g info = None" using deletion.lookup [OF d, of nm g] by simp
  moreover have "NvVarEq m p s h info = None" if "(c_string s, h) \<noteq> (c_string nm, g)" for s h
    using that NvVarEq_unique [OF _ NvFindVariable_Some(2) [OF assms(3)], of s h]
    by (cases "NvVarEq m p s h info") auto
  ultimately show ?thesis using st deletion.stays_ok [OF d] deletion.get_other [OF d] by blast
qed

theorem DeleteVariable_correct_witness:
  "\<exists>m'. DeleteVariable MemProgram 0x10000 (snd store_A) = (EFI_SUCCESS, m')
    \<and> NvFindVariable m' [65] guid_A (fst store_A) = None"
proof -
  have f: "NvFindVariable (snd store_A) [65] guid_A (fst store_A) = Some (0x10000, 2)" by code_simp
  have u: "\<forall>q\<in>set (valid_nvars (snd store_A) (fst store_A)). q \<noteq> 0x10000 \<longrightarrow>
      NvVarEq (snd store_A) q [65] guid_A (fst store_A) = None" by code_simp
  obtain Status m' where d: "DeleteVariable MemProgram 0x10000 (snd store_A) = (Status, m')" by fastforce
  from DeleteVariable_correct [OF memp.write_interface_axioms store_A_ok f u d] d show ?thesis by auto
qed

section \<open>Data chains\<close>

text \<open>The records that hold the data of a variable, in the order of their links.\<close>

function data_chain :: "memory \<Rightarrow> NVRAM_STORE_INFO \<Rightarrow> nat \<Rightarrow> nat list" where
  "data_chain m info p =
     (if NvIsVariable m p info
      then p # (if nvar_next m p = FLASH_EMPTY_NEXT then [] else data_chain m info (p + nvar_next m p))
      else [])"
  by pat_completeness auto
termination
proof (relation "measure (\<lambda>(m, info, p). pEndOfVars info - p)", simp)
  fix m info p
  assume v: "NvIsVariable m p info" and n: "nvar_next m p \<noteq> FLASH_EMPTY_NEXT"
  from NvIsVariable_next [OF v n] nvar_size_okD [OF NvIsVariable_size_ok [OF v]]
  show "((m, info, p + nvar_next m p), m, info, p) \<in> measure (\<lambda>(m, info, p). pEndOfVars info - p)"
    by simp
qed

declare data_chain.simps [simp del]

lemma data_chain_step:
  assumes "store_ok m info" and "p \<in> set (nvars m info)"
  shows "data_chain m info p =
    p # (if nvar_next m p = FLASH_EMPTY_NEXT then [] else data_chain m info (p + nvar_next m p))"
    "NvGetDataNvar_loop m info p l =
      (if nvar_next m p = FLASH_EMPTY_NEXT then Some p
       else NvGetDataNvar_loop m info (p + nvar_next m p) (Some p))"
    "nvar_next m p \<noteq> FLASH_EMPTY_NEXT \<Longrightarrow> p + nvar_next m p \<in> set (nvars m info)"
    "nvar_next m p \<noteq> FLASH_EMPTY_NEXT \<Longrightarrow> has (nvar_flags m (p + nvar_next m p)) NVRAM_FLAG_DATA_ONLY"
  using store_okD(1,7) [OF assms]
  by (simp_all add: data_chain.simps [of m info p] NvGetDataNvar_loop.simps [of m info p] link_ok_def)

lemma data_chain_in:
  "store_ok m info \<Longrightarrow> p \<in> set (nvars m info) \<Longrightarrow> x \<in> set (data_chain m info p) \<Longrightarrow>
   x \<in> set (nvars m info) \<and>
   (x = p \<or> has (nvar_flags m x) NVRAM_FLAG_DATA_ONLY
            \<and> (\<exists>z\<in>set (data_chain m info p). nvar_next m z \<noteq> FLASH_EMPTY_NEXT \<and> z + nvar_next m z = x))"
proof (induction m info p rule: data_chain.induct)
  case (1 m info p)
  note st = data_chain_step [OF "1.prems"(1,2)]
  show ?case
  proof (cases "x = p")
    case True
    with "1.prems"(2) show ?thesis by simp
  next
    case False
    with "1.prems"(3) st(1) have n: "nvar_next m p \<noteq> FLASH_EMPTY_NEXT"
      and x: "x \<in> set (data_chain m info (p + nvar_next m p))" by (auto split: if_splits)
    from "1.IH" [OF store_okD(1) [OF "1.prems"(1,2)] n "1.prems"(1) st(3) [OF n] x] st(1,4) n
    show ?thesis by auto
  qed
qed

lemma data_chain_end:
  "store_ok m info \<Longrightarrow> p \<in> set (nvars m info) \<Longrightarrow> NvGetDataNvar_loop m info p l = Some q \<Longrightarrow>
   q \<in> set (data_chain m info p) \<and> nvar_next m q = FLASH_EMPTY_NEXT"
proof (induction m info p l rule: NvGetDataNvar_loop.induct)
  case (1 m info p l)
  note st = data_chain_step [OF "1.prems"(1,2)]
  show ?case
  proof (cases "nvar_next m p = FLASH_EMPTY_NEXT")
    case True
    with "1.prems"(3) st(1,2) show ?thesis by simp
  next
    case False
    with "1.prems"(3) st(2) have "NvGetDataNvar_loop m info (p + nvar_next m p) (Some p) = Some q" by simp
    from "1.IH" [OF store_okD(1) [OF "1.prems"(1,2)] False "1.prems"(1) st(3) [OF False] this] st(1) False
    show ?thesis by simp
  qed
qed

text \<open>Two chains with the same last record: one contains the start of the other.\<close>

lemma data_chain_share:
  "store_ok m info \<Longrightarrow> p \<in> set (nvars m info) \<Longrightarrow> q \<in> set (nvars m info) \<Longrightarrow>
   NvGetDataNvar_loop m info p l = Some r \<Longrightarrow> NvGetDataNvar_loop m info q l' = Some r \<Longrightarrow>
   q \<in> set (data_chain m info p) \<or> p \<in> set (data_chain m info q)"
proof (induction m info p l rule: NvGetDataNvar_loop.induct)
  case (1 m info p l)
  note st = data_chain_step [OF "1.prems"(1,2)]
  show ?case
  proof (cases "nvar_next m p = FLASH_EMPTY_NEXT")
    case True
    with "1.prems"(4) st(2) have "p = r" by simp
    with data_chain_end [OF "1.prems"(1,3,5)] show ?thesis by simp
  next
    case False
    let ?p = "p + nvar_next m p"
    from False "1.prems"(4) st(2) have l: "NvGetDataNvar_loop m info ?p (Some p) = Some r" by simp
    from "1.IH" [OF store_okD(1) [OF "1.prems"(1,2)] False "1.prems"(1) st(3) [OF False] "1.prems"(3) l "1.prems"(5)]
    consider "q \<in> set (data_chain m info ?p)" | "?p \<in> set (data_chain m info q)" "?p \<noteq> q"
      using data_chain_step(1) [OF "1.prems"(1,3)] data_chain_step(1) [OF "1.prems"(1) st(3) [OF False]] by fastforce
    then show ?thesis
    proof cases
      case 1
      with st(1) False show ?thesis by simp
    next
      case 2
      from data_chain_in [OF "1.prems"(1,3) 2(1)] 2(2)
      obtain z where z: "z \<in> set (data_chain m info q)" "nvar_next m z \<noteq> FLASH_EMPTY_NEXT" "z + nvar_next m z = ?p"
        by auto
      from data_chain_in [OF "1.prems"(1,3) z(1)] have "z \<in> set (nvars m info)" by simp
      with z "1.prems"(1,2) False have "z = p" by (auto simp: store_ok_def links_inj_def inj_on_def)
      with z(1) show ?thesis by simp
    qed
  qed
qed

lemma data_chain_unique:
  assumes s: "store_ok m info" and p: "p \<in> set (nvars m info)" and q: "q \<in> set (nvars m info)"
    and v: "\<not> has (nvar_flags m p) NVRAM_FLAG_DATA_ONLY" "\<not> has (nvar_flags m q) NVRAM_FLAG_DATA_ONLY"
    and e: "NvGetDataNvar m p info = Some r" "NvGetDataNvar m q info = Some r"
  shows "p = q"
  using data_chain_share [OF s p q e [unfolded NvGetDataNvar_def]] v
    data_chain_in [OF s p, of q] data_chain_in [OF s q, of p] by auto


section \<open>Appending a data record and linking it\<close>

lemma le_bytes_empty_next: "le_bytes 3 FLASH_EMPTY_NEXT = replicate 3 0xFF"
  by code_simp

locale relink =
  fixes m :: memory and info :: NVRAM_STORE_INFO and m1 :: memory and info' :: NVRAM_STORE_INFO
    and L :: nat and m2 :: memory
  assumes s: "store_ok m info" and a: "appends m info m1 info'"
    and dat: "has (nvar_flags m1 (pEndOfVars info)) NVRAM_FLAG_DATA_ONLY"
    and L: "L \<in> set (nvars m info)" and Le: "nvar_next m L = FLASH_EMPTY_NEXT"
    and m2: "m2 = wr_bytes m1 (L + 6) (le_bytes 3 (pEndOfVars info - L))"
begin

abbreviation "pV \<equiv> pEndOfVars info"

lemmas s1 = appends_store_ok [OF s a]
lemmas n1 = appends_nvars(1) [OF s a]

lemma grows: "store_grows m info m1 info'" and lay: "layout_ok info'"
  using a by (auto simp: appends_def)

lemmas old = old_record_grow [OF s grows lay]

lemma L_range: "L + nvar_size m L \<le> pV" "pV - L < 0xFFFFFF" "L < pV" "10 < nvar_size m L"
proof -
  note d = store_okD [OF s L]
  show "L + nvar_size m L \<le> pV" "10 < nvar_size m L" by (rule d)+
  then show "L < pV" by simp
  have "pV \<le> NvramAddress info + NvramSize info" "NvramSize info < 16777216" "NvramAddress info \<le> pFirstVar info"
    "0 < nvar_size m L"
    using s d(3) by (auto simp: store_ok_def layout_ok_def)
  moreover have "0 < 16 * NextGuid info \<or> pFirstVar info < pV" using d by simp
  ultimately show "pV - L < 0xFFFFFF"
  proof -
    have "pV - L \<le> NvramSize info" using d(2) \<open>NvramAddress info \<le> pFirstVar info\<close>
        \<open>pV \<le> NvramAddress info + NvramSize info\<close> by linarith
    moreover have "pEndOfVars info < NvramAddress info + NvramSize info"
      using a by (auto simp: appends_def layout_ok_def store_grows_def NvIsVariable_def nvar_size_ok_def)
    ultimately show ?thesis using d(2) \<open>NvramAddress info \<le> pFirstVar info\<close> \<open>NvramSize info < 16777216\<close> by linarith
  qed
qed

lemma same_elsewhere: "i < L + 6 \<or> L + 9 \<le> i \<Longrightarrow> m2 i = m1 i"
  by (auto simp: m2 wr_bytes_def)

lemma next_L: "nvar_next m2 L = pV - L" "nvar_flags m2 L = nvar_flags m1 L"
proof -
  have "rd 3 m2 (L + 6) = pV - L"
    using rd_bytes_wr_same [of m1 "L + 6" "le_bytes 3 (pV - L)"] L_range(2) by (simp add: m2 rd_def)
  then show "nvar_next m2 L = pV - L" by (simp add: nvar_next_def)
  show "nvar_flags m2 L = nvar_flags m1 L" by (simp add: nvar_flags_def same_elsewhere)
qed

lemma patched: "patches m1 info' L m2"
proof -
  note d = store_okD [OF s1, of L]
  have L1: "L \<in> set (nvars m1 info')" using n1 L by simp
  have b: "body_same m1 m2 L" using same_elsewhere next_L(2) by (simp add: body_same_def same_on_def)
  have sz: "nvar_size m1 L = nvar_size m L"
    using header_cong(2) [OF grows_same(2) [OF s grows L]] .
  have e: "pV < pEndOfVars info'" "pEndOfVars info' - L < 2 ^ 32"
  proof -
    show "pV < pEndOfVars info'" using store_okD(3,4) [OF s1, of pV] n1 by auto
    show "pEndOfVars info' - L < 2 ^ 32" using layout_end [OF lay] d(2) [OF L1] by linarith
  qed
  have "NvIsVariable m2 L info'"
    by (rule NvIsVariable_body [OF d(1,5) [OF L1] b next_L(2) order_refl])
      (use e L_range sz in \<open>simp add: next_L(1), linarith\<close>)
  with L1 b same_elsewhere show ?thesis by (simp add: patches_def)
qed

lemmas n2 = patch_nvars(1) [OF s1 patched]

lemma next_other: "q \<in> set (nvars m1 info') \<Longrightarrow> q \<noteq> L \<Longrightarrow> nvar_next m2 q = nvar_next m1 q"
  using patch_same_header(1) [OF s1 patched] by blast

lemma pV_new: "pV \<notin> set (nvars m info)" "pV \<in> set (nvars m1 info')" "nvar_next m1 pV = FLASH_EMPTY_NEXT"
  "pV \<noteq> L"
  using store_okD(3,4) [OF s, of pV] n1 a L_range by (auto simp: appends_def)

lemma stays_ok: "store_ok m2 info'"
proof (rule patch_store_ok [OF s1 patched])
  have "has (nvar_flags m2 pV) NVRAM_FLAG_DATA_ONLY"
    using body_sameD(7) [OF patch_body(1) [OF s1 patched pV_new(2)]] dat by simp
  then show "link_ok m2 info' L" using next_L(1) L_range n2 pV_new(2) by (simp add: link_ok_def)
  let ?S = "{q \<in> set (nvars m1 info'). nvar_next m1 q \<noteq> FLASH_EMPTY_NEXT}"
  have nL: "nvar_next m1 L = FLASH_EMPTY_NEXT" using old(4) [OF L] Le by simp
  have "L \<in> set (nvars m1 info')" using n1 L by simp
  then have e: "{q \<in> set (nvars m2 info'). nvar_next m2 q \<noteq> FLASH_EMPTY_NEXT} = insert L ?S"
    using n2 next_other next_L(1) L_range(2) nL by (auto simp: FLASH_EMPTY_NEXT_def) metis
  have inS: "q + nvar_next m1 q \<in> set (nvars m info)" if "q \<in> ?S" for q
  proof -
    from that pV_new(3) n1 have q: "q \<in> set (nvars m info)" by auto
    with that old(4) [OF q] store_okD(7) [OF s q] show ?thesis by (simp add: link_ok_def)
  qed
  have "inj_on (\<lambda>q. q + nvar_next m1 q) ?S" using s1 by (simp add: store_ok_def links_inj_def)
  then have "inj_on (\<lambda>q. q + nvar_next m2 q) ?S"
    using next_other nL by (subst inj_on_cong [of _ _ "\<lambda>q. q + nvar_next m1 q"]) auto
  moreover have "L + nvar_next m2 L \<notin> (\<lambda>q. q + nvar_next m2 q) ` (?S - {L})"
  proof
    assume "L + nvar_next m2 L \<in> (\<lambda>q. q + nvar_next m2 q) ` (?S - {L})"
    then obtain q where q: "q \<in> ?S" "q \<noteq> L" and e: "L + nvar_next m2 L = q + nvar_next m2 q" by blast
    from q(1) have q1: "q \<in> set (nvars m1 info')" by simp
    have "q + nvar_next m1 q = pV" using e next_L(1) L_range(3) next_other [OF q1 q(2)] by simp
    with inS [OF q(1)] pV_new(1) show False by simp
  qed
  ultimately show "links_inj m2 info'" unfolding links_inj_def e by simp
qed

lemma relinked_loop:
  "q \<in> set (nvars m info) \<Longrightarrow> NvGetDataNvar_loop m2 info' q l =
     (if NvGetDataNvar_loop m info q l = Some L then Some pV else NvGetDataNvar_loop m info q l)"
proof (induction "pV - q" arbitrary: q l rule: less_induct)
  case less
  have q1: "q \<in> set (nvars m1 info')" and q2: "q \<in> set (nvars m2 info')" using n1 n2 less.prems by auto
  note st = data_chain_step [OF s less.prems] and st2 = data_chain_step(2) [OF stays_ok q2]
  have l2: "NvGetDataNvar_loop m2 info' pV l = Some pV" for l
    using data_chain_step(2) [OF stays_ok, of pV] n2 pV_new next_other [of pV] by simp
  show ?case
  proof (cases "q = L")
    case True
    with st st2 Le next_L(1) l2 L_range show ?thesis by (simp add: FLASH_EMPTY_NEXT_def)
  next
    case False
    with next_other [OF q1] old(4) [OF less.prems] have nx: "nvar_next m2 q = nvar_next m q" by simp
    show ?thesis
    proof (cases "nvar_next m q = FLASH_EMPTY_NEXT")
      case True
      with nx st st2 False show ?thesis by simp
    next
      case nE: False
      have "pV - (q + nvar_next m q) < pV - q"
        using NvIsVariable_next(1) [OF store_okD(1) [OF s less.prems] nE] store_okD(3,4) [OF s less.prems] by linarith
      from less.hyps [OF this st(3) [OF nE]] nE nx st(2) st2 show ?thesis by simp
    qed
  qed
qed

lemma relinked:
  "q \<in> set (nvars m info) \<Longrightarrow> NvGetDataNvar m2 q info' =
     (if NvGetDataNvar m q info = Some L then Some pV else NvGetDataNvar m q info)"
  by (simp add: NvGetDataNvar_def relinked_loop)

lemma flags_kept: "q \<in> set (nvars m info) \<Longrightarrow> nvar_flags m2 q = nvar_flags m q"
  using patch_same_header(2) [OF s1 patched, of q] next_L(2) old(3) [of q] n1 by (cases "q = L") auto

lemma VarEq_kept:
  assumes "q \<in> set (nvars m info)" and "\<not> has (nvar_flags m q) NVRAM_FLAG_DATA_ONLY"
  shows "NvVarEq m2 q nm g info' = NvVarEq m q nm g info"
  using patch_VarEq(1) [OF s1 patched, of q nm g] NvVarEq_grow(1) [OF s grows assms, of nm g] old(3) assms n1 by simp

lemma lookup: "NvFindVariable m2 nm g info' = NvFindVariable m nm g info"
proof -
  have nv: "\<not> NvIsValid m2 pV"
    using body_sameD(7) [OF patch_body(1) [OF s1 patched pV_new(2)]] dat by (simp add: NvIsValid_iff)
  have "NvIsValid m2 q = NvIsValid m q" if "q \<in> set (nvars m info)" for q
    using flags_kept [OF that] by (simp add: NvIsValid_iff)
  then have "filter (NvIsValid m2) (nvars m info) = filter (NvIsValid m) (nvars m info)" by (intro filter_cong) auto
  with nv n1 n2 have v: "valid_nvars m2 info' = valid_nvars m info" by (simp add: valid_nvars_def)
  have eq: "NvVarEq m2 q nm g info' = NvVarEq m q nm g info" if "q \<in> set (valid_nvars m info)" for q
    using that by (intro VarEq_kept) (auto simp: valid_nvars_def NvIsValid_iff)
  have fc: "List.find (\<lambda>q. NvVarEq m2 q nm g info' \<noteq> None) (valid_nvars m info)
      = List.find (\<lambda>q. NvVarEq m q nm g info \<noteq> None) (valid_nvars m info)"
    by (rule find_cong_set) (simp add: eq)
  show ?thesis
  proof (cases "List.find (\<lambda>q. NvVarEq m q nm g info \<noteq> None) (valid_nvars m info)")
    case None
    then show ?thesis by (simp add: NvFindVariable_find v fc del: not_None_eq)
  next
    case (Some q)
    then have "q \<in> set (valid_nvars m info)" by (metis find_Some_iff nth_mem)
    with Some eq show ?thesis by (simp add: NvFindVariable_find v fc del: not_None_eq)
  qed
qed

lemma body_kept: "q \<in> set (nvars m info) \<Longrightarrow> body_same m m2 q"
proof -
  assume q: "q \<in> set (nvars m info)"
  note g = grows_same [OF s grows q]
  have "body_same m1 m2 q" using patch_body(1) [OF s1 patched] n1 q by simp
  moreover have "nvar_size m1 q = nvar_size m q" "nvar_flags m1 q = nvar_flags m q"
    using header_cong [OF g(2)] by auto
  moreover have "same_on q (q + 6) m m1" "same_on (q + 10) (q + nvar_size m q) m m1"
    using same_on_sub [OF g(1)] store_okD(3) [OF s q] by auto
  ultimately show ?thesis by (auto simp: body_same_def intro: same_on_trans)
qed

lemma attributes_kept: "q \<in> set (nvars m info) \<Longrightarrow> nvar_attributes m2 q info' = nvar_attributes m q info"
  using body_attributes [OF body_kept store_okD(5) [OF s]] grows by (simp add: store_grows_def)

lemma get_other:
  assumes p: "p \<in> set (nvars m info)" "\<not> has (nvar_flags m p) NVRAM_FLAG_DATA_ONLY"
    and pL: "NvGetDataNvar m p info = Some L" and ne: "NvVarEq m p nm g info = None"
    and b: "ga_VariableName b = Some nm" "ga_VendorGuid b = Some g"
  shows "NvGetVariable m2 b info' = NvGetVariable m b info"
proof (rule get_same [OF b lookup])
  fix q k
  assume f: "NvFindVariable m nm g info = Some (q, k)"
  from NvFindVariable_Some [OF f] have q: "q \<in> set (nvars m info)" "\<not> has (nvar_flags m q) NVRAM_FLAG_DATA_ONLY"
    and v: "NvIsVariable m q info" and qe: "NvVarEq m q nm g info = Some k"
    by (auto simp: valid_nvars_def NvIsValid_iff)
  from NvGetData_Some [OF v] obtain a n r where d: "NvGetData m q k info = Some (a, n)"
    and r: "NvGetDataNvar m q info = Some r" "data_at m r k = (a, n)" by (fastforce simp: NvGetData_at)
  have "r \<noteq> L" using data_chain_unique [OF s p(1) q(1) p(2) q(2) pL] r(1) qe ne by auto
  with relinked [OF q(1)] r(1) have r2: "NvGetDataNvar m2 q info' = Some r" by simp
  note rb = body_kept [OF NvGetDataNvar_in [OF s q(1) r(1)]]
  have "data_at m2 r k = data_at m r k"
    by (rule data_at_body [OF rb store_okD(5) [OF s NvGetDataNvar_in [OF s q(1) r(1)]]])
  moreover have "rd_bytes m2 a n = rd_bytes m a n"
    by (rule body_bytes_same [OF rb data_at_bounds [OF s f r]])
  ultimately show "NvGetData m2 q k info' = NvGetData m q k info
      \<and> nvar_attributes m2 q info' = nvar_attributes m q info
      \<and> (\<forall>a n. NvGetData m q k info = Some (a, n) \<longrightarrow> rd_bytes m2 a n = rd_bytes m a n)"
    using d r r2 attributes_kept [OF q(1)] by (simp add: NvGetData_at)
qed

lemma get_updated:
  assumes f: "NvFindVariable m nm g info = Some (p, k)" and pL: "NvGetDataNvar m p info = Some L"
    and b: "ga_VariableName b = Some nm" "ga_VendorGuid b = Some g" "ga_DataSize b = Some N" "ga_Data b"
    and D: "rd_bytes m1 (pV + 10) (length D) = D" "nvar_size m1 pV = 10 + length D + ext_size m1 pV"
    and N: "length D \<le> N"
  shows "NvGetVariable m2 b info' =
    \<lparr>gr_Status = EFI_SUCCESS,
     gr_Attributes = if ga_Attributes b then Some (nvar_attributes m p info) else None,
     gr_DataSize = Some (length D), gr_Data = Some D, gr_Var = Some p\<rparr>"
proof -
  from NvFindVariable_Some [OF f] have p: "p \<in> set (nvars m info)" by (simp add: valid_nvars_def)
  have x: "ext_ok m1 pV" using a by (simp add: appends_def)
  have sz: "nvar_size m1 pV < 2 ^ 64" using rd_bound [of 2 m1 "pV + 4"] by (simp add: nvar_size_def)
  note pb = patch_body(1) [OF s1 patched pV_new(2)]
  have "data_at m1 pV k = (pV + 10, length D)"
    using dat D(2) sz by (simp add: data_at_def)
  then have "NvGetData m2 p k info' = Some (pV + 10, length D)"
    using relinked [OF p] pL data_at_body [OF pb x] by (simp add: NvGetData_at)
  moreover have "rd_bytes m2 (pV + 10) (length D) = D"
    using body_bytes_same [OF pb, of "pV + 10" "length D"] D by simp
  ultimately show ?thesis
    using NvGetVariable_cases [OF b(1-3)] b(4) lookup f attributes_kept [OF p] N by simp
qed

end


section \<open>What UpdateVariable writes\<close>

definition update_ext_bytes :: "u32 \<Rightarrow> EXT_SEC_FLAGS \<Rightarrow> u8 list" where
  "update_ext_bytes A sec =
     (if has A UEFI23_1_AUTHENTICATED_VARIABLE_ATTRIBUTES then [0] @ le_bytes 8 (Mc sec) @ le_bytes 2 11 else [])"

lemma length_update_ext:
  "length (update_ext_bytes A sec) = (if has A UEFI23_1_AUTHENTICATED_VARIABLE_ATTRIBUTES then 11 else 0)"
  by (simp add: update_ext_bytes_def)

lemma update_flags_bits:
  assumes "update_flags False A = (f, x, e)"
  shows "x = (if has A UEFI23_1_AUTHENTICATED_VARIABLE_ATTRIBUTES then 11 else 0)" "e = 0" "has f NVRAM_FLAG_DATA_ONLY"
    "f \<noteq> 0xFF" "has f NVRAM_FLAG_EXT_HEDER = has A UEFI23_1_AUTHENTICATED_VARIABLE_ATTRIBUTES"
    "has f NVRAM_FLAG_AUTH_WRITE = has A UEFI23_1_AUTHENTICATED_VARIABLE_ATTRIBUTES"
  using assms
  by (auto simp: update_flags_def Let_def nv_consts has_def [of "numeral _"] length_update_ext split: if_splits)

definition update_bytes :: "u32 \<Rightarrow> EXT_SEC_FLAGS \<Rightarrow> u8 list \<Rightarrow> u8 list" where
  "update_bytes A sec D =
     record_bytes (10 + length D + length (update_ext_bytes A sec)) (fst (update_flags False A))
       (D @ update_ext_bytes A sec)"

lemma length_update_bytes: "length (update_bytes A sec D) = 10 + length D + length (update_ext_bytes A sec)"
  by (simp add: update_bytes_def record_bytes_def)

context write_interface
begin

lemma write_update_ext_written:
  assumes er: "erased m p (p + N)" and N: "length xs + length (update_ext_bytes A sec) = N" "N < 2 ^ 32"
  shows "\<exists>q. write_update_ext WriteBytes A 0 sec (length (update_ext_bytes A sec)) (p + N - 2) (written m p xs) =
      (True, q, wr_bytes m p (xs @ update_ext_bytes A sec))"
proof (cases "has A UEFI23_1_AUTHENTICATED_VARIABLE_ATTRIBUTES")
  case False
  then show ?thesis by (simp add: write_update_ext_def update_ext_bytes_def)
next
  case True
  with N(1) have N': "length xs + 11 = N" by (simp add: length_update_ext)
  let ?x1 = "xs @ [0]" and ?x2 = "(xs @ [0]) @ le_bytes 8 (Mc sec)"
  have 1: "w_brk WriteBytes [0] 1 (written m p xs) = written m p ?x1"
    using w_brk_written [OF er _ N(2), of xs "[0]" 1] N' by simp
  have 2: "w_brk WriteBytes (le_bytes 8 (Mc sec)) 0 (written m p ?x1) = (True, p + length ?x1 + 0, wr_bytes m p ?x2)"
    by (rule w_brk_written [OF er _ N(2)]) (use N' in simp)
  have 3: "w_goto (p + N - 2) (True, q, wr_bytes m p ?x2) = written m p ?x2" for q
    using N' by (simp add: w_goto_def)
  have 4: "w_brk WriteBytes (le_bytes 2 11) 0 (written m p ?x2) = (True, p + length ?x2 + 0, wr_bytes m p (?x2 @ le_bytes 2 11))"
    by (rule w_brk_written [OF er _ N(2)]) (use N' in simp)
  have "write_update_ext WriteBytes A 0 sec 11 (p + N - 2) (written m p xs) =
      (True, p + length ?x2 + 0, wr_bytes m p (?x2 @ le_bytes 2 11))"
    using True unfolding write_update_ext_def by (simp only: 1 2 3 4 if_True)
  with True show ?thesis by (simp add: update_ext_bytes_def)
qed

lemma update_record_written:
  assumes fl: "update_flags False A = (f, x, e)" and sz: "sz = 10 + length D + x" "sz < 2 ^ 32"
    and er: "erased m p (p + sz)" and D: "D = old @ Data"
    and st1: "st1 = w_adv WriteBytes (nvar_header sz FLASH_EMPTY_NEXT f) (True, p, m)"
    and ap: "\<not> b \<Longrightarrow> old = []" and st2: "st2 = (if b then w_adv WriteBytes old st1 else st1)"
    and st4: "st4 = write_update_ext WriteBytes A e sec x (p + sz - 2) (w_adv WriteBytes Data st2)"
  shows "st1 = written m p (nvar_header sz FLASH_EMPTY_NEXT f)"
    "\<exists>q. w_at WriteBytes p (le_bytes 4 NVAR_SIGNATURE) st4 = (True, q, wr_bytes m p (update_bytes A sec D))"
proof -
  note ub = update_flags_bits [OF fl] and xl = update_flags_bits(1) [OF fl, folded length_update_ext [of A sec]]
  let ?h = "nvar_header sz FLASH_EMPTY_NEXT f" and ?xb = "update_ext_bytes A sec"
  show 1: "st1 = written m p ?h"
    unfolding st1 using w_adv_written [OF er _ sz(2), of "[]" ?h] sz(1) by simp
  have "w_adv WriteBytes old (written m p ?h) = written m p (?h @ old)"
    by (rule w_adv_written [OF er _ sz(2)]) (use sz D in simp)
  then have 2: "st2 = written m p (?h @ old)" using ap by (auto simp: st2 1)
  have 3: "w_adv WriteBytes Data (written m p (?h @ old)) = written m p ((?h @ old) @ Data)"
    by (rule w_adv_written [OF er _ sz(2)]) (use sz D in simp)
  have "length ((?h @ old) @ Data) + length ?xb = sz" using sz D xl by simp
  note w4 = write_update_ext_written [OF er this sz(2)]
  have "st4 = write_update_ext WriteBytes A 0 sec (length ?xb) (p + sz - 2) (written m p ((?h @ old) @ Data))"
    by (simp only: st4 2 3 xl ub(2))
  with w4 obtain q where 4: "st4 = (True, q, wr_bytes m p (((?h @ old) @ Data) @ ?xb))" by auto
  let ?t = "le_bytes 2 sz @ le_bytes 3 FLASH_EMPTY_NEXT @ [f] @ D @ ?xb"
  have t: "((?h @ old) @ Data) @ ?xb = le_bytes 4 FLASH_EMPTY_SIGNATURE @ ?t" by (simp add: nvar_header_def D)
  have "length ?t < 2 ^ 32" using sz xl by simp
  from signature_written [OF this, of p q m]
  show "\<exists>q. w_at WriteBytes p (le_bytes 4 NVAR_SIGNATURE) st4 = (True, q, wr_bytes m p (update_bytes A sec D))"
    unfolding 4 t using fl xl by (simp add: update_bytes_def record_bytes_def sz(1))
qed

end


lemma update_appends:
  assumes s: "store_ok m info" and sp: "IsEnoughSpace info sz" "sz < 0xFFFF" and D: "D \<noteq> []"
    and sz: "sz = 10 + length D + length (update_ext_bytes A sec)"
    and m1: "m1 = wr_bytes m (pEndOfVars info) (update_bytes A sec D)"
    and info': "info' = info\<lparr>pEndOfVars := pEndOfVars info + sz, LastVarSize := sz mod 2 ^ 16\<rparr>"
  shows "appends m info m1 info'" "has (nvar_flags m1 (pEndOfVars info)) NVRAM_FLAG_DATA_ONLY"
    "rd_bytes m1 (pEndOfVars info + 10) (length D) = D"
    "nvar_size m1 (pEndOfVars info) = 10 + length D + ext_size m1 (pEndOfVars info)"
proof -
  let ?p = "pEndOfVars info" and ?xb = "update_ext_bytes A sec"
  obtain f x e where fl: "update_flags False A = (f, x, e)" by (metis prod_cases3)
  note ub = update_flags_bits [OF fl]
  have lo: "layout_ok info" and er: "erased m ?p (guid_area info)" using s by (auto simp: store_ok_def)
  from IsEnoughSpace_bound [OF lo sp(1)] sp(2)
  have b: "?p + sz + 16 * (NextGuid info + 1) + 10 \<le> NvramAddress info + NvramSize info" by simp
  have s16: "sz < 0xFFFF" by (rule sp(2))
  have mb: "m1 = wr_bytes m ?p (record_bytes sz f (D @ ?xb))" using fl sz by (simp add: m1 update_bytes_def)
  have "sz < 2 ^ 16" using s16 by simp
  note rf = record_fields [OF this, of m ?p f "D @ ?xb", folded mb]
  have rd: "rd_bytes m1 (?p + 10 + k) n = take n (drop k (D @ ?xb))" if "k + n \<le> length D + length ?xb" for k n
    using that rd_bytes_wr_sub [of "10 + k" n "record_bytes sz f (D @ ?xb)" m ?p]
    by (simp add: mb drop_record add.assoc)
  show d: "has (nvar_flags m1 ?p) NVRAM_FLAG_DATA_ONLY" using ub(3) rf by simp
  show "rd_bytes m1 (?p + 10) (length D) = D" using rd [of 0 "length D"] by simp
  have ex: "rd 2 m1 (?p + sz - 2) = 11" "m1 (?p + sz - 11) = 0" if "has A UEFI23_1_AUTHENTICATED_VARIABLE_ATTRIBUTES"
  proof -
    have "rd_bytes m1 (?p + 10 + (length D + 9)) 2 = le_bytes 2 11"
      using rd [of "length D + 9" 2] that by (simp add: update_ext_bytes_def)
    moreover have "?p + 10 + (length D + 9) = ?p + sz - 2" "?p + 10 + length D = ?p + sz - 11"
      using that sz by (simp_all add: length_update_ext)
    ultimately show "rd 2 m1 (?p + sz - 2) = 11" "m1 (?p + sz - 11) = 0"
      using rd [of "length D" 1] that by (simp_all add: rd_def update_ext_bytes_def rd_bytes_Suc)
  qed
  have xs: "ext_size m1 ?p = length ?xb"
    using ex(1) ub(5) by (simp add: ext_size_def rf NvGetExtSize_def length_update_ext)
  then show "nvar_size m1 ?p = 10 + length D + ext_size m1 ?p" using rf sz by simp
  have xo: "ext_ok m1 ?p" using xs ub(5,6) sz by (simp add: ext_ok_def rf length_update_ext)
  have "NOT ALL_FLAGS = 0" by code_simp
  moreover have "nvar_size_ok m1 ?p info'" using s16 sz D by (simp add: nvar_size_ok_def rf info' nv_consts)
  moreover have "\<not> has (m1 (NvGetExtFlags m1 ?p)) NVRAM_EXT_FLAG_CHECKSUM"
    if "has f NVRAM_FLAG_EXT_HEDER"
    using ex that ub(5) sz by (simp add: NvGetExtFlags_def NvGetExtSize_def rf length_update_ext)
  ultimately have v: "NvIsVariable m1 ?p info'"
    using ub(4) by (auto simp: NvIsVariable_def rf FLASH_EMPTY_FLAG_def FLASH_EMPTY_BYTE_def has_def [of _ 0])
  have l': "layout_ok info'" using lo b by (auto simp: layout_ok_def info')
  have ga: "guid_area info' = guid_area info" by (simp add: guid_area_def info')
  have le: "?p + sz \<le> guid_area info" using b by (simp add: guid_area_def)
  have out: "m1 i = m i" if "i < ?p \<or> ?p + sz \<le> i" for i
    using that length_update_bytes [of A sec D] sz by (auto simp: m1 wr_bytes_def)
  have "erased m1 (pEndOfVars info') (guid_area info')"
    using er out by (auto simp: erased_def info' guid_area_def)
  moreover have "store_grows m info m1 info'"
    using out le by (auto simp: store_grows_def info' same_on_def)
  ultimately show "appends m info m1 info'"
    using v xo l' d rf by (simp add: appends_def var_ok_def info')
qed


text \<open>The index entry passed to \<^verbatim>\<open>UpdateVariable\<close>, if any, names the last record of the variable.\<close>

definition entry_ok :: "memory \<Rightarrow> NVRAM_STORE_INFO \<Rightarrow> nat \<Rightarrow> nat option option \<Rightarrow> bool" where
  "entry_ok m info p Entry \<longleftrightarrow>
     (case Entry of Some (Some q) \<Rightarrow> NvGetDataNvar m p info = Some q | _ \<Rightarrow> True)"

definition update_ok ::
    "memory \<Rightarrow> NVRAM_STORE_INFO \<Rightarrow> nat \<Rightarrow> u32 \<Rightarrow> u8 list \<Rightarrow> u8 list \<Rightarrow> nat option option \<Rightarrow> EXT_SEC_FLAGS \<Rightarrow> bool" where
  "update_ok m info p A old Data Entry sec \<longleftrightarrow>
     NvAttribEq m p A info \<and> entry_ok m info p Entry \<and> Data \<noteq> []
     \<and> (let sz = 10 + length ((if has A EFI_VARIABLE_APPEND_WRITE then old else []) @ Data)
                 + length (update_ext_bytes A sec)
        in sz < 0xFFFF \<and> IsEnoughSpace info sz)"

lemma entry_data:
  assumes s: "store_ok m info" and f: "NvFindVariable m nm g info = Some (p, k)"
    and d: "NvGetData m p k info = Some (a, n)" and en: "entry_ok m info p Entry"
  shows "NvGetData m (case Entry of Some (Some f) \<Rightarrow> f | _ \<Rightarrow> p) k info = Some (a, n)"
proof -
  from NvFindVariable_Some [OF f] have p: "p \<in> set (nvars m info)" by (simp add: valid_nvars_def)
  obtain L where L: "NvGetDataNvar m p info = Some L" "data_at m L k = (a, n)" using d by (auto simp: NvGetData_at)
  have "nvar_next m L = FLASH_EMPTY_NEXT"
    using data_chain_end [OF s p L(1) [unfolded NvGetDataNvar_def]] by simp
  then have "NvGetDataNvar m L info = Some L"
    using data_chain_step(2) [OF s NvGetDataNvar_in [OF s p L(1)]] by (simp add: NvGetDataNvar_def)
  with en d L show ?thesis by (auto simp: entry_ok_def NvGetData_at split: option.splits)
qed

lemma UpdateVariable_success:
  assumes w: "write_interface WB" and s: "store_ok m info" and f: "NvFindVariable m nm g info = Some (p, k)"
    and d: "NvGetData m p k info = Some (a, n)" and u: "update_ok m info p A (rd_bytes m a n) Data Entry sec"
    and ch: "has A EFI_VARIABLE_APPEND_WRITE \<or> rd_bytes m a n \<noteq> Data"
    and D: "D = (if has A EFI_VARIABLE_APPEND_WRITE then rd_bytes m a n else []) @ Data"
  shows "\<exists>L info' m1 m2. UpdateVariable WB False p k A Data Entry sec info m =
      Some (EFI_SUCCESS, map_option (\<lambda>_. Some (pEndOfVars info)) Entry, info', m2)
    \<and> NvGetDataNvar m p info = Some L \<and> relink m info m1 info' L m2
    \<and> rd_bytes m1 (pEndOfVars info + 10) (length D) = D
    \<and> nvar_size m1 (pEndOfVars info) = 10 + length D + ext_size m1 (pEndOfVars info)"
proof -
  let ?pV = "pEndOfVars info" and ?ap = "has A EFI_VARIABLE_APPEND_WRITE"
  from NvFindVariable_Some [OF f] have p: "p \<in> set (nvars m info)" by (simp add: valid_nvars_def)
  obtain L where L: "NvGetDataNvar m p info = Some L" "data_at m L k = (a, n)" using d by (auto simp: NvGetData_at)
  have Ln: "L \<in> set (nvars m info)" by (rule NvGetDataNvar_in [OF s p L(1)])
  have Le: "nvar_next m L = FLASH_EMPTY_NEXT"
    using data_chain_end [OF s p L(1) [unfolded NvGetDataNvar_def]] by simp
  define sz where "sz = 10 + length D + length (update_ext_bytes A sec)"
  from u have sp: "IsEnoughSpace info sz" "sz < 0xFFFF" and at: "NvAttribEq m p A info"
    and en: "entry_ok m info p Entry" and Dn: "Data \<noteq> []"
    by (auto simp: update_ok_def sz_def D Let_def)
  obtain fl x e where uf: "update_flags False A = (fl, x, e)" by (metis prod_cases3)
  have xl: "x = length (update_ext_bytes A sec)" using update_flags_bits(1) [OF uf] by (simp add: length_update_ext)
  have sz64: "(sizeof_NVAR + (if ?ap then n else 0) + length Data + x) mod 2 ^ 64 = sz"
    using sp(2) by (cases ?ap) (simp_all add: sz_def D xl sizeof_NVAR_def)
  have b: "?pV + sz + 16 * (NextGuid info + 1) + 10 \<le> NvramAddress info + NvramSize info"
    using IsEnoughSpace_bound [OF _ sp(1)] sp(2) s by (simp add: store_ok_def)
  have s16: "sz < 2 ^ 16" and sz32: "sz < 2 ^ 32" using sp(2) by simp_all
  have er: "erased m ?pV (?pV + sz)"
    using s b erased_sub [of m ?pV "guid_area info" ?pV "?pV + sz"] by (simp add: store_ok_def guid_area_def)
  have old: "rd_bytes (wr_bytes m ?pV bs) a n = rd_bytes m a n" for bs
    using NvGetData_bounds(2) [OF s p _ _ d] NvFindVariable_Some [OF f]
    by (intro rd_bytes_wr_disjoint) (auto simp: NvIsValid_iff)
  define m1 where "m1 = wr_bytes m ?pV (update_bytes A sec D)"
  define info' where "info' = info\<lparr>pEndOfVars := ?pV + sz, LastVarSize := sz mod 2 ^ 16\<rparr>"
  define m2 where "m2 = wr_bytes m1 (L + 6) (le_bytes 3 (?pV - L))"
  note ap = update_appends [OF s sp _ sz_def m1_def info'_def]
  have "D \<noteq> []" using Dn by (simp add: D)
  note ap = ap [OF this]
  have rl: "relink m info m1 info' L m2" using s ap Ln Le by (intro relink.intro) (auto simp: m2_def)
  define st1 where "st1 = w_adv WB (nvar_header sz FLASH_EMPTY_NEXT fl) (True, ?pV, m)"
  define st2 where "st2 = (if ?ap then w_adv WB (rd_bytes m a n) st1 else st1)"
  define st4 where "st4 = write_update_ext WB A e sec x (?pV + sz - 2) (w_adv WB Data st2)"
  have D': "D = (if ?ap then rd_bytes m a n else []) @ Data" by (rule D)
  have st2': "st2 = (if ?ap then w_adv WB (if ?ap then rd_bytes m a n else []) st1 else st1)" by (simp add: st2_def)
  have "\<not> ?ap \<Longrightarrow> (if ?ap then rd_bytes m a n else []) = []" by simp
  note wr = write_interface.update_record_written [OF w uf sz_def [folded xl] sz32 er D' st1_def this st2' st4_def]
  from wr(2) obtain q where sg: "w_at WB ?pV (le_bytes 4 NVAR_SIGNATURE) st4 = (True, q, m1)" by (auto simp: m1_def)
  have st1': "st1 = (True, ?pV + 10, wr_bytes m ?pV (nvar_header sz FLASH_EMPTY_NEXT fl))" using wr(1) by simp
  have nx: "rd_bytes m1 (L + 6) 3 = replicate 3 0xFF"
    using relink.old(4) [OF rl Ln] Le le_bytes_le_nat [of "rd_bytes m1 (L + 6) 3"]
    by (simp add: nvar_next_def rd_def le_bytes_empty_next)
  then have "list_all2 programmable_byte (rd_bytes m1 (L + 6) (length (le_bytes 3 (?pV - L)))) (le_bytes 3 (?pV - L))"
    by (simp add: list_all2_conv_all_nth)
  from write_interface.write_clearing [OF w this]
  have lk: "w_at WB (L + 6) (le_bytes 3 (?pV - L)) (True, q, m1) = (True, q, m2)"
    by (simp add: w_at_def m2_def)
  have lay: "layout_ok info" using s by (simp add: store_ok_def)
  have gi: "store_grows m info m1 info" using relink.grows [OF rl] by (auto simp: store_grows_def info'_def)
  have last: "NvGetDataNvar m1 p info = Some L"
    using NvGetDataNvar_grow [OF s gi lay p] L(1) by (simp add: NvGetDataNvar_def)
  have on: "NvGetData m (case Entry of Some (Some f) \<Rightarrow> f | _ \<Rightarrow> p) k info = Some (a, n)"
    by (rule entry_data [OF s f d en])
  have lv: "(case Entry of Some (Some f) \<Rightarrow> Some f | _ \<Rightarrow> NvGetDataNvar m1 p info) = Some L"
    using en last L(1) by (auto simp: entry_ok_def split: option.splits)
  have ne: "\<not> (\<not> ?ap \<and> n = length Data \<and> rd_bytes m a n = Data
      \<and> (\<not> False \<or> has (nvar_flags m p) NVRAM_FLAG_EXT_HEDER))" using ch by auto
  have s2: "(if ?ap then (case st1 of (ok, p, m1) \<Rightarrow> w_adv WB (rd_bytes m1 a n) st1) else st1) = st2"
    by (simp add: st2_def st1' old)
  have szm: "sz mod 2 ^ 16 = sz" using s16 by simp
  have "UpdateVariable WB False p k A Data Entry sec info m =
      Some (EFI_SUCCESS, map_option (\<lambda>_. Some ?pV) Entry, info', m2)"
    unfolding UpdateVariable_def Let_def on uf prod.case sz64 szm bind.bind_lunit
      st1_def [symmetric] s2 st4_def [symmetric]
    using at ne sp(1) s16
    by (auto simp: sg lv lk write_checksum_ext_def info'_def szm del: not_None_eq)
  with L(1) rl ap(3,4) show ?thesis by blast
qed


interpretation updA: relink "snd store_A" "fst store_A"
  "wr_bytes (snd store_A) (pEndOfVars (fst store_A)) (update_bytes 7 no_ext_flags [5])"
  "(fst store_A)\<lparr>pEndOfVars := pEndOfVars (fst store_A) + 11, LastVarSize := 11\<rparr>" "0x10000"
  "wr_bytes (wr_bytes (snd store_A) (pEndOfVars (fst store_A)) (update_bytes 7 no_ext_flags [5]))
     (0x10000 + 6) (le_bytes 3 (pEndOfVars (fst store_A) - 0x10000))"
proof unfold_locales
  have z: "11 = 10 + length [5 :: u8] + length (update_ext_bytes 7 no_ext_flags)" by code_simp
  have "IsEnoughSpace (fst store_A) 11" by code_simp
  note a = update_appends [OF store_A_ok this _ _ z refl refl]
  from a(1,2) show "appends (snd store_A) (fst store_A)
      (wr_bytes (snd store_A) (pEndOfVars (fst store_A)) (update_bytes 7 no_ext_flags [5]))
      ((fst store_A)\<lparr>pEndOfVars := pEndOfVars (fst store_A) + 11, LastVarSize := 11\<rparr>)"
    "has (nvar_flags (wr_bytes (snd store_A) (pEndOfVars (fst store_A)) (update_bytes 7 no_ext_flags [5]))
      (pEndOfVars (fst store_A))) NVRAM_FLAG_DATA_ONLY" by simp_all
  show "0x10000 \<in> set (nvars (snd store_A) (fst store_A))" by code_simp
  show "nvar_next (snd store_A) 0x10000 = FLASH_EMPTY_NEXT" by code_simp
qed (simp_all add: store_A_ok)

text \<open>C2: update then get.  \<^verbatim>\<open>UpdateVariable\<close> of a variable found in a well-formed store, with
  attributes that match and room for the new record, succeeds and keeps the store well formed;
  \<^verbatim>\<open>NvGetVariable\<close> then returns the new data, or the old data followed by the new when the update is
  an append write, with the attributes the variable had; the index entry, if one was passed, names
  the record that now holds the data; every other variable reads as before.  The theorem covers the
  update that writes nothing because the data is already there.\<close>

theorem UpdateVariable_roundtrip:
  assumes "write_interface WB" and "store_ok m info" and "NvFindVariable m nm g info = Some (p, k)"
    and "NvGetData m p k info = Some (a, n)" and "update_ok m info p A (rd_bytes m a n) Data Entry sec"
    and "D = (if has A EFI_VARIABLE_APPEND_WRITE then rd_bytes m a n else []) @ Data" and "length D \<le> N"
  shows "\<exists>Entry' info' m'. UpdateVariable WB False p k A Data Entry sec info m = Some (EFI_SUCCESS, Entry', info', m')
    \<and> store_ok m' info' \<and> entry_ok m' info' p Entry'
    \<and> NvGetVariable m' \<lparr>ga_VariableName = Some nm, ga_VendorGuid = Some g, ga_Attributes = True,
         ga_DataSize = Some N, ga_Data = True\<rparr> info' =
       \<lparr>gr_Status = EFI_SUCCESS, gr_Attributes = Some (nvar_attributes m p info),
        gr_DataSize = Some (length D), gr_Data = Some D, gr_Var = Some p\<rparr>
    \<and> (\<forall>b s h. ga_VariableName b = Some s \<and> ga_VendorGuid b = Some h
          \<and> (c_string s, h) \<noteq> (c_string nm, g) \<longrightarrow>
        NvGetVariable m' b info' = NvGetVariable m b info)"
proof (cases "has A EFI_VARIABLE_APPEND_WRITE \<or> rd_bytes m a n \<noteq> Data")
  case False
  then have D: "D = Data" "rd_bytes m a n = Data" "n = length Data" using assms(6) by auto
  have en: "entry_ok m info p Entry" and at: "NvAttribEq m p A info" using assms(5) by (auto simp: update_ok_def)
  have "NvGetData m (case Entry of Some (Some f) \<Rightarrow> f | _ \<Rightarrow> p) k info = Some (a, n)"
    by (rule entry_data [OF assms(2-4) en])
  then have "UpdateVariable WB False p k A Data Entry sec info m = Some (EFI_SUCCESS, Entry, info, m)"
    using False at D by (auto simp: UpdateVariable_def Let_def split: prod.splits)
  then show ?thesis using assms(2-4,7) en D by (simp add: NvGetVariable_cases)
next
  case True
  from UpdateVariable_success [OF assms(1-5) True assms(6)] obtain L info' m1 m2
    where u: "UpdateVariable WB False p k A Data Entry sec info m =
        Some (EFI_SUCCESS, map_option (\<lambda>_. Some (pEndOfVars info)) Entry, info', m2)"
      and L: "NvGetDataNvar m p info = Some L" and r: "relink m info m1 info' L m2"
      and D: "rd_bytes m1 (pEndOfVars info + 10) (length D) = D"
        "nvar_size m1 (pEndOfVars info) = 10 + length D + ext_size m1 (pEndOfVars info)" by blast
  from NvFindVariable_Some [OF assms(3)] have p: "p \<in> set (nvars m info)"
    and v: "\<not> has (nvar_flags m p) NVRAM_FLAG_DATA_ONLY" and e: "NvVarEq m p nm g info = Some k"
    by (auto simp: valid_nvars_def NvIsValid_iff)
  have "NvVarEq m p s h info = None" if "(c_string s, h) \<noteq> (c_string nm, g)" for s h
    using that NvVarEq_unique [OF _ e, of s h] by (cases "NvVarEq m p s h info") auto
  note o = relink.get_other [OF r p v L this]
  have "entry_ok m2 info' p (map_option (\<lambda>_. Some (pEndOfVars info)) Entry)"
    using relink.relinked [OF r p] L by (simp add: entry_ok_def split: option.splits)
  with u relink.stays_ok [OF r] relink.get_updated [OF r assms(3) L _ _ _ _ D assms(7)] o
  show ?thesis by auto
qed

theorem UpdateVariable_roundtrip_witness:
  "\<exists>Entry' info' m'. UpdateVariable MemProgram False 0x10000 2 0x47 [5] (Some None) no_ext_flags (fst store_A) (snd store_A)
       = Some (EFI_SUCCESS, Entry', info', m')
    \<and> gr_Data (NvGetVariable m' \<lparr>ga_VariableName = Some [65], ga_VendorGuid = Some guid_A,
         ga_Attributes = True, ga_DataSize = Some 8, ga_Data = True\<rparr> info') = Some [1, 2, 3, 5]"
proof -
  have f: "NvFindVariable (snd store_A) [65] guid_A (fst store_A) = Some (0x10000, 2)" by code_simp
  have d: "NvGetData (snd store_A) 0x10000 2 (fst store_A) = Some (0x1000D, 3)" by code_simp
  have u: "update_ok (snd store_A) (fst store_A) 0x10000 0x47 (rd_bytes (snd store_A) 0x1000D 3) [5] (Some None) no_ext_flags"
    by code_simp
  have D: "[1, 2, 3, 5] = (if has (0x47 :: u32) EFI_VARIABLE_APPEND_WRITE then rd_bytes (snd store_A) 0x1000D 3 else []) @ [5]"
    by code_simp
  have "length [1, 2, 3, 5 :: u8] \<le> 8" by simp
  from UpdateVariable_roundtrip [OF memp.write_interface_axioms store_A_ok f d u D this] show ?thesis by fastforce
qed

end
