(* ===== verification/NvramReclaim.thy ===== *)
theory NvramReclaim
  imports NvramCreate
begin

text \<open>
  Reclaiming a store: \<^verbatim>\<open>CopyVariables\<close> enumerates the variables of a well-formed store and creates each of
  them in another one.  The theory shows that the copy ends, and that a successful copy answers every
  \<^verbatim>\<open>NvGetVariable\<close> call like the source, for all variables the filter keeps, and has no other variable.

  First come the routines on a store while memory outside it changes.
\<close>

section \<open>A store while other memory changes\<close>

definition same_store :: "NVRAM_STORE_INFO \<Rightarrow> memory \<Rightarrow> memory \<Rightarrow> bool" where
  "same_store info m m' \<longleftrightarrow> same_on (NvramAddress info) (NvramAddress info + NvramSize info) m m'"

lemma same_store_trans: "same_store info m m' \<Longrightarrow> same_store info m' m'' \<Longrightarrow> same_store info m m''"
  by (auto simp: same_store_def intro: same_on_trans)

lemma same_store_grows:
  assumes "layout_ok info" "same_store info m m'"
  shows "store_grows m info m' info"
proof -
  have l: "NvramAddress info \<le> pFirstVar info" "pEndOfVars info \<le> NvramAddress info + NvramSize info"
    "pFirstVar info \<le> pEndOfVars info" "NvramAddress info \<le> guid_area info"
    using assms(1) by (auto simp: layout_ok_def guid_area_def)
  have sm: "same_on (NvramAddress info) (NvramAddress info + NvramSize info) m m'"
    using assms(2) by (simp add: same_store_def)
  have "same_on (pFirstVar info) (pEndOfVars info) m m'" by (rule same_on_sub [OF sm]) (use l in auto)
  moreover have "same_on (guid_area info) (NvramAddress info + NvramSize info) m m'"
    by (rule same_on_sub [OF sm]) (use l in auto)
  ultimately show ?thesis by (simp add: store_grows_def)
qed

text \<open>A well-formed store in a memory that agrees with another one on it.\<close>

locale frozen =
  fixes m :: memory and info :: NVRAM_STORE_INFO and m' :: memory
  assumes s: "store_ok m info" and same: "same_store info m m'"
begin

lemma lay: "layout_ok info" using s by (simp add: store_ok_def)

lemmas g = same_store_grows [OF lay same]
lemmas old = old_record_grow [OF s g lay]

lemma nvars_same: "nvars m' info = nvars m info"
proof -
  have l: "pEndOfVars info - pFirstVar info < 2 ^ 32" by (rule layout_end [OF lay])
  have c: "chain m info (pFirstVar info)" using s by (simp add: store_ok_def)
  have sm: "same_on (pFirstVar info) (pEndOfVars info) m m'" using g by (simp add: store_grows_def)
  from chain_grow [OF c sm order_refl l] have n: "nvars_from m' info (pFirstVar info) = nvars_from m info (pFirstVar info)"
    by simp
  show ?thesis
  proof (cases "pFirstVar info = pEndOfVars info")
    case True
    then show ?thesis by (simp add: nvars_def)
  next
    case False
    with s have v: "NvIsVariable m (pFirstVar info) info" by (simp add: store_ok_def)
    then have "pFirstVar info \<in> set (nvars m info)" by (simp add: nvars_def nvars_from_variable)
    from old(1) [OF this] n v show ?thesis by (simp add: nvars_def)
  qed
qed

lemma valid_same: "set zs \<subseteq> set (nvars m info) \<Longrightarrow> filter (NvIsValid m') zs = filter (NvIsValid m) zs"
  using old(2) by (intro filter_cong) auto

lemma valid_nvars_same: "valid_nvars m' info = valid_nvars m info"
  using valid_same [of "nvars m info"] by (simp add: valid_nvars_def nvars_same)

lemma VarEq_same: "p \<in> set (valid_nvars m info) \<Longrightarrow> NvVarEq m' p n h info = NvVarEq m p n h info"
  using NvVarEq_grow(1) [OF s g] by (auto simp: valid_nvars_def NvIsValid_def)

lemma find_same: "NvFindVariable m' n h info = NvFindVariable m n h info"
proof -
  have "List.find (\<lambda>p. NvVarEq m' p n h info \<noteq> None) (valid_nvars m info) =
      List.find (\<lambda>p. NvVarEq m p n h info \<noteq> None) (valid_nvars m info)"
    by (rule find_cong_set) (simp add: VarEq_same)
  moreover have "p \<in> set (valid_nvars m info)" if "List.find P (valid_nvars m info) = Some p" for P p
    using that by (metis find_Some_iff nth_mem)
  ultimately show ?thesis
    using VarEq_same by (cases "List.find (\<lambda>p. NvVarEq m p n h info \<noteq> None) (valid_nvars m info)")
      (simp_all add: NvFindVariable_find valid_nvars_same del: not_None_eq)
qed

lemma get_frozen: "NvGetVariable m' b info = NvGetVariable m b info"
proof (cases "get_args_ok b")
  case False
  then show ?thesis by (simp add: NvGetVariable_bad_args)
next
  case True
  then obtain nm h n where b: "ga_VariableName b = Some nm" "ga_VendorGuid b = Some h" "ga_DataSize b = Some n"
    "ga_Data b \<or> n = 0" by (auto simp: get_args_ok_def)
  show ?thesis
  proof (cases "NvFindVariable m nm h info")
    case None
    then show ?thesis by (simp add: NvGetVariable_cases [OF b] find_same)
  next
    case (Some r)
    obtain p k where r: "r = (p, k)" by (cases r)
    note f = NvFindVariable_Some [OF Some [unfolded r]]
    then have p: "p \<in> set (nvars m info)" "\<not> has (nvar_flags m p) NVRAM_FLAG_DATA_ONLY"
      by (auto simp: valid_nvars_def NvIsValid_def)
    obtain x l where d: "NvGetData m p k info = Some (x, l)" using NvGetData_Some [OF f(3)] by blast
    note bd = NvGetData_bounds [OF s p f(2) d]
    have sm: "same_on (pFirstVar info) (pEndOfVars info) m m'" using g by (simp add: store_grows_def)
    from rd_bytes_cong [OF sm bd] d NvGetData_grow [OF s g lay p(1), of k] grow_attributes [OF s g p(1)]
    show ?thesis by (simp add: NvGetVariable_cases [OF b] find_same Some r)
  qed
qed

end

lemma rd_cong_bytes: "rd_bytes m' a k = rd_bytes m a k \<Longrightarrow> rd k m' a = rd k m a"
  by (simp add: rd_def)

lemma name_at_cong:
  "name_at w m a cs \<Longrightarrow> same_on a (a + w * (length cs + 1)) m m' \<Longrightarrow> name_at w m' a cs"
proof (induction cs arbitrary: a)
  case Nil
  then have "rd w m a = rd w m' a" by (intro rd_cong) auto
  with Nil show ?case by (simp add: name_char_def)
next
  case (Cons c cs)
  have "rd w m a = rd w m' a" using Cons.prems by (intro rd_cong) auto
  moreover have "same_on (a + w) (a + w + w * (length cs + 1)) m m'"
    using Cons.prems(2) by (auto intro: same_on_sub simp: algebra_simps)
  ultimately show ?case using Cons.prems Cons.IH by (simp add: name_char_def)
qed

section \<open>The enumeration step by step\<close>

abbreviation name_call :: "nat \<Rightarrow> char16 list \<Rightarrow> u8 list \<Rightarrow> name_args" where
  "name_call buf n g \<equiv> \<lparr>na_VariableNameSize = Some buf, na_VariableName = Some n, na_VendorGuid = Some g\<rparr>"

definition guid_of :: "memory \<Rightarrow> NVRAM_STORE_INFO \<Rightarrow> nat \<Rightarrow> u8 list" where
  "guid_of m info p = rd_bytes m (NvGetGuid m p info) sizeof_GUID"

lemma first_name:
  assumes "named m buf names (valid_nvars m info)"
  shows "case valid_nvars m info of
      [] \<Rightarrow> \<exists>a. NvGetNextVariableName m (name_call buf [] g) info False = Some (EFI_NOT_FOUND, a, info\<lparr>pLastReturned := None\<rparr>)
    | y # ys \<Rightarrow> \<exists>k. NvGetNextVariableName m (name_call buf [] g) info False =
        Some (EFI_SUCCESS, name_call k (names y) (guid_of m info y), info\<lparr>pLastReturned := Some y\<rparr>)"
proof (cases "valid_nvars m info")
  case Nil
  then have "NvGetFirstValid m info = None"
    by (simp add: valid_nvars_def NvGetFirstValid_find find_None_iff filter_empty_conv)
  with Nil show ?thesis
    by (simp add: NvGetNextVariableName_def NvGetNextVariableNvar_def next_start_def name0_def)
next
  case (Cons y ys)
  then have f: "filter (NvIsValid m) (nvars_from m info (pFirstVar info)) = y # ys"
    and n: "nvars m info = nvars_from m info (pFirstVar info)"
    by (auto simp: valid_nvars_def nvars_def split: if_splits)
  from assms Cons have nm: "named m buf names (y # ys)" by simp
  from NvGetNameFromNvar_named [OF nm, of "[]" g info] valid_after(1) [OF f] n Cons
  show ?thesis
    by (auto simp: NvGetNextVariableName_def NvGetNextVariableNvar_def next_start_def name0_def
        NvGetFirstValid_find guid_of_def)
qed

lemma next_name:
  assumes "NvIsVariable m p info" and nm: "named m buf names (p # ys)"
    and ys: "ys = filter (NvIsValid m) (nvars_from m info (p + nvar_size m p))"
  shows "case ys of
      [] \<Rightarrow> \<exists>a. NvGetNextVariableName m (name_call buf (names p) (guid_of m info p)) (info\<lparr>pLastReturned := Some p\<rparr>) False =
          Some (EFI_NOT_FOUND, a, info\<lparr>pLastReturned := None\<rparr>)
    | y # ys \<Rightarrow> \<exists>k. NvGetNextVariableName m (name_call buf (names p) (guid_of m info p)) (info\<lparr>pLastReturned := Some p\<rparr>) False =
        Some (EFI_SUCCESS, name_call k (names y) (guid_of m info y), info\<lparr>pLastReturned := Some y\<rparr>)"
proof -
  let ?i = "info\<lparr>pLastReturned := Some p\<rparr>"
  from nm have n: "name_at (name_width m p) m (NvGetName m p) (names p)" "names p \<noteq> []"
    by (auto simp: named_def)
  then have n0: "name0 (names p) \<noteq> 0" by (cases "names p") (auto simp: name0_def)
  show ?thesis
  proof (cases ys)
    case Nil
    have "NvGetNextValid m (Some p) ?i = None"
      using assms(1) ys [symmetric] Nil by (simp add: NvGetNextValid_find find_None_iff filter_empty_conv)
    with n0 n assms(1) Nil show ?thesis
      by (simp add: NvGetNextVariableName_def NvGetNextVariableNvar_def next_start_def NvVarEq_def name_at_eq guid_of_def)
  next
    case (Cons y zs)
    have nx: "NvGetNextValid m (Some p) ?i = Some y"
      using assms(1) valid_after(1) [OF ys [symmetric, unfolded Cons]] by (simp add: NvGetNextValid_find)
    have nm': "named m buf names (y # zs)" using nm Cons by (auto simp: named_def)
    from NvGetNameFromNvar_named [OF nm', of "names p" "guid_of m info p" ?i] n0 n assms(1) nx Cons
    show ?thesis
      by (auto simp: NvGetNextVariableName_def NvGetNextVariableNvar_def next_start_def NvVarEq_def
          name_at_eq guid_of_def)
  qed
qed

section \<open>Named variables\<close>

lemma NvVarEq_pLast [simp]: "NvVarEq m p n g (info\<lparr>pLastReturned := x\<rparr>) = NvVarEq m p n g info"
  by (simp add: NvVarEq_def cong: option.case_cong)

lemma valid_nvars_pLast [simp]: "valid_nvars m (info\<lparr>pLastReturned := x\<rparr>) = valid_nvars m info"
  by (simp add: valid_nvars_def)

lemma NvFindVariable_pLast [simp]: "NvFindVariable m n g (info\<lparr>pLastReturned := x\<rparr>) = NvFindVariable m n g info"
  by (simp add: NvFindVariable_find)

lemma NvGetDataNvar_loop_pLast: "NvGetDataNvar_loop m (info\<lparr>pLastReturned := x\<rparr>) p l = NvGetDataNvar_loop m info p l"
proof (induction m info p l rule: NvGetDataNvar_loop.induct)
  case (1 m info p l)
  then show ?case by (simp add: NvGetDataNvar_loop.simps [of m _ p])
qed

lemma NvGetData_pLast [simp]: "NvGetData m p k (info\<lparr>pLastReturned := x\<rparr>) = NvGetData m p k info"
  by (simp cong: option.case_cong add: NvGetData_def NvGetDataNvar_def NvGetDataNvar_loop_pLast)

lemma nvar_attributes_pLast [simp]: "nvar_attributes m p (info\<lparr>pLastReturned := x\<rparr>) = nvar_attributes m p info"
  by (simp add: nvar_attributes_def)

lemma NvGetVariable_pLast [simp]: "NvGetVariable m b (info\<lparr>pLastReturned := x\<rparr>) = NvGetVariable m b info"
proof (cases "get_args_ok b")
  case False
  then show ?thesis by (simp add: NvGetVariable_bad_args)
next
  case True
  then obtain nm h n where "ga_VariableName b = Some nm" "ga_VendorGuid b = Some h" "ga_DataSize b = Some n"
    "ga_Data b \<or> n = 0" by (auto simp: get_args_ok_def)
  then show ?thesis by (simp add: NvGetVariable_cases split: option.split prod.split)
qed

lemma guid_of_pLast [simp]: "guid_of m (info\<lparr>pLastReturned := x\<rparr>) p = guid_of m info p"
  by (simp add: guid_of_def)

text \<open>The name and GUID of a record, when every valid record has a name that fits the buffers of the
  copy.\<close>

definition name_size :: "memory \<Rightarrow> (nat \<Rightarrow> char16 list) \<Rightarrow> nat \<Rightarrow> nat" where
  "name_size m names p = name_width m p * (length (names p) + 1)"

definition var_key :: "memory \<Rightarrow> NVRAM_STORE_INFO \<Rightarrow> (nat \<Rightarrow> char16 list) \<Rightarrow> nat \<Rightarrow> char16 list \<times> u8 list" where
  "var_key m info names p = (names p, guid_of m info p)"

lemma named_matches:
  assumes "named m buf names ps" "p \<in> set ps"
  shows "NvVarEq m p nm g info = (if (c_string nm, g) = var_key m info names p then Some (name_size m names p) else None)"
    "c_string (names p) = names p"
proof -
  from assms have n: "name_at (name_width m p) m (NvGetName m p) (names p)" by (auto simp: named_def)
  show c: "c_string (names p) = names p" by (rule name_at_unique [OF n name_at_eq [OF n]])
  show "NvVarEq m p nm g info = (if (c_string nm, g) = var_key m info names p then Some (name_size m names p) else None)"
  proof (cases "NvVarEq_name (name_width m p) m (NvGetName m p) nm")
    case None
    have "c_string nm \<noteq> names p"
    proof
      assume "c_string nm = names p"
      with name_at_eq [OF n] None show False by (simp add: NvVarEq_name_c_string [of _ _ _ nm])
    qed
    with None show ?thesis by (simp add: NvVarEq_def var_key_def)
  next
    case (Some q)
    from name_at_unique [OF n Some] have "c_string nm = names p" .
    moreover from this have "q = NvGetName m p + name_width m p * (length (names p) + 1)"
      using Some name_at_eq [OF n] by (simp add: NvVarEq_name_c_string [of _ _ _ nm])
    ultimately show ?thesis
      using Some by (auto simp: NvVarEq_def var_key_def guid_of_def name_size_def)
  qed
qed

text \<open>With distinct names the lookup of a name finds its record.\<close>

lemma find_named:
  assumes nm: "named m buf names (valid_nvars m info)" and d: "distinct (map (var_key m info names) (valid_nvars m info))"
    and p: "p \<in> set (valid_nvars m info)" and k: "(c_string n, g) = var_key m info names p"
  shows "NvFindVariable m n g info = Some (p, name_size m names p)"
proof -
  have P: "NvVarEq m q n g info \<noteq> None \<longleftrightarrow> q = p" if "q \<in> set (valid_nvars m info)" for q
    using named_matches(1) [OF nm that, of n g info] k d p that by (auto simp: distinct_map inj_on_def)
  have "List.find (\<lambda>q. NvVarEq m q n g info \<noteq> None) (valid_nvars m info) = List.find (\<lambda>q. q = p) (valid_nvars m info)"
    by (rule find_cong_set) (use P in blast)
  moreover have "List.find (\<lambda>q. q = p) xs = Some p" if "p \<in> set xs" for xs using that by (induction xs) auto
  ultimately show ?thesis
    using p named_matches(1) [OF nm p, of n g info] k by (simp add: NvFindVariable_find del: not_None_eq)
qed

lemma find_none:
  assumes nm: "named m buf names (valid_nvars m info)" and k: "(c_string n, g) \<notin> var_key m info names ` set (valid_nvars m info)"
  shows "NvFindVariable m n g info = None"
proof -
  have "NvVarEq m q n g info = None" if "q \<in> set (valid_nvars m info)" for q
    using named_matches(1) [OF nm that, of n g info] k that by auto
  then show ?thesis by (simp add: NvFindVariable_find find_None_iff)
qed

context frozen
begin

lemma named_same:
  assumes "named m buf names ps" "set ps \<subseteq> set (valid_nvars m info)"
  shows "named m' buf names ps"
proof -
  have "name_at (name_width m' p) m' (NvGetName m' p) (names p)" if "p \<in> set ps" for p
  proof -
    from that assms have n: "name_at (name_width m p) m (NvGetName m p) (names p)" and p: "p \<in> set (nvars m info)"
      and v: "\<not> has (nvar_flags m p) NVRAM_FLAG_DATA_ONLY"
      by (auto simp: named_def valid_nvars_def NvIsValid_def)
    note d = store_okD [OF s p]
    note sm = grows_same(1) [OF s g p]
    note x = ext_cong [OF sm d(3)]
    from d(6) v have f: "name_fits (name_width m p) m (NvGetName m p) (p + nvar_size m p - ext_size m p)"
      by (simp add: var_ok_def)
    have "p \<le> NvGetName m p" by (simp add: NvGetName_def)
    with name_eq_bound [OF f name_at_eq [OF n]]
    have "same_on (NvGetName m p) (NvGetName m p + name_width m p * (length (names p) + 1)) m m'"
      by (intro same_on_sub [OF sm]) auto
    from name_at_cong [OF n this] x show ?thesis by simp
  qed
  with assms show ?thesis by (auto simp: named_def)
qed

lemma guid_same:
  assumes "named m buf names (valid_nvars m info)" "p \<in> set (valid_nvars m info)"
  shows "guid_of m' info p = guid_of m info p"
proof -
  have "NvVarEq m p (names p) (guid_of m info p) info \<noteq> None"
    using named_matches [OF assms] by (simp add: var_key_def)
  then have "NvVarEq m' p (names p) (guid_of m info p) info \<noteq> None" using VarEq_same [OF assms(2)] by simp
  then show ?thesis
    using named_matches(1) [OF named_same [OF assms(1)] assms(2)] by (auto simp: var_key_def split: if_splits)
qed

text \<open>The next step of the enumeration, from the record before \<open>zs\<close>.\<close>

lemma next_name_same:
  assumes nm: "named m buf names (valid_nvars m info)"
    and sp: "nvars m info = xs @ p # zs" "NvIsValid m p"
  shows "case filter (NvIsValid m) zs of
      [] \<Rightarrow> \<exists>a. NvGetNextVariableName m' (name_call buf (names p) (guid_of m info p)) (info\<lparr>pLastReturned := Some p\<rparr>) False =
          Some (EFI_NOT_FOUND, a, info\<lparr>pLastReturned := None\<rparr>)
    | y # ys \<Rightarrow> \<exists>k. NvGetNextVariableName m' (name_call buf (names p) (guid_of m info p)) (info\<lparr>pLastReturned := Some p\<rparr>) False =
        Some (EFI_SUCCESS, name_call k (names y) (guid_of m info y), info\<lparr>pLastReturned := Some y\<rparr>)"
proof -
  have p: "p \<in> set (nvars m info)" and z: "set zs \<subseteq> set (nvars m info)" using sp(1) by auto
  have vp: "p \<in> set (valid_nvars m info)" using p sp(2) by (simp add: valid_nvars_def)
  have sub: "set (p # filter (NvIsValid m) zs) \<subseteq> set (valid_nvars m info)" using vp z by (auto simp: valid_nvars_def)
  have "zs = nvars_from m' info (p + nvar_size m' p)"
    using nvars_from_suffix [of m' info "pFirstVar info" xs p zs] nvars_same sp(1)
    by (simp add: nvars_def split: if_splits)
  with valid_same [OF z] have zs: "filter (NvIsValid m) zs = filter (NvIsValid m') (nvars_from m' info (p + nvar_size m' p))"
    by simp
  have "named m buf names (p # filter (NvIsValid m) zs)" using nm sub by (auto simp: named_def)
  note n = named_same [OF this sub]
  have "guid_of m' info p = guid_of m info p" by (rule guid_same [OF nm vp])
  moreover have "guid_of m' info y = guid_of m info y" if "filter (NvIsValid m) zs = y # ys" for y ys
    by (rule guid_same [OF nm]) (use sub that in auto)
  ultimately show ?thesis
    using next_name [OF old(1) [OF p] n zs] by (auto split: list.splits)
qed

end

section \<open>Copying one variable\<close>

text \<open>Attributes survive being written to a new record and read back.\<close>

lemma attributes_again:
  assumes "has (Flags new) NVRAM_STORE_FLAG_NON_VALATILE = has (Flags info) NVRAM_STORE_FLAG_NON_VALATILE"
  shows "EFI_VARIABLE_BOOTSERVICE_ACCESS
     OR (nvar_attributes m p info AND (EFI_VARIABLE_RUNTIME_ACCESS OR EFI_VARIABLE_HARDWARE_ERROR_RECORD
                OR UEFI23_1_AUTHENTICATED_VARIABLE_ATTRIBUTES))
     OR (if has (Flags new) NVRAM_STORE_FLAG_NON_VALATILE then EFI_VARIABLE_NON_VOLATILE else 0)
    = nvar_attributes m p info"
proof -
  define x where "x = (if has (nvar_flags m p) NVRAM_FLAG_AUTH_WRITE
    then ucast (m (NvGetExtFlags m p)) AND UEFI23_1_AUTHENTICATED_VARIABLE_ATTRIBUTES else (0 :: u32))"
  have x: "x AND 60 = x"
    by (simp add: x_def nv_consts and.assoc)
  have "nvar_attributes m p info = 2 OR (if has (nvar_flags m p) NVRAM_FLAG_RUNTIME then 4 else 0)
      OR (if has (Flags info) NVRAM_STORE_FLAG_NON_VALATILE then 1 else 0)
      OR (if has (nvar_flags m p) NVRAM_FLAG_HARDWARE_ERROR_RECORD then 8 else 0) OR x"
    by (simp add: nvar_attributes_def x_def nv_consts)
  with x assms show ?thesis
    by (auto simp: nv_consts bit.conj_disj_distrib2 or.assoc or.commute or.left_commute)
qed

definition without_record :: "get_result \<Rightarrow> get_result" where
  "without_record r = r\<lparr>gr_Var := None\<rparr>"

text \<open>The new store answers for exactly the variables in \<open>K\<close>, and like the old one.\<close>

definition answers :: "memory \<Rightarrow> NVRAM_STORE_INFO \<Rightarrow> (char16 list \<times> u8 list) set \<Rightarrow> memory \<Rightarrow> NVRAM_STORE_INFO \<Rightarrow> bool" where
  "answers m info K m' new \<longleftrightarrow>
     (\<forall>(b :: get_args) nm g. ga_VariableName b = Some nm \<longrightarrow> ga_VendorGuid b = Some g \<longrightarrow>
        (if (c_string nm, g) \<in> K then without_record (NvGetVariable m' b new) = without_record (NvGetVariable m b info)
         else NvFindVariable m' nm g new = None))"

text \<open>The largest record that the variable at \<open>p\<close> can need in the new store.\<close>

definition copy_size :: "memory \<Rightarrow> NVRAM_STORE_INFO \<Rightarrow> (nat \<Rightarrow> char16 list) \<Rightarrow> nat \<Rightarrow> nat" where
  "copy_size m info names p =
     10 + 16 + length (name_bytes (names p)) + 43
     + (case NvGetData m p (name_size m names p) info of Some (a, n) \<Rightarrow> n | None \<Rightarrow> 0)"

text \<open>What a copy needs: a well-formed source whose variables have distinct names that fit the buffers
  and whose records fit the size field, and a well-formed store outside it.\<close>

definition source_ok :: "memory \<Rightarrow> NVRAM_STORE_INFO \<Rightarrow> (nat \<Rightarrow> char16 list) \<Rightarrow> bool" where
  "source_ok m info names \<longleftrightarrow>
     store_ok m info \<and> named m (NvramSize info) names (valid_nvars m info)
     \<and> distinct (map (var_key m info names) (valid_nvars m info))
     \<and> (\<forall>p\<in>set (valid_nvars m info). copy_size m info names p < 0xFFFF)"

definition dest_ok :: "NVRAM_STORE_INFO \<Rightarrow> memory \<Rightarrow> NVRAM_STORE_INFO \<Rightarrow> bool" where
  "dest_ok info m' new \<longleftrightarrow>
     store_ok m' new
     \<and> (NvramAddress new + NvramSize new \<le> NvramAddress info \<or> NvramAddress info + NvramSize info \<le> NvramAddress new)
     \<and> has (Flags new) NVRAM_STORE_FLAG_NON_VALATILE = has (Flags info) NVRAM_STORE_FLAG_NON_VALATILE"

text \<open>Room for \<open>n\<close> more variables of \<open>k\<close> bytes in all.\<close>

definition room :: "NVRAM_STORE_INFO \<Rightarrow> nat \<Rightarrow> nat \<Rightarrow> bool" where
  "room new k n \<longleftrightarrow>
     pEndOfVars new + k + 16 * (NextGuid new + n + 1) + 10 \<le> NvramAddress new + NvramSize new"

lemma room_enough:
  assumes "layout_ok new" "room new k 0" "sz \<le> k" "k < 2 ^ 32"
  shows "IsEnoughSpace new sz"
proof -
  let ?e = "NvramAddress new + NvramSize new" and ?k = "16 * (NextGuid new + 1)"
  have l: "?e < 2 ^ 63" using assms(1) by (auto simp: layout_ok_def)
  have r: "pEndOfVars new + sz + ?k + 10 \<le> ?e" using assms(2,3) by (simp add: room_def)
  have "uintn_sub ?e ?k = ?e - ?k" using l r by (intro uintn_sub_le) auto
  moreover have "uintn_sub (?e - ?k) 10 = ?e - ?k - 10" using l r by (intro uintn_sub_le) auto
  moreover have "uintn_add (pEndOfVars new) sz = pEndOfVars new + sz"
    using l r by (simp add: uintn_add_def)
  ultimately show ?thesis using r by (simp add: IsEnoughSpace_def nv_consts)
qed

locale copying = frozen m info m' + write_interface WB
  for m :: memory and info :: NVRAM_STORE_INFO and m' :: memory and WB :: writer +
  fixes names :: "nat \<Rightarrow> char16 list" and new :: NVRAM_STORE_INFO
  assumes src: "source_ok m info names" and dst: "dest_ok info m' new"
begin

lemma nm: "named m (NvramSize info) names (valid_nvars m info)"
  and dist: "distinct (map (var_key m info names) (valid_nvars m info))"
  using src by (auto simp: source_ok_def)

lemma get_source:
  assumes p: "p \<in> set (valid_nvars m info)" and b: "ga_VariableName b = Some n" "ga_VendorGuid b = Some g"
    "ga_DataSize b = Some l" "ga_Data b \<or> l = 0" and k: "(c_string n, g) = var_key m info names p"
  obtains a sz where "NvGetData m p (name_size m names p) info = Some (a, sz)" "sz \<le> NvramSize info"
    "NvGetVariable m b info = \<lparr>gr_Status = if l < sz then EFI_BUFFER_TOO_SMALL else EFI_SUCCESS,
       gr_Attributes = if ga_Attributes b then Some (nvar_attributes m p info) else None,
       gr_DataSize = Some sz, gr_Data = if l < sz then None else Some (rd_bytes m a sz), gr_Var = Some p\<rparr>"
proof -
  note f = find_named [OF nm dist p k]
  note fs = NvFindVariable_Some [OF f]
  then have pn: "p \<in> set (nvars m info)" "\<not> has (nvar_flags m p) NVRAM_FLAG_DATA_ONLY"
    by (auto simp: valid_nvars_def NvIsValid_def)
  obtain a sz where d: "NvGetData m p (name_size m names p) info = Some (a, sz)" using NvGetData_Some [OF fs(3)] by blast
  note bd = NvGetData_bounds [OF s pn fs(2) d]
  have "sz \<le> NvramSize info" using bd lay by (auto simp: layout_ok_def)
  moreover have "NvGetVariable m b info = \<lparr>gr_Status = if l < sz then EFI_BUFFER_TOO_SMALL else EFI_SUCCESS,
       gr_Attributes = if ga_Attributes b then Some (nvar_attributes m p info) else None,
       gr_DataSize = Some sz, gr_Data = if l < sz then None else Some (rd_bytes m a sz), gr_Var = Some p\<rparr>"
    using NvGetVariable_cases [OF b] f d by simp
  ultimately show thesis using d that by blast
qed

lemma copy_create:
  assumes p: "p \<in> set (valid_nvars m info)" and d: "NvGetData m p (name_size m names p) info = Some (a, l)"
    and c: "CopyVariable WB False (names p) (guid_of m info p) (NvramSize info) (info\<lparr>pLastReturned := x\<rparr>) new m' = (st, new', m'')"
  obtains sec where "length (KeyHash sec) = 32"
    "CreateVariable WB False (names p) (guid_of m info p) (nvar_attributes m p info) (rd_bytes m a l) (Some p) sec new m' = (st, new', m'')"
proof -
  let ?b = "\<lparr>ga_VariableName = Some (names p), ga_VendorGuid = Some (guid_of m info p), ga_Attributes = True,
    ga_DataSize = Some (NvramSize info), ga_Data = True\<rparr>"
  have k: "(c_string (names p), guid_of m info p) = var_key m info names p"
    using named_matches(2) [OF nm p] by (simp add: var_key_def)
  have args: "ga_VariableName ?b = Some (names p)" "ga_VendorGuid ?b = Some (guid_of m info p)"
    "ga_DataSize ?b = Some (NvramSize info)" "ga_Data ?b \<or> NvramSize info = 0" by simp_all
  obtain a' sz where e: "NvGetData m p (name_size m names p) info = Some (a', sz)" "sz \<le> NvramSize info"
    "NvGetVariable m ?b info = \<lparr>gr_Status = if NvramSize info < sz then EFI_BUFFER_TOO_SMALL else EFI_SUCCESS,
       gr_Attributes = if ga_Attributes ?b then Some (nvar_attributes m p info) else None,
       gr_DataSize = Some sz, gr_Data = if NvramSize info < sz then None else Some (rd_bytes m a' sz), gr_Var = Some p\<rparr>"
    by (rule get_source [OF p args k])
  let ?sec = "GetVarAuthExtFlags m' (Some p) (Some (info\<lparr>pLastReturned := x\<rparr>)) no_ext_flags"
  have "length (KeyHash ?sec) = 32"
    by (simp add: GetVarAuthExtFlags_def no_ext_flags_def HASH_SHA256_LEN_def Let_def)
  moreover have "CreateVariable WB False (names p) (guid_of m info p) (nvar_attributes m p info) (rd_bytes m a l) (Some p) ?sec new m'
      = (st, new', m'')"
    using c e d by (simp add: CopyVariable_def Let_def get_frozen)
  ultimately show thesis using that by blast
qed

lemma create_size_le:
  assumes p: "p \<in> set (valid_nvars m info)" and d: "NvGetData m p (name_size m names p) info = Some (a, l)"
  shows "create_size m' (names p) g A (rd_bytes m a l) v [] new \<le> copy_size m info names p"
    "copy_size m info names p < 0xFFFF"
proof -
  show "copy_size m info names p < 0xFFFF" using src p by (simp add: source_ok_def)
  show "create_size m' (names p) g A (rd_bytes m a l) v [] new \<le> copy_size m info names p"
    using d by (simp add: create_size_def copy_size_def Let_def plan_create_simps [OF refl])
qed

lemma CreateVariable_no_space:
  "\<not> IsEnoughSpace new (create_size m' n g A D v [] new) \<Longrightarrow>
     CreateVariable WB False n g A D v sec new m' = (EFI_OUT_OF_RESOURCES, new, m')"
  by (simp add: CreateVariable_def CreateVariableEx_def create_size_def Let_def)

lemma copy_step:
  assumes p: "p \<in> set (valid_nvars m info)" and fresh: "var_key m info names p \<notin> K" and ans: "answers m info K m' new"
    and c: "CopyVariable WB False (names p) (guid_of m info p) (NvramSize info) (info\<lparr>pLastReturned := x\<rparr>) new m' = (st, new', m'')"
  shows "st = EFI_OUT_OF_RESOURCES \<and> \<not> room new (copy_size m info names p) 0
    \<or> st = EFI_SUCCESS \<and> same_store info m m'' \<and> dest_ok info m'' new'
    \<and> (\<forall>k n. room new (copy_size m info names p + k) (Suc n) \<longrightarrow> room new' k n)
    \<and> answers m info (insert (var_key m info names p) K) m'' new'
    \<and> NvramAddress new' = NvramAddress new \<and> NvramSize new' = NvramSize new \<and> Flags new' = Flags new
    \<and> pFirstVar new' = pFirstVar new"
proof -
  have n0: "c_string (names p) = names p" by (rule named_matches(2) [OF nm p])
  have kp: "(c_string (names p), guid_of m info p) = var_key m info names p" using n0 by (simp add: var_key_def)
  let ?g = "guid_of m info p" and ?A = "nvar_attributes m p info"
  have "NvIsVariable m p info" using p nvars_range by (auto simp: valid_nvars_def)
  from NvGetData_Some [OF this] obtain a l where d: "NvGetData m p (name_size m names p) info = Some (a, l)" by blast
  let ?D = "rd_bytes m a l"
  obtain sec where sec: "length (KeyHash sec) = 32"
    and cv: "CreateVariable WB False (names p) ?g ?A ?D (Some p) sec new m' = (st, new', m'')"
    by (rule copy_create [OF p d c])
  have g16: "length ?g = 16" by (simp add: guid_of_def sizeof_GUID_def)
  have sm: "store_ok m' new" and disj: "NvramAddress new + NvramSize new \<le> NvramAddress info
      \<or> NvramAddress info + NvramSize info \<le> NvramAddress new"
    and fl: "has (Flags new) NVRAM_STORE_FLAG_NON_VALATILE = has (Flags info) NVRAM_STORE_FLAG_NON_VALATILE"
    using dst by (auto simp: dest_ok_def)
  show ?thesis
  proof (cases "IsEnoughSpace new (create_size m' (names p) ?g ?A ?D (Some p) [] new)")
    case False
    moreover have "layout_ok new" using sm by (simp add: store_ok_def)
    ultimately have "\<not> room new (copy_size m info names p) 0"
      using room_enough [of new "copy_size m info names p"] create_size_le [OF p d] by force
    with False CreateVariable_no_space cv show ?thesis by simp
  next
    case True
    have ok: "create_ok m' (names p) ?g ?A ?D (Some p) sec [] new"
      by (rule create_okI [OF sm g16]) (use sec True le_less_trans [OF create_size_le [OF p d]] in auto)
    obtain new1 m1 where cr: "create_result m' (names p) ?g ?A ?D (Some p) sec [] new = (new1, m1)" by fastforce
    from CreateVariableEx_result [OF write_interface_axioms ok cr] cv
    have e: "st = EFI_SUCCESS" "new1 = new'" "m1 = m''" by (auto simp: CreateVariable_def)
    obtain cp sz where "creation m' (names p) ?g ?A ?D [] (Some p) sec new cp sz m'' new'"
      using create_result_creation [OF ok cr] e by blast
    note C = this
    note ci = creation.info_simps [OF C]
    have l: "NvramAddress new \<le> pEndOfVars new" using sm by (auto simp: store_ok_def layout_ok_def)
    have frame: "m'' i = m' i" if "i < NvramAddress new \<or> NvramAddress new + NvramSize new \<le> i" for i
      by (rule creation.m'_old [OF C]) (use that l in \<open>auto simp: guid_area_def\<close>)
    have same2: "same_store info m m''"
    proof (rule same_store_trans [OF same])
      show "same_store info m' m''" using frame disj by (auto simp: same_store_def same_on_def)
    qed
    have so: "store_ok m'' new'" by (rule appends_store_ok [OF sm creation.appended [OF C]])
    have d': "dest_ok info m'' new'" using so disj fl ci by (simp add: dest_ok_def)
    have ans': "answers m info (insert (var_key m info names p) K) m'' new'"
      unfolding answers_def
    proof (intro allI impI)
      fix b :: get_args and n h
      assume b: "ga_VariableName b = Some n" "ga_VendorGuid b = Some h"
      have old: "if (c_string n, h) \<in> K then without_record (NvGetVariable m' b new) = without_record (NvGetVariable m b info)
          else NvFindVariable m' n h new = None"
        using ans b by (auto simp: answers_def)
      show "if (c_string n, h) \<in> insert (var_key m info names p) K
        then without_record (NvGetVariable m'' b new') = without_record (NvGetVariable m b info)
        else NvFindVariable m'' n h new' = None"
      proof (cases "(c_string n, h) = var_key m info names p")
        case True
        with old fresh have none: "NvFindVariable m' n h new = None" by simp
        from True have nh: "c_string n = c_string (names p)" "h = ?g" using n0 by (auto simp: var_key_def)
        have "NvVarEq m'' (pEndOfVars new) n h new' = Some (length (name_bytes (names p)))"
          using creation.found [OF C] nh by (simp add: NvVarEq_def NvVarEq_name_c_string [of _ _ _ n]
              NvVarEq_name_c_string [of _ _ _ "names p"] cong: option.case_cong)
        with none creation.valid [OF C] have f: "NvFindVariable m'' n h new' = Some (pEndOfVars new, length (name_bytes (names p)))"
          using appends_find [OF sm creation.appended [OF C], of n h] by simp
        show ?thesis
        proof (cases "get_args_ok b")
          case False
          then show ?thesis using True by (simp add: NvGetVariable_bad_args)
        next
          case okb: True
          then obtain k where k: "ga_DataSize b = Some k" "ga_Data b \<or> k = 0" using b by (auto simp: get_args_ok_def)
          obtain a' l' where src: "NvGetData m p (name_size m names p) info = Some (a', l')" "l' \<le> NvramSize info"
            "NvGetVariable m b info = \<lparr>gr_Status = if k < l' then EFI_BUFFER_TOO_SMALL else EFI_SUCCESS,
               gr_Attributes = if ga_Attributes b then Some ?A else None,
               gr_DataSize = Some l', gr_Data = if k < l' then None else Some (rd_bytes m a' l'), gr_Var = Some p\<rparr>"
            by (rule get_source [OF p b k True])
          have A: "nvar_attributes m'' (pEndOfVars new) new' = ?A"
            using creation.attributes [OF C] attributes_again [OF fl] ci by simp
          show ?thesis
            using True NvGetVariable_cases [OF b k, of m'' new'] f creation.data_read [OF C] creation.rd_data [OF C] src d A
            by (simp add: without_record_def)
        qed
      next
        case False
        then have "(c_string n, h) \<noteq> (c_string (names p), ?g)" using kp by simp
        note get = creation.get_other [OF C sm b this]
        have "NvFindVariable m'' n h new' = NvFindVariable m' n h new"
        proof (cases "NvFindVariable m' n h new")
          case None
          have "NvVarEq m'' (pEndOfVars new) n h new' = None" using creation.found_only [OF C, of n h] False kp by fastforce
          with None show ?thesis using appends_find [OF sm creation.appended [OF C], of n h] by simp
        next
          case (Some r)
          then show ?thesis using appends_find [OF sm creation.appended [OF C], of n h] by simp
        qed
        with False old get show ?thesis by (auto split: if_splits)
      qed
    qed
    have "sz \<le> copy_size m info names p"
      using create_size_le(1) [OF p d, of ?g ?A "Some p"] creation.sz [OF C] creation.cp [OF C]
      by (simp add: create_size_def Let_def)
    with ci have "room new (copy_size m info names p + k) (Suc n) \<longrightarrow> room new' k n" for k n
      by (auto simp: room_def)
    with e same2 d' ans' ci show ?thesis by simp
  qed
qed

end

section \<open>Copying all variables\<close>

text \<open>The keys of the records of a list that the filter keeps.\<close>

definition kept :: "memory \<Rightarrow> NVRAM_STORE_INFO \<Rightarrow> (nat \<Rightarrow> char16 list) \<Rightarrow> (char16 list \<Rightarrow> u8 list \<Rightarrow> bool) \<Rightarrow> nat list
    \<Rightarrow> (char16 list \<times> u8 list) set" where
  "kept m info names skip ps = var_key m info names ` {p \<in> set ps. \<not> skip (names p) (guid_of m info p)}"

text \<open>The next name the enumeration returns, when \<open>ys\<close> are the valid records to come.\<close>

definition comes_next ::
    "memory \<Rightarrow> NVRAM_STORE_INFO \<Rightarrow> (nat \<Rightarrow> char16 list) \<Rightarrow> nat list \<Rightarrow> memory \<Rightarrow> char16 list \<Rightarrow> u8 list \<Rightarrow> NVRAM_STORE_INFO \<Rightarrow> bool" where
  "comes_next m info names ys m' n g i \<longleftrightarrow>
     (case ys of
        [] \<Rightarrow> \<exists>a. NvGetNextVariableName m' (name_call (NvramSize info) n g) i False
                = Some (EFI_NOT_FOUND, a, info\<lparr>pLastReturned := None\<rparr>)
      | y # _ \<Rightarrow> \<exists>k. NvGetNextVariableName m' (name_call (NvramSize info) n g) i False
                = Some (EFI_SUCCESS, name_call k (names y) (guid_of m info y), info\<lparr>pLastReturned := Some y\<rparr>))"

text \<open>A filter that only depends on the source.\<close>

definition steady ::
    "copy_env \<Rightarrow> bool \<Rightarrow> memory \<Rightarrow> NVRAM_STORE_INFO \<Rightarrow> (char16 list \<Rightarrow> u8 list \<Rightarrow> bool) \<Rightarrow> bool" where
  "steady ce sv m info skip \<longleftrightarrow>
     (\<forall>n g x m'. same_store info m m' \<longrightarrow> copy_skips ce sv n g (info\<lparr>pLastReturned := x\<rparr>) m' = skip n g)"

text \<open>How far a copy has come: the new store has the variables in \<open>K\<close>.\<close>

definition progress ::
    "memory \<Rightarrow> NVRAM_STORE_INFO \<Rightarrow> NVRAM_STORE_INFO \<Rightarrow> (char16 list \<times> u8 list) set \<Rightarrow> memory \<Rightarrow> NVRAM_STORE_INFO \<Rightarrow> bool" where
  "progress m info new0 K m' new \<longleftrightarrow>
     same_store info m m' \<and> dest_ok info m' new \<and> answers m info K m' new
     \<and> NvramAddress new = NvramAddress new0 \<and> NvramSize new = NvramSize new0 \<and> Flags new = Flags new0
     \<and> pFirstVar new = pFirstVar new0"

lemma copying_progress:
  assumes "write_interface WB" "source_ok m info names" "progress m info new0 K m' new"
  shows "copying m info m' WB names new"
  using assms
  by (auto simp: copying_def frozen_def copying_axioms_def progress_def source_ok_def)

lemma copy_loop:
  assumes w: "write_interface (ce_WB ce)" and cks: "\<not> ce_cks ce" and src: "source_ok m info names"
    and sk: "steady ce sv m info skip"
  shows "ys = filter (NvIsValid m) zs \<Longrightarrow> nvars m info = xs @ zs \<Longrightarrow> comes_next m info names ys m' n g i \<Longrightarrow>
    progress m info new0 K m' new \<Longrightarrow> K \<inter> var_key m info names ` set ys = {} \<Longrightarrow>
    \<exists>st i' new' m''. CopyVariables_loop ce sv (NvramSize info) n g i new m' = Some (st, i', new', m'')
      \<and> (st = EFI_OUT_OF_RESOURCES \<and> \<not> room new (sum_list (map (copy_size m info names) ys)) (length ys)
         \<or> st = EFI_SUCCESS \<and> progress m info new0 (K \<union> kept m info names skip ys) m'' new')"
proof (induction ys arbitrary: zs xs m' n g i K new)
  case Nil
  then show ?case
    by (subst CopyVariables_loop.simps) (auto simp: comes_next_def kept_def)
next
  case (Cons y ys)
  obtain us vs where zs: "zs = us @ y # vs" and vy: "NvIsValid m y" and ys: "ys = filter (NvIsValid m) vs"
    using Cons.prems(1) [symmetric] unfolding filter_eq_Cons_iff by blast
  have nv: "nvars m info = (xs @ us) @ y # vs" using Cons.prems(2) zs by simp
  have y: "y \<in> set (valid_nvars m info)" using nv vy by (simp add: valid_nvars_def)
  have nm: "named m (NvramSize info) names (valid_nvars m info)"
    and dist: "distinct (map (var_key m info names) (valid_nvars m info))" using src by (auto simp: source_ok_def)
  have dy: "var_key m info names y \<notin> var_key m info names ` set ys"
    using dist vy ys unfolding valid_nvars_def nv by (auto simp: image_iff)
  obtain k where k: "NvGetNextVariableName m' (name_call (NvramSize info) n g) i False
      = Some (EFI_SUCCESS, name_call k (names y) (guid_of m info y), info\<lparr>pLastReturned := Some y\<rparr>)"
    using Cons.prems(3) by (auto simp: comes_next_def)
  let ?i = "info\<lparr>pLastReturned := Some y\<rparr>"
  have same: "same_store info m m'" using Cons.prems(4) by (simp add: progress_def)
  have nx: "comes_next m info names ys m1 (names y) (guid_of m info y) ?i" if "same_store info m m1" for m1
  proof -
    have "frozen m info m1" using src that by (simp add: frozen_def source_ok_def)
    from frozen.next_name_same [OF this nm nv vy] ys show ?thesis
      by (auto simp: comes_next_def split: list.splits)
  qed
  have nv': "nvars m info = (xs @ us @ [y]) @ vs" using nv by simp
  show ?case
  proof (cases "skip (names y) (guid_of m info y)")
    case True
    then have "copy_skips ce sv (names y) (guid_of m info y) ?i m'" using sk same by (simp add: steady_def)
    then have "CopyVariables_loop ce sv (NvramSize info) n g i new m' =
        CopyVariables_loop ce sv (NvramSize info) (names y) (guid_of m info y) ?i new m'"
      using k by (subst CopyVariables_loop.simps) simp
    moreover have "kept m info names skip (y # ys) = kept m info names skip ys"
      using True by (auto simp: kept_def)
    moreover have "room new (sum_list (map (copy_size m info names) (y # ys))) (length (y # ys))
        \<longrightarrow> room new (sum_list (map (copy_size m info names) ys)) (length ys)" by (simp add: room_def)
    ultimately show ?thesis
      using Cons.IH [OF ys nv' nx [OF same] Cons.prems(4)] Cons.prems(5) by fastforce
  next
    case False
    then have sk': "\<not> copy_skips ce sv (names y) (guid_of m info y) ?i m'" using sk same by (simp add: steady_def)
    obtain st new1 m1 where c: "CopyVariable (ce_WB ce) False (names y) (guid_of m info y) (NvramSize info) ?i new m' = (st, new1, m1)"
      by (metis prod_cases3)
    have ck: "ce_cks ce = False" using cks by simp
    have loop: "CopyVariables_loop ce sv (NvramSize info) n g i new m' =
        (if EFI_ERROR st \<and> st \<noteq> EFI_NOT_FOUND then Some (st, ?i, new1, m1)
         else CopyVariables_loop ce sv (NvramSize info) (names y) (guid_of m info y) ?i new1 m1)"
      using k sk' c ck by (subst CopyVariables_loop.simps) (simp add: Let_def)
    have "var_key m info names y \<notin> K" "answers m info K m' new"
      using Cons.prems(4,5) by (auto simp: progress_def)
    from copying.copy_step [OF copying_progress [OF w src Cons.prems(4)] y this c]
    show ?thesis
    proof
      assume a: "st = EFI_OUT_OF_RESOURCES \<and> \<not> room new (copy_size m info names y) 0"
      then have "\<not> room new (sum_list (map (copy_size m info names) (y # ys))) (length (y # ys))"
        by (simp add: room_def)
      with a show ?thesis using loop by simp
    next
      assume s: "st = EFI_SUCCESS \<and> same_store info m m1 \<and> dest_ok info m1 new1
        \<and> (\<forall>k n. room new (copy_size m info names y + k) (Suc n) \<longrightarrow> room new1 k n)
        \<and> answers m info (insert (var_key m info names y) K) m1 new1
        \<and> NvramAddress new1 = NvramAddress new \<and> NvramSize new1 = NvramSize new \<and> Flags new1 = Flags new
        \<and> pFirstVar new1 = pFirstVar new"
      then have p: "progress m info new0 (insert (var_key m info names y) K) m1 new1"
        using Cons.prems(4) by (simp add: progress_def)
      have "insert (var_key m info names y) K \<inter> var_key m info names ` set ys = {}"
        using dy Cons.prems(5) by auto
      from Cons.IH [OF ys nv' nx p this] s loop
      have "\<exists>st i' new' m''. CopyVariables_loop ce sv (NvramSize info) n g i new m' = Some (st, i', new', m'')
        \<and> (st = EFI_OUT_OF_RESOURCES \<and> \<not> room new1 (sum_list (map (copy_size m info names) ys)) (length ys)
            \<or> st = EFI_SUCCESS
            \<and> progress m info new0 (insert (var_key m info names y) K \<union> kept m info names skip ys) m'' new')" by simp
      moreover have "K \<union> kept m info names skip (y # ys) = insert (var_key m info names y) K \<union> kept m info names skip ys"
        using False by (auto simp: kept_def)
      ultimately show ?thesis using s by fastforce
    qed
  qed
qed

lemma first_comes_next:
  assumes "source_ok m info names" "same_store info m m'"
  shows "comes_next m info names (valid_nvars m info) m' [] g info"
proof -
  from assms have f: "frozen m info m'" and nm: "named m (NvramSize info) names (valid_nvars m info)"
    by (auto simp: frozen_def source_ok_def)
  note v = frozen.valid_nvars_same [OF f]
  have "named m' (NvramSize info) names (valid_nvars m' info)"
    using frozen.named_same [OF f nm] v by simp
  from first_name [OF this, of g] v frozen.guid_same [OF f nm] show ?thesis
    by (auto simp: comes_next_def split: list.splits)
qed

section \<open>An example copy\<close>

text \<open>The store with the variable \<open>A\<close>, an empty store behind it, and the copy of the recovery without a
  variable to skip.\<close>

definition spare_info :: NVRAM_STORE_INFO where
  "spare_info = blank_info\<lparr>NvramAddress := 0x20000, NvramGuidsAddress := 0x203F0, pFirstVar := 0x20000,
     pEndOfVars := 0x20000\<rparr>"

definition ex_copy_env :: copy_env where
  "ex_copy_env = \<lparr>ce_WB = MemProgram, ce_cks = False, ce_filter = Some (SkipSpecificNvar None), ce_preserve = []\<rparr>"

lemma store_A_mem: "0x20000 \<le> i \<Longrightarrow> snd store_A i = 0xFF"
  using exA.m'_old [of i] by (simp add: guid_area_def blank_info_def blank_def)

lemma spare_ok: "dest_ok (fst store_A) (snd store_A) spare_info"
proof -
  have l: "layout_ok spare_info" by code_simp
  have n: "nvars (snd store_A) spare_info = []" by code_simp
  have "erased (snd store_A) 0x20000 hi" for hi using store_A_mem by (simp add: erased_def)
  then have e: "erased (snd store_A) (pEndOfVars spare_info) (guid_area spare_info)" by (simp add: spare_info_def)
  have f: "pFirstVar spare_info = pEndOfVars spare_info" by code_simp
  from l n e f have "store_ok (snd store_A) spare_info" by (simp add: store_ok_def links_inj_def)
  moreover have "NvramAddress (fst store_A) + NvramSize (fst store_A) \<le> NvramAddress spare_info"
    "has (Flags spare_info) NVRAM_STORE_FLAG_NON_VALATILE = has (Flags (fst store_A)) NVRAM_STORE_FLAG_NON_VALATILE"
    by code_simp+
  ultimately show ?thesis by (simp add: dest_ok_def)
qed

lemma source_A_ok: "source_ok (snd store_A) (fst store_A) (\<lambda>_. [65])"
proof -
  have "named (snd store_A) (NvramSize (fst store_A)) (\<lambda>_. [65]) (valid_nvars (snd store_A) (fst store_A))"
    "distinct (map (var_key (snd store_A) (fst store_A) (\<lambda>_. [65])) (valid_nvars (snd store_A) (fst store_A)))"
    "\<forall>p\<in>set (valid_nvars (snd store_A) (fst store_A)). copy_size (snd store_A) (fst store_A) (\<lambda>_. [65]) p < 0xFFFF"
    by code_simp+
  with store_A_ok show ?thesis by (simp add: source_ok_def)
qed

text \<open>The interfaces of the copy, for the example store and the memory interface.\<close>

interpretation frozenA: frozen "snd store_A" "fst store_A" "snd store_A"
  using store_A_ok by unfold_locales (simp_all add: same_store_def)

lemma progress_A: "progress (snd store_A) (fst store_A) spare_info {} (snd store_A) spare_info"
proof -
  have "valid_nvars (snd store_A) spare_info = []"
    by (simp add: valid_nvars_def nvars_def spare_info_def)
  then have "answers (snd store_A) (fst store_A) {} (snd store_A) spare_info"
    by (auto simp: answers_def NvFindVariable_find)
  then show ?thesis using spare_ok by (simp add: progress_def same_store_def)
qed

interpretation copyA: copying "snd store_A" "fst store_A" "snd store_A" MemProgram "\<lambda>_. [65]" spare_info
  by (rule copying_progress [OF memp.write_interface_axioms source_A_ok progress_A])

section \<open>Properties\<close>

text \<open>C12: reclaiming keeps the variables.  Copying a well-formed store, whose variables have distinct
  names that fit the copy's buffer and records that fit the size field, into a well-formed empty store
  outside it returns, and with \<^verbatim>\<open>EFI_SUCCESS\<close> unless there is no room for all records and their GUIDs, when
  it may return \<^verbatim>\<open>EFI_OUT_OF_RESOURCES\<close>.  On success the new store is well formed,
  the old one is unchanged, every \<^verbatim>\<open>NvGetVariable\<close> call on a variable the filter keeps is answered by the
  new store as by the old one (status, attributes, size and data), and no other variable is found in it.\<close>

theorem CopyVariables_keeps_variables:
  assumes "write_interface (ce_WB ce)" "\<not> ce_cks ce" "source_ok m info names"
    and "steady ce (SaveOnlyPreservedVars b) m info skip"
    and "dest_ok info m new" "pEndOfVars new = pFirstVar new"
    and "fst (SelectiveAllocate Malloc True (NvramSize info * 2) b) \<noteq> None"
  shows "\<exists>st info' new' b' m'. CopyVariables ce Malloc info new b m = Some (st, info', new', b', m')
    \<and> \<not> SaveOnlyPreservedVars b'
    \<and> (st = EFI_OUT_OF_RESOURCES
          \<and> \<not> room new (sum_list (map (copy_size m info names) (valid_nvars m info))) (length (valid_nvars m info))
       \<or> st = EFI_SUCCESS \<and> store_ok m' new' \<and> same_store info m m'
          \<and> answers m info (kept m info names skip (valid_nvars m info)) m' new')"
proof -
  have v: "valid_nvars m new = []"
    using assms(6) by (simp add: valid_nvars_def nvars_def)
  have "answers m info {} m new"
    by (auto simp: answers_def NvFindVariable_find v)
  then have p: "progress m info new {} m new" using assms(5) by (simp add: progress_def same_store_def)
  have ys: "valid_nvars m info = filter (NvIsValid m) (nvars m info)" "nvars m info = [] @ nvars m info"
    by (simp_all add: valid_nvars_def)
  have "comes_next m info names (valid_nvars m info) m [] [] info"
    by (rule first_comes_next [OF assms(3)]) (simp add: same_store_def)
  from copy_loop [OF assms(1-4) ys this p] obtain st i' new' m' where
    l: "CopyVariables_loop ce (SaveOnlyPreservedVars b) (NvramSize info) [] [] info new m = Some (st, i', new', m')"
    and r: "st = EFI_OUT_OF_RESOURCES
          \<and> \<not> room new (sum_list (map (copy_size m info names) (valid_nvars m info))) (length (valid_nvars m info))
        \<or> st = EFI_SUCCESS \<and> progress m info new (kept m info names skip (valid_nvars m info)) m' new'"
    by auto
  obtain T b1 where a: "SelectiveAllocate Malloc True (NvramSize info * 2) b = (Some T, b1)"
    using assms(7) by (cases "SelectiveAllocate Malloc True (NvramSize info * 2) b") auto
  from r have "st = EFI_OUT_OF_RESOURCES
          \<and> \<not> room new (sum_list (map (copy_size m info names) (valid_nvars m info))) (length (valid_nvars m info))
       \<or> st = EFI_SUCCESS \<and> store_ok m' new' \<and> same_store info m m'
          \<and> answers m info (kept m info names skip (valid_nvars m info)) m' new'"
    by (auto simp: progress_def dest_ok_def)
  with a l show ?thesis by (simp add: CopyVariables_def)
qed

theorem CopyVariables_keeps_variables_witness:
  "\<exists>info' new' b' m'. CopyVariables ex_copy_env (Some 0x5000) (fst store_A) spare_info ex_buffers (snd store_A)
      = Some (EFI_SUCCESS, info', new', b', m')
    \<and> gr_Data (NvGetVariable m' \<lparr>ga_VariableName = Some [65], ga_VendorGuid = Some guid_A, ga_Attributes = True,
         ga_DataSize = Some 4, ga_Data = True\<rparr> new') = Some [1, 2, 3]"
proof -
  let ?b = "\<lparr>ga_VariableName = Some [65], ga_VendorGuid = Some guid_A, ga_Attributes = True,
         ga_DataSize = Some 4, ga_Data = True\<rparr>"
  have w: "write_interface (ce_WB ex_copy_env)" using memp.write_interface_axioms by (simp add: ex_copy_env_def)
  have c: "\<not> ce_cks ex_copy_env" by (simp add: ex_copy_env_def)
  have st: "steady ex_copy_env (SaveOnlyPreservedVars ex_buffers) (snd store_A) (fst store_A) (\<lambda>n g. False)"
    by (simp add: steady_def copy_skips_def ex_copy_env_def SkipSpecificNvar_def ex_buffers_def)
  have e: "pEndOfVars spare_info = pFirstVar spare_info"
    "fst (SelectiveAllocate (Some 0x5000) True (NvramSize (fst store_A) * 2) ex_buffers) \<noteq> None" by code_simp+
  have k: "(c_string [65], guid_A) \<in> kept (snd store_A) (fst store_A) (\<lambda>_. [65]) (\<lambda>n g. False)
      (valid_nvars (snd store_A) (fst store_A))" by code_simp
  have s: "room spare_info (sum_list (map (copy_size (snd store_A) (fst store_A) (\<lambda>_. [65])) (valid_nvars (snd store_A) (fst store_A))))
      (length (valid_nvars (snd store_A) (fst store_A)))" by code_simp
  have d: "gr_Data (NvGetVariable (snd store_A) ?b (fst store_A)) = Some [1, 2, 3]" by code_simp
  from CopyVariables_keeps_variables [OF w c source_A_ok st spare_ok e] s
  obtain i n b m' where r: "CopyVariables ex_copy_env (Some 0x5000) (fst store_A) spare_info ex_buffers (snd store_A)
      = Some (EFI_SUCCESS, i, n, b, m')"
    and a: "answers (snd store_A) (fst store_A) (kept (snd store_A) (fst store_A) (\<lambda>_. [65]) (\<lambda>n g. False)
      (valid_nvars (snd store_A) (fst store_A))) m' n"
    by auto
  from a k have "without_record (NvGetVariable m' ?b n) = without_record (NvGetVariable (snd store_A) ?b (fst store_A))"
    by (auto simp: answers_def)
  then have "gr_Data (NvGetVariable m' ?b n) = Some [1, 2, 3]"
    using d by (cases "NvGetVariable m' ?b n"; cases "NvGetVariable (snd store_A) ?b (fst store_A)")
      (simp add: without_record_def)
  with r show ?thesis by blast
qed

end
