(* ===== verification/DListLib.thy ===== *)
theory DListLib
  imports Prelude
begin

text \<open>
  The doubly linked lists of \<^verbatim>\<open>AmiCompatibilityPkg/Library/EfiLib.c\<close>, on a heap of links.  The routines
  write the pointer fields in the order of the source; a list is abstracted to the sequence of the
  addresses of its links, and each routine refines the list operation it stands for.
\<close>

section \<open>Links, lists and the routines\<close>

record DLINK =
  pNext :: "nat option"
  pPrev :: "nat option"

record DLIST =
  dl_Size :: nat
  pHead :: "nat option"
  pTail :: "nat option"

type_synonym dheap = "nat \<Rightarrow> DLINK"

definition set_next :: "nat option \<Rightarrow> nat option \<Rightarrow> dheap \<Rightarrow> dheap" where
  "set_next p v h = (case p of None \<Rightarrow> h | Some a \<Rightarrow> h(a := (h a)\<lparr>pNext := v\<rparr>))"

definition set_prev :: "nat option \<Rightarrow> nat option \<Rightarrow> dheap \<Rightarrow> dheap" where
  "set_prev p v h = (case p of None \<Rightarrow> h | Some a \<Rightarrow> h(a := (h a)\<lparr>pPrev := v\<rparr>))"

text \<open>A write through a \<^verbatim>\<open>NULL\<close> pointer is \<open>None\<close> of the whole routine.\<close>

definition DListInit :: "DLIST \<Rightarrow> DLIST" where
  "DListInit l = l\<lparr>pHead := None, pTail := None, dl_Size := 0\<rparr>"

definition DListEmpty :: "DLIST \<Rightarrow> bool" where
  "DListEmpty l \<longleftrightarrow> pHead l = None"

definition DListAdd :: "DLIST \<Rightarrow> nat \<Rightarrow> dheap \<Rightarrow> (DLIST \<times> dheap) option" where
  "DListAdd l e h =
     (let h1 = h(e := (h e)\<lparr>pNext := None\<rparr>);
          h2 = h1(e := (h1 e)\<lparr>pPrev := pTail l\<rparr>)
      in if pHead l = None
         then Some (l\<lparr>pHead := Some e, pTail := Some e, dl_Size := Suc (dl_Size l)\<rparr>, h2)
         else if pTail l = None then None
         else Some (l\<lparr>pTail := Some e, dl_Size := Suc (dl_Size l)\<rparr>, set_next (pTail l) (Some e) h2))"

definition DListDelete :: "DLIST \<Rightarrow> nat \<Rightarrow> dheap \<Rightarrow> (DLIST \<times> dheap) option" where
  "DListDelete l e h =
     do {
       (l1, h1) \<leftarrow> (if pTail l = Some e then Some (l\<lparr>pTail := pPrev (h e)\<rparr>, h)
                    else if pNext (h e) = None then None
                    else Some (l, set_prev (pNext (h e)) (pPrev (h e)) h));
       (l2, h2) \<leftarrow> (if pHead l1 = Some e then Some (l1\<lparr>pHead := pNext (h1 e)\<rparr>, h1)
                    else if pPrev (h1 e) = None then None
                    else Some (l1, set_next (pPrev (h1 e)) (pNext (h1 e)) h1));
       Some (l2\<lparr>dl_Size := dl_Size l2 - 1\<rparr>, h2)
     }"

definition DListInsert :: "DLIST \<Rightarrow> nat \<Rightarrow> nat option \<Rightarrow> dheap \<Rightarrow> (DLIST \<times> dheap) option" where
  "DListInsert l e after h =
     (let h1 = h(e := (h e)\<lparr>pPrev := after\<rparr>) in
      case after of
        Some a \<Rightarrow>
          let h2 = h1(e := (h1 e)\<lparr>pNext := pNext (h1 a)\<rparr>) in
          do {
            (l3, h3) \<leftarrow> (if after = pTail l then Some (l\<lparr>pTail := Some e\<rparr>, h2)
                         else if pNext (h2 a) = None then None
                         else Some (l, set_prev (pNext (h2 a)) (Some e) h2));
            Some (l3\<lparr>dl_Size := Suc (dl_Size l3)\<rparr>, set_next (Some a) (Some e) h3)
          }
      | None \<Rightarrow>
          let h2 = h1(e := (h1 e)\<lparr>pNext := pHead l\<rparr>);
              (l3, h3) = (if pHead l \<noteq> None then (l, set_prev (pHead l) (Some e) h2)
                          else (l\<lparr>pTail := Some e\<rparr>, h2))
          in Some (l3\<lparr>pHead := Some e, dl_Size := Suc (dl_Size l3)\<rparr>, h3))"

text \<open>The loop \<^verbatim>\<open>for (Link=List->pHead; Link!=NULL; Link=Link->pNext)\<close>: the links it visits.\<close>

partial_function (option) visit :: "dheap \<Rightarrow> nat option \<Rightarrow> nat list option" where
  "visit h p = (case p of None \<Rightarrow> Some [] | Some a \<Rightarrow> Option.bind (visit h (pNext (h a))) (\<lambda>xs. Some (a # xs)))"

section \<open>The abstraction\<close>

definition first_or :: "nat list \<Rightarrow> nat option \<Rightarrow> nat option" where
  "first_or xs d = (case xs of [] \<Rightarrow> d | x # _ \<Rightarrow> Some x)"

definition last_or :: "nat list \<Rightarrow> nat option \<Rightarrow> nat option" where
  "last_or xs d = (if xs = [] then d else Some (last xs))"

fun lseg :: "dheap \<Rightarrow> nat option \<Rightarrow> nat list \<Rightarrow> nat option \<Rightarrow> bool" where
  "lseg h p [] n \<longleftrightarrow> True"
| "lseg h p (x # xs) n \<longleftrightarrow> pPrev (h x) = p \<and> pNext (h x) = first_or xs n \<and> lseg h (Some x) xs n"

definition dlist :: "dheap \<Rightarrow> DLIST \<Rightarrow> nat list \<Rightarrow> bool" where
  "dlist h l xs \<longleftrightarrow> distinct xs \<and> pHead l = first_or xs None \<and> pTail l = last_or xs None \<and> lseg h None xs None"

lemma first_or_simps [simp]: "first_or [] d = d" "first_or (x # xs) d = Some x"
  "first_or (xs @ ys) d = first_or xs (first_or ys d)"
  by (auto simp: first_or_def split: list.splits)

lemma last_or_simps [simp]: "last_or [] d = d" "last_or (x # xs) d = last_or xs (Some x)"
  "last_or (xs @ ys) d = last_or ys (last_or xs d)"
  by (auto simp: last_or_def)

lemma lseg_append [simp]:
  "lseg h p (xs @ ys) n \<longleftrightarrow> lseg h p xs (first_or ys n) \<and> lseg h (last_or xs p) ys n"
  by (induction xs arbitrary: p) auto

lemma lseg_frame [simp]: "e \<notin> set xs \<Longrightarrow> lseg (h(e := v)) p xs n = lseg h p xs n"
  by (induction xs arbitrary: p) auto

lemma first_or_in: "first_or xs None = Some a \<Longrightarrow> a \<in> set xs"
  by (cases xs) auto

lemma last_or_in: "last_or xs d = Some a \<Longrightarrow> xs = [] \<and> d = Some a \<or> a \<in> set xs"
  by (auto simp: last_or_def split: if_splits)

text \<open>Rewriting the outer pointers of a segment.\<close>

lemma lseg_set_next:
  assumes "lseg h p xs n" and "distinct xs" and "xs \<noteq> []"
  shows "lseg (set_next (last_or xs d) n' h) p xs n'"
proof -
  from assms(3) obtain ys y where xs: "xs = ys @ [y]" by (metis rev_exhaust)
  with assms(1,2) show ?thesis by (auto simp: set_next_def)
qed

lemma lseg_set_prev:
  assumes "lseg h p xs n" and "distinct xs" and "xs \<noteq> []"
  shows "lseg (set_prev (first_or xs d) p' h) p' xs n"
  using assms by (cases xs) (auto simp: set_prev_def)

lemma lseg_set_other:
  assumes "\<And>a. q = Some a \<Longrightarrow> a \<notin> set xs"
  shows "lseg (set_next q v h) p xs n = lseg h p xs n" "lseg (set_prev q v h) p xs n = lseg h p xs n"
  using assms by (cases q; simp add: set_next_def set_prev_def)+

lemma visit_dlist: "lseg h p xs None \<Longrightarrow> visit h (first_or xs None) = Some xs"
  by (induction xs arbitrary: p) (auto simp: visit.simps)

lemma set_fields [simp]:
  "pPrev (set_next q v h a) = pPrev (h a)" "pNext (set_prev q v h a) = pNext (h a)"
  by (cases q; simp add: set_next_def set_prev_def)+

section \<open>Refinement\<close>

lemma DListAdd_refines:
  assumes d: "dlist h l xs" and e: "e \<notin> set xs"
  shows "\<exists>l' h'. DListAdd l e h = Some (l', h') \<and> dlist h' l' (xs @ [e]) \<and> dl_Size l' = Suc (dl_Size l)"
proof (cases "xs = []")
  case True
  with d show ?thesis by (auto simp: DListAdd_def dlist_def Let_def)
next
  case False
  let ?h2 = "h(e := \<lparr>pNext = None, pPrev = pTail l\<rparr>)"
  have l: "pHead l \<noteq> None" "pTail l = last_or xs None" "pTail l \<noteq> None"
    using d False by (auto simp: dlist_def first_or_def last_or_def split: list.splits)
  have e2: "h(e := (h e)\<lparr>pNext := None\<rparr>, e := ((h(e := (h e)\<lparr>pNext := None\<rparr>)) e)\<lparr>pPrev := pTail l\<rparr>) = ?h2"
    by (cases "h e") simp
  let ?h3 = "set_next (last_or xs None) (Some e) ?h2"
  have "lseg ?h2 None xs None" "distinct xs" using d e by (auto simp: dlist_def)
  then have 1: "lseg ?h3 None xs (Some e)" using lseg_set_next False by blast
  have le: "last_or xs None \<noteq> Some e" using e last_or_in [of xs None e] False by auto
  then have he: "?h3 e = ?h2 e" by (auto simp: set_next_def split: option.splits)
  have "DListAdd l e h = Some (l\<lparr>pTail := Some e, dl_Size := Suc (dl_Size l)\<rparr>, ?h3)"
    unfolding DListAdd_def Let_def e2 using l by (cases "pHead l") auto
  moreover have "pHead l = first_or xs (Some e)"
    using d False by (cases xs) (auto simp: dlist_def)
  moreover have "distinct (xs @ [e])" using d e by (simp add: dlist_def)
  ultimately show ?thesis
    using 1 he l(2) by (simp add: dlist_def)
qed

lemma DListDelete_refines:
  assumes d: "dlist h l (ys @ e # zs)"
  shows "\<exists>l' h'. DListDelete l e h = Some (l', h') \<and> dlist h' l' (ys @ zs) \<and> dl_Size l' = dl_Size l - 1"
proof -
  from d have dist: "distinct ys" "distinct zs" "e \<notin> set ys" "e \<notin> set zs" "set ys \<inter> set zs = {}"
    and hd: "pHead l = first_or ys (Some e)" and tl: "pTail l = last_or zs (Some e)"
    and s: "lseg h None ys (Some e)" "lseg h (Some e) zs None"
    and pe: "pPrev (h e) = last_or ys None" and ne: "pNext (h e) = first_or zs None"
    by (auto simp: dlist_def)
  define h1 where "h1 = set_prev (first_or zs None) (last_or ys None) h"
  define l1 where "l1 = (if zs = [] then l\<lparr>pTail := last_or ys None\<rparr> else l)"
  define h2 where "h2 = set_next (last_or ys None) (first_or zs None) h1"
  define l2 where "l2 = (if ys = [] then l1\<lparr>pHead := first_or zs None\<rparr> else l1)"
  have t: "pTail l = Some e \<longleftrightarrow> zs = []" using tl dist(4) last_or_in [of zs "Some e" e] by (cases "zs = []") auto
  have h: "pHead l1 = Some e \<longleftrightarrow> ys = []"
    using hd dist(3) by (cases ys) (auto simp: l1_def)
  have 1: "(if pTail l = Some e then Some (l\<lparr>pTail := pPrev (h e)\<rparr>, h)
      else if pNext (h e) = None then None else Some (l, set_prev (pNext (h e)) (pPrev (h e)) h)) = Some (l1, h1)"
    using t pe ne by (cases zs) (auto simp: l1_def h1_def set_prev_def)
  have e1: "pPrev (h1 e) = last_or ys None" "pNext (h1 e) = first_or zs None"
    using pe ne dist(4) by (cases zs; simp add: h1_def set_prev_def)+
  have 2: "(if pHead l1 = Some e then Some (l1\<lparr>pHead := pNext (h1 e)\<rparr>, h1)
      else if pPrev (h1 e) = None then None else Some (l1, set_next (pPrev (h1 e)) (pNext (h1 e)) h1)) = Some (l2, h2)"
    using h e1 by (cases "ys = []") (auto simp: l2_def h2_def set_next_def last_or_def)
  have z: "a \<notin> set ys" if "first_or zs None = Some a" for a using first_or_in [OF that] dist(5) by auto
  have y: "a \<notin> set zs" if "last_or ys None = Some a" for a using last_or_in [OF that] dist(5) by auto
  have "lseg h1 None ys (Some e)" using lseg_set_other(2) [of "first_or zs None" ys] z s(1) by (simp add: h1_def)
  then have y2: "lseg h2 None ys (first_or zs None)"
    using lseg_set_next [OF _ dist(1)] unfolding h2_def by (cases "ys = []") auto
  have "lseg h1 (last_or ys None) zs None"
    using lseg_set_prev [OF s(2) dist(2)] unfolding h1_def by (cases "zs = []") auto
  then have z2: "lseg h2 (last_or ys None) zs None"
    using lseg_set_other(1) [of "last_or ys None" zs] y by (simp add: h2_def)
  have "pHead l2 = first_or (ys @ zs) None" "pTail l2 = last_or (ys @ zs) None" "dl_Size l2 = dl_Size l"
    using hd tl by (cases ys; cases zs; auto simp: l2_def l1_def)+
  moreover have "DListDelete l e h = Some (l2\<lparr>dl_Size := dl_Size l2 - 1\<rparr>, h2)"
    unfolding DListDelete_def 1 by (simp add: 2)
  ultimately show ?thesis using y2 z2 dist by (simp add: dlist_def)
qed

lemma DListInsert_refines:
  assumes d: "dlist h l (ys @ zs)" and e: "e \<notin> set ys" "e \<notin> set zs"
  shows "\<exists>l' h'. DListInsert l e (last_or ys None) h = Some (l', h') \<and> dlist h' l' (ys @ e # zs)
    \<and> dl_Size l' = Suc (dl_Size l)"
proof -
  from d have dist: "distinct ys" "distinct zs" "set ys \<inter> set zs = {}"
    and hd: "pHead l = first_or ys (first_or zs None)" and tl: "pTail l = last_or zs (last_or ys None)"
    and s: "lseg h None ys (first_or zs None)" "lseg h (last_or ys None) zs None"
    by (auto simp: dlist_def)
  define h2 where "h2 = h(e := \<lparr>pNext = first_or zs None, pPrev = last_or ys None\<rparr>)"
  define h3 where "h3 = set_prev (first_or zs None) (Some e) h2"
  define h4 where "h4 = set_next (last_or ys None) (Some e) h3"
  have z: "a \<notin> set ys" "a \<noteq> e" if "first_or zs None = Some a" for a
    using first_or_in [OF that] dist(3) e by auto
  have y: "a \<notin> set zs" "a \<noteq> e" if "last_or ys None = Some a" for a
    using last_or_in [OF that] dist(3) e by auto
  have "lseg h3 None ys (first_or zs None)"
    using lseg_set_other(2) [of "first_or zs None" ys] z s(1) e by (simp add: h3_def h2_def)
  then have 1: "lseg h4 None ys (Some e)"
    using lseg_set_next [OF _ dist(1)] unfolding h4_def by (cases "ys = []") auto
  have "lseg h2 (last_or ys None) zs None" using s(2) e by (simp add: h2_def)
  then have "lseg h3 (Some e) zs None"
    using lseg_set_prev [OF _ dist(2)] unfolding h3_def by (cases "zs = []") auto
  then have 2: "lseg h4 (Some e) zs None"
    using lseg_set_other(1) [of "last_or ys None" zs] y by (simp add: h4_def)
  have 3: "h4 e = \<lparr>pNext = first_or zs None, pPrev = last_or ys None\<rparr>"
    using z(2) y(2) by (auto simp: h4_def h3_def h2_def set_next_def set_prev_def split: option.splits)
  show ?thesis
  proof (cases "ys = []")
    case True
    have e2: "h(e := (h e)\<lparr>pPrev := None, pNext := pHead l\<rparr>) = h2"
      using True hd by (cases "h e") (simp add: h2_def)
    have "DListInsert l e (last_or ys None) h =
        Some ((if zs = [] then l\<lparr>pTail := Some e\<rparr> else l)\<lparr>pHead := Some e, dl_Size := Suc (dl_Size l)\<rparr>, h4)"
      using True hd e2 by (cases zs) (auto simp: DListInsert_def Let_def h4_def h3_def set_next_def set_prev_def)
    with True 2 3 tl dist e show ?thesis by (cases "zs = []") (auto simp: dlist_def last_or_def)
  next
    case False
    then obtain a where a: "last_or ys None = Some a" by (auto simp: last_or_def)
    from False obtain ws where ws: "ys = ws @ [a]" using a by (auto simp: last_or_def) (metis append_butlast_last_id)
    have na: "pNext (h a) = first_or zs None" using s(1) by (simp add: ws)
    have ae: "a \<noteq> e" using y(2) a by blast
    have e2: "h(e := (h e)\<lparr>pPrev := Some a, pNext := pNext (h a)\<rparr>) = h2"
      using na a by (cases "h e") (simp add: h2_def)
    have t: "Some a = pTail l \<longleftrightarrow> zs = []"
      using tl a y(1) [OF a] last_or_in [of zs "Some a" a] by (cases "zs = []") auto
    have n2: "pNext (h2 a) = first_or zs None" using na ae by (simp add: h2_def)
    have e3: "h(e := (h e)\<lparr>pPrev := Some a\<rparr>,
        e := ((h(e := (h e)\<lparr>pPrev := Some a\<rparr>)) e)\<lparr>pNext := pNext ((h(e := (h e)\<lparr>pPrev := Some a\<rparr>)) a)\<rparr>) = h2"
      using e2 ae by simp
    have i: "DListInsert l e (Some a) h =
        do {
          (l3, h3) \<leftarrow> (if Some a = pTail l then Some (l\<lparr>pTail := Some e\<rparr>, h2)
                       else if pNext (h2 a) = None then None
                       else Some (l, set_prev (pNext (h2 a)) (Some e) h2));
          Some (l3\<lparr>dl_Size := Suc (dl_Size l3)\<rparr>, set_next (Some a) (Some e) h3)
        }"
      unfolding DListInsert_def Let_def option.case e3 ..
    have "DListInsert l e (last_or ys None) h =
        Some ((if zs = [] then l\<lparr>pTail := Some e\<rparr> else l)\<lparr>dl_Size := Suc (dl_Size l)\<rparr>, h4)"
      unfolding a i t n2 h4_def h3_def by (cases zs) (simp_all add: set_prev_def)
    with False 1 2 3 hd tl dist e show ?thesis
      by (cases ys; cases "zs = []") (auto simp: dlist_def last_or_def)
  qed
qed

lemma visit_of_dlist: "dlist h l xs \<Longrightarrow> visit h (pHead l) = Some xs"
  using visit_dlist by (auto simp: dlist_def)

section \<open>Properties\<close>

text \<open>A list of the links at addresses 1 and 2.\<close>

definition ex_heap :: dheap where
  "ex_heap = (\<lambda>_. \<lparr>pNext = None, pPrev = None\<rparr>)
     (1 := \<lparr>pNext = Some 2, pPrev = None\<rparr>, 2 := \<lparr>pNext = None, pPrev = Some 1\<rparr>)"

definition ex_list :: DLIST where
  "ex_list = \<lparr>dl_Size = 2, pHead = Some 1, pTail = Some 2\<rparr>"

lemma ex_dlist: "dlist ex_heap ex_list [1, 2]"
  by (simp add: dlist_def ex_heap_def ex_list_def)

text \<open>\<^verbatim>\<open>DListAdd\<close> of a link that is not in the list never dereferences \<^verbatim>\<open>NULL\<close>, keeps the list well
  formed (the backward links mirror the forward links, head and tail are its ends) and appends the
  link: a traversal from \<^verbatim>\<open>pHead\<close> ends and visits the old links and then the new one.\<close>

theorem DListAdd_appends:
  assumes "dlist h l xs" and "e \<notin> set xs"
  shows "\<exists>l' h'. DListAdd l e h = Some (l', h') \<and> dlist h' l' (xs @ [e])
    \<and> visit h' (pHead l') = Some (xs @ [e]) \<and> dl_Size l' = Suc (dl_Size l)"
  using DListAdd_refines [OF assms] visit_of_dlist by blast

theorem DListAdd_appends_witness:
  "\<exists>l' h'. DListAdd ex_list 7 ex_heap = Some (l', h') \<and> visit h' (pHead l') = Some [1, 2, 7]"
  using DListAdd_appends [OF ex_dlist, of 7] by auto

text \<open>C28: \<^verbatim>\<open>DListDelete\<close> of a link of the list, be it the first, the last, the only one or one in the
  middle, keeps the list well formed and removes exactly that link.\<close>

theorem DListDelete_removes:
  assumes "dlist h l xs" and "e \<in> set xs"
  shows "\<exists>l' h'. DListDelete l e h = Some (l', h') \<and> dlist h' l' (remove1 e xs)
    \<and> visit h' (pHead l') = Some (remove1 e xs) \<and> dl_Size l' = dl_Size l - 1"
proof -
  from assms(2) obtain ys zs where xs: "xs = ys @ e # zs" "e \<notin> set ys" by (meson split_list_first)
  then have "remove1 e xs = ys @ zs" by (simp add: remove1_append)
  with DListDelete_refines [OF assms(1) [unfolded xs(1)]] visit_of_dlist show ?thesis by metis
qed

theorem DListDelete_removes_witness:
  "\<exists>l' h'. DListDelete ex_list 1 ex_heap = Some (l', h') \<and> visit h' (pHead l') = Some [2]"
  using DListDelete_removes [OF ex_dlist, of 1] by auto

text \<open>\<^verbatim>\<open>DListInsert\<close> puts a new link directly behind the link \<^verbatim>\<open>pAfter\<close> of the list, or in front when
  \<^verbatim>\<open>pAfter\<close> is \<^verbatim>\<open>NULL\<close>, and keeps the list well formed.\<close>

theorem DListInsert_inserts:
  assumes "dlist h l (ys @ zs)" and "e \<notin> set (ys @ zs)"
  shows "\<exists>l' h'. DListInsert l e (last_or ys None) h = Some (l', h') \<and> dlist h' l' (ys @ e # zs)
    \<and> visit h' (pHead l') = Some (ys @ e # zs) \<and> dl_Size l' = Suc (dl_Size l)"
  using DListInsert_refines [OF assms(1)] assms(2) visit_of_dlist by fastforce

theorem DListInsert_inserts_witness:
  "\<exists>l' h'. DListInsert ex_list 7 (Some 1) ex_heap = Some (l', h') \<and> visit h' (pHead l') = Some [1, 7, 2]"
proof -
  have "dlist ex_heap ex_list ([1] @ [2])" using ex_dlist by simp
  from DListInsert_inserts [OF this, of 7] show ?thesis by fastforce
qed

end
