(* ===== verification/NvramIndex.thy ===== *)
theory NvramIndex
  imports NvramWrite DListLib "HOL-Library.Multiset"
begin

text \<open>
  The variable index of \<^verbatim>\<open>AmiModulePkg/NVRAM/NvramDxe.c\<close> (\<^verbatim>\<open>NV_CACHE_SUPPORT\<close>): one list of entries per
  first letter of a name, each entry with the record of the variable, the record with its current
  data, the store it lies in and the next seven characters of its name.  A list is represented by
  its entries in traversal order, together with its \<^verbatim>\<open>Size\<close> field, which exceeds the number of
  entries when the entry buffer was full; \<open>DListLib\<close> shows that the pointer routines implement these
  lists.  An entry is identified by its offset in the entry buffer.
\<close>

section \<open>Entries and lists\<close>

record VAR_INDEX_ENTRY =
  ie_Link :: nat
  ie_Nvar :: nat
  FinalDataNvar :: "nat option"
  InfoIndex :: nat
  ie_Name :: "char16 list"

record index_list =
  il_Size :: nat
  il_entries :: "VAR_INDEX_ENTRY list"

record VAR_INDEX =
  LetterIndex :: "index_list list"
  OtherIndex :: index_list
  Blanks :: index_list
  UsedSize :: nat
  BufferSize :: nat

definition empty_list :: index_list where
  "empty_list = \<lparr>il_Size = 0, il_entries = []\<rparr>"

definition list_add :: "index_list \<Rightarrow> VAR_INDEX_ENTRY \<Rightarrow> index_list" where
  "list_add l e = \<lparr>il_Size = Suc (il_Size l), il_entries = il_entries l @ [e]\<rparr>"

definition list_delete :: "index_list \<Rightarrow> nat \<Rightarrow> index_list" where
  "list_delete l k = \<lparr>il_Size = il_Size l - 1, il_entries = filter (\<lambda>e. ie_Link e \<noteq> k) (il_entries l)\<rparr>"

definition list_replace :: "index_list \<Rightarrow> VAR_INDEX_ENTRY \<Rightarrow> index_list" where
  "list_replace l e = l\<lparr>il_entries := map (\<lambda>x. if ie_Link x = ie_Link e then e else x) (il_entries l)\<rparr>"

text \<open>\<^verbatim>\<open>sizeof(VAR_INDEX_ENTRY)\<close> on the 64-bit build, and the size of the entry buffer.\<close>

definition sizeof_VAR_INDEX_ENTRY :: nat where "sizeof_VAR_INDEX_ENTRY = 56"
definition VARIABLE_INDEX_SIZE :: nat where "VARIABLE_INDEX_SIZE = 0x10000"

section \<open>Operations\<close>

text \<open>The list for a first letter: \<open>Some i\<close> for the letter lists, \<open>None\<close> for \<^verbatim>\<open>OtherIndex\<close>.\<close>

definition IndexGetList :: "char16 \<Rightarrow> nat option" where
  "IndexGetList FirstLetter =
     (if 65 \<le> FirstLetter \<and> FirstLetter \<le> 90 then Some (unat (FirstLetter - 65))
      else if 97 \<le> FirstLetter \<and> FirstLetter \<le> 122 then Some (unat (FirstLetter - 97))
      else None)"

definition get_list :: "VAR_INDEX \<Rightarrow> nat option \<Rightarrow> index_list" where
  "get_list vi k = (case k of Some i \<Rightarrow> LetterIndex vi ! i | None \<Rightarrow> OtherIndex vi)"

definition put_list :: "VAR_INDEX \<Rightarrow> nat option \<Rightarrow> index_list \<Rightarrow> VAR_INDEX" where
  "put_list vi k l = (case k of Some i \<Rightarrow> vi\<lparr>LetterIndex := (LetterIndex vi)[i := l]\<rparr> | None \<Rightarrow> vi\<lparr>OtherIndex := l\<rparr>)"

text \<open>A character of a record's name as the index reads it: one-byte characters through \<^verbatim>\<open>CHAR8\<close>, which
  is a signed type on the compilers the firmware is built with, so that a character from \<open>0x80\<close> on is
  sign-extended to the 16 bits of a \<^verbatim>\<open>CHAR16\<close>.  (\<open>name_char\<close> is the unsigned reading of \<^verbatim>\<open>NvVarEq\<close>.)\<close>

definition index_char :: "nat \<Rightarrow> memory \<Rightarrow> nat \<Rightarrow> char16" where
  "index_char w m a = (if w = 1 then scast (m a) else name_char w m a)"

definition IndexGetListNvar :: "memory \<Rightarrow> nat \<Rightarrow> nat option" where
  "IndexGetListNvar m Nvar = IndexGetList (index_char (name_width m Nvar) m (NvGetName m Nvar))"

text \<open>The comparison of the cached characters with the name from its second character on: the loop
  stops at the end of the cached characters, which is a match, or at the first difference.  A name
  is followed by its terminator.\<close>

fun name_cached :: "char16 list \<Rightarrow> char16 list \<Rightarrow> bool" where
  "name_cached [] s = True"
| "name_cached (c # cs) [] = (c = 0)"
| "name_cached (c # cs) (x # s) = (c = 0 \<or> c = x \<and> name_cached cs s)"

text \<open>The search loop of \<^verbatim>\<open>IndexFindVariableEntry\<close>: the entry found with the size of its name, the
  number of links passed and whether an entry of a corrupted record was.\<close>

fun index_search ::
    "memory \<Rightarrow> NVRAM_STORE_INFO list \<Rightarrow> char16 list \<Rightarrow> u8 list \<Rightarrow> VAR_INDEX_ENTRY list \<Rightarrow> nat \<Rightarrow> bool
       \<Rightarrow> (VAR_INDEX_ENTRY \<times> nat) option \<times> nat \<times> bool" where
  "index_search m infos name guid [] Count bad = (None, Count, bad)"
| "index_search m infos name guid (e # es) Count bad =
     (if \<not> name_cached (ie_Name e) (drop 1 name) then index_search m infos name guid es (Suc Count) bad
      else if \<not> NvIsVariable m (ie_Nvar e) (infos ! InfoIndex e)
      then index_search m infos name guid es (Suc Count) True
      else case NvVarEq m (ie_Nvar e) name guid (infos ! InfoIndex e) of
             Some k \<Rightarrow> (Some (e, k), Count, bad)
           | None \<Rightarrow> index_search m infos name guid es (Suc Count) bad)"

text \<open>\<^verbatim>\<open>IndexFindVariableEntry\<close>: the entry with its name size and whether variables may exist that are
  not in the index.  The pointer \<^verbatim>\<open>VarIndexPtr\<close> is \<open>None\<close> when it is \<^verbatim>\<open>NULL\<close>.\<close>

definition IndexFindVariableEntry ::
    "memory \<Rightarrow> NVRAM_STORE_INFO list \<Rightarrow> char16 list \<Rightarrow> u8 list \<Rightarrow> VAR_INDEX option
       \<Rightarrow> (VAR_INDEX_ENTRY \<times> nat) option \<times> bool option \<times> VAR_INDEX option" where
  "IndexFindVariableEntry m infos name guid ix =
     (case ix of
        None \<Rightarrow> (None, Some True, None)
      | Some vi \<Rightarrow>
          let k = IndexGetList (name0 name); List = get_list vi k;
              (r, Count, bad) = index_search m infos name guid (il_entries List) 0 False
          in case r of
               Some (e, n) \<Rightarrow>
                 let e' = (if FinalDataNvar e = None
                           then e\<lparr>FinalDataNvar := NvGetDataNvar m (ie_Nvar e) (infos ! InfoIndex e)\<rparr> else e)
                 in (Some (e', n), None, Some (put_list vi k (list_replace List e')))
             | None \<Rightarrow> (None, Some (bad \<or> Count < il_Size List), ix))"

definition IndexFindVariable ::
    "memory \<Rightarrow> NVRAM_STORE_INFO list \<Rightarrow> char16 list \<Rightarrow> u8 list \<Rightarrow> VAR_INDEX option
       \<Rightarrow> nat option \<times> bool option \<times> VAR_INDEX option" where
  "IndexFindVariable m infos name guid ix =
     (case IndexFindVariableEntry m infos name guid ix of
        (r, u, ix') \<Rightarrow> (map_option (\<lambda>(e, n). ie_Nvar e) r, u, ix'))"

text \<open>A blank entry: its offset, from the unused part of the buffer or from \<^verbatim>\<open>Blanks\<close>.\<close>

definition IndexGetBlankEntry :: "VAR_INDEX \<Rightarrow> nat option \<times> VAR_INDEX" where
  "IndexGetBlankEntry vi =
     (if UsedSize vi \<le> uintn_sub (BufferSize vi) sizeof_VAR_INDEX_ENTRY
      then (Some (UsedSize vi), vi\<lparr>UsedSize := UsedSize vi + sizeof_VAR_INDEX_ENTRY\<rparr>)
      else if il_entries (Blanks vi) \<noteq> []
      then (let k = ie_Link (last (il_entries (Blanks vi)))
            in (Some k, vi\<lparr>Blanks := list_delete (Blanks vi) k\<rparr>))
      else (None, vi))"

fun name_part :: "nat \<Rightarrow> nat \<Rightarrow> memory \<Rightarrow> nat \<Rightarrow> char16 list" where
  "name_part 0 w m a = []"
| "name_part (Suc n) w m a = (if index_char w m a \<noteq> 0 then index_char w m a # name_part n w m (a + w) else [])"

definition IndexAddVariable :: "memory \<Rightarrow> nat \<Rightarrow> nat \<Rightarrow> VAR_INDEX option \<Rightarrow> VAR_INDEX option" where
  "IndexAddVariable m Nvar i ix =
     (case ix of
        None \<Rightarrow> None
      | Some vi \<Rightarrow>
          let k = IndexGetListNvar m Nvar; (Entry, vi1) = IndexGetBlankEntry vi; List = get_list vi1 k
          in case Entry of
               None \<Rightarrow> Some (put_list vi1 k (List\<lparr>il_Size := Suc (il_Size List)\<rparr>))
             | Some x \<Rightarrow>
                 let w = name_width m Nvar
                 in Some (put_list vi1 k (list_add List
                      \<lparr>ie_Link = x, ie_Nvar = Nvar, FinalDataNvar = None, InfoIndex = i,
                       ie_Name = name_part 7 w m (NvGetName m Nvar + w)\<rparr>)))"

text \<open>The search loop of \<^verbatim>\<open>IndexUpdateVariable\<close>; the comparison of two names in a store may not
  return (see \<open>NvarEqNvar\<close>), which is \<open>None\<close>.\<close>

fun index_same ::
    "memory \<Rightarrow> NVRAM_STORE_INFO list \<Rightarrow> nat \<Rightarrow> nat \<Rightarrow> VAR_INDEX_ENTRY list \<Rightarrow> VAR_INDEX_ENTRY option option" where
  "index_same m infos Nvar i [] = Some None"
| "index_same m infos Nvar i (e # es) =
     (if \<not> NvIsVariable m (ie_Nvar e) (infos ! InfoIndex e) then index_same m infos Nvar i es
      else do {
        b \<leftarrow> NvarEqNvar m (ie_Nvar e) (infos ! InfoIndex e) Nvar (infos ! i);
        if b then Some (Some e) else index_same m infos Nvar i es
      })"

definition IndexUpdateVariable ::
    "memory \<Rightarrow> NVRAM_STORE_INFO list \<Rightarrow> nat \<Rightarrow> nat \<Rightarrow> VAR_INDEX option \<Rightarrow> VAR_INDEX option option" where
  "IndexUpdateVariable m infos Nvar i ix =
     (case ix of
        None \<Rightarrow> Some None
      | Some vi \<Rightarrow>
          let k = IndexGetListNvar m Nvar; List = get_list vi k
          in do {
               r \<leftarrow> index_same m infos Nvar i (il_entries List);
               case r of
                 None \<Rightarrow> Some (IndexAddVariable m Nvar i ix)
               | Some e \<Rightarrow> Some (Some (put_list vi k (list_replace List
                             (e\<lparr>ie_Nvar := Nvar, FinalDataNvar := None, InfoIndex := i\<rparr>))))
             })"

definition IndexDeleteVariable :: "memory \<Rightarrow> nat \<Rightarrow> VAR_INDEX option \<Rightarrow> VAR_INDEX option" where
  "IndexDeleteVariable m Nvar ix =
     (case ix of
        None \<Rightarrow> None
      | Some vi \<Rightarrow>
          let k = IndexGetListNvar m Nvar; List = get_list vi k
          in case List.find (\<lambda>e. ie_Nvar e = Nvar) (il_entries List) of
               None \<Rightarrow> ix
             | Some e \<Rightarrow> let vi1 = put_list vi k (list_delete List (ie_Link e))
                         in Some (vi1\<lparr>Blanks := list_add (Blanks vi1) e\<rparr>))"

definition IndexDeleteVariableEntry :: "memory \<Rightarrow> VAR_INDEX_ENTRY option \<Rightarrow> VAR_INDEX option \<Rightarrow> VAR_INDEX option" where
  "IndexDeleteVariableEntry m Entry ix =
     (case (Entry, ix) of
        (Some e, Some vi) \<Rightarrow>
          let k = IndexGetListNvar m (ie_Nvar e);
              vi1 = put_list vi k (list_delete (get_list vi k) (ie_Link e))
          in Some (vi1\<lparr>Blanks := list_add (Blanks vi1) e\<rparr>)
      | _ \<Rightarrow> ix)"

text \<open>The loop of \<^verbatim>\<open>IndexReset\<close> over the valid records of a store, from its first record.\<close>

fun index_records ::
    "memory \<Rightarrow> NVRAM_STORE_INFO list \<Rightarrow> nat \<Rightarrow> nat list \<Rightarrow> VAR_INDEX option \<Rightarrow> VAR_INDEX option option" where
  "index_records m infos i [] ix = Some ix"
| "index_records m infos i (p # ps) ix =
     Option.bind (IndexUpdateVariable m infos p i ix) (index_records m infos i ps)"

function next_valids :: "memory \<Rightarrow> NVRAM_STORE_INFO \<Rightarrow> nat option \<Rightarrow> nat list" where
  "next_valids m info p =
     (case p of None \<Rightarrow> [] | Some a \<Rightarrow> a # next_valids m info (NvGetNextValid m (Some a) info))"
  by pat_completeness auto
termination
  by (relation "measure (\<lambda>(m, info, p). next_measure info p)") (auto simp: NvGetNextValid_measure)

declare next_valids.simps [simp del]

fun index_stores ::
    "memory \<Rightarrow> NVRAM_STORE_INFO list \<Rightarrow> nat \<Rightarrow> VAR_INDEX option \<Rightarrow> VAR_INDEX option option" where
  "index_stores m infos 0 ix = Some ix"
| "index_stores m infos (Suc i) ix =
     (let info = infos ! i
      in if \<not> NvIsVariable m (pFirstVar info) info then index_stores m infos i ix
         else Option.bind (index_records m infos i (next_valids m info (Some (pFirstVar info))) ix)
                (index_stores m infos i))"

definition IndexReset ::
    "memory \<Rightarrow> VARSTORE_INFO \<Rightarrow> VAR_INDEX option \<Rightarrow> VAR_INDEX option option" where
  "IndexReset m vs ix =
     (case ix of
        None \<Rightarrow> Some None
      | Some vi \<Rightarrow>
          index_stores m (NvramInfo vs) (InfoCount vs)
            (Some (vi\<lparr>UsedSize := 0, LetterIndex := replicate 26 empty_list,
                      OtherIndex := empty_list, Blanks := empty_list\<rparr>)))"

text \<open>\<open>Pool\<close> tells whether the entry buffer could be allocated.\<close>

definition IndexInit ::
    "bool \<Rightarrow> memory \<Rightarrow> VARSTORE_INFO \<Rightarrow> VAR_INDEX option \<Rightarrow> VAR_INDEX option option" where
  "IndexInit Pool m vs ix =
     (if \<not> Pool then Some None
      else IndexReset m vs (map_option (\<lambda>vi. vi\<lparr>BufferSize := VARIABLE_INDEX_SIZE\<rparr>) ix))"

definition IndexExitBs :: "VAR_INDEX option \<Rightarrow> VAR_INDEX option" where
  "IndexExitBs ix = None"

section \<open>The invariant of the index\<close>

text \<open>Every entry is in the list of the first letter of its record's name and has the right characters
  cached, no list has more entries than its size says, and the entries, those of \<^verbatim>\<open>Blanks\<close> included,
  are disjoint pieces of the used part of the buffer.\<close>

definition entry_fits :: "memory \<Rightarrow> nat option \<Rightarrow> VAR_INDEX_ENTRY \<Rightarrow> bool" where
  "entry_fits m k e \<longleftrightarrow>
     IndexGetListNvar m (ie_Nvar e) = k
     \<and> (let w = name_width m (ie_Nvar e); a = NvGetName m (ie_Nvar e)
        in name_char w m a \<noteq> 0 \<longrightarrow> ie_Name e = name_part 7 w m (a + w))"

definition list_ok :: "memory \<Rightarrow> nat option \<Rightarrow> index_list \<Rightarrow> bool" where
  "list_ok m k l \<longleftrightarrow> length (il_entries l) \<le> il_Size l \<and> list_all (entry_fits m k) (il_entries l)"

definition all_entries :: "VAR_INDEX \<Rightarrow> VAR_INDEX_ENTRY list" where
  "all_entries vi = concat (map il_entries (LetterIndex vi)) @ il_entries (OtherIndex vi)"

definition links :: "VAR_INDEX \<Rightarrow> nat multiset" where
  "links vi = image_mset ie_Link (mset (all_entries vi @ il_entries (Blanks vi)))"

definition links_ok :: "VAR_INDEX \<Rightarrow> bool" where
  "links_ok vi \<longleftrightarrow> sizeof_VAR_INDEX_ENTRY dvd UsedSize vi \<and> UsedSize vi \<le> BufferSize vi
     \<and> sizeof_VAR_INDEX_ENTRY \<le> BufferSize vi \<and> BufferSize vi < 2 ^ 64
     \<and> distinct (map ie_Link (all_entries vi @ il_entries (Blanks vi)))
     \<and> list_all (\<lambda>e. sizeof_VAR_INDEX_ENTRY dvd ie_Link e \<and> ie_Link e + sizeof_VAR_INDEX_ENTRY \<le> UsedSize vi)
         (all_entries vi @ il_entries (Blanks vi))"

definition index_ok :: "memory \<Rightarrow> VAR_INDEX \<Rightarrow> bool" where
  "index_ok m vi \<longleftrightarrow> length (LetterIndex vi) = 26
     \<and> list_all (\<lambda>i. list_ok m (Some i) (LetterIndex vi ! i)) [0..<26] \<and> list_ok m None (OtherIndex vi)
     \<and> links_ok vi"

lemma IndexGetList_range: "IndexGetList c = Some i \<Longrightarrow> i < 26"
  by (auto simp: IndexGetList_def unat_sub word_le_nat_alt split: if_splits)

definition letter :: "nat option \<Rightarrow> bool" where
  "letter k \<longleftrightarrow> (case k of None \<Rightarrow> True | Some i \<Rightarrow> i < 26)"

lemma letter_Nvar [simp]: "letter (IndexGetListNvar m p)" "letter (IndexGetList c)"
  using IndexGetList_range by (auto simp: letter_def IndexGetListNvar_def split: option.splits)

lemma index_ok_iff:
  "index_ok m vi \<longleftrightarrow> length (LetterIndex vi) = 26 \<and> (\<forall>k. letter k \<longrightarrow> list_ok m k (get_list vi k)) \<and> links_ok vi"
proof -
  have "(\<forall>k. letter k \<longrightarrow> list_ok m k (get_list vi k)) \<longleftrightarrow>
      (\<forall>i<26. list_ok m (Some i) (LetterIndex vi ! i)) \<and> list_ok m None (OtherIndex vi)"
    by (auto simp: letter_def get_list_def split: option.splits)
  then show ?thesis by (auto simp: index_ok_def list_all_iff)
qed

lemma get_put [simp]:
  "letter k \<Longrightarrow> letter k' \<Longrightarrow> length (LetterIndex vi) = 26 \<Longrightarrow>
   get_list (put_list vi k l) k' = (if k' = k then l else get_list vi k')"
  by (auto simp: get_list_def put_list_def letter_def split: option.splits)

lemma put_list_simps [simp]:
  "length (LetterIndex (put_list vi k l)) = length (LetterIndex vi)"
  "Blanks (put_list vi k l) = Blanks vi" "UsedSize (put_list vi k l) = UsedSize vi"
  "BufferSize (put_list vi k l) = BufferSize vi"
  by (simp_all add: put_list_def split: option.splits)

lemma mset_concat_update:
  "i < length xs \<Longrightarrow> mset (concat (map f (xs[i := y]))) + mset (f (xs ! i)) = mset (concat (map f xs)) + mset (f y)"
proof (induction xs arbitrary: i)
  case Nil
  then show ?case by simp
next
  case (Cons x xs)
  then show ?case by (cases i) (auto simp: union_ac)
qed

lemma mset_put:
  "letter k \<Longrightarrow> length (LetterIndex vi) = 26 \<Longrightarrow>
   mset (all_entries (put_list vi k l)) + mset (il_entries (get_list vi k)) = mset (all_entries vi) + mset (il_entries l)"
  using mset_concat_update [of _ "LetterIndex vi" il_entries l]
  by (auto simp: all_entries_def put_list_def get_list_def letter_def ac_simps split: option.splits)

lemma in_all_entries:
  "length (LetterIndex vi) = 26 \<Longrightarrow>
   e \<in> set (all_entries vi) \<longleftrightarrow> (\<exists>k. letter k \<and> e \<in> set (il_entries (get_list vi k)))"
proof -
  assume l: "length (LetterIndex vi) = 26"
  have "(\<exists>x\<in>set (LetterIndex vi). e \<in> set (il_entries x)) \<longleftrightarrow> (\<exists>i<26. e \<in> set (il_entries (LetterIndex vi ! i)))"
    using l by (metis in_set_conv_nth)
  then show ?thesis by (auto simp: all_entries_def letter_def get_list_def split: option.splits)
qed

lemma all_entries_fit:
  assumes "index_ok m vi" and "e \<in> set (all_entries vi)"
  shows "entry_fits m (IndexGetListNvar m (ie_Nvar e)) e"
    "e \<in> set (il_entries (get_list vi (IndexGetListNvar m (ie_Nvar e))))"
proof -
  from assms obtain k where "letter k" "e \<in> set (il_entries (get_list vi k))" "list_ok m k (get_list vi k)"
    by (auto simp: index_ok_iff in_all_entries)
  then have "entry_fits m k e" "IndexGetListNvar m (ie_Nvar e) = k" "e \<in> set (il_entries (get_list vi k))"
    by (auto simp: list_ok_def list_all_iff entry_fits_def)
  then show "entry_fits m (IndexGetListNvar m (ie_Nvar e)) e"
    "e \<in> set (il_entries (get_list vi (IndexGetListNvar m (ie_Nvar e))))" by auto
qed

text \<open>The links as a multiset, so that an operation is described by what it adds and removes.\<close>

lemma links_ok_iff:
  "links_ok vi \<longleftrightarrow> sizeof_VAR_INDEX_ENTRY dvd UsedSize vi \<and> UsedSize vi \<le> BufferSize vi
     \<and> sizeof_VAR_INDEX_ENTRY \<le> BufferSize vi \<and> BufferSize vi < 2 ^ 64
     \<and> (\<forall>x. count (links vi) x \<le> 1)
     \<and> (\<forall>x\<in>#links vi. sizeof_VAR_INDEX_ENTRY dvd x \<and> x + sizeof_VAR_INDEX_ENTRY \<le> UsedSize vi)"
proof -
  have d: "distinct xs \<longleftrightarrow> (\<forall>x. count (mset xs) x \<le> 1)" for xs :: "nat list"
    by (metis distinct_count_atmost_1 le_numeral_extra(4) linorder_le_less_linear less_one nat_less_le
        not_in_iff set_mset_mset zero_le)
  have m: "links vi = mset (map ie_Link (all_entries vi @ il_entries (Blanks vi)))"
    by (simp add: links_def)
  show ?thesis
    by (auto simp: links_ok_def d m list_all_iff simp del: map_append mset_append mset_map)
qed


lemma index_okD:
  assumes "index_ok m vi"
  shows "length (LetterIndex vi) = 26" "letter k \<Longrightarrow> list_ok m k (get_list vi k)" "links_ok vi"
  using assms by (auto simp: index_ok_iff)

lemma links_put:
  assumes "letter k" "length (LetterIndex vi) = 26"
  shows "links (put_list vi k l) + image_mset ie_Link (mset (il_entries (get_list vi k)))
    = links vi + image_mset ie_Link (mset (il_entries l))"
proof -
  from mset_put [OF assms] have "image_mset ie_Link (mset (all_entries (put_list vi k l)) + mset (il_entries (get_list vi k)))
      = image_mset ie_Link (mset (all_entries vi) + mset (il_entries l))" by (rule arg_cong)
  then show ?thesis by (simp add: links_def ac_simps)
qed

text \<open>Replacing the list of a letter keeps the invariant when the links are kept.\<close>

lemma index_ok_put:
  assumes "index_ok m vi" "letter k" "list_ok m k l"
    and "map ie_Link (il_entries l) = map ie_Link (il_entries (get_list vi k))"
  shows "index_ok m (put_list vi k l)"
proof -
  note i = index_okD [OF assms(1)]
  have "image_mset ie_Link (mset (il_entries l)) = image_mset ie_Link (mset (il_entries (get_list vi k)))"
    by (metis assms(4) mset_map)
  with links_put [OF assms(2) i(1), of l] have "links (put_list vi k l) = links vi" by simp
  with i assms(2,3) show ?thesis by (auto simp: index_ok_iff links_ok_iff)
qed

section \<open>Adding, replacing and deleting entries\<close>

lemma filter_link:
  "filter_mset (\<lambda>x. x \<noteq> k) (image_mset ie_Link M) = image_mset ie_Link (filter_mset (\<lambda>e. ie_Link e \<noteq> k) M)"
  by (induction M) auto

lemma remove_link:
  assumes "count (image_mset ie_Link (mset xs)) k = 1"
  shows "image_mset ie_Link (mset xs) = add_mset k (image_mset ie_Link (mset (filter (\<lambda>e. ie_Link e \<noteq> k) xs)))"
proof -
  let ?M = "image_mset ie_Link (mset xs)"
  have "?M = filter_mset (\<lambda>x. x = k) ?M + filter_mset (\<lambda>x. x \<noteq> k) ?M"
    using multiset_partition [of ?M "\<lambda>x. x = k"] by simp
  also have "filter_mset (\<lambda>x. x = k) ?M = replicate_mset 1 k"
    using assms filter_eq_replicate_mset [of k ?M] by (simp add: eq_commute)
  finally show ?thesis by (simp add: filter_link)
qed

lemma count_le_part: "count (A + B :: nat multiset) x \<le> 1 \<Longrightarrow> x \<in># B \<Longrightarrow> count B x = 1 \<and> x \<notin># A"
  by (simp add: not_in_iff flip: count_greater_zero_iff)

text \<open>A fresh entry: outside the entries in use, inside the buffer.\<close>

lemma IndexGetBlankEntry_ok:
  assumes "index_ok m vi" and "IndexGetBlankEntry vi = (r, vi1)"
  shows "get_list vi1 k = get_list vi k" "index_ok m vi1"
    "case r of None \<Rightarrow> vi1 = vi
     | Some x \<Rightarrow> x \<notin># links vi1 \<and> sizeof_VAR_INDEX_ENTRY dvd x \<and> x + sizeof_VAR_INDEX_ENTRY \<le> UsedSize vi1"
proof -
  note i = index_okD [OF assms(1)] and i3 = index_okD(3) [OF assms(1), unfolded links_ok_iff]
  have sub: "uintn_sub (BufferSize vi) sizeof_VAR_INDEX_ENTRY = BufferSize vi - sizeof_VAR_INDEX_ENTRY"
    using i3 by (intro uintn_sub_le) auto
  consider (fresh) "UsedSize vi + sizeof_VAR_INDEX_ENTRY \<le> BufferSize vi" "r = Some (UsedSize vi)"
      "vi1 = vi\<lparr>UsedSize := UsedSize vi + sizeof_VAR_INDEX_ENTRY\<rparr>"
    | (blank) x where "il_entries (Blanks vi) \<noteq> []" "x = ie_Link (last (il_entries (Blanks vi)))" "r = Some x"
      "vi1 = vi\<lparr>Blanks := list_delete (Blanks vi) x\<rparr>"
    | (full) "r = None" "vi1 = vi"
    using assms(2) i3 by (auto simp: IndexGetBlankEntry_def sub Let_def split: if_splits)
  then have "(\<forall>k. get_list vi1 k = get_list vi k) \<and> index_ok m vi1 \<and> (case r of None \<Rightarrow> vi1 = vi
     | Some x \<Rightarrow> x \<notin># links vi1 \<and> sizeof_VAR_INDEX_ENTRY dvd x \<and> x + sizeof_VAR_INDEX_ENTRY \<le> UsedSize vi1)"
  proof cases
    case fresh
    then have l: "links vi1 = links vi" by (simp add: links_def all_entries_def)
    moreover have "get_list vi1 k = get_list vi k" for k
      using fresh by (simp add: get_list_def split: option.splits)
    moreover have "UsedSize vi \<notin># links vi"
      using i3 by (force simp: sizeof_VAR_INDEX_ENTRY_def)
    ultimately show ?thesis using i i3 fresh by (fastforce simp: index_ok_iff links_ok_iff)
  next
    case blank
    let ?B = "il_entries (Blanks vi)"
    have x: "x \<in># image_mset ie_Link (mset ?B)" using blank by auto
    have lv: "links vi = image_mset ie_Link (mset (all_entries vi)) + image_mset ie_Link (mset ?B)"
      by (simp add: links_def)
    with i3 count_le_part [OF _ x] have c: "count (image_mset ie_Link (mset ?B)) x = 1"
        "x \<notin># image_mset ie_Link (mset (all_entries vi))" by metis+
    have l: "links vi = add_mset x (links vi1)"
      using remove_link [OF c(1)] blank by (simp add: links_def all_entries_def list_delete_def)
    moreover have "get_list vi1 k = get_list vi k" for k
      using blank by (simp add: get_list_def split: option.splits)
    moreover have "count (links vi1) y \<le> 1 \<and> x \<notin># links vi1" for y
    proof -
      from i3 l have "count (add_mset x (links vi1)) y \<le> 1" "count (add_mset x (links vi1)) x \<le> 1" by metis+
      then show ?thesis by (auto simp: not_in_iff split: if_splits)
    qed
    moreover have "LetterIndex vi1 = LetterIndex vi" "UsedSize vi1 = UsedSize vi" "BufferSize vi1 = BufferSize vi"
      using blank by auto
    ultimately show ?thesis using i i3 blank by (auto simp: index_ok_iff links_ok_iff)
  next
    case full
    with assms(1) show ?thesis by simp
  qed
  then show "get_list vi1 k = get_list vi k" "index_ok m vi1" "case r of None \<Rightarrow> vi1 = vi
     | Some x \<Rightarrow> x \<notin># links vi1 \<and> sizeof_VAR_INDEX_ENTRY dvd x \<and> x + sizeof_VAR_INDEX_ENTRY \<le> UsedSize vi1"
    by auto
qed


definition new_entry :: "memory \<Rightarrow> nat \<Rightarrow> nat \<Rightarrow> nat \<Rightarrow> VAR_INDEX_ENTRY" where
  "new_entry m p i x = \<lparr>ie_Link = x, ie_Nvar = p, FinalDataNvar = None, InfoIndex = i,
     ie_Name = name_part 7 (name_width m p) m (NvGetName m p + name_width m p)\<rparr>"

lemma IndexAddVariable_cases:
  assumes "index_ok m vi" and "IndexAddVariable m p i (Some vi) = Some vi'"
  obtains (full) "vi' = put_list vi (IndexGetListNvar m p)
      ((get_list vi (IndexGetListNvar m p))\<lparr>il_Size := Suc (il_Size (get_list vi (IndexGetListNvar m p)))\<rparr>)"
  | (added) vi1 x where "IndexGetBlankEntry vi = (Some x, vi1)"
      "vi' = put_list vi1 (IndexGetListNvar m p)
         (list_add (get_list vi (IndexGetListNvar m p)) (new_entry m p i x))"
proof -
  obtain r vi1 where b: "IndexGetBlankEntry vi = (r, vi1)" by fastforce
  note g = IndexGetBlankEntry_ok [OF assms(1) b]
  from assms(2) b g show thesis
    by (cases r) (auto simp: IndexAddVariable_def Let_def new_entry_def intro: that)
qed

lemma IndexAddVariable_ok:
  assumes "index_ok m vi" and "IndexAddVariable m p i (Some vi) = Some vi'"
  shows "index_ok m vi'"
  using assms
proof (cases rule: IndexAddVariable_cases)
  case full
  let ?k = "IndexGetListNvar m p"
  from index_okD(2) [OF assms(1), of ?k] show ?thesis
    unfolding full by (intro index_ok_put [OF assms(1)]) (auto simp: list_ok_def)
next
  case (added vi1 x)
  let ?k = "IndexGetListNvar m p" and ?e = "new_entry m p i x"
  note g = IndexGetBlankEntry_ok [OF assms(1) added(1)] and i = index_okD [OF IndexGetBlankEntry_ok(2) [OF assms(1) added(1)]]
  have "list_ok m ?k (list_add (get_list vi ?k) ?e)"
    using index_okD(2) [OF assms(1), of ?k]
    by (auto simp: list_ok_def list_add_def entry_fits_def new_entry_def Let_def)
  moreover have "links vi' = add_mset x (links vi1)"
    using links_put [OF _ i(1), of ?k "list_add (get_list vi ?k) ?e"]
    by (simp add: added g(1) list_add_def new_entry_def)
  moreover have "count (add_mset x (links vi1)) y \<le> 1" for y
    using g(3) i(3) by (auto simp: links_ok_iff not_in_iff)
  ultimately show ?thesis
    using i g(3) by (auto simp: added index_ok_iff links_ok_iff g(1))
qed

lemma list_replace_links [simp]:
  "map ie_Link (il_entries (list_replace l e)) = map ie_Link (il_entries l)"
  by (auto simp: list_replace_def)

lemma list_ok_replace:
  "list_ok m k l \<Longrightarrow> entry_fits m k e \<Longrightarrow> list_ok m k (list_replace l e)"
  by (auto simp: list_ok_def list_replace_def list_all_iff)

lemma index_ok_replace:
  "index_ok m vi \<Longrightarrow> letter k \<Longrightarrow> entry_fits m k e \<Longrightarrow> index_ok m (put_list vi k (list_replace (get_list vi k) e))"
  by (intro index_ok_put list_ok_replace index_okD(2)) auto

text \<open>A deleted entry moves to \<^verbatim>\<open>Blanks\<close>.\<close>

lemma move_to_blanks_ok:
  assumes "index_ok m vi" and "letter k" and e: "e \<in> set (il_entries (get_list vi k))"
  shows "index_ok m (put_list vi k (list_delete (get_list vi k) (ie_Link e))
      \<lparr>Blanks := list_add (Blanks vi) e\<rparr>)"
proof -
  let ?l = "get_list vi k" and ?vi = "put_list vi k (list_delete (get_list vi k) (ie_Link e))"
  let ?vi' = "?vi\<lparr>Blanks := list_add (Blanks vi) e\<rparr>"
  let ?M = "image_mset ie_Link (mset (il_entries ?l))"
  note i = index_okD [OF assms(1)]
  from links_put [OF assms(2) i(1), of "empty_list"]
  have sub: "links vi = links (put_list vi k empty_list) + ?M" by (simp add: empty_list_def)
  have "ie_Link e \<in># ?M" using e by auto
  moreover have "count (links vi) (ie_Link e) \<le> 1" using i(3) by (auto simp: links_ok_iff)
  ultimately have c: "count ?M (ie_Link e) = 1" using count_le_part [of _ ?M] sub by metis
  have dl: "image_mset ie_Link (mset (il_entries (list_delete ?l (ie_Link e)))) + {#ie_Link e#} = ?M"
    using remove_link [OF c] by (simp add: list_delete_def)
  have v': "links ?vi' = links ?vi + {#ie_Link e#}" by (simp add: links_def all_entries_def list_add_def)
  have "links ?vi' + ?M = links ?vi + ?M + {#ie_Link e#}" by (simp add: v')
  also have "\<dots> = links vi + (image_mset ie_Link (mset (il_entries (list_delete ?l (ie_Link e)))) + {#ie_Link e#})"
    by (simp only: links_put [OF assms(2) i(1)] add.assoc)
  also have "\<dots> = links vi + ?M" by (simp only: dl)
  finally have "links ?vi' + ?M = links vi + ?M" .
  then have l: "links ?vi' = links vi" by simp
  have "length (il_entries (list_delete ?l (ie_Link e))) < length (il_entries ?l)"
    using e by (auto simp: list_delete_def intro: length_filter_less)
  then have lo: "list_ok m k (list_delete ?l (ie_Link e))"
    using i(2) [OF assms(2)] by (auto simp: list_ok_def list_delete_def list_all_iff)
  have "get_list ?vi' k' = get_list ?vi k'" for k' by (simp add: get_list_def split: option.splits)
  with i l lo assms(2) show ?thesis by (auto simp: index_ok_iff links_ok_iff)
qed

lemma find_SomeD: "List.find P xs = Some x \<Longrightarrow> x \<in> set xs \<and> P x"
  by (induction xs) (auto split: if_splits)

lemma IndexDeleteVariable_ok:
  assumes "index_ok m vi" and "IndexDeleteVariable m p (Some vi) = Some vi'"
  shows "index_ok m vi'"
proof (cases "List.find (\<lambda>e. ie_Nvar e = p) (il_entries (get_list vi (IndexGetListNvar m p)))")
  case None
  with assms show ?thesis by (simp add: IndexDeleteVariable_def Let_def)
next
  case (Some e)
  from find_SomeD [OF this] move_to_blanks_ok [OF assms(1), of "IndexGetListNvar m p" e] assms(2) Some
  show ?thesis by (simp add: IndexDeleteVariable_def Let_def)
qed

lemma IndexDeleteVariableEntry_ok:
  "index_ok m vi \<Longrightarrow> e \<in> set (all_entries vi) \<Longrightarrow>
   IndexDeleteVariableEntry m (Some e) (Some vi) = Some vi' \<Longrightarrow> index_ok m vi'"
  using move_to_blanks_ok [of m vi "IndexGetListNvar m (ie_Nvar e)" e] all_entries_fit(2) [of m vi e]
  by (auto simp: IndexDeleteVariableEntry_def Let_def)


text \<open>Two records with the same name and GUID are the same for every search.\<close>

lemma ucast_char8 [simp]: "unat (ucast (x :: u8) :: char16) = unat x"
  using order_less_le_trans [OF unat_u8_less [of x], of 65536]
  by (simp add: unsigned_ucast_eq take_bit_nat_eq_self_iff)

lemma ucast_scast_char8: "ucast (scast (x :: u8) :: char16) = x"
  by (rule bit_word_eqI) (simp add: bit_simps)

lemma name_char_1: "name_char 1 m a = ucast (m a)"
  by (simp add: name_char_def)

lemma index_char_cong:
  "name_char w m a = name_char w m b \<Longrightarrow> w = 1 \<or> w = 2 \<Longrightarrow> index_char w m a = index_char w m b"
proof -
  assume eq: "name_char w m a = name_char w m b" and "w = 1 \<or> w = 2"
  then show ?thesis
  proof (cases "w = 1")
    case True
    with eq have "unat (ucast (m a) :: char16) = unat (ucast (m b) :: char16)" by (simp only: name_char_1)
    then have "m a = m b" by (simp add: word_unat_eq_iff)
    with True show ?thesis by (simp add: index_char_def)
  qed (auto simp: index_char_def)
qed

lemma index_char_0: "w = 1 \<or> w = 2 \<Longrightarrow> index_char w m a = 0 \<longleftrightarrow> name_char w m a = 0"
proof -
  have "scast (x :: u8) = (0 :: char16) \<longleftrightarrow> x = 0" for x
    using ucast_scast_char8 [of x] by auto
  moreover have "ucast (x :: u8) = (0 :: char16) \<longleftrightarrow> x = 0" for x
    using ucast_char8 [of x] by (metis unat_eq_0 unsigned_0 ucast_0)
  ultimately show "w = 1 \<or> w = 2 \<Longrightarrow> ?thesis" by (auto simp: index_char_def name_char_1 [simplified])
qed

lemma name_width_cases: "name_width m p = 1 \<or> name_width m p = 2"
  by (simp add: name_width_def)

lemma same_name_part:
  "NvarEqNvar_names w m a b = Some True \<Longrightarrow> w = 1 \<or> w = 2 \<Longrightarrow> name_part n w m a = name_part n w m b"
proof (induction n arbitrary: a b)
  case 0
  then show ?case by simp
next
  case (Suc n)
  from Suc.prems have eq: "name_char w m a = name_char w m b"
    and next': "name_char w m a \<noteq> 0 \<Longrightarrow> NvarEqNvar_names w m (a + w) (b + w) = Some True"
    by (auto simp: NvarEqNvar_names.simps [of w m a b] split: if_splits)
  from index_char_cong [OF eq Suc.prems(2)] index_char_0 [OF Suc.prems(2), of m a] Suc.IH [OF next' Suc.prems(2)]
  show ?case by auto
qed

lemma same_NvVarEq_name:
  "NvarEqNvar_names w m a b = Some True \<Longrightarrow> NvVarEq_name w m a s = None \<longleftrightarrow> NvVarEq_name w m b s = None"
proof (induction s arbitrary: a b)
  case Nil
  then show ?case by (auto simp: NvarEqNvar_names.simps [of w m a b] split: if_splits)
next
  case (Cons c s)
  from Cons.prems have eq: "name_char w m a = name_char w m b"
    and next': "name_char w m a \<noteq> 0 \<Longrightarrow> NvarEqNvar_names w m (a + w) (b + w) = Some True"
    by (auto simp: NvarEqNvar_names.simps [of w m a b] split: if_splits)
  from Cons.IH [OF next'] eq show ?case by auto
qed

lemma NvarEqNvar_True:
  assumes "NvarEqNvar m p i q j = Some True"
  shows "name_width m p = name_width m q"
    "rd_bytes m (NvGetGuid m p i) sizeof_GUID = rd_bytes m (NvGetGuid m q j) sizeof_GUID"
    "NvarEqNvar_names (name_width m p) m (NvGetName m p) (NvGetName m q) = Some True"
  using assms by (auto simp: NvarEqNvar_def name_width_def split: if_splits)

lemma NvarEqNvar_search:
  "NvarEqNvar m p i q j = Some True \<Longrightarrow> NvVarEq m p s g i = None \<longleftrightarrow> NvVarEq m q s g j = None"
  using NvarEqNvar_True [of m p i q j] same_NvVarEq_name [of "name_width m p" m "NvGetName m p" "NvGetName m q" s]
  by (auto simp: NvVarEq_def split: option.splits)

lemma NvarEqNvar_fits:
  assumes eq: "NvarEqNvar m (ie_Nvar e) i p j = Some True" and f: "entry_fits m k e"
  shows "entry_fits m k (e\<lparr>ie_Nvar := p, FinalDataNvar := fd, InfoIndex := n\<rparr>)" "IndexGetListNvar m p = k"
proof -
  note t = NvarEqNvar_True [OF eq] and w = name_width_cases [of m p]
  let ?w = "name_width m p" and ?a = "NvGetName m (ie_Nvar e)" and ?b = "NvGetName m p"
  from t(3) have c: "name_char ?w m ?a = name_char ?w m ?b"
    and nx: "name_char ?w m ?a \<noteq> 0 \<Longrightarrow> NvarEqNvar_names ?w m (?a + ?w) (?b + ?w) = Some True"
    by (auto simp: NvarEqNvar_names.simps [of ?w m ?a ?b] t(1) split: if_splits)
  from index_char_cong [OF c w] f show "IndexGetListNvar m p = k"
    by (simp add: entry_fits_def IndexGetListNvar_def t(1))
  with c same_name_part [OF nx w, of 7] f show "entry_fits m k (e\<lparr>ie_Nvar := p, FinalDataNvar := fd, InfoIndex := n\<rparr>)"
    by (auto simp: entry_fits_def t(1) Let_def)
qed

lemma index_same_Some:
  "index_same m infos p i es = Some (Some e) \<Longrightarrow>
   e \<in> set es \<and> NvIsVariable m (ie_Nvar e) (infos ! InfoIndex e)
     \<and> NvarEqNvar m (ie_Nvar e) (infos ! InfoIndex e) p (infos ! i) = Some True"
  by (induction es) (auto split: if_splits Option.bind_splits)

lemma IndexUpdateVariable_cases:
  assumes "index_ok m vi" and "IndexUpdateVariable m infos p i (Some vi) = Some (Some vi')"
  obtains (added) "IndexAddVariable m p i (Some vi) = Some vi'"
  | (replaced) e where "e \<in> set (il_entries (get_list vi (IndexGetListNvar m p)))"
      "NvIsVariable m (ie_Nvar e) (infos ! InfoIndex e)"
      "NvarEqNvar m (ie_Nvar e) (infos ! InfoIndex e) p (infos ! i) = Some True"
      "vi' = put_list vi (IndexGetListNvar m p) (list_replace (get_list vi (IndexGetListNvar m p))
         (e\<lparr>ie_Nvar := p, FinalDataNvar := None, InfoIndex := i\<rparr>))"
proof -
  let ?l = "get_list vi (IndexGetListNvar m p)"
  from assms(2) obtain r where r: "index_same m infos p i (il_entries ?l) = Some r"
    by (auto simp: IndexUpdateVariable_def Let_def split: Option.bind_splits)
  show thesis
  proof (cases r)
    case None
    with assms(2) r show thesis by (intro added) (simp add: IndexUpdateVariable_def Let_def)
  next
    case (Some e)
    with index_same_Some [of m infos p i "il_entries ?l" e] assms(2) r show thesis
      by (intro replaced [of e]) (simp_all add: IndexUpdateVariable_def Let_def)
  qed
qed

lemma IndexUpdateVariable_ok:
  assumes "index_ok m vi" and "IndexUpdateVariable m infos p i (Some vi) = Some (Some vi')"
  shows "index_ok m vi'"
  using assms
proof (cases rule: IndexUpdateVariable_cases)
  case added
  with assms(1) show ?thesis by (rule IndexAddVariable_ok)
next
  case (replaced e)
  have "entry_fits m (IndexGetListNvar m p) e"
    using index_okD(2) [OF assms(1), of "IndexGetListNvar m p"] replaced(1) by (auto simp: list_ok_def list_all_iff)
  from NvarEqNvar_fits(1) [OF replaced(3) this] show ?thesis
    unfolding replaced(4) by (intro index_ok_replace assms(1)) auto
qed


section \<open>The search\<close>

text \<open>Characters that the index caches the way names are compared: those that are stored in two bytes
  or in seven bits.\<close>

definition plain :: "char16 list \<Rightarrow> bool" where
  "plain name \<longleftrightarrow> list_all (\<lambda>c. unat c < 128 \<or> 255 < unat c) name"

lemma scast_char8: "unat (x :: u8) < 128 \<Longrightarrow> (scast x :: char16) = ucast x"
proof -
  assume "unat x < 128"
  then have "\<not> bit (unat x) 7" by (simp add: bit_iff_odd)
  then have x: "\<not> bit x 7" by (simp add: bit_unsigned_iff)
  show ?thesis
  proof (rule bit_word_eqI)
    fix n assume "n < LENGTH(16)"
    show "bit (scast x :: char16) n = bit (ucast x :: char16) n"
    proof (cases "n \<le> 7")
      case True
      with x show ?thesis by (auto simp: bit_simps min_def)
    next
      case False
      then have "\<not> bit x n" using bit_imp_le_length [of x n] by auto
      with False x show ?thesis by (auto simp: bit_simps min_def)
    qed
  qed
qed

lemma index_char_plain:
  assumes "w = 1 \<or> w = 2" and "unat (name_char w m a) < 128 \<or> 255 < unat (name_char w m a)"
  shows "index_char w m a = name_char w m a"
proof (cases "w = 1")
  case True
  have "unat (name_char 1 m a) = unat (m a)" by (simp only: name_char_1 ucast_char8)
  moreover have "unat (m a) \<le> 255" using unat_u8_less [of "m a"] by linarith
  ultimately have "unat (m a) < 128" using assms(2) True by auto
  from scast_char8 [OF this] True show ?thesis by (simp only: index_char_def name_char_1 simp_thms if_True)
qed (use assms(1) in \<open>auto simp: index_char_def\<close>)

lemma name_cached_eq:
  "NvVarEq_name w m a s = Some q \<Longrightarrow> plain s \<Longrightarrow> w = 1 \<or> w = 2 \<Longrightarrow> name_cached (name_part n w m a) s"
proof (induction n arbitrary: a s)
  case 0
  then show ?case by simp
next
  case (Suc n)
  note z = index_char_0 [OF Suc.prems(3), of m a]
  show ?case
  proof (cases s)
    case Nil
    with Suc.prems z show ?thesis by (auto split: if_splits)
  next
    case (Cons c s')
    with Suc.prems have c: "name_char w m a = c" "plain s'" "unat c < 128 \<or> 255 < unat c"
      and r: "c \<noteq> 0 \<Longrightarrow> NvVarEq_name w m (a + w) s' = Some q"
      by (auto simp: plain_def split: if_splits)
    from index_char_plain [OF Suc.prems(3), of m a] c have "index_char w m a = c" by simp
    with Cons Suc.IH [OF r c(2) Suc.prems(3)] z c show ?thesis by auto
  qed
qed

text \<open>A record whose name and GUID are the ones looked for is in the list that is searched and passes
  the comparison of the cached characters.\<close>

lemma NvVarEq_fits:
  assumes eq: "NvVarEq m p name guid info \<noteq> None" and ne: "name0 name \<noteq> 0" and pl: "plain name"
  shows "IndexGetListNvar m p = IndexGetList (name0 name)"
    "entry_fits m k e \<Longrightarrow> ie_Nvar e = p \<Longrightarrow> name_cached (ie_Name e) (drop 1 name)"
proof -
  let ?w = "name_width m p" and ?a = "NvGetName m p"
  note w = name_width_cases [of m p]
  from eq obtain q where q: "NvVarEq_name ?w m ?a name = Some q"
    by (auto simp: NvVarEq_def split: option.splits)
  obtain c s where s: "name = c # s" "c \<noteq> 0" using ne by (cases name) (auto simp: name0_def)
  with pl have pc: "unat c < 128 \<or> 255 < unat c" "plain s" by (auto simp: plain_def)
  from q s obtain q' where c: "name_char ?w m ?a = c" and q': "NvVarEq_name ?w m (?a + ?w) s = Some q'"
    by (auto split: if_splits)
  from index_char_plain [OF w, of m ?a] c pc s show "IndexGetListNvar m p = IndexGetList (name0 name)"
    by (simp add: IndexGetListNvar_def name0_def)
  assume "entry_fits m k e" "ie_Nvar e = p"
  with name_cached_eq [OF q' pc(2) w, of 7] c s show "name_cached (ie_Name e) (drop 1 name)"
    by (simp add: entry_fits_def Let_def)
qed

definition sees :: "memory \<Rightarrow> NVRAM_STORE_INFO list \<Rightarrow> char16 list \<Rightarrow> u8 list \<Rightarrow> nat \<times> nat \<Rightarrow> bool" where
  "sees m infos name guid pi \<longleftrightarrow>
     (case pi of (p, i) \<Rightarrow> NvIsVariable m p (infos ! i) \<and> NvVarEq m p name guid (infos ! i) \<noteq> None)"

definition entry_key :: "VAR_INDEX_ENTRY \<Rightarrow> nat \<times> nat" where
  "entry_key e = (ie_Nvar e, InfoIndex e)"

definition matches :: "memory \<Rightarrow> NVRAM_STORE_INFO list \<Rightarrow> char16 list \<Rightarrow> u8 list \<Rightarrow> VAR_INDEX_ENTRY \<Rightarrow> bool" where
  "matches m infos name guid e \<longleftrightarrow> sees m infos name guid (entry_key e)"

lemma index_search_find:
  assumes "name0 name \<noteq> 0" "plain name"
  shows "list_all (entry_fits m k) es \<Longrightarrow>
    fst (index_search m infos name guid es c bad) =
      map_option (\<lambda>e. (e, the (NvVarEq m (ie_Nvar e) name guid (infos ! InfoIndex e))))
        (List.find (matches m infos name guid) es)
    \<and> (fst (index_search m infos name guid es c bad) = None \<longrightarrow>
        fst (snd (index_search m infos name guid es c bad)) = c + length es)"
proof (induction es arbitrary: c bad)
  case Nil
  then show ?case by simp
next
  case (Cons e es)
  then have f: "entry_fits m k e" and fs: "list_all (entry_fits m k) es" by auto
  note ih = Cons.IH [OF fs]
  have nc: "\<not> matches m infos name guid e" if "\<not> name_cached (ie_Name e) (drop 1 name)"
    using NvVarEq_fits(2) [OF _ assms f refl] that by (fastforce simp: matches_def sees_def entry_key_def)
  from ih [of "Suc c" bad] ih [of "Suc c" True] nc show ?case
    by (auto simp: matches_def sees_def entry_key_def split: option.splits)
qed

definition overflown :: "index_list \<Rightarrow> bool" where
  "overflown l \<longleftrightarrow> length (il_entries l) < il_Size l"

text \<open>The lookup finds a matching entry if there is one, and otherwise reports unindexed variables at
  least when entries of the letter were dropped.\<close>

lemma IndexFindVariable_search:
  assumes "index_ok m vi" "name0 name \<noteq> 0" "plain name"
    and "IndexFindVariable m infos name guid (Some vi) = (r, u, ix)"
  shows "case r of
      Some p \<Rightarrow> (\<exists>e\<in>set (all_entries vi). ie_Nvar e = p \<and> matches m infos name guid e) \<and> u = None
    | None \<Rightarrow> (\<forall>e\<in>set (all_entries vi). \<not> matches m infos name guid e)
        \<and> (u = Some False \<longrightarrow> \<not> overflown (get_list vi (IndexGetList (name0 name))))"
proof -
  let ?K = "IndexGetList (name0 name)"
  let ?l = "get_list vi ?K"
  note i = index_okD [OF assms(1)]
  have lo: "list_ok m ?K ?l" by (simp add: i(2))
  then have fits: "list_all (entry_fits m ?K) (il_entries ?l)" by (simp add: list_ok_def)
  note S = index_search_find [OF assms(2,3) fits, of infos guid 0 False]
  have inK: "e \<in> set (il_entries ?l)" if "e \<in> set (all_entries vi)" "matches m infos name guid e" for e
  proof -
    have "NvVarEq m (ie_Nvar e) name guid (infos ! InfoIndex e) \<noteq> None"
      using that(2) by (simp add: matches_def sees_def entry_key_def)
    from NvVarEq_fits(1) [OF this assms(2,3)] all_entries_fit(2) [OF assms(1) that(1)] show ?thesis by simp
  qed
  have Kin: "e \<in> set (all_entries vi)" if "e \<in> set (il_entries ?l)" for e
    using that in_all_entries [OF i(1)] letter_Nvar(2) by blast
  obtain f c bad where s: "index_search m infos name guid (il_entries ?l) 0 False = (f, c, bad)"
    by (metis prod_cases3)
  show ?thesis
  proof (cases "List.find (matches m infos name guid) (il_entries ?l)")
    case None
    with S s have "f = None" "c = length (il_entries ?l)" by auto
    with assms(4) s have "r = None" "u = Some (bad \<or> c < il_Size ?l)"
      by (auto simp: IndexFindVariable_def IndexFindVariableEntry_def Let_def)
    with None inK \<open>c = _\<close> show ?thesis by (auto simp: find_None_iff overflown_def)
  next
    case (Some e)
    with S s obtain n where "f = Some (e, n)" by auto
    with assms(4) s have "r = Some (ie_Nvar e)" "u = None"
      by (auto simp: IndexFindVariable_def IndexFindVariableEntry_def Let_def split: if_splits)
    with find_SomeD [OF Some] Kin show ?thesis by auto
  qed
qed


section \<open>Scanning the stores\<close>

text \<open>What the index knows after the records \<open>P\<close> were added: nothing else, and every one of them
  under some name, unless the entries of its letter overflowed.\<close>

definition knows ::
    "memory \<Rightarrow> NVRAM_STORE_INFO list \<Rightarrow> char16 list \<Rightarrow> u8 list \<Rightarrow> (nat \<times> nat) set \<Rightarrow> VAR_INDEX \<Rightarrow> bool" where
  "knows m infos name guid P vi \<longleftrightarrow>
     index_ok m vi \<and> (\<forall>e\<in>set (all_entries vi). entry_key e \<in> P)
     \<and> (\<forall>x\<in>P. sees m infos name guid x \<longrightarrow>
          (\<exists>e\<in>set (all_entries vi). matches m infos name guid e)
          \<or> overflown (get_list vi (IndexGetList (name0 name))))"

lemma in_put_list:
  "letter k \<Longrightarrow> length (LetterIndex vi) = 26 \<Longrightarrow>
   e \<in> set (all_entries (put_list vi k l)) \<longleftrightarrow>
     e \<in> set (il_entries l) \<or> (\<exists>k'. letter k' \<and> k' \<noteq> k \<and> e \<in> set (il_entries (get_list vi k')))"
  by (subst in_all_entries) (auto split: if_splits)

lemma in_list_replace:
  "x \<in> set (il_entries (list_replace l e')) \<longleftrightarrow>
     x = e' \<and> (\<exists>y\<in>set (il_entries l). ie_Link y = ie_Link e')
     \<or> x \<in> set (il_entries l) \<and> ie_Link x \<noteq> ie_Link e'"
  by (auto simp: list_replace_def)

lemma link_inj:
  assumes "index_ok m vi" "letter k" "x \<in> set (il_entries (get_list vi k))" "y \<in> set (il_entries (get_list vi k))"
    and "ie_Link x = ie_Link y"
  shows "x = y"
proof -
  note i = index_okD [OF assms(1)]
  then have "distinct (map ie_Link (all_entries vi))" by (simp add: links_ok_def)
  then have "inj_on ie_Link (set (all_entries vi))" by (simp add: distinct_map)
  moreover have "x \<in> set (all_entries vi)" "y \<in> set (all_entries vi)"
    using in_all_entries [OF i(1)] assms(2-4) by blast+
  ultimately show ?thesis using assms(5) by (meson inj_onD)
qed

lemma knows_add:
  assumes kn: "knows m infos name guid P vi" and nm: "name0 name \<noteq> 0" "plain name"
    and "IndexAddVariable m p i (Some vi) = Some vi'"
  shows "knows m infos name guid (insert (p, i) P) vi'"
proof -
  let ?k = "IndexGetListNvar m p" and ?K = "IndexGetList (name0 name)"
  have ok: "index_ok m vi" using kn by (simp add: knows_def)
  note i = index_okD [OF ok] and ok' = IndexAddVariable_ok [OF ok assms(4)]
  have pK: "?k = ?K" if "sees m infos name guid (p, i)"
  proof -
    have "NvVarEq m p name guid (infos ! i) \<noteq> None" using that by (simp add: sees_def)
    from NvVarEq_fits(1) [OF this nm] show ?thesis .
  qed
  from ok assms(4) show ?thesis
  proof (cases rule: IndexAddVariable_cases)
    case full
    have "length (il_entries (get_list vi ?k)) \<le> il_Size (get_list vi ?k)"
      using i(2) [of ?k] by (simp add: list_ok_def)
    then have ov: "overflown (get_list vi' ?k)" by (simp add: full i(1) overflown_def)
    have mono: "overflown (get_list vi ?K) \<Longrightarrow> overflown (get_list vi' ?K)"
      by (auto simp: full i(1) overflown_def)
    have "e \<in> set (all_entries vi') \<longleftrightarrow> e \<in> set (all_entries vi)" for e
      unfolding full in_all_entries [OF i(1)]
      by (subst in_put_list) (use i(1) letter_Nvar(1) in \<open>auto, metis\<close>)
    then have "set (all_entries vi') = set (all_entries vi)" by blast
    with kn ok' mono ov pK show ?thesis by (auto simp: knows_def)
  next
    case (added vi1 x)
    note g = IndexGetBlankEntry_ok [OF ok added(1)]
    have l1: "length (LetterIndex vi1) = 26" by (rule index_okD(1) [OF g(2)])
    have mono: "overflown (get_list vi ?K) \<Longrightarrow> overflown (get_list vi' ?K)"
      by (auto simp: added(2) l1 g(1) overflown_def list_add_def)
    have "e \<in> set (all_entries vi') \<longleftrightarrow> e \<in> insert (new_entry m p i x) (set (all_entries vi))" for e
      unfolding added(2) insert_iff in_all_entries [OF i(1)]
      by (subst in_put_list) (use l1 letter_Nvar(1) g(1) in \<open>auto simp: list_add_def\<close>)
    then have "set (all_entries vi') = insert (new_entry m p i x) (set (all_entries vi))" by blast
    moreover have "entry_key (new_entry m p i x) = (p, i)" by (simp add: new_entry_def entry_key_def)
    ultimately show ?thesis using kn ok' mono by (auto simp: knows_def matches_def)
  qed
qed

lemma knows_update:
  assumes kn: "knows m infos name guid P vi" and nm: "name0 name \<noteq> 0" "plain name"
    and v: "NvIsVariable m p (infos ! i)" and u: "IndexUpdateVariable m infos p i (Some vi) = Some (Some vi')"
  shows "knows m infos name guid (insert (p, i) P) vi'"
proof -
  let ?k = "IndexGetListNvar m p" and ?K = "IndexGetList (name0 name)"
  have ok: "index_ok m vi" using kn by (simp add: knows_def)
  note ix = index_okD [OF ok] and ok' = IndexUpdateVariable_ok [OF ok u]
  from ok u show ?thesis
  proof (cases rule: IndexUpdateVariable_cases)
    case added
    from knows_add [OF kn nm added] show ?thesis .
  next
    case (replaced e)
    let ?e = "e\<lparr>ie_Nvar := p, FinalDataNvar := None, InfoIndex := i\<rparr>"
    have key: "entry_key ?e = (p, i)" by (simp add: entry_key_def)
    have eqm: "matches m infos name guid e \<longleftrightarrow> sees m infos name guid (p, i)"
      using NvarEqNvar_search [OF replaced(3), of name guid] replaced(2) v
      by (simp add: matches_def sees_def entry_key_def del: not_None_eq)
    have e'in: "?e \<in> set (all_entries vi')"
      using replaced(1) by (auto simp: replaced(4) in_put_list ix(1) in_list_replace)
    have keep: "x = e \<or> x \<in> set (all_entries vi')" if x: "x \<in> set (all_entries vi)" for x
    proof -
      from x obtain k where k: "letter k" "x \<in> set (il_entries (get_list vi k))" by (auto simp: in_all_entries ix(1))
      show ?thesis
      proof (cases "k = ?k \<and> ie_Link x = ie_Link e")
        case True
        with link_inj [OF ok k(1,2), of e] replaced(1) show ?thesis by auto
      next
        case False
        with k show ?thesis by (auto simp: replaced(4) in_put_list ix(1) in_list_replace)
      qed
    qed
    have only: "entry_key x \<in> insert (p, i) P" if "x \<in> set (all_entries vi')" for x
    proof -
      from that have "x = ?e \<or> x \<in> set (all_entries vi)"
        by (auto simp: replaced(4) in_put_list ix(1) in_list_replace in_all_entries [OF ix(1)])
      with key kn show ?thesis by (auto simp: knows_def)
    qed
    have ov: "overflown (get_list vi' k) = overflown (get_list vi k)" if "letter k" for k
      using that by (simp add: replaced(4) ix(1) overflown_def list_replace_def)
    have found: "\<exists>e\<in>set (all_entries vi'). matches m infos name guid e"
      if "x \<in> set (all_entries vi)" "matches m infos name guid x" for x
    proof (cases "x = e")
      case True
      with that(2) eqm key have "matches m infos name guid ?e" by (simp add: matches_def)
      with e'in show ?thesis by blast
    next
      case False
      with keep [OF that(1)] that(2) show ?thesis by blast
    qed
    show ?thesis
      unfolding knows_def using ok' only
    proof (intro conjI ballI impI)
      fix y assume y: "y \<in> insert (p, i) P" "sees m infos name guid y"
      show "(\<exists>e\<in>set (all_entries vi'). matches m infos name guid e) \<or> overflown (get_list vi' ?K)"
      proof (cases "y = (p, i)")
        case True
        with y key have "matches m infos name guid ?e" by (simp add: matches_def)
        with e'in show ?thesis by blast
      next
        case False
        with y kn found ov show ?thesis by (auto simp: knows_def)
      qed
    qed auto
  qed
qed


lemma next_valids_find:
  "next_valids m info (List.find (NvIsValid m) (nvars_from m info p)) = filter (NvIsValid m) (nvars_from m info p)"
proof (induction m info p rule: nvars_from.induct)
  case (1 m info p)
  show ?case
  proof (cases "NvGetNextNvar_loop m info p")
    case None
    then show ?thesis by (simp add: nvars_from.simps [of m info p] next_valids.simps)
  next
    case (Some q)
    then have L: "nvars_from m info p = q # nvars_from m info (q + nvar_size m q)"
      by (simp add: nvars_from.simps [of m info p])
    from NvGetNextNvar_loop_Some [OF Some] have "NvIsVariable m q info" by simp
    from NvGetNextValid_find [OF this] "1.IH" [OF Some] show ?thesis
      by (simp add: L next_valids.simps [of m info "Some q"])
  qed
qed

text \<open>The records of a store that \<^verbatim>\<open>IndexReset\<close> adds: the first one, valid or not, and the valid ones
  after it.\<close>

definition scanned :: "memory \<Rightarrow> NVRAM_STORE_INFO \<Rightarrow> nat list" where
  "scanned m info = (if NvIsVariable m (pFirstVar info) info
     then pFirstVar info # filter (NvIsValid m) (tl (nvars m info)) else [])"

lemma next_valids_scanned:
  "NvIsVariable m (pFirstVar info) info \<Longrightarrow> next_valids m info (Some (pFirstVar info)) = scanned m info"
  using next_valids_find [of m info "pFirstVar info + nvar_size m (pFirstVar info)"]
  by (simp add: scanned_def nvars_def nvars_from_variable next_valids.simps [of m info "Some (pFirstVar info)"]
      NvGetNextValid_find)

lemma scanned_valid:
  "NvIsVariable m (pFirstVar info) info \<longrightarrow> NvIsValid m (pFirstVar info) \<Longrightarrow> scanned m info = valid_nvars m info"
  by (auto simp: scanned_def valid_nvars_def nvars_def nvars_from_variable)

lemma scanned_variable: "p \<in> set (scanned m info) \<Longrightarrow> NvIsVariable m p info"
proof -
  assume "p \<in> set (scanned m info)"
  then have "p = pFirstVar info \<and> NvIsVariable m p info \<or> p \<in> set (tl (nvars m info))"
    by (auto simp: scanned_def split: if_splits)
  moreover have "set (tl xs) \<subseteq> set xs" for xs :: "nat list" by (cases xs) auto
  ultimately show ?thesis using nvars_range by blast
qed

lemma index_records_Some:
  "index_records m infos i ps ix = Some ix' \<Longrightarrow> ix \<noteq> None \<Longrightarrow> ix' \<noteq> None"
proof (induction ps arbitrary: ix)
  case Nil
  then show ?case by simp
next
  case (Cons p ps)
  then show ?case
    by (auto simp: IndexUpdateVariable_def IndexAddVariable_def Let_def split: Option.bind_splits option.splits prod.splits)
qed

lemma knows_records:
  assumes nm: "name0 name \<noteq> 0" "plain name"
  shows "knows m infos name guid P vi \<Longrightarrow> \<forall>p\<in>set ps. NvIsVariable m p (infos ! i) \<Longrightarrow>
    index_records m infos i ps (Some vi) = Some (Some vi') \<Longrightarrow>
    knows m infos name guid (P \<union> (\<lambda>p. (p, i)) ` set ps) vi'"
proof (induction ps arbitrary: P vi)
  case Nil
  then show ?case by simp
next
  case (Cons p ps)
  from Cons.prems(3) obtain ix where u: "IndexUpdateVariable m infos p i (Some vi) = Some ix"
    and r: "index_records m infos i ps ix = Some (Some vi')"
    by (auto split: Option.bind_splits)
  have "ix \<noteq> None"
    using u by (auto simp: IndexUpdateVariable_def IndexAddVariable_def Let_def
        split: Option.bind_splits option.splits prod.splits)
  then obtain vi1 where ix: "ix = Some vi1" by auto
  from Cons.prems(2) have "NvIsVariable m p (infos ! i)" by simp
  from Cons.IH [OF knows_update [OF Cons.prems(1) nm this u [unfolded ix]] _ r [unfolded ix]] Cons.prems(2)
  show ?case by simp
qed

definition scanned_upto :: "memory \<Rightarrow> NVRAM_STORE_INFO list \<Rightarrow> nat \<Rightarrow> (nat \<times> nat) set" where
  "scanned_upto m infos n = (\<Union>i\<in>{..<n}. (\<lambda>p. (p, i)) ` set (scanned m (infos ! i)))"

lemma scanned_upto_Suc:
  "scanned_upto m infos (Suc n) = scanned_upto m infos n \<union> (\<lambda>p. (p, n)) ` set (scanned m (infos ! n))"
  by (auto simp: scanned_upto_def lessThan_Suc)

lemma knows_stores:
  assumes nm: "name0 name \<noteq> 0" "plain name"
  shows "knows m infos name guid P vi \<Longrightarrow> index_stores m infos n (Some vi) = Some (Some vi') \<Longrightarrow>
    knows m infos name guid (P \<union> scanned_upto m infos n) vi'"
proof (induction n arbitrary: P vi)
  case 0
  then show ?case by (simp add: scanned_upto_def)
next
  case (Suc n)
  let ?info = "infos ! n"
  show ?case
  proof (cases "NvIsVariable m (pFirstVar ?info) ?info")
    case False
    with Suc show ?thesis by (auto simp: scanned_upto_Suc scanned_def Let_def)
  next
    case True
    with Suc.prems(2) obtain ix where r: "index_records m infos n (scanned m ?info) (Some vi) = Some ix"
      and s: "index_stores m infos n ix = Some (Some vi')"
      by (auto simp: Let_def next_valids_scanned split: Option.bind_splits)
    from index_records_Some [OF r] obtain vi1 where ix: "ix = Some vi1" by auto
    from knows_records [OF nm Suc.prems(1) _ r [unfolded ix]] scanned_variable
    have "knows m infos name guid (P \<union> (\<lambda>p. (p, n)) ` set (scanned m ?info)) vi1" by blast
    from Suc.IH [OF this s [unfolded ix]] show ?thesis by (simp add: scanned_upto_Suc Un_ac)
  qed
qed

lemma knows_empty:
  assumes "sizeof_VAR_INDEX_ENTRY \<le> BufferSize vi" "BufferSize vi < 2 ^ 64"
  shows "knows m infos name guid {} (vi\<lparr>UsedSize := 0, LetterIndex := replicate 26 empty_list,
    OtherIndex := empty_list, Blanks := empty_list\<rparr>)"
  using assms
  by (auto simp: knows_def index_ok_def links_ok_def all_entries_def empty_list_def list_ok_def list_all_iff)

lemma IndexReset_knows:
  assumes "IndexReset m vs (Some vi) = Some (Some vi')" "name0 name \<noteq> 0" "plain name"
    and "sizeof_VAR_INDEX_ENTRY \<le> BufferSize vi" "BufferSize vi < 2 ^ 64"
  shows "knows m (NvramInfo vs) name guid (scanned_upto m (NvramInfo vs) (InfoCount vs)) vi'"
  using knows_stores [OF assms(2,3) knows_empty [OF assms(4,5), where guid = guid]] assms(1)
  by (auto simp: IndexReset_def)


lemma IndexFindVariableEntry_ok:
  assumes "index_ok m vi" and "IndexFindVariableEntry m infos name guid (Some vi) = (r, u, Some vi')"
  shows "index_ok m vi'"
proof -
  let ?K = "IndexGetList (name0 name)"
  let ?l = "get_list vi ?K"
  have in_es: "fst (index_search m infos name guid es c bad) = Some (e, n) \<Longrightarrow> e \<in> set es" for e n es c bad
    by (induction es arbitrary: c bad) (auto split: if_splits option.splits)
  obtain f c bad where s: "index_search m infos name guid (il_entries ?l) 0 False = (f, c, bad)"
    by (metis prod_cases3)
  show ?thesis
  proof (cases f)
    case None
    with assms s show ?thesis by (simp add: IndexFindVariableEntry_def Let_def)
  next
    case (Some en)
    obtain e n where en: "en = (e, n)" by (cases en)
    from in_es [of "il_entries ?l" 0 False e n] s Some en have "e \<in> set (il_entries ?l)" by simp
    then have f: "entry_fits m ?K (e\<lparr>FinalDataNvar := x\<rparr>)" for x
      using index_okD(2) [OF assms(1), of ?K] by (auto simp: list_ok_def list_all_iff entry_fits_def)
    from index_ok_replace [OF assms(1) _ f] index_ok_replace [OF assms(1) _ f [of "FinalDataNvar e"]]
    have "index_ok m (put_list vi ?K (list_replace ?l (e\<lparr>FinalDataNvar := x\<rparr>)))"
        "index_ok m (put_list vi ?K (list_replace ?l e))" for x
      by simp_all
    with assms(2) s Some en show ?thesis
      by (auto simp: IndexFindVariableEntry_def Let_def split: if_splits)
  qed
qed

text \<open>The sign-extended character of a one-byte name never equals a character from \<open>0x80\<close> to \<open>0xFF\<close>.\<close>

lemma scast_not_latin1: "unat (d :: char16) < 128 \<or> 255 < unat d \<or> scast (x :: u8) \<noteq> d"
proof -
  have "scast x \<noteq> d" if d: "\<not> unat d < 128" "\<not> 255 < unat d"
  proof
    assume eq: "scast x = d"
    from d have "unat d div 128 = 1" "unat d div 256 = 0" by auto
    then have "bit (unat d) 7" "\<not> bit (unat d) 8" by (auto simp: bit_iff_odd)
    then have "bit d 7" "\<not> bit d 8" by (auto simp: bit_unsigned_iff)
    with eq show False by (auto simp: bit_simps)
  qed
  then show ?thesis by blast
qed

lemma latin1_no_match:
  assumes f: "entry_fits m k e" and w: "name_width m (ie_Nvar e) = 1"
    and n: "name = c # d # s" "c \<noteq> 0" "128 \<le> unat d" "unat d \<le> 255"
    and c: "name_cached (ie_Name e) (drop 1 name)"
  shows "NvVarEq m (ie_Nvar e) name guid info = None"
proof (rule ccontr)
  let ?a = "NvGetName m (ie_Nvar e)"
  assume "\<not> ?thesis"
  then obtain q where "NvVarEq_name 1 m ?a name = Some q" by (auto simp: NvVarEq_def w split: option.splits)
  with n have a: "name_char 1 m ?a = c" "name_char 1 m (?a + 1) = d" by (auto split: if_splits)
  then have "index_char 1 m (?a + 1) \<noteq> 0" using index_char_0 [of 1 m "?a + 1"] n by auto
  then obtain cs where "name_part 7 1 m (?a + 1) = index_char 1 m (?a + 1) # cs"
    by (simp add: numeral_eq_Suc)
  with f a n w have "ie_Name e = index_char 1 m (?a + 1) # cs" by (simp add: entry_fits_def Let_def)
  with c n \<open>index_char 1 m (?a + 1) \<noteq> 0\<close> have "index_char 1 m (?a + 1) = d" by simp
  with scast_not_latin1 [of d "m (?a + 1)"] n show False by (simp add: index_char_def)
qed

section \<open>Examples\<close>

text \<open>The example store of \<open>NvramRead\<close>; its first variable deleted; and a store with one variable named
  \<open>A\<close>, \<open>0xE9\<close>.\<close>

definition ex_index :: VAR_INDEX where
  "ex_index = \<lparr>LetterIndex = replicate 26 empty_list, OtherIndex = empty_list, Blanks = empty_list,
     UsedSize = 0, BufferSize = VARIABLE_INDEX_SIZE\<rparr>"

definition ex_stores :: VARSTORE_INFO where
  "ex_stores = ex_vs\<lparr>NvramInfo := [ex_info]\<rparr>"

definition ex_deleted :: memory where
  "ex_deleted = wr_bytes ex_mem 9 [0x02]"

definition ex_latin1 :: memory where
  "ex_latin1 = wr_bytes (\<lambda>_. 0xFF) 0
     [0x4e, 0x56, 0x41, 0x52, 16, 0, 0xff, 0xff, 0xff, 0x82, 0, 65, 0xe9, 0, 8, 9,
      0x4e, 0x56, 0x41, 0x52, 15, 0, 0xff, 0xff, 0xff, 0x82, 0, 66, 0, 7, 8]"

definition reset_index :: "memory \<Rightarrow> VAR_INDEX" where
  "reset_index m = the (the (IndexReset m ex_stores (Some ex_index)))"

section \<open>Properties\<close>



text \<open>C31: a flaw of \<^verbatim>\<open>IndexReset\<close>: it adds the first record of a store without testing its valid flag,
  so that a deleted variable whose record is the first of its store comes back: the lookup of its name,
  which no valid record has, returns a record that is not valid, or reports unindexed variables, but
  never a plain \<open>not found\<close>.  (The first record of the volatile store is not removed when the stores
  are reclaimed, after which \<^verbatim>\<open>IndexReset\<close> runs.)\<close>

theorem IndexReset_revives_deleted:
  assumes "IndexReset m vs (Some vi) = Some (Some vi')"
    and "sizeof_VAR_INDEX_ENTRY \<le> BufferSize vi" "BufferSize vi < 2 ^ 64"
    and "name0 name \<noteq> 0" "plain name"
    and "j < InfoCount vs" "p = pFirstVar (NvramInfo vs ! j)" "NvIsVariable m p (NvramInfo vs ! j)"
      "NvVarEq m p name guid (NvramInfo vs ! j) \<noteq> None"
    and none: "\<forall>i<InfoCount vs. NvFindVariable m name guid (NvramInfo vs ! i) = None"
    and find: "IndexFindVariable m (NvramInfo vs) name guid (Some vi') = (r, u, ix)"
  shows "case r of Some q \<Rightarrow> \<not> NvIsValid m q | None \<Rightarrow> u \<noteq> Some False"
proof -
  let ?infos = "NvramInfo vs"
  have kn: "knows m ?infos name guid (scanned_upto m ?infos (InfoCount vs)) vi'"
    by (rule IndexReset_knows [OF assms(1,4,5,2,3)])
  then have ok: "index_ok m vi'" by (simp add: knows_def)
  have "(p, j) \<in> scanned_upto m ?infos (InfoCount vs)"
    using assms(6-8) by (auto simp: scanned_upto_def scanned_def)
  moreover have "sees m ?infos name guid (p, j)" using assms(8,9) by (simp add: sees_def)
  ultimately have some: "(\<exists>e\<in>set (all_entries vi'). matches m ?infos name guid e)
      \<or> overflown (get_list vi' (IndexGetList (name0 name)))"
    using kn unfolding knows_def by blast
  note F = IndexFindVariable_search [OF ok assms(4,5) find]
  show ?thesis
  proof (cases r)
    case None
    with F some show ?thesis by auto
  next
    case (Some q)
    with F obtain e where e: "e \<in> set (all_entries vi')" "ie_Nvar e = q" "matches m ?infos name guid e" by auto
    with kn have k: "InfoIndex e < InfoCount vs" "q \<in> set (scanned m (?infos ! InfoIndex e))"
      by (auto simp: knows_def entry_key_def scanned_upto_def)
    let ?i = "?infos ! InfoIndex e"
    have "NvVarEq m q name guid ?i \<noteq> None" using e by (auto simp: matches_def sees_def entry_key_def)
    moreover have "\<forall>p\<in>set (valid_nvars m ?i). NvVarEq m p name guid ?i = None"
      using none k(1) by (auto simp: NvFindVariable_find find_None_iff)
    ultimately have "q \<notin> set (valid_nvars m ?i)" by auto
    moreover have "NvIsValid m q \<Longrightarrow> q \<in> set (valid_nvars m ?i)"
      using k(2) by (auto simp: scanned_def valid_nvars_def nvars_def nvars_from_variable split: if_splits)
    ultimately show ?thesis using Some by auto
  qed
qed

theorem IndexReset_revives_deleted_witness:
  "\<not> NvIsValid ex_deleted 0 \<and> NvFindVariable ex_deleted [65] ex_guid ex_info = None \<and>
   fst (IndexFindVariable ex_deleted [ex_info] [65] ex_guid (Some (reset_index ex_deleted))) = Some 0"
proof -
  have f: "fst (IndexFindVariable ex_deleted (NvramInfo ex_stores) [65] ex_guid (Some (reset_index ex_deleted))) = Some 0"
    and r: "IndexReset ex_deleted ex_stores (Some ex_index) = Some (Some (reset_index ex_deleted))" by code_simp+
  from f obtain u ix where f': "IndexFindVariable ex_deleted (NvramInfo ex_stores) [65] ex_guid
      (Some (reset_index ex_deleted)) = (Some 0, u, ix)" by (metis prod_cases3 fst_conv)
  have c: "InfoCount ex_stores = 1" "NvramInfo ex_stores = [ex_info]" by code_simp+
  have n: "NvFindVariable ex_deleted [65] ex_guid ex_info = None" by code_simp
  then have none: "\<forall>i<InfoCount ex_stores. NvFindVariable ex_deleted [65] ex_guid (NvramInfo ex_stores ! i) = None"
    by (simp add: c)
  have b: "sizeof_VAR_INDEX_ENTRY \<le> BufferSize ex_index" "BufferSize ex_index < 2 ^ 64"
    "name0 [65] \<noteq> 0" "plain [65]" "0 < InfoCount ex_stores" "0 = pFirstVar (NvramInfo ex_stores ! 0)"
    "NvIsVariable ex_deleted 0 (NvramInfo ex_stores ! 0)"
    "NvVarEq ex_deleted 0 [65] ex_guid (NvramInfo ex_stores ! 0) \<noteq> None" by code_simp+
  from IndexReset_revives_deleted [OF r b none f'] n f c show ?thesis by simp
qed

text \<open>A flaw of the cached names: a name whose second character is from \<open>0x80\<close> to \<open>0xFF\<close> and that is
  stored with one byte per character is cached sign-extended and never found: with an intact index of
  such records the lookup answers that the variable does not exist.\<close>

theorem latin1_name_not_found:
  assumes "index_ok m vi" and "name = c # d # s" "c \<noteq> 0" "128 \<le> unat d" "unat d \<le> 255"
    and "\<forall>e\<in>set (all_entries vi). name_width m (ie_Nvar e) = 1 \<and> NvIsVariable m (ie_Nvar e) (infos ! InfoIndex e)"
    and "il_Size (get_list vi (IndexGetList c)) = length (il_entries (get_list vi (IndexGetList c)))"
  shows "IndexFindVariable m infos name guid (Some vi) = (None, Some False, Some vi)"
proof -
  let ?K = "IndexGetList c"
  let ?l = "get_list vi ?K"
  note i = index_okD [OF assms(1)]
  have es: "\<forall>e\<in>set (il_entries ?l). entry_fits m ?K e \<and> name_width m (ie_Nvar e) = 1
      \<and> NvIsVariable m (ie_Nvar e) (infos ! InfoIndex e)"
  proof
    fix e assume e: "e \<in> set (il_entries ?l)"
    then have "e \<in> set (all_entries vi)" using in_all_entries [OF i(1)] letter_Nvar(2) by blast
    with e assms(6) i(2) [of ?K] show "entry_fits m ?K e \<and> name_width m (ie_Nvar e) = 1
      \<and> NvIsVariable m (ie_Nvar e) (infos ! InfoIndex e)"
      by (auto simp: list_ok_def list_all_iff)
  qed
  have "\<forall>e\<in>set es. entry_fits m ?K e \<and> name_width m (ie_Nvar e) = 1
      \<and> NvIsVariable m (ie_Nvar e) (infos ! InfoIndex e) \<Longrightarrow>
    index_search m infos name guid es n False = (None, n + length es, False)" for es n
  proof (induction es arbitrary: n)
    case Nil
    then show ?case by simp
  next
    case (Cons e es)
    then have e: "entry_fits m ?K e" "name_width m (ie_Nvar e) = 1" "NvIsVariable m (ie_Nvar e) (infos ! InfoIndex e)"
      by auto
    from Cons.IH [of "Suc n"] Cons.prems latin1_no_match [OF e(1,2) assms(2-5)] e(3) show ?case by auto
  qed
  from this [OF es, of 0] assms(2,7) show ?thesis
    by (simp add: IndexFindVariable_def IndexFindVariableEntry_def name0_def Let_def)
qed

theorem latin1_name_not_found_witness:
  "NvFindVariable ex_latin1 [65, 0xE9] ex_guid ex_info \<noteq> None \<and>
   IndexFindVariable ex_latin1 [ex_info] [65, 0xE9] ex_guid (Some (reset_index ex_latin1))
     = (None, Some False, Some (reset_index ex_latin1))"
proof -
  have f: "NvFindVariable ex_latin1 [65, 0xE9] ex_guid ex_info \<noteq> None" by code_simp
  have ok: "index_ok ex_latin1 (reset_index ex_latin1)" by code_simp
  have n: "[65, 0xE9] = (65::char16) # 0xE9 # []" "(65::char16) \<noteq> 0" "128 \<le> unat (0xE9::char16)"
    "unat (0xE9::char16) \<le> 255" by simp_all
  have w: "\<forall>e\<in>set (all_entries (reset_index ex_latin1)). name_width ex_latin1 (ie_Nvar e) = 1
      \<and> NvIsVariable ex_latin1 (ie_Nvar e) ([ex_info] ! InfoIndex e)"
    by code_simp
  have l: "il_Size (get_list (reset_index ex_latin1) (IndexGetList 65))
      = length (il_entries (get_list (reset_index ex_latin1) (IndexGetList 65)))" by code_simp
  from f latin1_name_not_found [OF ok n w l] show ?thesis by blast
qed

text \<open>C30: every operation of the index keeps its invariant: the entries are disjoint pieces of the used
  part of the buffer, which stays within its size, each in the list of its first letter with the
  characters of its name cached, and a list never has more entries than its size says.\<close>

theorem index_invariant:
  assumes "index_ok m vi"
  shows "(IndexAddVariable m p i (Some vi) = Some vi' \<longrightarrow> index_ok m vi')
    \<and> (IndexUpdateVariable m infos p i (Some vi) = Some (Some vi') \<longrightarrow> index_ok m vi')
    \<and> (IndexDeleteVariable m p (Some vi) = Some vi' \<longrightarrow> index_ok m vi')
    \<and> (e \<in> set (all_entries vi) \<longrightarrow> IndexDeleteVariableEntry m (Some e) (Some vi) = Some vi' \<longrightarrow> index_ok m vi')
    \<and> (IndexFindVariableEntry m infos name guid (Some vi) = (r, u, Some vi') \<longrightarrow> index_ok m vi')"
proof (intro conjI impI)
qed (fact IndexAddVariable_ok [OF assms] IndexUpdateVariable_ok [OF assms] IndexDeleteVariable_ok [OF assms]
    IndexDeleteVariableEntry_ok [OF assms] IndexFindVariableEntry_ok [OF assms])+

theorem index_invariant_witness:
  "index_ok ex_mem (the (IndexDeleteVariable ex_mem 0 (Some (reset_index ex_mem))))
   \<and> length (il_entries (Blanks (the (IndexDeleteVariable ex_mem 0 (Some (reset_index ex_mem)))))) = 1"
proof -
  have ok: "index_ok ex_mem (reset_index ex_mem)" by code_simp
  have l: "length (il_entries (Blanks (the (IndexDeleteVariable ex_mem 0 (Some (reset_index ex_mem)))))) = 1"
    by code_simp
  have d: "IndexDeleteVariable ex_mem 0 (Some (reset_index ex_mem))
      = Some (the (IndexDeleteVariable ex_mem 0 (Some (reset_index ex_mem))))"
    by (simp add: IndexDeleteVariable_def Let_def split: option.splits)
  from index_invariant [OF ok] d l show ?thesis by blast
qed

end
