(* ===== verification/NvramFt.thy ===== *)
theory NvramFt
  imports NvramIndex
begin

text \<open>
  The fault tolerant update of the variable stores of \<^verbatim>\<open>AmiModulePkg/NVRAM/NvramDxe.c\<close>: a store is never
  reclaimed in place; its variables are collected in a memory buffer, written to the backup store, and
  the roles of the two stores are exchanged by the state bits of the FFS files that hold them.  The
  theory also has the reset to defaults, the check of the stores at run time and the start-up of the
  driver.

  The state of the driver is the memory image, its buffers and flags, \<^verbatim>\<open>VarStoreInfo\<close> and the variable
  index.  A store that the source passes by pointer is passed as its \<^verbatim>\<open>NVRAM_STORE_INFO\<close> together with the
  index of the element of \<^verbatim>\<open>VarStoreInfo.NvramInfo\<close> it points to, \<open>None\<close> for a local variable.
\<close>

section \<open>State, environment and interfaces\<close>

record driver =
  d_mem :: memory
  d_b :: buffer_state
  d_vs :: VARSTORE_INFO
  d_ix :: "VAR_INDEX option"

text \<open>What the driver is given: the flash part, the address its callers' data lie at, the results of the
  pool allocator for the copy of a store and for temporary buffers, \<^verbatim>\<open>NvramChecksumSupport\<close> and the
  build-time list of preserved variables.\<close>

record nv_env =
  ne_dev :: flash_dev
  ne_src :: nat
  ne_StorePool :: "nat option"
  ne_TmpPool :: "nat option"
  ne_cks :: bool
  ne_preserve :: "(char16 list \<times> u8 list) list"

text \<open>The \<^verbatim>\<open>WriteBytes\<close> and \<^verbatim>\<open>EraseBytes\<close> members of the three interfaces.\<close>

definition WriteBytes :: "nv_env \<Rightarrow> VARSTORE_INFO \<Rightarrow> VARIABLE_INTERFACE \<Rightarrow> writer" where
  "WriteBytes ne vs i a bs m =
     (case i of
        MemInterface \<Rightarrow> MemProgram a bs m
      | NvInterface \<Rightarrow> NvProgram (ne_dev ne) a (ne_src ne) bs m
      | HybridInterface \<Rightarrow> HybridProgram (ne_dev ne) vs a (ne_src ne) bs m)"

definition EraseBytes ::
    "nv_env \<Rightarrow> VARSTORE_INFO \<Rightarrow> VARIABLE_INTERFACE \<Rightarrow> nat \<Rightarrow> nat \<Rightarrow> buffer_state \<times> memory
       \<Rightarrow> bool \<times> buffer_state \<times> memory" where
  "EraseBytes ne vs i a n s =
     (case i of
        MemInterface \<Rightarrow> (case MemErase a n (snd s) of (ok, m) \<Rightarrow> (ok, fst s, m))
      | NvInterface \<Rightarrow> NvErase (ne_dev ne) (ne_TmpPool ne) a n s
      | HybridInterface \<Rightarrow> HybridErase (ne_dev ne) (ne_TmpPool ne) vs a n s)"

definition copy_env_of ::
    "nv_env \<Rightarrow> VARSTORE_INFO \<Rightarrow> VARIABLE_INTERFACE \<Rightarrow> copy_filter option \<Rightarrow> copy_env" where
  "copy_env_of ne vs i f =
     \<lparr>ce_WB = WriteBytes ne vs i, ce_cks = ne_cks ne, ce_filter = f, ce_preserve = ne_preserve ne\<rparr>"

section \<open>FFS file states and the store header\<close>

definition sizeof_EFI_FFS_FILE_HEADER :: nat where
  [nv_consts]: "sizeof_EFI_FFS_FILE_HEADER = 24"
definition Signature_offset :: nat where [nv_consts]: "Signature_offset = 40"
definition FV_SIGNATURE :: nat where [nv_consts]: "FV_SIGNATURE = 0x4856465F"

definition SetNvramFfsFileState :: "writer \<Rightarrow> NVRAM_STORE_INFO \<Rightarrow> u8 \<Rightarrow> memory \<Rightarrow> efi_status \<times> memory" where
  "SetNvramFfsFileState WB Info NewState m =
     (case GetNvramFfsFileStatePtr m Info of
        None \<Rightarrow> (EFI_DEVICE_ERROR, m)
      | Some StatePtr \<Rightarrow>
          let (ok, m') = WB StatePtr [NOT NewState AND m StatePtr] m
          in (if ok then EFI_SUCCESS else EFI_DEVICE_ERROR, m'))"

definition ResetFfsFileStateInMemory :: "NVRAM_STORE_INFO \<Rightarrow> u8 \<Rightarrow> memory \<Rightarrow> efi_status \<times> memory" where
  "ResetFfsFileStateInMemory Info NewState m =
     (case GetNvramFfsFileStatePtr m Info of
        None \<Rightarrow> (EFI_DEVICE_ERROR, m)
      | Some StatePtr \<Rightarrow>
          let m' = m(StatePtr := NOT NewState)
          in (if m' StatePtr = NOT NewState then EFI_SUCCESS else EFI_DEVICE_ERROR, m'))"

definition header_ok :: "memory \<Rightarrow> NVRAM_STORE_INFO \<Rightarrow> nat \<Rightarrow> bool" where
  "header_ok m Info HeaderLength \<longleftrightarrow>
     rd 4 m (NvramAddress Info + Signature_offset) = FV_SIGNATURE
     \<and> rd 8 m (NvramAddress Info + FvLength_offset) = NvramSize Info
     \<and> rd 2 m (NvramAddress Info + HeaderLength_offset) = uintn_sub HeaderLength sizeof_EFI_FFS_FILE_HEADER"

definition CheckTheHeader ::
    "NVRAM_STORE_INFO \<Rightarrow> nat \<Rightarrow> nat option \<Rightarrow> bool \<Rightarrow> memory \<Rightarrow> bool \<times> memory" where
  "CheckTheHeader Info HeaderLength Backup Update m =
     (let ok1 = header_ok m Info HeaderLength;
          Fv = NvramAddress Info;
          m1 = (if \<not> ok1 \<and> Update
                then wr_bytes (wr_bytes (wr_bytes m (Fv + Signature_offset) (le_bytes 4 FV_SIGNATURE))
                       (Fv + FvLength_offset) (le_bytes 8 (NvramSize Info)))
                       (Fv + HeaderLength_offset) (le_bytes 2 (uintn_sub HeaderLength sizeof_EFI_FFS_FILE_HEADER))
                else m);
          ok2 = fst (IsMainNvramStoreValid m1 Info Backup);
          m2 = (if \<not> ok2 \<and> Update
                then snd (ResetFfsFileStateInMemory Info
                       (EFI_FILE_HEADER_CONSTRUCTION OR EFI_FILE_HEADER_VALID OR EFI_FILE_DATA_VALID) m1)
                else m1)
      in (ok1 \<and> ok2, m2))"

section \<open>Copying a store\<close>

text \<open>\<open>NewInfo0\<close> is the caller's uninitialised output structure.\<close>

definition CopyVarStoreToMemStore ::
    "nv_env \<Rightarrow> NVRAM_STORE_INFO \<Rightarrow> nat option \<Rightarrow> NVRAM_STORE_INFO \<Rightarrow> VARSTORE_INFO \<Rightarrow> buffer_state \<Rightarrow> memory
       \<Rightarrow> (efi_status \<times> NVRAM_STORE_INFO \<times> NVRAM_STORE_INFO \<times> buffer_state \<times> memory) option" where
  "CopyVarStoreToMemStore ne Info SkipVar NewInfo0 vs b m =
     (if Runtime b \<and> NvramDriverBuffer b = 0 then Some (EFI_OUT_OF_RESOURCES, Info, NewInfo0, b, m)
      else
        let (st, New1, b1, m1) =
              InitVolatileStore (ne_StorePool ne) NewInfo0 (NvramSize Info) (vs_HeaderLength vs) (Flags Info) b m
        in if EFI_ERROR st then Some (st, Info, New1, b1, m1)
           else do {
             (st2, Info2, New2, b2, m2) \<leftarrow>
               CopyVarStore (copy_env_of ne vs MemInterface (Some (SkipSpecificNvar SkipVar)))
                 (EraseBytes ne vs MemInterface) (ne_TmpPool ne) (vs_HeaderLength vs) Info New1 b1 m1;
             Some (if EFI_ERROR st2 then (st2, Info2, New2, SelectiveFree (NvramAddress New2) b2, m2)
                   else (st2, Info2, New2, b2,
                         snd (CheckTheHeader New2 (vs_HeaderLength vs) (BackupAddress vs) True m2)))
           })"

definition the_addr :: "nat option \<Rightarrow> nat" where
  "the_addr a = (case a of Some x \<Rightarrow> x | None \<Rightarrow> 0)"

text \<open>\<^verbatim>\<open>UpdateFtVarstore\<close> is in two parts: up to the exchange of the states, and the exchange of the
  stores in \<^verbatim>\<open>VarStoreInfo\<close>.\<close>

definition write_backup_store ::
    "nv_env \<Rightarrow> VARIABLE_INTERFACE \<Rightarrow> NVRAM_STORE_INFO \<Rightarrow> NVRAM_STORE_INFO \<Rightarrow> VARSTORE_INFO \<Rightarrow> buffer_state \<Rightarrow> memory
       \<Rightarrow> (efi_status \<times> NVRAM_STORE_INFO \<times> NVRAM_STORE_INFO \<times> buffer_state \<times> memory) option" where
  "write_backup_store ne i Info NewInfo vs b m =
     (let Backup0 = NvInitInfoBuffer m
            (Info\<lparr>NvramAddress := the_addr (BackupAddress vs)\<rparr>) (vs_HeaderLength vs) (Flags Info);
          WB = WriteBytes ne vs i;
          (st1, m1) = ResetFfsFileStateInMemory NewInfo (EFI_FILE_HEADER_CONSTRUCTION OR EFI_FILE_HEADER_VALID) m
      in if EFI_ERROR st1 then Some (st1, Backup0, NewInfo, b, m1)
         else do {
           (st2, New2, Backup2, b2, m2) \<leftarrow>
             CopyVarStore (copy_env_of ne vs i None) (EraseBytes ne vs i) (ne_TmpPool ne)
               (vs_HeaderLength vs) NewInfo Backup0 b m1;
           if EFI_ERROR st2 then Some (st2, Backup2, New2, b2, m2)
           else
             let (st3, m3) = SetNvramFfsFileState WB Info EFI_FILE_MARKED_FOR_UPDATE m2
             in if EFI_ERROR st3 then Some (st3, Backup2, New2, b2, m3)
                else let (st4, m4) = SetNvramFfsFileState WB Backup2 EFI_FILE_DATA_VALID m3
                     in Some (st4, Backup2, New2, b2, m4)
         })"

definition UpdateFtVarstore ::
    "nv_env \<Rightarrow> VARIABLE_INTERFACE \<Rightarrow> NVRAM_STORE_INFO \<Rightarrow> NVRAM_STORE_INFO \<Rightarrow> VARSTORE_INFO \<Rightarrow> buffer_state \<Rightarrow> memory
       \<Rightarrow> (efi_status \<times> NVRAM_STORE_INFO \<times> NVRAM_STORE_INFO \<times> VARSTORE_INFO \<times> buffer_state \<times> memory) option" where
  "UpdateFtVarstore ne i Info NewInfo vs b m =
     do {
       (st, Backup, New, b', m') \<leftarrow> write_backup_store ne i Info NewInfo vs b m;
       Some (if EFI_ERROR st then (st, Info, New, vs, b', m')
             else case SwapVarstoresInHybridMode Backup vs m' of
                    (True, Backup', vs', m'') \<Rightarrow> (EFI_SUCCESS, Backup', New, vs', b', m'')
                  | (False, Backup', vs', m'') \<Rightarrow>
                      (EFI_SUCCESS, Backup', New, vs'\<lparr>BackupAddress := Some (NvramAddress Info)\<rparr>, b', m''))
     }"

section \<open>Updating a store\<close>

definition store_put :: "nat option \<Rightarrow> NVRAM_STORE_INFO \<Rightarrow> VARSTORE_INFO \<Rightarrow> VARSTORE_INFO" where
  "store_put ref Info vs = (case ref of None \<Rightarrow> vs | Some k \<Rightarrow> vs\<lparr>NvramInfo := (NvramInfo vs)[k := Info]\<rparr>)"

definition nv_store :: "VARSTORE_INFO \<Rightarrow> NVRAM_STORE_INFO" where
  "nv_store vs = NvramInfo vs ! the_addr (NvInfo vs)"

definition NvramReinitialize :: "driver \<Rightarrow> driver option" where
  "NvramReinitialize d =
     (let vs = d_vs d;
          NvStore = NvInitInfoBuffer (d_mem d) (nv_store vs) (vs_HeaderLength vs) NVRAM_STORE_FLAG_NON_VALATILE;
          MemStore = NvramInfo vs ! the_addr (MemInfo vs);
          vs' = VarStoreDiscovery (d_mem d) NvStore MemStore vs
      in do {
           ix \<leftarrow> IndexReset (d_mem d) vs' (d_ix d);
           Some (d\<lparr>d_vs := vs', d_ix := ix\<rparr>)
         })"

definition UpdateVarstore ::
    "nv_env \<Rightarrow> nat option \<Rightarrow> NVRAM_STORE_INFO \<Rightarrow> VARIABLE_INTERFACE \<Rightarrow> NVRAM_STORE_INFO \<Rightarrow> driver
       \<Rightarrow> (efi_status \<times> NVRAM_STORE_INFO \<times> NVRAM_STORE_INFO \<times> driver) option" where
  "UpdateVarstore ne ref Info i NewInfo d =
     (let vs = d_vs d; b = d_b d; m = d_mem d in
      do {
        (st, Info', New', vs', b', m') \<leftarrow>
          (if has (Flags Info) NVRAM_STORE_FLAG_NON_VALATILE \<and> BackupAddress vs \<noteq> None
              \<and> fst (CheckTheHeader Info (vs_HeaderLength vs) (BackupAddress vs) False m)
           then UpdateFtVarstore ne i Info NewInfo vs b m
           else map_option (\<lambda>(st, n, i', b', m'). (st, i', n, vs, b', m'))
                  (CopyVarStore (copy_env_of ne vs i None) (EraseBytes ne vs i) (ne_TmpPool ne)
                     (vs_HeaderLength vs) NewInfo Info b m));
        let d' = d\<lparr>d_mem := m', d_b := b', d_vs := store_put ref Info' vs'\<rparr>;
        if EFI_ERROR st then Some (st, Info', New', d')
        else if ref \<noteq> None \<and> ref = NvInfo vs'
        then do { d2 \<leftarrow> NvramReinitialize d'; Some (st, Info', New', d2) }
        else do { ix \<leftarrow> IndexReset m' (d_vs d') (d_ix d'); Some (st, Info', New', d'\<lparr>d_ix := ix\<rparr>) }
      })"

section \<open>Resetting to defaults\<close>

text \<open>\<open>Ext\<close> stands for the search of the external defaults in the firmware volumes: the status of the last
  protocol call and, if the section was read, its address and size.  \<open>Def\<close> is the store the defaults are
  taken from, with whether it is the store that is reset.\<close>

definition reset_source ::
    "memory \<Rightarrow> NVRAM_STORE_INFO \<Rightarrow> bool \<Rightarrow> efi_status \<times> (nat \<times> nat) option
       \<Rightarrow> efi_status \<times> (bool \<times> NVRAM_STORE_INFO) option" where
  "reset_source m Info ExternalDefaults Ext =
     (if \<not> ExternalDefaults then (EFI_SUCCESS, Some (True, Info))
      else case Ext of
             (_, Some (addr, sz)) \<Rightarrow>
               (EFI_SUCCESS, Some (False, NvInitInfoBuffer m (Info\<lparr>NvramAddress := addr, NvramSize := sz\<rparr>) 0
                  (NVRAM_STORE_FLAG_NON_VALATILE OR NVRAM_STORE_FLAG_READ_ONLY
                   OR NVRAM_STORE_FLAG_DO_NOT_ENUMERATE)))
           | (st, None) \<Rightarrow> (st, None))"

text \<open>Copying the default sets and, if asked for, the variables that have no default into the new store.\<close>

definition copy_defaults ::
    "nv_env \<Rightarrow> nat \<Rightarrow> NVRAM_STORE_INFO \<Rightarrow> NVRAM_STORE_INFO \<Rightarrow> memory \<Rightarrow> efi_status \<times> NVRAM_STORE_INFO \<times> memory" where
  "copy_defaults ne sz Def NewInfo m =
     (let (st, New1, m1) = CopyVariable MemProgram (ne_cks ne) StdDefaults AmiDefaultsVariableGuid sz Def NewInfo m
      in if st \<noteq> EFI_OUT_OF_RESOURCES
         then CopyVariable MemProgram (ne_cks ne) MfgDefaults AmiDefaultsVariableGuid sz Def New1 m1
         else (st, New1, m1))"

definition keep_without_defaults ::
    "nv_env \<Rightarrow> bool \<Rightarrow> efi_status \<Rightarrow> NVRAM_STORE_INFO \<Rightarrow> NVRAM_STORE_INFO \<Rightarrow> NVRAM_STORE_INFO \<Rightarrow> VARSTORE_INFO
       \<Rightarrow> buffer_state \<Rightarrow> memory
       \<Rightarrow> (efi_status \<times> NVRAM_STORE_INFO \<times> NVRAM_STORE_INFO \<times> buffer_state \<times> memory) option" where
  "keep_without_defaults ne Preserve st Def Info NewInfo vs b m =
     (if \<not> Preserve then Some (st, Info, NewInfo, b, m)
      else case NvGetDefaultsInfo m StdDefaults Def Info of
             None \<Rightarrow> Some (st, Info, NewInfo, b, m)
           | Some DefVar \<Rightarrow>
               CopyVariables (copy_env_of ne vs MemInterface (Some (SkipVarsWithDefaults (Some DefVar))))
                 (ne_TmpPool ne) Info NewInfo b m)"

definition NvResetConfiguration ::
    "nv_env \<Rightarrow> nat option \<Rightarrow> NVRAM_STORE_INFO \<Rightarrow> VARIABLE_INTERFACE \<Rightarrow> bool \<Rightarrow> bool
       \<Rightarrow> efi_status \<times> (nat \<times> nat) option \<Rightarrow> driver
       \<Rightarrow> (efi_status \<times> NVRAM_STORE_INFO \<times> driver) option" where
  "NvResetConfiguration ne ref Info i ExternalDefaults Preserve Ext d =
     (let vs = d_vs d; HL = vs_HeaderLength vs; sz = NvramSize Info;
          (st0, New0, b0, m0) = InitVolatileStore (ne_StorePool ne) Info sz HL (Flags Info) (d_b d) (d_mem d)
      in if EFI_ERROR st0 then Some (st0, Info, d\<lparr>d_b := b0, d_mem := m0\<rparr>)
         else
           let (HeaderIsValid, m1) =
                 CheckTheHeader New0 HL (BackupAddress vs) True
                   (wr_bytes m0 (NvramAddress New0) (rd_bytes m0 (NvramAddress Info) HL));
               (st1, Def) = reset_source m1 Info ExternalDefaults Ext
           in do {
             (st2, Info2, New2, Def2, b2, m2, stop) \<leftarrow>
               (case Def of
                  None \<Rightarrow> Some (st1, Info, New0, None, b0, m1, False)
                | Some (same, D) \<Rightarrow>
                    (case SelectiveAllocate (ne_TmpPool ne) True sz b0 of
                       (None, b1) \<Rightarrow>
                         Some (EFI_OUT_OF_RESOURCES, Info, New0, Def, SelectiveFree (NvramAddress New0) b1, m1, True)
                     | (Some TmpBuffer, b1) \<Rightarrow>
                         let (st, New1, m') = copy_defaults ne sz D New0 m1
                         in map_option (\<lambda>(st', Info', New', b', m'').
                                (st', Info', New',
                                 if pEndOfVars New' = pFirstVar New' then None
                                 else Some (same, if same then Info' else D), b', m'', False))
                              (keep_without_defaults ne (Preserve \<and> HeaderIsValid) st D Info New1 vs
                                 (SelectiveFree TmpBuffer b1) m')));
             let d2 = d\<lparr>d_mem := m2, d_b := b2, d_vs := store_put ref Info2 vs\<rparr>;
             if stop then Some (st2, Info2, d2)
             else if st2 \<noteq> EFI_OUT_OF_RESOURCES \<and> (Def2 \<noteq> None \<or> \<not> HeaderIsValid)
                     \<and> (uintn_sub (pEndOfVars Info2) (NvramAddress Info2)
                          \<noteq> uintn_sub (pEndOfVars New2) (NvramAddress New2)
                        \<or> \<not> (case Def2 of Some (same, _) \<Rightarrow> same | None \<Rightarrow> False))
             then do {
               (st3, Info3, New3, d3) \<leftarrow> UpdateVarstore ne ref Info2 i New2 d2;
               Some (st3, Info3, d3\<lparr>d_b := SelectiveFree (NvramAddress New3) (d_b d3)\<rparr>)
             }
             else Some (st2, Info2, d2\<lparr>d_b := SelectiveFree (NvramAddress New2) b2\<rparr>)
           })"

section \<open>Checking the stores at run time\<close>

text \<open>\<open>New0\<close> is the uninitialised local \<^verbatim>\<open>NewInfo\<close>.\<close>

definition switch_to_backup :: "driver \<Rightarrow> driver option" where
  "switch_to_backup d =
     (let vs = d_vs d; nv = nv_store vs in
      case SwapVarstoresInHybridMode nv vs (d_mem d) of
        (True, Backup, vs', m') \<Rightarrow>
          NvramReinitialize (d\<lparr>d_mem := m', d_vs := store_put (NvInfo vs') Backup vs'\<rparr>)
      | (False, _, vs', m') \<Rightarrow>
          let Backup = NvInitInfoBuffer m' (nv\<lparr>NvramAddress := the_addr (BackupAddress vs')\<rparr>)
                         (vs_HeaderLength vs') (Flags nv)
          in NvramReinitialize
               (d\<lparr>d_mem := m', d_vs := store_put (NvInfo vs') Backup (vs'\<lparr>BackupAddress := Some (NvramAddress nv)\<rparr>)\<rparr>))"

definition recover_store :: "nv_env \<Rightarrow> NVRAM_STORE_INFO \<Rightarrow> driver \<Rightarrow> driver option" where
  "recover_store ne New0 d =
     do {
       (st, Info', New', b', m') \<leftarrow>
         CopyVarStoreToMemStore ne (nv_store (d_vs d)) None New0 (d_vs d) (d_b d) (d_mem d);
       let d1 = d\<lparr>d_mem := m', d_b := b', d_vs := store_put (NvInfo (d_vs d)) Info' (d_vs d)\<rparr>;
       if EFI_ERROR st then Some (d1\<lparr>d_b := SelectiveFree (NvramAddress New') b'\<rparr>)
       else do {
         (st2, Info2, New2, d2) \<leftarrow> UpdateVarstore ne (NvInfo (d_vs d1)) Info' (vs_NvInterface (d_vs d1)) New' d1;
         Some (d2\<lparr>d_b := SelectiveFree (NvramAddress New2) (d_b d2)\<rparr>)
       }
     }"

definition CheckStore :: "nv_env \<Rightarrow> NVRAM_STORE_INFO \<Rightarrow> bool \<Rightarrow> driver \<Rightarrow> driver option" where
  "CheckStore ne New0 Recover d =
     (let flash = (\<lambda>d. HybridStoreToRealStore (d_vs d) (nv_store (d_vs d)));
          (MainValid, BackupValid) = IsMainNvramStoreValid (d_mem d) (flash d) (BackupAddress (d_vs d))
      in do {
        d1 \<leftarrow> (if \<not> MainValid \<and> BackupValid = Some True then switch_to_backup d else Some d);
        let valid = MainValid \<or> BackupValid = Some True;
        if valid \<and> IsStoreOk (d_mem d1) (flash d1) then Some d1
        else if Recover \<or> \<not> valid then recover_store ne New0 d1
        else
          let nv = nv_store (d_vs d1);
              m2 = wr_bytes (d_mem d1) (NvramAddress nv)
                     (rd_bytes (d_mem d1) (NvramFlashAddress (d_vs d1)) (NvramSize nv))
          in do {
            d3 \<leftarrow> NvramReinitialize (d1\<lparr>d_mem := m2\<rparr>);
            if IsStoreOk (d_mem d3) (nv_store (d_vs d3)) then Some d3 else recover_store ne New0 d3
          }
      })"

section \<open>Start-up\<close>

definition NVRAM_MODE_RESET_CONFIGURATION :: u32 where [nv_consts]: "NVRAM_MODE_RESET_CONFIGURATION = 2"
definition NVRAM_MODE_SIMULATION :: u32 where [nv_consts]: "NVRAM_MODE_SIMULATION = 8"
definition VALATILE_VARIABLE_STORE_SIZE :: nat where [nv_consts]: "VALATILE_VARIABLE_STORE_SIZE = 0x10000"

record NVRAM_HOB =
  hob_NvramAddress :: nat
  hob_BackupAddress :: nat
  hob_NvramSize :: nat
  hob_HeaderLength :: nat
  hob_NvramMode :: u32

text \<open>What start-up finds: the HOB, if any, the run-time buffer, if it was allocated, the pools of the
  volatile store, of the simulated store and of the memory copy, whether the index buffer was
  allocated, the build's \<^verbatim>\<open>NvramRtGarbageCollectionSupport\<close>, \<^verbatim>\<open>NvramHeaderLength\<close> and \<^verbatim>\<open>NvramSize\<close>, the
  external defaults (at the two resets) and the hook \<^verbatim>\<open>DxeIsNvramDataCompatible\<close>.\<close>

record init_env =
  in_HobList :: bool
  in_Hob :: "NVRAM_HOB option"
  in_RtBuffer :: "nat option"
  in_MemPool :: "nat option"
  in_SimPool :: "nat option"
  in_HybridPool :: "nat option"
  in_IndexPool :: bool
  in_RtGarbageCollection :: bool
  in_HeaderLength :: nat
  in_NvramSize :: nat
  in_Ext1 :: "efi_status \<times> (nat \<times> nat) option"
  in_Ext2 :: "efi_status \<times> (nat \<times> nat) option"
  in_Compatible :: "driver \<Rightarrow> bool"

definition no_store :: NVRAM_STORE_INFO where
  "no_store = \<lparr>NvramAddress = 0, NvramSize = 0, NvramGuidsAddress = 0, pEndOfVars = 0, pFirstVar = 0,
     NextGuid = 0, LastVarSize = 0, pLastReturned = None, Flags = 0\<rparr>"

text \<open>\<^verbatim>\<open>VarStoreInfo\<close> after \<^verbatim>\<open>MemSet\<close>: the array has ten elements.\<close>

definition no_stores :: VARSTORE_INFO where
  "no_stores = \<lparr>vs_HeaderLength = 0, NvramMode = 0, InfoCount = 0, LastInfoIndex = 0,
     NvramInfo = replicate 10 no_store, NvInfo = None, MemInfo = None, vs_NvInterface = MemInterface,
     BackupAddress = None, AddressDelta = 0, NvramFlashAddress = 0\<rparr>"

text \<open>The volatile and the non-volatile store before the reset handling.  Failing allocations of
  \<^verbatim>\<open>InitVolatileStore\<close> are not tested for here.\<close>

definition init_stores ::
    "init_env \<Rightarrow> driver \<Rightarrow> NVRAM_STORE_INFO \<times> NVRAM_STORE_INFO \<times> driver" where
  "init_stores ie d =
     (let (vs, b) = (case in_Hob ie of
            Some hob \<Rightarrow>
              (no_stores\<lparr>vs_HeaderLength := hob_HeaderLength hob, NvramMode := hob_NvramMode hob,
                         BackupAddress := (if hob_BackupAddress hob = 0 then None else Some (hob_BackupAddress hob))\<rparr>,
               if in_RtGarbageCollection ie
               then (d_b d)\<lparr>NvramDriverBufferSize := hob_NvramSize hob * 3 mod 2 ^ 32,
                            NvramDriverBuffer := the_addr (in_RtBuffer ie)\<rparr>
               else d_b d)
          | None \<Rightarrow> (no_stores\<lparr>NvramMode := NVRAM_MODE_SIMULATION, vs_HeaderLength := in_HeaderLength ie\<rparr>, d_b d));
          (_, Mem, b1, m1) = InitVolatileStore (in_MemPool ie) no_store VALATILE_VARIABLE_STORE_SIZE
                               (vs_HeaderLength vs) 0 b (d_mem d);
          (sz, addr) = (case in_Hob ie of Some hob \<Rightarrow> (hob_NvramSize hob, hob_NvramAddress hob)
                        | None \<Rightarrow> (in_NvramSize ie, 0))
      in if has (NvramMode vs) NVRAM_MODE_SIMULATION
         then
           let (_, Nv, b2, m2) = InitVolatileStore (in_SimPool ie) no_store sz (vs_HeaderLength vs)
                                   NVRAM_STORE_FLAG_NON_VALATILE b1 m1;
               m3 = (if in_Hob ie \<noteq> None then wr_bytes m2 (NvramAddress Nv) (rd_bytes m2 addr (NvramSize Nv)) else m2)
           in (NvInitInfoBuffer m3 Nv (vs_HeaderLength vs) NVRAM_STORE_FLAG_NON_VALATILE, Mem,
               d\<lparr>d_mem := m3, d_b := b2, d_vs := vs\<lparr>vs_NvInterface := MemInterface, BackupAddress := None\<rparr>\<rparr>)
         else
           (NvInitInfoBuffer m1 (no_store\<lparr>NvramAddress := addr, NvramSize := sz\<rparr>) (vs_HeaderLength vs)
              NVRAM_STORE_FLAG_NON_VALATILE, Mem,
            d\<lparr>d_mem := m1, d_b := b1, d_vs := vs\<lparr>vs_NvInterface := NvInterface\<rparr>\<rparr>))"

definition NvramInitialize :: "nv_env \<Rightarrow> init_env \<Rightarrow> driver \<Rightarrow> (efi_status \<times> driver) option" where
  "NvramInitialize ne ie d =
     (if \<not> in_HobList ie then Some (EFI_NOT_FOUND, d)
      else
        let (Nv, Mem, d1) = init_stores ie d;
            ext = (rd 4 (d_mem d1) (NvramAddress Nv + Signature_offset) \<noteq> FV_SIGNATURE
                   \<or> NvGetDefaultsInfo (d_mem d1) StdDefaults Nv no_store = None);
            d2 = (if ext then d1\<lparr>d_vs := (d_vs d1)\<lparr>NvramMode := NvramMode (d_vs d1) OR NVRAM_MODE_RESET_CONFIGURATION\<rparr>\<rparr>
                  else d1)
        in do {
          (Nv3, d3) \<leftarrow>
            (if has (NvramMode (d_vs d2)) NVRAM_MODE_RESET_CONFIGURATION
             then map_option (\<lambda>(st, i, d'). (i, d'\<lparr>d_vs := (d_vs d')\<lparr>NvramMode :=
                        NvramMode (d_vs d') AND NOT NVRAM_MODE_RESET_CONFIGURATION\<rparr>\<rparr>))
                    (NvResetConfiguration ne None Nv (vs_NvInterface (d_vs d2)) ext ext (in_Ext1 ie) d2)
             else Some (Nv, d2));
          let (Nv4, vs4, m4) = InitHybridInterface (in_HybridPool ie) Nv3 (d_vs d3) (d_mem d3);
          let vs5 = VarStoreDiscovery m4 Nv4 Mem vs4;
          ix \<leftarrow> IndexInit (in_IndexPool ie) m4 vs5 (d_ix d3);
          let d6 = d3\<lparr>d_mem := m4, d_vs := vs5, d_ix := ix\<rparr>;
          if in_Compatible ie d6 then Some (EFI_SUCCESS, d6)
          else map_option (\<lambda>(st, i, d'). (EFI_SUCCESS, d'))
                 (NvResetConfiguration ne (NvInfo vs5) (nv_store vs5) (vs_NvInterface vs5) True True (in_Ext2 ie) d6)
        })"

end
