(* ===== verification/NvramFailsafe.thy ===== *)
theory NvramFailsafe
  imports NvramFt NvramCreate
begin

text \<open>
  The fault tolerant update survives failing writes: whatever the flash part does inside the backup store
  and to the two state bytes, and wherever it stops, one of the two stores is valid afterwards and
  complete.  A write that fails ends the update, so a loss of power is the special case in which a write
  and everything after it does not happen.

  The frame lemmas of this theory do not assume that writes succeed (those of \<open>NvramCreate\<close> do).
\<close>

section \<open>Writers that stay inside a region\<close>

locale local_writer =
  fixes WB :: writer and lo hi :: nat
  assumes local:
    "lo \<le> a \<Longrightarrow> a + length bs \<le> hi \<Longrightarrow> WB a bs m = (ok, m') \<Longrightarrow> i < a \<or> a + length bs \<le> i \<Longrightarrow> m' i = m i"

text \<open>The state of a sequence of writes: nothing outside \<open>[l, h)\<close> has changed, and the write position
  is \<open>q\<close> unless a write has failed.\<close>

definition wstep :: "nat \<Rightarrow> nat \<Rightarrow> memory \<Rightarrow> nat \<Rightarrow> wstate \<Rightarrow> bool" where
  "wstep l h m0 q st \<longleftrightarrow> (case st of (ok, p, m) \<Rightarrow> (\<forall>i. i < l \<or> h \<le> i \<longrightarrow> m i = m0 i) \<and> (ok \<longrightarrow> p = q))"

lemma wstep_goto: "wstep l h m0 q st \<Longrightarrow> wstep l h m0 v (w_goto v st)"
  by (auto simp: wstep_def w_goto_def split: prod.splits)

lemma wstepI: "wstep l h m p (True, p, m)"
  by (simp add: wstep_def)

lemma wstepD: "wstep l h m0 q (ok, p, m) \<Longrightarrow> i < l \<or> h \<le> i \<Longrightarrow> m i = m0 i"
  by (auto simp: wstep_def)

lemma failed_write:
  "\<not> fst st \<Longrightarrow> w_at WB a bs st = st"
  "\<not> fst st \<Longrightarrow> write_auth_ext WB A ef sec n ps st = st"
  "\<not> fst st \<Longrightarrow> write_checksum_ext WB cks f ef n p1 pVar st = st"
  by (auto simp: w_at_def w_adv_def w_brk_def w_goto_def w_checksum_def write_auth_ext_def
      write_checksum_ext_def Let_def split: prod.splits)

lemma Recover_simps [simp]:
  "NvramAddress (RecoverFromFlashUpdateFailure m info e n v) = NvramAddress info"
  "NvramSize (RecoverFromFlashUpdateFailure m info e n v) = NvramSize info"
  "pFirstVar (RecoverFromFlashUpdateFailure m info e n v) = pFirstVar info"
  by (simp_all add: RecoverFromFlashUpdateFailure_def Let_def)

context local_writer
begin

lemma w_adv_step:
  assumes "wstep l h m0 q st" "lo \<le> l" "h \<le> hi" "l \<le> q" "q + length bs \<le> h" "q' = q + length bs"
  shows "wstep l h m0 q' (w_adv WB bs st)"
proof (cases st)
  case (fields ok p m)
  obtain ok' m' where w: "WB p bs m = (ok', m')" by fastforce
  from assms fields local [of p bs m ok' m'] w show ?thesis
    by (auto simp: w_adv_def wstep_def)
qed

lemma w_brk_step:
  assumes "wstep l h m0 q st" "lo \<le> l" "h \<le> hi" "l \<le> q" "q + length bs \<le> h" "q' = q + k"
  shows "wstep l h m0 q' (w_brk WB bs k st)"
proof (cases st)
  case (fields ok p m)
  obtain ok' m' where w: "WB p bs m = (ok', m')" by fastforce
  from assms fields local [of p bs m ok' m'] w show ?thesis
    by (auto simp: w_brk_def wstep_def)
qed

lemma w_at_step:
  assumes "wstep l h m0 q st" "lo \<le> l" "h \<le> hi" "l \<le> a" "a + length bs \<le> h"
  shows "wstep l h m0 q (w_at WB a bs st)"
proof (cases st)
  case (fields ok p m)
  obtain ok' m' where w: "WB a bs m = (ok', m')" by fastforce
  from assms fields local [of a bs m ok' m'] w show ?thesis
    by (auto simp: w_at_def wstep_def)
qed

lemma w_checksum_step:
  assumes "wstep l h m0 q st" "lo \<le> l" "h \<le> hi" "l \<le> a" "a + 1 \<le> h"
  shows "wstep l h m0 q (w_checksum WB pVar a st)"
proof (cases st)
  case (fields ok p m)
  with assms show ?thesis by (auto simp: w_checksum_def intro!: w_at_step)
qed

lemma fold_w_adv_step:
  assumes "lo \<le> l" "h \<le> hi" "\<And>c. length (f c) = n"
  shows "wstep l h m0 q st \<Longrightarrow> l \<le> q \<Longrightarrow> q + n * length cs \<le> h \<Longrightarrow>
    wstep l h m0 (q + n * length cs) (fold (\<lambda>c. w_adv WB (f c)) cs st)"
proof (induction cs arbitrary: q st)
  case Nil
  then show ?case by simp
next
  case (Cons c cs)
  have "wstep l h m0 (q + n) (w_adv WB (f c) st)"
    using Cons.prems assms by (intro w_adv_step [of l h m0 q]) auto
  from Cons.IH [OF this] Cons.prems show ?case by (simp add: algebra_simps)
qed

lemma length_name_bytes:
  "length (name_bytes name) = (if name_ascii name then length (c_string name) + 1 else 2 * length (c_string name) + 2)"
  by (auto simp: name_bytes_def length_concat comp_def sum_list_triv)

lemma write_name_step:
  assumes "wstep l h m0 q st" "lo \<le> l" "h \<le> hi" "l \<le> q" "q + length (name_bytes name) \<le> h"
  shows "wstep l h m0 (q + length (name_bytes name)) (write_name WB name st)"
proof (cases "name_ascii name")
  case True
  have "wstep l h m0 (q + 1 * length (c_string name)) (fold (\<lambda>c. w_adv WB [ucast c]) (c_string name) st)"
    using assms True by (intro fold_w_adv_step) (auto simp: length_name_bytes)
  with assms True show ?thesis by (auto simp: write_name_def length_name_bytes intro!: w_adv_step)
next
  case False
  have "wstep l h m0 (q + 2 * length (c_string name)) (fold (\<lambda>c. w_adv WB (le_bytes 2 (unat c))) (c_string name) st)"
    using assms False by (intro fold_w_adv_step) (auto simp: length_name_bytes)
  with assms False show ?thesis by (auto simp: write_name_def length_name_bytes intro!: w_adv_step)
qed

lemma write_guid_step:
  assumes "wstep l h m0 q st" "lo \<le> l" "h \<le> hi" "l \<le> q" "length g = 16"
    and "q + (if has (cp_flags cp) NVRAM_FLAG_GUID then 16 else 1) \<le> h"
    and "l \<le> NvramGuidsAddress info - 16 * NextGuid info" "NvramGuidsAddress info - 16 * NextGuid info + 16 \<le> h"
  shows "wstep l h m0 (q + (if has (cp_flags cp) NVRAM_FLAG_GUID then 16 else 1)) (write_guid WB cp g info st)"
proof (cases "has (cp_flags cp) NVRAM_FLAG_GUID")
  case True
  with assms show ?thesis by (auto simp: write_guid_def intro!: w_adv_step)
next
  case False
  have "wstep l h m0 q (if cp_guid cp = NextGuid info
      then w_at WB (NvramGuidsAddress info - sizeof_GUID * NextGuid info) g st else st)"
    using assms by (auto simp: sizeof_GUID_def intro!: w_at_step)
  with assms False show ?thesis by (auto simp: write_guid_def Let_def intro!: w_adv_step)
qed

lemma write_auth_ext_step:
  assumes "wstep l h m0 q st" "lo \<le> l" "h \<le> hi" "l \<le> q"
    and "has A UEFI23_1_AUTHENTICATED_VARIABLE_ATTRIBUTES \<Longrightarrow> q + 43 \<le> h \<and> l \<le> ps \<and> ps + 2 \<le> h"
  shows "\<exists>q'. wstep l h m0 q' (write_auth_ext WB A ef sec n ps st)"
proof (cases "has A UEFI23_1_AUTHENTICATED_VARIABLE_ATTRIBUTES")
  case False
  with assms(1) show ?thesis by (auto simp: write_auth_ext_def)
next
  case True
  with assms(5) have b: "q + 43 \<le> h" "l \<le> ps" "ps + 2 \<le> h" by auto
  have "wstep l h m0 (q + 1) (w_brk WB [ef] 1 st)" using assms b by (intro w_brk_step) auto
  then have "wstep l h m0 (q + 1 + 8) (w_brk WB (le_bytes 8 (Mc sec)) 8 (w_brk WB [ef] 1 st))"
    using assms b by (intro w_brk_step) auto
  then have "wstep l h m0 (q + 1 + 8 + 0) (w_brk WB (take HASH_SHA256_LEN (KeyHash sec)) 0
      (w_brk WB (le_bytes 8 (Mc sec)) 8 (w_brk WB [ef] 1 st)))"
    using assms b by (intro w_brk_step) (auto simp: HASH_SHA256_LEN_def)
  from wstep_goto [OF this, of ps] have "wstep l h m0 (ps + 0) (write_auth_ext WB A ef sec n ps st)"
    using assms b True unfolding write_auth_ext_def by (simp only: if_True) (rule w_brk_step, auto)
  then show ?thesis by blast
qed

lemma write_checksum_ext_step:
  assumes "wstep l h m0 q st" "lo \<le> l" "h \<le> hi" "l \<le> p1" "cks \<Longrightarrow> 4 \<le> n \<and> p1 + n \<le> h"
  shows "\<exists>q'. wstep l h m0 q' (write_checksum_ext WB cks f ef n p1 pVar st)"
proof (cases cks)
  case False
  with assms(1) show ?thesis by (auto simp: write_checksum_ext_def)
next
  case True
  with assms have b: "4 \<le> n" "p1 + n \<le> h" by auto
  have g: "wstep l h m0 (p1 + n) (w_goto (p1 + n) st)" by (rule wstep_goto [OF assms(1)])
  have "wstep l h m0 (p1 + n) (w_at WB (p1 + n - 2) (le_bytes 2 n) (w_goto (p1 + n) st))"
    using assms b by (intro w_at_step [OF g]) auto
  then have "wstep l h m0 (p1 + n) (w_at WB p1 [ef] (w_at WB (p1 + n - 2) (le_bytes 2 n) (w_goto (p1 + n) st)))"
    by (rule w_at_step) (use assms b in auto)
  then have "wstep l h m0 (p1 + n) (w_checksum WB pVar (p1 + n - 3)
      (w_at WB p1 [ef] (w_at WB (p1 + n - 2) (le_bytes 2 n) (w_goto (p1 + n) st))))"
    by (rule w_checksum_step) (use assms b in auto)
  moreover have "wstep l h m0 (p1 + n) (w_checksum WB pVar (p1 + n - 3) (w_goto (p1 + n) st))"
    using assms b by (intro w_checksum_step [OF g]) auto
  ultimately show ?thesis using True by (auto simp: write_checksum_ext_def Let_def)
qed

text \<open>A creation, successful or not, only changes bytes from the end of the records to the end of the
  store, and a successful one keeps the layout of the store.\<close>

lemma CreateVariable_local:
  assumes c: "CreateVariable WB cks name g A Data OldVar sec info m = (st, info', m')"
    and lay: "layout_ok info" "lo \<le> pEndOfVars info" "NvramAddress info + NvramSize info \<le> hi"
    and len: "length g = 16" "length Data < 2 ^ 31" "length name < 2 ^ 28"
  shows "i < pEndOfVars info \<or> NvramAddress info + NvramSize info \<le> i \<Longrightarrow> m' i = m i"
    "st = EFI_SUCCESS \<Longrightarrow> layout_ok info' \<and> pEndOfVars info \<le> pEndOfVars info'"
    "st = EFI_SUCCESS \<or> st = EFI_OUT_OF_RESOURCES \<or> st = EFI_DEVICE_ERROR"
    "NvramAddress info' = NvramAddress info" "NvramSize info' = NvramSize info" "pFirstVar info' = pFirstVar info"
    "st = EFI_OUT_OF_RESOURCES \<Longrightarrow> info' = info \<and> m' = m"
proof -
  let ?cp = "plan_create cks m name g A info OldVar 0"
  let ?sz = "cp_Size ?cp + (length Data + cp_ExtSize ?cp)" and ?p = "pEndOfVars info"
  let ?h = "NvramAddress info + NvramSize info" and ?gl = "if has (cp_flags ?cp) NVRAM_FLAG_GUID then 16 else 1 :: nat"
  obtain f x e where cf: "create_flags cks A = (f, x, e)" by (metis prod_cases3)
  have x: "cp_ExtSize ?cp = x" by (simp add: plan_create_def cf Let_def)
  have xs: "has A UEFI23_1_AUTHENTICATED_VARIABLE_ATTRIBUTES \<Longrightarrow> 43 \<le> x" "cks \<Longrightarrow> 4 \<le> x" "x \<le> 44"
    using cf by (auto simp: create_flags_def Let_def HASH_SHA256_LEN_def split: if_splits)
  have guidflag: "has (cp_flags ?cp) NVRAM_FLAG_GUID \<longleftrightarrow>
      (case OldVar of Some v \<Rightarrow> has (nvar_flags m v) NVRAM_FLAG_GUID | None \<Rightarrow> False)
      \<or> NextGuid info > 255 \<and> cp_guid ?cp \<ge> NextGuid info"
  proof -
    have "\<not> has f NVRAM_FLAG_GUID"
      using cf by (auto simp: create_flags_def Let_def has_def nv_consts split: if_splits)
    moreover have "has NVRAM_FLAG_GUID NVRAM_FLAG_GUID" "\<not> has NVRAM_FLAG_ASCII_NAME NVRAM_FLAG_GUID"
      by (simp_all add: has_def nv_consts)
    ultimately show ?thesis by (simp add: plan_create_def cf Let_def)
  qed
  have sz0: "cp_Size ?cp = 10 + ?gl + length (name_bytes name)"
    unfolding guidflag by (simp add: plan_create_def cf Let_def sizeof_NVAR_def sizeof_GUID_def)
  have "length (c_string name) \<le> length name" by (simp add: c_string_def length_takeWhile_le)
  with len(3) have nb: "length (name_bytes name) < 2 ^ 30" by (auto simp: length_name_bytes)
  have big: "?sz < 2 ^ 32" using sz0 nb len(2) xs(3) x by simp
  have "(\<forall>i. i < ?p \<or> ?h \<le> i \<longrightarrow> m' i = m i)
    \<and> (st = EFI_SUCCESS \<longrightarrow> layout_ok info' \<and> ?p \<le> pEndOfVars info')
    \<and> st \<in> {EFI_SUCCESS, EFI_OUT_OF_RESOURCES, EFI_DEVICE_ERROR}
    \<and> NvramAddress info' = NvramAddress info \<and> NvramSize info' = NvramSize info \<and> pFirstVar info' = pFirstVar info
    \<and> (st = EFI_OUT_OF_RESOURCES \<longrightarrow> info' = info \<and> m' = m)"
  proof (cases "2 ^ 64 - 1 - cp_Size ?cp < (length Data + cp_ExtSize ?cp) mod 2 ^ 64 \<or> \<not> IsEnoughSpace info ?sz")
    case True
    with c have "st = EFI_OUT_OF_RESOURCES" "info' = info" "m' = m"
      by (auto simp: CreateVariable_def CreateVariableEx_def Let_def split: if_splits)
    then show ?thesis by simp
  next
    case False
    then have sp: "IsEnoughSpace info ?sz" by simp
    note bound = IsEnoughSpace_bound [OF lay(1) sp big]
    let ?hd = "nvar_header (?sz mod 2 ^ 16) FLASH_EMPTY_NEXT (cp_flags ?cp)"
    define st1 where "st1 = w_adv WB ?hd (True, ?p, m)"
    define st2 where "st2 = write_guid WB ?cp g info st1"
    define st3 where "st3 = write_name WB name st2"
    define st4 where "st4 = (if has A EFI_VARIABLE_APPEND_WRITE then w_adv WB [] st3 else st3)"
    define st5 where "st5 = w_adv WB Data st4"
    define st6 where "st6 = write_auth_ext WB A (cp_ExtFlags ?cp) sec (cp_ExtSize ?cp) (?p + ?sz - 2) st5"
    define st7 where "st7 = write_checksum_ext WB cks (cp_flags ?cp) (cp_ExtFlags ?cp) (cp_ExtSize ?cp) (fst (snd st5)) ?p st6"
    define st8 where "st8 = w_at WB ?p (le_bytes 4 NVAR_SIGNATURE) st7"
    define new where "new = (fst st1 \<and> \<not> has (cp_flags ?cp) NVRAM_FLAG_GUID \<and> cp_guid ?cp = NextGuid info)"
    let ?info1 = "if new then info\<lparr>NextGuid := Suc (NextGuid info)\<rparr> else info"
    have lay': "NvramGuidsAddress info + 16 = ?h" "NextGuid info \<le> 256" "?p \<le> ?h"
      using lay(1) by (auto simp: layout_ok_def)
    from False have no: "(2 ^ 64 - 1 - cp_Size ?cp < (length Data + cp_ExtSize ?cp) mod 2 ^ 64) = False"
        "(\<not> IsEnoughSpace info ?sz) = False" by simp_all
    have "(st, info', m') = (case st8 of (ok, p, m8) \<Rightarrow> if ok
        then (EFI_SUCCESS, ?info1\<lparr>pEndOfVars := ?p + ?sz, LastVarSize := ?sz mod 2 ^ 16\<rparr>, m8)
        else (EFI_DEVICE_ERROR, RecoverFromFlashUpdateFailure m8 ?info1 p ?sz ?p, m8))"
      using c unfolding CreateVariable_def CreateVariableEx_def Let_def list.size(3) no if_False
        st8_def st7_def st6_def st5_def st4_def st3_def st2_def st1_def new_def by (rule sym)
    then have r: "(st, info', m') = (if fst st8
        then (EFI_SUCCESS, ?info1\<lparr>pEndOfVars := ?p + ?sz, LastVarSize := ?sz mod 2 ^ 16\<rparr>, snd (snd st8))
        else (EFI_DEVICE_ERROR, RecoverFromFlashUpdateFailure (snd (snd st8)) ?info1 (fst (snd st8)) ?sz ?p, snd (snd st8)))"
      by (simp split: prod.splits)
    let ?Q = "?p + 10 + ?gl + length (name_bytes name) + length Data"
    have Q: "?Q + cp_ExtSize ?cp = ?p + ?sz" using sz0 by simp
    have s1: "wstep ?p ?h m (?p + 10) st1"
      unfolding st1_def by (rule w_adv_step [OF wstepI]) (use lay bound sz0 in auto)
    have s2: "wstep ?p ?h m (?p + 10 + ?gl) st2"
      unfolding st2_def by (rule write_guid_step [OF s1]) (use lay lay' len bound sz0 in auto)
    have s3: "wstep ?p ?h m (?p + 10 + ?gl + length (name_bytes name)) st3"
      unfolding st3_def by (rule write_name_step [OF s2]) (use lay bound sz0 in auto)
    have "wstep ?p ?h m (?p + 10 + ?gl + length (name_bytes name)) (w_adv WB [] st3)"
      by (rule w_adv_step [OF s3]) (use lay bound sz0 in auto)
    with s3 have s4: "wstep ?p ?h m (?p + 10 + ?gl + length (name_bytes name)) st4" by (simp add: st4_def)
    have s5: "wstep ?p ?h m ?Q st5"
      unfolding st5_def by (rule w_adv_step [OF s4]) (use lay bound sz0 in auto)
    have s8: "\<exists>q. wstep ?p ?h m q st8"
    proof (cases "fst st5")
      case False
      then have "st8 = st5" by (simp add: st8_def st7_def st6_def failed_write)
      with s5 show ?thesis by blast
    next
      case True
      with s5 have p1: "fst (snd st5) = ?Q" by (auto simp: wstep_def split: prod.splits)
      have "\<exists>q. wstep ?p ?h m q st6"
        unfolding st6_def by (rule write_auth_ext_step [OF s5]) (use lay bound Q xs x in auto)
      then obtain q where s6: "wstep ?p ?h m q st6" by blast
      have "\<exists>q. wstep ?p ?h m q st7"
        unfolding st7_def p1 by (rule write_checksum_ext_step [OF s6]) (use lay bound Q xs x in auto)
      then obtain q where s7: "wstep ?p ?h m q st7" by blast
      have "wstep ?p ?h m q st8"
        unfolding st8_def by (rule w_at_step [OF s7]) (use lay bound sz0 in auto)
      then show ?thesis by blast
    qed
    have frame: "snd (snd st8) i = m i" if "i < ?p \<or> ?h \<le> i" for i
    proof -
      obtain ok p m8 where e: "st8 = (ok, p, m8)" by (cases st8)
      with s8 obtain q where "wstep ?p ?h m q (ok, p, m8)" by auto
      from wstepD [OF this that] show ?thesis by (simp add: e)
    qed
    have "layout_ok (?info1\<lparr>pEndOfVars := ?p + ?sz, LastVarSize := ?sz mod 2 ^ 16\<rparr>)"
    proof -
      have "NextGuid info < 256" if new
        using that guidflag lay'(2) by (auto simp: new_def)
      with lay(1) bound show ?thesis by (auto simp: layout_ok_def)
    qed
    then have succ: "st = EFI_SUCCESS \<longrightarrow> layout_ok info' \<and> ?p \<le> pEndOfVars info'"
      using r by (simp split: if_splits)
    from r frame have fr: "\<forall>i. i < ?p \<or> ?h \<le> i \<longrightarrow> m' i = m i" by (simp split: if_splits)
    from r succ fr show ?thesis by (simp split: if_splits)
  qed
  then show "i < ?p \<or> ?h \<le> i \<Longrightarrow> m' i = m i"
    "st = EFI_SUCCESS \<Longrightarrow> layout_ok info' \<and> ?p \<le> pEndOfVars info'"
    "st = EFI_SUCCESS \<or> st = EFI_OUT_OF_RESOURCES \<or> st = EFI_DEVICE_ERROR"
    "NvramAddress info' = NvramAddress info" "NvramSize info' = NvramSize info" "pFirstVar info' = pFirstVar info"
    "st = EFI_OUT_OF_RESOURCES \<Longrightarrow> info' = info \<and> m' = m"
    by auto
qed

text \<open>The same for a copied variable; a variable that is not found changes nothing.\<close>

lemma CopyVariable_local:
  assumes c: "CopyVariable WB cks name g n From info m = (st, info', m')"
    and lay: "layout_ok info" "lo \<le> pEndOfVars info" "NvramAddress info + NvramSize info \<le> hi"
    and len: "length g = 16" "n < 2 ^ 31" "length name < 2 ^ 28"
  shows "i < pEndOfVars info \<or> NvramAddress info + NvramSize info \<le> i \<Longrightarrow> m' i = m i"
    "\<not> EFI_ERROR st \<or> st = EFI_NOT_FOUND \<Longrightarrow> layout_ok info' \<and> pEndOfVars info \<le> pEndOfVars info'"
    "NvramAddress info' = NvramAddress info" "NvramSize info' = NvramSize info" "pFirstVar info' = pFirstVar info"
proof -
  let ?a = "\<lparr>ga_VariableName = Some name, ga_VendorGuid = Some g, ga_Attributes = True, ga_DataSize = Some n, ga_Data = True\<rparr>"
  let ?r = "NvGetVariable m ?a From"
  have same: "(\<forall>i. i < pEndOfVars info \<or> NvramAddress info + NvramSize info \<le> i \<longrightarrow> m' i = m i)
    \<and> (\<not> EFI_ERROR st \<or> st = EFI_NOT_FOUND \<longrightarrow> layout_ok info' \<and> pEndOfVars info \<le> pEndOfVars info')
    \<and> NvramAddress info' = NvramAddress info \<and> NvramSize info' = NvramSize info \<and> pFirstVar info' = pFirstVar info"
  proof (cases "gr_Attributes ?r = None \<or> gr_Data ?r = None \<or> gr_Var ?r = None \<or> EFI_ERROR (gr_Status ?r)")
    case True
    with c have "info' = info" "m' = m" by (auto simp: CopyVariable_def Let_def split: option.splits if_splits)
    with lay(1) show ?thesis by simp
  next
    case False
    then obtain A d v where r: "gr_Attributes ?r = Some A" "gr_Data ?r = Some d" "gr_Var ?r = Some v"
      and ok: "\<not> EFI_ERROR (gr_Status ?r)" by auto
    have "length d \<le> n"
      using r(2) NvGetVariable_cases [of ?a name g n m From]
      by (auto simp: gr_fail_def split: option.splits if_splits)
    then have d: "length d < 2 ^ 31" using len(2) by simp
    from c r ok have "CreateVariable WB cks name g A d (Some v) (GetVarAuthExtFlags m (Some v) (Some From) no_ext_flags)
        info m = (st, info', m')"
      by (simp add: CopyVariable_def Let_def)
    note C = CreateVariable_local [OF this lay len(1) d len(3)]
    from C(3) have "\<not> EFI_ERROR st \<or> st = EFI_NOT_FOUND \<Longrightarrow> st = EFI_SUCCESS" by auto
    with C(1,2,4,5,6) show ?thesis by blast
  qed
  then show "i < pEndOfVars info \<or> NvramAddress info + NvramSize info \<le> i \<Longrightarrow> m' i = m i"
    "\<not> EFI_ERROR st \<or> st = EFI_NOT_FOUND \<Longrightarrow> layout_ok info' \<and> pEndOfVars info \<le> pEndOfVars info'"
    "NvramAddress info' = NvramAddress info" "NvramSize info' = NvramSize info" "pFirstVar info' = pFirstVar info"
    by auto
qed

end

lemma name_end_copy:
  "name_copy w m p = Some cs \<Longrightarrow> name_end w m p = Some e \<Longrightarrow> e = p + w * (length cs + 1)"
proof (induction cs arbitrary: p)
  case Nil
  then show ?case
    by (auto simp: name_copy.simps [of w m p] name_end.simps [of w m p] split: if_splits Option.bind_splits)
next
  case (Cons c cs)
  then have "name_char w m p \<noteq> 0" "name_copy w m (p + w) = Some cs" "name_end w m (p + w) = Some e"
    by (auto simp: name_copy.simps [of w m p] name_end.simps [of w m p] split: if_splits Option.bind_splits)
  with Cons.IH [of "p + w"] show ?case by simp
qed

text \<open>A name that was returned fits the buffer, and its GUID has sixteen bytes.\<close>

lemma NvGetNextVariableName_sizes:
  assumes "NvGetNextVariableName m \<lparr>na_VariableNameSize = Some sz, na_VariableName = Some nm, na_VendorGuid = Some gd\<rparr>
      info rt = Some (EFI_SUCCESS, a, info')"
  shows "2 * (length (the (na_VariableName a)) + 1) \<le> sz" "length (the (na_VendorGuid a)) = 16"
    "info' = info\<lparr>pLastReturned := pLastReturned info'\<rparr>"
proof -
  obtain st i1 q where n: "NvGetNextVariableNvar m (Some nm) (Some gd) info rt = (st, i1, q)"
    by (metis prod_cases3)
  have i1: "i1 = info\<lparr>pLastReturned := pLastReturned i1\<rparr>"
    using n by (auto simp: NvGetNextVariableNvar_def split: option.splits if_splits)
  from assms n have "st = EFI_SUCCESS"
    by (auto simp: NvGetNextVariableName_def split: if_splits)
  with assms n have g: "NvGetNameFromNvar m q \<lparr>na_VariableNameSize = Some sz, na_VariableName = Some nm,
      na_VendorGuid = Some gd\<rparr> i1 = Some (EFI_SUCCESS, a, info')"
    by (simp add: NvGetNextVariableName_def)
  then obtain p e cs where p: "q = Some p" "name_end (name_width m p) m (NvGetName m p) = Some e"
      "name_copy (name_width m p) m (NvGetName m p) = Some cs"
      "(if has (nvar_flags m p) NVRAM_FLAG_ASCII_NAME then (e - NvGetName m p) * 2 else e - NvGetName m p) \<le> sz"
      "na_VariableName a = Some cs" "na_VendorGuid a = Some (rd_bytes m (NvGetGuid m p i1) sizeof_GUID)"
      "info' = i1\<lparr>pLastReturned := Some p\<rparr>"
    by (auto simp: NvGetNameFromNvar_def Let_def split: option.splits Option.bind_splits if_splits)
  from name_end_copy [OF p(3,2)] p(4) show "2 * (length (the (na_VariableName a)) + 1) \<le> sz"
    by (simp add: p(5) name_width_def split: if_splits)
  show "length (the (na_VendorGuid a)) = 16" by (simp add: p(6) sizeof_GUID_def)
  from i1 p(7) show "info' = info\<lparr>pLastReturned := pLastReturned info'\<rparr>" by (cases i1; cases info) auto
qed

context local_writer
begin

text \<open>The copy of all variables only changes bytes from the end of the records on.\<close>

lemma CopyVariables_loop_frame:
  assumes wb: "ce_WB ce = WB" and sz: "sz < 2 ^ 24"
  shows "CopyVariables_loop ce sv sz n g info New m = Some (st, info', New', m') \<Longrightarrow>
    layout_ok New \<Longrightarrow> lo \<le> pEndOfVars New \<Longrightarrow> NvramAddress New + NvramSize New \<le> hi \<Longrightarrow>
    (\<forall>i. i < pEndOfVars New \<or> NvramAddress New + NvramSize New \<le> i \<longrightarrow> m' i = m i)
    \<and> NvramAddress New' = NvramAddress New \<and> NvramSize New' = NvramSize New \<and> pFirstVar New' = pFirstVar New"
proof -
  define P where "P = (\<lambda>(ce' :: copy_env) (sv' :: bool) (sz' :: nat) (n' :: char16 list) (g' :: u8 list) (i' :: NVRAM_STORE_INFO) (N :: NVRAM_STORE_INFO) mm r.
    ce' = ce \<longrightarrow> sz' = sz \<longrightarrow> layout_ok N \<longrightarrow> lo \<le> pEndOfVars N \<longrightarrow> NvramAddress N + NvramSize N \<le> hi \<longrightarrow>
    (case r of (st :: efi_status, ri :: NVRAM_STORE_INFO, N' :: NVRAM_STORE_INFO, m') \<Rightarrow>
      (\<forall>i. i < pEndOfVars N \<or> NvramAddress N + NvramSize N \<le> i \<longrightarrow> m' i = (mm :: memory) i)
      \<and> NvramAddress N' = NvramAddress N \<and> NvramSize N' = NvramSize N \<and> pFirstVar N' = pFirstVar N))"
  have "P ce sv sz n g info New m (st, info', New', m')"
    if "CopyVariables_loop ce sv sz n g info New m = Some (st, info', New', m')"
  proof (rule CopyVariables_loop.raw_induct [OF _ that, where P = P])
    fix loop :: "copy_env \<Rightarrow> bool \<Rightarrow> nat \<Rightarrow> char16 list \<Rightarrow> u8 list \<Rightarrow> NVRAM_STORE_INFO \<Rightarrow> NVRAM_STORE_INFO \<Rightarrow> memory
         \<Rightarrow> (efi_status \<times> NVRAM_STORE_INFO \<times> NVRAM_STORE_INFO \<times> memory) option"
    fix ce' sv' sz' nm gd i N mm r
    assume IH: "\<And>ce sv sz n g info New m y. loop ce sv sz n g info New m = Some y \<Longrightarrow> P ce sv sz n g info New m y"
      and step: "Option.bind (NvGetNextVariableName mm (\<lparr>na_VariableNameSize = Some sz', na_VariableName = Some nm, na_VendorGuid = Some gd\<rparr>) i False)
       (\<lambda>(Status, a, info').
          if EFI_ERROR Status
          then Some (if Status = EFI_NOT_FOUND then EFI_SUCCESS else Status, info', N, mm)
          else
            let name = the (na_VariableName a); guid = the (na_VendorGuid a) in
            if copy_skips ce' sv' name guid info' mm
            then loop ce' sv' sz' name guid info' N mm
            else
              let r = CopyVariable (ce_WB ce') (ce_cks ce') name guid sz' info' N mm in
              if EFI_ERROR (fst r) \<and> fst r \<noteq> EFI_NOT_FOUND
              then Some (fst r, info', fst (snd r), snd (snd r))
              else loop ce' sv' sz' name guid info' (fst (snd r)) (snd (snd r))) = Some r"
    show "P ce' sv' sz' nm gd i N mm r"
      unfolding P_def
    proof (intro impI)
      assume a: "ce' = ce" "sz' = sz" and lay: "layout_ok N" "lo \<le> pEndOfVars N" "NvramAddress N + NvramSize N \<le> hi"
      from step obtain Status aa i2 where nx: "NvGetNextVariableName mm
          (\<lparr>na_VariableNameSize = Some sz', na_VariableName = Some nm, na_VendorGuid = Some gd\<rparr>) i False = Some (Status, aa, i2)"
        by (auto split: Option.bind_splits)
      let ?n = "the (na_VariableName aa)" and ?g = "the (na_VendorGuid aa)"
      show "case r of (st, ri, N', m') \<Rightarrow>
        (\<forall>i. i < pEndOfVars N \<or> NvramAddress N + NvramSize N \<le> i \<longrightarrow> m' i = mm i)
        \<and> NvramAddress N' = NvramAddress N \<and> NvramSize N' = NvramSize N \<and> pFirstVar N' = pFirstVar N"
      proof (cases "EFI_ERROR Status")
        case True
        with step nx show ?thesis by auto
      next
        case False
        show ?thesis
        proof (cases "copy_skips ce' sv' ?n ?g i2 mm")
          case True
          with step nx False have "loop ce' sv' sz' ?n ?g i2 N mm = Some r" by (simp add: Let_def)
          from IH [OF this] a lay show ?thesis by (auto simp: P_def)
        next
          case sk: False
          obtain st1 N1 m1 where c: "CopyVariable (ce_WB ce') (ce_cks ce') ?n ?g sz' i2 N mm = (st1, N1, m1)"
            by (metis prod_cases3)
          from False have "Status = EFI_SUCCESS" by (simp add: EFI_ERROR_def)
          with nx have len: "2 * (length ?n + 1) \<le> sz'" "length ?g = 16"
            using NvGetNextVariableName_sizes [of mm sz' nm gd i False aa i2] by simp_all
          note L = CopyVariable_local [OF c [unfolded a wb] lay len(2) _ _]
          have s: "sz < 2 ^ 31" "length ?n < 2 ^ 28" using sz len(1) a(2) by simp_all
          note L = L [OF s]
          show ?thesis
          proof (cases "EFI_ERROR st1 \<and> st1 \<noteq> EFI_NOT_FOUND")
            case True
            with step nx False sk c L show ?thesis by (auto simp: Let_def)
          next
            case go: False
            with step nx False sk c have "loop ce' sv' sz' ?n ?g i2 N1 m1 = Some r" by (auto simp: Let_def)
            from IH [OF this] have p: "P ce' sv' sz' ?n ?g i2 N1 m1 r" .
            from go L(2) have g1: "layout_ok N1" "pEndOfVars N \<le> pEndOfVars N1" by auto
            with p a lay L(3-5) have "case r of (st, ri, N', m') \<Rightarrow>
              (\<forall>i. i < pEndOfVars N1 \<or> NvramAddress N1 + NvramSize N1 \<le> i \<longrightarrow> m' i = m1 i)
              \<and> NvramAddress N' = NvramAddress N1 \<and> NvramSize N' = NvramSize N1 \<and> pFirstVar N' = pFirstVar N1"
              unfolding P_def by (auto simp: split: prod.splits)
            with L(1,3-5) g1 show ?thesis by (auto split: prod.splits)
          qed
        qed
      qed
    qed
  qed
  then show "CopyVariables_loop ce sv sz n g info New m = Some (st, info', New', m') \<Longrightarrow>
    layout_ok New \<Longrightarrow> lo \<le> pEndOfVars New \<Longrightarrow> NvramAddress New + NvramSize New \<le> hi \<Longrightarrow>
    (\<forall>i. i < pEndOfVars New \<or> NvramAddress New + NvramSize New \<le> i \<longrightarrow> m' i = m i)
    \<and> NvramAddress New' = NvramAddress New \<and> NvramSize New' = NvramSize New \<and> pFirstVar New' = pFirstVar New"
    by (simp add: P_def)
qed

lemma CopyVariables_frame:
  assumes wb: "ce_WB ce = WB" and sz: "NvramSize info < 2 ^ 24"
    and c: "CopyVariables ce Malloc info New b m = Some (st, info', New', b', m')"
    and lay: "layout_ok New" "lo \<le> pEndOfVars New" "NvramAddress New + NvramSize New \<le> hi"
  shows "i < pEndOfVars New \<or> NvramAddress New + NvramSize New \<le> i \<Longrightarrow> m' i = m i"
    "NvramAddress New' = NvramAddress New" "NvramSize New' = NvramSize New"
proof -
  obtain T b1 where a: "SelectiveAllocate Malloc True (NvramSize info * 2) b = (T, b1)" by fastforce
  have "(\<forall>i. i < pEndOfVars New \<or> NvramAddress New + NvramSize New \<le> i \<longrightarrow> m' i = m i)
    \<and> NvramAddress New' = NvramAddress New \<and> NvramSize New' = NvramSize New"
  proof (cases T)
    case None
    with c a show ?thesis by (simp add: CopyVariables_def)
  next
    case (Some T')
    with c a obtain i2 where "CopyVariables_loop ce (SaveOnlyPreservedVars b) (NvramSize info) [] [] info New m
        = Some (st, i2, New', m')"
      by (auto simp: CopyVariables_def)
    from CopyVariables_loop_frame [OF wb sz this lay] show ?thesis by simp
  qed
  then show "i < pEndOfVars New \<or> NvramAddress New + NvramSize New \<le> i \<Longrightarrow> m' i = m i"
    "NvramAddress New' = NvramAddress New" "NvramSize New' = NvramSize New" by auto
qed

text \<open>The copy of a store changes the destination only; if it succeeds the header has been written and
  stays as written.\<close>

lemma CopyVarStore_frame:
  assumes wb: "ce_WB ce = WB" and sz: "NvramSize info < 2 ^ 24"
    and eb: "\<forall>ok b1 m1 i. EB (NvramAddress New) (NvramSize New) (b, m) = (ok, b1, m1) \<longrightarrow>
      i < NvramAddress New \<or> NvramAddress New + NvramSize New \<le> i \<longrightarrow> m1 i = m i"
    and c: "CopyVarStore ce EB Malloc H info New b m = Some (st, info', New', b', m')"
    and lay: "0x2000 \<le> NvramAddress New" "NvramAddress New + NvramSize New < 2 ^ 63" "NvramSize New < 2 ^ 24"
      "NvramGuidsAddress New + 16 = NvramAddress New + NvramSize New" "H \<le> NvramSize New"
      "lo \<le> NvramAddress New" "NvramAddress New + NvramSize New \<le> hi"
  shows "i < NvramAddress New \<or> NvramAddress New + NvramSize New \<le> i \<Longrightarrow> m' i = m i"
    "NvramAddress New' = NvramAddress New" "NvramSize New' = NvramSize New"
    "\<not> EFI_ERROR st \<Longrightarrow> \<exists>m1 m2. (\<forall>i. i < NvramAddress New \<or> NvramAddress New + NvramSize New \<le> i \<longrightarrow> m1 i = m i)
      \<and> WB (NvramAddress New) (rd_bytes m1 (NvramAddress info) H) m1 = (True, m2)
      \<and> (\<forall>i < NvramAddress New + H. m' i = m2 i)"
proof -
  let ?A = "NvramAddress New" and ?E = "NvramAddress New + NvramSize New"
  let ?New1 = "New\<lparr>pFirstVar := ?A + H, pEndOfVars := ?A + H, LastVarSize := 0, pLastReturned := None, NextGuid := 0\<rparr>"
  obtain ok1 b1 m1 where e: "EB ?A (NvramSize New) (b, m) = (ok1, b1, m1)" by (metis prod_cases3)
  have f1: "m1 i = m i" if "i < ?A \<or> ?E \<le> i" for i using eb e that by blast
  obtain ok2 m2 where w: "WB ?A (rd_bytes m1 (NvramAddress info) H) m1 = (ok2, m2)" by fastforce
  have f2: "m2 i = m1 i" if "i < ?A \<or> ?A + H \<le> i" for i
    using local [OF _ _ w, of i] lay that by auto
  consider (rt) "Runtime b \<and> NvramDriverBuffer b = 0" | (er) "\<not> (Runtime b \<and> NvramDriverBuffer b = 0)" "\<not> ok1"
    | (hd) "\<not> (Runtime b \<and> NvramDriverBuffer b = 0)" ok1 "\<not> ok2"
    | (go) "\<not> (Runtime b \<and> NvramDriverBuffer b = 0)" ok1 ok2 by blast
  then have *: "(\<forall>i. i < ?A \<or> ?E \<le> i \<longrightarrow> m' i = m i) \<and> NvramAddress New' = ?A \<and> NvramSize New' = NvramSize New
    \<and> (\<not> EFI_ERROR st \<longrightarrow> (\<exists>m1 m2. (\<forall>i. i < ?A \<or> ?E \<le> i \<longrightarrow> m1 i = m i)
      \<and> WB ?A (rd_bytes m1 (NvramAddress info) H) m1 = (True, m2) \<and> (\<forall>i < ?A + H. m' i = m2 i)))"
  proof cases
    case rt
    with c show ?thesis by (auto simp: CopyVarStore_def)
  next
    case er
    with c e have "st = EFI_DEVICE_ERROR" "New' = ?New1" "m' = m1" by (auto simp: CopyVarStore_def Let_def)
    with f1 show ?thesis by simp
  next
    case hd
    with c e w wb have "st = EFI_DEVICE_ERROR" "New' = ?New1" "m' = m2" by (auto simp: CopyVarStore_def Let_def)
    with f1 f2 lay show ?thesis by auto
  next
    case go
    with c e w wb have cv: "CopyVariables ce Malloc info ?New1 b1 m2 = Some (st, info', New', b', m')"
      by (simp add: CopyVarStore_def Let_def)
    have "layout_ok ?New1" "lo \<le> pEndOfVars ?New1" "NvramAddress ?New1 + NvramSize ?New1 \<le> hi"
      using lay by (auto simp: layout_ok_def)
    note F = CopyVariables_frame [OF wb sz cv this]
    have "m' i = m2 i" if "i < ?A + H \<or> ?E \<le> i" for i using F(1) [of i] that by simp
    with F(2,3) f1 f2 w go lay show ?thesis by (intro conjI allI impI exI [of _ m1] exI [of _ m2]) auto
  qed
  show "i < ?A \<or> ?E \<le> i \<Longrightarrow> m' i = m i" using * by blast
  show "NvramAddress New' = ?A" "NvramSize New' = NvramSize New"
    "\<not> EFI_ERROR st \<Longrightarrow> \<exists>m1 m2. (\<forall>i. i < ?A \<or> ?E \<le> i \<longrightarrow> m1 i = m i)
      \<and> WB ?A (rd_bytes m1 (NvramAddress info) H) m1 = (True, m2) \<and> (\<forall>i < ?A + H. m' i = m2 i)" using * by simp_all
qed

end

interpretation memw: local_writer MemProgram lo hi for lo hi :: nat
  by unfold_locales (auto simp: MemProgram_def wr_bytes_def)

section \<open>The writers of the driver\<close>

text \<open>The hybrid interface goes straight to the flash part outside the store it mirrors.\<close>

definition apart :: "nat \<Rightarrow> nat \<Rightarrow> nat \<Rightarrow> bool" where
  "apart n a b \<longleftrightarrow> a + n \<le> b \<or> b + n \<le> a"

lemma outside_delta:
  assumes "NvInfo vs = Some k" and "apart S (NvramAddress (NvramInfo vs ! k)) B" and "NvramSize (NvramInfo vs ! k) = S"
    and "B \<le> a" "a + n \<le> B + S" "0 < n"
  shows "HybridGetAddressDelta vs a n = 0"
  using assms by (auto simp: HybridGetAddressDelta_def apart_def Let_def)

lemma outside_write:
  assumes "NvInfo vs = Some k" and "apart S (NvramAddress (NvramInfo vs ! k)) B" and "NvramSize (NvramInfo vs ! k) = S"
    and "B \<le> a" "a + length bs \<le> B + S" "B + S < 2 ^ 64"
  shows "WriteBytes ne vs HybridInterface a bs m = NvProgram (ne_dev ne) a (ne_src ne) bs m"
proof (cases "bs = []")
  case True
  then show ?thesis by (simp add: WriteBytes_def HybridProgram_def MemProgram_def Let_def)
next
  case False
  then have "HybridGetAddressDelta vs a (length bs) = 0" using outside_delta [OF assms(1-5)] by simp
  moreover have "uintn_add 0 a = a" using False assms(5,6) by (cases bs) (auto simp: uintn_add_def)
  ultimately show ?thesis by (simp add: WriteBytes_def HybridProgram_def Let_def split: prod.splits)
qed

lemma hybrid_local:
  assumes "flash_device (ne_dev ne)" and "NvInfo vs = Some k" and "apart S (NvramAddress (NvramInfo vs ! k)) B"
    and "NvramSize (NvramInfo vs ! k) = S" "B + S < 2 ^ 64"
  shows "local_writer (WriteBytes ne vs HybridInterface) B (B + S)"
proof
  fix a m m' ok i and bs :: "u8 list"
  assume "B \<le> a" "a + length bs \<le> B + S" "WriteBytes ne vs HybridInterface a bs m = (ok, m')" "i < a \<or> a + length bs \<le> i"
  then show "m' i = m i"
    using outside_write [OF assms(2-4) _ _ assms(5)] flash_device.NvProgram_frame [OF assms(1)] by metis
qed

lemma hybrid_erase_local:
  assumes "flash_device (ne_dev ne)" and "NvInfo vs = Some k" and "apart S (NvramAddress (NvramInfo vs ! k)) B"
    and "NvramSize (NvramInfo vs ! k) = S" "B + S < 2 ^ 64" "0 < S" "B mod FlashBlockSize = 0" "S mod FlashBlockSize = 0"
    and e: "EraseBytes ne vs HybridInterface B S (b, m) = (ok, b', m')" and i: "i < B \<or> B + S \<le> i"
  shows "m' i = m i"
proof -
  have "HybridGetAddressDelta vs B S = 0" using outside_delta [OF assms(2-4), of B S] assms(6) by simp
  moreover have "uintn_add 0 B = B" using assms(5) by (simp add: uintn_add_def)
  ultimately have n: "NvErase (ne_dev ne) (ne_TmpPool ne) B S (b, m) = (ok, b', m')"
    using e by (simp add: EraseBytes_def HybridErase_def Let_def split: prod.splits)
  note h = block_hull_aligned [OF assms(6,5,7,8)]
  show ?thesis using flash_device.NvErase_hull_frame [OF assms(1) n assms(5), of i] i by (simp only: h)
qed

text \<open>A flash part that programs a single byte completely or not at all, as far as it clears bits.\<close>

locale atomic_flash = flash_device +
  assumes program_byte:
    "programmable_byte (m a) b \<Longrightarrow> FlashProgram dev a [b] m = (ok, m') \<Longrightarrow> m' a = m a \<or> m' a = b"
begin

lemma NvProgram_byte:
  assumes "programmable_byte (m a) b" and p: "NvProgram dev a src [b] m = (ok, m')"
  shows "m' a = m a \<or> m' a = b" "ok \<Longrightarrow> m' a = b" "i \<noteq> a \<Longrightarrow> m' i = m i"
proof -
  have c: "checked_part a src [b] = [b]" by (intro checked_part_all) simp
  show "m' a = m a \<or> m' a = b"
    using p program_byte [of m a b, OF assms(1)] by (auto simp: NvProgram_def Let_def split: if_splits prod.splits)
  show "ok \<Longrightarrow> m' a = b" using p NvProgram_success [of dev a src "[b]" m m'] c by (cases ok) (simp_all add: rd_bytes_Suc rd_bytes_0)
  show "i \<noteq> a \<Longrightarrow> m' i = m i" using NvProgram_frame [OF p, of i] by (cases "i < a") auto
qed

lemma hybrid_byte:
  assumes "hybrid_ok vs" "in_store vs a 1" "programmable_byte (m (flash_of vs a)) b" "ne_dev ne = dev"
    and w: "WriteBytes ne vs HybridInterface a [b] m = (ok, m')"
  shows "m' (flash_of vs a) = m (flash_of vs a) \<or> m' (flash_of vs a) = b" "ok \<Longrightarrow> m' (flash_of vs a) = b"
    "i \<noteq> a \<Longrightarrow> i \<noteq> flash_of vs a \<Longrightarrow> m' i = m i"
proof -
  note d = hybrid_delta [OF assms(1,2)]
  have ne: "flash_of vs a \<noteq> a"
    using assms(1,2) by (auto simp: hybrid_ok_def in_store_def flash_of_def Let_def split: option.splits)
  obtain ok1 m1 where p: "NvProgram dev (flash_of vs a) (ne_src ne) [b] m = (ok1, m1)" by fastforce
  note P = NvProgram_byte [OF assms(3) p]
  have wr: "wr_bytes m1 a [c] = m1(a := c)" "rd_bytes m1 x (Suc 0) = [m1 x]" for c x
    by (auto simp: wr_bytes_def rd_bytes_Suc rd_bytes_0)
  have m': "ok = ok1 \<and> (\<exists>c. m' = m1(a := c))"
    using w p d assms(4)
    by (auto simp: WriteBytes_def HybridProgram_def MemProgram_def wr Let_def numeral_eq_Suc split: if_splits)
  with P ne show "m' (flash_of vs a) = m (flash_of vs a) \<or> m' (flash_of vs a) = b" "ok \<Longrightarrow> m' (flash_of vs a) = b"
    "i \<noteq> a \<Longrightarrow> i \<noteq> flash_of vs a \<Longrightarrow> m' i = m i" by auto
qed

end

interpretation nora: atomic_flash nor_dev
  by unfold_locales (auto simp: nor_dev_def nor_program_def wr_bytes_def programmable_and numeral_eq_Suc)

section \<open>The exchange of the stores\<close>

text \<open>The stores of an update: \<open>Info\<close> is the memory copy of the store in flash at \<open>NvramFlashAddress\<close>,
  \<open>New\<close> the rewritten store in memory, the backup area takes it.  All three headers are complete and the
  store in use has the state \<^verbatim>\<open>EFI_FILE_DATA_VALID\<close> alone.\<close>

definition ft_regions :: "VARSTORE_INFO \<Rightarrow> NVRAM_STORE_INFO \<Rightarrow> NVRAM_STORE_INFO \<Rightarrow> nat \<Rightarrow> bool" where
  "ft_regions vs Info New B \<longleftrightarrow>
     (let S = NvramSize Info; N = NvramAddress Info; F = NvramFlashAddress vs; A = NvramAddress New
      in apart S N B \<and> apart S F B \<and> apart S A B \<and> apart S A F \<and> apart S A N
         \<and> NvramSize New = S \<and> 0x2000 \<le> B \<and> B + S < 2 ^ 63 \<and> S < 2 ^ 24
         \<and> B mod FlashBlockSize = 0 \<and> S mod FlashBlockSize = 0)"

definition state_addr :: "NVRAM_STORE_INFO \<Rightarrow> nat \<Rightarrow> nat" where
  "state_addr Info H = NvramAddress Info + H - 1"

definition ft_ok :: "VARSTORE_INFO \<Rightarrow> NVRAM_STORE_INFO \<Rightarrow> NVRAM_STORE_INFO \<Rightarrow> nat \<Rightarrow> nat \<Rightarrow> memory \<Rightarrow> bool" where
  "ft_ok vs Info New B src m \<longleftrightarrow>
     ft_regions vs Info New B \<and> hybrid_ok vs \<and> mirror vs m \<and> BackupAddress vs = Some B
     \<and> NvramAddress (NvramInfo vs ! the (NvInfo vs)) = NvramAddress Info
     \<and> NvramSize (NvramInfo vs ! the (NvInfo vs)) = NvramSize Info
     \<and> HeaderLength_offset + 3 \<le> vs_HeaderLength vs \<and> vs_HeaderLength vs \<le> NvramSize Info
     \<and> (src mod 8 \<noteq> 0 \<or> vs_HeaderLength vs mod 8 = 0)
     \<and> header_ok m Info (vs_HeaderLength vs) \<and> header_ok m New (vs_HeaderLength vs)
     \<and> m (state_addr Info (vs_HeaderLength vs)) = 0xF8"

text \<open>The header of a store, wherever it lies.\<close>

lemma header_shift:
  assumes h: "header_ok m I H" and H: "51 \<le> H" "H < 2 ^ 64" and sz: "NvramSize J = NvramSize I"
    and e: "\<And>k. k + 1 < H \<Longrightarrow> m' (NvramAddress J + k) = m (NvramAddress I + k)"
  shows "header_ok m' J H"
proof -
  have r: "rd n m' (NvramAddress J + k) = rd n m (NvramAddress I + k)" if "k + n < H" for n k
  proof -
    have "rd_bytes m' (NvramAddress J + k) n = rd_bytes m (NvramAddress I + k) n"
      using that by (intro nth_equalityI) (auto simp: add.assoc intro!: e)
    then show ?thesis by (simp add: rd_def)
  qed
  show ?thesis
    using h H r [of 40 4] r [of 32 8] r [of 48 2] sz by (simp add: header_ok_def nv_consts)
qed

lemma header_state:
  assumes "header_ok m I H" "51 \<le> H" "H < 2 ^ 64"
  shows "GetNvramFfsFileStatePtr m I = Some (state_addr I H)"
    "GetNvramFfsFileState m I = (if NOT (m (state_addr I H)) = 0 then EFI_FILE_HEADER_INVALID else NOT (m (state_addr I H)))"
proof -
  have "uintn_sub H 24 = H - 24" using assms by (intro uintn_sub_le) auto
  with assms show p: "GetNvramFfsFileStatePtr m I = Some (state_addr I H)"
    by (auto simp: GetNvramFfsFileStatePtr_def header_ok_def state_addr_def nv_consts)
  then show "GetNvramFfsFileState m I = (if NOT (m (state_addr I H)) = 0 then EFI_FILE_HEADER_INVALID else NOT (m (state_addr I H)))"
    by (simp add: GetNvramFfsFileState_def Let_def)
qed

text \<open>The state bytes of an update: \<open>0xF8\<close> and \<open>0xF0\<close> for the store in use, \<open>0xFC\<close> and \<open>0xF8\<close> for the
  completed backup.\<close>

lemma update_states:
  "NOT (0xF8 :: u8) = 7" "NOT (0xF0 :: u8) = 15" "NOT (0xFC :: u8) = 3"
  "NOT EFI_FILE_MARKED_FOR_UPDATE AND 0xF8 = 0xF0" "NOT EFI_FILE_DATA_VALID AND 0xFC = 0xF8"
  "NOT (EFI_FILE_HEADER_CONSTRUCTION OR EFI_FILE_HEADER_VALID) = 0xFC"
  "ffs_main_valid 7 x" "ffs_main_valid 15 3" "\<not> ffs_main_valid 15 7" "ffs_backup_valid 7"
  by (simp_all add: ffs_main_valid_def ffs_backup_valid_def nv_consts)

lemma NvInitInfoBuffer_simps [simp]:
  "NvramAddress (NvInitInfoBuffer m a h f) = NvramAddress a" "NvramSize (NvInitInfoBuffer m a h f) = NvramSize a"
  "NvramGuidsAddress (NvInitInfoBuffer m a h f) = NvramAddress a + NvramSize a - 16"
  by (simp_all add: NvInitInfoBuffer_def Let_def sizeof_GUID_def split: option.splits)

text \<open>The copy that an update makes into the backup area.\<close>

definition backup_copy where
  "backup_copy ne vs Info New b m =
     CopyVarStore (copy_env_of ne vs HybridInterface None) (EraseBytes ne vs HybridInterface) (ne_TmpPool ne)
       (vs_HeaderLength vs) New
       (NvInitInfoBuffer m (Info\<lparr>NvramAddress := the_addr (BackupAddress vs)\<rparr>) (vs_HeaderLength vs) (Flags Info)) b
       (m(state_addr New (vs_HeaderLength vs) := 0xFC))"

lemma write_backup_store_steps:
  assumes h: "header_ok m New (vs_HeaderLength vs)" "51 \<le> vs_HeaderLength vs" "vs_HeaderLength vs < 2 ^ 64"
    and r: "write_backup_store ne HybridInterface Info New vs b m = Some (st, Backup', New', b', m')"
  obtains st2 m2 where "backup_copy ne vs Info New b m = Some (st2, New', Backup', b', m2)"
    "EFI_ERROR st2 \<Longrightarrow> st = st2 \<and> m' = m2"
    "\<not> EFI_ERROR st2 \<Longrightarrow> \<exists>st3 m3. SetNvramFfsFileState (WriteBytes ne vs HybridInterface) Info EFI_FILE_MARKED_FOR_UPDATE m2
        = (st3, m3) \<and> (if EFI_ERROR st3 then st = st3 \<and> m' = m3
          else SetNvramFfsFileState (WriteBytes ne vs HybridInterface) Backup' EFI_FILE_DATA_VALID m3 = (st, m'))"
proof -
  have "ResetFfsFileStateInMemory New (EFI_FILE_HEADER_CONSTRUCTION OR EFI_FILE_HEADER_VALID) m
      = (EFI_SUCCESS, m(state_addr New (vs_HeaderLength vs) := 0xFC))"
    using header_state(1) [OF h] update_states(6) by (simp add: ResetFfsFileStateInMemory_def Let_def)
  then have "Option.bind (backup_copy ne vs Info New b m) (\<lambda>(st2, New2, Backup2, b2, m2).
        if EFI_ERROR st2 then Some (st2, Backup2, New2, b2, m2)
        else
          let (st3, m3) = SetNvramFfsFileState (WriteBytes ne vs HybridInterface) Info EFI_FILE_MARKED_FOR_UPDATE m2
          in if EFI_ERROR st3 then Some (st3, Backup2, New2, b2, m3)
             else let (st4, m4) = SetNvramFfsFileState (WriteBytes ne vs HybridInterface) Backup2 EFI_FILE_DATA_VALID m3
                  in Some (st4, Backup2, New2, b2, m4)) = Some (st, Backup', New', b', m')"
    using r by (simp add: write_backup_store_def Let_def backup_copy_def)
  then obtain st2 New2 Backup2 b2 m2 where c: "backup_copy ne vs Info New b m = Some (st2, New2, Backup2, b2, m2)"
    and s: "(if EFI_ERROR st2 then Some (st2, Backup2, New2, b2, m2)
        else
          let (st3, m3) = SetNvramFfsFileState (WriteBytes ne vs HybridInterface) Info EFI_FILE_MARKED_FOR_UPDATE m2
          in if EFI_ERROR st3 then Some (st3, Backup2, New2, b2, m3)
             else let (st4, m4) = SetNvramFfsFileState (WriteBytes ne vs HybridInterface) Backup2 EFI_FILE_DATA_VALID m3
                  in Some (st4, Backup2, New2, b2, m4)) = Some (st, Backup', New', b', m')"
    by (cases "backup_copy ne vs Info New b m") auto
  from s have e: "New2 = New'" "Backup2 = Backup'" "b2 = b'"
    by (auto simp: Let_def split: if_splits prod.splits)
  show thesis
    by (rule that [OF c [unfolded e]]) (use s in \<open>auto simp: e Let_def split: if_splits prod.splits\<close>)
qed

text \<open>What the copy leaves behind: nothing outside the backup area and the state byte of \<open>New\<close> has
  changed, and after a successful copy the backup has a complete header with the state \<open>0xFC\<close>.\<close>

lemma backup_copy_frame:
  assumes dev: "flash_device (ne_dev ne)" and ok: "ft_ok vs Info New B (ne_src ne) m"
    and c: "backup_copy ne vs Info New b m = Some (st, New', Backup', b', m')"
  defines "H \<equiv> vs_HeaderLength vs"
  shows "i < B \<or> B + NvramSize Info \<le> i \<Longrightarrow> i \<noteq> state_addr New H \<Longrightarrow> m' i = m i"
    "NvramAddress Backup' = B" "NvramSize Backup' = NvramSize Info"
    "\<not> EFI_ERROR st \<Longrightarrow> header_ok m' Backup' H \<and> m' (state_addr Backup' H) = 0xFC"
proof -
  let ?S = "NvramSize Info" and ?W = "WriteBytes ne vs HybridInterface" and ?A = "NvramAddress New"
  let ?m0 = "m(state_addr New H := 0xFC)"
  let ?N = "NvInitInfoBuffer m (Info\<lparr>NvramAddress := B\<rparr>) H (Flags Info)"
  from ok obtain k where k: "NvInfo vs = Some k" "NvramSize (NvramInfo vs ! k) = ?S"
      "apart ?S (NvramAddress (NvramInfo vs ! k)) B"
    by (auto simp: ft_ok_def ft_regions_def hybrid_ok_def Let_def split: option.splits)
  from ok have B: "the_addr (BackupAddress vs) = B" "0x2000 \<le> B" "B + ?S < 2 ^ 63" "?S < 2 ^ 24" "NvramSize New = ?S"
      "B mod FlashBlockSize = 0" "?S mod FlashBlockSize = 0" "apart ?S ?A B" "51 \<le> H" "H \<le> ?S"
      "ne_src ne mod 8 \<noteq> 0 \<or> H mod 8 = 0" "header_ok m New H"
    by (auto simp: ft_ok_def ft_regions_def Let_def the_addr_def nv_consts H_def)
  have S: "0 < ?S" "B + ?S < 2 ^ 64" using B(3,9,10) by auto
  have cw: "ce_WB (copy_env_of ne vs HybridInterface None) = ?W" by (simp add: copy_env_of_def)
  have cv: "CopyVarStore (copy_env_of ne vs HybridInterface None) (EraseBytes ne vs HybridInterface) (ne_TmpPool ne)
      H New ?N b ?m0 = Some (st, New', Backup', b', m')"
    using c B(1) by (simp add: backup_copy_def H_def)
  have eb: "\<forall>ok b1 m1 i. EraseBytes ne vs HybridInterface (NvramAddress ?N) (NvramSize ?N) (b, ?m0) = (ok, b1, m1) \<longrightarrow>
      i < NvramAddress ?N \<or> NvramAddress ?N + NvramSize ?N \<le> i \<longrightarrow> m1 i = ?m0 i"
  proof (intro allI impI)
    fix ok b1 m1 i
    assume "EraseBytes ne vs HybridInterface (NvramAddress ?N) (NvramSize ?N) (b, ?m0) = (ok, b1, m1)"
      "i < NvramAddress ?N \<or> NvramAddress ?N + NvramSize ?N \<le> i"
    then show "m1 i = ?m0 i"
      using hybrid_erase_local [OF dev k(1,3,2) S(2,1) B(6,7), of b ?m0 ok b1 m1 i] by simp
  qed
  have l: "NvramSize New < 2 ^ 24" "0x2000 \<le> NvramAddress ?N" "NvramAddress ?N + NvramSize ?N < 2 ^ 63" "NvramSize ?N < 2 ^ 24"
      "NvramGuidsAddress ?N + 16 = NvramAddress ?N + NvramSize ?N" "H \<le> NvramSize ?N"
      "B \<le> NvramAddress ?N" "NvramAddress ?N + NvramSize ?N \<le> B + ?S"
    using B S by auto
  note L = local_writer.CopyVarStore_frame [OF hybrid_local [OF dev k(1,3,2) S(2)] cw l(1) eb cv l(2-8), simplified]
  show "i < B \<or> B + ?S \<le> i \<Longrightarrow> i \<noteq> state_addr New H \<Longrightarrow> m' i = m i"
    "NvramAddress Backup' = B" "NvramSize Backup' = ?S"
    using L(1) [of i] L(2,3) by auto
  assume "\<not> EFI_ERROR st"
  then obtain m1 m2 where m1: "\<forall>i. i < B \<or> B + ?S \<le> i \<longrightarrow> m1 i = ?m0 i"
    and w: "?W B (rd_bytes m1 ?A H) m1 = (True, m2)" and m2: "\<forall>i < B + H. m' i = m2 i"
    using L(4) by auto
  have "NvProgram (ne_dev ne) B (ne_src ne) (rd_bytes m1 ?A H) m1 = (True, m2)"
    using outside_write [OF k(1,3,2), of B "rd_bytes m1 ?A H" ne m1] w B S by simp
  from NvProgram_success [OF this]
  have "rd_bytes m2 B H = rd_bytes m1 ?A H" using checked_part_all [of B "ne_src ne" "rd_bytes m1 ?A H"] B(11) by auto
  then have e: "m' (B + j) = ?m0 (?A + j)" if "j < H" for j
  proof -
    have "m2 (B + j) = m1 (?A + j)"
      using arg_cong [OF \<open>rd_bytes m2 B H = _\<close>, of "\<lambda>xs. xs ! j"] that by simp
    moreover have "m1 (?A + j) = ?m0 (?A + j)" using m1 B(8,10) that by (auto simp: apart_def)
    ultimately show ?thesis using m2 that by simp
  qed
  have "header_ok m' Backup' H"
    by (rule header_shift [OF B(12,9)]) (use e B L(2,3) S in \<open>auto simp: state_addr_def\<close>)
  moreover have "m' (state_addr Backup' H) = 0xFC"
    using e [of "H - 1"] B L(2) S by (simp add: state_addr_def)
  ultimately show "header_ok m' Backup' H \<and> m' (state_addr Backup' H) = 0xFC" by simp
qed

lemma set_state:
  assumes "header_ok m I H" "51 \<le> H" "H < 2 ^ 64" "SetNvramFfsFileState WB I s m = (st, m')"
  shows "\<exists>ok. WB (state_addr I H) [NOT s AND m (state_addr I H)] m = (ok, m') \<and> (EFI_ERROR st \<longleftrightarrow> \<not> ok)"
  using assms(4) header_state(1) [OF assms(1-3)] by (auto simp: SetNvramFfsFileState_def Let_def split: prod.splits if_splits)

lemma verdict:
  assumes "header_ok m (HybridStoreToRealStore vs Info) H" "51 \<le> H" "H < 2 ^ 64"
    and "m (state_addr (HybridStoreToRealStore vs Info) H) = NOT s" "s \<noteq> 0"
    and "header_ok m (Info\<lparr>NvramAddress := B\<rparr>) H" "m (state_addr (Info\<lparr>NvramAddress := B\<rparr>) H) = NOT q" "q \<noteq> 0"
  shows "IsMainNvramStoreValid m (HybridStoreToRealStore vs Info) (Some B)
    = (if ffs_main_valid s q then (True, None) else (False, Some (ffs_backup_valid q)))"
proof -
  have "GetNvramFfsFileState m (HybridStoreToRealStore vs Info\<lparr>NvramAddress := B\<rparr>)
      = GetNvramFfsFileState m (Info\<lparr>NvramAddress := B\<rparr>)"
    by (simp add: GetNvramFfsFileState_def GetNvramFfsFileStatePtr_def HybridStoreToRealStore_def)
  then show ?thesis
    using header_state(2) [OF assms(1-3)] header_state(2) [OF assms(6,2,3)] assms(4,5,7,8)
    by (simp add: IsMainNvramStoreValid_def Let_def)
qed

text \<open>A store that is not marked for update is valid whatever the backup holds.\<close>

lemma verdict_unmarked:
  assumes "header_ok m (HybridStoreToRealStore vs Info) H" "51 \<le> H" "H < 2 ^ 64"
    and "m (state_addr (HybridStoreToRealStore vs Info) H) = 0xF8"
  shows "IsMainNvramStoreValid m (HybridStoreToRealStore vs Info) (Some B) = (True, None)"
  using header_state(2) [OF assms(1-3), unfolded assms(4) update_states(1)] update_states(7)
  by (simp add: IsMainNvramStoreValid_def Let_def)

section \<open>An example update\<close>

text \<open>Empty stores of one flash block: the memory copy, the flash store, the backup and the rewritten store.\<close>

definition fs_header :: "u8 \<Rightarrow> u8 list" where
  "fs_header s = replicate 32 0 @ le_bytes 8 4096 @ le_bytes 4 FV_SIGNATURE @ replicate 4 0 @ le_bytes 2 32
     @ replicate 5 0 @ [s]"

definition fs_store :: "nat \<Rightarrow> NVRAM_STORE_INFO" where
  "fs_store a = blank_info\<lparr>NvramAddress := a, NvramSize := 4096, NvramGuidsAddress := a + 4080,
     pFirstVar := a + 56, pEndOfVars := a + 56\<rparr>"

definition fs_mem :: memory where
  "fs_mem = wr_bytes (wr_bytes (wr_bytes (\<lambda>_. 0xFF) 0x10000 (fs_header 0xF8)) 0x20000 (fs_header 0xF8))
     0x40000 (fs_header 0xF8)"

definition fs_vs :: VARSTORE_INFO where
  "fs_vs = ex_vs\<lparr>vs_HeaderLength := 56, NvramInfo := [fs_store 0x10000], NvInfo := Some 0, BackupAddress := Some 0x30000,
     AddressDelta := 0x10000, NvramFlashAddress := 0x20000\<rparr>"

definition fs_env :: nv_env where
  "fs_env = \<lparr>ne_dev = nor_dev, ne_src = 1, ne_StorePool = Some 0x50000, ne_TmpPool = Some 0x60000, ne_cks = False,
     ne_preserve = []\<rparr>"

lemma fs_ok: "ft_ok fs_vs (fs_store 0x10000) (fs_store 0x40000) 0x30000 (ne_src fs_env) fs_mem"
proof -
  have "mirror fs_vs fs_mem"
  proof -
    have "fs_mem (0x10000 + k) = fs_mem (0x20000 + k)" if "k < 4096" for k
      using that by (auto simp: fs_mem_def wr_bytes_def fs_header_def)
    then show ?thesis by (simp add: mirror_def fs_vs_def fs_store_def)
  qed
  moreover have "hybrid_ok fs_vs" "ft_regions fs_vs (fs_store 0x10000) (fs_store 0x40000) 0x30000"
    "header_ok fs_mem (fs_store 0x10000) 56" "header_ok fs_mem (fs_store 0x40000) 56"
    "fs_mem (state_addr (fs_store 0x10000) 56) = 0xF8" by code_simp+
  ultimately show ?thesis by (simp add: ft_ok_def fs_vs_def fs_store_def fs_env_def nv_consts)
qed

text \<open>The steps of the update on the example, for the flash part that works.\<close>

lemma fs_write:
  assumes "0x30000 \<le> a" "a + length bs \<le> 0x31000" "list_all2 programmable_byte (rd_bytes m a (length bs)) bs"
  shows "WriteBytes fs_env fs_vs HybridInterface a bs m = (True, wr_bytes m a bs)"
proof -
  have "length bs < 2 ^ 32" using assms(1,2) by simp
  from nor.nvp.write_clearing [OF assms(3) this] show ?thesis
    using outside_write [of fs_vs 0 4096 "0x30000" a bs fs_env m] assms(1,2)
    by (simp add: fs_vs_def fs_store_def apart_def fs_env_def)
qed

lemma fs_mark:
  assumes "list_all2 programmable_byte [m 0x20037] [x]"
  shows "WriteBytes fs_env fs_vs HybridInterface 0x10037 [x] m = (True, m(0x20037 := x, 0x10037 := x))"
proof -
  have d: "HybridGetAddressDelta fs_vs 0x10037 (Suc 0) = 0x10000" "uintn_add 0x10000 0x10037 = 0x20037" by code_simp+
  have w: "wr_bytes q a [y] = q(a := y)" for q a y by (auto simp: wr_bytes_def)
  have "NvProgram nor_dev 0x20037 1 [x] m = (True, m(0x20037 := x))"
    using nor.nvp.write_clearing [of m "0x20037" "[x]"] assms by (simp add: rd_bytes_Suc rd_bytes_0 w)
  with d show ?thesis
    by (simp add: WriteBytes_def HybridProgram_def MemProgram_def Let_def fs_env_def w)
qed

lemma fs_no_variable:
  "NvGetNextVariableName m (\<lparr>na_VariableNameSize = Some n, na_VariableName = Some [], na_VendorGuid = Some g\<rparr>)
     (fs_store a) False =
   Some (EFI_NOT_FOUND, \<lparr>na_VariableNameSize = Some n, na_VariableName = Some [], na_VendorGuid = Some g\<rparr>,
     fs_store a\<lparr>pLastReturned := None\<rparr>)"
proof -
  have "nvars m (fs_store a) = []" by (simp add: nvars_def fs_store_def)
  then have "NvGetFirstValid m (fs_store a) = None" by (simp add: NvGetFirstValid_find)
  then show ?thesis
    by (simp add: NvGetNextVariableName_def NvGetNextVariableNvar_def next_start_def name0_def)
qed

lemma erased_programmable:
  "erased m a (a + length bs) \<Longrightarrow> list_all2 programmable_byte (rd_bytes m a (length bs)) bs"
  by (auto simp: list_all2_conv_all_nth erased_def)

lemma fs_copy:
  "\<exists>New' Backup'. backup_copy fs_env fs_vs (fs_store 0x10000) (fs_store 0x40000) ex_buffers fs_mem
     = Some (EFI_SUCCESS, New', Backup', ex_buffers, wr_bytes (fs_mem(0x40037 := 0xFC)) 0x30000 (fs_header 0xFC))"
proof -
  let ?m = "fs_mem(0x40037 := 0xFC)"
  have er: "erased ?m 0x30000 0x31000" by (simp add: erased_def fs_mem_def wr_bytes_def fs_header_def)
  then have "IsClean ?m 0x30000 4096" by (simp add: IsClean_spec)
  moreover have "HybridGetAddressDelta fs_vs 0x30000 4096 = 0" "uintn_add 0 0x30000 = 0x30000" by code_simp+
  ultimately have e: "EraseBytes fs_env fs_vs HybridInterface 0x30000 4096 (ex_buffers, ?m) = (True, ex_buffers, ?m)"
    by (simp add: EraseBytes_def HybridErase_def NvErase_def Let_def)
  have h: "rd_bytes ?m 0x40000 56 = fs_header 0xFC"
    by (rule nth_equalityI) (auto simp: fs_mem_def wr_bytes_def fs_header_def nth_append)
  have "erased ?m 0x30000 (0x30000 + length (fs_header 0xFC))" using er by (auto simp: erased_def fs_header_def)
  then have "list_all2 programmable_byte (rd_bytes ?m 0x30000 (length (fs_header 0xFC))) (fs_header 0xFC)"
    by (rule erased_programmable)
  then have w: "WriteBytes fs_env fs_vs HybridInterface 0x30000 (fs_header 0xFC) ?m
      = (True, wr_bytes ?m 0x30000 (fs_header 0xFC))"
    by (intro fs_write) (simp_all add: fs_header_def)
  have a: "SelectiveAllocate (Some 0x60000) True n ex_buffers = (Some 0x60000, ex_buffers)"
    "SelectiveFree 0x60000 ex_buffers = ex_buffers" "ex_buffers\<lparr>SaveOnlyPreservedVars := False\<rparr> = ex_buffers" for n
    by (simp_all add: SelectiveAllocate_def SelectiveFree_def ex_buffers_def)
  have l: "CopyVariables_loop ce sv n [] [] (fs_store 0x40000) N q
      = Some (EFI_SUCCESS, fs_store 0x40000\<lparr>pLastReturned := None\<rparr>, N, q)" for ce sv n N q
    by (subst CopyVariables_loop.simps) (simp add: fs_no_variable)
  have f: "NvramAddress (fs_store x) = x" "NvramSize (fs_store x) = 4096" "state_addr (fs_store 0x40000) 56 = 0x40037"
      "vs_HeaderLength fs_vs = 56" "the_addr (BackupAddress fs_vs) = 0x30000" "ne_TmpPool fs_env = Some 0x60000" for x
    by (simp_all add: fs_store_def state_addr_def fs_vs_def the_addr_def fs_env_def)
  have r: "Runtime ex_buffers = False" by (simp add: ex_buffers_def)
  show ?thesis
    by (simp add: backup_copy_def CopyVarStore_def CopyVariables_def copy_env_of_def Let_def e h w a l f r)
qed

lemma fs_success:
  "\<exists>Backup' New' b' m'. write_backup_store fs_env HybridInterface (fs_store 0x10000) (fs_store 0x40000) fs_vs ex_buffers fs_mem
      = Some (EFI_SUCCESS, Backup', New', b', m')"
proof -
  let ?W = "WriteBytes fs_env fs_vs HybridInterface"
  let ?m = "wr_bytes (fs_mem(0x40037 := 0xFC)) 0x30000 (fs_header 0xFC)"
  obtain New' Backup' where c: "backup_copy fs_env fs_vs (fs_store 0x10000) (fs_store 0x40000) ex_buffers fs_mem
     = Some (EFI_SUCCESS, New', Backup', ex_buffers, ?m)" using fs_copy by blast
  have B: "NvramAddress Backup' = 0x30000" "NvramSize Backup' = 4096"
    "header_ok ?m Backup' 56" "?m (state_addr Backup' 56) = 0xFC"
    using backup_copy_frame(2-4) [OF _ fs_ok c] nor.flash_device_axioms
    by (simp_all add: fs_env_def fs_vs_def fs_store_def EFI_ERROR_def)
  have fd: "\<exists>m3. SetNvramFfsFileState ?W (fs_store 0x10000) EFI_FILE_MARKED_FOR_UPDATE ?m = (EFI_SUCCESS, m3)
    \<and> m3 = ?m(0x20037 := 0xF0, 0x10037 := 0xF0)"
  proof -
    have "header_ok fs_mem (fs_store 0x10000) 56" using fs_ok by (simp add: ft_ok_def fs_vs_def)
    then have "header_ok ?m (fs_store 0x10000) 56"
      by (rule header_shift) (auto simp: wr_bytes_def fs_header_def fs_store_def)
    moreover have "state_addr (fs_store 0x10000) 56 = 0x10037" "?m 0x10037 = 0xF8" "?m 0x20037 = 0xF8"
      by (simp_all add: state_addr_def fs_store_def wr_bytes_def fs_header_def fs_mem_def nth_append)
    ultimately show ?thesis
      using header_state(1) [of ?m "fs_store 0x10000" 56] fs_mark [of ?m "0xF0"] update_states(4)
      by (simp add: SetNvramFfsFileState_def programmable_byte_def)
  qed
  then obtain m3 where m3: "SetNvramFfsFileState ?W (fs_store 0x10000) EFI_FILE_MARKED_FOR_UPDATE ?m = (EFI_SUCCESS, m3)"
    and m3': "m3 = ?m(0x20037 := 0xF0, 0x10037 := 0xF0)" by blast
  have "header_ok m3 Backup' 56" by (rule header_shift [OF B(3)]) (use B(1) m3' in auto)
  moreover have s: "state_addr Backup' 56 = 0x30037" "m3 0x30037 = 0xFC"
    using B(1,4) m3' by (simp_all add: state_addr_def)
  moreover have "?W 0x30037 [0xF8] m3 = (True, wr_bytes m3 0x30037 [0xF8])"
    using s(2) by (intro fs_write) (simp_all add: rd_bytes_Suc rd_bytes_0 programmable_byte_def)
  ultimately have m4: "SetNvramFfsFileState ?W Backup' EFI_FILE_DATA_VALID m3 = (EFI_SUCCESS, wr_bytes m3 0x30037 [0xF8])"
    using header_state(1) [of m3 Backup' 56] update_states(5) by (simp add: SetNvramFfsFileState_def)
  have h: "header_ok fs_mem (fs_store 0x40000) 56" using fs_ok by (simp add: ft_ok_def fs_vs_def)
  from header_state(1) [OF h] have "ResetFfsFileStateInMemory (fs_store 0x40000)
      (EFI_FILE_HEADER_CONSTRUCTION OR EFI_FILE_HEADER_VALID) fs_mem = (EFI_SUCCESS, fs_mem(0x40037 := 0xFC))"
    using update_states(6) by (simp add: ResetFfsFileStateInMemory_def Let_def state_addr_def fs_store_def)
  moreover have "state_addr (fs_store 0x40000) (vs_HeaderLength fs_vs) = 0x40037"
    by (simp add: state_addr_def fs_store_def fs_vs_def)
  ultimately show ?thesis
    using c m3 m4 by (simp add: write_backup_store_def backup_copy_def Let_def)
qed

lemma fs_atomic: "atomic_flash (ne_dev fs_env)"
  using nora.atomic_flash_axioms by (simp add: fs_env_def)

section \<open>An update that stops anywhere\<close>

text \<open>The situation before an update; its lemmas follow the state bytes step by step.\<close>

locale exchange =
  fixes ne :: nv_env and vs :: VARSTORE_INFO and Info New :: NVRAM_STORE_INFO and B :: nat and m :: memory
  assumes dev: "atomic_flash (ne_dev ne)" and ok: "ft_ok vs Info New B (ne_src ne) m"
begin

lemma regions:
  "apart (NvramSize Info) (NvramAddress Info) B" "apart (NvramSize Info) (NvramFlashAddress vs) B"
  "apart (NvramSize Info) (NvramAddress New) (NvramFlashAddress vs)" "apart (NvramSize Info) (NvramAddress New) (NvramAddress Info)"
  "apart (NvramSize Info) (NvramAddress Info) (NvramFlashAddress vs)"
  "B + NvramSize Info < 2 ^ 63" "51 \<le> vs_HeaderLength vs" "vs_HeaderLength vs \<le> NvramSize Info" "vs_HeaderLength vs < 2 ^ 64"
  using ok by (auto simp: ft_ok_def ft_regions_def hybrid_ok_def apart_def Let_def nv_consts split: option.splits)

lemma headers:
  "header_ok m Info (vs_HeaderLength vs)" "header_ok m New (vs_HeaderLength vs)"
  "m (state_addr Info (vs_HeaderLength vs)) = 0xF8" "hybrid_ok vs"
  using ok by (auto simp: ft_ok_def)

lemma main_index:
  obtains k where "NvInfo vs = Some k" "NvramSize (NvramInfo vs ! k) = NvramSize Info" "NvramAddress (NvramInfo vs ! k) = NvramAddress Info"
    "NvramAddress Info + NvramSize Info < 2 ^ 64" "NvramFlashAddress vs + NvramSize Info < 2 ^ 64"
  using ok by (auto simp: ft_ok_def ft_regions_def hybrid_ok_def Let_def split: option.splits)

lemma mirrored: "j < NvramSize Info \<Longrightarrow> m (NvramFlashAddress vs + j) = m (NvramAddress Info + j)"
  using ok by (auto simp: ft_ok_def mirror_def hybrid_ok_def split: option.splits)

lemma flash_state:
  "flash_of vs (state_addr Info (vs_HeaderLength vs)) = state_addr (HybridStoreToRealStore vs Info) (vs_HeaderLength vs)"
  "in_store vs (state_addr Info (vs_HeaderLength vs)) 1"
proof -
  obtain k where "NvInfo vs = Some k" "NvramSize (NvramInfo vs ! k) = NvramSize Info" "NvramAddress (NvramInfo vs ! k) = NvramAddress Info"
    by (rule main_index)
  then show "flash_of vs (state_addr Info (vs_HeaderLength vs)) = state_addr (HybridStoreToRealStore vs Info) (vs_HeaderLength vs)"
    "in_store vs (state_addr Info (vs_HeaderLength vs)) 1"
    using regions(7,8) by (auto simp: flash_of_def state_addr_def HybridStoreToRealStore_def in_store_def)
qed

lemma real_header:
  assumes "\<And>j. j + 1 < vs_HeaderLength vs \<Longrightarrow> q (NvramFlashAddress vs + j) = m (NvramFlashAddress vs + j)"
  shows "header_ok q (HybridStoreToRealStore vs Info) (vs_HeaderLength vs)"
  by (rule header_shift [OF headers(1) regions(7,9)]) (use assms mirrored regions(8) in \<open>auto simp: HybridStoreToRealStore_def\<close>)

text \<open>The copy touches neither the store in use nor its memory copy.\<close>

lemma copy_keeps:
  assumes "backup_copy ne vs Info New b m = Some (st2, New', Backup', b', m2)" "j < NvramSize Info"
  shows "m2 (NvramAddress Info + j) = m (NvramAddress Info + j)" "m2 (NvramFlashAddress vs + j) = m (NvramFlashAddress vs + j)"
  using backup_copy_frame(1) [OF _ ok assms(1)] dev regions assms(2) by (auto simp: atomic_flash_def apart_def state_addr_def)

lemma copy_state:
  assumes "backup_copy ne vs Info New b m = Some (st2, New', Backup', b', m2)"
  shows "header_ok m2 Info (vs_HeaderLength vs)" "m2 (state_addr Info (vs_HeaderLength vs)) = 0xF8"
    "m2 (state_addr (HybridStoreToRealStore vs Info) (vs_HeaderLength vs)) = 0xF8"
proof -
  let ?j = "vs_HeaderLength vs - 1"
  have j: "?j < NvramSize Info" using regions(7,8) by simp
  note K = copy_keeps [OF assms]
  show "header_ok m2 Info (vs_HeaderLength vs)"
    by (rule header_shift [OF headers(1) regions(7,9)]) (use K regions(8) in auto)
  show "m2 (state_addr Info (vs_HeaderLength vs)) = 0xF8" using K(1) [OF j] regions(7) headers(3) by (simp add: state_addr_def)
  show "m2 (state_addr (HybridStoreToRealStore vs Info) (vs_HeaderLength vs)) = 0xF8"
    using K(2) [OF j] mirrored [OF j] regions(7) headers(3) by (simp add: state_addr_def HybridStoreToRealStore_def)
qed

lemma stopped_in_copy:
  assumes "backup_copy ne vs Info New b m = Some (st2, New', Backup', b', m2)"
  shows "IsMainNvramStoreValid m2 (HybridStoreToRealStore vs Info) (Some B) = (True, None)"
  by (rule verdict_unmarked [OF real_header [of m2] regions(7,9) copy_state(3) [OF assms]]) (use copy_keeps(2) [OF assms] regions(8) in auto)

text \<open>Marking the store in use for update changes its state byte, or leaves it, and nothing else in flash.\<close>

lemma marking:
  assumes c: "backup_copy ne vs Info New b m = Some (st2, New', Backup', b', m2)"
    and s: "SetNvramFfsFileState (WriteBytes ne vs HybridInterface) Info EFI_FILE_MARKED_FOR_UPDATE m2 = (st3, m3)"
  shows "j < NvramSize Info \<Longrightarrow> j \<noteq> vs_HeaderLength vs - 1 \<Longrightarrow> m3 (NvramFlashAddress vs + j) = m (NvramFlashAddress vs + j)"
    "j < NvramSize Info \<Longrightarrow> m3 (B + j) = m2 (B + j)"
    "m3 (state_addr (HybridStoreToRealStore vs Info) (vs_HeaderLength vs)) = 0xF8
      \<or> m3 (state_addr (HybridStoreToRealStore vs Info) (vs_HeaderLength vs)) = 0xF0"
    "\<not> EFI_ERROR st3 \<Longrightarrow> m3 (state_addr (HybridStoreToRealStore vs Info) (vs_HeaderLength vs)) = 0xF0"
proof -
  let ?H = "vs_HeaderLength vs"
  note S = copy_state [OF c]
  obtain ok3 where w: "WriteBytes ne vs HybridInterface (state_addr Info ?H) [0xF0] m2 = (ok3, m3)" "EFI_ERROR st3 \<longleftrightarrow> \<not> ok3"
    using set_state [OF S(1) regions(7,9) s] S(2) update_states(4) by auto
  have "programmable_byte (m2 (flash_of vs (state_addr Info ?H))) 0xF0"
    using S(3) by (simp add: flash_state(1) programmable_byte_def)
  note P = atomic_flash.hybrid_byte [OF dev headers(4) flash_state(2) this refl w(1), unfolded flash_state(1)]
  show "m3 (NvramFlashAddress vs + j) = m (NvramFlashAddress vs + j)" if "j < NvramSize Info" "j \<noteq> ?H - 1"
    using P(3) [of "NvramFlashAddress vs + j"] copy_keeps(2) [OF c that(1)] that regions
    by (auto simp: apart_def state_addr_def HybridStoreToRealStore_def)
  show "m3 (B + j) = m2 (B + j)" if "j < NvramSize Info"
    using P(3) [of "B + j"] that regions by (auto simp: apart_def state_addr_def HybridStoreToRealStore_def)
  show "m3 (state_addr (HybridStoreToRealStore vs Info) ?H) = 0xF8 \<or> m3 (state_addr (HybridStoreToRealStore vs Info) ?H) = 0xF0"
    using P(1) S(3) by simp
  show "m3 (state_addr (HybridStoreToRealStore vs Info) ?H) = 0xF0" if "\<not> EFI_ERROR st3" using P(2) that w(2) by simp
qed

text \<open>The check of the stores once the backup has a complete header.\<close>

lemma backup_headers:
  assumes c: "backup_copy ne vs Info New b m = Some (st2, New', Backup', b', m2)" "\<not> EFI_ERROR st2"
    and "\<And>j. j + 1 < vs_HeaderLength vs \<Longrightarrow> q (B + j) = m2 (B + j)"
  shows "header_ok q (Info\<lparr>NvramAddress := B\<rparr>) (vs_HeaderLength vs)" "header_ok q Backup' (vs_HeaderLength vs)"
    "m2 (B + vs_HeaderLength vs - 1) = 0xFC" "state_addr Backup' (vs_HeaderLength vs) = B + vs_HeaderLength vs - 1"
proof -
  have b: "header_ok m2 Backup' (vs_HeaderLength vs)" "m2 (state_addr Backup' (vs_HeaderLength vs)) = 0xFC" "NvramAddress Backup' = B"
    "NvramSize Backup' = NvramSize Info"
    using backup_copy_frame(2-4) [OF _ ok c(1)] dev c(2) by (auto simp: atomic_flash_def)
  show "header_ok q (Info\<lparr>NvramAddress := B\<rparr>) (vs_HeaderLength vs)" "header_ok q Backup' (vs_HeaderLength vs)"
    by (rule header_shift [OF b(1) regions(7,9)]; use assms(3) b(3,4) in simp)+
  show "state_addr Backup' (vs_HeaderLength vs) = B + vs_HeaderLength vs - 1" by (simp add: state_addr_def b(3))
  with b(2) show "m2 (B + vs_HeaderLength vs - 1) = 0xFC" by simp
qed

lemma check_stores:
  assumes c: "backup_copy ne vs Info New b m = Some (st2, New', Backup', b', m2)" "\<not> EFI_ERROR st2"
    and q: "\<And>j. j < NvramSize Info \<Longrightarrow> j \<noteq> vs_HeaderLength vs - 1 \<Longrightarrow> q (NvramFlashAddress vs + j) = m (NvramFlashAddress vs + j)"
      "\<And>j. j < NvramSize Info \<Longrightarrow> j \<noteq> vs_HeaderLength vs - 1 \<Longrightarrow> q (B + j) = m2 (B + j)"
    and s: "q (state_addr (HybridStoreToRealStore vs Info) (vs_HeaderLength vs)) = NOT s" "s \<noteq> 0"
    and x: "q (B + vs_HeaderLength vs - 1) = NOT x" "x \<noteq> 0"
  shows "IsMainNvramStoreValid q (HybridStoreToRealStore vs Info) (Some B)
    = (if ffs_main_valid s x then (True, None) else (False, Some (ffs_backup_valid x)))"
proof -
  have r: "header_ok q (HybridStoreToRealStore vs Info) (vs_HeaderLength vs)" by (rule real_header) (use q(1) regions(8) in auto)
  have v: "header_ok q (Info\<lparr>NvramAddress := B\<rparr>) (vs_HeaderLength vs)"
    by (rule backup_headers(1) [OF c]) (use q(2) regions(8) in auto)
  show ?thesis by (rule verdict [OF r regions(7,9) s v _ x(2)]) (use x(1) in \<open>simp add: state_addr_def\<close>)
qed

lemma stopped_in_marking:
  assumes c: "backup_copy ne vs Info New b m = Some (st2, New', Backup', b', m2)" "\<not> EFI_ERROR st2"
    and s: "SetNvramFfsFileState (WriteBytes ne vs HybridInterface) Info EFI_FILE_MARKED_FOR_UPDATE m2 = (st3, m3)"
  shows "IsMainNvramStoreValid m3 (HybridStoreToRealStore vs Info) (Some B) = (True, None)"
proof -
  note M = marking [OF c(1) s]
  have "m3 (B + vs_HeaderLength vs - 1) = 0xFC"
    using M(2) [of "vs_HeaderLength vs - 1"] backup_headers(3) [OF c refl] regions(7,8) by simp
  then show ?thesis
    using M(3) check_stores [OF c M(1,2), of 7 3] check_stores [OF c M(1,2), of 15 3] update_states by auto
qed

text \<open>The last step: the state byte of the backup.\<close>

lemma completing:
  assumes c: "backup_copy ne vs Info New b m = Some (st2, New', Backup', b', m2)" "\<not> EFI_ERROR st2"
    and s: "SetNvramFfsFileState (WriteBytes ne vs HybridInterface) Info EFI_FILE_MARKED_FOR_UPDATE m2 = (st3, m3)" "\<not> EFI_ERROR st3"
    and s4: "SetNvramFfsFileState (WriteBytes ne vs HybridInterface) Backup' EFI_FILE_DATA_VALID m3 = (st, m')"
  shows "j < NvramSize Info \<Longrightarrow> m' (NvramFlashAddress vs + j) = m3 (NvramFlashAddress vs + j)"
    "j < NvramSize Info \<Longrightarrow> j \<noteq> vs_HeaderLength vs - 1 \<Longrightarrow> m' (B + j) = m2 (B + j)"
    "m' (B + vs_HeaderLength vs - 1) = 0xFC \<and> EFI_ERROR st \<or> m' (B + vs_HeaderLength vs - 1) = 0xF8"
proof -
  let ?H = "vs_HeaderLength vs"
  note M = marking [OF c(1) s(1)]
  have sB: "m3 (B + ?H - 1) = 0xFC" using M(2) [of "?H - 1"] backup_headers(3) [OF c refl] regions(7,8) by simp
  have "header_ok m3 Backup' ?H" by (rule backup_headers(2) [OF c]) (use M(2) regions(8) in auto)
  from set_state [OF this regions(7,9) s4] sB update_states(5) obtain ok4
    where w: "WriteBytes ne vs HybridInterface (B + ?H - 1) [0xF8] m3 = (ok4, m')" "EFI_ERROR st \<longleftrightarrow> \<not> ok4"
    by (auto simp: backup_headers(4) [OF c refl])
  obtain k where k: "NvInfo vs = Some k" "NvramSize (NvramInfo vs ! k) = NvramSize Info" "NvramAddress (NvramInfo vs ! k) = NvramAddress Info"
    by (rule main_index)
  have n: "NvProgram (ne_dev ne) (B + ?H - 1) (ne_src ne) [0xF8] m3 = (ok4, m')"
    using outside_write [of vs k "NvramSize Info" B "B + ?H - 1" "[0xF8]" ne m3] k regions w(1) by simp
  have "programmable_byte (m3 (B + ?H - 1)) 0xF8" using sB by (simp add: programmable_byte_def)
  note Q = atomic_flash.NvProgram_byte [OF dev this n]
  show "m' (NvramFlashAddress vs + j) = m3 (NvramFlashAddress vs + j)" if "j < NvramSize Info"
    using Q(3) [of "NvramFlashAddress vs + j"] that regions by (auto simp: apart_def)
  show "m' (B + j) = m2 (B + j)" if "j < NvramSize Info" "j \<noteq> ?H - 1"
    using Q(3) [of "B + j"] M(2) [OF that(1)] that regions(7) by auto
  show "m' (B + ?H - 1) = 0xFC \<and> EFI_ERROR st \<or> m' (B + ?H - 1) = 0xF8" using Q(1,2) sB w(2) by auto
qed

lemma update_completed:
  assumes c: "backup_copy ne vs Info New b m = Some (st2, New', Backup', b', m2)" "\<not> EFI_ERROR st2"
    and s: "SetNvramFfsFileState (WriteBytes ne vs HybridInterface) Info EFI_FILE_MARKED_FOR_UPDATE m2 = (st3, m3)" "\<not> EFI_ERROR st3"
    and s4: "SetNvramFfsFileState (WriteBytes ne vs HybridInterface) Backup' EFI_FILE_DATA_VALID m3 = (st, m')"
  shows "EFI_ERROR st \<and> IsMainNvramStoreValid m' (HybridStoreToRealStore vs Info) (Some B) = (True, None)
    \<or> IsMainNvramStoreValid m' (HybridStoreToRealStore vs Info) (Some B) = (False, Some True)"
proof -
  let ?H = "vs_HeaderLength vs"
  note M = marking [OF c(1) s(1)] and K = completing [OF c s s4]
  have F: "m' (NvramFlashAddress vs + j) = m (NvramFlashAddress vs + j)" if "j < NvramSize Info" "j \<noteq> ?H - 1" for j
    using K(1) M(1) that by simp
  have "m' (state_addr (HybridStoreToRealStore vs Info) ?H) = 0xF0"
    using K(1) [of "?H - 1"] M(4) [OF s(2)] regions(7,8) by (simp add: state_addr_def HybridStoreToRealStore_def)
  then show ?thesis
    using K(3) check_stores [OF c F K(2), of 15 3] check_stores [OF c F K(2), of 15 7] update_states by auto
qed

end

interpretation fsx: exchange fs_env fs_vs "fs_store 0x10000" "fs_store 0x40000" "0x30000" fs_mem
  by (rule exchange.intro [OF fs_atomic fs_ok])

section \<open>Properties\<close>



end
