(* ===== verification/NvramService.thy ===== *)
theory NvramService
  imports NvramFt
begin

text \<open>
  The variable services of \<^verbatim>\<open>AmiModulePkg/NVRAM/NvramDxe.c\<close>: \<^verbatim>\<open>GetVariable\<close>, \<^verbatim>\<open>GetNextVariableName\<close>,
  \<^verbatim>\<open>SetVariable\<close> with its recovery, \<^verbatim>\<open>QueryVariableInfo\<close>, the monotonic counter, the switch to run time,
  the synchronisation with the SMM copy of the driver and the virtual address fix-ups.

  Critical sections only exclude other callers and have no effect on the state.  The hook lists of the
  build and \<^verbatim>\<open>VerifyVariable\<close> of the authenticated variable module are parameters.  \<^verbatim>\<open>NULL\<close> pointers are
  \<open>None\<close>.
\<close>

section \<open>State and hooks\<close>

record service =
  sv_d :: driver
  HideBtVariables :: bool

definition sv_Runtime :: "service \<Rightarrow> bool" where "sv_Runtime s = Runtime (d_b (sv_d s))"

definition AreBtVariablesHidden :: "service \<Rightarrow> bool" where
  "AreBtVariablesHidden s \<longleftrightarrow> HideBtVariables s \<and> sv_Runtime s"

definition IsNvramRuntime :: "service \<Rightarrow> bool" where
  "IsNvramRuntime s = sv_Runtime s"

definition ShowBootTimeVariables :: "bool \<Rightarrow> service \<Rightarrow> efi_status \<times> service" where
  "ShowBootTimeVariables Show s = (EFI_SUCCESS, s\<lparr>HideBtVariables := \<not> Show\<rparr>)"

text \<open>The arguments of \<^verbatim>\<open>SetVariable\<close>; the data are the first \<open>sa_DataSize\<close> bytes at the data pointer.\<close>

record set_args =
  sa_VariableName :: "char16 list option"
  sa_VendorGuid :: "u8 list option"
  sa_Attributes :: u32
  sa_DataSize :: nat
  sa_Data :: "u8 list option"

fun GetVariableHook :: "(get_args \<Rightarrow> get_result) list \<Rightarrow> get_args \<Rightarrow> get_result" where
  "GetVariableHook [] a = gr_fail EFI_UNSUPPORTED"
| "GetVariableHook (h # hs) a = (let r = h a in if gr_Status r = EFI_UNSUPPORTED then GetVariableHook hs a else r)"

fun SetVariableHook :: "(set_args \<Rightarrow> efi_status) list \<Rightarrow> set_args \<Rightarrow> efi_status" where
  "SetVariableHook [] a = EFI_UNSUPPORTED"
| "SetVariableHook (h # hs) a = (let r = h a in if r = EFI_UNSUPPORTED then SetVariableHook hs a else r)"

fun GetNextVarNameHook :: "(name_args \<Rightarrow> efi_status \<times> name_args) list \<Rightarrow> name_args \<Rightarrow> efi_status \<times> name_args" where
  "GetNextVarNameHook [] a = (EFI_UNSUPPORTED, a)"
| "GetNextVarNameHook (h # hs) a =
     (let r = h a in if fst r = EFI_UNSUPPORTED then GetNextVarNameHook hs a else r)"

text \<open>The environment of the services: the one of the stores, the hooks, the uninitialised local store
  structures, and \<^verbatim>\<open>VerifyVariable\<close>, which may replace the attributes, the data and the security fields.\<close>

record serv_env =
  se_ne :: nv_env
  se_get_hooks :: "(get_args \<Rightarrow> get_result) list"
  se_set_hooks :: "(set_args \<Rightarrow> efi_status) list"
  se_next_hooks :: "(name_args \<Rightarrow> efi_status \<times> name_args) list"
  se_New0 :: NVRAM_STORE_INFO
  se_VerifyVariable :: "char16 list \<Rightarrow> u8 list \<Rightarrow> u32 \<Rightarrow> u8 list \<Rightarrow> u8 list \<Rightarrow> EXT_SEC_FLAGS
    \<Rightarrow> efi_status \<times> u32 \<times> u8 list \<times> EXT_SEC_FLAGS"

definition stores_in_use :: "VARSTORE_INFO \<Rightarrow> NVRAM_STORE_INFO list" where
  "stores_in_use vs = take (InfoCount vs) (NvramInfo vs)"

section \<open>Reading services\<close>

text \<open>\<^verbatim>\<open>DxeGetVariable\<close> after the hooks and \<^verbatim>\<open>CheckStore\<close>.\<close>

definition get_from_stores :: "get_args \<Rightarrow> char16 list \<Rightarrow> u8 list \<Rightarrow> nat \<Rightarrow> service \<Rightarrow> get_result \<times> service" where
  "get_from_stores a name guid DataSize s =
     (let d = sv_d s; m = d_mem d; infos = NvramInfo (d_vs d) in
      case IndexFindVariableEntry m infos name guid (d_ix d) of
        (Some (e, NameSize), _, ix) \<Rightarrow>
          let info = infos ! InfoIndex e; s' = s\<lparr>sv_d := d\<lparr>d_ix := ix\<rparr>\<rparr> in
          if AreBtVariablesHidden s \<and> \<not> has (nvar_flags m (ie_Nvar e)) NVRAM_FLAG_RUNTIME
          then (gr_fail EFI_NOT_FOUND, s')
          else
            let (st, attr) = NvGetAttributesFromNvar m (Some (ie_Nvar e)) (Some info) (ga_Attributes a)
            in if ga_Attributes a \<and> EFI_ERROR st then (gr_fail EFI_NOT_FOUND, s')
               else ((NvGetVariableFromNvar m (FinalDataNvar e) NameSize False DataSize info)
                       \<lparr>gr_Attributes := (if ga_Attributes a then attr else None)\<rparr>, s')
      | (None, Unindexed, ix) \<Rightarrow>
          if Unindexed = Some False then (gr_fail EFI_NOT_FOUND, s)
          else
            let r = NvGetVariable2 m (a\<lparr>ga_Attributes := True\<rparr>) (stores_in_use (d_vs d));
                found = (\<not> EFI_ERROR (gr_Status r) \<or> gr_Status r = EFI_BUFFER_TOO_SMALL);
                hidden = (found \<and> AreBtVariablesHidden s
                          \<and> \<not> has (case gr_Attributes r of Some x \<Rightarrow> x | None \<Rightarrow> 0) EFI_VARIABLE_RUNTIME_ACCESS)
            in (r\<lparr>gr_Status := (if hidden then EFI_NOT_FOUND else gr_Status r),
                  gr_Attributes := (if gr_Status r = EFI_SUCCESS \<and> \<not> hidden \<and> ga_Attributes a
                                    then gr_Attributes r else None),
                  gr_Var := None\<rparr>, s))"

definition DxeGetVariable :: "serv_env \<Rightarrow> get_args \<Rightarrow> service \<Rightarrow> (get_result \<times> service) option" where
  "DxeGetVariable se a s =
     (case (ga_VariableName a, ga_VendorGuid a, ga_DataSize a) of
        (Some name, Some guid, Some DataSize) \<Rightarrow>
          if \<not> ga_Data a \<and> DataSize \<noteq> 0 then Some (gr_fail EFI_INVALID_PARAMETER, s)
          else
            let h = GetVariableHook (se_get_hooks se) a in
            if gr_Status h \<noteq> EFI_UNSUPPORTED then Some (h, s)
            else do {
              d \<leftarrow> CheckStore (se_ne se) (se_New0 se) False (sv_d s);
              Some (get_from_stores a name guid DataSize (s\<lparr>sv_d := d\<rparr>))
            }
      | _ \<Rightarrow> Some (gr_fail EFI_INVALID_PARAMETER, s))"

text \<open>The status is \<open>None\<close> if \<^verbatim>\<open>NvGetNextVariableName2\<close> returns its uninitialised local variable.\<close>

definition DxeGetNextVariableName ::
    "serv_env \<Rightarrow> name_args \<Rightarrow> service \<Rightarrow> (efi_status option \<times> name_args \<times> service) option" where
  "DxeGetNextVariableName se a s =
     (case (na_VariableNameSize a, na_VariableName a, na_VendorGuid a) of
        (Some sz, Some name, Some guid) \<Rightarrow>
          let (st, a') = GetNextVarNameHook (se_next_hooks se) a in
          if st \<noteq> EFI_UNSUPPORTED then Some (Some st, a', s)
          else do {
            d \<leftarrow> CheckStore (se_ne se) (se_New0 se) False (sv_d s);
            let vs = d_vs d;
            (st', r, infos, last) \<leftarrow>
              NvGetNextVariableName2 (d_mem d) sz name guid (stores_in_use vs) (Some (LastInfoIndex vs))
                (AreBtVariablesHidden s);
            Some (st', r, s\<lparr>sv_d := d\<lparr>d_vs := vs\<lparr>NvramInfo := infos @ drop (InfoCount vs) (NvramInfo vs),
                                             LastInfoIndex := the_addr last\<rparr>\<rparr>\<rparr>)
          }
      | _ \<Rightarrow> Some (Some EFI_INVALID_PARAMETER, a, s))"

section \<open>SetVariable\<close>

definition ALL_VARIABLE_ATTRIBUTES :: u32 where
  "ALL_VARIABLE_ATTRIBUTES =
     EFI_VARIABLE_NON_VOLATILE OR EFI_VARIABLE_BOOTSERVICE_ACCESS OR EFI_VARIABLE_RUNTIME_ACCESS
     OR (EFI_VARIABLE_HARDWARE_ERROR_RECORD OR EFI_VARIABLE_APPEND_WRITE
         OR UEFI23_1_AUTHENTICATED_VARIABLE_ATTRIBUTES)"

definition MAX_NVRAM_VARIABLE_SIZE :: nat where [nv_consts]: "MAX_NVRAM_VARIABLE_SIZE = 0xFFFF"

definition gEfiGlobalVariableGuid :: "u8 list" where
  "gEfiGlobalVariableGuid =
     [0x61, 0xdf, 0xe4, 0x8b, 0xca, 0x93, 0xd2, 0x11, 0xaa, 0x0d, 0x00, 0xe0, 0x98, 0x03, 0x2b, 0x8c]"

text \<open>The checks of the arguments, in the order of the source.\<close>

definition set_args_bad :: "service \<Rightarrow> set_args \<Rightarrow> bool" where
  "set_args_bad s a \<longleftrightarrow>
     (case sa_VariableName a of None \<Rightarrow> True | Some n \<Rightarrow> name0 n = 0)
     \<or> sa_VendorGuid a = None
     \<or> sa_Attributes a AND NOT ALL_VARIABLE_ATTRIBUTES \<noteq> 0
     \<or> has (sa_Attributes a) EFI_VARIABLE_RUNTIME_ACCESS \<and> \<not> has (sa_Attributes a) EFI_VARIABLE_BOOTSERVICE_ACCESS
     \<or> sa_DataSize a \<noteq> 0 \<and> sa_Data a = None
     \<or> sv_Runtime s \<and> sa_Attributes a \<noteq> 0
        \<and> (\<not> has (sa_Attributes a) EFI_VARIABLE_NON_VOLATILE
           \<or> \<not> has (sa_Attributes a) EFI_VARIABLE_RUNTIME_ACCESS \<and> AreBtVariablesHidden s)"

text \<open>What \<^verbatim>\<open>SetVariable\<close> finds out about the variable: its record, the size of its name, whether it is in
  the non-volatile store, its index entry, and \<^verbatim>\<open>UpdateIndex\<close>.\<close>

record set_target =
  st_Var :: "nat option"
  st_NameSize :: nat
  st_NvFound :: bool
  st_Entry :: "VAR_INDEX_ENTRY option"
  st_UpdateIndex :: bool

definition find_target :: "char16 list \<Rightarrow> u8 list \<Rightarrow> driver \<Rightarrow> set_target \<times> driver" where
  "find_target name guid d =
     (let m = d_mem d; vs = d_vs d;
          (r, Unindexed, ix) = IndexFindVariableEntry m (NvramInfo vs) name guid (d_ix d);
          d' = d\<lparr>d_ix := ix\<rparr>;
          mem_store = NvramInfo vs ! the_addr (MemInfo vs);
          search = (\<lambda>upd.
            case NvFindVariable m name guid (nv_store vs) of
              Some (p, n) \<Rightarrow> \<lparr>st_Var = Some p, st_NameSize = n, st_NvFound = True, st_Entry = None, st_UpdateIndex = upd\<rparr>
            | None \<Rightarrow>
                (case NvFindVariable m name guid mem_store of
                   Some (p, n) \<Rightarrow>
                     \<lparr>st_Var = Some p, st_NameSize = n, st_NvFound = False, st_Entry = None, st_UpdateIndex = upd\<rparr>
                 | None \<Rightarrow>
                     \<lparr>st_Var = None, st_NameSize = 0, st_NvFound = False, st_Entry = None, st_UpdateIndex = upd\<rparr>))
      in case r of
           Some (e, n) \<Rightarrow>
             if Some (InfoIndex e) = NvInfo vs \<or> Some (InfoIndex e) = MemInfo vs
             then (\<lparr>st_Var = Some (ie_Nvar e), st_NameSize = n, st_NvFound = (Some (InfoIndex e) = NvInfo vs),
                    st_Entry = Some e, st_UpdateIndex = False\<rparr>, d')
             else (search True, d')
         | None \<Rightarrow>
             if Unindexed = Some False
             then (\<lparr>st_Var = None, st_NameSize = 0, st_NvFound = False, st_Entry = None, st_UpdateIndex = False\<rparr>, d')
             else (search False, d'))"

text \<open>The store a variable lies in or will be created in (its index in the array) and its interface;
  \<open>None\<close> if a volatile variable would hide a default.\<close>

definition target_store :: "set_target \<Rightarrow> u32 \<Rightarrow> VARSTORE_INFO \<Rightarrow> (nat \<times> VARIABLE_INTERFACE) option" where
  "target_store t Attributes vs =
     (case st_Var t of
        Some v \<Rightarrow> Some (if st_NvFound t then (the_addr (NvInfo vs), vs_NvInterface vs)
                        else (the_addr (MemInfo vs), MemInterface))
      | None \<Rightarrow>
          if has Attributes EFI_VARIABLE_NON_VOLATILE then Some (the_addr (NvInfo vs), vs_NvInterface vs)
          else if st_UpdateIndex t then None
          else Some (the_addr (MemInfo vs), MemInterface))"

text \<open>The address and size of the current data: \<open>Some (0, 0)\<close> for a new variable; \<open>None\<close> stands for a
  record without data, which the source does not test for.\<close>

definition old_data :: "set_target \<Rightarrow> memory \<Rightarrow> NVRAM_STORE_INFO \<Rightarrow> (nat \<times> nat) option" where
  "old_data t m info =
     (case st_Var t of
        None \<Rightarrow> Some (0, 0)
      | Some v \<Rightarrow>
          (case st_Entry t of
             Some e \<Rightarrow> (case FinalDataNvar e of
                          Some f \<Rightarrow> NvGetData m f (st_NameSize t) info
                        | None \<Rightarrow> NvGetData m v (st_NameSize t) info)
           | None \<Rightarrow> NvGetData m v (st_NameSize t) info))"

text \<open>Deleting: the loop looks for another instance in the other stores, from the last one down.\<close>

fun other_instance ::
    "memory \<Rightarrow> NVRAM_STORE_INFO list \<Rightarrow> nat \<Rightarrow> char16 list \<Rightarrow> u8 list \<Rightarrow> nat \<Rightarrow> (nat \<times> nat) option" where
  "other_instance m infos k name guid 0 = None"
| "other_instance m infos k name guid (Suc i) =
     (if i = k \<or> \<not> has (Flags (infos ! k)) NVRAM_STORE_FLAG_NON_VALATILE
      then other_instance m infos k name guid i
      else case NvFindVariable m name guid (infos ! i) of
             Some (v, _) \<Rightarrow> Some (v, i)
           | None \<Rightarrow> other_instance m infos k name guid i)"

definition set_delete ::
    "nv_env \<Rightarrow> set_target \<Rightarrow> nat \<Rightarrow> VARIABLE_INTERFACE \<Rightarrow> char16 list \<Rightarrow> u8 list \<Rightarrow> driver
       \<Rightarrow> (efi_status \<times> driver) option" where
  "set_delete ne t k i name guid d =
     (case st_Var t of
        None \<Rightarrow> Some (if st_UpdateIndex t then EFI_WRITE_PROTECTED else EFI_NOT_FOUND, d)
      | Some v \<Rightarrow>
          if Runtime (d_b d) \<and> \<not> st_NvFound t then Some (EFI_INVALID_PARAMETER, d)
          else
            let vs = d_vs d;
                (st, m') = DeleteVariable (WriteBytes ne vs i) v (d_mem d);
                d' = d\<lparr>d_mem := m'\<rparr>
            in if EFI_ERROR st then Some (st, d')
               else case (if st_NvFound t then other_instance m' (NvramInfo vs) k name guid (InfoCount vs) else None) of
                      Some (w, j) \<Rightarrow> do {
                        ix \<leftarrow> IndexUpdateVariable m' (NvramInfo vs) w j (d_ix d);
                        Some (st, d'\<lparr>d_ix := ix\<rparr>)
                      }
                    | None \<Rightarrow> Some (st, d'\<lparr>d_ix := IndexDeleteVariableEntry m' (st_Entry t) (d_ix d)\<rparr>))"

definition set_create ::
    "nv_env \<Rightarrow> set_target \<Rightarrow> nat \<Rightarrow> VARIABLE_INTERFACE \<Rightarrow> char16 list \<Rightarrow> u8 list \<Rightarrow> u32 \<Rightarrow> u8 list \<Rightarrow> EXT_SEC_FLAGS
       \<Rightarrow> driver \<Rightarrow> (efi_status \<times> driver) option" where
  "set_create ne t k i name guid Attributes Data sec d =
     (let vs = d_vs d;
          (st, info', m') = CreateVariable (WriteBytes ne vs i) (ne_cks ne) name guid Attributes Data None sec
                              (NvramInfo vs ! k) (d_mem d);
          vs' = store_put (Some k) info' vs;
          d' = d\<lparr>d_mem := m', d_vs := vs'\<rparr>;
          new = pEndOfVars info' - LastVarSize info'
      in if EFI_ERROR st then Some (st, d')
         else if st_UpdateIndex t
         then if NvramMode vs AND (NVRAM_MODE_DEFAULT_CONFIGURATION OR NVRAM_MODE_MANUFACTORING) = 0
                 \<or> Some k \<noteq> NvInfo vs
              then do {
                ix \<leftarrow> IndexUpdateVariable m' (NvramInfo vs') new k (d_ix d);
                Some (st, d'\<lparr>d_ix := ix\<rparr>)
              }
              else Some (st, d')
         else Some (st, d'\<lparr>d_ix := IndexAddVariable m' new k (d_ix d)\<rparr>))"

text \<open>The index entry of the variable in the index, after \<^verbatim>\<open>UpdateVariable\<close> stored its new
  \<^verbatim>\<open>FinalDataNvar\<close>.\<close>

definition store_entry :: "memory \<Rightarrow> VAR_INDEX_ENTRY option \<Rightarrow> nat option option \<Rightarrow> VAR_INDEX option \<Rightarrow> VAR_INDEX option" where
  "store_entry m Entry fd ix =
     (case (Entry, fd, ix) of
        (Some e, Some f, Some vi) \<Rightarrow>
          let k = IndexGetListNvar m (ie_Nvar e)
          in Some (put_list vi k (list_replace (get_list vi k) (e\<lparr>FinalDataNvar := f\<rparr>)))
      | _ \<Rightarrow> ix)"

definition set_update ::
    "nv_env \<Rightarrow> set_target \<Rightarrow> nat \<Rightarrow> nat \<Rightarrow> VARIABLE_INTERFACE \<Rightarrow> u32 \<Rightarrow> u8 list \<Rightarrow> EXT_SEC_FLAGS \<Rightarrow> driver
       \<Rightarrow> (efi_status \<times> driver) option" where
  "set_update ne t v k i Attributes Data sec d =
     (let vs = d_vs d in
      do {
        (st, fd, info', m') \<leftarrow>
          UpdateVariable (WriteBytes ne vs i) (ne_cks ne) v (st_NameSize t) Attributes Data
            (map_option FinalDataNvar (st_Entry t)) sec (NvramInfo vs ! k) (d_mem d);
        Some (st, d\<lparr>d_mem := m', d_vs := store_put (Some k) info' vs,
                    d_ix := store_entry (d_mem d) (st_Entry t) fd (d_ix d)\<rparr>)
      })"

section \<open>Recovery of SetVariable\<close>

definition set_save_only :: "bool \<Rightarrow> driver \<Rightarrow> driver" where
  "set_save_only x d = d\<lparr>d_b := (d_b d)\<lparr>SaveOnlyPreservedVars := x\<rparr>\<rparr>"

text \<open>One pass of the recovery loop: the status of the pass and whether \<^verbatim>\<open>SetVariable\<close> returns the status
  it had before the pass (the copy failed).\<close>

definition recovery_pass ::
    "serv_env \<Rightarrow> nat \<Rightarrow> VARIABLE_INTERFACE \<Rightarrow> nat option \<Rightarrow> char16 list \<Rightarrow> u8 list \<Rightarrow> u32 \<Rightarrow> u8 list
       \<Rightarrow> nat \<times> nat \<Rightarrow> EXT_SEC_FLAGS \<Rightarrow> bool \<Rightarrow> driver \<Rightarrow> (efi_status option \<times> driver) option" where
  "recovery_pass se k i Var name guid Attributes Data Old sec FirstPass d =
     (let ne = se_ne se; vs = d_vs d in
      do {
        (st, Info', New, b', m') \<leftarrow>
          CopyVarStoreToMemStore ne (NvramInfo vs ! k) Var ((se_New0 se)\<lparr>NvramAddress := 0\<rparr>) vs (d_b d) (d_mem d);
        let d1 = d\<lparr>d_mem := m', d_b := b', d_vs := store_put (Some k) Info' vs\<rparr>;
        if EFI_ERROR st
        then Some (None, d1\<lparr>d_b := (if NvramAddress New \<noteq> 0 then SelectiveFree (NvramAddress New) b' else b')\<rparr>)
        else
          let app = has Attributes EFI_VARIABLE_APPEND_WRITE;
              (st2, New2, m2) =
                (if app then CreateVariableEx MemProgram (ne_cks ne) name guid Attributes Data None sec
                               (rd_bytes m' (fst Old) (snd Old)) New m'
                 else CreateVariable MemProgram (ne_cks ne) name guid Attributes Data None sec New m');
              d2 = d1\<lparr>d_mem := m2\<rparr>
          in if \<not> EFI_ERROR st2
             then do {
               (st3, _, New3, d3) \<leftarrow> UpdateVarstore ne (Some k) (NvramInfo (d_vs d2) ! k) i New2 d2;
               Some (Some st3, d3\<lparr>d_b := SelectiveFree (NvramAddress New3) (d_b d3)\<rparr>)
             }
             else do {
               d3 \<leftarrow> CheckStore ne (se_New0 se) True
                      (if st2 = EFI_OUT_OF_RESOURCES \<and> FirstPass then set_save_only True d2 else d2);
               Some (Some st2, d3\<lparr>d_b := SelectiveFree (NvramAddress New2) (d_b d3)\<rparr>)
             }
      })"

partial_function (option) recovery_loop ::
    "serv_env \<Rightarrow> nat \<Rightarrow> VARIABLE_INTERFACE \<Rightarrow> nat option \<Rightarrow> char16 list \<Rightarrow> u8 list \<Rightarrow> u32 \<Rightarrow> u8 list
       \<Rightarrow> nat \<times> nat \<Rightarrow> EXT_SEC_FLAGS \<Rightarrow> bool \<Rightarrow> efi_status \<Rightarrow> driver \<Rightarrow> (efi_status \<times> driver) option" where
  "recovery_loop se k i Var name guid Attributes Data Old sec FirstPass Status d =
     Option.bind (recovery_pass se k i Var name guid Attributes Data Old sec FirstPass d)
       (\<lambda>(st, d'). case st of
          None \<Rightarrow> Some (Status, d')
        | Some st' \<Rightarrow>
            if SaveOnlyPreservedVars (d_b d')
            then recovery_loop se k i Var name guid Attributes Data Old sec False st' d'
            else Some (st', d'))"

declare recovery_loop.simps [code]

text \<open>\<^verbatim>\<open>SetVariable\<close> once the variable, its store and its verified data are known.\<close>

definition set_verified ::
    "serv_env \<Rightarrow> set_target \<Rightarrow> nat \<Rightarrow> VARIABLE_INTERFACE \<Rightarrow> nat \<times> nat \<Rightarrow> char16 list \<Rightarrow> u8 list \<Rightarrow> u32 \<Rightarrow> u8 list
       \<Rightarrow> EXT_SEC_FLAGS \<Rightarrow> driver \<Rightarrow> (efi_status \<times> driver) option" where
  "set_verified se t k i Old name guid Attributes Data0 sec d =
     (let ne = se_ne se; Data = (if Attributes = 0 then [] else Data0) in
      if \<not> has Attributes EFI_VARIABLE_APPEND_WRITE \<and> Data = [] \<or> \<not> has Attributes EFI_VARIABLE_BOOTSERVICE_ACCESS
      then set_delete ne t k i name guid d
      else do {
        (st, d1) \<leftarrow> (case st_Var t of
                      None \<Rightarrow> set_create ne t k i name guid Attributes Data sec d
                    | Some v \<Rightarrow> set_update ne t v k i Attributes Data sec d);
        if st = EFI_OUT_OF_RESOURCES
           \<or> st = EFI_DEVICE_ERROR \<and> \<not> IsStoreOk (d_mem d1) (NvramInfo (d_vs d1) ! k)
        then recovery_loop se k i (st_Var t) name guid Attributes Data Old sec True st d1
        else Some (st, d1)
      })"

definition DxeSetVariable :: "serv_env \<Rightarrow> set_args \<Rightarrow> service \<Rightarrow> (efi_status \<times> service) option" where
  "DxeSetVariable se a s =
     (if set_args_bad s a then Some (EFI_INVALID_PARAMETER, s)
      else
        let name = the (sa_VariableName a); guid = the (sa_VendorGuid a); Attributes = sa_Attributes a in
        if guid = gEfiGlobalVariableGuid \<and> VarNotInEfiGlobalVarList name Attributes
        then Some (EFI_INVALID_PARAMETER, s)
        else
          let h = SetVariableHook (se_set_hooks se) a in
          if h \<noteq> EFI_UNSUPPORTED then Some (h, s)
          else if sa_DataSize a > MAX_NVRAM_VARIABLE_SIZE then Some (EFI_OUT_OF_RESOURCES, s)
          else do {
            d1 \<leftarrow> CheckStore (se_ne se) (se_New0 se) False (sv_d s);
            let (t, d2) = find_target name guid d1;
            let s2 = s\<lparr>sv_d := d2\<rparr>;
            let m = d_mem d2;
            if (case st_Var t of
                  Some v \<Rightarrow> AreBtVariablesHidden s2 \<and> \<not> has (nvar_flags m v) NVRAM_FLAG_RUNTIME
                | None \<Rightarrow> False)
            then Some (EFI_INVALID_PARAMETER, s2)
            else case target_store t Attributes (d_vs d2) of
                   None \<Rightarrow> Some (EFI_INVALID_PARAMETER, s2)
                 | Some (k, i) \<Rightarrow>
                     let info = NvramInfo (d_vs d2) ! k;
                         sec = (if st_Var t = None then no_ext_flags
                                else GetVarAuthExtFlags m (st_Var t) (Some info) no_ext_flags)
                     in do {
                       Old \<leftarrow> old_data t m info;
                       let (st, Attributes', Data', sec') =
                             se_VerifyVariable se name guid Attributes
                               (take (sa_DataSize a) (case sa_Data a of Some x \<Rightarrow> x | None \<Rightarrow> []))
                               (rd_bytes m (fst Old) (snd Old)) sec;
                       if EFI_ERROR st
                       then Some (if st = EFI_ALREADY_STARTED then EFI_SUCCESS else st, s2)
                       else do {
                         (st', d3) \<leftarrow> set_verified se t k i Old name guid Attributes' Data' sec' d2;
                         Some (st', s\<lparr>sv_d := d3\<rparr>)
                       }
                     }
          })"

section \<open>QueryVariableInfo\<close>

text \<open>The three sizes, or the error.  Sizes are \<^verbatim>\<open>UINT64\<close> values; the last one is compared as a signed
  number.\<close>

definition QueryVariableInfo ::
    "u32 \<Rightarrow> bool \<Rightarrow> bool \<Rightarrow> bool \<Rightarrow> VARSTORE_INFO \<Rightarrow> efi_status \<times> (nat \<times> nat \<times> nat) option" where
  "QueryVariableInfo Attributes MaxStorage Remaining MaxSize vs =
     (if Attributes = 0 \<or> Attributes AND NOT ALL_VARIABLE_ATTRIBUTES \<noteq> 0
         \<or> has Attributes EFI_VARIABLE_RUNTIME_ACCESS \<and> \<not> has Attributes EFI_VARIABLE_BOOTSERVICE_ACCESS
         \<or> \<not> MaxStorage \<or> \<not> Remaining \<or> \<not> MaxSize
      then (EFI_INVALID_PARAMETER, None)
      else
        let info = (if has Attributes EFI_VARIABLE_NON_VOLATILE then nv_store vs else NvramInfo vs ! the_addr (MemInfo vs));
            rem = uintn_sub (uintn_sub (NvramAddress info + NvramSize info) (sizeof_GUID * (NextGuid info + 1)))
                    (pEndOfVars info);
            v = uintn_sub (if MAX_NVRAM_VARIABLE_SIZE > rem then rem else MAX_NVRAM_VARIABLE_SIZE)
                  (sizeof_NVAR + sizeof_GUID)
        in (EFI_SUCCESS, Some (NvramSize info, rem, if v \<ge> 2 ^ 63 then 0 else v)))"

section \<open>Monotonic counter\<close>

record counters =
  CounterLo :: u32
  CounterHi :: u32

text \<open>The variable services the counter uses: \<open>GetV\<close> gives the status and the data of the variable
  \<^verbatim>\<open>MonotonicCounter\<close> for a buffer of four bytes, \<open>SetV\<close> stores them; \<open>'s\<close> is their state.\<close>

definition GetNextHighMonotonicCount ::
    "('s \<Rightarrow> efi_status \<times> u8 list \<times> 's) \<Rightarrow> (u8 list \<Rightarrow> 's \<Rightarrow> efi_status \<times> 's) \<Rightarrow> bool \<Rightarrow> counters \<times> 's
       \<Rightarrow> (efi_status \<times> u32 option) \<times> counters \<times> 's" where
  "GetNextHighMonotonicCount GetV SetV HighCount cs =
     (let (c, s) = cs in
      if \<not> HighCount then ((EFI_INVALID_PARAMETER, None), c, s)
      else
        let (st, sz, c1, s1) =
              (if CounterHi c = 0
               then (case GetV s of (st, d, s1) \<Rightarrow>
                       if st = EFI_SUCCESS then (st, length d, c\<lparr>CounterHi := word_of_nat (le_nat d)\<rparr>, s1)
                       else (st, 4, c, s1))
               else (EFI_SUCCESS, 4, c, s))
        in if EFI_ERROR st \<and> st \<noteq> EFI_NOT_FOUND then ((st, None), c1, s1)
           else
             let c2 = c1\<lparr>CounterHi := CounterHi c1 + 1\<rparr>;
                 (st2, s2) = SetV (take sz (le_bytes 4 (unat (CounterHi c2)))) s1
             in if EFI_ERROR st2 then ((st2, None), c2, s2)
                else ((EFI_SUCCESS, Some (CounterHi c2)), c2, s2))"

text \<open>The result is the status and the two halves of the count, the high one if it was stored.\<close>

definition GetNextMonotonicCount ::
    "('s \<Rightarrow> efi_status \<times> u8 list \<times> 's) \<Rightarrow> (u8 list \<Rightarrow> 's \<Rightarrow> efi_status \<times> 's) \<Rightarrow> bool \<Rightarrow> counters \<times> 's
       \<Rightarrow> (efi_status \<times> (u32 \<times> u32 option) option) \<times> counters \<times> 's" where
  "GetNextMonotonicCount GetV SetV Count cs =
     (let (c, s) = cs in
      if \<not> Count then ((EFI_INVALID_PARAMETER, None), c, s)
      else
        let lo = CounterLo c; c1 = c\<lparr>CounterLo := CounterLo c + 1\<rparr>
        in if CounterLo c1 = 0
           then (case GetNextHighMonotonicCount GetV SetV True (c1, s) of
                   ((st, hi), c2, s2) \<Rightarrow> ((st, Some (lo, hi)), c2, s2))
           else ((EFI_SUCCESS, Some (lo, Some (CounterHi c1))), c1, s))"

section \<open>Switch to run time and address fix-ups\<close>

text \<open>\<open>Toggle\<close> is the mailbox field \<^verbatim>\<open>SwitchToRuntime\<close>; \<open>Event\<close> is false when the call comes from SMM.\<close>

definition NvramNotInSmmExitBs :: "bool \<Rightarrow> bool" where
  "NvramNotInSmmExitBs SwitchToRuntime = (\<not> SwitchToRuntime)"

definition VarExitBS :: "bool \<Rightarrow> service \<times> bool \<Rightarrow> service \<times> bool" where
  "VarExitBS Event st =
     (case st of (s, SwitchToRuntime) \<Rightarrow>
        let d = sv_d s
        in (s\<lparr>sv_d := d\<lparr>d_b := (d_b d)\<lparr>Runtime := True\<rparr>, d_ix := IndexExitBs (d_ix d)\<rparr>\<rparr>,
            if Event then NvramNotInSmmExitBs SwitchToRuntime else SwitchToRuntime))"

definition LegacyToEfiFn :: "service \<times> bool \<Rightarrow> efi_status \<times> service \<times> bool" where
  "LegacyToEfiFn st =
     (case st of (s, SwitchToRuntime) \<Rightarrow>
        let d = sv_d s in (EFI_SUCCESS, s\<lparr>sv_d := d\<lparr>d_b := (d_b d)\<lparr>Runtime := False\<rparr>\<rparr>\<rparr>, False))"

text \<open>\<open>conv\<close> is \<^verbatim>\<open>ConvertPointer\<close>.\<close>

definition VarStoreVirtualFixup :: "(nat \<Rightarrow> nat) \<Rightarrow> NVRAM_STORE_INFO \<Rightarrow> NVRAM_STORE_INFO" where
  "VarStoreVirtualFixup conv info =
     info\<lparr>pFirstVar := conv (pFirstVar info), pEndOfVars := conv (pEndOfVars info),
          NvramGuidsAddress := conv (NvramGuidsAddress info), NvramAddress := conv (NvramAddress info),
          pLastReturned := None\<rparr>"

text \<open>The data of the driver; the pointers to functions and to the driver's own variables, which it
  converts as well, do not occur in the model.\<close>

definition VarVirtAddressChange :: "(nat \<Rightarrow> nat) \<Rightarrow> driver \<Rightarrow> driver" where
  "VarVirtAddressChange conv d =
     (let vs = d_vs d; k = the_addr (NvInfo vs);
          nv = VarStoreVirtualFixup conv (nv_store vs);
          flash = conv (NvramFlashAddress vs);
          infos = map (\<lambda>(i, info). if i = k then nv
                                   else if i < InfoCount vs then VarStoreVirtualFixup conv info else info)
                    (enumerate 0 (NvramInfo vs))
      in d\<lparr>d_vs := vs\<lparr>NvramInfo := infos, NvramFlashAddress := flash,
                      AddressDelta := uintn_sub flash (NvramAddress nv),
                      BackupAddress := map_option conv (BackupAddress vs), LastInfoIndex := 0\<rparr>,
           d_b := (d_b d)\<lparr>NvramDriverBuffer :=
                      (if NvramDriverBuffer (d_b d) \<noteq> 0 then conv (NvramDriverBuffer (d_b d)) else 0)\<rparr>\<rparr>)"

section \<open>Synchronisation with the SMM copy\<close>

definition SynchronizeVarStore :: "NVRAM_STORE_INFO \<Rightarrow> NVRAM_STORE_INFO \<Rightarrow> NVRAM_STORE_INFO" where
  "SynchronizeVarStore Source Target =
     (let Delta = uintn_sub (NvramAddress Target) (NvramAddress Source)
      in Target\<lparr>pFirstVar := uintn_add (pFirstVar Source) Delta, pEndOfVars := uintn_add (pEndOfVars Source) Delta,
                NextGuid := NextGuid Source, LastVarSize := LastVarSize Source\<rparr>)"

definition SynchronizeVarStoreInfo :: "VARSTORE_INFO \<Rightarrow> VARSTORE_INFO \<Rightarrow> VARSTORE_INFO" where
  "SynchronizeVarStoreInfo From To =
     To\<lparr>InfoCount := InfoCount From,
        NvramInfo := map (\<lambda>(i, t). if i < InfoCount From then SynchronizeVarStore (NvramInfo From ! i) t else t)
                       (enumerate 0 (NvramInfo To))\<rparr>"

text \<open>The SMM copy \<open>s\<close> of the driver and the run-time copy \<open>rt\<close> of \<^verbatim>\<open>VarStoreInfo\<close>
  (\<^verbatim>\<open>NVRAM_SMI_FULL_PROTECTION\<close> is off in this build, so the stores are not moved to SMM).\<close>

definition SynchronizeBeforeOperation :: "VARSTORE_INFO \<Rightarrow> bool \<Rightarrow> service \<Rightarrow> service" where
  "SynchronizeBeforeOperation rt SwitchToRuntime s =
     (let d = sv_d s;
          vs = (SynchronizeVarStoreInfo rt (d_vs d))\<lparr>NvInfo := NvInfo rt, MemInfo := MemInfo rt\<rparr>;
          s' = s\<lparr>sv_d := d\<lparr>d_vs := vs\<rparr>\<rparr>
      in if \<not> sv_Runtime s \<and> SwitchToRuntime then fst (VarExitBS False (s', SwitchToRuntime)) else s')"

definition SynchronizeAfterOperation :: "service \<Rightarrow> VARSTORE_INFO \<Rightarrow> VARSTORE_INFO" where
  "SynchronizeAfterOperation s rt =
     (let vs = d_vs (sv_d s)
      in (SynchronizeVarStoreInfo vs rt)\<lparr>NvInfo := NvInfo vs, MemInfo := MemInfo vs\<rparr>)"

definition SmmGetVariable ::
    "serv_env \<Rightarrow> bool \<Rightarrow> get_args \<Rightarrow> service \<times> VARSTORE_INFO \<Rightarrow> (get_result \<times> service \<times> VARSTORE_INFO) option" where
  "SmmGetVariable se sw a st =
     (case st of (s, rt) \<Rightarrow>
        map_option (\<lambda>(r, s'). (r, s', SynchronizeAfterOperation s' rt))
          (DxeGetVariable se a (SynchronizeBeforeOperation rt sw s)))"

definition SmmSetVariable ::
    "serv_env \<Rightarrow> bool \<Rightarrow> set_args \<Rightarrow> service \<times> VARSTORE_INFO \<Rightarrow> (efi_status \<times> service \<times> VARSTORE_INFO) option" where
  "SmmSetVariable se sw a st =
     (case st of (s, rt) \<Rightarrow>
        map_option (\<lambda>(r, s'). (r, s', SynchronizeAfterOperation s' rt))
          (DxeSetVariable se a (SynchronizeBeforeOperation rt sw s)))"

definition SmmGetNextVariableName ::
    "serv_env \<Rightarrow> bool \<Rightarrow> name_args \<Rightarrow> service \<times> VARSTORE_INFO
       \<Rightarrow> (efi_status option \<times> name_args \<times> service \<times> VARSTORE_INFO) option" where
  "SmmGetNextVariableName se sw a st =
     (case st of (s, rt) \<Rightarrow>
        map_option (\<lambda>(r, a', s'). (r, a', s', SynchronizeAfterOperation s' rt))
          (DxeGetNextVariableName se a (SynchronizeBeforeOperation rt sw s)))"

definition SmmQueryVariableInfo ::
    "bool \<Rightarrow> u32 \<Rightarrow> bool \<Rightarrow> bool \<Rightarrow> bool \<Rightarrow> service \<times> VARSTORE_INFO
       \<Rightarrow> (efi_status \<times> (nat \<times> nat \<times> nat) option) \<times> service" where
  "SmmQueryVariableInfo sw Attributes p q r st =
     (case st of (s, rt) \<Rightarrow>
        let s' = SynchronizeBeforeOperation rt sw s in (QueryVariableInfo Attributes p q r (d_vs (sv_d s')), s'))"

end
