(* ===== verification/NvramServiceFacts.thy ===== *)
theory NvramServiceFacts
  imports NvramService NvramUpdate
begin

text \<open>
  Properties of the variable services of \<open>NvramService\<close>: when the check of the stores does nothing, what
  the run-time services show of boot-time variables, that the recovery of \<^verbatim>\<open>SetVariable\<close> ends, the
  monotonic counter, the storage sizes, the list of the global variables and the relocation of the
  stores between the two copies of the driver.
\<close>

section \<open>Monotonic counter\<close>

definition count_of :: "u32 \<times> u32 option \<Rightarrow> nat" where
  "count_of c = unat (fst c) + 2 ^ 32 * (case snd c of Some h \<Rightarrow> unat h | None \<Rightarrow> 0)"

lemma unat_less_u32: "unat (x :: u32) < 2 ^ 32"
  using unsigned_less [of x, where ?'a = nat] by simp

lemma unat_Suc_u32:
  assumes "x + 1 \<noteq> (0 :: u32)"
  shows "unat (x + 1) = unat x + 1"
proof -
  have m: "unat (x + 1) = (unat x + 1) mod 2 ^ 32" by (simp add: unat_word_ariths)
  with assms unat_less_u32 [of x] show ?thesis
    by (cases "unat x + 1 = 2 ^ 32") (auto simp: unsigned_eq_0_iff [symmetric, where ?'a = nat])
qed

lemma GetNextMonotonicCount_low:
  "CounterLo c + 1 \<noteq> 0 \<Longrightarrow> GetNextMonotonicCount G S True (c, s) =
     ((EFI_SUCCESS, Some (CounterLo c, Some (CounterHi c))), c\<lparr>CounterLo := CounterLo c + 1\<rparr>, s)"
  by (simp add: GetNextMonotonicCount_def Let_def)

lemma GetNextMonotonicCount_high:
  assumes "CounterLo c + 1 = 0" "CounterHi c \<noteq> 0"
    and "GetNextMonotonicCount G S True (c, s) = ((EFI_SUCCESS, Some n), c', s')"
  shows "n = (CounterLo c, Some (CounterHi c + 1))" "CounterLo c' = 0" "CounterHi c' = CounterHi c + 1"
  using assms by (auto simp: GetNextMonotonicCount_def GetNextHighMonotonicCount_def Let_def
      split: prod.splits if_splits)

section \<open>The check of healthy stores\<close>

definition store_healthy :: "driver \<Rightarrow> bool" where
  "store_healthy d \<longleftrightarrow>
     (let flash = HybridStoreToRealStore (d_vs d) (nv_store (d_vs d))
      in fst (IsMainNvramStoreValid (d_mem d) flash (BackupAddress (d_vs d))) \<and> IsStoreOk (d_mem d) flash)"

lemma CheckStore_healthy: "store_healthy d \<Longrightarrow> CheckStore ne New0 r d = Some d"
  by (auto simp: CheckStore_def store_healthy_def Let_def split: prod.splits)

section \<open>The recovery ends\<close>

text \<open>\<^verbatim>\<open>SaveOnlyPreservedVars\<close> is only set by the recovery itself: every other operation clears it or
  leaves it clear.\<close>

lemma SelectiveFree_save [simp]: "SaveOnlyPreservedVars (SelectiveFree a b) = SaveOnlyPreservedVars b"
  by (simp add: SelectiveFree_def)

lemma SelectiveAllocate_save: "SelectiveAllocate p f n b = (a, b') \<Longrightarrow> SaveOnlyPreservedVars b' = SaveOnlyPreservedVars b"
  by (auto simp: SelectiveAllocate_def split: if_splits)

lemma NvErase_save: "NvErase dev p a n (b, m) = (ok, b', m') \<Longrightarrow> SaveOnlyPreservedVars b' = SaveOnlyPreservedVars b"
  by (auto simp: NvErase_def Let_def split: if_splits prod.splits option.splits dest: SelectiveAllocate_save)

lemma EraseBytes_save: "EraseBytes ne vs i a n (b, m) = (ok, b', m') \<Longrightarrow> SaveOnlyPreservedVars b' = SaveOnlyPreservedVars b"
  by (auto simp: EraseBytes_def HybridErase_def MemErase_def Let_def split: VARIABLE_INTERFACE.splits if_splits prod.splits
      dest: NvErase_save)

lemma CopyVariables_save:
  "CopyVariables ce p i n b m = Some (st, i', n', b', m') \<Longrightarrow>
     SaveOnlyPreservedVars b' \<longrightarrow> SaveOnlyPreservedVars b"
  "CopyVariables ce p i n b m = Some (st, i', n', b', m') \<Longrightarrow> st \<noteq> EFI_OUT_OF_RESOURCES \<Longrightarrow>
     \<not> SaveOnlyPreservedVars b'"
  by (auto simp: CopyVariables_def split: prod.splits option.splits dest: SelectiveAllocate_save)

lemma CopyVarStore_save:
  assumes "CopyVarStore ce (EraseBytes ne vs i) p h a n b m = Some (st, a', n', b', m')"
  shows "SaveOnlyPreservedVars b' \<Longrightarrow> SaveOnlyPreservedVars b" "\<not> EFI_ERROR st \<Longrightarrow> \<not> SaveOnlyPreservedVars b'"
  using assms
  by (auto simp: CopyVarStore_def Let_def split: prod.splits if_splits dest: EraseBytes_save CopyVariables_save)

lemma InitVolatileStore_save:
  "InitVolatileStore p i n h f b m = (st, i', b', m') \<Longrightarrow> SaveOnlyPreservedVars b' = SaveOnlyPreservedVars b"
  by (auto simp: InitVolatileStore_def Let_def split: prod.splits if_splits option.splits dest: SelectiveAllocate_save)

lemma CopyVarStoreToMemStore_save:
  assumes "CopyVarStoreToMemStore ne Info skip New0 vs b m = Some (st, i', n', b', m')"
  shows "SaveOnlyPreservedVars b' \<Longrightarrow> SaveOnlyPreservedVars b" "\<not> EFI_ERROR st \<Longrightarrow> \<not> SaveOnlyPreservedVars b'"
  using assms
  by (auto simp: CopyVarStoreToMemStore_def Let_def split: prod.splits if_splits Option.bind_splits
      dest: InitVolatileStore_save CopyVarStore_save)

lemma write_backup_store_save:
  "write_backup_store ne i Info New vs b m = Some (st, B, n', b', m') \<Longrightarrow> SaveOnlyPreservedVars b' \<Longrightarrow> SaveOnlyPreservedVars b"
  by (auto simp: write_backup_store_def Let_def split: prod.splits if_splits Option.bind_splits
      dest: CopyVarStore_save)

lemma UpdateFtVarstore_save:
  "UpdateFtVarstore ne i Info New vs b m = Some (st, B, n', vs', b', m') \<Longrightarrow> SaveOnlyPreservedVars b' \<Longrightarrow> SaveOnlyPreservedVars b"
  by (auto simp: UpdateFtVarstore_def Let_def split: prod.splits if_splits Option.bind_splits bool.splits
      dest: write_backup_store_save)

lemma NvramReinitialize_save: "NvramReinitialize d = Some d' \<Longrightarrow> d_b d' = d_b d"
  by (auto simp: NvramReinitialize_def Let_def split: Option.bind_splits)

lemma UpdateVarstore_save:
  assumes "UpdateVarstore ne ref Info i New d = Some (st, a, n, d')"
  shows "SaveOnlyPreservedVars (d_b d') \<Longrightarrow> SaveOnlyPreservedVars (d_b d)"
  using assms
  by (auto simp: UpdateVarstore_def Let_def split: prod.splits if_splits Option.bind_splits
      dest!: NvramReinitialize_save dest: UpdateFtVarstore_save CopyVarStore_save)

lemma switch_to_backup_save: "switch_to_backup d = Some d' \<Longrightarrow> d_b d' = d_b d"
  by (auto simp: switch_to_backup_def Let_def split: prod.splits bool.splits dest: NvramReinitialize_save)

lemma recover_store_save:
  assumes r: "recover_store ne New0 d = Some d'" and s: "SaveOnlyPreservedVars (d_b d')"
  shows "SaveOnlyPreservedVars (d_b d)"
proof -
  obtain st Info' New' b' m' where c: "CopyVarStoreToMemStore ne (nv_store (d_vs d)) None New0 (d_vs d) (d_b d) (d_mem d)
      = Some (st, Info', New', b', m')"
    using r by (auto simp: recover_store_def split: Option.bind_splits)
  have "SaveOnlyPreservedVars b'"
    using r c s
    by (auto simp: recover_store_def Let_def split: prod.splits if_splits Option.bind_splits
        dest!: UpdateVarstore_save)
  with CopyVarStoreToMemStore_save(1) [OF c] show ?thesis by simp
qed

lemma CheckStore_save:
  assumes "CheckStore ne New0 r d = Some d'"
  shows "SaveOnlyPreservedVars (d_b d') \<Longrightarrow> SaveOnlyPreservedVars (d_b d)"
  using assms
  by (auto simp: CheckStore_def Let_def split: prod.splits if_splits Option.bind_splits
      dest!: switch_to_backup_save NvramReinitialize_save recover_store_save)

lemma recovery_pass_save:
  assumes "recovery_pass se k i Var name guid A Data Old sec False d = Some (Some st, d')"
  shows "\<not> SaveOnlyPreservedVars (d_b d')"
proof -
  obtain st' Info' New b' m' where
    c: "CopyVarStoreToMemStore (se_ne se) (NvramInfo (d_vs d) ! k) Var ((se_New0 se)\<lparr>NvramAddress := 0\<rparr>)
          (d_vs d) (d_b d) (d_mem d) = Some (st', Info', New, b', m')"
    using assms by (auto simp: recovery_pass_def Let_def split: Option.bind_splits)
  have "\<not> EFI_ERROR st'"
  proof
    assume "EFI_ERROR st'"
    with assms c show False by (simp add: recovery_pass_def Let_def)
  qed
  from CopyVarStoreToMemStore_save(2) [OF c this] have b': "\<not> SaveOnlyPreservedVars b'" .
  show ?thesis
  proof
    assume "SaveOnlyPreservedVars (d_b d')"
    with assms c have "SaveOnlyPreservedVars b'"
      by (auto simp: recovery_pass_def Let_def split: prod.splits if_splits Option.bind_splits
          dest!: UpdateVarstore_save CheckStore_save)
    with b' show False ..
  qed
qed

section \<open>The services at run time\<close>

lemma healthy_ExitBS: "store_healthy (sv_d s) \<Longrightarrow> store_healthy (sv_d (fst (VarExitBS ev (s, sw))))"
  by (simp add: store_healthy_def VarExitBS_def Let_def nv_store_def)

lemma ExitBS_simps:
  "d_ix (sv_d (fst (VarExitBS ev (s, sw)))) = None" "sv_Runtime (fst (VarExitBS ev (s, sw)))"
  "HideBtVariables (fst (VarExitBS ev (s, sw))) = HideBtVariables s"
  "d_mem (sv_d (fst (VarExitBS ev (s, sw)))) = d_mem (sv_d s)" "d_vs (sv_d (fst (VarExitBS ev (s, sw)))) = d_vs (sv_d s)"
  by (simp_all add: VarExitBS_def Let_def IndexExitBs_def sv_Runtime_def)

lemma get_from_stores_no_index:
  assumes "d_ix (sv_d s) = None"
    and "r = NvGetVariable2 (d_mem (sv_d s)) (a\<lparr>ga_Attributes := True\<rparr>) (stores_in_use (d_vs (sv_d s)))"
    and "gr_Status r = EFI_SUCCESS" "gr_Attributes r = Some A"
  shows "get_from_stores a name guid n s =
    (if AreBtVariablesHidden s \<and> \<not> has A EFI_VARIABLE_RUNTIME_ACCESS
     then r\<lparr>gr_Status := EFI_NOT_FOUND, gr_Attributes := None, gr_Var := None\<rparr>
     else r\<lparr>gr_Attributes := (if ga_Attributes a then Some A else None), gr_Var := None\<rparr>, s)"
  using assms by (auto simp: get_from_stores_def IndexFindVariableEntry_def Let_def)

definition ex_service :: service where
  "ex_service = \<lparr>sv_d = \<lparr>d_mem = ex_mem, d_b = ex_buffers,
      d_vs = ex_vs\<lparr>NvramInfo := [ex_info], vs_NvInterface := NvInterface, AddressDelta := 0, NvramFlashAddress := 0\<rparr>,
      d_ix = None\<rparr>, HideBtVariables = True\<rparr>"

definition ex_serv_env :: serv_env where
  "ex_serv_env = \<lparr>se_ne = \<lparr>ne_dev = nor_dev, ne_src = 0, ne_StorePool = None, ne_TmpPool = None, ne_cks = False,
      ne_preserve = []\<rparr>, se_get_hooks = [], se_set_hooks = [], se_next_hooks = [], se_New0 = no_store,
     se_VerifyVariable = (\<lambda>n g A D old sec. (EFI_SUCCESS, A, D, sec))\<rparr>"

section \<open>The list of the global variables\<close>

text \<open>The names the specification reserves for \<^verbatim>\<open>EFI_GLOBAL_VARIABLE\<close>, as a predicate: a listed name, or
  one of three prefixes and four hexadecimal digits.\<close>

definition global_name :: "char16 list \<Rightarrow> u32 \<Rightarrow> bool" where
  "global_name n A \<longleftrightarrow>
     (\<exists>a. (n, a) \<in> set gStdEfiVarList \<and> (a = A \<or> A = 0))
     \<or> (A = RT_BS_NV \<or> A = 0)
        \<and> (\<exists>pre\<in>{''Boot'', ''Driver'', ''Key''}. \<exists>h. length h = 4 \<and> list_all is_hex_char h \<and> n = map of_char pre @ h)"

lemma wild_card_list:
  "gStdEfiVarListWildCard =
     [(map of_char ''Boot'' @ map of_char ''****'', RT_BS_NV), (map of_char ''Driver'' @ map of_char ''****'', RT_BS_NV),
      (map of_char ''Key'' @ map of_char ''****'', RT_BS_NV)]"
  by (simp add: gStdEfiVarListWildCard_def)

text \<open>A name matches an entry of the wild card list if it consists of the entry's prefix and four more
  characters; names of less than four characters make the length wrap, but match nothing.\<close>

lemma wild_match:
  assumes "length n < 2 ^ 63" "length p < 100"
  shows "uintn_add (uintn_sub (length n) 4) 4 = length (p @ map of_char ''****'')
      \<and> take (uintn_sub (length n) 4) (p @ map of_char ''****'') = take (uintn_sub (length n) 4) n
    \<longleftrightarrow> (\<exists>h. length h = 4 \<and> n = p @ h)"
proof (cases "4 \<le> length n")
  case True
  then have c: "uintn_sub (length n) 4 = length n - 4" using assms by simp
  then have a: "uintn_add (uintn_sub (length n) 4) 4 = length n" using True assms by (simp add: uintn_add_def)
  show ?thesis
  proof
    assume l: "uintn_add (uintn_sub (length n) 4) 4 = length (p @ map of_char ''****'')
      \<and> take (uintn_sub (length n) 4) (p @ map of_char ''****'') = take (uintn_sub (length n) 4) n"
    then have "length n = length p + 4" "take (length n - 4) n = p" using a c by simp_all
    then have "n = p @ drop (length p) n \<and> length (drop (length p) n) = 4"
      by (metis add_diff_cancel_left' add_diff_cancel_right' append_take_drop_id length_drop)
    then show "\<exists>h. length h = 4 \<and> n = p @ h" by blast
  next
    assume "\<exists>h. length h = 4 \<and> n = p @ h"
    with a c show "uintn_add (uintn_sub (length n) 4) 4 = length (p @ map of_char ''****'')
      \<and> take (uintn_sub (length n) 4) (p @ map of_char ''****'') = take (uintn_sub (length n) 4) n" by auto
  qed
next
  case False
  then have "uintn_sub (length n) 4 = 2 ^ 64 - (4 - length n)" by (simp add: uintn_sub_wrap)
  with False have "uintn_add (uintn_sub (length n) 4) 4 = length n" by (simp add: uintn_add_def mod_if)
  with False show ?thesis by auto
qed

section \<open>Properties\<close>

text \<open>C32: the recovery of \<^verbatim>\<open>SetVariable\<close> ends: the loop makes at most two passes, because the second one
  leaves \<^verbatim>\<open>SaveOnlyPreservedVars\<close> clear whenever it returns to the test of the loop.  A pass whose copy of
  the store fails ends the loop with the status there was before it.\<close>

theorem recovery_at_most_two_passes:
  "recovery_loop se k i Var name guid A Data Old sec True Status d =
     Option.bind (recovery_pass se k i Var name guid A Data Old sec True d)
       (\<lambda>(r, d1). case r of
          None \<Rightarrow> Some (Status, d1)
        | Some st1 \<Rightarrow>
            if SaveOnlyPreservedVars (d_b d1)
            then map_option (\<lambda>(r2, d2). (case r2 of None \<Rightarrow> st1 | Some st2 \<Rightarrow> st2, d2))
                   (recovery_pass se k i Var name guid A Data Old sec False d1)
            else Some (st1, d1))"
proof -
  have "recovery_loop se k i Var name guid A Data Old sec False st1 d1 =
      map_option (\<lambda>(r2, d2). (case r2 of None \<Rightarrow> st1 | Some st2 \<Rightarrow> st2, d2))
        (recovery_pass se k i Var name guid A Data Old sec False d1)" for st1 d1
    by (subst recovery_loop.simps) (auto dest: recovery_pass_save split: option.splits Option.bind_splits)
  then show ?thesis
    by (subst recovery_loop.simps, cases "recovery_pass se k i Var name guid A Data Old sec True d")
      (auto split: option.splits)
qed

text \<open>C36: what the run-time \<^verbatim>\<open>GetVariable\<close> shows while boot-time variables are hidden (the index is freed
  at \<^verbatim>\<open>ExitBootServices\<close>, so that the stores are searched): a variable without the run-time attribute is
  answered with \<^verbatim>\<open>EFI_NOT_FOUND\<close>, its attributes are not returned, but its size and its data have been
  copied to the caller's buffer all the same.\<close>

theorem hidden_variable_data:
  assumes "store_healthy (sv_d s)" "HideBtVariables s" "s' = fst (VarExitBS ev (s, sw))"
    and "ga_VariableName a = Some name" "ga_VendorGuid a = Some guid" "ga_DataSize a = Some n" "ga_Data a"
    and "gr_Status (GetVariableHook (se_get_hooks se) a) = EFI_UNSUPPORTED"
    and "r = NvGetVariable2 (d_mem (sv_d s)) (a\<lparr>ga_Attributes := True\<rparr>) (stores_in_use (d_vs (sv_d s)))"
    and "gr_Status r = EFI_SUCCESS" "gr_Attributes r = Some A"
  shows "DxeGetVariable se a s' = Some
    (if has A EFI_VARIABLE_RUNTIME_ACCESS
     then \<lparr>gr_Status = EFI_SUCCESS, gr_Attributes = (if ga_Attributes a then Some A else None),
            gr_DataSize = gr_DataSize r, gr_Data = gr_Data r, gr_Var = None\<rparr>
     else \<lparr>gr_Status = EFI_NOT_FOUND, gr_Attributes = None,
            gr_DataSize = gr_DataSize r, gr_Data = gr_Data r, gr_Var = None\<rparr>, s')"
proof -
  note X = ExitBS_simps [of ev s sw, folded assms(3)]
  have "store_healthy (sv_d s')" using healthy_ExitBS [OF assms(1)] assms(3) by simp
  then have "CheckStore (se_ne se) (se_New0 se) False (sv_d s') = Some (sv_d s')" by (rule CheckStore_healthy)
  moreover have "AreBtVariablesHidden s'" using X assms(2) by (simp add: AreBtVariablesHidden_def)
  moreover have "get_from_stores a name guid n s' =
    (if AreBtVariablesHidden s' \<and> \<not> has A EFI_VARIABLE_RUNTIME_ACCESS
     then r\<lparr>gr_Status := EFI_NOT_FOUND, gr_Attributes := None, gr_Var := None\<rparr>
     else r\<lparr>gr_Attributes := (if ga_Attributes a then Some A else None), gr_Var := None\<rparr>, s')"
    by (rule get_from_stores_no_index) (use assms X in simp_all)
  ultimately show ?thesis
    using assms(4-8,10) by (cases r) (simp add: DxeGetVariable_def)
qed

theorem hidden_variable_data_witness:
  "DxeGetVariable ex_serv_env (ex_get 3) (fst (VarExitBS True (ex_service, False))) = Some
    (\<lparr>gr_Status = EFI_NOT_FOUND, gr_Attributes = None, gr_DataSize = Some 3, gr_Data = Some [7, 8, 9], gr_Var = None\<rparr>,
     fst (VarExitBS True (ex_service, False)))"
proof -
  let ?r = "NvGetVariable2 (d_mem (sv_d ex_service)) (ex_get 3\<lparr>ga_Attributes := True\<rparr>) (stores_in_use (d_vs (sv_d ex_service)))"
  have h: "store_healthy (sv_d ex_service)" "HideBtVariables ex_service"
    "ga_VariableName (ex_get 3) = Some [65]" "ga_VendorGuid (ex_get 3) = Some ex_guid" "ga_DataSize (ex_get 3) = Some 3"
    "ga_Data (ex_get 3)" "gr_Status (GetVariableHook (se_get_hooks ex_serv_env) (ex_get 3)) = EFI_UNSUPPORTED"
    by code_simp+
  have r: "gr_Status ?r = EFI_SUCCESS" "gr_Attributes ?r = Some 3" "gr_DataSize ?r = Some 3" "gr_Data ?r = Some [7, 8, 9]"
    "\<not> has 3 EFI_VARIABLE_RUNTIME_ACCESS"
    by code_simp+
  from hidden_variable_data [OF h(1,2) refl h(3-7) refl r(1,2)] r(3-5) show ?thesis by simp
qed

text \<open>Two successful calls of \<^verbatim>\<open>GetNextMonotonicCount\<close> in a row return increasing counts exactly
  when the low half was not at its last value before the first of them.  At the overflow the first call
  returns the last low half with the new high half, and the next one zero with the same high half.\<close>

theorem monotonic_count:
  assumes "CounterHi c \<noteq> 0" "unat (CounterHi c) < 2 ^ 32 - 2"
    and "GetNextMonotonicCount G S True (c, s) = ((EFI_SUCCESS, Some n1), c1, s1)"
    and "GetNextMonotonicCount G S True (c1, s1) = ((EFI_SUCCESS, Some n2), c2, s2)"
  shows "count_of n1 < count_of n2 \<longleftrightarrow> CounterLo c \<noteq> 0xFFFFFFFF"
proof (cases "CounterLo c + 1 = 0")
  case True
  then have lo: "CounterLo c = 0xFFFFFFFF" by (simp add: add_eq_0_iff2)
  note H = GetNextMonotonicCount_high [OF True assms(1,3)]
  have "n2 = (0, Some (CounterHi c + 1))"
    using assms(4) GetNextMonotonicCount_low [of c1 G S s1] H by simp
  then show ?thesis using H lo by (simp add: count_of_def)
next
  case False
  then have lo: "CounterLo c \<noteq> 0xFFFFFFFF" by auto
  have n1: "n1 = (CounterLo c, Some (CounterHi c))" and c1: "c1 = c\<lparr>CounterLo := CounterLo c + 1\<rparr>"
    using assms(3) GetNextMonotonicCount_low [OF False, of G S s] by simp_all
  have l: "unat (CounterLo c1) = unat (CounterLo c) + 1" using unat_Suc_u32 [OF False] c1 by simp
  have "count_of n1 < count_of n2"
  proof (cases "CounterLo c1 + 1 = 0")
    case True
    have "CounterHi c1 \<noteq> 0" using assms(1) c1 by simp
    from GetNextMonotonicCount_high [OF True this assms(4)] have n2: "n2 = (CounterLo c1, Some (CounterHi c + 1))"
      using c1 by simp
    have "CounterHi c + 1 \<noteq> 0"
    proof
      assume "CounterHi c + 1 = 0"
      then have "CounterHi c = 0xFFFFFFFF" by (simp add: add_eq_0_iff2)
      with assms(2) show False by simp
    qed
    from unat_Suc_u32 [OF this] l show ?thesis by (simp add: n1 n2 count_of_def)
  next
    case False
    then have "n2 = (CounterLo c1, Some (CounterHi c))"
      using assms(4) GetNextMonotonicCount_low [OF False, of G S s1] c1 by simp
    with l show ?thesis by (simp add: n1 count_of_def)
  qed
  with lo show ?thesis by simp
qed

theorem monotonic_count_witness:
  "\<not> count_of (0xFFFFFFFF, Some 2) < count_of (0, Some 2)"
proof -
  let ?G = "\<lambda>s :: unit. (EFI_SUCCESS, [1, 0, 0, 0] :: u8 list, s)" and ?S = "\<lambda>(d :: u8 list) s :: unit. (EFI_SUCCESS, s)"
  let ?c = "\<lparr>CounterLo = 0xFFFFFFFF, CounterHi = 1\<rparr>"
  have 1: "GetNextMonotonicCount ?G ?S True (?c, ()) = ((EFI_SUCCESS, Some (0xFFFFFFFF, Some 2)), \<lparr>CounterLo = 0, CounterHi = 2\<rparr>, ())"
    by code_simp
  have 2: "GetNextMonotonicCount ?G ?S True (\<lparr>CounterLo = 0, CounterHi = 2\<rparr>, ()) =
      ((EFI_SUCCESS, Some (0, Some 2)), \<lparr>CounterLo = 1, CounterHi = 2\<rparr>, ())"
    by code_simp
  from monotonic_count [OF _ _ 1 2] show ?thesis by simp
qed





text \<open>Handing the state of a store to the other copy of the driver and back is the identity: the
  record ends are relocated by the distance of the two stores, whichever way it goes.\<close>

theorem SynchronizeVarStore_roundtrip:
  assumes "NvramAddress S < 2 ^ 64" "NvramAddress T < 2 ^ 64" "pFirstVar S < 2 ^ 64" "pEndOfVars S < 2 ^ 64"
    and "NvramAddress S \<le> pFirstVar S" "pFirstVar S \<le> pEndOfVars S"
    and "NvramAddress T + (pEndOfVars S - NvramAddress S) < 2 ^ 64"
  shows "SynchronizeVarStore (SynchronizeVarStore S T) S = S
    \<and> pEndOfVars (SynchronizeVarStore S T) = NvramAddress T + (pEndOfVars S - NvramAddress S)
    \<and> pFirstVar (SynchronizeVarStore S T) = NvramAddress T + (pFirstVar S - NvramAddress S)"
proof -
  have rel: "uintn_add x (uintn_sub b a) = b + (x - a)"
    if "a \<le> x" "x < 2 ^ 64" "b + (x - a) < 2 ^ 64" for a b x
  proof -
    have "int (uintn_add x (uintn_sub b a)) = (int x + (int b - int a)) mod 2 ^ 64"
      by (simp add: uintn_add_def uintn_sub_def zmod_int mod_add_right_eq)
    also have "\<dots> = int (b + (x - a))" using that by simp
    finally show ?thesis by simp
  qed
  have 1: "pEndOfVars (SynchronizeVarStore S T) = NvramAddress T + (pEndOfVars S - NvramAddress S)"
    "pFirstVar (SynchronizeVarStore S T) = NvramAddress T + (pFirstVar S - NvramAddress S)"
    using rel [of "NvramAddress S" "pEndOfVars S" "NvramAddress T"] rel [of "NvramAddress S" "pFirstVar S" "NvramAddress T"] assms
    by (auto simp: SynchronizeVarStore_def Let_def)
  have a: "NvramAddress (SynchronizeVarStore S T) = NvramAddress T" by (simp add: SynchronizeVarStore_def Let_def)
  have "pEndOfVars (SynchronizeVarStore (SynchronizeVarStore S T) S) = pEndOfVars S"
    "pFirstVar (SynchronizeVarStore (SynchronizeVarStore S T) S) = pFirstVar S"
    using rel [of "NvramAddress T" "pEndOfVars (SynchronizeVarStore S T)" "NvramAddress S"]
      rel [of "NvramAddress T" "pFirstVar (SynchronizeVarStore S T)" "NvramAddress S"] assms 1 a
    unfolding SynchronizeVarStore_def [of "SynchronizeVarStore S T"] Let_def by auto
  with 1 show ?thesis by (simp add: SynchronizeVarStore_def Let_def)
qed

theorem SynchronizeVarStore_roundtrip_witness:
  "SynchronizeVarStore (SynchronizeVarStore blank_info (blank_info\<lparr>NvramAddress := 0x2000\<rparr>)) blank_info = blank_info"
proof -
  let ?T = "blank_info\<lparr>NvramAddress := 0x2000\<rparr>"
  have "NvramAddress blank_info < 2 ^ 64" "NvramAddress ?T < 2 ^ 64" "pFirstVar blank_info < 2 ^ 64"
    "pEndOfVars blank_info < 2 ^ 64" "NvramAddress blank_info \<le> pFirstVar blank_info"
    "pFirstVar blank_info \<le> pEndOfVars blank_info"
    "NvramAddress ?T + (pEndOfVars blank_info - NvramAddress blank_info) < 2 ^ 64" by code_simp+
  from SynchronizeVarStore_roundtrip [OF this] show ?thesis by simp
qed

text \<open>The exchange of the stores works with a memory copy only.  The copy is filled from the backup
  store and the flash addresses are exchanged; but if the copy could not be allocated when the driver
  started (\<^verbatim>\<open>AddressDelta\<close> is zero and the store of the driver is the flash store itself), the driver goes
  on using the old store, and that same store is now recorded as the backup, to be erased by the next
  reclaim.\<close>

theorem swap_needs_memory_copy:
  assumes "NvramFlashAddress vs \<noteq> 0" "BackupAddress vs = Some B"
    and "SwapVarstoresInHybridMode Info vs m = (r, Info', vs', m')"
    and "rd_bytes m B (NvramSize (nv_store vs)) = content"
    and "AddressDelta vs = 0 \<longrightarrow> NvramAddress (nv_store vs) = NvramFlashAddress vs"
  shows "r \<and> NvramFlashAddress vs' = B \<and> BackupAddress vs' = Some (NvramFlashAddress vs)
    \<and> NvramAddress Info' = NvramAddress (nv_store vs)
    \<and> (if AddressDelta vs \<noteq> 0 then rd_bytes m' (NvramAddress Info') (NvramSize Info') = content
       else m' = m \<and> BackupAddress vs' = Some (NvramAddress Info'))"
proof -
  have n: "NvramInfo vs ! (case NvInfo vs of Some i \<Rightarrow> i | None \<Rightarrow> 0) = nv_store vs"
    by (simp add: nv_store_def the_addr_def)
  have i: "NvramAddress (NvInitInfoBuffer m a h f) = NvramAddress a" "NvramSize (NvInitInfoBuffer m a h f) = NvramSize a"
    for m a h f
    by (simp_all add: NvInitInfoBuffer_def Let_def split: option.splits)
  have w: "rd_bytes (wr_bytes m a (rd_bytes m B k)) a k = rd_bytes m B k" for a k
    using rd_bytes_wr_same [of m a "rd_bytes m B k"] by simp
  show ?thesis
    using assms by (auto simp: SwapVarstoresInHybridMode_def Let_def n i w split: if_splits)
qed

theorem swap_needs_memory_copy_witness:
  "\<exists>Info' vs' m'. SwapVarstoresInHybridMode ex_info
      (ex_vs\<lparr>NvramInfo := [ex_info\<lparr>NvramAddress := 8192\<rparr>], AddressDelta := 0, BackupAddress := Some 4096\<rparr>) (\<lambda>_. 0xFF)
      = (True, Info', vs', m') \<and> BackupAddress vs' = Some (NvramAddress Info')"
proof -
  let ?vs = "ex_vs\<lparr>NvramInfo := [ex_info\<lparr>NvramAddress := 8192\<rparr>], AddressDelta := 0, BackupAddress := Some 4096\<rparr>"
  have h: "NvramFlashAddress ?vs \<noteq> 0" "BackupAddress ?vs = Some 4096" "AddressDelta ?vs = 0"
    "AddressDelta ?vs = 0 \<longrightarrow> NvramAddress (nv_store ?vs) = NvramFlashAddress ?vs" by code_simp+
  obtain r I' vs' m' where s: "SwapVarstoresInHybridMode ex_info ?vs (\<lambda>_. 0xFF) = (r, I', vs', m')"
    by (metis prod_cases4)
  from swap_needs_memory_copy [OF h(1,2) s refl h(4)] h(3) s show ?thesis by auto
qed

end
