(* ===== verification/NvramPei.thy ===== *)
theory NvramPei
  imports NvramService
begin

text \<open>
  The variable services before the drivers are loaded: \<^verbatim>\<open>AmiModulePkg/NVRAM/NvramPei.c\<close>.  The module chooses
  between the main and the backup store, builds the array of stores that is searched in this boot and
  hands the choice to the driver in a hand-off block.

  The hooks of the build are functions of the interface they are given.  A hook that reads variables
  through the interface moves the cursors in it, so that it returns the interface afterwards.
\<close>

section \<open>The interface\<close>

record VARIABLE_PPI =
  vp_InfoCount :: nat
  vp_LastInfoIndex :: nat
  vp_NvramInfo :: "NVRAM_STORE_INFO list"
  vp_MainInfo :: "nat option"

definition vp_stores :: "VARIABLE_PPI \<Rightarrow> NVRAM_STORE_INFO list" where
  "vp_stores vp = take (vp_InfoCount vp) (vp_NvramInfo vp)"

type_synonym mode_hook = "VARIABLE_PPI \<Rightarrow> bool \<times> VARIABLE_PPI"
type_synonym pei_get_hook = "VARIABLE_PPI \<Rightarrow> get_args \<Rightarrow> get_result"
type_synonym pei_next_hook = "VARIABLE_PPI \<Rightarrow> name_args \<Rightarrow> efi_status \<times> name_args"

fun PeiGetVariableHook :: "pei_get_hook list \<Rightarrow> VARIABLE_PPI \<Rightarrow> get_args \<Rightarrow> get_result" where
  "PeiGetVariableHook [] This a = gr_fail EFI_UNSUPPORTED"
| "PeiGetVariableHook (h # hs) This a =
     (let r = h This a in if gr_Status r = EFI_UNSUPPORTED then PeiGetVariableHook hs This a else r)"

fun PeiGetNextVarNameHook :: "pei_next_hook list \<Rightarrow> VARIABLE_PPI \<Rightarrow> name_args \<Rightarrow> efi_status \<times> name_args" where
  "PeiGetNextVarNameHook [] This a = (EFI_UNSUPPORTED, a)"
| "PeiGetNextVarNameHook (h # hs) This a =
     (let r = h This a in if fst r = EFI_UNSUPPORTED then PeiGetNextVarNameHook hs This a else r)"

fun CallNvramModeDetectionHooks :: "mode_hook list \<Rightarrow> VARIABLE_PPI \<Rightarrow> bool \<times> VARIABLE_PPI" where
  "CallNvramModeDetectionHooks [] vp = (False, vp)"
| "CallNvramModeDetectionHooks (f # fs) vp =
     (case f vp of (Result, vp') \<Rightarrow> if Result then (True, vp') else CallNvramModeDetectionHooks fs vp')"

section \<open>Reading variables\<close>

definition VarPpi2GetVariable :: "pei_get_hook list \<Rightarrow> memory \<Rightarrow> VARIABLE_PPI \<Rightarrow> get_args \<Rightarrow> get_result" where
  "VarPpi2GetVariable hooks m This a =
     (let r = PeiGetVariableHook hooks This a
      in if gr_Status r \<noteq> EFI_UNSUPPORTED then r else NvGetVariable2 m a (vp_stores This))"

text \<open>No pointer is tested: a \<^verbatim>\<open>NULL\<close> argument is dereferenced.\<close>

definition VarPpi2GetNextVariableName ::
    "pei_next_hook list \<Rightarrow> memory \<Rightarrow> VARIABLE_PPI \<Rightarrow> name_args
       \<Rightarrow> (efi_status option \<times> name_args \<times> VARIABLE_PPI) option" where
  "VarPpi2GetNextVariableName hooks m This a =
     (let (st, a') = PeiGetNextVarNameHook hooks This a
      in if st \<noteq> EFI_UNSUPPORTED then Some (Some st, a', This)
         else case (na_VariableNameSize a, na_VariableName a, na_VendorGuid a) of
                (Some sz, Some name, Some guid) \<Rightarrow>
                  do {
                    (st', r, infos, lst) \<leftarrow>
                      NvGetNextVariableName2 m sz name guid (vp_stores This) (Some (vp_LastInfoIndex This)) False;
                    Some (st', r, This\<lparr>vp_NvramInfo := infos @ drop (vp_InfoCount This) (vp_NvramInfo This),
                                       vp_LastInfoIndex := the_addr lst\<rparr>)
                  }
              | _ \<Rightarrow> None)"

text \<open>The first version of the interface looks for the second one and calls it (\<^verbatim>\<open>PeiGetVariable\<close> and
  \<^verbatim>\<open>PeiGetNextVariableName\<close> of \<^verbatim>\<open>PeiLib.c\<close>); the result of the search is an argument.\<close>

definition PeiGetVariable ::
    "efi_status + VARIABLE_PPI \<Rightarrow> pei_get_hook list \<Rightarrow> memory \<Rightarrow> get_args \<Rightarrow> get_result" where
  "PeiGetVariable located hooks m a =
     (case located of Inl st \<Rightarrow> gr_fail st | Inr vp \<Rightarrow> VarPpi2GetVariable hooks m vp a)"

definition VarPpiGetVariable ::
    "efi_status + VARIABLE_PPI \<Rightarrow> pei_get_hook list \<Rightarrow> memory \<Rightarrow> get_args \<Rightarrow> get_result" where
  "VarPpiGetVariable located hooks m a = PeiGetVariable located hooks m a"

definition PeiGetNextVariableName ::
    "efi_status + VARIABLE_PPI \<Rightarrow> pei_next_hook list \<Rightarrow> memory \<Rightarrow> name_args
       \<Rightarrow> (efi_status option \<times> name_args \<times> (efi_status + VARIABLE_PPI)) option" where
  "PeiGetNextVariableName located hooks m a =
     (case located of
        Inl st \<Rightarrow> Some (Some st, a, located)
      | Inr vp \<Rightarrow> map_option (\<lambda>(st, a', vp'). (st, a', Inr vp')) (VarPpi2GetNextVariableName hooks m vp a))"

definition VarPpiGetNextVariableName ::
    "efi_status + VARIABLE_PPI \<Rightarrow> pei_next_hook list \<Rightarrow> memory \<Rightarrow> name_args
       \<Rightarrow> (efi_status option \<times> name_args \<times> (efi_status + VARIABLE_PPI)) option" where
  "VarPpiGetNextVariableName located hooks m a = PeiGetNextVariableName located hooks m a"

section \<open>Start-up\<close>

text \<open>The board's addresses and sizes, the build switches, the hooks, the results of the services of the
  PEI core, and what the allocated block holds.\<close>

record pei_env =
  pe_NvramAddress :: nat
  pe_BackupAddress :: "nat option"
  pe_NvramSize :: nat
  pe_HeaderLength :: nat
  pe_NvSimulation :: bool
  pe_MfgSupport :: bool
  pe_mfg_hooks :: "mode_hook list"
  pe_reset_hooks :: "mode_hook list"
  pe_default_hooks :: "mode_hook list"
  pe_Compatible :: mode_hook
  pe_AllocatePool :: efi_status
  pe_CreateHob :: efi_status
  pe_InstallPpi :: efi_status
  pe_NvramInfo0 :: "NVRAM_STORE_INFO list"

definition IsMfgMode :: "pei_env \<Rightarrow> mode_hook" where
  "IsMfgMode pe vp = (if pe_MfgSupport pe then CallNvramModeDetectionHooks (pe_mfg_hooks pe) vp else (False, vp))"

definition IsResetConfigMode :: "pei_env \<Rightarrow> mode_hook" where
  "IsResetConfigMode pe vp = CallNvramModeDetectionHooks (pe_reset_hooks pe) vp"

definition IsDefaultConfigMode :: "pei_env \<Rightarrow> mode_hook" where
  "IsDefaultConfigMode pe vp = CallNvramModeDetectionHooks (pe_default_hooks pe) vp"

text \<open>The store in use, the address of the other one, and whether neither can be used.\<close>

definition pei_main_store :: "memory \<Rightarrow> pei_env \<Rightarrow> NVRAM_STORE_INFO \<times> nat option \<times> bool" where
  "pei_main_store m pe =
     (let Main0 = no_store\<lparr>NvramAddress := pe_NvramAddress pe, NvramSize := pe_NvramSize pe\<rparr>;
          (Main1, Backup, Corrupted) =
            (case IsMainNvramStoreValid m Main0 (pe_BackupAddress pe) of
               (True, _) \<Rightarrow> (Main0, pe_BackupAddress pe, False)
             | (False, BackupStoreValid) \<Rightarrow>
                 if BackupStoreValid = Some True
                 then (Main0\<lparr>NvramAddress := the_addr (pe_BackupAddress pe)\<rparr>, Some (NvramAddress Main0), False)
                 else (Main0, pe_BackupAddress pe, True));
          Main = NvInitInfoBuffer m Main1 (pe_HeaderLength pe) NVRAM_STORE_FLAG_NON_VALATILE
      in (Main, Backup, Corrupted \<or> rd 4 m (NvramAddress Main + Signature_offset) \<noteq> FV_SIGNATURE))"

text \<open>Adding to the array of stores; \<open>None\<close> if it has no room.\<close>

definition ppi_add :: "NVRAM_STORE_INFO \<Rightarrow> VARIABLE_PPI \<Rightarrow> VARIABLE_PPI option" where
  "ppi_add info vp =
     (if vp_InfoCount vp < length (vp_NvramInfo vp)
      then Some (vp\<lparr>vp_NvramInfo := (vp_NvramInfo vp)[vp_InfoCount vp := info],
                    vp_InfoCount := Suc (vp_InfoCount vp)\<rparr>)
      else None)"

definition ppi_add_main :: "NVRAM_STORE_INFO \<Rightarrow> VARIABLE_PPI \<Rightarrow> VARIABLE_PPI option" where
  "ppi_add_main Main vp = ppi_add Main (vp\<lparr>vp_MainInfo := Some (vp_InfoCount vp)\<rparr>)"

definition ppi_add_defaults ::
    "memory \<Rightarrow> char16 list \<Rightarrow> NVRAM_STORE_INFO \<Rightarrow> VARIABLE_PPI \<Rightarrow> (bool \<times> VARIABLE_PPI) option" where
  "ppi_add_defaults m name Main vp =
     (case NvGetDefaultsInfo m name Main (vp_NvramInfo vp ! vp_InfoCount vp) of
        None \<Rightarrow> Some (False, vp)
      | Some d \<Rightarrow> map_option (Pair True) (ppi_add d vp))"

text \<open>The interface the detection hooks are given, with the main store only.\<close>

definition pei_tmp :: "NVRAM_STORE_INFO \<Rightarrow> VARIABLE_PPI \<Rightarrow> VARIABLE_PPI" where
  "pei_tmp Main vp =
     vp\<lparr>vp_NvramInfo := (vp_NvramInfo vp)[0 := Main], vp_MainInfo := Some 0, vp_InfoCount := 1\<rparr>"

definition pei_stores ::
    "memory \<Rightarrow> pei_env \<Rightarrow> NVRAM_STORE_INFO \<Rightarrow> VARIABLE_PPI \<Rightarrow> (VARIABLE_PPI \<times> u32) option" where
  "pei_stores m pe Main vp0 =
     (let (Mfg, Tmp1) = IsMfgMode pe (pei_tmp Main vp0)
      in do {
        (mfg, vp1) \<leftarrow> (if Mfg then ppi_add_defaults m MfgDefaults Main vp0 else Some (False, vp0));
        let mode = (if mfg then NVRAM_MODE_MANUFACTORING else 0);
        let (ResetConfigMode, Tmp2) = IsResetConfigMode pe Tmp1;
        (if \<not> ResetConfigMode \<and> \<not> fst (IsDefaultConfigMode pe Tmp2)
         then do {
           vp2 \<leftarrow> ppi_add_main Main vp1;
           (_, vp3) \<leftarrow> ppi_add_defaults m StdDefaults Main vp2;
           Some (vp3, mode)
         }
         else do {
           (_, vp2) \<leftarrow> ppi_add_defaults m StdDefaults Main vp1;
           (if ResetConfigMode then Some (vp2\<lparr>vp_MainInfo := None\<rparr>, mode OR NVRAM_MODE_RESET_CONFIGURATION)
            else map_option (\<lambda>vp3. (vp3, mode OR NVRAM_MODE_DEFAULT_CONFIGURATION)) (ppi_add_main Main vp2))
         })
      })"

text \<open>The result: the status, the interface that was installed and the hand-off block that was created.\<close>

definition PeiInitNVHelper ::
    "memory \<Rightarrow> pei_env \<Rightarrow> (efi_status \<times> VARIABLE_PPI option \<times> NVRAM_HOB option) option" where
  "PeiInitNVHelper m pe =
     (if EFI_ERROR (pe_AllocatePool pe) then Some (pe_AllocatePool pe, None, None)
      else
        let vp0 = \<lparr>vp_InfoCount = 0, vp_LastInfoIndex = 0, vp_NvramInfo = pe_NvramInfo0 pe, vp_MainInfo = None\<rparr>;
            (Main, Backup, NvramIsCorrupted) = pei_main_store m pe
        in do {
          (vp, NvramMode) \<leftarrow>
            (if NvramIsCorrupted then Some (vp0, NVRAM_MODE_RESET_CONFIGURATION)
             else do {
               (vp1, mode) \<leftarrow> pei_stores m pe Main vp0;
               let (Compatible, vp2) = pe_Compatible pe vp1;
               Some (if Compatible then vp2 else vp2\<lparr>vp_MainInfo := None, vp_InfoCount := 0\<rparr>, mode)
             });
          Some (pe_InstallPpi pe, Some vp,
                if EFI_ERROR (pe_CreateHob pe) then None
                else Some \<lparr>hob_NvramAddress = NvramAddress Main, hob_BackupAddress = the_addr Backup,
                           hob_NvramSize = NvramSize Main mod 2 ^ 32, hob_HeaderLength = pe_HeaderLength pe,
                           hob_NvramMode = (if pe_NvSimulation pe then NvramMode OR NVRAM_MODE_SIMULATION
                                            else NvramMode)\<rparr>)
        })"

definition PeiInitNV :: "memory \<Rightarrow> pei_env \<Rightarrow> (efi_status \<times> VARIABLE_PPI option \<times> NVRAM_HOB option) option" where
  "PeiInitNV m pe = PeiInitNVHelper m pe"

end
