(* ===== verification/NvramPeiFacts.thy ===== *)
theory NvramPeiFacts
  imports NvramPei
begin

text \<open>
  What the module hands on: the array of stores in the order of the mode in the hand-off block, which is the
  order in which the driver of the next phase will search.
\<close>

section \<open>The order of the stores\<close>

definition defaults :: "memory \<Rightarrow> char16 list \<Rightarrow> NVRAM_STORE_INFO \<Rightarrow> NVRAM_STORE_INFO list" where
  "defaults m name Main = (case NvGetDefaultsInfo m name Main no_store of None \<Rightarrow> [] | Some d \<Rightarrow> [d])"

definition pei_order :: "memory \<Rightarrow> u32 \<Rightarrow> NVRAM_STORE_INFO \<Rightarrow> NVRAM_STORE_INFO list" where
  "pei_order m mode Main =
     (if has mode NVRAM_MODE_MANUFACTORING then defaults m MfgDefaults Main else [])
     @ (if has mode NVRAM_MODE_RESET_CONFIGURATION then defaults m StdDefaults Main
        else if has mode NVRAM_MODE_DEFAULT_CONFIGURATION then defaults m StdDefaults Main @ [Main]
        else Main # defaults m StdDefaults Main)"

text \<open>A store without the cursor of the enumeration, and a hook that moves nothing but the cursors.\<close>

definition quiet :: "NVRAM_STORE_INFO \<Rightarrow> NVRAM_STORE_INFO" where
  "quiet i = i\<lparr>pLastReturned := None\<rparr>"

definition reads_only :: "mode_hook \<Rightarrow> bool" where
  "reads_only f \<longleftrightarrow>
     (\<forall>vp. vp_InfoCount (snd (f vp)) = vp_InfoCount vp
        \<and> map quiet (vp_NvramInfo (snd (f vp))) = map quiet (vp_NvramInfo vp))"

lemma NvInitInfoBuffer_place:
  "NvramAddress i = NvramAddress j \<Longrightarrow> NvramSize i = NvramSize j \<Longrightarrow> NvInitInfoBuffer m i h f = NvInitInfoBuffer m j h f"
  by (cases i; cases j) (simp add: NvInitInfoBuffer_def Let_def)

lemma NvGetDefaultsInfo_out: "NvGetDefaultsInfo m name Main i = NvGetDefaultsInfo m name Main j"
  unfolding NvGetDefaultsInfo_def by (auto split: option.split intro: NvInitInfoBuffer_place)

lemma NvGetDefaultsInfo_defaults:
  "defaults m name Main = (case NvGetDefaultsInfo m name Main i of None \<Rightarrow> [] | Some d \<Rightarrow> [d])"
  unfolding defaults_def NvGetDefaultsInfo_out [of m name Main no_store i] ..

lemma length_defaults: "length (defaults m name Main) \<le> 1"
  by (simp add: defaults_def split: option.split)

text \<open>An interface with the stores \<open>S\<close> and room for \<open>n\<close> more.\<close>

definition ppi_has :: "NVRAM_STORE_INFO list \<Rightarrow> nat \<Rightarrow> VARIABLE_PPI \<Rightarrow> bool" where
  "ppi_has S n vp \<longleftrightarrow> vp_stores vp = S \<and> vp_InfoCount vp = length S \<and> length (vp_NvramInfo vp) = length S + n"

lemma ppi_has_MainInfo [simp]: "ppi_has S n (vp\<lparr>vp_MainInfo := x\<rparr>) = ppi_has S n vp"
  by (simp add: ppi_has_def vp_stores_def)

lemma ppi_add_has:
  assumes "ppi_has S (Suc n) vp"
  obtains vp' where "ppi_add i vp = Some vp'" "ppi_has (S @ [i]) n vp'"
proof
  have l: "vp_InfoCount vp = length S" "length (vp_NvramInfo vp) = length S + Suc n" and t: "take (vp_InfoCount vp) (vp_NvramInfo vp) = S"
    using assms unfolding ppi_has_def vp_stores_def by blast+
  have a: "take (length S) (vp_NvramInfo vp) = S" using t unfolding l(1) .
  show "ppi_add i vp = Some (vp\<lparr>vp_NvramInfo := (vp_NvramInfo vp)[length S := i], vp_InfoCount := Suc (length S)\<rparr>)"
    using l by (simp add: ppi_add_def)
  show "ppi_has (S @ [i]) n (vp\<lparr>vp_NvramInfo := (vp_NvramInfo vp)[length S := i], vp_InfoCount := Suc (length S)\<rparr>)"
    using l a by (simp add: ppi_has_def vp_stores_def take_Suc_conv_app_nth)
qed

lemma ppi_add_main_has:
  assumes "ppi_has S (Suc n) vp"
  obtains vp' where "ppi_add_main i vp = Some vp'" "ppi_has (S @ [i]) n vp'"
proof -
  have "ppi_has S (Suc n) (vp\<lparr>vp_MainInfo := Some (vp_InfoCount vp)\<rparr>)" using assms by simp
  then show thesis by (rule ppi_add_has) (rule that, simp_all add: ppi_add_main_def)
qed

lemma ppi_add_defaults_has:
  assumes "ppi_has S (Suc n) vp"
  obtains vp' k where "ppi_add_defaults m name Main vp = Some (defaults m name Main \<noteq> [], vp')"
    "ppi_has (S @ defaults m name Main) k vp'" "n \<le> k"
proof (cases "NvGetDefaultsInfo m name Main (vp_NvramInfo vp ! vp_InfoCount vp)")
  case None
  then have "defaults m name Main = []" using NvGetDefaultsInfo_defaults [of m name Main "vp_NvramInfo vp ! vp_InfoCount vp"] by simp
  with that [of vp "Suc n"] None assms show thesis by (simp add: ppi_add_defaults_def)
next
  case (Some d)
  then have d: "defaults m name Main = [d]"
    using NvGetDefaultsInfo_defaults [of m name Main "vp_NvramInfo vp ! vp_InfoCount vp"] by simp
  obtain vp' where "ppi_add d vp = Some vp'" "ppi_has (S @ [d]) n vp'" by (rule ppi_add_has [OF assms])
  with that [of vp' n] Some d show thesis by (simp add: ppi_add_defaults_def)
qed

text \<open>The hooks decide the mode.\<close>

definition pei_modes :: "memory \<Rightarrow> pei_env \<Rightarrow> NVRAM_STORE_INFO \<Rightarrow> VARIABLE_PPI \<Rightarrow> u32 \<Rightarrow> bool" where
  "pei_modes m pe Main Tmp mode \<longleftrightarrow>
     (case IsMfgMode pe Tmp of (Mfg, Tmp1) \<Rightarrow>
      case IsResetConfigMode pe Tmp1 of (Reset, Tmp2) \<Rightarrow>
        has mode NVRAM_MODE_MANUFACTORING = (Mfg \<and> defaults m MfgDefaults Main \<noteq> [])
        \<and> has mode NVRAM_MODE_RESET_CONFIGURATION = Reset
        \<and> has mode NVRAM_MODE_DEFAULT_CONFIGURATION = (\<not> Reset \<and> fst (IsDefaultConfigMode pe Tmp2)))"

lemma mode_bits:
  "has (if b then NVRAM_MODE_MANUFACTORING else 0) NVRAM_MODE_MANUFACTORING = b"
  "\<not> has (if b then NVRAM_MODE_MANUFACTORING else 0) NVRAM_MODE_RESET_CONFIGURATION"
  "\<not> has (if b then NVRAM_MODE_MANUFACTORING else 0) NVRAM_MODE_DEFAULT_CONFIGURATION"
  "has ((if b then NVRAM_MODE_MANUFACTORING else 0) OR NVRAM_MODE_RESET_CONFIGURATION) NVRAM_MODE_MANUFACTORING = b"
  "has ((if b then NVRAM_MODE_MANUFACTORING else 0) OR NVRAM_MODE_RESET_CONFIGURATION) NVRAM_MODE_RESET_CONFIGURATION"
  "\<not> has ((if b then NVRAM_MODE_MANUFACTORING else 0) OR NVRAM_MODE_RESET_CONFIGURATION) NVRAM_MODE_DEFAULT_CONFIGURATION"
  "has ((if b then NVRAM_MODE_MANUFACTORING else 0) OR NVRAM_MODE_DEFAULT_CONFIGURATION) NVRAM_MODE_MANUFACTORING = b"
  "\<not> has ((if b then NVRAM_MODE_MANUFACTORING else 0) OR NVRAM_MODE_DEFAULT_CONFIGURATION) NVRAM_MODE_RESET_CONFIGURATION"
  "has ((if b then NVRAM_MODE_MANUFACTORING else 0) OR NVRAM_MODE_DEFAULT_CONFIGURATION) NVRAM_MODE_DEFAULT_CONFIGURATION"
  by (cases b; simp add: has_def nv_consts)+

lemma pei_stores_order:
  assumes "ppi_has [] 3 vp0"
  obtains vp mode k where "pei_stores m pe Main vp0 = Some (vp, mode)" "ppi_has (pei_order m mode Main) k vp"
    "pei_modes m pe Main (pei_tmp Main vp0) mode"
proof -
  obtain Mfg Tmp1 where M: "IsMfgMode pe (pei_tmp Main vp0) = (Mfg, Tmp1)" by fastforce
  obtain Reset Tmp2 where R: "IsResetConfigMode pe Tmp1 = (Reset, Tmp2)" by fastforce
  let ?D = "fst (IsDefaultConfigMode pe Tmp2)"
  let ?mfg = "if Mfg then defaults m MfgDefaults Main else []" and ?std = "defaults m StdDefaults Main"
  obtain vp1 k1 where 1: "(if Mfg then ppi_add_defaults m MfgDefaults Main vp0 else Some (False, vp0)) = Some (?mfg \<noteq> [], vp1)"
    "ppi_has ?mfg k1 vp1" "2 \<le> k1"
  proof (cases Mfg)
    case True
    obtain vp' k where "ppi_add_defaults m MfgDefaults Main vp0 = Some (defaults m MfgDefaults Main \<noteq> [], vp')"
      "ppi_has ([] @ defaults m MfgDefaults Main) k vp'" "2 \<le> k"
      by (rule ppi_add_defaults_has [of "[]" 2 vp0 m MfgDefaults Main]) (use assms in \<open>simp_all add: numeral_3_eq_3\<close>)
    with True that show thesis by simp
  next
    case False
    with assms that [of vp0 3] show thesis by simp
  qed
  let ?mode1 = "if ?mfg \<noteq> [] then NVRAM_MODE_MANUFACTORING else 0"
  obtain j where k1: "k1 = Suc (Suc j)" using 1(3) by (metis add_2_eq_Suc le_iff_add)
  have J: "ppi_has ?mfg (Suc (Suc j)) vp1" using 1(2) by (simp only: k1)
  note body = pei_stores_def Let_def M prod.case 1(1) bind.bind_lunit R
  consider (normal) "\<not> Reset" "\<not> ?D" | (reset) Reset | (dflt) "\<not> Reset" ?D by blast
  then show thesis
  proof cases
    case normal
    obtain vp2 where 2: "ppi_add_main Main vp1 = Some vp2" "ppi_has (?mfg @ [Main]) (Suc j) vp2" by (rule ppi_add_main_has [OF J])
    obtain vp3 k where 3: "ppi_add_defaults m StdDefaults Main vp2 = Some (?std \<noteq> [], vp3)"
      "ppi_has ((?mfg @ [Main]) @ ?std) k vp3" "j \<le> k" by (rule ppi_add_defaults_has [OF 2(2)])
    show thesis
    proof (rule that)
      show "pei_stores m pe Main vp0 = Some (vp3, ?mode1)" unfolding body using normal 2(1) 3(1) by simp
      show "ppi_has (pei_order m ?mode1 Main) k vp3" using 3(2) by (auto simp: pei_order_def mode_bits)
      show "pei_modes m pe Main (pei_tmp Main vp0) ?mode1" using normal by (simp add: pei_modes_def M R mode_bits)
    qed
  next
    case reset
    obtain vp2 k where 2: "ppi_add_defaults m StdDefaults Main vp1 = Some (?std \<noteq> [], vp2)"
      "ppi_has (?mfg @ ?std) k vp2" "Suc j \<le> k" by (rule ppi_add_defaults_has [OF J])
    show thesis
    proof (rule that)
      show "pei_stores m pe Main vp0 = Some (vp2\<lparr>vp_MainInfo := None\<rparr>, ?mode1 OR NVRAM_MODE_RESET_CONFIGURATION)"
        unfolding body using reset 2(1) by simp
      show "ppi_has (pei_order m (?mode1 OR NVRAM_MODE_RESET_CONFIGURATION) Main) k (vp2\<lparr>vp_MainInfo := None\<rparr>)"
        using 2(2) by (auto simp: pei_order_def mode_bits ppi_has_def vp_stores_def)
      show "pei_modes m pe Main (pei_tmp Main vp0) (?mode1 OR NVRAM_MODE_RESET_CONFIGURATION)"
        using reset by (simp add: pei_modes_def M R mode_bits)
    qed
  next
    case dflt
    obtain vp2 k where 2: "ppi_add_defaults m StdDefaults Main vp1 = Some (?std \<noteq> [], vp2)"
      "ppi_has (?mfg @ ?std) k vp2" "Suc j \<le> k" by (rule ppi_add_defaults_has [OF J])
    obtain i where i: "k = Suc i" using 2(3) by (cases k) auto
    obtain vp3 where 3: "ppi_add_main Main vp2 = Some vp3" "ppi_has ((?mfg @ ?std) @ [Main]) i vp3"
      by (rule ppi_add_main_has [OF 2(2) [unfolded i]])
    show thesis
    proof (rule that)
      show "pei_stores m pe Main vp0 = Some (vp3, ?mode1 OR NVRAM_MODE_DEFAULT_CONFIGURATION)"
        unfolding body using dflt 2(1) 3(1) by simp
      show "ppi_has (pei_order m (?mode1 OR NVRAM_MODE_DEFAULT_CONFIGURATION) Main) i vp3"
        using 3(2) by (auto simp: pei_order_def mode_bits)
      show "pei_modes m pe Main (pei_tmp Main vp0) (?mode1 OR NVRAM_MODE_DEFAULT_CONFIGURATION)"
        using dflt by (simp add: pei_modes_def M R mode_bits)
    qed
  qed
qed

lemma has_simulation:
  "has (x OR NVRAM_MODE_SIMULATION) NVRAM_MODE_MANUFACTORING = has x NVRAM_MODE_MANUFACTORING"
  "has (x OR NVRAM_MODE_SIMULATION) NVRAM_MODE_RESET_CONFIGURATION = has x NVRAM_MODE_RESET_CONFIGURATION"
  "has (x OR NVRAM_MODE_SIMULATION) NVRAM_MODE_DEFAULT_CONFIGURATION = has x NVRAM_MODE_DEFAULT_CONFIGURATION"
  by (simp_all add: has_def nv_consts bit.conj_disj_distrib2)

lemma NvInitInfoBuffer_keeps [simp]:
  "NvramAddress (NvInitInfoBuffer m i h f) = NvramAddress i" "NvramSize (NvInitInfoBuffer m i h f) = NvramSize i"
  by (simp_all add: NvInitInfoBuffer_def Let_def split: option.split)

text \<open>The store in use is the one the driver sets up from the hand-off block.\<close>

lemma pei_main_store_eq:
  assumes "pei_main_store m pe = (Main, Backup, c)"
  shows "NvramSize Main = pe_NvramSize pe"
    "Main = NvInitInfoBuffer m (no_store\<lparr>NvramAddress := NvramAddress Main, NvramSize := pe_NvramSize pe\<rparr>)
        (pe_HeaderLength pe) NVRAM_STORE_FLAG_NON_VALATILE"
proof -
  obtain Main1 where M: "Main = NvInitInfoBuffer m Main1 (pe_HeaderLength pe) NVRAM_STORE_FLAG_NON_VALATILE"
    and s: "NvramSize Main1 = pe_NvramSize pe"
    using assms unfolding pei_main_store_def Let_def by (fastforce split: prod.splits bool.splits if_splits)
  show "NvramSize Main = pe_NvramSize pe" by (simp add: M s)
  show "Main = NvInitInfoBuffer m (no_store\<lparr>NvramAddress := NvramAddress Main, NvramSize := pe_NvramSize pe\<rparr>)
        (pe_HeaderLength pe) NVRAM_STORE_FLAG_NON_VALATILE"
    unfolding M by (rule NvInitInfoBuffer_place) (simp_all add: s)
qed

definition ppi0 :: "pei_env \<Rightarrow> VARIABLE_PPI" where
  "ppi0 pe = \<lparr>vp_InfoCount = 0, vp_LastInfoIndex = 0, vp_NvramInfo = pe_NvramInfo0 pe, vp_MainInfo = None\<rparr>"

definition pei_hob :: "pei_env \<Rightarrow> NVRAM_STORE_INFO \<Rightarrow> nat option \<Rightarrow> u32 \<Rightarrow> NVRAM_HOB" where
  "pei_hob pe Main Backup mode =
     \<lparr>hob_NvramAddress = NvramAddress Main, hob_BackupAddress = the_addr Backup, hob_NvramSize = pe_NvramSize pe,
      hob_HeaderLength = pe_HeaderLength pe, hob_NvramMode = mode\<rparr>"

lemma pei_simulation:
  "pei_order m (x OR NVRAM_MODE_SIMULATION) Main = pei_order m x Main"
  "pei_modes m pe Main t (x OR NVRAM_MODE_SIMULATION) = pei_modes m pe Main t x"
  by (simp_all add: pei_order_def pei_modes_def has_simulation)

lemma reads_only_stores:
  "reads_only f \<Longrightarrow> map quiet (vp_stores (snd (f vp))) = map quiet (vp_stores vp)"
  unfolding vp_stores_def reads_only_def take_map [symmetric] by metis

lemma PeiInitNV_stores:
  assumes "pe_AllocatePool pe = EFI_SUCCESS" "pe_CreateHob pe = EFI_SUCCESS" "length (pe_NvramInfo0 pe) = 3"
    and main: "pei_main_store m pe = (Main, Backup, False)" "pe_NvramSize pe < 2 ^ 32"
    and comp: "reads_only (pe_Compatible pe)" "\<forall>vp. fst (pe_Compatible pe vp)"
  shows "\<exists>vp mode. PeiInitNV m pe = Some (pe_InstallPpi pe, Some vp, Some (pei_hob pe Main Backup mode))
    \<and> map quiet (vp_stores vp) = map quiet (pei_order m mode Main) \<and> length (vp_stores vp) \<le> 3
    \<and> pei_modes m pe Main (pei_tmp Main (ppi0 pe)) mode"
proof -
  have "ppi_has [] 3 (ppi0 pe)" using assms(3) by (simp add: ppi_has_def ppi0_def vp_stores_def)
  then obtain vp1 mode k where 1: "pei_stores m pe Main (ppi0 pe) = Some (vp1, mode)"
    "ppi_has (pei_order m mode Main) k vp1" "pei_modes m pe Main (pei_tmp Main (ppi0 pe)) mode"
    by (rule pei_stores_order)
  let ?vp = "snd (pe_Compatible pe vp1)"
  let ?mode = "if pe_NvSimulation pe then mode OR NVRAM_MODE_SIMULATION else mode"
  obtain b vp2 where C: "pe_Compatible pe vp1 = (b, vp2)" by fastforce
  then have "b" using comp(2) by (metis fst_conv)
  have sz: "NvramSize Main mod 2 ^ 32 = pe_NvramSize pe" using pei_main_store_eq(1) [OF main(1)] main(2) by simp
  have "PeiInitNV m pe = Some (pe_InstallPpi pe, Some ?vp, Some (pei_hob pe Main Backup ?mode))"
    unfolding PeiInitNV_def PeiInitNVHelper_def assms(1,2) main(1) ppi0_def [symmetric] Let_def
    using 1(1) C \<open>b\<close> sz by (simp add: pei_hob_def)
  moreover have "map quiet (vp_stores ?vp) = map quiet (pei_order m ?mode Main)"
    using reads_only_stores [OF comp(1), of vp1] 1(2) by (simp add: ppi_has_def pei_simulation)
  moreover have "length (vp_stores ?vp) \<le> 3"
  proof -
    have "length (vp_stores ?vp) = length (pei_order m mode Main)"
      using reads_only_stores [OF comp(1), of vp1] 1(2) by (metis length_map ppi_has_def)
    moreover have "length (pei_order m mode Main) \<le> 3"
      using length_defaults [of m MfgDefaults Main] length_defaults [of m StdDefaults Main] by (simp add: pei_order_def)
    ultimately show ?thesis by simp
  qed
  moreover have "pei_modes m pe Main (pei_tmp Main (ppi0 pe)) ?mode" using 1(3) by (simp add: pei_simulation)
  ultimately show ?thesis by blast
qed

text \<open>C22: When one of the two stores is usable and its data are compatible, the module installs an interface
  whose array holds, within its three elements, the stores in the order of the mode: manufacturing defaults
  first, then the variables before the standard defaults, or behind them with the default configuration, or
  the defaults alone on a reset.  The hooks decide the mode, and the hand-off block has the mode, the store and
  the other store's address.\<close>

theorem PeiInitNV_order:
  assumes "pe_AllocatePool pe = EFI_SUCCESS" "pe_CreateHob pe = EFI_SUCCESS" "length (pe_NvramInfo0 pe) = 3"
    and main: "pei_main_store m pe = (Main, Backup, False)" "pe_NvramSize pe < 2 ^ 32"
    and comp: "reads_only (pe_Compatible pe)" "\<forall>vp. fst (pe_Compatible pe vp)"
  shows "\<exists>vp mode. PeiInitNV m pe = Some (pe_InstallPpi pe, Some vp, Some (pei_hob pe Main Backup mode))
    \<and> map quiet (vp_stores vp) = map quiet (pei_order m mode Main) \<and> length (vp_stores vp) \<le> 3
    \<and> pei_modes m pe Main (pei_tmp Main (ppi0 pe)) mode"
  by (rule PeiInitNV_stores [OF assms])

section \<open>The same order in the next phase\<close>

definition place :: "NVRAM_STORE_INFO \<Rightarrow> nat \<times> nat" where
  "place i = (NvramAddress i, NvramSize i)"

definition vs_has :: "NVRAM_STORE_INFO list \<Rightarrow> nat \<Rightarrow> VARSTORE_INFO \<Rightarrow> bool" where
  "vs_has S n vs \<longleftrightarrow> stores_in_use vs = S \<and> InfoCount vs = length S \<and> length (NvramInfo vs) = length S + n"

lemma vs_has_NvInfo [simp]: "vs_has S n (vs\<lparr>NvInfo := x\<rparr>) = vs_has S n vs" "vs_has S n (vs\<lparr>MemInfo := x\<rparr>) = vs_has S n vs"
  by (simp_all add: vs_has_def stores_in_use_def)

lemma add_store_has:
  assumes "vs_has S (Suc n) vs"
  shows "vs_has (S @ [i]) n (add_store i vs)"
proof -
  have l: "InfoCount vs = length S" "length (NvramInfo vs) = length S + Suc n" and t: "take (InfoCount vs) (NvramInfo vs) = S"
    using assms unfolding vs_has_def stores_in_use_def by blast+
  have a: "take (length S) (NvramInfo vs) = S" using t unfolding l(1) .
  show ?thesis using l a by (simp add: vs_has_def stores_in_use_def add_store_def take_Suc_conv_app_nth)
qed

lemma add_defaults_has:
  assumes "vs_has S (Suc n) vs"
  obtains k where "vs_has (S @ defaults m name Main) k (add_defaults m name Main vs)" "n \<le> k"
proof (cases "NvGetDefaultsInfo m name Main (NvramInfo vs ! InfoCount vs)")
  case None
  then have "defaults m name Main = []" using NvGetDefaultsInfo_defaults [of m name Main "NvramInfo vs ! InfoCount vs"] by simp
  with that [of "Suc n"] None assms show thesis by (simp add: add_defaults_def)
next
  case (Some d)
  then have "defaults m name Main = [d]" using NvGetDefaultsInfo_defaults [of m name Main "NvramInfo vs ! InfoCount vs"] by simp
  with that [of n] Some add_store_has [OF assms] show thesis by (simp add: add_defaults_def)
qed

lemma NvInfo_add [simp]: "NvInfo (add_store i vs) = NvInfo vs" "NvInfo (add_defaults m name Main vs) = NvInfo vs"
  by (simp_all add: add_store_def add_defaults_def split: option.split)

lemma place_EnumerateStore [simp]: "place (EnumerateStore m i) = place i"
  by (simp add: place_def EnumerateStore_def Let_def split: prod.split)

lemma place_hide [simp]: "place (i\<lparr>Flags := x\<rparr>) = place i"
  by (simp add: place_def)

lemma map_place_update: "map place (take n (xs[i := EnumerateStore m (xs ! i)])) = map place (take n xs)"
  by (cases "i < length xs") (auto intro!: nth_equalityI simp: nth_list_update)

text \<open>The variables and the standard defaults in the two orders.\<close>

lemma main_then_defaults:
  assumes "vs_has A (Suc (Suc (Suc n))) vs" "place X = place Main"
  obtains S k where "vs_has S (Suc k) (add_defaults m StdDefaults Main (add_store X (vs\<lparr>NvInfo := i\<rparr>)))"
    "map place S = map place (A @ Main # defaults m StdDefaults Main)"
proof -
  have "vs_has (A @ [X]) (Suc (Suc n)) (add_store X (vs\<lparr>NvInfo := i\<rparr>))" by (rule add_store_has) (use assms(1) in simp)
  then obtain k where k: "vs_has ((A @ [X]) @ defaults m StdDefaults Main) k (add_defaults m StdDefaults Main (add_store X (vs\<lparr>NvInfo := i\<rparr>)))"
    "Suc n \<le> k" by (rule add_defaults_has)
  then obtain l where "k = Suc l" by (cases k) auto
  with k(1) that [of "(A @ [X]) @ defaults m StdDefaults Main" l] assms(2) show thesis by simp
qed

lemma defaults_then_main:
  assumes "vs_has A (Suc (Suc (Suc n))) vs" "place X = place Main"
  obtains S k where "vs_has S (Suc k) (add_store X ((add_defaults m StdDefaults Main vs)\<lparr>NvInfo := i\<rparr>))"
    "map place S = map place (A @ defaults m StdDefaults Main @ [Main])"
proof -
  obtain k where k: "vs_has (A @ defaults m StdDefaults Main) k (add_defaults m StdDefaults Main vs)" "Suc (Suc n) \<le> k"
    by (rule add_defaults_has [OF assms(1)])
  define l where "l = k - 2"
  have l: "k = Suc (Suc l)" using k(2) by (simp add: l_def)
  have "vs_has ((A @ defaults m StdDefaults Main) @ [X]) (Suc l) (add_store X ((add_defaults m StdDefaults Main vs)\<lparr>NvInfo := i\<rparr>))"
    by (rule add_store_has) (use k(1) l in simp)
  with that assms(2) show thesis by simp
qed

lemma VarStoreDiscovery_order:
  assumes "length (NvramInfo vs) = 10" "\<not> has (NvramMode vs) NVRAM_MODE_RESET_CONFIGURATION"
  shows "map place (stores_in_use (VarStoreDiscovery m Main Mem vs))
    = map place (pei_order m (NvramMode vs) Main @ [Mem])"
proof -
  define M D where "M = has (NvramMode vs) NVRAM_MODE_MANUFACTORING" and "D = has (NvramMode vs) NVRAM_MODE_DEFAULT_CONFIGURATION"
  define vs2 where "vs2 = (if M then add_defaults m MfgDefaults Main (vs\<lparr>InfoCount := 0, LastInfoIndex := 0\<rparr>)
    else vs\<lparr>InfoCount := 0, LastInfoIndex := 0\<rparr>)"
  let ?mfg = "if M then defaults m MfgDefaults Main else []"
  let ?hide = "\<lambda>i. i\<lparr>Flags := Flags i OR NVRAM_STORE_FLAG_DO_NOT_ENUMERATE\<rparr>"
  define vs3 where "vs3 = (if \<not> D then add_defaults m StdDefaults Main (add_store (if M then ?hide Main else Main) (vs2\<lparr>NvInfo := Some (InfoCount vs2)\<rparr>))
    else add_store (?hide Main) ((add_defaults m StdDefaults Main vs2)\<lparr>NvInfo := Some (InfoCount (add_defaults m StdDefaults Main vs2))\<rparr>))"
  have 1: "vs_has [] (Suc 9) (vs\<lparr>InfoCount := 0, LastInfoIndex := 0\<rparr>)" using assms(1) by (simp add: vs_has_def stores_in_use_def)
  obtain k where k: "vs_has ?mfg k vs2" "9 \<le> k"
  proof (cases M)
    case True
    with add_defaults_has [OF 1, of m MfgDefaults Main] that show thesis unfolding vs2_def by auto
  next
    case False
    with 1 that [of "Suc 9"] show thesis unfolding vs2_def by simp
  qed
  define j where "j = k - 3"
  have "k = Suc (Suc (Suc j))" using k(2) by (simp add: j_def)
  with k(1) have 2: "vs_has ?mfg (Suc (Suc (Suc j))) vs2" by simp
  obtain S n where 3: "vs_has S (Suc n) vs3" "map place S = map place (pei_order m (NvramMode vs) Main)"
  proof (cases D)
    case False
    have "place (if M then ?hide Main else Main) = place Main" by simp
    then obtain S n where S: "vs_has S (Suc n) (add_defaults m StdDefaults Main (add_store (if M then ?hide Main else Main) (vs2\<lparr>NvInfo := Some (InfoCount vs2)\<rparr>)))"
      "map place S = map place (?mfg @ Main # defaults m StdDefaults Main)" by (rule main_then_defaults [OF 2])
    show thesis
      by (rule that [of S n]) (use S False assms(2) in \<open>simp_all add: vs3_def pei_order_def M_def [symmetric] D_def [symmetric]\<close>)
  next
    case True
    have "place (?hide Main) = place Main" by simp
    then obtain S n where S: "vs_has S (Suc n) (add_store (?hide Main) ((add_defaults m StdDefaults Main vs2)\<lparr>NvInfo := Some (InfoCount (add_defaults m StdDefaults Main vs2))\<rparr>))"
      "map place S = map place (?mfg @ defaults m StdDefaults Main @ [Main])" by (rule defaults_then_main [OF 2])
    show thesis
      by (rule that [of S n]) (use S True assms(2) in \<open>simp_all add: vs3_def pei_order_def M_def [symmetric] D_def [symmetric]\<close>)
  qed
  obtain i where i: "NvInfo vs3 = Some i" by (cases D) (auto simp: vs3_def)
  let ?vs4 = "add_store Mem (vs3\<lparr>MemInfo := Some (InfoCount vs3)\<rparr>)"
  have 4: "vs_has (S @ [Mem]) n ?vs4" by (rule add_store_has) (use 3(1) in \<open>simp only: vs_has_NvInfo\<close>)
  have "VarStoreDiscovery m Main Mem vs = ?vs4\<lparr>NvramInfo := (NvramInfo ?vs4)[i := EnumerateStore m (NvramInfo ?vs4 ! i)]\<rparr>"
    unfolding VarStoreDiscovery_def Let_def M_def [symmetric] D_def [symmetric] vs2_def [symmetric] vs3_def [symmetric]
    using i by simp
  then have "map place (stores_in_use (VarStoreDiscovery m Main Mem vs)) = map place (stores_in_use ?vs4)"
    by (simp add: stores_in_use_def map_place_update)
  also have "\<dots> = map place (S @ [Mem])" using 4 by (simp add: vs_has_def)
  finally show ?thesis using 3(2) by simp
qed


section \<open>A board\<close>

text \<open>One store of 4 KB at \<open>0x2000\<close>, no backup, a hook that asks for the default configuration.\<close>

definition board :: pei_env where
  "board = \<lparr>pe_NvramAddress = 0x2000, pe_BackupAddress = None, pe_NvramSize = 0x1000, pe_HeaderLength = 0x48,
     pe_NvSimulation = False, pe_MfgSupport = False, pe_mfg_hooks = [], pe_reset_hooks = [\<lambda>vp. (False, vp)],
     pe_default_hooks = [\<lambda>vp. (True, vp)], pe_Compatible = (\<lambda>vp. (True, vp)), pe_AllocatePool = EFI_SUCCESS,
     pe_CreateHob = EFI_SUCCESS, pe_InstallPpi = EFI_SUCCESS, pe_NvramInfo0 = replicate 3 no_store\<rparr>"

definition board_flash :: memory where
  "board_flash = wr_bytes (\<lambda>_. 0xFF) 0x2028 (le_bytes 4 FV_SIGNATURE)"

definition board_store :: NVRAM_STORE_INFO where
  "board_store = NvInitInfoBuffer board_flash (no_store\<lparr>NvramAddress := 0x2000, NvramSize := 0x1000\<rparr>) 0x48
     NVRAM_STORE_FLAG_NON_VALATILE"

lemma board_main: "pei_main_store board_flash board = (board_store, None, False)"
proof -
  have "rd 4 board_flash 0x2028 = FV_SIGNATURE"
    unfolding board_flash_def using rd_wr_sub [where off = 0 and k = 4 and bs = "le_bytes 4 FV_SIGNATURE" and a = "0x2028"]
    by (simp add: nv_consts del: le_bytes.simps)
  then show ?thesis by (simp add: pei_main_store_def IsMainNvramStoreValid_def board_store_def board_def Signature_offset_def)
qed

lemma board_hyps:
  "pe_AllocatePool board = EFI_SUCCESS" "pe_CreateHob board = EFI_SUCCESS" "length (pe_NvramInfo0 board) = 3"
  "pe_NvramSize board < 2 ^ 32" "reads_only (pe_Compatible board)" "\<forall>vp. fst (pe_Compatible board vp)"
  by (simp_all add: board_def reads_only_def)

theorem PeiInitNV_order_witness:
  "\<exists>vp mode. PeiInitNV board_flash board = Some (EFI_SUCCESS, Some vp, Some (pei_hob board board_store None mode))
    \<and> map quiet (vp_stores vp) = map quiet (defaults board_flash StdDefaults board_store @ [board_store])"
proof -
  have "\<not> fst (IsMfgMode board t)" "IsResetConfigMode board t = (False, t)" "IsDefaultConfigMode board t = (True, t)" "IsMfgMode board t = (False, t)" for t
    by (simp_all add: board_def IsMfgMode_def IsResetConfigMode_def IsDefaultConfigMode_def)
  then have "pei_modes board_flash board board_store t mode
    \<longleftrightarrow> \<not> has mode NVRAM_MODE_MANUFACTORING \<and> \<not> has mode NVRAM_MODE_RESET_CONFIGURATION \<and> has mode NVRAM_MODE_DEFAULT_CONFIGURATION" for t mode
    by (simp add: pei_modes_def)
  moreover have "pe_InstallPpi board = EFI_SUCCESS" by (simp add: board_def)
  ultimately show ?thesis
    using PeiInitNV_order [OF board_hyps(1-3) board_main board_hyps(4-6)] by (auto simp: pei_order_def)
qed


end
