(* ===== verification/NvramSmi.thy ===== *)
theory NvramSmi
  imports NvramService
begin

text \<open>
  \<^verbatim>\<open>SetVariable\<close> through system management mode: the client \<^verbatim>\<open>AmiModulePkg/NVRAM/NvramSmiDxe.c\<close> and the handler
  \<^verbatim>\<open>NvramSmi.c\<close>.  The client copies the arguments to a buffer both sides know, asks the communication service to
  raise the interrupt, and reads the status back from the buffer.  \<^verbatim>\<open>NVRAM_SMI_FULL_PROTECTION\<close> is 0, as in
  \<^verbatim>\<open>NVRAM.sdl\<close>, so that this is the only service that takes this way.

  The two sides have their own pointer to the buffer; \<open>phys\<close> is the translation of the client's, whose
  pointers are virtual after the operating system has taken over.  A write behind the buffer is \<open>None\<close>.
\<close>

section \<open>The buffer\<close>

definition SMI_SET_VARIABLE :: u8 where "SMI_SET_VARIABLE = 2"

definition SMI_SIGNATURE :: u32 where "SMI_SIGNATURE = word_of_nat NVAR_SIGNATURE"

text \<open>The header; the bytes from \<^verbatim>\<open>VarData\<close> on are memory.\<close>

record SMI_VARIABLE =
  smi_Signature :: u32
  smi_VarAttrib :: u32
  smi_VarGuid :: "u8 list"
  smi_VarSize :: nat
  smi_Status :: efi_status
  smi_Subfunction :: u8

definition VarData_offset :: nat where "VarData_offset = 72"
definition sizeof_SMI_VARIABLE :: nat where "sizeof_SMI_VARIABLE = 80"

datatype set_service = OriginalSetVariable | ViaSmi

text \<open>The globals of the client, those of the handler, the interrupt masks, the pointer in the table of the
  run-time services, and the buffer.\<close>

record smi_state =
  Busy :: bool
  IntState :: "u8 \<times> u8"
  PicMasks :: "u8 \<times> u8"
  ExitBS :: bool
  SmmCommProtocol :: bool
  CommHeaderPtr :: bool
  SmmpRs :: bool
  gNvramBuffer :: "nat option"
  gSavedSetVariable :: "set_service option"
  rs_SetVariable :: set_service
  smm_gNvramBuffer :: "nat option"
  smi_buf :: SMI_VARIABLE
  smi_mem :: memory

text \<open>The environment: the size of the buffer, the communication service, the translation, what \<^verbatim>\<open>InSmm\<close> answers,
  what the look-ups of the tables and protocols find, and the two services, on the state \<open>'w\<close> of the variable
  driver.\<close>

type_synonym 'w set_variable = "set_args \<Rightarrow> 'w \<Rightarrow> (efi_status \<times> 'w) option"

record 'w smi_env =
  se_NVRAM_SIZE :: nat
  se_Communicate :: "smi_state \<times> 'w \<Rightarrow> (smi_state \<times> 'w) option"
  se_phys :: "nat \<Rightarrow> nat"
  se_InSmm :: bool
  se_CommProtocol :: bool
  se_SmmRsTable :: bool
  se_Original :: "'w set_variable"
  se_Smm :: "'w set_variable"

section \<open>The handler\<close>

definition name_slot :: "nat \<Rightarrow> nat \<Rightarrow> nat" where
  "name_slot VarData VarSize = (if odd (VarData + VarSize) then VarData + VarSize + 1 else VarData + VarSize)"

definition NvramSmiHandler :: "'w set_variable \<Rightarrow> smi_state \<times> 'w \<Rightarrow> (efi_status \<times> smi_state \<times> 'w) option" where
  "NvramSmiHandler SetVariable s =
     (case s of (st, w) \<Rightarrow>
        case smm_gNvramBuffer st of
          None \<Rightarrow> None
        | Some b \<Rightarrow>
            let SmmVarBuffer = smi_buf st; VarData = b + VarData_offset in
            if smi_Signature SmmVarBuffer \<noteq> SMI_SIGNATURE
            then Some (EFI_SUCCESS, st\<lparr>smi_buf := SmmVarBuffer\<lparr>smi_Status := EFI_DEVICE_ERROR\<rparr>\<rparr>, w)
            else if smi_Subfunction SmmVarBuffer = SMI_SET_VARIABLE
            then do {
              name \<leftarrow> name_copy 2 (smi_mem st) (name_slot VarData (smi_VarSize SmmVarBuffer));
              (Status, w') \<leftarrow>
                SetVariable \<lparr>sa_VariableName = Some name, sa_VendorGuid = Some (smi_VarGuid SmmVarBuffer),
                            sa_Attributes = smi_VarAttrib SmmVarBuffer, sa_DataSize = smi_VarSize SmmVarBuffer,
                            sa_Data = Some (rd_bytes (smi_mem st) VarData (smi_VarSize SmmVarBuffer))\<rparr> w;
              Some (EFI_SUCCESS,
                    st\<lparr>smi_buf := SmmVarBuffer\<lparr>smi_Status := Status, smi_Subfunction := 0,
                                             smi_Signature := NOT SMI_SIGNATURE\<rparr>\<rparr>, w')
            }
            else Some (EFI_SUCCESS, st\<lparr>smi_buf := SmmVarBuffer\<lparr>smi_Status := EFI_DEVICE_ERROR\<rparr>\<rparr>, w))"

definition NvramSmiHandler1 :: "'w set_variable \<Rightarrow> smi_state \<times> 'w \<Rightarrow> (efi_status \<times> smi_state \<times> 'w) option" where
  "NvramSmiHandler1 SetVariable s =
     (if smm_gNvramBuffer (fst s) = None then Some (EFI_DEVICE_ERROR, s) else NvramSmiHandler SetVariable s)"

text \<open>The handler's initialisation takes the address of the buffer from the variable the client has set: \<open>r\<close> is
  the result of \<^verbatim>\<open>GetVariable\<close>, \<open>Register\<close> that of the registration.\<close>

definition NvramSmiInSmmFunction :: "get_result \<Rightarrow> efi_status \<Rightarrow> smi_state \<Rightarrow> efi_status \<times> smi_state" where
  "NvramSmiInSmmFunction r Register st =
     (let b = (case gr_Data r of Some bs \<Rightarrow> if le_nat bs = 0 then None else Some (le_nat bs) | None \<Rightarrow> smm_gNvramBuffer st);
          st' = st\<lparr>smm_gNvramBuffer := b\<rparr>
      in if EFI_ERROR (gr_Status r) \<or> b = None then (EFI_NOT_FOUND, st') else (Register, st'))"

text \<open>The entry point returns the status of the library's initialisation, whatever the other call says.\<close>

definition NvramSmiEntry :: "efi_status \<Rightarrow> get_result \<Rightarrow> efi_status \<Rightarrow> smi_state \<Rightarrow> efi_status \<times> smi_state" where
  "NvramSmiEntry InitAmiSmmLib r Register st = (InitAmiSmmLib, snd (NvramSmiInSmmFunction r Register st))"

section \<open>The client\<close>

definition LocateCommunicateProt :: "'w smi_env \<Rightarrow> smi_state \<Rightarrow> efi_status \<times> smi_state" where
  "LocateCommunicateProt se st =
     (if SmmCommProtocol st then (EFI_SUCCESS, st)
      else if se_CommProtocol se then (EFI_SUCCESS, st\<lparr>SmmCommProtocol := True\<rparr>) else (EFI_NOT_FOUND, st))"

definition NvSmiBeginCriticalSection :: "smi_state \<Rightarrow> efi_status \<times> smi_state" where
  "NvSmiBeginCriticalSection st =
     (if Busy st then (EFI_ACCESS_DENIED, st)
      else (EFI_SUCCESS, st\<lparr>IntState := PicMasks st, PicMasks := (0xFF, 0xFF), Busy := True\<rparr>))"

definition NvSmiEndCriticalSection :: "smi_state \<Rightarrow> efi_status \<times> smi_state" where
  "NvSmiEndCriticalSection st = (EFI_SUCCESS, st\<lparr>Busy := False, PicMasks := IntState st\<rparr>)"

definition InitCommunicate :: "'w smi_env \<Rightarrow> smi_state \<times> 'w \<Rightarrow> (smi_state \<times> 'w) option" where
  "InitCommunicate se s =
     (if SmmCommProtocol (fst s) then se_Communicate se s else Some s)"

definition GetSmmRsPtr :: "'w smi_env \<Rightarrow> smi_state \<Rightarrow> smi_state" where
  "GetSmmRsPtr se st = (if \<not> SmmpRs st then st\<lparr>SmmpRs := se_SmmRsTable se\<rparr> else st)"

definition Wcslen :: "char16 list \<Rightarrow> nat" where
  "Wcslen name = length (c_string name)"

definition wcs_bytes :: "char16 list \<Rightarrow> u8 list" where
  "wcs_bytes name = concat (map (\<lambda>c. le_bytes 2 (unat c)) name)"

definition buf_write :: "'w smi_env \<Rightarrow> nat \<Rightarrow> nat \<Rightarrow> u8 list \<Rightarrow> smi_state \<Rightarrow> smi_state option" where
  "buf_write se b off bs st =
     (if off + length bs \<le> se_NVRAM_SIZE se
      then Some (st\<lparr>smi_mem := wr_bytes (smi_mem st) (se_phys se b + off) bs\<rparr>) else None)"

text \<open>\<^verbatim>\<open>SetVariableToSmi\<close> from the entry of the critical section on.\<close>

definition smi_request :: "'w smi_env \<Rightarrow> char16 list \<Rightarrow> u8 list \<Rightarrow> set_args \<Rightarrow> smi_state \<times> 'w
    \<Rightarrow> (efi_status \<times> smi_state \<times> 'w) option" where
  "smi_request se name guid a s =
     (case s of (st, w) \<Rightarrow>
        case gNvramBuffer st of
          None \<Rightarrow> Some (EFI_NO_RESPONSE, st, w)
        | Some b \<Rightarrow>
            let (cs, st1) = NvSmiBeginCriticalSection st in
            if EFI_ERROR cs then Some (EFI_ACCESS_DENIED, st1, w)
            else
              let DataSize = sa_DataSize a;
                  st2 = st1\<lparr>smi_buf := \<lparr>smi_Signature = SMI_SIGNATURE, smi_VarAttrib = sa_Attributes a, smi_VarGuid = guid,
                                       smi_VarSize = DataSize, smi_Status = EFI_NO_RESPONSE,
                                       smi_Subfunction = SMI_SET_VARIABLE\<rparr>\<rparr>;
                  VarData = b + VarData_offset;
                  InSmm = (\<not> ExitBS st \<and> se_InSmm se)
              in do {
                st3 \<leftarrow> buf_write se b (name_slot VarData DataSize - b) (wcs_bytes (c_string name @ [0])) st2;
                st4 \<leftarrow> buf_write se b VarData_offset (take DataSize (case sa_Data a of Some d \<Rightarrow> d | None \<Rightarrow> [])) st3;
                (if \<not> InSmm
                 then do {
                   (st5, w5) \<leftarrow> InitCommunicate se (st4, w);
                   Some (smi_Status (smi_buf st5), snd (NvSmiEndCriticalSection st5), w5)
                 }
                 else if rs_SetVariable st4 = ViaSmi
                 then let st5 = GetSmmRsPtr se st4 in
                      if SmmpRs st5
                      then map_option (\<lambda>(Status, w5). (Status, snd (NvSmiEndCriticalSection st5), w5)) (se_Smm se a w)
                      else Some (EFI_SECURITY_VIOLATION, snd (NvSmiEndCriticalSection st5), w)
                 else Some (EFI_SECURITY_VIOLATION, snd (NvSmiEndCriticalSection st4), w))
              })"

text \<open>A volatile variable is first given to the service the client has replaced; if that is the client itself
  the calls never end.\<close>

definition SetVariableToSmi :: "'w smi_env \<Rightarrow> set_args \<Rightarrow> smi_state \<times> 'w
    \<Rightarrow> (efi_status \<times> smi_state \<times> 'w) option" where
  "SetVariableToSmi se a s =
     (case s of (st, w) \<Rightarrow>
        case (sa_VariableName a, sa_VendorGuid a) of
          (Some name, Some guid) \<Rightarrow>
            let DataSize = sa_DataSize a; Length = (Wcslen name + 1) * 2 in
            if name0 name = 0 \<or> DataSize \<noteq> 0 \<and> sa_Data a = None then Some (EFI_INVALID_PARAMETER, st, w)
            else if uintn_sub (2 ^ 64 - 1) DataSize < Length then Some (EFI_OUT_OF_RESOURCES, st, w)
            else if DataSize + Length > se_NVRAM_SIZE se - sizeof_SMI_VARIABLE - 1 then Some (EFI_OUT_OF_RESOURCES, st, w)
            else if \<not> has (sa_Attributes a) EFI_VARIABLE_NON_VOLATILE \<and> DataSize \<noteq> 0
            then (if gSavedSetVariable st = Some OriginalSetVariable
                  then do {
                    (Status, w1) \<leftarrow> se_Original se a w;
                    (if \<not> EFI_ERROR Status then Some (Status, st, w1) else smi_request se name guid a (st, w1))
                  }
                  else None)
            else smi_request se name guid a (st, w)
        | _ \<Rightarrow> Some (EFI_INVALID_PARAMETER, st, w))"

definition NvramSmiReadyToBoot :: "smi_state \<Rightarrow> smi_state" where
  "NvramSmiReadyToBoot st =
     (if gNvramBuffer st = None then st
      else st\<lparr>CommHeaderPtr := True, gSavedSetVariable := Some (rs_SetVariable st), rs_SetVariable := ViaSmi\<rparr>)"

text \<open>The translation of the pointers; those to functions are names here.\<close>

definition NvramSmiVirtualFixup :: "(nat \<Rightarrow> nat) \<Rightarrow> smi_state \<Rightarrow> smi_state" where
  "NvramSmiVirtualFixup ConvertPointer st = st\<lparr>gNvramBuffer := map_option ConvertPointer (gNvramBuffer st)\<rparr>"

definition NvramSmiExitBs :: "smi_state \<Rightarrow> smi_state" where
  "NvramSmiExitBs st = st\<lparr>ExitBS := True\<rparr>"

text \<open>The client's entry point: the pool's answer, the identifier and the name of the variable that tells the
  handler where the buffer is, and the results of registering the callbacks.\<close>

definition NvramSmiBuffer_name :: "char16 list" where
  "NvramSmiBuffer_name = map of_char ''NvramSmiBuffer''"

definition NvramSmiDxeEntry :: "'w smi_env \<Rightarrow> efi_status \<times> nat \<Rightarrow> u8 list \<Rightarrow> efi_status \<Rightarrow> smi_state \<times> 'w
    \<Rightarrow> (efi_status \<times> smi_state \<times> 'w) option" where
  "NvramSmiDxeEntry se pool guid Register s =
     (case s of (st, w) \<Rightarrow>
        if EFI_ERROR (fst pool) then Some (fst pool, st, w)
        else
          let st1 = st\<lparr>gNvramBuffer := Some (snd pool)\<rparr> in
          do {
            (Status, w1) \<leftarrow>
              se_Original se \<lparr>sa_VariableName = Some NvramSmiBuffer_name, sa_VendorGuid = Some guid,
                               sa_Attributes = EFI_VARIABLE_BOOTSERVICE_ACCESS, sa_DataSize = 8,
                               sa_Data = Some (le_bytes 8 (snd pool))\<rparr> w;
            (if EFI_ERROR Status then Some (Status, st1, w1)
             else
               let (l, st2) = LocateCommunicateProt se st1
               in Some (if EFI_ERROR l then Register else l, st2, w1))
          })"

end
