(* ===== verification/NvramSmiFacts.thy ===== *)
theory NvramSmiFacts
  imports NvramSmi NvramCreate
begin

text \<open>
  The call through the buffer is the call of the service in system management mode: the interface between the
  two sides as a locale, the client over it, and the handler as its provider.
\<close>

section \<open>The interface of the two sides\<close>

text \<open>The buffer of the handler holds a request with the arguments \<open>a\<close>.\<close>

definition request :: "smi_state \<Rightarrow> set_args \<Rightarrow> bool" where
  "request st a \<longleftrightarrow>
     (\<exists>p name guid data.
        smm_gNvramBuffer st = Some p
        \<and> sa_VariableName a = Some name \<and> sa_VendorGuid a = Some guid \<and> sa_Data a = Some data
        \<and> sa_DataSize a = length data
        \<and> smi_buf st = \<lparr>smi_Signature = SMI_SIGNATURE, smi_VarAttrib = sa_Attributes a, smi_VarGuid = guid,
                        smi_VarSize = length data, smi_Status = smi_Status (smi_buf st),
                        smi_Subfunction = SMI_SET_VARIABLE\<rparr>
        \<and> rd_bytes (smi_mem st) (p + VarData_offset) (length data) = data
        \<and> name_at 2 (smi_mem st) (name_slot (p + VarData_offset) (length data)) name)"

definition answered :: "efi_status \<Rightarrow> smi_state \<Rightarrow> smi_state" where
  "answered r st = st\<lparr>smi_buf := (smi_buf st)\<lparr>smi_Status := r, smi_Subfunction := 0, smi_Signature := NOT SMI_SIGNATURE\<rparr>\<rparr>"

text \<open>The communication service runs the handler registered for the identifier in the header; the client relies on
  this only: a request in the buffer is answered by the service \<open>Set\<close>.\<close>

locale smi_channel =
  fixes Communicate :: "smi_state \<times> 'w \<Rightarrow> (smi_state \<times> 'w) option" and Set :: "'w set_variable"
  assumes answer: "request st a \<Longrightarrow> Communicate (st, w) = map_option (\<lambda>(r, w'). (answered r st, w')) (Set a w)"

definition served_by :: "'w set_variable \<Rightarrow> smi_state \<times> 'w \<Rightarrow> (smi_state \<times> 'w) option" where
  "served_by Set s = map_option snd (NvramSmiHandler1 Set s)"

lemma served_by_answer:
  assumes "request st a"
  shows "served_by Set (st, w) = map_option (\<lambda>(r, w'). (answered r st, w')) (Set a w)"
proof -
  obtain p name guid data where r: "smm_gNvramBuffer st = Some p"
    "sa_VariableName a = Some name" "sa_VendorGuid a = Some guid" "sa_Data a = Some data" "sa_DataSize a = length data"
    and b: "smi_buf st = \<lparr>smi_Signature = SMI_SIGNATURE, smi_VarAttrib = sa_Attributes a, smi_VarGuid = guid,
        smi_VarSize = length data, smi_Status = smi_Status (smi_buf st), smi_Subfunction = SMI_SET_VARIABLE\<rparr>"
    and d: "rd_bytes (smi_mem st) (p + VarData_offset) (length data) = data"
    and n: "name_copy 2 (smi_mem st) (name_slot (p + VarData_offset) (length data)) = Some name"
    using assms unfolding request_def by (blast intro: name_at_copy)
  have f: "smi_Signature (smi_buf st) = SMI_SIGNATURE" "smi_VarAttrib (smi_buf st) = sa_Attributes a"
    "smi_VarGuid (smi_buf st) = guid" "smi_VarSize (smi_buf st) = length data" "smi_Subfunction (smi_buf st) = SMI_SET_VARIABLE"
    by (subst b, simp)+
  have a: "\<lparr>sa_VariableName = Some name, sa_VendorGuid = Some guid, sa_Attributes = sa_Attributes a,
      sa_DataSize = length data, sa_Data = Some data\<rparr> = a" using r by (cases a) simp
  show ?thesis
    unfolding served_by_def NvramSmiHandler1_def NvramSmiHandler_def
    by (simp add: r(1) f d n a Let_def answered_def option.map_comp split: option.split bind_split)
qed

interpretation smi: smi_channel "served_by Set" Set for Set :: "'w set_variable"
  by unfold_locales (rule served_by_answer)

section \<open>The client\<close>

text \<open>The buffer is set up on both sides and no request is under way.\<close>

definition smi_ready :: "'w smi_env \<Rightarrow> smi_state \<Rightarrow> bool" where
  "smi_ready se st \<longleftrightarrow>
     \<not> Busy st \<and> SmmCommProtocol st \<and> (ExitBS st \<or> \<not> se_InSmm se) \<and> se_NVRAM_SIZE se < 2 ^ 63
     \<and> (\<exists>b. gNvramBuffer st = Some b \<and> smm_gNvramBuffer st = Some (se_phys se b) \<and> even (se_phys se b) = even b)"

definition smi_fits :: "'w smi_env \<Rightarrow> set_args \<Rightarrow> bool" where
  "smi_fits se a \<longleftrightarrow>
     (\<exists>name data. sa_VariableName a = Some name \<and> name0 name \<noteq> 0 \<and> sa_VendorGuid a \<noteq> None \<and> sa_Data a = Some data
        \<and> sa_DataSize a \<le> length data
        \<and> sa_DataSize a + (length (c_string name) + 1) * 2 + sizeof_SMI_VARIABLE + 1 \<le> se_NVRAM_SIZE se)"

text \<open>The arguments as the other side sees them: the name up to its terminator, the data up to their size.\<close>

definition smm_args :: "set_args \<Rightarrow> set_args" where
  "smm_args a = a\<lparr>sa_VariableName := map_option c_string (sa_VariableName a),
                  sa_Data := map_option (take (sa_DataSize a)) (sa_Data a)\<rparr>"

text \<open>Nothing but the buffer has changed, and the interrupts are as they were.\<close>

definition smi_clean :: "'w smi_env \<Rightarrow> smi_state \<Rightarrow> smi_state \<Rightarrow> bool" where
  "smi_clean se st st' \<longleftrightarrow>
     \<not> Busy st' \<and> PicMasks st' = PicMasks st
     \<and> (\<forall>b x. gNvramBuffer st = Some b \<longrightarrow> x < se_phys se b \<or> se_phys se b + se_NVRAM_SIZE se \<le> x
          \<longrightarrow> smi_mem st' x = smi_mem st x)"

lemma length_wcs_bytes [simp]: "length (wcs_bytes n) = 2 * length n"
  by (induction n) (simp_all add: wcs_bytes_def)

lemma wcs_bytes_0: "wcs_bytes (n @ [0]) = concat (map (\<lambda>c. le_bytes 2 (unat c)) n) @ [0, 0]"
  by (simp add: wcs_bytes_def numeral_2_eq_2)

lemma name_slot_parity: "even p = even b \<Longrightarrow> name_slot (b + off) n - b = name_slot (p + off) n - p"
  by (auto simp: name_slot_def)

lemma name_slot_bounds: "p + n \<le> name_slot p n" "name_slot p n \<le> p + n + 1"
  by (auto simp: name_slot_def)

context smi_channel
begin

lemma smi_request_through:
  assumes rdy: "smi_ready se st" and fit: "smi_fits se a" and com: "se_Communicate se = Communicate"
    and nm: "sa_VariableName a = Some name" "sa_VendorGuid a = Some guid"
  shows "\<exists>f. smi_request se name guid a (st, w) = map_option (\<lambda>(r, w'). (r, f r, w')) (Set (smm_args a) w)
    \<and> (\<forall>r. smi_clean se st (f r))"
proof -
  obtain b where b: "gNvramBuffer st = Some b" "smm_gNvramBuffer st = Some (se_phys se b)" "even (se_phys se b) = even b"
    and st: "\<not> Busy st" "SmmCommProtocol st" "\<not> (\<not> ExitBS st \<and> se_InSmm se)"
    using rdy unfolding smi_ready_def by blast
  obtain data where d: "sa_Data a = Some data" "sa_DataSize a \<le> length data"
    and sz: "sa_DataSize a + (length (c_string name) + 1) * 2 + sizeof_SMI_VARIABLE + 1 \<le> se_NVRAM_SIZE se"
    using fit nm unfolding smi_fits_def by auto
  let ?n = "sa_DataSize a" and ?p = "se_phys se b" and ?N = "wcs_bytes (c_string name @ [0])"
  let ?D = "take ?n data"
  let ?slot = "name_slot (?p + VarData_offset) ?n"
  let ?buf = "\<lparr>smi_Signature = SMI_SIGNATURE, smi_VarAttrib = sa_Attributes a, smi_VarGuid = guid,
      smi_VarSize = ?n, smi_Status = EFI_NO_RESPONSE, smi_Subfunction = SMI_SET_VARIABLE\<rparr>"
  let ?m = "wr_bytes (wr_bytes (smi_mem st) ?slot ?N) (?p + VarData_offset) ?D"
  let ?st4 = "st\<lparr>IntState := PicMasks st, PicMasks := (0xFF, 0xFF), Busy := True, smi_buf := ?buf, smi_mem := ?m\<rparr>"
  have s: "?p + VarData_offset + ?n \<le> ?slot" "?slot \<le> ?p + VarData_offset + ?n + 1" by (rule name_slot_bounds)+
  have off: "name_slot (b + VarData_offset) ?n - b = ?slot - ?p" by (rule name_slot_parity [OF b(3)])
  have fits: "?slot - ?p + length ?N \<le> se_NVRAM_SIZE se" "VarData_offset + length ?D \<le> se_NVRAM_SIZE se" "?p + (?slot - ?p) = ?slot"
    using s sz by (simp_all add: VarData_offset_def sizeof_SMI_VARIABLE_def)
  have "request ?st4 (smm_args a)"
  proof -
    have lD: "length ?D = ?n" using d(2) by simp
    have "rd_bytes ?m (?p + VarData_offset) (length ?D) = ?D" by (rule rd_bytes_wr_same)
    moreover have "rd_bytes ?m ?slot (length ?N) = rd_bytes (wr_bytes (smi_mem st) ?slot ?N) ?slot (length ?N)"
      by (rule rd_bytes_wr_disjoint) (use s lD in simp)
    then have "rd_bytes ?m ?slot (length ?N) = ?N" by (simp only: rd_bytes_wr_same)
    then have "name_at 2 ?m ?slot (c_string name)"
      using name_at_wide [of ?m ?slot "c_string name"] wcs_bytes_0 [of "c_string name"] length_wcs_bytes [of "c_string name @ [0]"]
      by (auto simp: c_string_def dest: set_takeWhileD simp del: length_wcs_bytes)
    ultimately show ?thesis
      unfolding request_def using b(2) nm d lD by (simp add: smm_args_def)
  qed
  from answer [OF this] have A: "Communicate (?st4, w) = map_option (\<lambda>(r, w'). (answered r ?st4, w')) (Set (smm_args a) w)" .
  let ?f = "\<lambda>r. snd (NvSmiEndCriticalSection (answered r ?st4))"
  have "smi_request se name guid a (st, w) = map_option (\<lambda>(r, w'). (r, ?f r, w')) (Set (smm_args a) w)"
    using fits st
    by (cases "Set (smm_args a) w")
       (auto simp: smi_request_def b(1) NvSmiBeginCriticalSection_def Let_def off buf_write_def d(1) InitCommunicate_def com A
        answered_def)
  moreover have "smi_clean se st (?f r)" for r
  proof -
    have "?m x = smi_mem st x" if "x < ?p \<or> ?p + se_NVRAM_SIZE se \<le> x" for x
    proof -
      have "?m x = wr_bytes (smi_mem st) ?slot ?N x" by (rule wr_bytes_out) (use that fits s in auto)
      also have "\<dots> = smi_mem st x" by (rule wr_bytes_out) (use that fits s in linarith)
      finally show ?thesis .
    qed
    then show ?thesis using b(1) by (simp add: smi_clean_def NvSmiEndCriticalSection_def answered_def)
  qed
  ultimately show ?thesis by (intro exI [of _ ?f] conjI allI)
qed

end

text \<open>The service as the caller sees it: a volatile variable goes to the service that was there before, and to the
  other side if that fails; every other request goes to the other side.\<close>

definition direct_set :: "'w smi_env \<Rightarrow> set_args \<Rightarrow> 'w \<Rightarrow> (efi_status \<times> 'w) option" where
  "direct_set se a w =
     (if \<not> has (sa_Attributes a) EFI_VARIABLE_NON_VOLATILE \<and> sa_DataSize a \<noteq> 0
      then Option.bind (se_Original se a w)
             (\<lambda>(r, w1). if r = EFI_SUCCESS then Some (r, w1) else se_Smm se (smm_args a) w1)
      else se_Smm se (smm_args a) w)"

lemma smi_request_served:
  assumes "smi_ready se st" "smi_fits se a" "se_Communicate se = served_by (se_Smm se)"
    "sa_VariableName a = Some name" "sa_VendorGuid a = Some guid"
  shows "map_option (\<lambda>(r, st', w'). (r, w')) (smi_request se name guid a (st, w)) = se_Smm se (smm_args a) w"
    "smi_request se name guid a (st, w) = Some (r, st', w') \<Longrightarrow> smi_clean se st st'"
  using smi.smi_request_through [OF assms, of w]
  by (cases "se_Smm se (smm_args a) w"; auto)+

text \<open>C24: With the buffer set up on both sides and the handler behind the communication service, a request that
  fits the buffer has the effect and the status of the service on the other side, called with the arguments of
  the caller; the interrupt masks are restored, the buffer is free again and nothing outside of it is written.\<close>

theorem SetVariableToSmi_is_SetVariable:
  assumes "smi_ready se st" "smi_fits se a" "se_Communicate se = served_by (se_Smm se)"
    and "gSavedSetVariable st = Some OriginalSetVariable" "se_NVRAM_SIZE se < 2 ^ 63"
  shows "map_option (\<lambda>(r, st', w'). (r, w')) (SetVariableToSmi se a (st, w)) = direct_set se a w
    \<and> (\<forall>r st' w'. SetVariableToSmi se a (st, w) = Some (r, st', w') \<longrightarrow> smi_clean se st st')"
proof -
  obtain name guid data where n: "sa_VariableName a = Some name" "name0 name \<noteq> 0" "sa_VendorGuid a = Some guid" "sa_Data a = Some data"
    and sz: "sa_DataSize a + (length (c_string name) + 1) * 2 + sizeof_SMI_VARIABLE + 1 \<le> se_NVRAM_SIZE se"
    using assms(2) unfolding smi_fits_def by auto
  note rq = smi_request_served [OF assms(1-3) n(1,3)]
  have self: "smi_clean se st st" using assms(1) by (simp add: smi_ready_def smi_clean_def)
  have "uintn_sub (2 ^ 64 - 1) (sa_DataSize a) = 2 ^ 64 - 1 - sa_DataSize a"
    by (rule uintn_sub_le) (use sz assms(5) in simp_all)
  then have len: "\<not> uintn_sub (2 ^ 64 - 1) (sa_DataSize a) < (Wcslen name + 1) * 2"
    "\<not> sa_DataSize a + (Wcslen name + 1) * 2 > se_NVRAM_SIZE se - sizeof_SMI_VARIABLE - 1"
    using sz assms(5) by (simp_all add: Wcslen_def)
  note body = SetVariableToSmi_def prod.case n option.case Let_def
  show ?thesis
  proof (cases "\<not> has (sa_Attributes a) EFI_VARIABLE_NON_VOLATILE \<and> sa_DataSize a \<noteq> 0")
    case False
    then have "SetVariableToSmi se a (st, w) = smi_request se name guid a (st, w)" unfolding body using n(2) len by auto
    then show ?thesis using rq [of w] False by (auto simp: direct_set_def)
  next
    case True
    then have e: "SetVariableToSmi se a (st, w) = Option.bind (se_Original se a w)
        (\<lambda>(Status, w1). if \<not> EFI_ERROR Status then Some (Status, st, w1) else smi_request se name guid a (st, w1))"
      unfolding body using n(2) len assms(4) by auto
    show ?thesis unfolding e using rq True self
      by (cases "se_Original se a w") (auto simp: direct_set_def split: if_splits)
  qed
qed

section \<open>Start-up\<close>

text \<open>The client tells the handler the address of the buffer through a variable of its own; after the two entry
  points and the start of the services both sides are ready.\<close>

lemma LocateCommunicateProt_found:
  "se_CommProtocol se \<Longrightarrow> LocateCommunicateProt se st = (EFI_SUCCESS, st\<lparr>SmmCommProtocol := True\<rparr>)"
  by (cases st) (simp add: LocateCommunicateProt_def)

lemma smi_setup_ready:
  assumes "NvramSmiDxeEntry se (EFI_SUCCESS, b) guid Register (st0, w0) = Some (st, st1, w1)" "\<not> EFI_ERROR st"
    and "NvramSmiInSmmFunction (r\<lparr>gr_Status := EFI_SUCCESS, gr_Data := Some (le_bytes 8 b)\<rparr>) Reg st1 = (st', st2)"
    and "se_CommProtocol se" "\<not> se_InSmm se" "se_NVRAM_SIZE se < 2 ^ 63" "se_phys se b = b" "0 < b" "b < 2 ^ 64"
      "\<not> Busy st0" "rs_SetVariable st0 = OriginalSetVariable"
  shows "smi_ready se (NvramSmiReadyToBoot st2) \<and> gSavedSetVariable (NvramSmiReadyToBoot st2) = Some OriginalSetVariable
    \<and> rs_SetVariable (NvramSmiReadyToBoot st2) = ViaSmi"
proof -
  have "st1 = st0\<lparr>gNvramBuffer := Some b, SmmCommProtocol := True\<rparr>"
    using assms(1,2) unfolding NvramSmiDxeEntry_def prod.case Let_def
    by (auto simp: LocateCommunicateProt_found [OF assms(4)] bind_eq_Some_conv split: if_splits)
  then have 1: "\<not> Busy st1" "SmmCommProtocol st1" "gNvramBuffer st1 = Some b" "rs_SetVariable st1 = OriginalSetVariable"
    using assms(10,11) by simp_all
  have "le_nat (le_bytes 8 b) = b" by (rule le_nat_le_bytes_id) (use assms(9) in simp)
  then have "st2 = st1\<lparr>smm_gNvramBuffer := Some b\<rparr>" using assms(3,8) by (auto simp: NvramSmiInSmmFunction_def Let_def split: if_splits)
  then show ?thesis using 1 assms(5-7) by (simp add: smi_ready_def NvramSmiReadyToBoot_def)
qed

text \<open>Without the communication service, or while a request is under way, the variable is not written.\<close>

lemma smi_request_busy: "gNvramBuffer st = Some b \<Longrightarrow> Busy st \<Longrightarrow> smi_request se name guid a (st, w) = Some (EFI_ACCESS_DENIED, st, w)"
  by (simp add: smi_request_def NvSmiBeginCriticalSection_def)

lemma smi_request_no_response:
  assumes "gNvramBuffer st = Some b" "\<not> SmmCommProtocol st" "ExitBS st"
  shows "smi_request se name guid a (st, w) = Some (r, st', w') \<Longrightarrow>
    w' = w \<and> (r = EFI_NO_RESPONSE \<or> r = EFI_ACCESS_DENIED)"
  using assms by (auto simp: smi_request_def NvSmiBeginCriticalSection_def InitCommunicate_def buf_write_def Let_def
      bind_eq_Some_conv split: if_splits)

text \<open>If the services are started twice the client has replaced itself: a volatile variable is never written.\<close>

lemma smi_started_twice:
  assumes "gNvramBuffer st = Some b" "name0 name \<noteq> 0" "sa_VariableName a = Some name" "sa_VendorGuid a = Some guid" "sa_Data a \<noteq> None"
    "sa_DataSize a \<noteq> 0" "\<not> has (sa_Attributes a) EFI_VARIABLE_NON_VOLATILE"
    "sa_DataSize a + (length (c_string name) + 1) * 2 + sizeof_SMI_VARIABLE + 1 \<le> se_NVRAM_SIZE se" "se_NVRAM_SIZE se < 2 ^ 63"
  shows "SetVariableToSmi se a (NvramSmiReadyToBoot (NvramSmiReadyToBoot st), w) = None"
proof -
  have "uintn_sub (2 ^ 64 - 1) (sa_DataSize a) = 2 ^ 64 - 1 - sa_DataSize a" by (rule uintn_sub_le) (use assms(8,9) in simp_all)
  then show ?thesis using assms by (auto simp: SetVariableToSmi_def NvramSmiReadyToBoot_def Wcslen_def Let_def)
qed

section \<open>A call\<close>

text \<open>A service that records its calls; the buffer at \<open>0x100001\<close>, an odd address, so that the name is moved.\<close>

definition recorder :: "set_args list set_variable" where
  "recorder a w = Some (EFI_SUCCESS, w @ [a])"

definition demo_env :: "set_args list smi_env" where
  "demo_env = \<lparr>se_NVRAM_SIZE = 0x10000, se_Communicate = served_by recorder, se_phys = (\<lambda>p. p), se_InSmm = False,
     se_CommProtocol = True, se_SmmRsTable = True, se_Original = recorder, se_Smm = recorder\<rparr>"

definition demo_state :: smi_state where
  "demo_state = \<lparr>Busy = False, IntState = (0, 0), PicMasks = (0xB8, 0x8F), ExitBS = False, SmmCommProtocol = True,
     CommHeaderPtr = True, SmmpRs = False, gNvramBuffer = Some 0x100001, gSavedSetVariable = Some OriginalSetVariable,
     rs_SetVariable = ViaSmi, smm_gNvramBuffer = Some 0x100001,
     smi_buf = \<lparr>smi_Signature = 0, smi_VarAttrib = 0, smi_VarGuid = [], smi_VarSize = 0, smi_Status = EFI_SUCCESS, smi_Subfunction = 0\<rparr>,
     smi_mem = (\<lambda>_. 0)\<rparr>"

definition demo_args :: set_args where
  "demo_args = \<lparr>sa_VariableName = Some [0x42, 0x6F], sa_VendorGuid = Some (replicate 16 7), sa_Attributes = 7,
     sa_DataSize = 3, sa_Data = Some [1, 2, 3]\<rparr>"

theorem SetVariableToSmi_is_SetVariable_witness:
  "\<exists>st'. SetVariableToSmi demo_env demo_args (demo_state, []) = Some (EFI_SUCCESS, st', [demo_args]) \<and> smi_clean demo_env demo_state st'"
proof -
  have h: "smi_ready demo_env demo_state" "smi_fits demo_env demo_args" "se_Communicate demo_env = served_by (se_Smm demo_env)"
    "gSavedSetVariable demo_state = Some OriginalSetVariable" "se_NVRAM_SIZE demo_env < 2 ^ 63"
    by (simp_all add: smi_ready_def smi_fits_def demo_env_def demo_state_def demo_args_def name0_def c_string_def sizeof_SMI_VARIABLE_def)
  have "direct_set demo_env demo_args [] = Some (EFI_SUCCESS, [demo_args])"
    by (simp add: direct_set_def demo_args_def demo_env_def recorder_def smm_args_def c_string_def has_def EFI_VARIABLE_NON_VOLATILE_def)
  with SetVariableToSmi_is_SetVariable [OF h, of "[]"] show ?thesis by (auto simp: map_option_case split: option.splits)
qed

end
