(* ===== verification/EfiDecompress.thy ===== *)
theory EfiDecompress
  imports Prelude
begin

text \<open>
  The decompressor of the firmware volumes, \<^verbatim>\<open>AmiCompatibilityPkg/Library/Decompress.c\<close>: a stream of bits
  with a 32-bit window, tables for canonical Huffman codes, and a sequence of literals and copies.

  A function that reads or writes outside of an array of the scratch buffer, the source or the destination,
  shifts a value by more than its width, or does not return, has the value \<open>None\<close>.  16-bit and 32-bit
  counters are natural numbers with the wrap-around written out; the bit buffers are machine words.
  The shift of the empty window by its whole width at the start of a pass gives an empty window.
  The assignment \<^verbatim>\<open>Weight[i++] = 1U << (16 - i)\<close> of \<^verbatim>\<open>MakeTable\<close> is read as it is meant, with the old
  value of \<^verbatim>\<open>i\<close> on the right (C leaves the order open).
\<close>

section \<open>The scratch buffer\<close>

definition BITBUFSIZ :: nat where "BITBUFSIZ = 32"
definition MAXMATCH :: nat where "MAXMATCH = 256"
definition THRESHOLD :: nat where "THRESHOLD = 3"
definition UINT8_MAX :: nat where "UINT8_MAX = 0xFF"
definition BAD_TABLE :: nat where "BAD_TABLE = 0xFFFF"
definition NC :: nat where "NC = 0xFF + MAXMATCH + 2 - THRESHOLD"
definition CBIT :: nat where "CBIT = 9"
definition TBIT :: nat where "TBIT = 5"
definition MAXNP :: nat where "MAXNP = 31"
definition NT :: nat where "NT = 19"
definition NPT :: nat where "NPT = (if NT > MAXNP then NT else MAXNP)"

lemmas dec_consts = BITBUFSIZ_def MAXMATCH_def THRESHOLD_def UINT8_MAX_def BAD_TABLE_def NC_def CBIT_def TBIT_def
  MAXNP_def NT_def NPT_def

record SCRATCH_DATA =
  mDst :: "u8 list"
  mOutBuf :: nat
  mInBuf :: nat
  mBitCount :: nat
  mBitBuf :: u32
  mSubBitBuf :: u32
  mBlockSize :: nat
  mCompSize :: nat
  mOrigSize :: nat
  mBadTableFlag :: nat
  mLeft :: "nat list"
  mRight :: "nat list"
  mCLen :: "nat list"
  mPTLen :: "nat list"
  mCTable :: "nat list"
  mPTTable :: "nat list"
  mPBit :: nat

text \<open>Checked access to an array, and the loop that fills a part of it.\<close>

definition rdx :: "'a list \<Rightarrow> nat \<Rightarrow> 'a option" where
  "rdx xs i = (if i < length xs then Some (xs ! i) else None)"

definition wrx :: "'a list \<Rightarrow> nat \<Rightarrow> 'a \<Rightarrow> 'a list option" where
  "wrx xs i v = (if i < length xs then Some (xs[i := v]) else None)"

definition fill :: "'a list \<Rightarrow> nat \<Rightarrow> nat \<Rightarrow> 'a \<Rightarrow> 'a list option" where
  "fill xs a b v =
     (if b \<le> a then Some xs
      else if b \<le> length xs then Some (take a xs @ replicate (b - a) v @ drop b xs) else None)"

section \<open>The bit stream\<close>

text \<open>\<open>src\<close> is the source behind its header, \<^verbatim>\<open>mSrcBase\<close>.\<close>

definition LoadByte :: "u8 list \<Rightarrow> SCRATCH_DATA \<Rightarrow> SCRATCH_DATA option" where
  "LoadByte src Sd =
     (if mCompSize Sd > 0
      then do {
        x \<leftarrow> rdx src (mInBuf Sd);
        Some (Sd\<lparr>mCompSize := mCompSize Sd - 1, mSubBitBuf := ucast x, mInBuf := mInBuf Sd + 1, mBitCount := 8\<rparr>)
      }
      else Some (Sd\<lparr>mSubBitBuf := 0, mBitCount := 8\<rparr>))"

partial_function (option) FillBuf_loop ::
    "u8 list \<Rightarrow> SCRATCH_DATA \<Rightarrow> nat \<Rightarrow> (SCRATCH_DATA \<times> nat) option" where
  "FillBuf_loop src Sd NumOfBits =
     (if NumOfBits > mBitCount Sd
      then
        let N = NumOfBits - mBitCount Sd in
        do {
          Sd' \<leftarrow> LoadByte src (Sd\<lparr>mBitBuf := mBitBuf Sd OR push_bit N (mSubBitBuf Sd)\<rparr>);
          FillBuf_loop src Sd' N
        }
      else Some (Sd, NumOfBits))"

declare FillBuf_loop.simps [code]

definition FillBuf :: "u8 list \<Rightarrow> SCRATCH_DATA \<Rightarrow> nat \<Rightarrow> SCRATCH_DATA option" where
  "FillBuf src Sd NumOfBits =
     (if NumOfBits \<ge> BITBUFSIZ \<and> mBitBuf Sd \<noteq> 0 then None
      else do {
        (Sd1, N) \<leftarrow> FillBuf_loop src (Sd\<lparr>mBitBuf := push_bit NumOfBits (mBitBuf Sd)\<rparr>) NumOfBits;
        let cnt = mBitCount Sd1 - N;
        Some (Sd1\<lparr>mBitCount := cnt, mBitBuf := mBitBuf Sd1 OR drop_bit cnt (mSubBitBuf Sd1)\<rparr>)
      })"

definition GetBits :: "u8 list \<Rightarrow> SCRATCH_DATA \<Rightarrow> nat \<Rightarrow> (nat \<times> SCRATCH_DATA) option" where
  "GetBits src Sd NumOfBits =
     (let OutBits = unat (drop_bit (BITBUFSIZ - NumOfBits) (mBitBuf Sd))
      in do {
           Sd' \<leftarrow> FillBuf src Sd NumOfBits;
           Some (OutBits, Sd')
         })"

section \<open>The tables of a Huffman code\<close>

text \<open>The loops at the beginning of \<^verbatim>\<open>MakeTable\<close>.  \<^verbatim>\<open>Count\<close> and \<^verbatim>\<open>Weight\<close> have 17 entries, \<^verbatim>\<open>Start\<close> 18;
  \<open>Count[0]\<close> is not initialised and not used.\<close>

fun count_lens :: "nat list \<Rightarrow> nat list \<Rightarrow> nat list option" where
  "count_lens [] Count = Some Count"
| "count_lens (b # bs) Count =
     (if b < length Count then count_lens bs (Count[b := (Count ! b + 1) mod 2 ^ 16]) else None)"

fun make_start :: "nat list \<Rightarrow> nat \<Rightarrow> nat list \<Rightarrow> nat list" where
  "make_start Count 0 Start = Start"
| "make_start Count (Suc n) Start =
     (let S = make_start Count n Start; i = Suc n
      in S[i + 1 := (S ! i + Count ! i * 2 ^ (16 - i)) mod 2 ^ 16])"

definition make_weight :: "nat \<Rightarrow> nat list" where
  "make_weight TableBits = map (\<lambda>i. if i = 0 then 0 else if i \<le> TableBits then 2 ^ (TableBits - i) else 2 ^ (16 - i)) [0..<17]"

text \<open>The pointer \<^verbatim>\<open>p\<close> of the insertion points into the table or to a child of a node.\<close>

datatype slot = TableSlot nat | LeftSlot nat | RightSlot nat

record tree =
  tr_Table :: "nat list"
  tr_Left :: "nat list"
  tr_Right :: "nat list"

fun slot_get :: "tree \<Rightarrow> slot \<Rightarrow> nat option" where
  "slot_get t (TableSlot i) = rdx (tr_Table t) i"
| "slot_get t (LeftSlot i) = rdx (tr_Left t) i"
| "slot_get t (RightSlot i) = rdx (tr_Right t) i"

fun slot_put :: "tree \<Rightarrow> slot \<Rightarrow> nat \<Rightarrow> tree option" where
  "slot_put t (TableSlot i) v = map_option (\<lambda>xs. t\<lparr>tr_Table := xs\<rparr>) (wrx (tr_Table t) i v)"
| "slot_put t (LeftSlot i) v = map_option (\<lambda>xs. t\<lparr>tr_Left := xs\<rparr>) (wrx (tr_Left t) i v)"
| "slot_put t (RightSlot i) v = map_option (\<lambda>xs. t\<lparr>tr_Right := xs\<rparr>) (wrx (tr_Right t) i v)"

fun insert_code :: "nat \<Rightarrow> nat \<Rightarrow> nat \<Rightarrow> nat \<Rightarrow> slot \<Rightarrow> nat \<times> tree \<Rightarrow> (nat \<times> tree) option" where
  "insert_code Chr Mask 0 k p (Avail, t) = do { t' \<leftarrow> slot_put t p Chr; Some (Avail, t') }"
| "insert_code Chr Mask (Suc i) k p (Avail, t) =
     do {
       v \<leftarrow> slot_get t p;
       (Avail1, t1) \<leftarrow>
         (if v = 0
          then do {
            l \<leftarrow> wrx (tr_Left t) Avail 0;
            r \<leftarrow> wrx (tr_Right t) Avail 0;
            t' \<leftarrow> slot_put (t\<lparr>tr_Left := l, tr_Right := r\<rparr>) p Avail;
            Some ((Avail + 1) mod 2 ^ 16, t')
          }
          else Some (Avail, t));
       w \<leftarrow> slot_get t1 p;
       insert_code Chr Mask i (k * 2 mod 2 ^ 16)
         (if k AND Mask \<noteq> 0 then RightSlot w else LeftSlot w) (Avail1, t1)
     }"

fun insert_chars ::
    "nat list \<Rightarrow> nat \<Rightarrow> nat list \<Rightarrow> nat \<Rightarrow> nat list \<Rightarrow> nat \<times> tree \<Rightarrow> (nat \<times> tree) option" where
  "insert_chars [] TableBits Weight Chr Start s = Some s"
| "insert_chars (Len # bs) TableBits Weight Chr Start s =
     (if Len = 0 then insert_chars bs TableBits Weight (Chr + 1) Start s
      else
        let NextCode = (Start ! Len + Weight ! Len) mod 2 ^ 16; k = Start ! Len; (Avail, t) = s in
        do {
          s' \<leftarrow>
            (if Len \<le> TableBits
             then map_option (\<lambda>xs. (Avail, t\<lparr>tr_Table := xs\<rparr>)) (fill (tr_Table t) k NextCode Chr)
             else insert_code Chr (2 ^ (15 - TableBits)) (Len - TableBits) k
                    (TableSlot (k div 2 ^ (16 - TableBits))) (Avail, t));
          insert_chars bs TableBits Weight (Chr + 1) (Start[Len := NextCode]) s'
        })"

definition MakeTable ::
    "nat \<Rightarrow> nat list \<Rightarrow> nat \<Rightarrow> tree \<Rightarrow> (nat \<times> tree) option" where
  "MakeTable NumOfChar BitLen TableBits t =
     do {
       Count \<leftarrow> (if NumOfChar \<le> length BitLen then count_lens (take NumOfChar BitLen) (replicate 17 0) else None);
       let Start = make_start Count 16 (replicate 18 0);
       if Start ! 17 \<noteq> 0 then Some (BAD_TABLE, t)
       else
         let JuBits = 16 - TableBits;
             Start1 = map (\<lambda>i. if 1 \<le> i \<and> i \<le> TableBits then Start ! i div 2 ^ JuBits else Start ! i) [0..<18];
             i = Start1 ! (TableBits + 1) div 2 ^ JuBits
         in do {
              T \<leftarrow> (if i \<noteq> 0 then fill (tr_Table t) i (2 ^ TableBits) 0 else Some (tr_Table t));
              (Avail, t') \<leftarrow> insert_chars (take NumOfChar BitLen) TableBits (make_weight TableBits) 0 Start1
                               (NumOfChar, t\<lparr>tr_Table := T\<rparr>);
              Some (0, t')
            }
     }"

section \<open>Walking a code tree\<close>

text \<open>The loops that leave the table for the tree: from node \<open>v\<close>, following the bits of the window from
  \<open>Mask\<close> down, to a value below \<open>bound\<close>.\<close>

partial_function (option) walk :: "nat \<Rightarrow> SCRATCH_DATA \<Rightarrow> u32 \<Rightarrow> nat \<Rightarrow> nat option" where
  "walk bound Sd Mask v =
     (if v \<ge> bound
      then do {
        v' \<leftarrow> (if mBitBuf Sd AND Mask \<noteq> 0 then rdx (mRight Sd) v else rdx (mLeft Sd) v);
        walk bound Sd (drop_bit 1 Mask) v'
      }
      else Some v)"

declare walk.simps [code]

definition DecodeP :: "u8 list \<Rightarrow> SCRATCH_DATA \<Rightarrow> (nat \<times> SCRATCH_DATA) option" where
  "DecodeP src Sd =
     do {
       v \<leftarrow> rdx (mPTTable Sd) (unat (drop_bit (BITBUFSIZ - 8) (mBitBuf Sd)));
       Val \<leftarrow> walk MAXNP Sd (2 ^ (BITBUFSIZ - 1 - 8)) v;
       n \<leftarrow> rdx (mPTLen Sd) Val;
       Sd1 \<leftarrow> FillBuf src Sd n;
       (if Val > 1
        then do {
          (x, Sd2) \<leftarrow> GetBits src Sd1 (Val - 1);
          Some (2 ^ (Val - 1) + x, Sd2)
        }
        else Some (Val, Sd1))
     }"

section \<open>Reading the code lengths\<close>

definition get_tree :: "nat list \<Rightarrow> SCRATCH_DATA \<Rightarrow> tree" where
  "get_tree T Sd = \<lparr>tr_Table = T, tr_Left = mLeft Sd, tr_Right = mRight Sd\<rparr>"

text \<open>\<open>count_ones w k\<close> counts the set bits of the window below bit \<open>k\<close> up to the first clear one.\<close>

fun count_ones :: "u32 \<Rightarrow> nat \<Rightarrow> nat" where
  "count_ones w 0 = 0"
| "count_ones w (Suc k) = (if bit w k then Suc (count_ones w k) else 0)"

partial_function (option) ReadPTLen_loop ::
    "u8 list \<Rightarrow> nat \<Rightarrow> nat \<Rightarrow> nat \<Rightarrow> SCRATCH_DATA \<Rightarrow> (nat \<times> SCRATCH_DATA) option" where
  "ReadPTLen_loop src Special n i Sd =
     (if i < n
      then
        let c0 = unat (drop_bit (BITBUFSIZ - 3) (mBitBuf Sd));
            c = (if c0 = 7 then 7 + count_ones (mBitBuf Sd) (BITBUFSIZ - 3) else c0)
        in do {
             Sd1 \<leftarrow> FillBuf src Sd (if c < 7 then 3 else c - 3);
             L \<leftarrow> wrx (mPTLen Sd1) i c;
             (j, Sd2) \<leftarrow>
               (if i + 1 = Special
                then do {
                  (z, Sd2) \<leftarrow> GetBits src (Sd1\<lparr>mPTLen := L\<rparr>) 2;
                  L2 \<leftarrow> fill L (i + 1) (i + 1 + z) 0;
                  Some (i + 1 + z, Sd2\<lparr>mPTLen := L2\<rparr>)
                }
                else Some (i + 1, Sd1\<lparr>mPTLen := L\<rparr>));
             ReadPTLen_loop src Special n j Sd2
           }
      else Some (i, Sd))"

declare ReadPTLen_loop.simps [code]

definition ReadPTLen ::
    "u8 list \<Rightarrow> SCRATCH_DATA \<Rightarrow> nat \<Rightarrow> nat \<Rightarrow> nat \<Rightarrow> (nat \<times> SCRATCH_DATA) option" where
  "ReadPTLen src Sd nn nbit Special =
     do {
       (n, Sd1) \<leftarrow> GetBits src Sd nbit;
       (if n = 0
        then do {
          (c, Sd2) \<leftarrow> GetBits src Sd1 nbit;
          T \<leftarrow> fill (mPTTable Sd2) 0 256 c;
          L \<leftarrow> fill (mPTLen Sd2) 0 nn 0;
          Some (0, Sd2\<lparr>mPTTable := T, mPTLen := L\<rparr>)
        }
        else do {
          (i, Sd2) \<leftarrow> ReadPTLen_loop src Special n 0 Sd1;
          L \<leftarrow> fill (mPTLen Sd2) i nn 0;
          (r, t) \<leftarrow> MakeTable nn L 8 (get_tree (mPTTable Sd2) Sd2);
          Some (r, Sd2\<lparr>mPTLen := L, mPTTable := tr_Table t, mLeft := tr_Left t, mRight := tr_Right t\<rparr>)
        })
     }"

partial_function (option) ReadCLen_loop ::
    "u8 list \<Rightarrow> nat \<Rightarrow> nat \<Rightarrow> SCRATCH_DATA \<Rightarrow> (nat \<times> SCRATCH_DATA) option" where
  "ReadCLen_loop src n i Sd =
     (if i < n
      then do {
        v \<leftarrow> rdx (mPTTable Sd) (unat (drop_bit (BITBUFSIZ - 8) (mBitBuf Sd)));
        c \<leftarrow> walk NT Sd (2 ^ (BITBUFSIZ - 1 - 8)) v;
        k \<leftarrow> rdx (mPTLen Sd) c;
        Sd1 \<leftarrow> FillBuf src Sd k;
        (if c \<le> 2
         then do {
           (z, Sd2) \<leftarrow>
             (if c = 0 then Some (1, Sd1)
              else if c = 1 then map_option (\<lambda>(x, S). (x + 3, S)) (GetBits src Sd1 4)
              else map_option (\<lambda>(x, S). (x + 20, S)) (GetBits src Sd1 CBIT));
           L \<leftarrow> fill (mCLen Sd2) i (i + z) 0;
           ReadCLen_loop src n (i + z) (Sd2\<lparr>mCLen := L\<rparr>)
         }
         else do {
           L \<leftarrow> wrx (mCLen Sd1) i (c - 2);
           ReadCLen_loop src n (i + 1) (Sd1\<lparr>mCLen := L\<rparr>)
         })
      }
      else Some (i, Sd))"

declare ReadCLen_loop.simps [code]

definition ReadCLen :: "u8 list \<Rightarrow> SCRATCH_DATA \<Rightarrow> SCRATCH_DATA option" where
  "ReadCLen src Sd =
     do {
       (n, Sd1) \<leftarrow> GetBits src Sd CBIT;
       (if n = 0
        then do {
          (c, Sd2) \<leftarrow> GetBits src Sd1 CBIT;
          L \<leftarrow> fill (mCLen Sd2) 0 NC 0;
          T \<leftarrow> fill (mCTable Sd2) 0 4096 c;
          Some (Sd2\<lparr>mCLen := L, mCTable := T\<rparr>)
        }
        else do {
          (i, Sd2) \<leftarrow> ReadCLen_loop src n 0 Sd1;
          L \<leftarrow> fill (mCLen Sd2) i NC 0;
          (r, t) \<leftarrow> MakeTable NC L 12 (get_tree (mCTable Sd2) Sd2);
          Some (Sd2\<lparr>mCLen := L, mCTable := tr_Table t, mLeft := tr_Left t, mRight := tr_Right t\<rparr>)
        })
     }"

section \<open>Decoding\<close>

text \<open>The beginning of a block; the flag tells whether its tables are complete.\<close>

definition StartBlock :: "u8 list \<Rightarrow> SCRATCH_DATA \<Rightarrow> (bool \<times> SCRATCH_DATA) option" where
  "StartBlock src Sd =
     do {
       (b, Sd1) \<leftarrow> GetBits src Sd 16;
       (f, Sd2) \<leftarrow> ReadPTLen src (Sd1\<lparr>mBlockSize := b\<rparr>) NT TBIT 3;
       (if f \<noteq> 0 then Some (False, Sd2\<lparr>mBadTableFlag := f\<rparr>)
        else do {
          Sd3 \<leftarrow> ReadCLen src (Sd2\<lparr>mBadTableFlag := f\<rparr>);
          (g, Sd4) \<leftarrow> ReadPTLen src Sd3 MAXNP (mPBit Sd3) 0xFFFF;
          Some (g = 0, Sd4\<lparr>mBadTableFlag := g\<rparr>)
        })
     }"

definition DecodeC :: "u8 list \<Rightarrow> SCRATCH_DATA \<Rightarrow> (nat \<times> SCRATCH_DATA) option" where
  "DecodeC src Sd =
     do {
       (ok, Sd1) \<leftarrow> (if mBlockSize Sd = 0 then StartBlock src Sd else Some (True, Sd));
       (if \<not> ok then Some (0, Sd1)
        else
          let Sd2 = Sd1\<lparr>mBlockSize := (mBlockSize Sd1 + 0xFFFF) mod 2 ^ 16\<rparr>
          in do {
               v \<leftarrow> rdx (mCTable Sd2) (unat (drop_bit (BITBUFSIZ - 12) (mBitBuf Sd2)));
               j \<leftarrow> walk NC Sd2 (2 ^ (BITBUFSIZ - 1 - 12)) v;
               n \<leftarrow> rdx (mCLen Sd2) j;
               Sd3 \<leftarrow> FillBuf src Sd2 n;
               Some (j, Sd3)
             })
     }"

text \<open>The loop that copies \<open>n\<close> bytes; the flag tells whether it has filled the destination.\<close>

fun CopyBytes :: "nat \<Rightarrow> nat \<Rightarrow> SCRATCH_DATA \<Rightarrow> (bool \<times> SCRATCH_DATA) option" where
  "CopyBytes 0 DataIdx Sd = Some (False, Sd)"
| "CopyBytes (Suc n) DataIdx Sd =
     do {
       x \<leftarrow> rdx (mDst Sd) DataIdx;
       D \<leftarrow> wrx (mDst Sd) (mOutBuf Sd) x;
       let Sd' = Sd\<lparr>mDst := D, mOutBuf := (mOutBuf Sd + 1) mod 2 ^ 32\<rparr>;
       (if mOutBuf Sd' \<ge> mOrigSize Sd' then Some (True, Sd')
        else CopyBytes n ((DataIdx + 1) mod 2 ^ 32) Sd')
     }"

partial_function (option) Decode :: "u8 list \<Rightarrow> SCRATCH_DATA \<Rightarrow> SCRATCH_DATA option" where
  "Decode src Sd =
     do {
       (c, Sd1) \<leftarrow> DecodeC src Sd;
       (if mBadTableFlag Sd1 \<noteq> 0 then Some Sd1
        else if c < 256
        then (if mOutBuf Sd1 \<ge> mOrigSize Sd1 then Some Sd1
              else do {
                D \<leftarrow> wrx (mDst Sd1) (mOutBuf Sd1) (word_of_nat c);
                Decode src (Sd1\<lparr>mDst := D, mOutBuf := mOutBuf Sd1 + 1\<rparr>)
              })
        else do {
          (p, Sd2) \<leftarrow> DecodeP src Sd1;
          (full, Sd3) \<leftarrow> CopyBytes (c - (UINT8_MAX + 1 - THRESHOLD))
                           ((mOutBuf Sd1 + (2 ^ 33 - p - 1)) mod 2 ^ 32) Sd2;
          (if full then Some Sd3 else Decode src Sd3)
        })
     }"

declare Decode.simps [code]

text \<open>The size of the scratch buffer on the 64-bit build.\<close>

definition sizeof_SCRATCH_DATA :: nat where "sizeof_SCRATCH_DATA = 13376"

definition GetInfo :: "u8 list \<Rightarrow> nat \<Rightarrow> efi_status \<times> nat option \<times> nat" where
  "GetInfo Source SrcSize =
     (if SrcSize < 8 then (EFI_INVALID_PARAMETER, None, sizeof_SCRATCH_DATA)
      else (EFI_SUCCESS, Some (le_nat (take 4 (drop 4 Source))), sizeof_SCRATCH_DATA))"

definition init_scratch :: "nat \<Rightarrow> nat \<Rightarrow> nat \<Rightarrow> u8 list \<Rightarrow> SCRATCH_DATA" where
  "init_scratch CompSize OrigSize PBit Dst =
     \<lparr>mDst = Dst, mOutBuf = 0, mInBuf = 0, mBitCount = 0, mBitBuf = 0, mSubBitBuf = 0, mBlockSize = 0,
      mCompSize = CompSize, mOrigSize = OrigSize, mBadTableFlag = 0, mLeft = replicate (2 * NC - 1) 0,
      mRight = replicate (2 * NC - 1) 0, mCLen = replicate NC 0, mPTLen = replicate NPT 0,
      mCTable = replicate 4096 0, mPTTable = replicate 256 0, mPBit = PBit\<rparr>"

definition decode_pass :: "u8 list \<Rightarrow> nat \<Rightarrow> nat \<Rightarrow> nat \<Rightarrow> u8 list \<Rightarrow> SCRATCH_DATA option" where
  "decode_pass Src CompSize OrigSize PBit Dst =
     do {
       Sd \<leftarrow> FillBuf Src (init_scratch CompSize OrigSize PBit Dst) BITBUFSIZ;
       Decode Src Sd
     }"

text \<open>\<^verbatim>\<open>Decompress\<close>: the Tiano format first, then, if a table was bad, the EFI 1.1 format.\<close>

definition Decompress :: "u8 list \<Rightarrow> nat \<Rightarrow> u8 list \<Rightarrow> nat \<Rightarrow> nat \<Rightarrow> (efi_status \<times> u8 list) option" where
  "Decompress Source SrcSize Destination DstSize ScratchSize =
     (if ScratchSize < sizeof_SCRATCH_DATA \<or> SrcSize < 8 then Some (EFI_INVALID_PARAMETER, Destination)
      else
        let CompSize = le_nat (take 4 Source); OrigSize = le_nat (take 4 (drop 4 Source))
        in if OrigSize = 0 then Some (EFI_SUCCESS, Destination)
           else if SrcSize < (CompSize + 8) mod 2 ^ 32 \<or> DstSize \<noteq> OrigSize
           then Some (EFI_INVALID_PARAMETER, Destination)
           else do {
             Sd5 \<leftarrow> decode_pass (drop 8 Source) CompSize OrigSize 5 Destination;
             (if mBadTableFlag Sd5 = 0 then Some (EFI_SUCCESS, mDst Sd5)
              else do {
                Sd4 \<leftarrow> decode_pass (drop 8 Source) CompSize OrigSize 4 (mDst Sd5);
                Some (if mBadTableFlag Sd4 \<noteq> 0 then EFI_INVALID_PARAMETER else EFI_SUCCESS, mDst Sd4)
              })
           })"

end
