(* ===== verification/DecStream.thy ===== *)
theory DecStream
  imports EfiDecompress
begin

text \<open>
  The bit stream of the decompressor as a function from positions to bits, most significant bit of each byte
  first and zeros behind the compressed data, and the window of \<open>FillBuf\<close> as a view of it.
\<close>

section \<open>Streams of bits\<close>

definition sbit :: "u8 list \<Rightarrow> nat \<Rightarrow> nat \<Rightarrow> bool" where
  "sbit src n k \<longleftrightarrow> k div 8 < n \<and> bit (src ! (k div 8)) (7 - k mod 8)"

text \<open>The stream behind the forty zero bits of the empty buffers.\<close>

definition zbit :: "u8 list \<Rightarrow> nat \<Rightarrow> nat \<Rightarrow> bool" where
  "zbit src n k \<longleftrightarrow> 40 \<le> k \<and> sbit src n (k - 40)"

text \<open>The window is at position \<open>q\<close> of the stream.\<close>

definition window :: "u8 list \<Rightarrow> nat \<Rightarrow> nat \<Rightarrow> SCRATCH_DATA \<Rightarrow> bool" where
  "window src n q Sd \<longleftrightarrow>
     n \<le> length src \<and> mBitCount Sd \<le> 8
     \<and> (\<exists>L. q + 32 + mBitCount Sd = 40 + 8 * L \<and> mInBuf Sd = min L n \<and> mCompSize Sd = n - L)
     \<and> (\<forall>i<32. bit (mBitBuf Sd) i \<longleftrightarrow> zbit src n (q + 31 - i))
     \<and> (\<forall>i<32. bit (mSubBitBuf Sd) i \<longleftrightarrow> i < 8 \<and> zbit src n (q + 31 + mBitCount Sd - i))"

text \<open>In the middle of \<open>FillBuf\<close>: \<open>N\<close> bits of the window are still to be filled from below.\<close>

definition filling :: "u8 list \<Rightarrow> nat \<Rightarrow> nat \<Rightarrow> nat \<Rightarrow> SCRATCH_DATA \<Rightarrow> bool" where
  "filling src n q N Sd \<longleftrightarrow>
     n \<le> length src \<and> mBitCount Sd \<le> 8 \<and> N \<le> 32
     \<and> (\<exists>L. q + 32 + mBitCount Sd = 40 + 8 * L + N \<and> mInBuf Sd = min L n \<and> mCompSize Sd = n - L)
     \<and> (\<forall>i<32. bit (mBitBuf Sd) i \<longleftrightarrow> N \<le> i \<and> zbit src n (q + 31 - i))
     \<and> (\<forall>i<32. bit (mSubBitBuf Sd) i \<longleftrightarrow> i < 8 \<and> zbit src n (q + 31 + mBitCount Sd - N - i))"

text \<open>The fields that \<open>FillBuf\<close> does not touch.\<close>

definition same_rest :: "SCRATCH_DATA \<Rightarrow> SCRATCH_DATA \<Rightarrow> bool" where
  "same_rest Sd Sd' \<longleftrightarrow>
     mDst Sd' = mDst Sd \<and> mOutBuf Sd' = mOutBuf Sd \<and> mBlockSize Sd' = mBlockSize Sd \<and> mOrigSize Sd' = mOrigSize Sd
     \<and> mBadTableFlag Sd' = mBadTableFlag Sd \<and> mLeft Sd' = mLeft Sd \<and> mRight Sd' = mRight Sd \<and> mCLen Sd' = mCLen Sd
     \<and> mPTLen Sd' = mPTLen Sd \<and> mCTable Sd' = mCTable Sd \<and> mPTTable Sd' = mPTTable Sd \<and> mPBit Sd' = mPBit Sd"

lemma same_rest_refl [simp]: "same_rest Sd Sd"
  by (simp add: same_rest_def)

lemma same_rest_trans: "same_rest Sd Sd' \<Longrightarrow> same_rest Sd' Sd'' \<Longrightarrow> same_rest Sd Sd''"
  by (simp add: same_rest_def)

lemma zbit_at: "i < 8 \<Longrightarrow> zbit src n (47 + 8 * L - i) \<longleftrightarrow> L < n \<and> bit (src ! L) i"
proof -
  assume i: "i < 8"
  define k where "k = 47 + 8 * L - i - 40"
  have k: "k = (7 - i) + 8 * L" using i by (simp add: k_def)
  have "(7 - i) div 8 = 0" "(7 - i) mod 8 = 7 - i" using i by simp_all
  then have "k div 8 = L" "k mod 8 = 7 - i" unfolding k div_mult_self2 mod_mult_self2 by simp_all
  moreover have "40 \<le> 47 + 8 * L - i" using i by simp
  moreover have "7 - (7 - i) = i" using i by simp
  ultimately show ?thesis unfolding zbit_def sbit_def k_def [symmetric] by simp
qed

lemma LoadByte_sub:
  assumes "n \<le> length src" "mInBuf Sd = min L n" "mCompSize Sd = n - L"
  shows "\<exists>b. LoadByte src Sd = Some (Sd\<lparr>mCompSize := n - Suc L, mSubBitBuf := b, mInBuf := min (Suc L) n, mBitCount := 8\<rparr>)
    \<and> (\<forall>i<32. bit b i \<longleftrightarrow> i < 8 \<and> zbit src n (47 + 8 * L - i))"
proof (cases "L < n")
  case True
  then have l: "LoadByte src Sd = Some (Sd\<lparr>mCompSize := n - Suc L, mSubBitBuf := ucast (src ! L), mInBuf := min (Suc L) n, mBitCount := 8\<rparr>)"
    using assms by (simp add: LoadByte_def rdx_def)
  have "bit (ucast (src ! L) :: u32) i \<longleftrightarrow> i < 8 \<and> zbit src n (47 + 8 * L - i)" if "i < 32" for i
    using bit_imp_le_length [of "src ! L" i] zbit_at [of i src n L] True that
    by (cases "i < 8") (auto simp: bit_ucast_iff)
  with l show ?thesis by blast
next
  case False
  then have "LoadByte src Sd = Some (Sd\<lparr>mCompSize := n - Suc L, mSubBitBuf := 0, mInBuf := min (Suc L) n, mBitCount := 8\<rparr>)"
    using assms by (simp add: LoadByte_def)
  moreover have "\<not> zbit src n (47 + 8 * L - i)" if "i < 8" for i using False zbit_at [OF that] by simp
  ultimately show ?thesis by (intro exI [of _ 0]) simp
qed

lemma filling_step:
  assumes f: "filling src n q N Sd" and N: "mBitCount Sd < N"
  shows "\<exists>Sd'. LoadByte src (Sd\<lparr>mBitBuf := mBitBuf Sd OR push_bit (N - mBitCount Sd) (mSubBitBuf Sd)\<rparr>) = Some Sd'
    \<and> filling src n q (N - mBitCount Sd) Sd' \<and> mBitCount Sd' = 8 \<and> same_rest Sd Sd'"
proof -
  obtain L where L: "q + 32 + mBitCount Sd = 40 + 8 * L + N" "mInBuf Sd = min L n" "mCompSize Sd = n - L"
    using f by (auto simp: filling_def)
  let ?N = "N - mBitCount Sd"
  let ?S = "Sd\<lparr>mBitBuf := mBitBuf Sd OR push_bit ?N (mSubBitBuf Sd)\<rparr>"
  have n: "n \<le> length src" "mInBuf ?S = min L n" "mCompSize ?S = n - L" using f L by (auto simp: filling_def)
  from LoadByte_sub [OF n] obtain b where
    b: "LoadByte src ?S = Some (?S\<lparr>mCompSize := n - Suc L, mSubBitBuf := b, mInBuf := min (Suc L) n, mBitCount := 8\<rparr>)"
    and b8: "\<forall>i<32. bit b i \<longleftrightarrow> i < 8 \<and> zbit src n (47 + 8 * L - i)" by blast
  have q: "q + 32 = 40 + 8 * L + ?N" using L(1) N by simp
  have bb: "bit (mBitBuf Sd) i \<longleftrightarrow> N \<le> i \<and> zbit src n (q + 31 - i)"
    and sb: "bit (mSubBitBuf Sd) i \<longleftrightarrow> i < 8 \<and> zbit src n (q + 31 + mBitCount Sd - N - i)" if "i < 32" for i
    using f that by (auto simp: filling_def)
  have w: "bit (mBitBuf Sd OR push_bit ?N (mSubBitBuf Sd)) i \<longleftrightarrow> ?N \<le> i \<and> zbit src n (q + 31 - i)" if "i < 32" for i
  proof (cases "?N \<le> i")
    case True
    have "q + 31 + mBitCount Sd - N - (i - ?N) = q + 31 - i" using True N q that by simp
    moreover have "N \<le> i \<or> i - ?N < 8" using f N by (auto simp: filling_def)
    ultimately show ?thesis
      using True that bb [OF that] sb [of "i - ?N"] N by (auto simp: bit_or_iff bit_push_bit_iff)
  next
    case False
    then show ?thesis using bb [OF that] by (auto simp: bit_or_iff bit_push_bit_iff)
  qed
  have "q + 31 + 8 - ?N - i = 47 + 8 * L - i" for i using q by simp
  with f w b8 q N have "filling src n q ?N (?S\<lparr>mCompSize := n - Suc L, mSubBitBuf := b, mInBuf := min (Suc L) n, mBitCount := 8\<rparr>)"
    by (auto simp: filling_def intro: exI [of _ "Suc L"])
  with b show ?thesis by (auto simp: same_rest_def)
qed

lemma filling_loop8:
  "filling src n q N Sd \<Longrightarrow> mBitCount Sd = 8 \<Longrightarrow>
    \<exists>Sd' N'. FillBuf_loop src Sd N = Some (Sd', N') \<and> filling src n q N' Sd' \<and> N' \<le> mBitCount Sd' \<and> same_rest Sd Sd'"
proof (induction N arbitrary: Sd rule: less_induct)
  case (less N)
  show ?case
  proof (cases "mBitCount Sd < N")
    case False
    with less.prems show ?thesis by (subst FillBuf_loop.simps) auto
  next
    case True
    obtain Sd' where s: "LoadByte src (Sd\<lparr>mBitBuf := mBitBuf Sd OR push_bit (N - mBitCount Sd) (mSubBitBuf Sd)\<rparr>) = Some Sd'"
      "filling src n q (N - mBitCount Sd) Sd'" "mBitCount Sd' = 8" "same_rest Sd Sd'"
      using filling_step [OF less.prems(1) True] by blast
    have "N - mBitCount Sd < N" using True less.prems(2) by simp
    from less.IH [OF this s(2,3)] show ?thesis
      using s True by (subst FillBuf_loop.simps) (auto simp: Let_def intro: same_rest_trans)
  qed
qed

lemma filling_loop:
  assumes "filling src n q N Sd"
  shows "\<exists>Sd' N'. FillBuf_loop src Sd N = Some (Sd', N') \<and> filling src n q N' Sd' \<and> N' \<le> mBitCount Sd' \<and> same_rest Sd Sd'"
proof (cases "mBitCount Sd < N")
  case False
  with assms show ?thesis by (subst FillBuf_loop.simps) auto
next
  case True
  obtain Sd' where s: "LoadByte src (Sd\<lparr>mBitBuf := mBitBuf Sd OR push_bit (N - mBitCount Sd) (mSubBitBuf Sd)\<rparr>) = Some Sd'"
    "filling src n q (N - mBitCount Sd) Sd'" "mBitCount Sd' = 8" "same_rest Sd Sd'"
    using filling_step [OF assms True] by blast
  from filling_loop8 [OF s(2,3)] show ?thesis
    using s True by (subst FillBuf_loop.simps) (auto simp: Let_def intro: same_rest_trans)
qed

lemma filling_end:
  assumes f: "filling src n q N Sd" and N: "N \<le> mBitCount Sd"
  shows "window src n q (Sd\<lparr>mBitCount := mBitCount Sd - N, mBitBuf := mBitBuf Sd OR drop_bit (mBitCount Sd - N) (mSubBitBuf Sd)\<rparr>)"
proof -
  obtain L where L: "q + 32 + mBitCount Sd = 40 + 8 * L + N" "mInBuf Sd = min L n" "mCompSize Sd = n - L"
    using f by (auto simp: filling_def)
  let ?c = "mBitCount Sd - N"
  have q: "q + 32 + ?c = 40 + 8 * L" "q + 31 + mBitCount Sd - N = q + 31 + ?c" using L(1) N by simp_all
  have c: "mBitCount Sd \<le> 8" using f by (simp add: filling_def)
  have bb: "bit (mBitBuf Sd) i \<longleftrightarrow> N \<le> i \<and> zbit src n (q + 31 - i)"
    and sb: "bit (mSubBitBuf Sd) i \<longleftrightarrow> i < 8 \<and> zbit src n (q + 31 + ?c - i)" if "i < 32" for i
    using f that unfolding filling_def q(2) by blast+
  have "bit (mBitBuf Sd OR drop_bit ?c (mSubBitBuf Sd)) i \<longleftrightarrow> zbit src n (q + 31 - i)" if "i < 32" for i
  proof (cases "i + ?c < 32")
    case True
    have "q + 31 + ?c - (?c + i) = q + 31 - i" by simp
    moreover have "N \<le> i \<or> ?c + i < 8" using N c by auto
    ultimately have "bit (mSubBitBuf Sd) (?c + i) \<longleftrightarrow> ?c + i < 8 \<and> zbit src n (q + 31 - i)"
      using sb [of "?c + i"] True by (simp only: add.commute)
    with \<open>N \<le> i \<or> ?c + i < 8\<close> bb [OF that] show ?thesis by (auto simp: bit_or_iff bit_drop_bit_eq)
  next
    case False
    then have "N \<le> i" using N c that by simp
    moreover have "\<not> bit (mSubBitBuf Sd) (?c + i)" using False bit_imp_le_length [of "mSubBitBuf Sd" "?c + i"] by auto
    ultimately show ?thesis using bb [OF that] by (auto simp: bit_or_iff bit_drop_bit_eq)
  qed
  with f sb q(1) L(2,3) show ?thesis
    by (auto simp: window_def filling_def intro: exI [of _ L])
qed

text \<open>\<open>FillBuf\<close> moves the window forward.\<close>

lemma FillBuf_window:
  assumes w: "window src n q Sd" and N: "N < 32 \<or> N = 32 \<and> mBitBuf Sd = 0"
  shows "\<exists>Sd'. FillBuf src Sd N = Some Sd' \<and> window src n (q + N) Sd' \<and> same_rest Sd Sd'"
proof -
  let ?S = "Sd\<lparr>mBitBuf := push_bit N (mBitBuf Sd)\<rparr>"
  have bb: "bit (mBitBuf Sd) i \<longleftrightarrow> zbit src n (q + 31 - i)" if "i < 32" for i
    using w that by (auto simp: window_def)
  have "bit (push_bit N (mBitBuf Sd)) i \<longleftrightarrow> N \<le> i \<and> zbit src n (q + N + 31 - i)" if "i < 32" for i
  proof (cases "N \<le> i")
    case True
    then have "q + 31 - (i - N) = q + N + 31 - i" using that by simp
    with bb [of "i - N"] True that show ?thesis by (simp add: bit_push_bit_iff)
  next
    case False
    then show ?thesis by (simp add: bit_push_bit_iff)
  qed
  moreover have "q + N + 31 + mBitCount Sd - N - i = q + 31 + mBitCount Sd - i" for i by simp
  ultimately have "filling src n (q + N) N ?S" using w N by (auto simp: filling_def window_def)
  from filling_loop [OF this] obtain Sd' N' where l: "FillBuf_loop src ?S N = Some (Sd', N')"
    "filling src n (q + N) N' Sd'" "N' \<le> mBitCount Sd'" "same_rest ?S Sd'" by blast
  from filling_end [OF l(2,3)] l N show ?thesis
    by (auto simp: FillBuf_def Let_def BITBUFSIZ_def same_rest_def)
qed

section \<open>Numbers in the stream\<close>

fun num :: "(nat \<Rightarrow> bool) \<Rightarrow> nat \<Rightarrow> nat \<Rightarrow> nat" where
  "num s q 0 = 0"
| "num s q (Suc k) = 2 * num s q k + of_bool (s (q + k))"

lemma bit_num: "bit (num s q k) i \<longleftrightarrow> i < k \<and> s (q + k - 1 - i)"
proof (induction k arbitrary: i)
  case 0
  then show ?case by simp
next
  case (Suc k)
  then show ?case by (cases i) (auto simp: bit_0 bit_Suc)
qed

lemma num_bound: "num s q k < 2 ^ k"
  by (induction k) (auto simp: of_bool_def)

text \<open>The first \<open>k\<close> bits of the window.\<close>

lemma window_num:
  assumes "window src n q Sd" "k \<le> 32"
  shows "unat (drop_bit (32 - k) (mBitBuf Sd)) = num (zbit src n) q k"
proof (rule bit_eqI)
  fix i
  have "bit (mBitBuf Sd) (32 - k + i) \<longleftrightarrow> i < k \<and> zbit src n (q + k - 1 - i)"
  proof (cases "i < k")
    case True
    then have "q + 31 - (32 - k + i) = q + k - 1 - i" using assms(2) by simp
    with True assms show ?thesis by (simp add: window_def)
  next
    case False
    then show ?thesis using assms(2) bit_imp_le_length [of "mBitBuf Sd" "32 - k + i"] by auto
  qed
  then show "bit (unat (drop_bit (32 - k) (mBitBuf Sd))) i \<longleftrightarrow> bit (num (zbit src n) q k) i"
    by (simp add: bit_unsigned_iff bit_drop_bit_eq bit_num)
qed

lemma GetBits_window:
  assumes "window src n q Sd" "k < 32"
  shows "\<exists>Sd'. GetBits src Sd k = Some (num (zbit src n) q k, Sd') \<and> window src n (q + k) Sd' \<and> same_rest Sd Sd'"
  using FillBuf_window [OF assms(1), of k] window_num [OF assms(1), of k] assms(2)
  by (auto simp: GetBits_def Let_def BITBUFSIZ_def)

end
