(* ===== verification/DecTable.thy ===== *)
theory DecTable
  imports DecStream
begin

text \<open>
  Canonical Huffman codes and the tables \<open>MakeTable\<close> builds for them.  A symbol with code length \<open>l\<close>
  covers an interval of \<open>2 ^ (16 - l)\<close> numbers of sixteen bits; the intervals follow one another in the order
  of the lengths and of the symbols, and the code of a symbol is the first \<open>l\<close> bits of its numbers.
\<close>

section \<open>Canonical codes\<close>

definition coded :: "nat list \<Rightarrow> nat list" where
  "coded BL = filter (\<lambda>d. 0 < BL ! d) [0..<length BL]"

definition csize :: "nat list \<Rightarrow> nat \<Rightarrow> nat" where
  "csize BL c = 2 ^ (16 - BL ! c)"

definition cbefore :: "nat list \<Rightarrow> nat \<Rightarrow> nat \<Rightarrow> bool" where
  "cbefore BL d c \<longleftrightarrow> BL ! d < BL ! c \<or> BL ! d = BL ! c \<and> d < c"

definition cval :: "nat list \<Rightarrow> nat \<Rightarrow> nat" where
  "cval BL c = sum_list (map (csize BL) (filter (\<lambda>d. cbefore BL d c) (coded BL)))"

definition hcode :: "nat list \<Rightarrow> nat \<Rightarrow> bool list" where
  "hcode BL c = map (\<lambda>i. bit (cval BL c) (15 - i)) [0..<BL ! c]"

definition complete_code :: "nat list \<Rightarrow> bool" where
  "complete_code BL \<longleftrightarrow> list_all (\<lambda>l. l \<le> 16) BL \<and> sum_list (map (csize BL) (coded BL)) = 2 ^ 16"

locale canonical =
  fixes BL :: "nat list" and n TB :: nat
  assumes len: "length BL = n" and complete: "complete_code BL"
    and TB: "0 < TB" "TB < 16" and small: "n * 2 ^ (15 - TB) < 2 ^ 16" "n < 2 ^ 15"
begin

abbreviation "S \<equiv> {c. c < n \<and> 0 < BL ! c}"
abbreviation "v \<equiv> cval BL"
abbreviation "sz \<equiv> csize BL"

lemma set_coded: "set (coded BL) = S" "distinct (coded BL)"
  by (auto simp: coded_def len)

lemma kraft: "sum sz S = 2 ^ 16"
  using complete sum_list_distinct_conv_sum_set [OF set_coded(2), of sz] set_coded(1)
  by (simp add: complete_code_def)

lemma le16: "c < n \<Longrightarrow> BL ! c \<le> 16"
  using complete len by (auto simp: complete_code_def list_all_length)

lemma v_sum: "v c = sum sz {d \<in> S. cbefore BL d c}"
proof -
  have "set (filter (\<lambda>d. cbefore BL d c) (coded BL)) = {d \<in> S. cbefore BL d c}" by (auto simp: set_coded)
  with sum_list_distinct_conv_sum_set [of "filter (\<lambda>d. cbefore BL d c) (coded BL)" sz] set_coded(2) show ?thesis
    by (simp add: cval_def)
qed

lemma finS: "finite S" by simp

lemma sz_pos: "0 < sz c" by (simp add: csize_def)

lemma v_next: "c \<in> S \<Longrightarrow> d \<in> S \<Longrightarrow> cbefore BL c d \<Longrightarrow> v c + sz c \<le> v d"
proof -
  assume a: "c \<in> S" "d \<in> S" "cbefore BL c d"
  have "v c + sz c = sum sz (insert c {x \<in> S. cbefore BL x c})"
    using v_sum [of c] by (subst sum.insert) (auto simp: cbefore_def)
  also have "\<dots> \<le> sum sz {x \<in> S. cbefore BL x d}"
    using a by (intro sum_mono2) (auto simp: cbefore_def)
  finally show ?thesis using v_sum [of d] by simp
qed

lemma v_end: "c \<in> S \<Longrightarrow> v c + sz c \<le> 2 ^ 16"
proof -
  assume a: "c \<in> S"
  have "v c + sz c = sum sz (insert c {x \<in> S. cbefore BL x c})"
    using v_sum [of c] by (subst sum.insert) (auto simp: cbefore_def)
  also have "\<dots> \<le> sum sz S" using a by (intro sum_mono2) auto
  finally show ?thesis using kraft by simp
qed

lemma before_total: "c \<noteq> d \<Longrightarrow> cbefore BL c d \<or> cbefore BL d c"
  by (auto simp: cbefore_def)

text \<open>The intervals are disjoint and cover everything.\<close>

lemma disjoint: "c \<in> S \<Longrightarrow> d \<in> S \<Longrightarrow> v c \<le> w \<Longrightarrow> w < v c + sz c \<Longrightarrow> v d \<le> w \<Longrightarrow> w < v d + sz d \<Longrightarrow> c = d"
  using before_total [of c d] v_next [of c d] v_next [of d c] by fastforce

lemma cover: "w < 2 ^ 16 \<Longrightarrow> \<exists>c\<in>S. v c \<le> w \<and> w < v c + sz c"
proof -
  let ?I = "\<lambda>c. {v c..<v c + sz c}"
  have "card (\<Union>c\<in>S. ?I c) = (\<Sum>c\<in>S. card (?I c))"
  proof (rule card_UN_disjoint)
    show "\<forall>c\<in>S. \<forall>d\<in>S. c \<noteq> d \<longrightarrow> ?I c \<inter> ?I d = {}"
    proof (intro ballI impI)
      fix c d assume a: "c \<in> S" "d \<in> S" "c \<noteq> d"
      then have "v c + sz c \<le> v d \<or> v d + sz d \<le> v c" using before_total [of c d] v_next by blast
      then show "?I c \<inter> ?I d = {}" by auto
    qed
  qed auto
  then have c: "card (\<Union>c\<in>S. ?I c) = 2 ^ 16" using kraft by simp
  have "(\<Union>c\<in>S. ?I c) \<subseteq> {..<2 ^ 16}" using v_end by fastforce
  with c have "(\<Union>c\<in>S. ?I c) = {..<2 ^ 16}" by (intro card_subset_eq) auto
  then show "w < 2 ^ 16 \<Longrightarrow> \<exists>c\<in>S. v c \<le> w \<and> w < v c + sz c" by (auto simp: set_eq_iff)
qed

lemma v_dvd: "c \<in> S \<Longrightarrow> sz c dvd v c"
  unfolding v_sum
  by (rule dvd_sum) (use le16 in \<open>auto simp: csize_def cbefore_def intro!: le_imp_power_dvd diff_le_mono2\<close>)

text \<open>The cell of depth \<open>t\<close> above a symbol is the number made of the first \<open>t\<close> bits of its code.\<close>

definition anc :: "nat \<Rightarrow> nat \<Rightarrow> nat" where
  "anc t c = v c div 2 ^ (16 - t)"

lemma v_bound: "c \<in> S \<Longrightarrow> v c < 2 ^ 16"
  using v_end [of c] sz_pos [of c] by simp

lemma anc_range: "c \<in> S \<Longrightarrow> t \<le> 16 \<Longrightarrow> anc t c < 2 ^ t"
proof -
  assume a: "c \<in> S" "t \<le> 16"
  have "(2::nat) ^ 16 = 2 ^ t * 2 ^ (16 - t)" using a(2) by (simp flip: power_add)
  with v_bound [OF a(1)] show ?thesis by (simp add: anc_def less_mult_imp_div_less)
qed

lemma anc_parent: "t < 16 \<Longrightarrow> anc (Suc t) c div 2 = anc t c"
proof -
  assume "t < 16"
  then have "16 - t = Suc (16 - Suc t)" by simp
  then show ?thesis by (simp add: anc_def div_mult2_eq [symmetric] mult.commute)
qed

lemma anc_odd: "t < 16 \<Longrightarrow> odd (anc (Suc t) c) \<longleftrightarrow> bit (v c) (15 - t)"
  by (simp add: anc_def bit_iff_odd)

text \<open>No code is a prefix of another one.\<close>

lemma prefix_free:
  assumes "c \<in> S" "d \<in> S" "anc (BL ! d) c = anc (BL ! d) d"
  shows "c = d"
proof -
  have "sz d = 2 ^ (16 - BL ! d)" by (simp add: csize_def)
  then have e: "v c div sz d = v d div sz d" using assms(3) by (simp add: anc_def)
  have "v d div sz d * sz d = v d" using v_dvd [OF assms(2)] by simp
  then have "v d \<le> v c" "v c < v d + sz d"
    using e div_mult_mod_eq [of "v c" "sz d"] mod_less_divisor [OF sz_pos, of "v c" d] by simp_all
  with disjoint [OF assms(1,2), of "v c"] sz_pos show ?thesis by simp
qed

text \<open>The inner cells: the proper ancestors of the codes from the depth of the table on.  There are fewer of
  them than symbols, because the middle of each is where the interval of a symbol starts.\<close>

definition inner :: "(nat \<times> nat) set" where
  "inner = {(t, anc t c) | t c. c \<in> S \<and> TB \<le> t \<and> t < BL ! c}"

lemma inner_iff: "(t, x) \<in> inner \<longleftrightarrow> TB \<le> t \<and> (\<exists>c\<in>S. t < BL ! c \<and> x = anc t c)"
  by (auto simp: inner_def)

definition mid :: "nat \<times> nat \<Rightarrow> nat" where
  "mid = (\<lambda>(t, x). (2 * x + 1) * 2 ^ (15 - t))"

lemma mid_start:
  assumes "(t, x) \<in> inner"
  shows "\<exists>d\<in>S. v d = mid (t, x)"
proof -
  from assms obtain c where c: "c \<in> S" "TB \<le> t" "t < BL ! c" "x = anc t c" by (auto simp: inner_iff)
  then have t: "t < 16" using le16 [of c] by auto
  let ?h = "2 ^ (15 - t) :: nat"
  have h: "2 ^ (16 - t) = 2 * ?h" using t by (simp flip: power_Suc add: Suc_diff_le)
  have m: "mid (t, x) = 2 * x * ?h + ?h" by (simp add: mid_def algebra_simps)
  have "x < 2 ^ t" using anc_range c t by simp
  then have "(x + 1) * (2 * ?h) \<le> 2 ^ t * (2 * ?h)" by (intro mult_le_mono1) simp
  also have "\<dots> = 2 ^ 16" using t by (simp flip: h power_add)
  finally have "(x + 1) * (2 * ?h) \<le> 2 ^ 16" .
  moreover have "0 < ?h" by simp
  moreover have "(x + 1) * (2 * ?h) = 2 * x * ?h + 2 * ?h" by (simp add: algebra_simps)
  ultimately have "mid (t, x) < 2 ^ 16" using m by linarith
  from cover [OF this] obtain d where d: "d \<in> S" "v d \<le> mid (t, x)" "mid (t, x) < v d + sz d" by blast
  have "v d = mid (t, x)"
  proof (cases "t < BL ! d")
    case True
    then have "16 - BL ! d \<le> 15 - t" using t by simp
    then have "sz d dvd ?h" by (simp add: csize_def le_imp_power_dvd)
    then have "sz d dvd mid (t, x)" by (simp add: mid_def)
    moreover have "sz d dvd v d" using v_dvd d by simp
    ultimately have "sz d dvd mid (t, x) - v d" by (rule dvd_diff_nat)
    moreover have "mid (t, x) - v d < sz d" using d by simp
    ultimately have "mid (t, x) - v d = 0" using nat_dvd_not_less by blast
    with d show ?thesis by simp
  next
    case False
    then have le: "BL ! d \<le> t" by simp
    have h2: "2 ^ (16 - t) = ?h * 2" using h by simp
    have "(2 * x + 1) * ?h div ?h = 2 * x + 1" by (rule nonzero_mult_div_cancel_right) simp
    then have "mid (t, x) div 2 ^ (16 - t) = (2 * x + 1) div 2" unfolding mid_def h2 div_mult2_eq by simp
    then have "mid (t, x) div 2 ^ (16 - t) = x" by simp
    have e: "16 - BL ! d = (16 - t) + (t - BL ! d)" using le t by simp
    have "mid (t, x) div 2 ^ (16 - BL ! d) = v c div 2 ^ (16 - BL ! d)"
      unfolding e power_add div_mult2_eq \<open>mid (t, x) div 2 ^ (16 - t) = x\<close> using c(4) by (simp add: anc_def)
    moreover have "mid (t, x) div sz d = v d div sz d"
    proof -
      have "v d div sz d * sz d = v d" using v_dvd d(1) by simp
      then have "mid (t, x) = (mid (t, x) - v d) + v d div sz d * sz d" using d(2) by simp
      then have "mid (t, x) div sz d = ((mid (t, x) - v d) + v d div sz d * sz d) div sz d" by simp
      also have "\<dots> = v d div sz d + (mid (t, x) - v d) div sz d" using sz_pos [of d] by (intro div_mult_self1) simp
      finally show ?thesis using d(2,3) by simp
    qed
    ultimately have "anc (BL ! d) c = anc (BL ! d) d" by (simp add: anc_def csize_def)
    from prefix_free [OF c(1) d(1) this] le c(3) show ?thesis by simp
  qed
  with d(1) show ?thesis by blast
qed

lemma mid_inj: "inj_on mid inner"
proof (rule inj_onI)
  fix a b assume a: "a \<in> inner" "b \<in> inner" and m: "mid a = mid b"
  obtain t x u y where ab: "a = (t, x)" "b = (u, y)" by (metis surj_pair)
  have tu: "t < 16" "u < 16" using a le16 by (fastforce simp: inner_def ab)+
  have key: "t = u" if "(2 * x + 1) * 2 ^ (15 - t) = (2 * y + 1) * (2::nat) ^ (15 - u)" "15 - t \<le> 15 - u" "t < 16" "u < 16" for t u x y
  proof (rule ccontr)
    assume "t \<noteq> u"
    with that have e: "15 - u = (15 - t) + Suc (t - Suc u)" by auto
    from that(1) have "(2 * x + 1) * 2 ^ (15 - t) = ((2 * y + 1) * 2 ^ Suc (t - Suc u)) * (2::nat) ^ (15 - t)"
      unfolding e power_add by (simp only: mult_ac)
    then have "2 * x + 1 = (2 * y + 1) * 2 ^ Suc (t - Suc u)" by (simp only: mult_cancel2) simp
    then have "odd ((2 * y + 1) * (2::nat) ^ Suc (t - Suc u))" by (metis odd_two_times_div_two_succ even_plus_one_iff even_mult_iff even_two_times_div_two dvd_triv_left)
    then show False by simp
  qed
  have "t = u" using m key [of x t y u] key [of y u x t] tu by (cases "15 - t \<le> 15 - u") (auto simp: mid_def ab)
  with m show "a = b" by (simp add: mid_def ab)
qed

lemma inner_card: "finite inner" "card inner < n"
proof -
  obtain c0 where c0: "c0 \<in> S" "v c0 = 0"
  proof -
    from cover [of 0] obtain c where "c \<in> S" "v c \<le> 0" by auto
    then show thesis using that by auto
  qed
  have "mid ` inner \<subseteq> v ` (S - {c0})"
  proof
    fix w assume "w \<in> mid ` inner"
    then obtain t x where t: "(t, x) \<in> inner" "w = mid (t, x)" by auto
    from mid_start [OF t(1)] obtain d where d: "d \<in> S" "v d = w" using t(2) by auto
    moreover have "w \<noteq> 0" using t(2) by (simp add: mid_def)
    ultimately show "w \<in> v ` (S - {c0})" using c0(2) by auto
  qed
  then have f: "finite (mid ` inner)" "card (mid ` inner) \<le> card (S - {c0})"
    using finite_subset [of "mid ` inner" "v ` (S - {c0})"] card_mono [of "v ` (S - {c0})" "mid ` inner"]
      card_image_le [of "S - {c0}" v] by auto
  then show "finite inner" using mid_inj finite_image_iff by blast
  have "card (S - {c0}) < card S" using c0(1) by (intro psubset_card_mono) auto
  also have "\<dots> \<le> card {..<n}" by (rule card_mono) auto
  finally show "card inner < n" using f card_image [OF mid_inj] by simp
qed

end

section \<open>The trees of the table\<close>

text \<open>Writing to a slot that can be read.\<close>

lemma slot_put_get:
  assumes "slot_get t p \<noteq> None"
  shows "\<exists>t'. slot_put t p x = Some t' \<and> (\<forall>p'. slot_get t' p' = (if p' = p then Some x else slot_get t p'))
    \<and> length (tr_Table t') = length (tr_Table t) \<and> length (tr_Left t') = length (tr_Left t)
    \<and> length (tr_Right t') = length (tr_Right t)"
proof (cases p)
  case (TableSlot i)
  with assms have i: "i < length (tr_Table t)" by (auto simp: rdx_def split: if_splits)
  have "slot_get (t\<lparr>tr_Table := (tr_Table t)[i := x]\<rparr>) p' = (if p' = p then Some x else slot_get t p')" for p'
    using i TableSlot by (cases p') (auto simp: rdx_def)
  with i TableSlot show ?thesis by (simp add: wrx_def)
next
  case (LeftSlot i)
  with assms have i: "i < length (tr_Left t)" by (auto simp: rdx_def split: if_splits)
  have "slot_get (t\<lparr>tr_Left := (tr_Left t)[i := x]\<rparr>) p' = (if p' = p then Some x else slot_get t p')" for p'
    using i LeftSlot by (cases p') (auto simp: rdx_def)
  with i LeftSlot show ?thesis by (simp add: wrx_def)
next
  case (RightSlot i)
  with assms have i: "i < length (tr_Right t)" by (auto simp: rdx_def split: if_splits)
  have "slot_get (t\<lparr>tr_Right := (tr_Right t)[i := x]\<rparr>) p' = (if p' = p then Some x else slot_get t p')" for p'
    using i RightSlot by (cases p') (auto simp: rdx_def)
  with i RightSlot show ?thesis by (simp add: wrx_def)
qed

text \<open>The position of an element of a list.\<close>

definition idx :: "'a list \<Rightarrow> 'a \<Rightarrow> nat" where
  "idx xs x = length (takeWhile (\<lambda>y. y \<noteq> x) xs)"

lemma idx_less: "x \<in> set xs \<Longrightarrow> idx xs x < length xs"
  unfolding idx_def using length_takeWhile_le [of "\<lambda>y. y \<noteq> x" xs] takeWhile_eq_all_conv [of "\<lambda>y. y \<noteq> x" xs]
  by (metis le_neq_implies_less length_takeWhile_le takeWhile_eq_take take_all_iff)

lemma idx_nth: "x \<in> set xs \<Longrightarrow> xs ! idx xs x = x"
  using nth_length_takeWhile [of "\<lambda>y. y \<noteq> x" xs] idx_less [of x xs] by (simp add: idx_def)

lemma idx_inj: "x \<in> set xs \<Longrightarrow> y \<in> set xs \<Longrightarrow> idx xs x = idx xs y \<Longrightarrow> x = y"
  by (metis idx_nth)

lemma idx_append: "idx (xs @ ys) x = (if x \<in> set xs then idx xs x else length xs + idx ys x)"
  by (auto simp: idx_def takeWhile_append)

context canonical
begin

definition leafc :: "nat \<Rightarrow> nat \<times> nat" where
  "leafc c = (BL ! c, anc (BL ! c) c)"

definition val :: "(nat \<times> nat) list \<Rightarrow> nat list \<Rightarrow> nat \<times> nat \<Rightarrow> nat" where
  "val ns D z =
     (if z \<in> set ns then n + idx ns z
      else case List.find (\<lambda>c. leafc c = z) D of Some c \<Rightarrow> c | None \<Rightarrow> 0)"

definition cslot :: "(nat \<times> nat) list \<Rightarrow> nat \<times> nat \<Rightarrow> slot" where
  "cslot ns = (\<lambda>(t, x). if t = TB then TableSlot x
     else if odd x then RightSlot (n + idx ns (t - 1, x div 2)) else LeftSlot (n + idx ns (t - 1, x div 2)))"

definition ready :: "nat \<Rightarrow> (nat \<times> nat) list \<Rightarrow> nat \<times> nat \<Rightarrow> bool" where
  "ready K ns = (\<lambda>(t, x). t = TB \<and> K \<le> x \<and> x < 2 ^ TB \<or> TB < t \<and> (t - 1, x div 2) \<in> set ns)"

definition tree_inv :: "nat \<Rightarrow> (nat \<times> nat) list \<Rightarrow> nat list \<Rightarrow> tree \<Rightarrow> bool" where
  "tree_inv K ns D tr \<longleftrightarrow>
     distinct ns \<and> set ns \<subseteq> inner \<and> (\<forall>t x. (Suc t, x) \<in> set ns \<longrightarrow> TB \<le> t \<longrightarrow> (t, x div 2) \<in> set ns)
     \<and> length (tr_Table tr) = 2 ^ TB \<and> 2 * n - 1 \<le> length (tr_Left tr) \<and> 2 * n - 1 \<le> length (tr_Right tr)
     \<and> (\<forall>c\<in>set D. c \<in> S \<and> TB < BL ! c \<and> (\<forall>t. TB \<le> t \<longrightarrow> t < BL ! c \<longrightarrow> (t, anc t c) \<in> set ns))
     \<and> (\<forall>z. ready K ns z \<longrightarrow> slot_get tr (cslot ns z) = Some (val ns D z))"

lemma cslot_inj:
  assumes "distinct ns" "ready K ns z" "ready K ns w" "cslot ns z = cslot ns w"
  shows "z = w"
proof -
  obtain t x u y where zw: "z = (t, x)" "w = (u, y)" by (metis surj_pair)
  have i: "(t - 1, x div 2) = (u - 1, y div 2)"
    if "TB < t" "TB < u" "idx ns (t - 1, x div 2) = idx ns (u - 1, y div 2)"
    by (rule idx_inj [OF _ _ that(3)]) (use that(1,2) assms(2,3) zw in \<open>auto simp: ready_def\<close>)
  show ?thesis
    using assms(2-4) zw i by (auto simp: cslot_def ready_def split: if_splits elim!: oddE evenE) 
qed

lemma ready_anc:
  assumes "c \<in> S" "TB \<le> t" "t \<le> BL ! c" "K \<le> anc TB c" "TB < t \<Longrightarrow> (t - 1, anc (t - 1) c) \<in> set ns"
  shows "ready K ns (t, anc t c)"
proof (cases "t = TB")
  case True
  with assms anc_range [OF assms(1), of TB] TB show ?thesis by (simp add: ready_def)
next
  case False
  then have "TB < t" "t - 1 < 16" "Suc (t - 1) = t" using assms(2,3) le16 [of c] assms(1) by auto
  with anc_parent [of "t - 1" c] assms(5) show ?thesis by (simp add: ready_def)
qed

text \<open>The cells the construction may write to: the table from \<open>K\<close> on and the nodes of its own range.\<close>

definition region :: "nat \<Rightarrow> slot \<Rightarrow> bool" where
  "region K p = (case p of TableSlot x \<Rightarrow> K \<le> x | LeftSlot i \<Rightarrow> n \<le> i \<and> i + 1 < 2 * n | RightSlot i \<Rightarrow> n \<le> i \<and> i + 1 < 2 * n)"

definition frame :: "nat \<Rightarrow> tree \<Rightarrow> tree \<Rightarrow> bool" where
  "frame K tr tr' \<longleftrightarrow>
     length (tr_Table tr') = length (tr_Table tr) \<and> length (tr_Left tr') = length (tr_Left tr)
     \<and> length (tr_Right tr') = length (tr_Right tr) \<and> (\<forall>p. \<not> region K p \<longrightarrow> slot_get tr' p = slot_get tr p)"

lemma frame_refl: "frame K tr tr"
  by (simp add: frame_def)

lemma frame_trans: "frame K tr tr' \<Longrightarrow> frame K tr' tr'' \<Longrightarrow> frame K tr tr''"
  by (simp add: frame_def)

lemma region_mono: "region K p \<Longrightarrow> K' \<le> K \<Longrightarrow> region K' p"
  by (cases p) (simp_all add: region_def)

lemma frame_weaken: "frame K tr tr' \<Longrightarrow> K' \<le> K \<Longrightarrow> frame K' tr tr'"
  unfolding frame_def using region_mono by blast

lemma nodes_bound:
  assumes "distinct ns" "set ns \<subseteq> inner"
  shows "length ns < n"
proof -
  have "card (set ns) \<le> card inner" by (rule card_mono [OF inner_card(1) assms(2)])
  with inner_card(2) distinct_card [OF assms(1)] show ?thesis by linarith
qed

lemma ready_region:
  assumes "distinct ns" "set ns \<subseteq> inner" "ready K ns z"
  shows "region K (cslot ns z)"
proof -
  have i: "n + idx ns w + 1 < 2 * n" if "w \<in> set ns" for w
    using idx_less [OF that] nodes_bound [OF assms(1,2)] by simp
  obtain t x where "z = (t, x)" by (cases z)
  with assms(3) i [of "(t - 1, x div 2)"] show ?thesis
    by (cases "t = TB") (auto simp: region_def cslot_def ready_def)
qed

text \<open>Allocating an inner cell.\<close>

lemma alloc_cell:
  assumes I: "tree_inv K ns D tr" and z: "ready K ns z" "z \<in> inner" "z \<notin> set ns"
  shows "\<exists>l r tr'. wrx (tr_Left tr) (n + length ns) 0 = Some l \<and> wrx (tr_Right tr) (n + length ns) 0 = Some r
    \<and> slot_put (tr\<lparr>tr_Left := l, tr_Right := r\<rparr>) (cslot ns z) (n + length ns) = Some tr'
    \<and> tree_inv K (ns @ [z]) D tr' \<and> cslot (ns @ [z]) z = cslot ns z \<and> n + length ns + 1 < 2 ^ 16
    \<and> frame K tr tr'"
proof -
  obtain t x where zt: "z = (t, x)" by (cases z)
  let ?ns = "ns @ [z]" and ?a = "n + length ns"
  from I have d: "distinct ns" "set ns \<subseteq> inner" "\<And>t x. (Suc t, x) \<in> set ns \<Longrightarrow> TB \<le> t \<Longrightarrow> (t, x div 2) \<in> set ns"
    "length (tr_Table tr) = 2 ^ TB" "2 * n - 1 \<le> length (tr_Left tr)" "2 * n - 1 \<le> length (tr_Right tr)"
    and dn: "\<And>c. c \<in> set D \<Longrightarrow> c \<in> S \<and> TB < BL ! c \<and> (\<forall>t. TB \<le> t \<longrightarrow> t < BL ! c \<longrightarrow> (t, anc t c) \<in> set ns)"
    and cont: "\<And>z. ready K ns z \<Longrightarrow> slot_get tr (cslot ns z) = Some (val ns D z)"
    by (auto simp: tree_inv_def)
  have "card (insert z (set ns)) \<le> card inner" using inner_card(1) d(2) z(2) by (intro card_mono) auto
  then have a: "?a + 1 < 2 * n" using inner_card(2) z(3) d(1) by (simp add: distinct_card)
  then have al: "?a < length (tr_Left tr)" "?a < length (tr_Right tr)" using d(5,6) by auto
  let ?l = "(tr_Left tr)[?a := 0]" and ?r = "(tr_Right tr)[?a := 0]"
  let ?t1 = "tr\<lparr>tr_Left := ?l, tr_Right := ?r\<rparr>"
  have g1: "slot_get ?t1 p = (if p = LeftSlot ?a \<or> p = RightSlot ?a then Some 0 else slot_get tr p)" for p
    using al by (cases p) (auto simp: rdx_def)
  have "slot_get ?t1 (cslot ns z) \<noteq> None" using cont [OF z(1)] g1 by auto
  from slot_put_get [OF this, of ?a] obtain tr' where p: "slot_put ?t1 (cslot ns z) ?a = Some tr'"
    and g2: "\<And>p'. slot_get tr' p' = (if p' = cslot ns z then Some ?a else slot_get ?t1 p')"
    and l2: "length (tr_Table tr') = length (tr_Table tr)" "length (tr_Left tr') = length (tr_Left tr)"
      "length (tr_Right tr') = length (tr_Right tr)"
    by auto
  have fr: "frame K tr tr'"
    unfolding frame_def using l2 g2 g1 a ready_region [OF d(1,2) z(1)] by (auto simp: region_def)
  have notz: "(t - 1, x div 2) \<noteq> z" if "TB < t" using that by (cases t) (auto simp: zt)
  have fresh: "cslot ns w \<noteq> LeftSlot ?a" "cslot ns w \<noteq> RightSlot ?a" if "ready K ns w" for w
    using that idx_less [of _ ns] by (auto simp: ready_def cslot_def split: prod.splits) fastforce+
  have same: "cslot ?ns w = cslot ns w" if "ready K ns w" for w
    using that by (auto simp: cslot_def ready_def idx_append split: prod.splits)
  have kids: "val ?ns D (Suc t, y) = 0" "(Suc t, y) \<notin> set ?ns" if "y div 2 = x" for y
  proof -
    have tb: "TB \<le> t" using z(2) by (simp add: zt inner_iff)
    have nn: "(Suc t, y) \<notin> set ns" using d(3) [of t y] tb that z(3) zt by auto
    then show "(Suc t, y) \<notin> set ?ns" by (simp add: zt)
    have "leafc c \<noteq> (Suc t, y)" if c: "c \<in> set D" for c
    proof
      assume "leafc c = (Suc t, y)"
      then have e: "BL ! c = Suc t" "anc (Suc t) c = y" by (auto simp: leafc_def)
      with dn [OF c] le16 [of c] have "anc t c = x" using anc_parent [of t c] \<open>y div 2 = x\<close> by auto
      with dn [OF c] e tb z(3) zt show False by auto
    qed
    then have "List.find (\<lambda>c. leafc c = (Suc t, y)) D = None" by (simp add: find_None_iff)
    with nn show "val ?ns D (Suc t, y) = 0" by (simp add: val_def zt)
  qed
  have vsame: "val ?ns D w = val ns D w" if "w \<noteq> z" for w
    using that by (auto simp: val_def idx_append)
  have vz: "val ?ns D z = ?a" using z(3) by (simp add: val_def idx_append) (simp add: idx_def)
  have content: "slot_get tr' (cslot ?ns w) = Some (val ?ns D w)" if w: "ready K ?ns w" for w
  proof (cases "ready K ns w")
    case True
    show ?thesis
    proof (cases "w = z")
      case True
      then show ?thesis using g2 same [OF z(1)] vz by simp
    next
      case False
      then have "cslot ns w \<noteq> cslot ns z" using cslot_inj [OF d(1) True z(1)] by blast
      then show ?thesis using g2 g1 same [OF True] fresh [OF True] cont [OF True] vsame [OF False] by simp
    qed
  next
    case False
    obtain u y where uy: "w = (u, y)" by (cases w)
    from w False uy zt have k: "u = Suc t" "y div 2 = x" by (auto simp: ready_def)
    have tb: "TB \<le> t" using z(2) by (simp add: zt inner_iff)
    have "idx ?ns z = length ns" using z(3) by (simp add: idx_append) (simp add: idx_def)
    then have "cslot ?ns w = (if odd y then RightSlot ?a else LeftSlot ?a)"
      using k tb by (simp add: uy cslot_def zt)
    moreover have "cslot ns z \<noteq> LeftSlot ?a" "cslot ns z \<noteq> RightSlot ?a" using fresh [OF z(1)] by auto
    ultimately show ?thesis using g2 g1 kids(1) [OF k(2)] uy k(1) by (auto split: if_splits)
  qed
  have closed: "(t', x' div 2) \<in> set ?ns" if "(Suc t', x') \<in> set ?ns" "TB \<le> t'" for t' x'
    using that d(3) z(1) by (auto simp: zt ready_def)
  have "tree_inv K ?ns D tr'"
    unfolding tree_inv_def using d z l2 dn content closed by auto
  moreover have "?a + 1 < 2 ^ 16" using a small(2) by simp
  ultimately show ?thesis using al p same [OF z(1)] fr by (simp add: wrx_def)
qed

text \<open>Inserting a code: the path of inner cells is walked, and allocated where it ends.\<close>

lemma dir_bit:
  assumes "d \<in> S" "TB \<le> t" "t < 16"
  shows "(v d * 2 ^ (t - TB) mod 2 ^ 16) AND 2 ^ (15 - TB) \<noteq> 0 \<longleftrightarrow> odd (anc (Suc t) d)"
proof -
  have "bit (v d * 2 ^ (t - TB) mod 2 ^ 16) (15 - TB) \<longleftrightarrow> bit (take_bit 16 (push_bit (t - TB) (v d))) (15 - TB)"
    by (simp add: take_bit_eq_mod push_bit_eq_mult)
  also have "\<dots> \<longleftrightarrow> bit (v d) (15 - t)"
    using assms TB by (auto simp: bit_take_bit_iff bit_push_bit_iff)
  finally show ?thesis using anc_odd [OF assms(3)] by (simp add: and_exp_eq_0_iff_not_bit)
qed

lemma val_free:
  assumes "d \<in> S" "t \<le> BL ! d" "set D \<subseteq> S" "d \<notin> set D" "(t, anc t d) \<notin> set ns"
  shows "val ns D (t, anc t d) = 0"
proof -
  have "leafc c \<noteq> (t, anc t d)" if "c \<in> set D" for c
  proof
    assume "leafc c = (t, anc t d)"
    then have "anc (BL ! c) d = anc (BL ! c) c" by (auto simp: leafc_def)
    with prefix_free [OF assms(1), of c] that assms(3,4) show False by auto
  qed
  then have "List.find (\<lambda>c. leafc c = (t, anc t d)) D = None" by (simp add: find_None_iff)
  with assms(5) show ?thesis by (simp add: val_def)
qed

lemma put_leaf:
  assumes I: "tree_inv K ns D tr" and d: "d \<in> S" "TB < BL ! d" "K \<le> anc TB d"
    and path: "\<And>t. TB \<le> t \<Longrightarrow> t < BL ! d \<Longrightarrow> (t, anc t d) \<in> set ns"
  shows "\<exists>tr'. slot_put tr (cslot ns (leafc d)) d = Some tr' \<and> tree_inv K ns (d # D) tr' \<and> frame K tr tr'"
proof -
  have r: "ready K ns (leafc d)"
    unfolding leafc_def by (rule ready_anc) (use d path [of "BL ! d - 1"] in auto)
  have dn: "distinct ns" "set ns \<subseteq> inner" and cont: "\<And>z. ready K ns z \<Longrightarrow> slot_get tr (cslot ns z) = Some (val ns D z)"
    using I by (auto simp: tree_inv_def)
  from slot_put_get [of tr "cslot ns (leafc d)" d] cont [OF r] obtain tr' where
    p: "slot_put tr (cslot ns (leafc d)) d = Some tr'"
    and g: "\<And>p'. slot_get tr' p' = (if p' = cslot ns (leafc d) then Some d else slot_get tr p')"
    and l: "length (tr_Table tr') = length (tr_Table tr)" "length (tr_Left tr') = length (tr_Left tr)"
      "length (tr_Right tr') = length (tr_Right tr)" by auto
  have "leafc d \<notin> inner"
  proof
    assume "leafc d \<in> inner"
    then obtain c where "c \<in> S" "BL ! d < BL ! c" "anc (BL ! d) c = anc (BL ! d) d" by (auto simp: leafc_def inner_iff)
    with prefix_free [of c d] d(1) show False by auto
  qed
  then have nn: "leafc d \<notin> set ns" using dn by auto
  have "slot_get tr' (cslot ns z) = Some (val ns (d # D) z)" if z: "ready K ns z" for z
  proof (cases "z = leafc d")
    case True
    then show ?thesis using g nn by (simp add: val_def)
  next
    case False
    then have "cslot ns z \<noteq> cslot ns (leafc d)" using cslot_inj [OF dn(1) z r] by blast
    moreover have "val ns (d # D) z = val ns D z" using False by (auto simp: val_def)
    ultimately show ?thesis using g cont [OF z] by simp
  qed
  moreover have "frame K tr tr'" unfolding frame_def using l g ready_region [OF dn r] by auto
  ultimately show ?thesis using I p l d path by (auto simp: tree_inv_def)
qed

lemma insert_code_tree:
  assumes "tree_inv K ns D tr" "d \<in> S" "TB < BL ! d" "K \<le> anc TB d" "d \<notin> set D" "TB \<le> t" "t \<le> BL ! d"
    "\<And>t'. TB \<le> t' \<Longrightarrow> t' < t \<Longrightarrow> (t', anc t' d) \<in> set ns"
  shows "\<exists>ns' tr'. insert_code d (2 ^ (15 - TB)) (BL ! d - t) (v d * 2 ^ (t - TB) mod 2 ^ 16)
      (cslot ns (t, anc t d)) (n + length ns, tr) = Some (n + length ns', tr')
    \<and> tree_inv K ns' (d # D) tr' \<and> frame K tr tr'"
  using assms
proof (induction "BL ! d - t" arbitrary: t ns tr)
  case 0
  then have t: "t = BL ! d" by simp
  with put_leaf [OF 0(2,3,4,5)] 0(9) show ?case by (fastforce simp: leafc_def)
next
  case (Suc i)
  let ?z = "(t, anc t d)"
  have t: "t < BL ! d" "t < 16" using Suc(2,4) le16 [of d] by auto
  have dn: "distinct ns" "set D \<subseteq> S" and cont: "\<And>z. ready K ns z \<Longrightarrow> slot_get tr (cslot ns z) = Some (val ns D z)"
    using Suc(3) by (auto simp: tree_inv_def)
  have r: "ready K ns ?z" by (rule ready_anc) (use Suc t in auto)
  have zi: "?z \<in> inner" using Suc t by (auto simp: inner_iff)
  have n0: "0 < n" using Suc.prems by auto
  have ex: "\<exists>ns1 tr1. (if val ns D ?z = 0
          then do {
            l \<leftarrow> wrx (tr_Left tr) (n + length ns) 0;
            r \<leftarrow> wrx (tr_Right tr) (n + length ns) 0;
            t' \<leftarrow> slot_put (tr\<lparr>tr_Left := l, tr_Right := r\<rparr>) (cslot ns ?z) (n + length ns);
            Some ((n + length ns + 1) mod 2 ^ 16, t')
          }
          else Some (n + length ns, tr)) = Some (n + length ns1, tr1)
      \<and> tree_inv K ns1 D tr1 \<and> set ns \<subseteq> set ns1 \<and> ?z \<in> set ns1 \<and> cslot ns1 ?z = cslot ns ?z \<and> frame K tr tr1"
  proof (cases "?z \<in> set ns")
    case True
    then have "val ns D ?z \<noteq> 0" using n0 by (simp add: val_def)
    with True Suc(3) show ?thesis by (auto simp: frame_refl)
  next
    case False
    have z0: "val ns D ?z = 0" by (rule val_free) (use Suc.prems dn t False in auto)
    from alloc_cell [OF Suc(3) r zi False] obtain l r tr' where a:
      "wrx (tr_Left tr) (n + length ns) 0 = Some l" "wrx (tr_Right tr) (n + length ns) 0 = Some r"
      "slot_put (tr\<lparr>tr_Left := l, tr_Right := r\<rparr>) (cslot ns ?z) (n + length ns) = Some tr'"
      "tree_inv K (ns @ [?z]) D tr'" "cslot (ns @ [?z]) ?z = cslot ns ?z" "n + length ns + 1 < 2 ^ 16"
      "frame K tr tr'" by blast
    then show ?thesis using z0 by (intro exI [of _ "ns @ [?z]"] exI [of _ tr']) (simp add: subset_insertI)
  qed
  then obtain ns1 tr1 where s: "(if val ns D ?z = 0
          then do {
            l \<leftarrow> wrx (tr_Left tr) (n + length ns) 0;
            r \<leftarrow> wrx (tr_Right tr) (n + length ns) 0;
            t' \<leftarrow> slot_put (tr\<lparr>tr_Left := l, tr_Right := r\<rparr>) (cslot ns ?z) (n + length ns);
            Some ((n + length ns + 1) mod 2 ^ 16, t')
          }
          else Some (n + length ns, tr)) = Some (n + length ns1, tr1)"
      "tree_inv K ns1 D tr1" "set ns \<subseteq> set ns1" "?z \<in> set ns1" "cslot ns1 ?z = cslot ns ?z" "frame K tr tr1" by blast
  have r1: "ready K ns1 ?z" by (rule ready_anc) (use Suc.prems t s(3) in auto)
  then have "slot_get tr1 (cslot ns1 ?z) = Some (val ns1 D ?z)" using s(2) unfolding tree_inv_def by blast
  then have g: "slot_get tr1 (cslot ns ?z) = Some (n + idx ns1 ?z)" using s(4,5) by (simp add: val_def)
  have nxt: "(if v d * 2 ^ (t - TB) mod 2 ^ 16 AND 2 ^ (15 - TB) \<noteq> 0 then RightSlot (n + idx ns1 ?z) else LeftSlot (n + idx ns1 ?z))
      = cslot ns1 (Suc t, anc (Suc t) d)"
    using dir_bit [OF Suc.prems(2,6) t(2)] Suc.prems(6) anc_parent [OF t(2), of d] by (simp add: cslot_def)
  have kk: "v d * 2 ^ (t - TB) mod 2 ^ 16 * 2 mod 2 ^ 16 = v d * 2 ^ (Suc t - TB) mod 2 ^ 16"
  proof -
    have "v d * 2 ^ (t - TB) mod 2 ^ 16 * 2 mod 2 ^ 16 = v d * 2 ^ (t - TB) * 2 mod 2 ^ 16" by (rule mod_mult_left_eq)
    also have "v d * 2 ^ (t - TB) * 2 = v d * 2 ^ (Suc t - TB)" using Suc.prems(6) by (simp add: Suc_diff_le)
    finally show ?thesis .
  qed
  have i: "i = BL ! d - Suc t" using Suc(2) by simp
  have "\<exists>ns' tr'. insert_code d (2 ^ (15 - TB)) (BL ! d - Suc t) (v d * 2 ^ (Suc t - TB) mod 2 ^ 16)
      (cslot ns1 (Suc t, anc (Suc t) d)) (n + length ns1, tr1) = Some (n + length ns', tr')
    \<and> tree_inv K ns' (d # D) tr' \<and> frame K tr1 tr'"
    by (rule Suc(1) [OF i s(2)]) (use Suc.prems t s(3,4) in \<open>auto simp: less_Suc_eq\<close>)
  moreover have "insert_code d (2 ^ (15 - TB)) (BL ! d - t) (v d * 2 ^ (t - TB) mod 2 ^ 16)
      (cslot ns ?z) (n + length ns, tr)
    = insert_code d (2 ^ (15 - TB)) (BL ! d - Suc t) (v d * 2 ^ (Suc t - TB) mod 2 ^ 16)
      (cslot ns1 (Suc t, anc (Suc t) d)) (n + length ns1, tr1)"
    unfolding Suc(2) [symmetric] insert_code.simps(2) cont [OF r]
    by (simp only: bind.bind_lunit s(1) prod.case g nxt kk i)
  ultimately show ?case using frame_trans [OF s(6)] by auto
qed

lemma val_leaf:
  assumes "tree_inv K ns D tr" "c \<in> set D"
  shows "val ns D (leafc c) = c"
proof -
  have D: "d \<in> S" if "d \<in> set D" for d using assms(1) that by (auto simp: tree_inv_def)
  have "leafc c \<notin> inner"
  proof
    assume "leafc c \<in> inner"
    then obtain d where "d \<in> S" "BL ! c < BL ! d" "anc (BL ! c) d = anc (BL ! c) c" by (auto simp: leafc_def inner_iff)
    with prefix_free [of d c] D [OF assms(2)] show False by auto
  qed
  then have nn: "leafc c \<notin> set ns" using assms(1) by (auto simp: tree_inv_def)
  have u: "d = c" if "d \<in> set D" "leafc d = leafc c" for d
    using prefix_free [OF D [OF that(1)] D [OF assms(2)]] that(2) by (auto simp: leafc_def)
  show ?thesis
  proof (cases "List.find (\<lambda>d. leafc d = leafc c) D")
    case None
    then show ?thesis using assms(2) by (auto simp: find_None_iff)
  next
    case (Some d)
    then have "d \<in> set D" "leafc d = leafc c" by (auto simp: find_Some_iff)
    with u Some nn show ?thesis by (simp add: val_def)
  qed
qed

section \<open>Where the codes of a length start\<close>

definition base :: "nat \<Rightarrow> nat" where
  "base i = sum sz {d \<in> S. BL ! d < i}"

lemma base_1: "base (Suc 0) = 0"
  by (simp add: base_def)

lemma base_Suc:
  assumes "0 < i"
  shows "base (Suc i) = base i + card {d. d < n \<and> BL ! d = i} * 2 ^ (16 - i)"
proof -
  have e: "{d \<in> S. BL ! d < Suc i} = {d \<in> S. BL ! d < i} \<union> {d. d < n \<and> BL ! d = i}" using assms by auto
  have "base (Suc i) = base i + sum sz {d. d < n \<and> BL ! d = i}"
    unfolding base_def e by (rule sum.union_disjoint) auto
  moreover have "sum sz {d. d < n \<and> BL ! d = i} = sum (\<lambda>_. 2 ^ (16 - i)) {d. d < n \<and> BL ! d = i}"
    by (rule sum.cong) (auto simp: csize_def)
  ultimately show ?thesis by simp
qed

lemma base_17: "base 17 = 2 ^ 16"
proof -
  have "{d \<in> S. BL ! d < 17} = S" using le16 by fastforce
  then show ?thesis using kraft by (simp add: base_def)
qed

lemma base_le: "base i \<le> 2 ^ 16"
  unfolding base_def kraft [symmetric] by (rule sum_mono2) auto

lemma base_first: "d \<in> S \<Longrightarrow> \<forall>e<d. BL ! e \<noteq> BL ! d \<Longrightarrow> v d = base (BL ! d)"
  unfolding v_sum base_def by (rule sum.cong) (auto simp: cbefore_def)

lemma base_short: "d \<in> S \<Longrightarrow> BL ! d \<le> TB \<Longrightarrow> v d + sz d \<le> base (Suc TB)"
proof -
  assume d: "d \<in> S" "BL ! d \<le> TB"
  have "v d + sz d = sum sz (insert d {x \<in> S. cbefore BL x d})"
    using v_sum [of d] by (subst sum.insert) (auto simp: cbefore_def)
  also have "\<dots> \<le> base (Suc TB)" unfolding base_def using d by (intro sum_mono2) (auto simp: cbefore_def)
  finally show ?thesis .
qed

lemma base_long: "d \<in> S \<Longrightarrow> TB < BL ! d \<Longrightarrow> base (Suc TB) \<le> v d"
  unfolding v_sum base_def by (rule sum_mono2) (auto simp: cbefore_def)

lemma base_dvd: "2 ^ (16 - TB) dvd base (Suc TB)"
  unfolding base_def by (rule dvd_sum) (auto simp: csize_def intro!: le_imp_power_dvd)

lemma base_pos: "0 < base (Suc TB)"
proof (rule ccontr)
  assume "\<not> 0 < base (Suc TB)"
  then have "sum sz {d \<in> S. BL ! d < Suc TB} = 0" by (simp add: base_def)
  then have "{d \<in> S. BL ! d < Suc TB} = {}" using sz_pos by (auto simp: sum_eq_0_iff csize_def)
  then have "sz d \<le> 2 ^ (15 - TB)" if "d \<in> S" for d
    using that by (fastforce simp: csize_def intro: power_increasing)
  then have "sum sz S \<le> card S * 2 ^ (15 - TB)" using sum_bounded_above [of S sz "2 ^ (15 - TB)"] by simp
  moreover have "card S \<le> n" using card_mono [of "{..<n}" S] by auto
  ultimately have "2 ^ 16 \<le> n * 2 ^ (15 - TB)" using kraft mult_le_mono1 [of "card S" n "2 ^ (15 - TB)"] by linarith
  with small(1) show False by simp
qed

lemma v_succ:
  assumes "c \<in> S" "d \<in> S" "BL ! c = BL ! d" "c < d" "\<And>e. c < e \<Longrightarrow> e < d \<Longrightarrow> BL ! e \<noteq> BL ! d"
  shows "v d = v c + sz c"
proof -
  have "cbefore BL x d \<longleftrightarrow> x = c \<or> cbefore BL x c" for x
    using assms(3,4) assms(5) [of x] by (cases x c rule: linorder_cases) (auto simp: cbefore_def)
  then have "{x \<in> S. cbefore BL x d} = insert c {x \<in> S. cbefore BL x c}" using assms(1) by auto
  then have "v d = sum sz (insert c {x \<in> S. cbefore BL x c})" by (simp add: v_sum)
  also have "\<dots> = sz c + v c" unfolding v_sum by (rule sum.insert) (auto simp: cbefore_def)
  finally show ?thesis by simp
qed

end

lemma count_lens_count:
  "list_all (\<lambda>b. b < length Count) bs \<Longrightarrow> \<exists>C. count_lens bs Count = Some C \<and> length C = length Count
    \<and> (\<forall>l<length Count. C ! l mod 2 ^ 16 = (Count ! l + length (filter (\<lambda>b. b = l) bs)) mod 2 ^ 16)"
proof (induction bs arbitrary: Count)
  case Nil
  then show ?case by simp
next
  case (Cons b bs)
  let ?C = "Count[b := (Count ! b + 1) mod 2 ^ 16]"
  from Cons.IH [of ?C] Cons.prems obtain C where C: "count_lens bs ?C = Some C" "length C = length Count"
    "\<And>l. l < length Count \<Longrightarrow> C ! l mod 2 ^ 16 = (?C ! l + length (filter (\<lambda>b. b = l) bs)) mod 2 ^ 16"
    by (auto simp del: count_lens.simps)
  have "C ! l mod 2 ^ 16 = (Count ! l + length (filter (\<lambda>b. b = l) (b # bs))) mod 2 ^ 16" if "l < length Count" for l
    using C(3) [OF that] that by (cases "l = b") (simp_all add: mod_simps)
  with C(1,2) Cons.prems show ?case by auto
qed

lemma make_start_other: "i = 0 \<or> Suc m < i \<Longrightarrow> make_start C m St ! i = St ! i"
  by (induction m) (auto simp: Let_def)

lemma length_make_start [simp]: "length (make_start C m St) = length St"
  by (induction m) (auto simp: Let_def)

end
