(* ===== verification/DecMake.thy ===== *)
theory DecMake
  imports DecTable
begin

text \<open>
  \<^verbatim>\<open>MakeTable\<close> builds, for a complete canonical code, a table and trees in which every code is found.
\<close>

lemma fill_some:
  assumes "b \<le> length xs"
  shows "\<exists>ys. fill xs a b x = Some ys \<and> length ys = length xs \<and> (\<forall>i<length xs. ys ! i = (if a \<le> i \<and> i < b then x else xs ! i))"
  using assms by (auto simp: fill_def nth_append min_def)

lemma mod_mul_add_cong:
  "a mod M = a' mod M \<Longrightarrow> b mod M = b' mod M \<Longrightarrow> (a + b * k) mod M = (a' + b' * k) mod (M :: nat)"
  by (intro mod_add_cong mod_mult_cong refl)

text \<open>The way from the table to a symbol: \<open>f t\<close> is the value that is met after \<open>t\<close> bits of the code \<open>Y\<close>.\<close>

definition finds :: "tree \<Rightarrow> nat \<Rightarrow> nat \<Rightarrow> nat \<Rightarrow> nat \<Rightarrow> nat \<Rightarrow> bool" where
  "finds tr n TB l Y c \<longleftrightarrow>
     (\<exists>f. rdx (tr_Table tr) (Y div 2 ^ (16 - TB)) = Some (f TB) \<and> f (max TB l) = c
       \<and> (\<forall>t. TB \<le> t \<longrightarrow> t < l \<longrightarrow> n \<le> f t \<and> f t + 1 < 2 * n
            \<and> rdx (if bit Y (15 - t) then tr_Right tr else tr_Left tr) (f t) = Some (f (Suc t))))"

definition decodes :: "nat list \<Rightarrow> nat \<Rightarrow> tree \<Rightarrow> bool" where
  "decodes BL TB tr \<longleftrightarrow>
     (\<forall>c<length BL. 0 < BL ! c \<longrightarrow> (\<forall>Y. cval BL c \<le> Y \<longrightarrow> Y < cval BL c + csize BL c \<longrightarrow> finds tr (length BL) TB (BL ! c) Y c))"

text \<open>What a table does not lose when the trees of another one are built.\<close>

lemma decodes_frame:
  assumes "decodes BL TB tr" "tr_Table tr' = tr_Table tr"
    and "\<And>i. length BL \<le> i \<Longrightarrow> i + 1 < 2 * length BL \<Longrightarrow> rdx (tr_Left tr') i = rdx (tr_Left tr) i \<and> rdx (tr_Right tr') i = rdx (tr_Right tr) i"
  shows "decodes BL TB tr'"
proof -
  have "finds tr' (length BL) TB l Y c" if f: "finds tr (length BL) TB l Y c" for l Y c
  proof -
    obtain f where f: "rdx (tr_Table tr) (Y div 2 ^ (16 - TB)) = Some (f TB)" "f (max TB l) = c"
      "\<And>t. TB \<le> t \<Longrightarrow> t < l \<Longrightarrow> length BL \<le> f t \<and> f t + 1 < 2 * length BL
        \<and> rdx (if bit Y (15 - t) then tr_Right tr else tr_Left tr) (f t) = Some (f (Suc t))"
      using f unfolding finds_def by blast
    have "rdx (if bit Y (15 - t) then tr_Right tr' else tr_Left tr') (f t) = Some (f (Suc t))" if "TB \<le> t" "t < l" for t
      using f(3) [OF that] assms(3) [of "f t"] by (auto split: if_splits)
    with f assms(2) show ?thesis unfolding finds_def by (intro exI [of _ f]) simp
  qed
  with assms(1) show ?thesis by (auto simp: decodes_def)
qed

text \<open>The steps of an insertion do not touch a table entry other than their own.\<close>

lemma slot_put_table:
  "slot_put t p x = Some t' \<Longrightarrow> p \<noteq> TableSlot y \<Longrightarrow> rdx (tr_Table t') y = rdx (tr_Table t) y"
  by (cases p) (auto simp: wrx_def rdx_def split: if_splits)

context canonical
begin

abbreviation "J \<equiv> 2 ^ (16 - TB) :: nat"

definition K0 :: nat where "K0 = base (Suc TB) div J"

lemma K0_base: "K0 * J = base (Suc TB)"
  using base_dvd by (simp add: K0_def)

lemma JTB: "2 ^ TB * J = 2 ^ 16"
  using TB by (simp flip: power_add)

lemma K0_le: "K0 \<le> 2 ^ TB"
proof -
  have "K0 * J \<le> 2 ^ TB * J" unfolding K0_base JTB by (rule base_le)
  then show ?thesis by (simp only: mult_le_cancel2) simp
qed

lemma K0_pos: "0 < K0"
  using base_pos K0_base by (cases K0) auto

lemma make_start_base:
  assumes "length C = 17" and C: "\<And>l. 0 < l \<Longrightarrow> l \<le> 16 \<Longrightarrow> C ! l mod 2 ^ 16 = card {d. d < n \<and> BL ! d = l} mod 2 ^ 16"
  shows "m \<le> 16 \<Longrightarrow> i \<le> m \<Longrightarrow> make_start C m (replicate 18 0) ! Suc i = base (Suc i) mod 2 ^ 16"
proof (induction m arbitrary: i)
  case 0
  then show ?case by (simp add: base_1)
next
  case (Suc m)
  let ?S = "make_start C m (replicate 18 0)"
  show ?case
  proof (cases "i = Suc m")
    case False
    then have "make_start C (Suc m) (replicate 18 0) ! Suc i = ?S ! Suc i" by (simp add: Let_def)
    with Suc False show ?thesis by simp
  next
    case True
    have "make_start C (Suc m) (replicate 18 0) ! Suc i = (?S ! Suc m + C ! Suc m * 2 ^ (16 - Suc m)) mod 2 ^ 16"
      using Suc.prems by (simp add: Let_def True)
    also have "\<dots> = (base (Suc m) + card {d. d < n \<and> BL ! d = Suc m} * 2 ^ (16 - Suc m)) mod 2 ^ 16"
      by (rule mod_mul_add_cong) (use Suc.IH [of m] C [of "Suc m"] Suc.prems in simp_all)
    also have "\<dots> = base (Suc i) mod 2 ^ 16" using base_Suc [of "Suc m"] by (simp add: True)
    finally show ?thesis .
  qed
qed

text \<open>What holds when the symbols below \<open>c\<close> are inserted.\<close>

definition starts :: "nat \<Rightarrow> nat list \<Rightarrow> bool" where
  "starts c St \<longleftrightarrow> length St = 18
     \<and> (\<forall>d\<in>S. c \<le> d \<longrightarrow> (\<forall>e. c \<le> e \<longrightarrow> e < d \<longrightarrow> BL ! e \<noteq> BL ! d) \<longrightarrow> St ! (BL ! d) = (if BL ! d \<le> TB then v d div J else v d))"

definition shorts :: "nat \<Rightarrow> tree \<Rightarrow> bool" where
  "shorts c tr \<longleftrightarrow>
     (\<forall>d\<in>S. \<forall>x<2 ^ TB. d < c \<longrightarrow> BL ! d \<le> TB \<longrightarrow> v d \<le> x * J \<longrightarrow> x * J < v d + sz d \<longrightarrow> tr_Table tr ! x = d)"

definition built :: "tree \<Rightarrow> nat \<Rightarrow> nat list \<Rightarrow> (nat \<times> nat) list \<Rightarrow> nat list \<Rightarrow> tree \<Rightarrow> bool" where
  "built tr0 c St ns D tr \<longleftrightarrow>
     starts c St \<and> tree_inv K0 ns D tr \<and> set D = {d \<in> S. d < c \<and> TB < BL ! d} \<and> shorts c tr \<and> frame 0 tr0 tr"

lemma next_start:
  assumes st: "starts c St" and "c \<in> S" "d \<in> S" "Suc c \<le> d" "\<forall>e. Suc c \<le> e \<longrightarrow> e < d \<longrightarrow> BL ! e \<noteq> BL ! d"
  shows "St[BL ! c := (St ! (BL ! c) + make_weight TB ! (BL ! c)) mod 2 ^ 16] ! (BL ! d) = (if BL ! d \<le> TB then v d div J else v d)"
proof (cases "BL ! c = BL ! d")
  case False
  have "BL ! e \<noteq> BL ! d" if "c \<le> e" "e < d" for e
    using assms(5) False that by (cases "e = c") auto
  then have "St ! (BL ! d) = (if BL ! d \<le> TB then v d div J else v d)" using st assms(3,4) by (simp add: starts_def)
  with False show ?thesis by simp
next
  case True
  have vd: "v d = v c + sz c" by (rule v_succ) (use assms True in auto)
  have l: "BL ! c \<le> 16" "BL ! c < 18" using le16 [of c] assms(2) by auto
  have sc: "St ! (BL ! c) = (if BL ! c \<le> TB then v c div J else v c)" using st assms(2) by (simp add: starts_def)
  have w: "make_weight TB ! (BL ! c) = (if BL ! c \<le> TB then 2 ^ (TB - BL ! c) else sz c)"
    using l assms(2) by (simp add: make_weight_def csize_def del: upt_Suc)
  have "(if BL ! c \<le> TB then v c div J else v c) + (if BL ! c \<le> TB then 2 ^ (TB - BL ! c) else sz c)
    = (if BL ! d \<le> TB then v d div J else v d)"
  proof (cases "BL ! c \<le> TB")
    case True
    then have "sz c = 2 ^ (TB - BL ! c) * J" using TB by (simp add: csize_def flip: power_add)
    then have "v d div J = v c div J + 2 ^ (TB - BL ! c)" unfolding vd by simp
    with True \<open>BL ! c = BL ! d\<close> show ?thesis by simp
  next
    case False
    with vd True show ?thesis by simp
  qed
  moreover have "(if BL ! d \<le> TB then v d div J else v d) < 2 ^ 16"
    using v_bound [OF assms(3)] le_less_trans [OF div_le_dividend v_bound [OF assms(3)]] by simp
  ultimately show ?thesis using True sc w st l by (simp add: starts_def)
qed

lemma starts_next:
  assumes "starts c St" "c \<in> S"
  shows "starts (Suc c) (St[BL ! c := (St ! (BL ! c) + make_weight TB ! (BL ! c)) mod 2 ^ 16])"
  using assms(1) next_start [OF assms] unfolding starts_def by simp

lemma starts_here: "starts c St \<Longrightarrow> c \<in> S \<Longrightarrow> St ! (BL ! c) = (if BL ! c \<le> TB then v c div J else v c)"
  by (simp add: starts_def)

lemma shortsD: "shorts c tr \<Longrightarrow> d \<in> S \<Longrightarrow> x < 2 ^ TB \<Longrightarrow> d < c \<Longrightarrow> BL ! d \<le> TB \<Longrightarrow> v d \<le> x * J \<Longrightarrow> x * J < v d + sz d
    \<Longrightarrow> tr_Table tr ! x = d"
  unfolding shorts_def by blast

lemma insert_code_table:
  "insert_code Chr M i k p (A, t) = Some (A', t') \<Longrightarrow> p \<noteq> TableSlot y \<Longrightarrow> rdx (tr_Table t') y = rdx (tr_Table t) y"
proof (induction i arbitrary: k p A t)
  case 0
  then show ?case using slot_put_table by (auto split: bind_split_asm)
next
  case (Suc i)
  then show ?case using slot_put_table [of _ p _ _ y]
    by (fastforce split: bind_split_asm if_splits prod.splits)
qed

lemma short_below:
  assumes "d \<in> S" "BL ! d \<le> TB" "x * J < v d + sz d"
  shows "x < K0"
proof -
  have "x * J < K0 * J" using assms base_short [of d] K0_base by simp
  then show ?thesis by simp
qed

lemma built_skip:
  assumes "built tr0 c St ns D tr" "\<not> 0 < BL ! c"
  shows "built tr0 (Suc c) St ns D tr"
proof -
  have st: "starts c St" and sh: "shorts c tr" using assms(1) by (auto simp: built_def)
  have "starts (Suc c) St"
    unfolding starts_def
  proof (intro conjI ballI impI)
    fix d assume d: "d \<in> S" "Suc c \<le> d" "\<forall>e. Suc c \<le> e \<longrightarrow> e < d \<longrightarrow> BL ! e \<noteq> BL ! d"
    have "BL ! e \<noteq> BL ! d" if "c \<le> e" "e < d" for e
      using d(1,3) that assms(2) by (cases "e = c") auto
    then show "St ! (BL ! d) = (if BL ! d \<le> TB then v d div J else v d)" using st d(1,2) by (simp add: starts_def)
  qed (use st in \<open>simp add: starts_def\<close>)
  moreover have "shorts (Suc c) tr"
    unfolding shorts_def
  proof (intro ballI allI impI)
    fix d x assume d: "d \<in> S" "x < 2 ^ TB" "d < Suc c" "BL ! d \<le> TB" "v d \<le> x * J" "x * J < v d + sz d"
    then have "d < c" using assms(2) by (cases "d = c") auto
    with shortsD [OF sh d(1,2) _ d(4-6)] show "tr_Table tr ! x = d" by simp
  qed
  moreover have "{d \<in> S. d < c \<and> TB < BL ! d} = {d \<in> S. d < Suc c \<and> TB < BL ! d}"
    using assms(2) by (auto simp: less_Suc_eq)
  ultimately show ?thesis using assms(1) by (simp add: built_def)
qed

lemma built_short:
  assumes b: "built tr0 c St ns D tr" and c: "c \<in> S" "BL ! c \<le> TB"
  defines "N \<equiv> (St ! (BL ! c) + make_weight TB ! (BL ! c)) mod 2 ^ 16"
  shows "\<exists>T. fill (tr_Table tr) (St ! (BL ! c)) N c = Some T \<and> built tr0 (Suc c) (St[BL ! c := N]) ns D (tr\<lparr>tr_Table := T\<rparr>)"
proof -
  have St: "starts c St" and I: "tree_inv K0 ns D tr" "set D = {d \<in> S. d < c \<and> TB < BL ! d}"
    and sh: "shorts c tr" and fr: "frame 0 tr0 tr"
    using b unfolding built_def by blast+
  let ?w = "2 ^ (TB - BL ! c) :: nat" and ?k = "v c div J"
  have k: "St ! (BL ! c) = ?k" using starts_here [OF St c(1)] c(2) by simp
  have szJ: "sz c = ?w * J" using TB c by (simp add: csize_def flip: power_add)
  have vJ: "v c = ?k * J"
  proof -
    have "J dvd v c" using v_dvd [OF c(1)] by (rule dvd_trans [rotated]) (simp add: szJ)
    then show ?thesis by simp
  qed
  have "(?k + ?w) * J \<le> K0 * J" using base_short [OF c] by (simp add: K0_base szJ add_mult_distrib flip: vJ)
  then have kw: "?k + ?w \<le> K0" by (simp only: mult_le_cancel2) simp
  then have kTB: "?k + ?w \<le> 2 ^ TB" using K0_le by simp
  have "(2::nat) ^ TB < 2 ^ 16" by (rule power_strict_increasing [OF TB(2)]) simp
  moreover have "BL ! c < 17" using le16 [of c] c by simp
  ultimately have N: "N = ?k + ?w" unfolding N_def k using c kTB by (simp add: make_weight_def del: upt_Suc)
  have lT: "length (tr_Table tr) = 2 ^ TB" using I by (simp add: tree_inv_def)
  from fill_some [of N "tr_Table tr" ?k c] kTB obtain T where T: "fill (tr_Table tr) ?k N c = Some T" "length T = 2 ^ TB"
    "\<And>i. i < 2 ^ TB \<Longrightarrow> T ! i = (if ?k \<le> i \<and> i < N then c else tr_Table tr ! i)" by (auto simp: lT N)
  have "slot_get (tr\<lparr>tr_Table := T\<rparr>) (cslot ns z) = slot_get tr (cslot ns z)" if "ready K0 ns z" for z
  proof (cases z)
    case (Pair t x)
    with that have "t = TB \<Longrightarrow> K0 \<le> x \<and> x < 2 ^ TB" by (auto simp: ready_def)
    with T kw lT show ?thesis by (auto simp: cslot_def Pair rdx_def N)
  qed
  then have inv: "tree_inv K0 ns D (tr\<lparr>tr_Table := T\<rparr>)" using I T by (auto simp: tree_inv_def)
  have inT: "?k \<le> x \<and> x < N \<longleftrightarrow> v c \<le> x * J \<and> x * J < v c + sz c" for x
  proof -
    have "v c \<le> x * J \<longleftrightarrow> ?k \<le> x" by (subst vJ) (simp only: mult_le_cancel2, simp)
    moreover have "v c + sz c = N * J" by (simp add: N add_mult_distrib szJ flip: vJ)
    moreover have "x * J < N * J \<longleftrightarrow> x < N" by (simp only: mult_less_cancel2) simp
    ultimately show ?thesis by simp
  qed
  have sh': "T ! x = d" if "d \<in> S" "x < 2 ^ TB" "d < Suc c" "BL ! d \<le> TB" "v d \<le> x * J" "x * J < v d + sz d" for d x
  proof (cases "d = c")
    case True
    then show ?thesis using T(3) [OF that(2)] that(5,6) inT [of x] by simp
  next
    case False
    then have "\<not> (?k \<le> x \<and> x < N)" using disjoint [OF that(1) c(1) that(5,6)] inT [of x] by blast
    then show ?thesis using T(3) [OF that(2)] shortsD [OF sh that(1,2) _ that(4-6)] that(3) False by auto
  qed
  have "d < Suc c \<and> TB < BL ! d \<longleftrightarrow> d < c \<and> TB < BL ! d" for d using c(2) by (cases "d = c") auto
  then have "set D = {d \<in> S. d < Suc c \<and> TB < BL ! d}" unfolding I(2) by blast
  moreover have "frame 0 tr0 (tr\<lparr>tr_Table := T\<rparr>)"
    using fr T lT unfolding frame_def by (auto simp: region_def split: slot.splits)
  ultimately have "built tr0 (Suc c) (St[BL ! c := N]) ns D (tr\<lparr>tr_Table := T\<rparr>)"
    unfolding built_def shorts_def using inv sh' starts_next [OF St c(1), folded N_def] by simp
  with T(1) k show ?thesis by auto
qed

lemma built_long:
  assumes b: "built tr0 c St ns D tr" and c: "c \<in> S" "TB < BL ! c"
  defines "N \<equiv> (St ! (BL ! c) + make_weight TB ! (BL ! c)) mod 2 ^ 16"
  shows "\<exists>ns' tr'. insert_code c (2 ^ (15 - TB)) (BL ! c - TB) (St ! (BL ! c)) (TableSlot (St ! (BL ! c) div J)) (n + length ns, tr)
      = Some (n + length ns', tr')
    \<and> built tr0 (Suc c) (St[BL ! c := N]) ns' (c # D) tr'"
proof -
  have St: "starts c St" and I: "tree_inv K0 ns D tr" "set D = {d \<in> S. d < c \<and> TB < BL ! d}"
    and sh: "shorts c tr" and fr: "frame 0 tr0 tr"
    using b unfolding built_def by blast+
  have k: "St ! (BL ! c) = v c" using starts_here [OF St c(1)] c(2) by simp
  have Kc: "K0 \<le> anc TB c" unfolding anc_def K0_def using base_long [OF c] by (rule div_le_mono)
  have cD: "c \<notin> set D" using I(2) by simp
  have z: "v c * 2 ^ (TB - TB) mod 2 ^ 16 = v c" "cslot ns (TB, anc TB c) = TableSlot (v c div J)"
    using v_bound [OF c(1)] by (simp_all add: cslot_def anc_def)
  from insert_code_tree [OF I(1) c Kc cD order_refl] c(2) obtain ns' tr' where
    i: "insert_code c (2 ^ (15 - TB)) (BL ! c - TB) (v c) (TableSlot (v c div J)) (n + length ns, tr) = Some (n + length ns', tr')"
      "tree_inv K0 ns' (c # D) tr'" "frame K0 tr tr'" unfolding z by auto
  have lT: "length (tr_Table tr) = 2 ^ TB" using I by (simp add: tree_inv_def)
  have sh': "tr_Table tr' ! x = d" if "d \<in> S" "x < 2 ^ TB" "d < Suc c" "BL ! d \<le> TB" "v d \<le> x * J" "x * J < v d + sz d" for d x
  proof -
    have "\<not> region K0 (TableSlot x)" using short_below [OF that(1,4,6)] by (simp add: region_def)
    then have "slot_get tr' (TableSlot x) = slot_get tr (TableSlot x)" using i(3) unfolding frame_def by blast
    moreover have "d < c" using that c(2) by (cases "d = c") auto
    ultimately show ?thesis using shortsD [OF sh that(1,2) _ that(4-6)] lT i(3) that(2) by (simp add: frame_def rdx_def)
  qed
  have "d < Suc c \<and> TB < BL ! d \<longleftrightarrow> d = c \<or> d < c \<and> TB < BL ! d" for d using c(2) by (cases "d = c") auto
  then have "set (c # D) = {d \<in> S. d < Suc c \<and> TB < BL ! d}" unfolding list.set I(2) using c(1) by blast
  moreover have "frame 0 tr0 tr'" using frame_trans [OF fr frame_weaken [OF i(3)]] by simp
  ultimately have "built tr0 (Suc c) (St[BL ! c := N]) ns' (c # D) tr'"
    unfolding built_def shorts_def using i(2) sh' starts_next [OF St c(1), folded N_def] by simp
  with i(1) k show ?thesis by auto
qed

lemma insert_chars_built:
  "built tr0 c St ns D tr \<Longrightarrow> c + length bs = n \<Longrightarrow> bs = drop c BL \<Longrightarrow>
    \<exists>ns' tr' St' D'. insert_chars bs TB (make_weight TB) c St (n + length ns, tr) = Some (n + length ns', tr')
      \<and> built tr0 n St' ns' D' tr'"
proof (induction bs arbitrary: c St ns D tr)
  case Nil
  then have "c = n" by simp
  with Nil show ?case by auto
next
  case (Cons b bs)
  have cn: "c < n" "Suc c + length bs = n" using Cons.prems(2) by simp_all
  have bl: "BL ! c = b" "bs = drop (Suc c) BL"
    using Cons.prems(3) cn len by (simp_all add: Cons_nth_drop_Suc [symmetric])
  show ?case
  proof (cases "b = 0")
    case True
    then have "built tr0 (Suc c) St ns D tr" using built_skip [OF Cons.prems(1)] bl by simp
    from Cons.IH [OF this cn(2) bl(2)] True show ?thesis by simp
  next
    case False
    then have c: "c \<in> S" using cn bl by simp
    let ?N = "(St ! b + make_weight TB ! b) mod 2 ^ 16"
    show ?thesis
    proof (cases "b \<le> TB")
      case True
      from built_short [OF Cons.prems(1) c] True bl(1) obtain T where
        T: "fill (tr_Table tr) (St ! b) ?N c = Some T" "built tr0 (Suc c) (St[b := ?N]) ns D (tr\<lparr>tr_Table := T\<rparr>)" by auto
      from Cons.IH [OF T(2) cn(2) bl(2)] T(1) True False show ?thesis by (simp add: Let_def)
    next
      case False
      from built_long [OF Cons.prems(1) c] False bl(1) obtain ns1 tr1 where
        T: "insert_code c (2 ^ (15 - TB)) (b - TB) (St ! b) (TableSlot (St ! b div J)) (n + length ns, tr) = Some (n + length ns1, tr1)"
          "built tr0 (Suc c) (St[b := ?N]) ns1 (c # D) tr1" by auto
      from Cons.IH [OF T(2) cn(2) bl(2)] T(1) False \<open>b \<noteq> 0\<close> show ?thesis by (simp add: Let_def)
    qed
  qed
qed

lemma code_div:
  assumes "c \<in> S" "v c \<le> Y" "Y < v c + sz c" "t \<le> BL ! c"
  shows "Y div 2 ^ (16 - t) = anc t c"
proof -
  have "v c = v c div sz c * sz c" using v_dvd [OF assms(1)] by simp
  then have "Y div sz c = v c div sz c" using assms(2,3)
    by (intro div_nat_eqI) (simp_all add: mult.commute)
  moreover have "2 ^ (16 - t) = sz c * 2 ^ (BL ! c - t)"
    using assms(4) le16 [of c] assms(1) by (simp add: csize_def flip: power_add)
  ultimately show ?thesis by (simp add: anc_def div_mult2_eq)
qed

lemma built_decodes:
  assumes "built tr0 n St ns D tr"
  shows "decodes BL TB tr"
  unfolding decodes_def len
proof (intro allI impI)
  fix c Y assume c0: "c < n" "0 < BL ! c" and Y: "v c \<le> Y" "Y < v c + sz c"
  then have c: "c \<in> S" by simp
  have I: "tree_inv K0 ns D tr" and D: "set D = {d \<in> S. d < n \<and> TB < BL ! d}" and sh: "shorts n tr"
    using assms unfolding built_def by blast+
  have lT: "length (tr_Table tr) = 2 ^ TB" and dn: "distinct ns" "set ns \<subseteq> inner"
    and path: "\<And>d t. d \<in> set D \<Longrightarrow> TB \<le> t \<Longrightarrow> t < BL ! d \<Longrightarrow> (t, anc t d) \<in> set ns"
    and cont: "\<And>z. ready K0 ns z \<Longrightarrow> slot_get tr (cslot ns z) = Some (val ns D z)"
    using I unfolding tree_inv_def by blast+
  let ?x = "Y div J"
  have "Y < 2 ^ 16" using Y(2) v_end [OF c] by simp
  then have x: "?x < 2 ^ TB" using JTB by (simp add: less_mult_imp_div_less)
  show "finds tr n TB (BL ! c) Y c"
  proof (cases "BL ! c \<le> TB")
    case True
    have "J dvd v c" by (rule dvd_trans [OF _ v_dvd [OF c]]) (use True in \<open>simp add: csize_def le_imp_power_dvd\<close>)
    then have "v c = v c div J * J" by simp
    moreover have "v c div J * J \<le> ?x * J" using Y(1) by (intro mult_le_mono1 div_le_mono)
    moreover have "?x * J \<le> Y" by simp
    ultimately have "tr_Table tr ! ?x = c" using shortsD [OF sh c x c0(1) True] Y(2) by linarith
    with x lT True show ?thesis by (auto simp: finds_def rdx_def max_def intro!: exI [of _ "\<lambda>_. c"])
  next
    case False
    then have cD: "c \<in> set D" using D c by simp
    let ?f = "\<lambda>t. if t = BL ! c then c else n + idx ns (t, anc t c)"
    have Kc: "K0 \<le> anc TB c" unfolding anc_def K0_def using base_long [OF c] False by (intro div_le_mono) simp
    have st: "slot_get tr (cslot ns (t, anc t c)) = Some (?f t)" if "TB \<le> t" "t \<le> BL ! c" for t
    proof -
      have "ready K0 ns (t, anc t c)" by (rule ready_anc [OF c that Kc]) (use path [OF cD, of "t - 1"] that in auto)
      moreover have "val ns D (t, anc t c) = ?f t"
      proof (cases "t = BL ! c")
        case True
        then show ?thesis using val_leaf [OF I cD] by (simp add: leafc_def)
      next
        case False
        then show ?thesis using path [OF cD that(1)] that(2) by (simp add: val_def)
      qed
      ultimately show ?thesis using cont by simp
    qed
    have "rdx (tr_Table tr) ?x = Some (?f TB)"
      using st [of TB] False code_div [OF c Y, of TB] by (simp add: cslot_def)
    moreover have "n \<le> ?f t \<and> ?f t + 1 < 2 * n
        \<and> rdx (if bit Y (15 - t) then tr_Right tr else tr_Left tr) (?f t) = Some (?f (Suc t))" if t: "TB \<le> t" "t < BL ! c" for t
    proof -
      have "bit Y (15 - t) \<longleftrightarrow> odd (anc (Suc t) c)" using code_div [OF c Y, of "Suc t"] t by (simp add: bit_iff_odd)
      moreover have "anc (Suc t) c div 2 = anc t c" by (rule anc_parent) (use t le16 [OF c0(1)] in simp)
      ultimately have "cslot ns (Suc t, anc (Suc t) c) = (if bit Y (15 - t) then RightSlot (?f t) else LeftSlot (?f t))"
        using t by (simp add: cslot_def)
      with st [of "Suc t"] t have "rdx (if bit Y (15 - t) then tr_Right tr else tr_Left tr) (?f t) = Some (?f (Suc t))"
        by (cases "bit Y (15 - t)") simp_all
      moreover have "idx ns (t, anc t c) + 1 < n"
        using idx_less [OF path [OF cD t]] nodes_bound [OF dn] by simp
      ultimately show ?thesis using t by simp
    qed
    moreover have "?f (max TB (BL ! c)) = c" using False by simp
    ultimately show ?thesis unfolding finds_def by (intro exI [of _ ?f]) blast
  qed
qed

theorem MakeTable_decodes:
  assumes "length (tr_Table tr) = 2 ^ TB" "2 * n - 1 \<le> length (tr_Left tr)" "2 * n - 1 \<le> length (tr_Right tr)"
  shows "\<exists>tr'. MakeTable n BL TB tr = Some (0, tr') \<and> decodes BL TB tr' \<and> frame 0 tr tr'"
proof -
  have la: "list_all (\<lambda>b. b < length (replicate 17 (0::nat))) (take n BL)"
    unfolding list_all_length using le_less_trans [OF le16, of _ 17] len by simp
  from count_lens_count [OF la] obtain C where C: "count_lens (take n BL) (replicate 17 0) = Some C" "length C = 17"
    "\<And>l. l < 17 \<Longrightarrow> C ! l mod 2 ^ 16 = (replicate 17 0 ! l + length (filter (\<lambda>b. b = l) (take n BL))) mod 2 ^ 16"
    by (auto simp del: mod_less)
  have Cc: "C ! l mod 2 ^ 16 = card {d. d < n \<and> BL ! d = l} mod 2 ^ 16" if "0 < l" "l \<le> 16" for l
    using C(3) [of l] that len by (simp add: length_filter_conv_card)
  let ?S = "make_start C 16 (replicate 18 0)"
  have St: "?S ! Suc i = base (Suc i) mod 2 ^ 16" if "i \<le> 16" for i
    by (rule make_start_base [OF C(2) Cc _ that]) simp_all
  have S17: "?S ! 17 = 0" using St [of 16] base_17 by simp
  let ?S1 = "map (\<lambda>i. if 1 \<le> i \<and> i \<le> TB then ?S ! i div J else ?S ! i) [0..<18]"
  have S1: "?S1 ! Suc i = (if Suc i \<le> TB then base (Suc i) mod 2 ^ 16 div J else base (Suc i) mod 2 ^ 16)" if "i \<le> 16" for i
    using St [OF that] that by (simp del: upt_Suc make_start.simps)
  have K: "?S1 ! (TB + 1) div J = base (Suc TB) mod 2 ^ 16 div J" using S1 [of TB] TB by simp
  have z: "\<exists>T. (if ?S1 ! (TB + 1) div J \<noteq> 0 then fill (tr_Table tr) (?S1 ! (TB + 1) div J) (2 ^ TB) 0 else Some (tr_Table tr)) = Some T
      \<and> length T = 2 ^ TB \<and> (\<forall>x. K0 \<le> x \<longrightarrow> x < 2 ^ TB \<longrightarrow> T ! x = 0)"
  proof (cases "base (Suc TB) = 2 ^ 16")
    case True
    then have "K0 * J = 2 ^ TB * J" using K0_base JTB by simp
    then have "K0 = 2 ^ TB" by (simp only: mult_cancel2) simp
    moreover have "?S1 ! (TB + 1) div J = 0" using K True by simp
    ultimately show ?thesis using assms(1) by auto
  next
    case False
    then have "base (Suc TB) < 2 ^ 16" using base_le [of "Suc TB"] by simp
    then have "?S1 ! (TB + 1) div J = K0" using K by (simp add: K0_def)
    then show ?thesis using fill_some [of "2 ^ TB" "tr_Table tr" K0 0] assms(1) K0_pos by auto
  qed
  then obtain T where T: "(if ?S1 ! (TB + 1) div J \<noteq> 0 then fill (tr_Table tr) (?S1 ! (TB + 1) div J) (2 ^ TB) 0 else Some (tr_Table tr)) = Some T"
    "length T = 2 ^ TB" "\<And>x. K0 \<le> x \<Longrightarrow> x < 2 ^ TB \<Longrightarrow> T ! x = 0" by blast
  have "starts 0 ?S1"
    unfolding starts_def
  proof (intro conjI ballI impI)
    fix d assume d: "d \<in> S" "\<forall>e. 0 \<le> e \<longrightarrow> e < d \<longrightarrow> BL ! e \<noteq> BL ! d"
    then obtain i where i: "BL ! d = Suc i" "i \<le> 16" using le16 [of d] by (cases "BL ! d") auto
    have "v d = base (BL ! d)" using base_first [OF d(1)] d(2) by simp
    with S1 [OF i(2)] v_bound [OF d(1)] i(1) show "?S1 ! (BL ! d) = (if BL ! d \<le> TB then v d div J else v d)" by simp
  qed simp
  moreover have "tree_inv K0 [] [] (tr\<lparr>tr_Table := T\<rparr>)"
    unfolding tree_inv_def using assms T by (auto simp: ready_def cslot_def rdx_def val_def)
  moreover have "frame 0 tr (tr\<lparr>tr_Table := T\<rparr>)"
    unfolding frame_def using T assms by (auto simp: region_def split: slot.splits)
  ultimately have "built tr 0 ?S1 [] [] (tr\<lparr>tr_Table := T\<rparr>)" by (simp add: built_def shorts_def)
  from insert_chars_built [OF this, of BL] len obtain ns' tr' St' D' where
    r: "insert_chars BL TB (make_weight TB) 0 ?S1 (n, tr\<lparr>tr_Table := T\<rparr>) = Some (n + length ns', tr')"
      "built tr n St' ns' D' tr'" by auto
  have "MakeTable n BL TB tr = Some (0, tr')"
  proof -
    have tk: "take n BL = BL" using len by simp
    show ?thesis
      unfolding MakeTable_def Let_def tk
      using C(1) [unfolded tk] by (simp only: len order_refl if_True if_False bind.bind_lunit S17 T(1) r(1) prod.case simp_thms)
  qed
  with built_decodes [OF r(2)] r(2) show ?thesis unfolding built_def by blast
qed

end

end
