(* ===== verification/DecLookup.thy ===== *)
theory DecLookup
  imports DecMake
begin

text \<open>Looking up the code at the window, and the contents of the two tables of the scratch buffer.\<close>

section \<open>Following a code\<close>

lemma num_div: "t \<le> k \<Longrightarrow> num s q k div 2 ^ (k - t) = num s q t"
proof (rule bit_eqI)
  fix i assume t: "t \<le> k"
  then have "q + k - 1 - (k - t + i) = q + t - 1 - i" by simp
  with t show "bit (num s q k div 2 ^ (k - t)) i \<longleftrightarrow> bit (num s q t) i"
    by (auto simp: bit_num simp flip: drop_bit_eq_div simp add: bit_drop_bit_eq)
qed

lemma bit_num16: "t < 16 \<Longrightarrow> bit (num s q 16) (15 - t) \<longleftrightarrow> s (q + t)"
  using less_imp_diff_less [of 15 16 t] by (simp add: bit_num)

lemma window_bit: "window src m q Sd \<Longrightarrow> t < 32 \<Longrightarrow> mBitBuf Sd AND 2 ^ (31 - t) \<noteq> 0 \<longleftrightarrow> zbit src m (q + t)"
  by (simp add: window_def and_exp_eq_0_iff_not_bit)

lemma drop_mask: "k < 31 \<Longrightarrow> drop_bit 1 (2 ^ Suc k :: u32) = 2 ^ k"
  by (rule bit_eqI) (auto simp: bit_drop_bit_eq bit_exp_iff simp del: power_Suc)

lemma walk_path:
  assumes w: "window src m q Sd" and l: "l \<le> 16" "TB < 16" and c: "f (max TB l) < n"
    and f: "\<And>t. TB \<le> t \<Longrightarrow> t < l \<Longrightarrow> n \<le> f t
      \<and> rdx (if bit (num (zbit src m) q 16) (15 - t) then mRight Sd else mLeft Sd) (f t) = Some (f (Suc t))"
  shows "TB \<le> t \<Longrightarrow> t \<le> max TB l \<Longrightarrow> walk n Sd (2 ^ (31 - t)) (f t) = Some (f (max TB l))"
proof (induction "max TB l - t" arbitrary: t)
  case 0
  then have "t = max TB l" by simp
  with c show ?case by (subst walk.simps) simp
next
  case (Suc i)
  then have t: "t < l" "t < 16" using l by auto
  then have "31 - t = Suc (31 - Suc t)" by simp
  then have "drop_bit 1 (2 ^ (31 - t) :: u32) = 2 ^ (31 - Suc t)" using drop_mask [of "31 - Suc t"] by simp
  moreover have "walk n Sd (2 ^ (31 - Suc t)) (f (Suc t)) = Some (f (max TB l))"
    by (rule Suc(1)) (use Suc t in auto)
  ultimately show ?case
    using f [OF Suc(3) t(1)] window_bit [OF w, of t] bit_num16 [OF t(2)] t
    by (subst walk.simps) auto
qed

lemma finds_walk:
  assumes w: "window src m q Sd" and F: "finds (get_tree T Sd) n TB l (num (zbit src m) q 16) c"
    and l: "l \<le> 16" "TB < 16" and c: "c < n"
  shows "\<exists>v. rdx T (unat (drop_bit (32 - TB) (mBitBuf Sd))) = Some v \<and> walk n Sd (2 ^ (31 - TB)) v = Some c"
proof -
  from F obtain f where f: "rdx T (num (zbit src m) q 16 div 2 ^ (16 - TB)) = Some (f TB)" "f (max TB l) = c"
    "\<And>t. TB \<le> t \<Longrightarrow> t < l \<Longrightarrow> n \<le> f t
      \<and> rdx (if bit (num (zbit src m) q 16) (15 - t) then mRight Sd else mLeft Sd) (f t) = Some (f (Suc t))"
    unfolding finds_def get_tree_def tree.simps by blast
  have "num (zbit src m) q 16 div 2 ^ (16 - TB) = unat (drop_bit (32 - TB) (mBitBuf Sd))"
    using num_div [of TB 16] window_num [OF w, of TB] l(2) by simp
  moreover have "walk n Sd (2 ^ (31 - TB)) (f TB) = Some (f (max TB l))"
    by (rule walk_path [OF w l]) (use f(2,3) c in auto)
  ultimately show ?thesis using f(1,2) by auto
qed

section \<open>Bits of the stream\<close>

definition at :: "(nat \<Rightarrow> bool) \<Rightarrow> nat \<Rightarrow> bool list \<Rightarrow> bool" where
  "at s q bs \<longleftrightarrow> (\<forall>i<length bs. s (q + i) = bs ! i)"

lemma at_Nil [simp]: "at s q []"
  by (simp add: at_def)

lemma at_nth: "at s q bs \<Longrightarrow> i < length bs \<Longrightarrow> s (q + i) = bs ! i"
  by (simp add: at_def)

lemma at_append: "at s q (xs @ ys) \<longleftrightarrow> at s q xs \<and> at s (q + length xs) ys"
proof
  assume a: "at s q (xs @ ys)"
  have "s (q + i) = xs ! i" if "i < length xs" for i
    using at_nth [OF a, of i] that by (simp add: nth_append)
  moreover have "s (q + length xs + i) = ys ! i" if "i < length ys" for i
    using at_nth [OF a, of "length xs + i"] that by (simp add: add.assoc)
  ultimately show "at s q xs \<and> at s (q + length xs) ys" by (simp add: at_def)
next
  assume a: "at s q xs \<and> at s (q + length xs) ys"
  have "s (q + i) = (xs @ ys) ! i" if "i < length xs + length ys" for i
    using at_nth [of s q xs i] at_nth [of s "q + length xs" ys "i - length xs"] a that
    by (cases "i < length xs") (auto simp: nth_append)
  then show "at s q (xs @ ys)" by (simp add: at_def)
qed

definition enc :: "nat \<Rightarrow> nat \<Rightarrow> bool list" where
  "enc k v = map (\<lambda>i. bit v (k - 1 - i)) [0..<k]"

lemma length_enc [simp]: "length (enc k v) = k"
  by (simp add: enc_def)

lemma at_num: "at s q (enc k v) \<Longrightarrow> v < 2 ^ k \<Longrightarrow> num s q k = v"
proof (rule bit_eqI)
  fix i assume a: "at s q (enc k v)" and v: "v < 2 ^ k"
  show "bit (num s q k) i \<longleftrightarrow> bit v i"
  proof (cases "i < k")
    case True
    then have "s (q + (k - 1 - i)) \<longleftrightarrow> enc k v ! (k - 1 - i)" using at_nth [OF a, of "k - 1 - i"] True by simp
    moreover have "enc k v ! (k - 1 - i) \<longleftrightarrow> bit v i" using True by (simp add: enc_def)
    moreover have "q + k - 1 - i = q + (k - 1 - i)" using True by simp
    ultimately show ?thesis using True by (simp add: bit_num)
  next
    case False
    then have "v < 2 ^ i" using v by (meson le_less_trans not_less power_increasing one_le_numeral less_le_trans)
    then have "\<not> bit v i" by (simp add: bit_iff_odd)
    with False show ?thesis by (simp add: bit_num)
  qed
qed

lemma at_hcode:
  assumes "at s q (hcode BL c)" "BL ! c \<le> 16" "csize BL c dvd cval BL c" "cval BL c < 2 ^ 16"
  shows "cval BL c \<le> num s q 16 \<and> num s q 16 < cval BL c + csize BL c"
proof -
  let ?l = "BL ! c" and ?s = "csize BL c" and ?v = "cval BL c"
  have "num s q ?l = ?v div ?s"
  proof (rule bit_eqI)
    fix i
    have "bit (?v div ?s) i \<longleftrightarrow> bit ?v (16 - ?l + i)"
      by (simp add: csize_def bit_drop_bit_eq flip: drop_bit_eq_div)
    moreover have "bit (num s q ?l) i \<longleftrightarrow> bit ?v (16 - ?l + i)"
    proof (cases "i < ?l")
      case True
      then have "s (q + (?l - 1 - i)) \<longleftrightarrow> hcode BL c ! (?l - 1 - i)"
        using at_nth [OF assms(1), of "?l - 1 - i"] True by (simp add: hcode_def)
      moreover have "hcode BL c ! (?l - 1 - i) \<longleftrightarrow> bit ?v (15 - (?l - 1 - i))" using True by (simp add: hcode_def)
      moreover have "15 - (?l - 1 - i) = 16 - ?l + i" using True assms(2) by simp
      moreover have "q + ?l - 1 - i = q + (?l - 1 - i)" using True by simp
      ultimately show ?thesis using True by (simp add: bit_num)
    next
      case False
      then have "?v < 2 ^ (16 - ?l + i)"
        using assms(2,4) power_increasing [of 16 "16 - ?l + i" "2::nat"] by (cases "16 \<le> 16 - ?l + i") auto
      then have "\<not> bit ?v (16 - ?l + i)" by (simp add: bit_iff_odd)
      with False show ?thesis by (simp add: bit_num)
    qed
    ultimately show "bit (num s q ?l) i \<longleftrightarrow> bit (?v div ?s) i" by simp
  qed
  then have e: "num s q 16 div ?s = ?v div ?s" using num_div [of ?l 16 s q] assms(2) by (simp add: csize_def)
  have s: "0 < ?s" by (simp add: csize_def)
  have "?v = ?v div ?s * ?s" using assms(3) by simp
  moreover have "num s q 16 = ?v div ?s * ?s + num s q 16 mod ?s"
    unfolding e [symmetric] by (rule div_mult_mod_eq [symmetric])
  ultimately show ?thesis using mod_less_divisor [OF s, of "num s q 16"] by linarith
qed

section \<open>The codes of a block\<close>

text \<open>A code is a single symbol without any bits, or a complete canonical code.\<close>

datatype code = One nat | Lens "nat list"

fun code_ok :: "nat \<Rightarrow> code \<Rightarrow> bool" where
  "code_ok n (One c) \<longleftrightarrow> c < n"
| "code_ok n (Lens BL) \<longleftrightarrow> length BL = n \<and> complete_code BL"

fun has_code :: "code \<Rightarrow> nat \<Rightarrow> bool" where
  "has_code (One c) d \<longleftrightarrow> d = c"
| "has_code (Lens BL) d \<longleftrightarrow> d < length BL \<and> 0 < BL ! d"

fun code_bits :: "code \<Rightarrow> nat \<Rightarrow> bool list" where
  "code_bits (One c) d = []"
| "code_bits (Lens BL) d = hcode BL d"

text \<open>The table \<open>T\<close>, the trees and the lengths \<open>L\<close> hold a code.\<close>

fun holds :: "nat \<Rightarrow> nat \<Rightarrow> code \<Rightarrow> nat list \<Rightarrow> nat list \<Rightarrow> SCRATCH_DATA \<Rightarrow> bool" where
  "holds n TB (One c) T L Sd \<longleftrightarrow> T = replicate (2 ^ TB) c \<and> n \<le> length L \<and> (\<forall>d<n. L ! d = 0)"
| "holds n TB (Lens BL) T L Sd \<longleftrightarrow> n \<le> length L \<and> take n L = BL \<and> decodes BL TB (get_tree T Sd)"

text \<open>The sizes of the three kinds of codes satisfy the bounds of the construction.\<close>

definition code_size :: "nat \<Rightarrow> nat \<Rightarrow> bool" where
  "code_size n TB \<longleftrightarrow> 0 < TB \<and> TB < 16 \<and> n * 2 ^ (15 - TB) < 2 ^ 16 \<and> n < 2 ^ 15"

lemma code_sizes: "code_size NC 12" "code_size NT 8" "code_size MAXNP 8"
  by (simp_all add: code_size_def dec_consts)

lemma canonicalI: "code_size n TB \<Longrightarrow> code_ok n (Lens BL) \<Longrightarrow> canonical BL n TB"
  by (simp add: canonical_def code_size_def)

lemma holds_lookup:
  assumes w: "window src m q Sd" and cs: "code_size n TB" and ok: "code_ok n K" and h: "holds n TB K T L Sd"
    and d: "has_code K d" and a: "at (zbit src m) q (code_bits K d)"
  shows "\<exists>v. rdx T (unat (drop_bit (32 - TB) (mBitBuf Sd))) = Some v \<and> walk n Sd (2 ^ (31 - TB)) v = Some d
    \<and> rdx L d = Some (length (code_bits K d)) \<and> length (code_bits K d) \<le> 16"
proof (cases K)
  case (One c)
  have "unat (drop_bit (32 - TB) (mBitBuf Sd)) < 2 ^ TB"
    using window_num [OF w, of TB] num_bound [of "zbit src m" q TB] cs by (simp add: code_size_def)
  with One h d ok show ?thesis by (auto simp: rdx_def walk.simps)
next
  case (Lens BL)
  then have can: "canonical BL n TB" using canonicalI [OF cs] ok by simp
  have S: "d < n" "0 < BL ! d" "length BL = n" using d ok Lens by auto
  then have l: "BL ! d \<le> 16" using canonical.le16 [OF can] by simp
  have "cval BL d \<le> num (zbit src m) q 16 \<and> num (zbit src m) q 16 < cval BL d + csize BL d"
    using at_hcode [of "zbit src m" q BL d] a Lens l canonical.v_dvd [OF can, of d]
      canonical.v_bound [OF can, of d] S by simp
  moreover have "decodes BL TB (get_tree T Sd)" using h Lens by simp
  ultimately have "finds (get_tree T Sd) n TB (BL ! d) (num (zbit src m) q 16) d"
    using S unfolding decodes_def by blast
  from finds_walk [OF w this l _ S(1)] cs obtain v where
    v: "rdx T (unat (drop_bit (32 - TB) (mBitBuf Sd))) = Some v" "walk n Sd (2 ^ (31 - TB)) v = Some d"
    by (auto simp: code_size_def)
  have "take n L ! d = BL ! d" "n \<le> length L" using h Lens by simp_all
  then have "rdx L d = Some (BL ! d)" using S(1) by (simp add: rdx_def)
  with v l Lens show ?thesis by (auto simp: hcode_def)
qed

end
