(* ===== verification/DecFormat.thy ===== *)
theory DecFormat
  imports DecLookup
begin

text \<open>
  The compressed format as a function from blocks to bits, and the reading of the codes at the beginning
  of a block.
\<close>

section \<open>The format\<close>

text \<open>A code as it is transmitted: a single symbol, or a list of lengths without the zeros at its end.\<close>

type_synonym code_desc = "nat + nat list"

definition pad :: "nat \<Rightarrow> nat list \<Rightarrow> nat list" where
  "pad n ls = ls @ replicate (n - length ls) 0"

fun code_of :: "nat \<Rightarrow> code_desc \<Rightarrow> code" where
  "code_of n (Inl c) = One c"
| "code_of n (Inr ls) = Lens (pad n ls)"

definition ser_len :: "nat \<Rightarrow> bool list" where
  "ser_len l = (if l < 7 then enc 3 l else enc 3 7 @ replicate (l - 7) True @ [False])"

text \<open>The run of at most three zeros that is sent in two bits behind the third length.\<close>

definition zero_run :: "nat list \<Rightarrow> nat" where
  "zero_run ls = length (takeWhile (\<lambda>l. l = 0) (take 3 (drop 3 ls)))"

definition ser_lens :: "bool \<Rightarrow> nat list \<Rightarrow> bool list" where
  "ser_lens skip ls =
     (if skip \<and> 3 \<le> length ls
      then concat (map ser_len (take 3 ls)) @ enc 2 (zero_run ls) @ concat (map ser_len (drop (3 + zero_run ls) ls))
      else concat (map ser_len ls))"

fun ser_pt :: "nat \<Rightarrow> bool \<Rightarrow> code_desc \<Rightarrow> bool list" where
  "ser_pt nbit skip (Inl c) = enc nbit 0 @ enc nbit c"
| "ser_pt nbit skip (Inr ls) = enc nbit (length ls) @ ser_lens skip ls"

definition desc_ok :: "nat \<Rightarrow> nat \<Rightarrow> code_desc \<Rightarrow> bool" where
  "desc_ok n nbit D \<longleftrightarrow> code_ok n (code_of n D)
     \<and> (case D of Inl c \<Rightarrow> c < 2 ^ nbit | Inr ls \<Rightarrow> ls \<noteq> [] \<and> length ls < 2 ^ nbit)"

section \<open>Updates that do not move the window\<close>

lemma window_upd [simp]:
  "window src m q (Sd\<lparr>mPTLen := L\<rparr>) = window src m q Sd" "window src m q (Sd\<lparr>mCLen := L\<rparr>) = window src m q Sd"
  "window src m q (Sd\<lparr>mPTTable := L\<rparr>) = window src m q Sd" "window src m q (Sd\<lparr>mCTable := L\<rparr>) = window src m q Sd"
  "window src m q (Sd\<lparr>mLeft := L\<rparr>) = window src m q Sd" "window src m q (Sd\<lparr>mRight := L\<rparr>) = window src m q Sd"
  "window src m q (Sd\<lparr>mBlockSize := b\<rparr>) = window src m q Sd" "window src m q (Sd\<lparr>mBadTableFlag := b\<rparr>) = window src m q Sd"
  "window src m q (Sd\<lparr>mDst := d\<rparr>) = window src m q Sd" "window src m q (Sd\<lparr>mOutBuf := b\<rparr>) = window src m q Sd"
  by (simp_all add: window_def)

lemma count_ones_run:
  "r < k \<Longrightarrow> (\<And>j. j < r \<Longrightarrow> bit w (k - 1 - j)) \<Longrightarrow> \<not> bit w (k - 1 - r) \<Longrightarrow> count_ones w k = r"
proof (induction k arbitrary: r)
  case 0
  then show ?case by simp
next
  case (Suc k)
  show ?case
  proof (cases r)
    case 0
    with Suc.prems show ?thesis by simp
  next
    case (Suc r')
    have "count_ones w k = r'"
    proof (rule Suc.IH)
      show "bit w (k - 1 - j)" if "j < r'" for j using Suc.prems(2) [of "Suc j"] that Suc by simp
    qed (use Suc.prems Suc in auto)
    moreover have "bit w k" using Suc.prems(2) [of 0] Suc by simp
    ultimately show ?thesis using Suc by simp
  qed
qed

text \<open>One length.\<close>

lemma read_len:
  assumes w: "window src m q Sd" and a: "at (zbit src m) q (ser_len l)" and l: "l \<le> 16"
  defines "c0 \<equiv> unat (drop_bit (BITBUFSIZ - 3) (mBitBuf Sd))"
  defines "c \<equiv> (if c0 = 7 then 7 + count_ones (mBitBuf Sd) (BITBUFSIZ - 3) else c0)"
  shows "c = l \<and> (\<exists>Sd'. FillBuf src Sd (if c < 7 then 3 else c - 3) = Some Sd' \<and> window src m (q + length (ser_len l)) Sd' \<and> same_rest Sd Sd')"
proof -
  have c0: "c0 = num (zbit src m) q 3" using window_num [OF w, of 3] by (simp add: c0_def BITBUFSIZ_def)
  have c: "c = l"
  proof (cases "l < 7")
    case True
    then have "num (zbit src m) q 3 = l" using a by (intro at_num) (simp_all add: ser_len_def)
    with True c0 show ?thesis by (simp add: c_def)
  next
    case False
    then have a3: "at (zbit src m) q (enc 3 7)" and ar: "at (zbit src m) (q + 3) (replicate (l - 7) True @ [False])"
      using a by (simp_all add: ser_len_def at_append)
    have "num (zbit src m) q 3 = 7" by (rule at_num [OF a3]) simp
    moreover have "count_ones (mBitBuf Sd) 29 = l - 7"
    proof (rule count_ones_run)
      have b: "bit (mBitBuf Sd) (28 - j) \<longleftrightarrow> zbit src m (q + 3 + j)" if "j < 29" for j
      proof -
        have "q + 31 - (28 - j) = q + 3 + j" using that by simp
        moreover have "bit (mBitBuf Sd) (28 - j) \<longleftrightarrow> zbit src m (q + 31 - (28 - j))" using w by (simp add: window_def)
        ultimately show ?thesis by simp
      qed
      show "bit (mBitBuf Sd) (29 - 1 - j)" if "j < l - 7" for j
        using b [of j] at_nth [OF ar, of j] that l by (simp add: nth_append)
      show "\<not> bit (mBitBuf Sd) (29 - 1 - (l - 7))"
        using b [of "l - 7"] at_nth [OF ar, of "l - 7"] l by (simp add: nth_append)
    qed (use l in simp)
    ultimately show ?thesis using False c0 by (simp add: c_def BITBUFSIZ_def)
  qed
  moreover have "(if c < 7 then 3 else c - 3) = length (ser_len l)"
    unfolding c by (cases "l < 7") (simp_all add: ser_len_def)
  moreover have "length (ser_len l) < 32" using l by (cases "l < 7") (simp_all add: ser_len_def)
  ultimately show ?thesis using FillBuf_window [OF w, of "length (ser_len l)"] by auto
qed

text \<open>Lengths before and behind the zero run.\<close>

definition put :: "'a list \<Rightarrow> nat \<Rightarrow> 'a list \<Rightarrow> 'a list" where
  "put xs i ys = take i xs @ ys @ drop (i + length ys) xs"

lemma length_put [simp]: "i + length ys \<le> length xs \<Longrightarrow> length (put xs i ys) = length xs"
  by (simp add: put_def)

lemma put_Nil [simp]: "put xs i [] = xs"
  by (simp add: put_def)

lemma put_Cons: "i < length xs \<Longrightarrow> put (xs[i := y]) (Suc i) ys = put xs i (y # ys)"
  by (simp add: put_def take_Suc_conv_app_nth take_update_cancel)

lemma put_put: "i + length ys \<le> length xs \<Longrightarrow> put (put xs i ys) (i + length ys) zs = put xs i (ys @ zs)"
  by (cases ys) (simp_all add: put_def min_def ac_simps)

lemma fill_put: "i + k \<le> length xs \<Longrightarrow> fill xs i (i + k) x = Some (put xs i (replicate k x))"
  by (cases k) (auto simp: fill_def put_def)

lemma wrx_put: "i < length xs \<Longrightarrow> wrx xs i x = Some (put xs i [x])"
  using put_Cons [of i xs x "[]"] by (simp add: wrx_def)

lemma ReadPTLen_prefix:
  "window src m q Sd \<Longrightarrow> at (zbit src m) q (concat (map ser_len ls)) \<Longrightarrow> list_all (\<lambda>l. l \<le> 16) ls \<Longrightarrow>
    i + length ls \<le> n \<Longrightarrow> i + length ls \<le> length (mPTLen Sd) \<Longrightarrow> Sp \<le> i \<or> i + length ls < Sp \<Longrightarrow>
    \<exists>Sd'. ReadPTLen_loop src Sp n i Sd = ReadPTLen_loop src Sp n (i + length ls) Sd'
      \<and> window src m (q + length (concat (map ser_len ls))) Sd' \<and> same_rest (Sd\<lparr>mPTLen := put (mPTLen Sd) i ls\<rparr>) Sd'"
proof (induction ls arbitrary: i q Sd)
  case Nil
  then show ?case by (intro exI [of _ Sd]) simp
next
  case (Cons l ls)
  let ?q = "q + length (ser_len l)"
  have a: "at (zbit src m) q (ser_len l)" "at (zbit src m) ?q (concat (map ser_len ls))"
    using Cons.prems(2) by (simp_all add: at_append)
  have l: "l \<le> 16" "list_all (\<lambda>l. l \<le> 16) ls" using Cons.prems(3) by simp_all
  obtain Sd1 where r: "FillBuf src Sd (if l < 7 then 3 else l - 3) = Some Sd1" "window src m ?q Sd1" "same_rest Sd Sd1"
    "(if unat (drop_bit (BITBUFSIZ - 3) (mBitBuf Sd)) = 7 then 7 + count_ones (mBitBuf Sd) (BITBUFSIZ - 3)
      else unat (drop_bit (BITBUFSIZ - 3) (mBitBuf Sd))) = l"
    using read_len [OF Cons.prems(1) a(1) l(1)] by auto
  have L: "mPTLen Sd1 = mPTLen Sd" using r(3) by (simp add: same_rest_def)
  let ?S = "Sd1\<lparr>mPTLen := (mPTLen Sd)[i := l]\<rparr>"
  have "\<exists>Sd'. ReadPTLen_loop src Sp n (Suc i) ?S = ReadPTLen_loop src Sp n (Suc i + length ls) Sd'
      \<and> window src m (?q + length (concat (map ser_len ls))) Sd' \<and> same_rest (?S\<lparr>mPTLen := put (mPTLen ?S) (Suc i) ls\<rparr>) Sd'"
    by (rule Cons.IH) (use Cons.prems a l r(2) in auto)
  moreover have "ReadPTLen_loop src Sp n i Sd = ReadPTLen_loop src Sp n (Suc i) ?S"
    using Cons.prems(4-6)
    by (subst ReadPTLen_loop.simps, simp only: Let_def r(4) r(1)) (auto simp: wrx_def L)
  moreover have "put ((mPTLen Sd)[i := l]) (Suc i) ls = put (mPTLen Sd) i (l # ls)"
    by (rule put_Cons) (use Cons.prems(5) in simp)
  ultimately show ?case using r(3) by (auto simp: add.assoc same_rest_def)
qed

lemma zero_run_le: "zero_run ls \<le> 3" "3 \<le> length ls \<Longrightarrow> 3 + zero_run ls \<le> length ls"
  using length_takeWhile_le [of "\<lambda>l. l = 0" "take 3 (drop 3 ls)"] by (auto simp: zero_run_def)

lemma zero_run_zeros: "take (zero_run ls) (drop 3 ls) = replicate (zero_run ls) 0"
proof -
  let ?t = "takeWhile (\<lambda>l. l = 0) (take 3 (drop 3 ls))"
  have "?t = take (length ?t) (take 3 (drop 3 ls))" by (rule takeWhile_eq_take)
  then have "?t = take (zero_run ls) (drop 3 ls)"
    using zero_run_le(1) [of ls] by (simp add: zero_run_def [symmetric] min_def)
  moreover have "?t = replicate (length ?t) 0" by (rule replicate_eqI) (auto dest: set_takeWhileD)
  ultimately show ?thesis by (simp add: zero_run_def)
qed

lemma ReadPTLen_loop_lens:
  assumes w: "window src m q Sd" and a: "at (zbit src m) q (ser_lens skip ls)" and l: "list_all (\<lambda>l. l \<le> 16) ls"
    and n: "length ls \<le> length (mPTLen Sd)" and Sp: "skip \<and> Sp = 3 \<or> \<not> skip \<and> length ls < Sp"
  shows "\<exists>Sd'. ReadPTLen_loop src Sp (length ls) 0 Sd = Some (length ls, Sd')
    \<and> window src m (q + length (ser_lens skip ls)) Sd' \<and> same_rest (Sd\<lparr>mPTLen := put (mPTLen Sd) 0 ls\<rparr>) Sd'"
proof (cases "skip \<and> 3 \<le> length ls")
  case False
  then have s: "ser_lens skip ls = concat (map ser_len ls)" unfolding ser_lens_def by (rule if_not_P)
  have "Sp \<le> 0 \<or> 0 + length ls < Sp" using False Sp by auto
  from ReadPTLen_prefix [OF w a [unfolded s] l _ _ this, of "length ls"] n s show ?thesis
    by (simp add: ReadPTLen_loop.simps [of src Sp "length ls" "length ls"])
next
  case True
  let ?n = "length ls" and ?z = "zero_run ls"
  define xs y zs where "xs = take 2 ls" and "y = ls ! 2" and "zs = drop (3 + ?z) ls"
  have z: "?z \<le> 3" "3 + ?z \<le> ?n" using zero_run_le [of ls] True by auto
  have t3: "take 3 ls = xs @ [y]" using True by (simp add: xs_def y_def numeral_3_eq_3 numeral_2_eq_2 take_Suc_conv_app_nth)
  have ls: "ls = xs @ [y] @ replicate ?z 0 @ zs"
  proof -
    have "drop 3 ls = take ?z (drop 3 ls) @ drop ?z (drop 3 ls)" by (rule append_take_drop_id [symmetric])
    then have "drop 3 ls = replicate ?z 0 @ zs" by (simp add: zero_run_zeros zs_def add.commute)
    then show ?thesis using append_take_drop_id [of 3 ls] t3 by simp
  qed
  have len: "length xs = 2" "length zs = ?n - (3 + ?z)" using True by (simp_all add: xs_def zs_def)
  have l': "list_all (\<lambda>l. l \<le> 16) xs" "y \<le> 16" "list_all (\<lambda>l. l \<le> 16) zs" using l by (subst (asm) ls, simp)+
  have s: "ser_lens skip ls = concat (map ser_len xs) @ ser_len y @ enc 2 ?z @ concat (map ser_len zs)"
    using True t3 by (simp add: ser_lens_def zs_def)
  let ?q1 = "q + length (concat (map ser_len xs))"
  let ?q2 = "?q1 + length (ser_len y)"
  have at: "at (zbit src m) q (concat (map ser_len xs))" "at (zbit src m) ?q1 (ser_len y)"
    "at (zbit src m) ?q2 (enc 2 ?z)" "at (zbit src m) (?q2 + 2) (concat (map ser_len zs))"
    using a by (simp_all add: s at_append add.assoc)
  have Sp3: "Sp = 3" using Sp True by simp
  from ReadPTLen_prefix [OF w at(1) l'(1), of 0 ?n Sp] n z(2) len(1) Sp3 obtain S1 where
    r1: "ReadPTLen_loop src Sp ?n 0 Sd = ReadPTLen_loop src Sp ?n 2 S1" "window src m ?q1 S1"
      "same_rest (Sd\<lparr>mPTLen := put (mPTLen Sd) 0 xs\<rparr>) S1" by (auto simp del: add_2_eq_Suc add_2_eq_Suc')
  obtain S2 where r2: "FillBuf src S1 (if y < 7 then 3 else y - 3) = Some S2" "window src m ?q2 S2" "same_rest S1 S2"
    "(if unat (drop_bit (BITBUFSIZ - 3) (mBitBuf S1)) = 7 then 7 + count_ones (mBitBuf S1) (BITBUFSIZ - 3)
      else unat (drop_bit (BITBUFSIZ - 3) (mBitBuf S1))) = y"
    using read_len [OF r1(2) at(2) l'(2)] by auto
  have L1: "mPTLen S1 = put (mPTLen Sd) 0 xs" using r1(3) by (simp add: same_rest_def)
  have L2: "mPTLen S2 = put (mPTLen Sd) 0 xs" using r2(3) L1 by (simp add: same_rest_def)
  have n3: "3 + ?z \<le> length (mPTLen Sd)" using n z(2) by simp
  let ?L3 = "put (mPTLen Sd) 0 (xs @ [y])"
  have w3: "wrx (mPTLen S2) 2 y = Some ?L3"
    using wrx_put [of 2 "mPTLen S2" y] put_put [of 0 xs "mPTLen Sd" "[y]"] n3 len by (simp add: L2 del: add_2_eq_Suc add_2_eq_Suc')
  have "window src m ?q2 (S2\<lparr>mPTLen := ?L3\<rparr>)" using r2(2) by simp
  from GetBits_window [OF this, of 2] at_num [OF at(3)] z(1) obtain S3 where
    r3: "GetBits src (S2\<lparr>mPTLen := ?L3\<rparr>) 2 = Some (?z, S3)" "window src m (?q2 + 2) S3" "same_rest (S2\<lparr>mPTLen := ?L3\<rparr>) S3"
    by auto
  let ?L4 = "put (mPTLen Sd) 0 (xs @ [y] @ replicate ?z 0)"
  have f4: "fill ?L3 3 (3 + ?z) 0 = Some ?L4"
    using fill_put [of 3 ?z ?L3 0] put_put [of 0 "xs @ [y]" "mPTLen Sd" "replicate ?z 0"] n3 len by simp
  have step: "ReadPTLen_loop src Sp ?n 2 S1 = ReadPTLen_loop src Sp ?n (3 + ?z) (S3\<lparr>mPTLen := ?L4\<rparr>)"
    using True Sp3 f4 r3(1) w3
    by (subst ReadPTLen_loop.simps, simp only: Let_def r2(4) r2(1)) simp
  have "window src m (?q2 + 2) (S3\<lparr>mPTLen := ?L4\<rparr>)" using r3(2) by simp
  from ReadPTLen_prefix [OF this at(4) l'(3), of "3 + ?z" ?n Sp] n z n3 len Sp3 obtain S5 where
    r5: "ReadPTLen_loop src Sp ?n (3 + ?z) (S3\<lparr>mPTLen := ?L4\<rparr>) = ReadPTLen_loop src Sp ?n ?n S5"
      "window src m (?q2 + 2 + length (concat (map ser_len zs))) S5"
      "same_rest (S3\<lparr>mPTLen := put ?L4 (3 + ?z) zs\<rparr>) S5" by auto
  have "put ?L4 (3 + ?z) zs = put (mPTLen Sd) 0 ls"
    using put_put [of 0 "xs @ [y] @ replicate ?z 0" "mPTLen Sd" zs] n3 len ls by (simp add: numeral_3_eq_3)
  then have "same_rest (Sd\<lparr>mPTLen := put (mPTLen Sd) 0 ls\<rparr>) S5"
    using r5(3) r3(3) r2(3) r1(3) by (simp add: same_rest_def)
  moreover have "window src m (q + length (ser_lens skip ls)) S5" using r5(2) by (simp add: s ac_simps)
  moreover have "ReadPTLen_loop src Sp ?n ?n S5 = Some (?n, S5)" by (subst ReadPTLen_loop.simps) simp
  ultimately show ?thesis using r1(1) step r5(1) by auto
qed

section \<open>Reading a code\<close>

text \<open>The sizes of the arrays.\<close>

definition sizes :: "SCRATCH_DATA \<Rightarrow> bool" where
  "sizes Sd \<longleftrightarrow> length (mLeft Sd) = 2 * NC - 1 \<and> length (mRight Sd) = 2 * NC - 1 \<and> length (mCLen Sd) = NC
     \<and> length (mPTLen Sd) = NPT \<and> length (mCTable Sd) = 4096 \<and> length (mPTTable Sd) = 256"

text \<open>What the reading of a code with at most \<open>n\<close> symbols leaves alone.\<close>

definition pt_frame :: "nat \<Rightarrow> SCRATCH_DATA \<Rightarrow> SCRATCH_DATA \<Rightarrow> bool" where
  "pt_frame n Sd Sd' \<longleftrightarrow>
     mDst Sd' = mDst Sd \<and> mOutBuf Sd' = mOutBuf Sd \<and> mBlockSize Sd' = mBlockSize Sd \<and> mOrigSize Sd' = mOrigSize Sd
     \<and> mBadTableFlag Sd' = mBadTableFlag Sd \<and> mPBit Sd' = mPBit Sd \<and> mCLen Sd' = mCLen Sd \<and> mCTable Sd' = mCTable Sd
     \<and> (\<forall>i. i < n \<or> 2 * n \<le> i + 1 \<longrightarrow> rdx (mLeft Sd') i = rdx (mLeft Sd) i \<and> rdx (mRight Sd') i = rdx (mRight Sd) i)"

lemma put_pad:
  assumes "length ls \<le> n" "n \<le> length xs"
  shows "\<exists>L. fill (put xs 0 ls) (length ls) n 0 = Some L \<and> take n L = pad n ls \<and> length L = length xs"
proof -
  have "put (put xs 0 ls) (length ls) (replicate (n - length ls) 0) = put xs 0 (pad n ls)"
    using put_put [of 0 ls xs "replicate (n - length ls) 0"] assms by (simp add: pad_def)
  then have "fill (put xs 0 ls) (length ls) n 0 = Some (put xs 0 (pad n ls))"
    using fill_put [of "length ls" "n - length ls" "put xs 0 ls" 0] assms by simp
  moreover have "length (pad n ls) = n" using assms by (simp add: pad_def)
  ultimately show ?thesis using assms by (simp add: put_def)
qed

lemma desc_lens:
  assumes "desc_ok n nbit (Inr ls)"
  shows "length ls \<le> n" "list_all (\<lambda>l. l \<le> 16) ls" "length (pad n ls) = n" "complete_code (pad n ls)" "0 < length ls"
    "length ls < 2 ^ nbit"
proof -
  have ok: "length (pad n ls) = n" "complete_code (pad n ls)" "ls \<noteq> []" "length ls < 2 ^ nbit"
    using assms by (auto simp: desc_ok_def)
  then show "length (pad n ls) = n" "complete_code (pad n ls)" "0 < length ls" "length ls < 2 ^ nbit" by simp_all
  show "length ls \<le> n" using ok(1) by (simp add: pad_def)
  show "list_all (\<lambda>l. l \<le> 16) ls" using ok(2) by (simp add: complete_code_def pad_def)
qed

lemma MakeTable_holds:
  assumes cs: "code_size n TB" and c: "length BL = n" "complete_code BL"
    and L: "length L = n + k" "take n L = BL"
    and T: "length T = 2 ^ TB" and Sd: "2 * n - 1 \<le> length (mLeft Sd)" "2 * n - 1 \<le> length (mRight Sd)"
  shows "\<exists>t. MakeTable n L TB (get_tree T Sd) = Some (0, t) \<and> decodes BL TB t \<and> length (tr_Table t) = 2 ^ TB
    \<and> length (tr_Left t) = length (mLeft Sd) \<and> length (tr_Right t) = length (mRight Sd)
    \<and> (\<forall>i. i < n \<or> 2 * n \<le> i + 1 \<longrightarrow> rdx (tr_Left t) i = rdx (mLeft Sd) i \<and> rdx (tr_Right t) i = rdx (mRight Sd) i)"
proof -
  have can: "canonical BL n TB" using canonicalI [OF cs, of BL] c by simp
  have "take n L = take n BL" "n \<le> length L" "n \<le> length BL" using L c(1) by simp_all
  then have "MakeTable n L TB tr = MakeTable n BL TB tr" for tr
    by (simp only: MakeTable_def if_True)
  moreover obtain t where t: "MakeTable n BL TB (get_tree T Sd) = Some (0, t)" "decodes BL TB t"
    "canonical.frame n 0 (get_tree T Sd) t"
    using canonical.MakeTable_decodes [OF can, of "get_tree T Sd"] T Sd by (auto simp: get_tree_def)
  moreover have "rdx (tr_Left t) i = rdx (mLeft Sd) i \<and> rdx (tr_Right t) i = rdx (mRight Sd) i" if "i < n \<or> 2 * n \<le> i + 1" for i
  proof -
    have "\<not> canonical.region n 0 (LeftSlot i)" "\<not> canonical.region n 0 (RightSlot i)"
      using that by (auto simp: canonical.region_def [OF can])
    then have "slot_get t (LeftSlot i) = slot_get (get_tree T Sd) (LeftSlot i)"
      "slot_get t (RightSlot i) = slot_get (get_tree T Sd) (RightSlot i)"
      using t(3) unfolding canonical.frame_def [OF can] by blast+
    then show ?thesis by (simp add: get_tree_def)
  qed
  ultimately show ?thesis using T by (auto simp: canonical.frame_def [OF can] get_tree_def)
qed

lemma ReadPTLen_code:
  assumes w: "window src m q Sd" and a: "at (zbit src m) q (ser_pt nbit skip D)" and ok: "desc_ok n nbit D"
    and sz: "sizes Sd" and n: "code_size n 8" "n \<le> NPT" and nb: "nbit \<le> 16" and Sp: "skip \<and> Sp = 3 \<or> \<not> skip \<and> n < Sp"
  shows "\<exists>Sd'. ReadPTLen src Sd n nbit Sp = Some (0, Sd') \<and> window src m (q + length (ser_pt nbit skip D)) Sd'
    \<and> holds n 8 (code_of n D) (mPTTable Sd') (mPTLen Sd') Sd' \<and> sizes Sd' \<and> pt_frame n Sd Sd'"
proof (cases D)
  case (Inl c)
  have at: "at (zbit src m) q (enc nbit 0)" "at (zbit src m) (q + nbit) (enc nbit c)"
    using a by (simp_all add: Inl at_append)
  have c: "c < n" "c < 2 ^ nbit" using ok by (simp_all add: desc_ok_def Inl)
  from GetBits_window [OF w, of nbit] at_num [OF at(1)] nb obtain S1 where
    r1: "GetBits src Sd nbit = Some (0, S1)" "window src m (q + nbit) S1" "same_rest Sd S1" by auto
  from GetBits_window [OF r1(2), of nbit] at_num [OF at(2) c(2)] nb obtain S2 where
    r2: "GetBits src S1 nbit = Some (c, S2)" "window src m (q + nbit + nbit) S2" "same_rest S1 S2" by auto
  have s2: "mPTTable S2 = mPTTable Sd" "mPTLen S2 = mPTLen Sd" using r1(3) r2(3) by (simp_all add: same_rest_def)
  have f: "fill (mPTTable S2) 0 256 c = Some (replicate 256 c)"
    using sz fill_put [of 0 256 "mPTTable S2" c] s2 by (simp add: sizes_def put_def)
  have l: "n \<le> length (mPTLen Sd)" using sz n(2) by (simp add: sizes_def)
  then have g: "fill (mPTLen S2) 0 n 0 = Some (put (mPTLen Sd) 0 (replicate n 0))"
    using fill_put [of 0 n "mPTLen S2" 0] s2 by simp
  let ?S = "S2\<lparr>mPTTable := replicate 256 c, mPTLen := put (mPTLen Sd) 0 (replicate n 0)\<rparr>"
  have "ReadPTLen src Sd n nbit Sp = Some (0, ?S)" using r1(1) r2(1) f g by (simp add: ReadPTLen_def)
  moreover have "window src m (q + length (ser_pt nbit skip D)) ?S" using r2(2) by (simp add: Inl add.assoc)
  moreover have "holds n 8 (code_of n D) (mPTTable ?S) (mPTLen ?S) ?S"
    using l by (simp add: Inl put_def nth_append)
  moreover have "sizes ?S" "pt_frame n Sd ?S"
    using sz r1(3) r2(3) l by (auto simp: sizes_def same_rest_def pt_frame_def)
  ultimately show ?thesis by blast
next
  case (Inr ls)
  note d = desc_lens [OF ok [unfolded Inr]]
  have at: "at (zbit src m) q (enc nbit (length ls))" "at (zbit src m) (q + nbit) (ser_lens skip ls)"
    using a by (simp_all add: Inr at_append)
  from GetBits_window [OF w, of nbit] at_num [OF at(1) d(6)] nb obtain S1 where
    r1: "GetBits src Sd nbit = Some (length ls, S1)" "window src m (q + nbit) S1" "same_rest Sd S1" by auto
  have s1: "length (mPTLen S1) = NPT" "mPTLen S1 = mPTLen Sd" using r1(3) sz by (simp_all add: same_rest_def sizes_def)
  have "skip \<and> Sp = 3 \<or> \<not> skip \<and> length ls < Sp" using Sp d(1) by auto
  from ReadPTLen_loop_lens [OF r1(2) at(2) d(2) _ this] d(1) n(2) s1 obtain S2 where
    r2: "ReadPTLen_loop src Sp (length ls) 0 S1 = Some (length ls, S2)" "window src m (q + nbit + length (ser_lens skip ls)) S2"
      "same_rest (S1\<lparr>mPTLen := put (mPTLen S1) 0 ls\<rparr>) S2" by auto
  have s2: "mPTLen S2 = put (mPTLen Sd) 0 ls" "mLeft S2 = mLeft Sd" "mRight S2 = mRight Sd" "mPTTable S2 = mPTTable Sd"
    using r2(3) r1(3) by (simp_all add: same_rest_def)
  have l: "n \<le> length (mPTLen Sd)" using sz n(2) by (simp add: sizes_def)
  from put_pad [OF d(1) l] obtain L where L: "fill (mPTLen S2) (length ls) n 0 = Some L" "take n L = pad n ls"
    "length L = length (mPTLen Sd)" using s2 by auto
  have Ln: "length L = n + (length L - n)" using L(3) l by simp
  have "n \<le> NC" using n(2) by (simp add: dec_consts)
  then have z: "length (mPTTable S2) = 2 ^ 8" "2 * n - 1 \<le> length (mLeft S2)" "2 * n - 1 \<le> length (mRight S2)"
    using sz s2 diff_le_mono [of "2 * n" "2 * NC" 1] by (auto simp: sizes_def)
  from MakeTable_holds [OF n(1) d(3,4) Ln L(2) z] obtain t where t: "MakeTable n L 8 (get_tree (mPTTable S2) S2) = Some (0, t)" "decodes (pad n ls) 8 t"
    "length (tr_Table t) = 2 ^ 8" "length (tr_Left t) = length (mLeft S2)" "length (tr_Right t) = length (mRight S2)"
    "\<forall>i. i < n \<or> 2 * n \<le> i + 1 \<longrightarrow> rdx (tr_Left t) i = rdx (mLeft S2) i \<and> rdx (tr_Right t) i = rdx (mRight S2) i"
    by blast
  let ?S = "S2\<lparr>mPTLen := L, mPTTable := tr_Table t, mLeft := tr_Left t, mRight := tr_Right t\<rparr>"
  have "ReadPTLen src Sd n nbit Sp = Some (0, ?S)" using r1(1) r2(1) L(1) t(1) d(5) by (simp add: ReadPTLen_def)
  moreover have "window src m (q + length (ser_pt nbit skip D)) ?S" using r2(2) by (simp add: Inr add.assoc)
  moreover have "get_tree (mPTTable ?S) ?S = t" by (simp add: get_tree_def)
  then have "holds n 8 (code_of n D) (mPTTable ?S) (mPTLen ?S) ?S"
    using l L t(2) by (simp add: Inr)
  moreover have "sizes ?S" "pt_frame n Sd ?S"
    using sz r1(3) r2(3) L t s2 by (auto simp: sizes_def same_rest_def pt_frame_def)
  ultimately show ?thesis by blast
qed

end
