(* ===== verification/DecBlock.thy ===== *)
theory DecBlock
  imports DecFormat
begin

text \<open>The blocks of the format and the reading of the codes at the beginning of a block.\<close>

section \<open>Blocks\<close>

text \<open>The lengths of the main code are sent as items, coded in the first code of the block.\<close>

datatype item = Zero1 | Zero4 nat | Zero9 nat | Len nat

fun item_lens :: "item \<Rightarrow> nat list" where
  "item_lens Zero1 = [0]"
| "item_lens (Zero4 k) = replicate (k + 3) 0"
| "item_lens (Zero9 k) = replicate (k + 20) 0"
| "item_lens (Len l) = [l]"

fun item_sym :: "item \<Rightarrow> nat" where
  "item_sym Zero1 = 0"
| "item_sym (Zero4 k) = 1"
| "item_sym (Zero9 k) = 2"
| "item_sym (Len l) = l + 2"

fun item_extra :: "item \<Rightarrow> bool list" where
  "item_extra (Zero4 k) = enc 4 k"
| "item_extra (Zero9 k) = enc 9 k"
| "item_extra _ = []"

fun item_ok :: "item \<Rightarrow> bool" where
  "item_ok Zero1 = True"
| "item_ok (Zero4 k) = (k < 16)"
| "item_ok (Zero9 k) = (k < 512)"
| "item_ok (Len l) = (0 < l)"

definition ser_item :: "code \<Rightarrow> item \<Rightarrow> bool list" where
  "ser_item T it = code_bits T (item_sym it) @ item_extra it"

definition items_lens :: "item list \<Rightarrow> nat list" where
  "items_lens its = concat (map item_lens its)"

fun main_desc :: "nat + item list \<Rightarrow> code_desc" where
  "main_desc (Inl c) = Inl c"
| "main_desc (Inr its) = Inr (items_lens its)"

fun ser_main :: "code \<Rightarrow> nat + item list \<Rightarrow> bool list" where
  "ser_main T (Inl c) = enc 9 0 @ enc 9 c"
| "ser_main T (Inr its) = enc 9 (length (items_lens its)) @ concat (map (ser_item T) its)"

fun main_ok :: "code \<Rightarrow> nat + item list \<Rightarrow> bool" where
  "main_ok T (Inl c) \<longleftrightarrow> c < NC"
| "main_ok T (Inr its) \<longleftrightarrow> list_all (\<lambda>it. item_ok it \<and> has_code T (item_sym it)) its
     \<and> items_lens its \<noteq> [] \<and> code_ok NC (code_of NC (main_desc (Inr its)))"

lemma holds_upd:
  assumes "holds n TB K T L Sd" "mLeft Sd' = mLeft Sd" "mRight Sd' = mRight Sd"
  shows "holds n TB K T L Sd'"
  using assms by (cases K) (simp_all add: get_tree_def)

lemma ReadCLen_loop_items:
  "window src m q Sd \<Longrightarrow> at (zbit src m) q (concat (map (ser_item K) its)) \<Longrightarrow>
    list_all (\<lambda>it. item_ok it \<and> has_code K (item_sym it)) its \<Longrightarrow> code_ok NT K \<Longrightarrow>
    holds NT 8 K (mPTTable Sd) (mPTLen Sd) Sd \<Longrightarrow> i + length (items_lens its) = n \<Longrightarrow> n \<le> length (mCLen Sd) \<Longrightarrow>
    \<exists>Sd'. ReadCLen_loop src n i Sd = Some (n, Sd') \<and> window src m (q + length (concat (map (ser_item K) its))) Sd'
      \<and> same_rest (Sd\<lparr>mCLen := put (mCLen Sd) i (items_lens its)\<rparr>) Sd'"
proof (induction its arbitrary: i q Sd)
  case Nil
  then show ?case by (subst ReadCLen_loop.simps) (simp add: items_lens_def)
next
  case (Cons it its)
  let ?c = "item_sym it" and ?b = "code_bits K (item_sym it)"
  have at: "at (zbit src m) q ?b" "at (zbit src m) (q + length ?b) (item_extra it)"
    "at (zbit src m) (q + length ?b + length (item_extra it)) (concat (map (ser_item K) its))"
    using Cons.prems(2) by (simp_all add: ser_item_def [of K it] at_append add.assoc)
  have it: "item_ok it" "has_code K ?c" using Cons.prems(3) by simp_all
  have il: "items_lens (it # its) = item_lens it @ items_lens its" by (simp add: items_lens_def)
  have "0 < length (item_lens it)" by (cases it) auto
  then have i: "i < n" using Cons.prems(6) unfolding il length_append by linarith
  have bits: "BITBUFSIZ - 8 = 32 - 8" "BITBUFSIZ - 1 - 8 = 31 - 8" by (simp_all add: BITBUFSIZ_def)
  from holds_lookup [OF Cons.prems(1) code_sizes(2) Cons.prems(4,5) it(2) at(1)] obtain v where
    v: "rdx (mPTTable Sd) (unat (drop_bit (32 - 8) (mBitBuf Sd))) = Some v" "walk NT Sd (2 ^ (31 - 8)) v = Some ?c"
      "rdx (mPTLen Sd) ?c = Some (length ?b)" "length ?b \<le> 16" by blast
  obtain S1 where S1: "FillBuf src Sd (length ?b) = Some S1" "window src m (q + length ?b) S1" "same_rest Sd S1"
    using FillBuf_window [OF Cons.prems(1), of "length ?b"] v(4) by auto
  have L1: "mCLen S1 = mCLen Sd" using S1(3) by (simp add: same_rest_def)
  have n: "i + length (item_lens it) \<le> length (mCLen Sd)" using Cons.prems(6,7) by (simp add: il)
  let ?L = "put (mCLen Sd) i (item_lens it)"
  have "\<exists>S2. ReadCLen_loop src n i Sd = ReadCLen_loop src n (i + length (item_lens it)) (S2\<lparr>mCLen := ?L\<rparr>)
      \<and> window src m (q + length ?b + length (item_extra it)) S2 \<and> same_rest Sd S2"
  proof -
    have zeros: ?thesis if "item_lens it = replicate z 0" "?c \<le> 2" and r: "(if ?c = 0 then Some (1, S1)
        else if ?c = 1 then map_option (\<lambda>(x, S). (x + 3, S)) (GetBits src S1 4)
        else map_option (\<lambda>(x, S). (x + 20, S)) (GetBits src S1 CBIT)) = Some (z, S2)"
        "window src m (q + length ?b + length (item_extra it)) S2" "same_rest S1 S2" for z S2
    proof -
      have "mCLen S2 = mCLen Sd" using L1 r(3) by (simp add: same_rest_def)
      then have "fill (mCLen S2) i (i + z) 0 = Some ?L"
        using fill_put [of i z "mCLen Sd" 0] n that(1) by simp
      then have "ReadCLen_loop src n i Sd = ReadCLen_loop src n (i + z) (S2\<lparr>mCLen := ?L\<rparr>)"
        using i that(2) r(1) S1(1)
        by (subst ReadCLen_loop.simps, simp only: bits v(1-3) bind.bind_lunit if_True prod.case)
      with r(2,3) S1(3) that(1) show ?thesis by (auto intro: same_rest_trans)
    qed
    show ?thesis
    proof (cases it)
      case Zero1
      then show ?thesis using zeros [of 1 S1] S1(2) by simp
    next
      case (Zero4 k)
      from GetBits_window [OF S1(2), of 4] at_num [of _ _ 4 k] at(2) it(1) obtain S2 where
        "GetBits src S1 4 = Some (k, S2)" "window src m (q + length ?b + 4) S2" "same_rest S1 S2" by (auto simp: Zero4)
      then show ?thesis using zeros [of "k + 3" S2] by (simp add: Zero4)
    next
      case (Zero9 k)
      from GetBits_window [OF S1(2), of 9] at_num [of _ _ 9 k] at(2) it(1) obtain S2 where
        "GetBits src S1 9 = Some (k, S2)" "window src m (q + length ?b + 9) S2" "same_rest S1 S2" by (auto simp: Zero9)
      then show ?thesis using zeros [of "k + 20" S2] by (simp add: Zero9 CBIT_def)
    next
      case (Len l)
      then have l: "\<not> ?c \<le> 2" "?c - 2 = l" using it(1) by auto
      have "wrx (mCLen S1) i l = Some ?L" using wrx_put [of i "mCLen Sd" l] n L1 by (simp add: Len)
      then have "ReadCLen_loop src n i Sd = ReadCLen_loop src n (i + 1) (S1\<lparr>mCLen := ?L\<rparr>)"
        using i l S1(1)
        by (subst ReadCLen_loop.simps, simp only: bits v(1-3) bind.bind_lunit if_True if_False)
      with S1 show ?thesis by (auto simp: Len)
    qed
  qed
  then obtain S2 where S2: "ReadCLen_loop src n i Sd = ReadCLen_loop src n (i + length (item_lens it)) (S2\<lparr>mCLen := ?L\<rparr>)"
    "window src m (q + length ?b + length (item_extra it)) S2" "same_rest Sd S2" by blast
  let ?S = "S2\<lparr>mCLen := ?L\<rparr>"
  have "\<exists>Sd'. ReadCLen_loop src n (i + length (item_lens it)) ?S = Some (n, Sd')
      \<and> window src m (q + length ?b + length (item_extra it) + length (concat (map (ser_item K) its))) Sd'
      \<and> same_rest (?S\<lparr>mCLen := put (mCLen ?S) (i + length (item_lens it)) (items_lens its)\<rparr>) Sd'"
  proof (rule Cons.IH)
    show "holds NT 8 K (mPTTable ?S) (mPTLen ?S) ?S"
      using Cons.prems(5) S2(3) holds_upd [of NT 8 K "mPTTable Sd" "mPTLen Sd" Sd ?S] by (simp add: same_rest_def)
  qed (use Cons.prems at(3) S2(2) n in \<open>auto simp: il\<close>)
  moreover have "put ?L (i + length (item_lens it)) (items_lens its) = put (mCLen Sd) i (items_lens (it # its))"
    using put_put [OF n] by (simp add: il)
  ultimately show ?case using S2(1,3) by (auto simp: ser_item_def [of K it] same_rest_def add.assoc)
qed

text \<open>What the reading of codes leaves alone in any case.\<close>

definition cframe :: "SCRATCH_DATA \<Rightarrow> SCRATCH_DATA \<Rightarrow> bool" where
  "cframe Sd Sd' \<longleftrightarrow>
     mDst Sd' = mDst Sd \<and> mOutBuf Sd' = mOutBuf Sd \<and> mOrigSize Sd' = mOrigSize Sd \<and> mPBit Sd' = mPBit Sd"

lemma cframe_trans: "cframe A B \<Longrightarrow> cframe B C \<Longrightarrow> cframe A C"
  by (simp add: cframe_def)

lemma ReadCLen_code:
  assumes w: "window src m q Sd" and a: "at (zbit src m) q (ser_main K D)" and ok: "main_ok K D" "code_ok NT K"
    and sz: "sizes Sd" and h: "holds NT 8 K (mPTTable Sd) (mPTLen Sd) Sd"
  shows "\<exists>Sd'. ReadCLen src Sd = Some Sd' \<and> window src m (q + length (ser_main K D)) Sd'
    \<and> holds NC 12 (code_of NC (main_desc D)) (mCTable Sd') (mCLen Sd') Sd' \<and> sizes Sd' \<and> cframe Sd Sd'
    \<and> mBlockSize Sd' = mBlockSize Sd"
proof (cases D)
  case (Inl c)
  have at: "at (zbit src m) q (enc 9 0)" "at (zbit src m) (q + 9) (enc 9 c)"
    using a by (simp_all add: Inl at_append)
  have c: "c < NC" using ok by (simp add: Inl)
  then have c9: "c < 2 ^ 9" by (simp add: dec_consts)
  from GetBits_window [OF w, of 9] at_num [OF at(1)] obtain S1 where
    r1: "GetBits src Sd 9 = Some (0, S1)" "window src m (q + 9) S1" "same_rest Sd S1" by auto
  from GetBits_window [OF r1(2), of 9] at_num [OF at(2) c9] obtain S2 where
    r2: "GetBits src S1 9 = Some (c, S2)" "window src m (q + 9 + 9) S2" "same_rest S1 S2" by auto
  have s2: "mCTable S2 = mCTable Sd" "mCLen S2 = mCLen Sd" using r1(3) r2(3) by (simp_all add: same_rest_def)
  have f: "fill (mCTable S2) 0 4096 c = Some (replicate 4096 c)"
    using sz fill_put [of 0 4096 "mCTable S2" c] s2 by (simp add: sizes_def put_def)
  have g: "fill (mCLen S2) 0 NC 0 = Some (replicate NC 0)"
    using sz fill_put [of 0 NC "mCLen S2" 0] s2 by (simp add: sizes_def put_def)
  let ?S = "S2\<lparr>mCLen := replicate NC 0, mCTable := replicate 4096 c\<rparr>"
  have "ReadCLen src Sd = Some ?S" using r1(1) r2(1) f g by (simp add: ReadCLen_def CBIT_def)
  moreover have "window src m (q + length (ser_main K D)) ?S" using r2(2) by (simp add: Inl add.commute)
  moreover have "holds NC 12 (code_of NC (main_desc D)) (mCTable ?S) (mCLen ?S) ?S" by (simp add: Inl)
  moreover have "sizes ?S" "cframe Sd ?S" "mBlockSize ?S = mBlockSize Sd"
    using sz r1(3) r2(3) by (auto simp: sizes_def same_rest_def cframe_def)
  ultimately show ?thesis by blast
next
  case (Inr its)
  let ?ls = "items_lens its"
  have iok: "list_all (\<lambda>it. item_ok it \<and> has_code K (item_sym it)) its" "?ls \<noteq> []" "length (pad NC ?ls) = NC"
    "complete_code (pad NC ?ls)"
    using ok(1) by (simp_all add: Inr)
  then have lN: "length ?ls \<le> NC" by (simp add: pad_def)
  then have l9: "length ?ls < 2 ^ 9" by (simp add: dec_consts)
  have at: "at (zbit src m) q (enc 9 (length ?ls))" "at (zbit src m) (q + 9) (concat (map (ser_item K) its))"
    using a by (simp_all add: Inr at_append)
  from GetBits_window [OF w, of 9] at_num [OF at(1) l9] obtain S1 where
    r1: "GetBits src Sd 9 = Some (length ?ls, S1)" "window src m (q + 9) S1" "same_rest Sd S1" by auto
  have s1: "mCLen S1 = mCLen Sd" "mPTTable S1 = mPTTable Sd" "mPTLen S1 = mPTLen Sd" "mLeft S1 = mLeft Sd" "mRight S1 = mRight Sd"
    using r1(3) by (simp_all add: same_rest_def)
  have h1: "holds NT 8 K (mPTTable S1) (mPTLen S1) S1" using holds_upd [OF h s1(4,5)] s1 by simp
  have lC: "length (mCLen S1) = NC" using sz s1 by (simp add: sizes_def)
  from ReadCLen_loop_items [OF r1(2) at(2) iok(1) ok(2) h1, of 0] lN lC obtain S2 where
    r2: "ReadCLen_loop src (length ?ls) 0 S1 = Some (length ?ls, S2)"
      "window src m (q + 9 + length (concat (map (ser_item K) its))) S2"
      "same_rest (S1\<lparr>mCLen := put (mCLen S1) 0 ?ls\<rparr>) S2" by auto
  have s2: "mCLen S2 = put (mCLen Sd) 0 ?ls" "mLeft S2 = mLeft Sd" "mRight S2 = mRight Sd" "mCTable S2 = mCTable Sd"
    using r2(3) s1 r1(3) by (simp_all add: same_rest_def)
  have lS: "NC \<le> length (mCLen Sd)" using sz by (simp add: sizes_def)
  from put_pad [OF lN lS] obtain L where L: "fill (mCLen S2) (length ?ls) NC 0 = Some L" "take NC L = pad NC ?ls"
    "length L = length (mCLen Sd)" using s2 by auto
  have Ln: "length L = NC + 0" using L(3) sz by (simp add: sizes_def)
  have z: "length (mCTable S2) = 2 ^ 12" "2 * NC - 1 \<le> length (mLeft S2)" "2 * NC - 1 \<le> length (mRight S2)"
    using sz s2 by (auto simp: sizes_def)
  from MakeTable_holds [OF code_sizes(1) iok(3,4) Ln L(2) z] obtain t where
    t: "MakeTable NC L 12 (get_tree (mCTable S2) S2) = Some (0, t)" "decodes (pad NC ?ls) 12 t"
    "length (tr_Table t) = 2 ^ 12" "length (tr_Left t) = length (mLeft S2)" "length (tr_Right t) = length (mRight S2)"
    by blast
  let ?S = "S2\<lparr>mCLen := L, mCTable := tr_Table t, mLeft := tr_Left t, mRight := tr_Right t\<rparr>"
  have "ReadCLen src Sd = Some ?S" using r1(1) r2(1) L(1) t(1) iok(2) by (simp add: ReadCLen_def CBIT_def)
  moreover have "window src m (q + length (ser_main K D)) ?S" using r2(2) by (simp add: Inr add.assoc)
  moreover have "get_tree (mCTable ?S) ?S = t" by (simp add: get_tree_def)
  then have "holds NC 12 (code_of NC (main_desc D)) (mCTable ?S) (mCLen ?S) ?S"
    using Ln L t(2) by (simp add: Inr)
  moreover have "sizes ?S" "cframe Sd ?S" "mBlockSize ?S = mBlockSize Sd"
    using sz r1(3) r2(3) L t s2 by (auto simp: sizes_def same_rest_def cframe_def)
  ultimately show ?thesis by blast
qed

section \<open>The beginning of a block\<close>

text \<open>A literal, or the copy of a number of bytes from a distance of \<open>p + 1\<close>.\<close>

datatype token = Lit u8 | Copy nat nat

record block =
  bk_toks :: "token list"
  bk_T :: code_desc
  bk_C :: "nat + item list"
  bk_P :: code_desc

abbreviation bk_len :: "block \<Rightarrow> nat" where "bk_len b \<equiv> length (bk_toks b)"

definition ser_codes :: "nat \<Rightarrow> block \<Rightarrow> bool list" where
  "ser_codes pbit b =
     enc 16 (bk_len b) @ ser_pt TBIT True (bk_T b) @ ser_main (code_of NT (bk_T b)) (bk_C b) @ ser_pt pbit False (bk_P b)"

definition codes_ok :: "nat \<Rightarrow> block \<Rightarrow> bool" where
  "codes_ok pbit b \<longleftrightarrow> bk_len b < 2 ^ 16 \<and> desc_ok NT TBIT (bk_T b) \<and> main_ok (code_of NT (bk_T b)) (bk_C b)
     \<and> desc_ok MAXNP pbit (bk_P b)"

definition code_C :: "block \<Rightarrow> code" where "code_C b = code_of NC (main_desc (bk_C b))"
definition code_P :: "block \<Rightarrow> code" where "code_P b = code_of MAXNP (bk_P b)"

text \<open>The scratch buffer holds the codes of the block.\<close>

definition in_block :: "block \<Rightarrow> SCRATCH_DATA \<Rightarrow> bool" where
  "in_block b Sd \<longleftrightarrow> holds NC 12 (code_C b) (mCTable Sd) (mCLen Sd) Sd
     \<and> holds MAXNP 8 (code_P b) (mPTTable Sd) (mPTLen Sd) Sd \<and> sizes Sd"

lemma StartBlock_codes:
  assumes w: "window src m q Sd" and a: "at (zbit src m) q (ser_codes (mPBit Sd) b)" and ok: "codes_ok (mPBit Sd) b"
    and sz: "sizes Sd" and pb: "mPBit Sd \<le> 16"
  shows "\<exists>Sd'. StartBlock src Sd = Some (True, Sd') \<and> window src m (q + length (ser_codes (mPBit Sd) b)) Sd'
    \<and> in_block b Sd' \<and> cframe Sd Sd' \<and> mBlockSize Sd' = bk_len b \<and> mBadTableFlag Sd' = 0"
proof -
  let ?K = "code_of NT (bk_T b)"
  let ?t = "ser_pt TBIT True (bk_T b)" and ?c = "ser_main ?K (bk_C b)" and ?p = "ser_pt (mPBit Sd) False (bk_P b)"
  have at: "at (zbit src m) q (enc 16 (bk_len b))" "at (zbit src m) (q + 16) ?t" "at (zbit src m) (q + 16 + length ?t) ?c"
    "at (zbit src m) (q + 16 + length ?t + length ?c) ?p"
    using a by (simp_all add: ser_codes_def at_append add.assoc)
  have ok': "bk_len b < 2 ^ 16" "desc_ok NT TBIT (bk_T b)" "main_ok ?K (bk_C b)" "desc_ok MAXNP (mPBit Sd) (bk_P b)" "code_ok NT ?K"
    using ok by (simp_all add: codes_ok_def desc_ok_def)
  from GetBits_window [OF w, of 16] at_num [OF at(1) ok'(1)] obtain S1 where
    r1: "GetBits src Sd 16 = Some (bk_len b, S1)" "window src m (q + 16) S1" "same_rest Sd S1" by auto
  let ?S1 = "S1\<lparr>mBlockSize := bk_len b\<rparr>"
  have w1: "window src m (q + 16) ?S1" using r1(2) by simp
  have sz1: "sizes ?S1" using sz r1(3) by (simp add: sizes_def same_rest_def)
  have "NT \<le> NPT" "TBIT \<le> 16" by (simp_all add: dec_consts)
  from ReadPTLen_code [OF w1 at(2) ok'(2) sz1 code_sizes(2) this, of 3] obtain S2 where
    r2: "ReadPTLen src ?S1 NT TBIT 3 = Some (0, S2)" "window src m (q + 16 + length ?t) S2"
      "holds NT 8 ?K (mPTTable S2) (mPTLen S2) S2" "sizes S2" "pt_frame NT ?S1 S2" by auto
  let ?S2 = "S2\<lparr>mBadTableFlag := 0\<rparr>"
  have w2: "window src m (q + 16 + length ?t) ?S2" "sizes ?S2" "holds NT 8 ?K (mPTTable ?S2) (mPTLen ?S2) ?S2"
    using r2 holds_upd [OF r2(3), of ?S2] by (simp_all add: sizes_def)
  from ReadCLen_code [OF w2(1) at(3) ok'(3,5) w2(2,3)] obtain S3 where
    r3: "ReadCLen src ?S2 = Some S3" "window src m (q + 16 + length ?t + length ?c) S3"
      "holds NC 12 (code_C b) (mCTable S3) (mCLen S3) S3" "sizes S3" "cframe ?S2 S3" "mBlockSize S3 = mBlockSize ?S2"
    by (auto simp: code_C_def)
  have pS3: "mPBit S3 = mPBit Sd" using r3(5) r2(5) r1(3) by (simp add: cframe_def pt_frame_def same_rest_def)
  have "MAXNP \<le> NPT" "\<not> False \<and> MAXNP < (0xFFFF :: nat)" by (simp_all add: dec_consts)
  with ReadPTLen_code [OF r3(2) at(4) ok'(4) r3(4) code_sizes(3) _ pb, of "0xFFFF"] obtain S4 where
    r4: "ReadPTLen src S3 MAXNP (mPBit Sd) 0xFFFF = Some (0, S4)" "window src m (q + 16 + length ?t + length ?c + length ?p) S4"
      "holds MAXNP 8 (code_P b) (mPTTable S4) (mPTLen S4) S4" "sizes S4" "pt_frame MAXNP S3 S4" by (auto simp: code_P_def)
  let ?S4 = "S4\<lparr>mBadTableFlag := 0\<rparr>"
  have "holds NC 12 (code_C b) (mCTable S4) (mCLen S4) S4"
  proof (cases "code_C b")
    case (One c)
    with r3(3) r4(5) show ?thesis by (simp add: pt_frame_def)
  next
    case (Lens BL)
    then have BL: "NC \<le> length (mCLen S3)" "take NC (mCLen S3) = BL" "decodes BL 12 (get_tree (mCTable S3) S3)"
      using r3(3) by simp_all
    then have "length BL = NC" by auto
    moreover have "2 * MAXNP \<le> i + 1" if "NC \<le> i" for i using that by (simp add: dec_consts)
    ultimately have "decodes BL 12 (get_tree (mCTable S4) S4)"
      by (intro decodes_frame [OF BL(3)]) (use r4(5) in \<open>auto simp: pt_frame_def get_tree_def\<close>)
    with BL Lens r4(5) show ?thesis by (simp add: pt_frame_def)
  qed
  with r4(3,4) have ib: "in_block b ?S4"
    using holds_upd [of NC 12 "code_C b" "mCTable S4" "mCLen S4" S4 ?S4]
      holds_upd [of MAXNP 8 "code_P b" "mPTTable S4" "mPTLen S4" S4 ?S4]
    by (simp add: in_block_def sizes_def)
  have "cframe Sd ?S4" using r4(5) r3(5) r2(5) r1(3) by (simp add: cframe_def pt_frame_def same_rest_def)
  moreover have "mBlockSize ?S4 = bk_len b" using r4(5) r3(6) r2(5) by (simp add: pt_frame_def)
  moreover have "StartBlock src Sd = Some (True, ?S4)"
    using r1(1) r2(1) r3(1) r4(1) pS3 by (simp add: StartBlock_def)
  moreover have "window src m (q + length (ser_codes (mPBit Sd) b)) ?S4"
    using r4(2) by (simp add: ser_codes_def add.assoc)
  ultimately show ?thesis using ib by auto
qed

end
