(* ===== verification/DecRoundtrip.thy ===== *)
theory DecRoundtrip
  imports DecBlock
begin

text \<open>The tokens of the blocks, what they expand to, and the decoding of a whole stream.\<close>

section \<open>Tokens\<close>

text \<open>The class of a position is its number of bits.\<close>

fun nbits :: "nat \<Rightarrow> nat" where
  "nbits n = (if n = 0 then 0 else Suc (nbits (n div 2)))"

declare nbits.simps [simp del]

fun tok_sym :: "token \<Rightarrow> nat" where
  "tok_sym (Lit x) = unat x"
| "tok_sym (Copy l p) = l + 253"

definition ser_pos :: "code \<Rightarrow> nat \<Rightarrow> bool list" where
  "ser_pos P p = code_bits P (nbits p) @ (if 1 < nbits p then enc (nbits p - 1) (p - 2 ^ (nbits p - 1)) else [])"

fun ser_tok :: "block \<Rightarrow> token \<Rightarrow> bool list" where
  "ser_tok b (Lit x) = code_bits (code_C b) (unat x)"
| "ser_tok b (Copy l p) = code_bits (code_C b) (l + 253) @ ser_pos (code_P b) p"

fun tok_ok :: "block \<Rightarrow> token \<Rightarrow> bool" where
  "tok_ok b (Lit x) \<longleftrightarrow> has_code (code_C b) (unat x)"
| "tok_ok b (Copy l p) \<longleftrightarrow> has_code (code_C b) (l + 253) \<and> 3 \<le> l \<and> has_code (code_P b) (nbits p)"

text \<open>Copies may overlap with their own result.\<close>

fun copy_out :: "'a list \<Rightarrow> nat \<Rightarrow> nat \<Rightarrow> 'a list" where
  "copy_out out p 0 = out"
| "copy_out out p (Suc l) = copy_out (out @ [out ! (length out - 1 - p)]) p l"

fun expand_tok :: "u8 list \<Rightarrow> token \<Rightarrow> u8 list" where
  "expand_tok out (Lit x) = out @ [x]"
| "expand_tok out (Copy l p) = copy_out out p l"

definition expand :: "u8 list \<Rightarrow> token list \<Rightarrow> u8 list" where
  "expand = foldl expand_tok"

text \<open>A copy does not reach before the beginning of the output, and nothing is written behind its end.\<close>

fun tok_fits :: "nat \<Rightarrow> u8 list \<Rightarrow> token \<Rightarrow> bool" where
  "tok_fits N out (Lit x) \<longleftrightarrow> length out < N"
| "tok_fits N out (Copy l p) \<longleftrightarrow> p < length out \<and> length out + l \<le> N"

fun toks_fit :: "nat \<Rightarrow> u8 list \<Rightarrow> token list \<Rightarrow> bool" where
  "toks_fit N out [] \<longleftrightarrow> True"
| "toks_fit N out (t # ts) \<longleftrightarrow> tok_fits N out t \<and> toks_fit N (expand_tok out t) ts"

lemma expand_simps [simp]: "expand out [] = out" "expand out (t # ts) = expand (expand_tok out t) ts"
  "expand out (ts @ us) = expand (expand out ts) us"
  by (simp_all add: expand_def)

lemma toks_fit_append: "toks_fit N out (ts @ us) \<longleftrightarrow> toks_fit N out ts \<and> toks_fit N (expand out ts) us"
  by (induction ts arbitrary: out) auto

lemma length_copy_out [simp]: "length (copy_out out p l) = length out + l"
  by (induction l arbitrary: out) auto

lemma nbits_bounds: "0 < n \<Longrightarrow> 2 ^ (nbits n - 1) \<le> n \<and> n < 2 ^ nbits n"
proof (induction n rule: nbits.induct)
  case (1 n)
  show ?case
  proof (cases "n = 1")
    case True
    then show ?thesis by (simp add: nbits.simps)
  next
    case False
    then have "0 < n div 2" using 1(2) by simp
    with 1 have IH: "2 ^ (nbits (n div 2) - 1) \<le> n div 2" "n div 2 < 2 ^ nbits (n div 2)" by auto
    have "0 < nbits (n div 2)" using \<open>0 < n div 2\<close> by (subst nbits.simps) simp
    then obtain k where k: "nbits (n div 2) = Suc k" by (cases "nbits (n div 2)") auto
    have "nbits n = Suc (Suc k)" using 1(2) k by (subst nbits.simps) simp
    with IH k show ?thesis by auto
  qed
qed

section \<open>The output\<close>

definition dinv :: "nat \<Rightarrow> u8 list \<Rightarrow> SCRATCH_DATA \<Rightarrow> bool" where
  "dinv N out Sd \<longleftrightarrow> N < 2 ^ 32 \<and> mOrigSize Sd = N \<and> mOutBuf Sd = length out \<and> length out \<le> N
     \<and> length (mDst Sd) = N \<and> take (length out) (mDst Sd) = out \<and> mBadTableFlag Sd = 0"

lemma put_out:
  assumes "length out < length D" "take (length out) D = out"
  shows "take (Suc (length out)) (D[length out := x]) = out @ [x]"
  using assms by (simp add: take_Suc_conv_app_nth)

lemma CopyBytes_copy:
  "dinv N out Sd \<Longrightarrow> p < length out \<Longrightarrow> length out + l \<le> N \<Longrightarrow> i = length out - 1 - p \<Longrightarrow>
    \<exists>D. CopyBytes l i Sd = Some (0 < l \<and> length out + l = N, Sd\<lparr>mDst := D, mOutBuf := length out + l\<rparr>)
      \<and> dinv N (copy_out out p l) (Sd\<lparr>mDst := D, mOutBuf := length out + l\<rparr>)"
proof (induction l arbitrary: out Sd i)
  case 0
  then have "Sd\<lparr>mDst := mDst Sd, mOutBuf := length out + 0\<rparr> = Sd" by (simp add: dinv_def)
  with 0 show ?case by (intro exI [of _ "mDst Sd"]) simp
next
  case (Suc l)
  have d: "N < 2 ^ 32" "mOrigSize Sd = N" "mOutBuf Sd = length out" "length (mDst Sd) = N"
    "take (length out) (mDst Sd) = out" "mBadTableFlag Sd = 0" using Suc.prems(1) by (simp_all add: dinv_def)
  let ?x = "out ! (length out - 1 - p)"
  have i: "i < length out" "i < N" using Suc.prems by auto
  have "mDst Sd ! i = take (length out) (mDst Sd) ! i" using i by simp
  then have x: "rdx (mDst Sd) i = Some ?x" using i d Suc.prems(4) by (simp add: rdx_def)
  let ?S = "Sd\<lparr>mDst := (mDst Sd)[length out := ?x], mOutBuf := length (out @ [?x])\<rparr>"
  have d': "dinv N (out @ [?x]) ?S"
    using d Suc.prems put_out [of out "mDst Sd" ?x] by (simp add: dinv_def)
  have w: "wrx (mDst Sd) (mOutBuf Sd) ?x = Some ((mDst Sd)[length out := ?x])"
    using d Suc.prems by (simp add: wrx_def)
  have m: "(mOutBuf Sd + 1) mod 2 ^ 32 = length (out @ [?x])" "(i + 1) mod 2 ^ 32 = length (out @ [?x]) - 1 - p"
    using d Suc.prems i by simp_all
  show ?case
  proof (cases "l = 0")
    case True
    with x w m d d' Suc.prems(3) show ?thesis
      by (intro exI [of _ "(mDst Sd)[length out := ?x]"]) (cases "Suc (length out) = N"; simp add: Let_def)
  next
    case False
    have "\<exists>D. CopyBytes l (length (out @ [?x]) - 1 - p) ?S = Some (0 < l \<and> length (out @ [?x]) + l = N, ?S\<lparr>mDst := D, mOutBuf := length (out @ [?x]) + l\<rparr>)
      \<and> dinv N (copy_out (out @ [?x]) p l) (?S\<lparr>mDst := D, mOutBuf := length (out @ [?x]) + l\<rparr>)"
      by (rule Suc.IH [OF d']) (use Suc.prems in auto)
    moreover have "\<not> N \<le> length (out @ [?x])" using Suc.prems(3) False by simp
    then have "CopyBytes (Suc l) i Sd = CopyBytes l (length (out @ [?x]) - 1 - p) ?S"
      unfolding CopyBytes.simps x w bind.bind_lunit Let_def m using d by simp
    ultimately show ?thesis using False by auto
  qed
qed

section \<open>One token\<close>

lemma dinv_rest: "dinv N out Sd \<Longrightarrow> same_rest Sd Sd' \<Longrightarrow> dinv N out Sd'"
  by (simp add: dinv_def same_rest_def)

lemma in_block_rest: "in_block b Sd \<Longrightarrow> same_rest Sd Sd' \<Longrightarrow> in_block b Sd'"
  using holds_upd [of NC 12 "code_C b" "mCTable Sd" "mCLen Sd" Sd Sd']
    holds_upd [of MAXNP 8 "code_P b" "mPTTable Sd" "mPTLen Sd" Sd Sd']
  by (simp add: in_block_def sizes_def same_rest_def)

lemma DecodeC_sym:
  assumes w: "window src m q Sd" and b: "in_block b Sd" and ok: "code_ok NC (code_C b)" and c: "has_code (code_C b) c"
    and a: "at (zbit src m) q (code_bits (code_C b) c)" and n: "mBlockSize Sd = Suc k" "k < 2 ^ 16 - 1"
  shows "\<exists>Sd'. DecodeC src Sd = Some (c, Sd') \<and> window src m (q + length (code_bits (code_C b) c)) Sd'
    \<and> same_rest (Sd\<lparr>mBlockSize := k\<rparr>) Sd'"
proof -
  let ?S = "Sd\<lparr>mBlockSize := k\<rparr>"
  have w': "window src m q ?S" using w by simp
  have h: "holds NC 12 (code_C b) (mCTable ?S) (mCLen ?S) ?S"
    using b holds_upd [of NC 12 "code_C b" "mCTable Sd" "mCLen Sd" Sd ?S] by (simp add: in_block_def)
  have bits: "BITBUFSIZ - 12 = 32 - 12" "BITBUFSIZ - 1 - 12 = 31 - 12" by (simp_all add: BITBUFSIZ_def)
  from holds_lookup [OF w' code_sizes(1) ok h c a] obtain v where
    v: "rdx (mCTable ?S) (unat (drop_bit (32 - 12) (mBitBuf ?S))) = Some v" "walk NC ?S (2 ^ (31 - 12)) v = Some c"
      "rdx (mCLen ?S) c = Some (length (code_bits (code_C b) c))" "length (code_bits (code_C b) c) \<le> 16" by blast
  obtain S1 where S1: "FillBuf src ?S (length (code_bits (code_C b) c)) = Some S1"
    "window src m (q + length (code_bits (code_C b) c)) S1" "same_rest ?S S1"
    using FillBuf_window [OF w', of "length (code_bits (code_C b) c)"] v(4) by auto
  have k: "(mBlockSize Sd + 0xFFFF) mod 2 ^ 16 = k" "mBlockSize Sd \<noteq> 0" using n by simp_all
  have "DecodeC src Sd = Some (c, S1)"
    unfolding DecodeC_def if_not_P [OF k(2)] bind.bind_lunit prod.case Let_def k(1) bits v S1(1) simp_thms if_False ..
  with S1 show ?thesis by blast
qed

lemma DecodeP_pos:
  assumes w: "window src m q Sd" and b: "in_block b Sd" and ok: "code_ok MAXNP (code_P b)" and c: "has_code (code_P b) (nbits p)"
    and a: "at (zbit src m) q (ser_pos (code_P b) p)"
  shows "\<exists>Sd'. DecodeP src Sd = Some (p, Sd') \<and> window src m (q + length (ser_pos (code_P b) p)) Sd' \<and> same_rest Sd Sd'"
proof -
  let ?k = "nbits p" and ?b = "code_bits (code_P b) (nbits p)"
  have at: "at (zbit src m) q ?b" using a by (simp add: ser_pos_def at_append)
  have h: "holds MAXNP 8 (code_P b) (mPTTable Sd) (mPTLen Sd) Sd" using b by (simp add: in_block_def)
  have bits: "BITBUFSIZ - 8 = 32 - 8" "BITBUFSIZ - 1 - 8 = 31 - 8" by (simp_all add: BITBUFSIZ_def)
  from holds_lookup [OF w code_sizes(3) ok h c at] obtain v where
    v: "rdx (mPTTable Sd) (unat (drop_bit (32 - 8) (mBitBuf Sd))) = Some v" "walk MAXNP Sd (2 ^ (31 - 8)) v = Some ?k"
      "rdx (mPTLen Sd) ?k = Some (length ?b)" "length ?b \<le> 16" by blast
  obtain S1 where S1: "FillBuf src Sd (length ?b) = Some S1" "window src m (q + length ?b) S1" "same_rest Sd S1"
    using FillBuf_window [OF w, of "length ?b"] v(4) by auto
  have k31: "?k < 31" using c ok by (cases "code_P b") (auto simp: dec_consts)
  show ?thesis
  proof (cases "1 < ?k")
    case False
    then have "p = ?k" using nbits_bounds [of p] by (cases "p = 0") (auto simp: nbits.simps [of 0] le_Suc_eq not_less)
    have "DecodeP src Sd = Some (?k, S1)"
      unfolding DecodeP_def bits v bind.bind_lunit S1(1) if_not_P [OF False] ..
    with S1 False \<open>p = ?k\<close> show ?thesis by (simp add: ser_pos_def)
  next
    case True
    then have "0 < p" by (cases "p = 0") (auto simp: nbits.simps [of 0])
    then have p: "2 ^ (?k - 1) \<le> p" "p < 2 ^ ?k" using nbits_bounds [of p] by auto
    have "(2::nat) ^ ?k = 2 ^ (?k - 1) + 2 ^ (?k - 1)" using True by (cases ?k) auto
    then have x: "p - 2 ^ (?k - 1) < 2 ^ (?k - 1)" using p by simp
    have a2: "at (zbit src m) (q + length ?b) (enc (?k - 1) (p - 2 ^ (?k - 1)))"
      using a True by (simp add: ser_pos_def at_append)
    have "?k - 1 < 32" using k31 by linarith
    from GetBits_window [OF S1(2) this] at_num [OF a2 x] obtain S2 where
      S2: "GetBits src S1 (?k - 1) = Some (p - 2 ^ (?k - 1), S2)" "window src m (q + length ?b + (?k - 1)) S2" "same_rest S1 S2"
      by auto
    have "DecodeP src Sd = Some (2 ^ (?k - 1) + (p - 2 ^ (?k - 1)), S2)"
      unfolding DecodeP_def bits v bind.bind_lunit S1(1) if_P [OF True] S2(1) prod.case ..
    moreover have "2 ^ (?k - 1) + (p - 2 ^ (?k - 1)) = p" using p(1) by simp
    moreover have "window src m (q + length (ser_pos (code_P b) p)) S2" using S2(2) True by (simp add: ser_pos_def add.assoc)
    ultimately show ?thesis using same_rest_trans [OF S1(3) S2(3)] by simp
  qed
qed

lemma in_block_out: "in_block b (Sd\<lparr>mDst := D, mOutBuf := o'\<rparr>) \<longleftrightarrow> in_block b Sd" "in_block b (Sd\<lparr>mBlockSize := k\<rparr>) \<longleftrightarrow> in_block b Sd"
  by (cases "code_C b"; cases "code_P b"; simp add: in_block_def sizes_def get_tree_def)+

lemma Decode_lit:
  assumes w: "window src m q Sd" and b: "in_block b Sd" and ok: "code_ok NC (code_C b)"
    and t: "tok_ok b (Lit x)" and a: "at (zbit src m) q (ser_tok b (Lit x))" and n: "mBlockSize Sd = Suc k" "k < 2 ^ 16 - 1"
    and d: "dinv N out Sd" and f: "length out < N"
  shows "\<exists>Sd'. Decode src Sd = Decode src Sd' \<and> window src m (q + length (ser_tok b (Lit x))) Sd' \<and> in_block b Sd'
      \<and> mBlockSize Sd' = k \<and> mPBit Sd' = mPBit Sd \<and> dinv N (out @ [x]) Sd'"
proof -
  from DecodeC_sym [OF w b ok _ _ n, of "unat x"] t a obtain S1 where
    S1: "DecodeC src Sd = Some (unat x, S1)" "window src m (q + length (ser_tok b (Lit x))) S1" "same_rest (Sd\<lparr>mBlockSize := k\<rparr>) S1"
    by auto
  have s: "mBadTableFlag S1 = 0" "mOutBuf S1 = length out" "mOrigSize S1 = N" "mDst S1 = mDst Sd" "mBlockSize S1 = k" "mPBit S1 = mPBit Sd"
    and d0: "length (mDst Sd) = N" "take (length out) (mDst Sd) = out" "N < 2 ^ 32"
    using S1(3) d by (simp_all add: same_rest_def dinv_def)
  let ?S = "S1\<lparr>mDst := (mDst Sd)[length out := x], mOutBuf := length out + 1\<rparr>"
  have "unat x < 256" by (rule order.strict_trans2 [OF unsigned_less]) simp
  then have "Decode src Sd = Decode src ?S"
    using s f d0 by (subst Decode.simps) (simp add: S1(1) wrx_def)
  moreover have "dinv N (out @ [x]) ?S" using s f d0 put_out [of out "mDst Sd" x] by (simp add: dinv_def)
  moreover have "in_block b ?S"
    using in_block_rest [OF _ S1(3)] b by (simp add: in_block_out)
  ultimately show ?thesis using S1(2) s by (intro exI [of _ ?S]) simp
qed

text \<open>A copy, up to the loop that moves the bytes.\<close>

lemma Decode_copy:
  assumes w: "window src m q Sd" and b: "in_block b Sd" and ok: "code_ok NC (code_C b)" "code_ok MAXNP (code_P b)"
    and t: "tok_ok b (Copy l p)" and a: "at (zbit src m) q (ser_tok b (Copy l p))"
    and n: "mBlockSize Sd = Suc k" "k < 2 ^ 16 - 1" and d: "dinv N out Sd" and f: "p < length out"
  shows "\<exists>S. Decode src Sd = do { (full, Sd3) \<leftarrow> CopyBytes l (length out - 1 - p) S; if full then Some Sd3 else Decode src Sd3 }
      \<and> window src m (q + length (ser_tok b (Copy l p))) S \<and> in_block b S
      \<and> mBlockSize S = k \<and> mPBit S = mPBit Sd \<and> dinv N out S"
proof -
  have at: "at (zbit src m) q (code_bits (code_C b) (l + 253))"
    "at (zbit src m) (q + length (code_bits (code_C b) (l + 253))) (ser_pos (code_P b) p)"
    using a by (simp_all add: at_append)
  have tk: "has_code (code_C b) (l + 253)" "3 \<le> l" "has_code (code_P b) (nbits p)" using t by simp_all
  from DecodeC_sym [OF w b ok(1) tk(1) at(1) n] obtain S1 where
    S1: "DecodeC src Sd = Some (l + 253, S1)" "window src m (q + length (code_bits (code_C b) (l + 253))) S1"
      "same_rest (Sd\<lparr>mBlockSize := k\<rparr>) S1" by blast
  have b1: "in_block b S1" using in_block_rest [OF _ S1(3)] b by (simp add: in_block_out)
  from DecodeP_pos [OF S1(2) b1 ok(2) tk(3) at(2)] obtain S2 where
    S2: "DecodeP src S1 = Some (p, S2)" "window src m (q + length (ser_tok b (Copy l p))) S2" "same_rest S1 S2"
    by (auto simp: add.assoc)
  have "dinv N out (Sd\<lparr>mBlockSize := k\<rparr>)" using d by (simp add: dinv_def)
  then have d2: "dinv N out S2" using dinv_rest [OF dinv_rest [OF _ S1(3)] S2(3)] by blast
  have s1: "mBadTableFlag S1 = 0" "mOutBuf S1 = length out" "mBlockSize S2 = k" "mPBit S2 = mPBit Sd" "N < 2 ^ 32" "length out \<le> N"
    using S1(3) S2(3) d by (simp_all add: same_rest_def dinv_def)
  have o32: "length out < 2 ^ 32" using s1(5,6) by simp
  then have "length out + (2 ^ 33 - p - 1) = (length out - 1 - p) + 2 * 2 ^ 32" using f by simp
  moreover have "(length out - 1 - p + 2 * 2 ^ 32) mod 2 ^ 32 = (length out - 1 - p) mod 2 ^ 32" by (rule mod_mult_self1)
  moreover have "(length out - 1 - p) mod 2 ^ 32 = length out - 1 - p"
    by (rule mod_less) (use o32 in linarith)
  ultimately have ix: "(length out + (2 ^ 33 - p - 1)) mod 2 ^ 32 = length out - 1 - p" by (simp only:)
  have l: "l + 253 - (UINT8_MAX + 1 - THRESHOLD) = l" "\<not> l + 253 < 256" using tk(2) by (simp_all add: dec_consts)
  have "Decode src Sd = do { (full, Sd3) \<leftarrow> CopyBytes l (length out - 1 - p) S2; if full then Some Sd3 else Decode src Sd3 }"
    using s1 by (subst Decode.simps) (simp only: S1(1) S2(1) bind.bind_lunit prod.case s1(1,2) simp_thms if_False l ix)
  then show ?thesis using S2(2) d2 in_block_rest [OF b1 S2(3)] s1 by blast
qed

text \<open>After a token the decoder goes on, or it has filled the destination.\<close>

lemma Decode_token:
  assumes w: "window src m q Sd" and b: "in_block b Sd" and ok: "code_ok NC (code_C b)" "code_ok MAXNP (code_P b)"
    and t: "tok_ok b t" and a: "at (zbit src m) q (ser_tok b t)" and n: "mBlockSize Sd = Suc k" "k < 2 ^ 16 - 1"
    and d: "dinv N out Sd" and f: "tok_fits N out t"
  shows "(\<exists>Sd'. Decode src Sd = Decode src Sd' \<and> window src m (q + length (ser_tok b t)) Sd' \<and> in_block b Sd'
      \<and> mBlockSize Sd' = k \<and> mPBit Sd' = mPBit Sd \<and> dinv N (expand_tok out t) Sd')
    \<or> (\<exists>Sd'. Decode src Sd = Some Sd' \<and> length (expand_tok out t) = N \<and> dinv N (expand_tok out t) Sd')"
proof (cases t)
  case (Lit x)
  then show ?thesis using Decode_lit [OF w b ok(1) _ _ n d, of x] t a f by (simp add: Lit)
next
  case (Copy l p)
  have f': "p < length out" "length out + l \<le> N" "0 < l" using f t by (auto simp: Copy)
  from Decode_copy [OF w b ok _ _ n d f'(1), of l] t a obtain S where
    S: "Decode src Sd = do { (full, Sd3) \<leftarrow> CopyBytes l (length out - 1 - p) S; if full then Some Sd3 else Decode src Sd3 }"
      "window src m (q + length (ser_tok b t)) S" "in_block b S" "mBlockSize S = k" "mPBit S = mPBit Sd" "dinv N out S"
    by (auto simp: Copy)
  from CopyBytes_copy [OF S(6) f'(1,2) refl] obtain D where
    C: "CopyBytes l (length out - 1 - p) S = Some (0 < l \<and> length out + l = N, S\<lparr>mDst := D, mOutBuf := length out + l\<rparr>)"
      "dinv N (copy_out out p l) (S\<lparr>mDst := D, mOutBuf := length out + l\<rparr>)" by blast
  let ?S = "S\<lparr>mDst := D, mOutBuf := length out + l\<rparr>"
  have "Decode src Sd = (if length out + l = N then Some ?S else Decode src ?S)" using S(1) C(1) f'(3) by simp
  then show ?thesis using S C(2) by (cases "length out + l = N") (auto simp: Copy in_block_out)
qed

section \<open>Whole blocks\<close>

definition block_ok :: "nat \<Rightarrow> block \<Rightarrow> bool" where
  "block_ok pbit b \<longleftrightarrow> codes_ok pbit b \<and> bk_toks b \<noteq> [] \<and> list_all (tok_ok b) (bk_toks b)"

definition ser_block :: "nat \<Rightarrow> block \<Rightarrow> bool list" where
  "ser_block pbit b = ser_codes pbit b @ concat (map (ser_tok b) (bk_toks b))"

definition toks :: "block list \<Rightarrow> token list" where
  "toks bs = concat (map bk_toks bs)"

lemma fits_full: "tok_fits N out t \<Longrightarrow> tok_ok b t \<Longrightarrow> length out < N"
  by (cases t) auto

lemma codes_okD: "codes_ok pbit b \<Longrightarrow> code_ok NC (code_C b) \<and> code_ok MAXNP (code_P b)"
  by (cases "bk_C b") (auto simp: codes_ok_def code_C_def code_P_def desc_ok_def)

lemma Decode_tokens:
  assumes ok: "code_ok NC (code_C b)" "code_ok MAXNP (code_P b)"
  shows "window src m q Sd \<Longrightarrow> in_block b Sd \<Longrightarrow> list_all (tok_ok b) ts \<Longrightarrow> at (zbit src m) q (concat (map (ser_tok b) ts)) \<Longrightarrow>
    mBlockSize Sd = length ts \<Longrightarrow> length ts < 2 ^ 16 \<Longrightarrow> dinv N out Sd \<Longrightarrow> toks_fit N out ts \<Longrightarrow>
    (\<exists>Sd'. Decode src Sd = Decode src Sd' \<and> window src m (q + length (concat (map (ser_tok b) ts))) Sd' \<and> in_block b Sd'
      \<and> mBlockSize Sd' = 0 \<and> mPBit Sd' = mPBit Sd \<and> dinv N (expand out ts) Sd')
    \<or> (\<exists>Sd'. Decode src Sd = Some Sd' \<and> length (expand out ts) = N \<and> dinv N (expand out ts) Sd')"
proof (induction ts arbitrary: q Sd out)
  case Nil
  then show ?case by auto
next
  case (Cons t ts)
  have a: "at (zbit src m) q (ser_tok b t)" "at (zbit src m) (q + length (ser_tok b t)) (concat (map (ser_tok b) ts))"
    using Cons.prems(4) by (simp_all add: at_append)
  have t: "tok_ok b t" "list_all (tok_ok b) ts" "tok_fits N out t" "toks_fit N (expand_tok out t) ts"
    "mBlockSize Sd = Suc (length ts)" "length ts < 2 ^ 16 - 1"
    using Cons.prems by simp_all
  from Decode_token [OF Cons.prems(1,2) ok t(1) a(1) t(5,6) Cons.prems(7) t(3)] show ?case
  proof (elim disjE exE conjE)
    fix S1 assume S1: "Decode src Sd = Decode src S1" "window src m (q + length (ser_tok b t)) S1" "in_block b S1"
      "mBlockSize S1 = length ts" "mPBit S1 = mPBit Sd" "dinv N (expand_tok out t) S1"
    have "length ts < 2 ^ 16" using Cons.prems(6) by simp
    from Cons.IH [OF S1(2,3) t(2) a(2) S1(4) this S1(6) t(4)] S1(1,5) show ?case by (simp add: add.assoc)
  next
    fix S1 assume S1: "Decode src Sd = Some S1" "length (expand_tok out t) = N" "dinv N (expand_tok out t) S1"
    have "ts = []"
    proof (cases ts)
      case (Cons u us)
      with t(2,4) fits_full [of N "expand_tok out t" u b] S1(2) show ?thesis by simp
    qed simp
    with S1 show ?case by auto
  qed
qed

lemma DecodeC_start:
  assumes "StartBlock src Sd = Some (True, Sd1)" "mBlockSize Sd = 0" "mBlockSize Sd1 \<noteq> 0"
  shows "Decode src Sd = Decode src Sd1"
proof -
  have "DecodeC src Sd = DecodeC src Sd1" unfolding DecodeC_def using assms by simp
  then show ?thesis by (simp only: Decode.simps [of src Sd] Decode.simps [of src Sd1])
qed

text \<open>Behind the last literal the decoder reads one more symbol, from a block of zeros.\<close>

lemma Decode_end:
  assumes w: "window src m q Sd" and sz: "sizes Sd" and n: "mBlockSize Sd = 0" "mPBit Sd \<le> 16"
    and d: "dinv N out Sd" "length out = N" and z: "\<And>k. q \<le> k \<Longrightarrow> \<not> zbit src m k"
  shows "\<exists>Sd'. Decode src Sd = Some Sd' \<and> dinv N out Sd'"
proof -
  let ?b = "\<lparr>bk_toks = [], bk_T = Inl 0, bk_C = Inl 0, bk_P = Inl 0\<rparr> :: block"
  have e0: "enc k 0 = replicate k False" for k by (simp add: enc_def map_replicate_const)
  have f: "\<not> x" if "x \<in> set (ser_codes (mPBit Sd) ?b)" for x using that by (auto simp: ser_codes_def e0)
  have a: "at (zbit src m) q (ser_codes (mPBit Sd) ?b)" unfolding at_def using z f [OF nth_mem] by auto
  have "codes_ok (mPBit Sd) ?b" by (simp add: codes_ok_def desc_ok_def dec_consts)
  from StartBlock_codes [OF w a this sz n(2)] obtain S1 where
    S1: "StartBlock src Sd = Some (True, S1)" "window src m (q + length (ser_codes (mPBit Sd) ?b)) S1" "in_block ?b S1"
      "cframe Sd S1" "mBlockSize S1 = 0" "mBadTableFlag S1 = 0" by auto
  let ?S = "S1\<lparr>mBlockSize := 2 ^ 16 - 1\<rparr>"
  have w2: "window src m (q + length (ser_codes (mPBit Sd) ?b)) ?S" using S1(2) by simp
  have h: "holds NC 12 (One 0) (mCTable ?S) (mCLen ?S) ?S" using S1(3) by (simp add: in_block_def code_C_def)
  have bits: "BITBUFSIZ - 12 = 32 - 12" "BITBUFSIZ - 1 - 12 = 31 - 12" by (simp_all add: BITBUFSIZ_def)
  from holds_lookup [OF w2 code_sizes(1) _ h, of 0] obtain v where
    v: "rdx (mCTable ?S) (unat (drop_bit (32 - 12) (mBitBuf ?S))) = Some v" "walk NC ?S (2 ^ (31 - 12)) v = Some 0"
      "rdx (mCLen ?S) 0 = Some 0" by (auto simp: dec_consts)
  from FillBuf_window [OF w2, of 0] obtain S2 where S2: "FillBuf src ?S 0 = Some S2" "same_rest ?S S2" by auto
  have k: "(mBlockSize S1 + 0xFFFF) mod 2 ^ 16 = 2 ^ 16 - 1" using S1(5) by simp
  have "DecodeC src Sd = Some (0, S2)"
    unfolding DecodeC_def if_P [OF n(1)] S1(1) bind.bind_lunit prod.case Let_def k bits v S2(1) simp_thms if_False ..
  moreover have s2: "mBadTableFlag S2 = 0" "mOutBuf S2 = length out" "mOrigSize S2 = N"
    "dinv N out S2" using S2(2) S1(4,6) d by (simp_all add: same_rest_def cframe_def dinv_def)
  ultimately have "Decode src Sd = Some S2" using d(2) by (subst Decode.simps) simp
  with s2 show ?thesis by blast
qed

lemma Decode_blocks:
  "window src m q Sd \<Longrightarrow> sizes Sd \<Longrightarrow> mBlockSize Sd = 0 \<Longrightarrow> mPBit Sd = pb \<Longrightarrow> pb \<le> 16 \<Longrightarrow> dinv N out Sd \<Longrightarrow>
    list_all (block_ok pb) bs \<Longrightarrow> toks_fit N out (toks bs) \<Longrightarrow> length (expand out (toks bs)) = N \<Longrightarrow>
    at (zbit src m) q (concat (map (ser_block pb) bs)) \<Longrightarrow>
    (\<And>k. q + length (concat (map (ser_block pb) bs)) \<le> k \<Longrightarrow> \<not> zbit src m k) \<Longrightarrow>
    \<exists>Sd'. Decode src Sd = Some Sd' \<and> dinv N (expand out (toks bs)) Sd'"
proof (induction bs arbitrary: q Sd out)
  case Nil
  then show ?case using Decode_end [of src m q Sd N out] by (simp add: toks_def)
next
  case (Cons b bs)
  have b: "codes_ok pb b" "bk_toks b \<noteq> []" "list_all (tok_ok b) (bk_toks b)" using Cons.prems(7) by (simp_all add: block_ok_def)
  have tk: "toks (b # bs) = bk_toks b @ toks bs" by (simp add: toks_def)
  let ?q1 = "q + length (ser_codes pb b)" and ?tb = "concat (map (ser_tok b) (bk_toks b))"
  have at: "at (zbit src m) q (ser_codes pb b)" "at (zbit src m) ?q1 ?tb"
    "at (zbit src m) (?q1 + length ?tb) (concat (map (ser_block pb) bs))"
    using Cons.prems(10) by (simp_all add: ser_block_def [of pb b] at_append add.assoc)
  from StartBlock_codes [OF Cons.prems(1) _ _ Cons.prems(2), of b] at(1) b(1) Cons.prems(4,5) obtain S1 where
    S1: "StartBlock src Sd = Some (True, S1)" "window src m ?q1 S1" "in_block b S1" "cframe Sd S1" "mBlockSize S1 = bk_len b"
      "mBadTableFlag S1 = 0" by auto
  have r1: "Decode src Sd = Decode src S1"
    using DecodeC_start [OF S1(1) Cons.prems(3)] S1(5) b(2) by simp
  have d1: "dinv N out S1" using Cons.prems(6) S1(4,6) by (simp add: dinv_def cframe_def)
  have f: "toks_fit N out (bk_toks b)" "toks_fit N (expand out (bk_toks b)) (toks bs)"
    using Cons.prems(8) by (simp_all add: tk toks_fit_append)
  have l: "bk_len b < 2 ^ 16" using b(1) by (simp add: codes_ok_def)
  have ok: "code_ok NC (code_C b)" "code_ok MAXNP (code_P b)" using codes_okD [OF b(1)] by simp_all
  from Decode_tokens [OF ok S1(2,3) b(3) at(2) S1(5) l d1 f(1)] show ?case
  proof (elim disjE exE conjE)
    fix S2 assume S2: "Decode src S1 = Decode src S2" "window src m (?q1 + length ?tb) S2" "in_block b S2" "mBlockSize S2 = 0"
      "mPBit S2 = mPBit S1" "dinv N (expand out (bk_toks b)) S2"
    have "\<exists>Sd'. Decode src S2 = Some Sd' \<and> dinv N (expand (expand out (bk_toks b)) (toks bs)) Sd'"
    proof (rule Cons.IH [OF S2(2) _ S2(4) _ Cons.prems(5) S2(6) _ f(2) _ at(3)])
      show "sizes S2" using S2(3) by (simp add: in_block_def)
      show "mPBit S2 = pb" using S2(5) S1(4) Cons.prems(4) by (simp add: cframe_def)
      show "length (expand (expand out (bk_toks b)) (toks bs)) = N" using Cons.prems(9) by (simp add: tk)
      show "\<not> zbit src m k" if "?q1 + length ?tb + length (concat (map (ser_block pb) bs)) \<le> k" for k
        by (rule Cons.prems(11)) (use that in \<open>simp add: ser_block_def [of pb b]\<close>)
    qed (use Cons.prems(7) in simp)
    then show ?case using r1 S2(1) by (simp add: tk)
  next
    fix S2 assume S2: "Decode src S1 = Some S2" "length (expand out (bk_toks b)) = N" "dinv N (expand out (bk_toks b)) S2"
    have "toks bs = []"
    proof (cases bs)
      case (Cons b2 bs2)
      then have "bk_toks b2 \<noteq> []" "list_all (tok_ok b2) (bk_toks b2)" using Cons.prems(7) by (simp_all add: block_ok_def)
      then obtain t ts where "bk_toks b2 = t # ts" "tok_ok b2 t" by (cases "bk_toks b2") auto
      with f(2) fits_full [of N "expand out (bk_toks b)" t b2] S2(2) Cons show ?thesis by (simp add: toks_def)
    qed (simp add: toks_def)
    then show ?case using r1 S2 by (simp add: tk)
  qed
qed

section \<open>From the bytes of an image\<close>

text \<open>Bits are packed into bytes from the most significant bit on; zeros fill the last byte.\<close>

definition pack :: "bool list \<Rightarrow> u8 list" where
  "pack bs = map (\<lambda>i. word_of_nat (num (\<lambda>k. k < length bs \<and> bs ! k) (8 * i) 8)) [0..<(length bs + 7) div 8]"

lemma sbit_pack: "sbit (pack bs @ rest) (length (pack bs)) k \<longleftrightarrow> k < length bs \<and> bs ! k"
proof (cases "k div 8 < (length bs + 7) div 8")
  case True
  have e: "8 * (k div 8) + 8 - 1 - (7 - k mod 8) = k" "7 - k mod 8 < 8" using mod_less_divisor [of 8 k] by simp_all
  have "(pack bs @ rest) ! (k div 8) = word_of_nat (num (\<lambda>k. k < length bs \<and> bs ! k) (8 * (k div 8)) 8)"
    using True by (simp add: pack_def nth_append)
  with True e show ?thesis by (simp add: sbit_def pack_def bit_of_nat_iff bit_num)
next
  case False
  then show ?thesis by (auto simp: sbit_def pack_def)
qed

lemma window_start:
  assumes "n \<le> length src"
  shows "\<exists>Sd. FillBuf src (init_scratch n N pb Dst) BITBUFSIZ = Some Sd \<and> window src n 40 Sd
    \<and> same_rest (init_scratch n N pb Dst) Sd"
proof -
  have "window src n 8 (init_scratch n N pb Dst)"
    using assms by (auto simp: window_def init_scratch_def zbit_def)
  from FillBuf_window [OF this, of 32] show ?thesis by (simp add: BITBUFSIZ_def init_scratch_def)
qed

lemma sizes_init: "sizes (init_scratch n N pb Dst)"
  by (simp add: sizes_def init_scratch_def)

lemma decode_pass_blocks:
  assumes bs: "list_all (block_ok pb) bs" "toks_fit N [] (toks bs)" "length (expand [] (toks bs)) = N" "N < 2 ^ 32" "pb \<le> 16"
    and D: "length Dst = N"
  defines "bits \<equiv> concat (map (ser_block pb) bs)"
  shows "\<exists>Sd. decode_pass (pack bits @ rest) (length (pack bits)) N pb Dst = Some Sd \<and> dinv N (expand [] (toks bs)) Sd"
proof -
  let ?src = "pack bits @ rest" and ?n = "length (pack bits)"
  obtain Sd where Sd: "FillBuf ?src (init_scratch ?n N pb Dst) BITBUFSIZ = Some Sd" "window ?src ?n 40 Sd"
    "same_rest (init_scratch ?n N pb Dst) Sd"
    using window_start [of ?n ?src N pb Dst] by auto
  have z: "zbit ?src ?n (40 + k) \<longleftrightarrow> k < length bits \<and> bits ! k" for k by (simp add: zbit_def sbit_pack)
  have i: "sizes Sd" "mBlockSize Sd = 0" "mPBit Sd = pb" "dinv N [] Sd"
    using Sd(3) sizes_init [of ?n N pb Dst] D bs(4) by (simp_all add: same_rest_def sizes_def init_scratch_def dinv_def)
  have "\<exists>Sd'. Decode ?src Sd = Some Sd' \<and> dinv N (expand [] (toks bs)) Sd'"
  proof (rule Decode_blocks [OF Sd(2) i(1-3) bs(5) i(4) bs(1-3)])
    show "at (zbit ?src ?n) 40 (concat (map (ser_block pb) bs))" using z by (simp add: at_def bits_def)
    show "\<not> zbit ?src ?n k" if "40 + length (concat (map (ser_block pb) bs)) \<le> k" for k
    proof -
      have "40 \<le> k" using that by linarith
      then obtain j where "k = 40 + j" using le_Suc_ex by blast
      with z [of j] that show ?thesis by (simp add: bits_def)
    qed
  qed
  then show ?thesis using Sd(1) by (simp add: decode_pass_def)
qed

text \<open>An image: the compressed and the original size, and the compressed data.\<close>

definition efi_image :: "block list \<Rightarrow> nat \<Rightarrow> u8 list" where
  "efi_image bs N = (let comp = pack (concat (map (ser_block 5) bs)) in le_bytes 4 (length comp) @ le_bytes 4 N @ comp)"

text \<open>C10: Whatever sequence of valid blocks an image is made of, \<open>Decompress\<close> returns the expansion of its
  literals and copies, with success; what is in the destination before, and what follows the image, has no effect.\<close>

theorem Decompress_image:
  assumes "list_all (block_ok 5) bs" "toks_fit N [] (toks bs)" "length (expand [] (toks bs)) = N" "0 < N" "N < 2 ^ 32"
    and "length (efi_image bs N) \<le> SrcSize" "length (efi_image bs N) < 2 ^ 32"
    and "length Destination = N" "sizeof_SCRATCH_DATA \<le> ScratchSize"
  shows "Decompress (efi_image bs N @ rest) SrcSize Destination N ScratchSize = Some (EFI_SUCCESS, expand [] (toks bs))"
proof -
  let ?comp = "pack (concat (map (ser_block 5) bs))"
  have l: "length (efi_image bs N) = length ?comp + 8" by (simp add: efi_image_def Let_def)
  have h: "le_nat (take 4 (efi_image bs N @ rest)) = length ?comp" "le_nat (take 4 (drop 4 (efi_image bs N @ rest))) = N"
    "drop 8 (efi_image bs N @ rest) = ?comp @ rest"
    using assms(5,7) l by (simp_all add: efi_image_def Let_def)
  have "(length ?comp + 8) mod 2 ^ 32 \<le> SrcSize" "8 \<le> SrcSize" using assms(6) l mod_less_eq_dividend [of "length ?comp + 8" "2 ^ 32"] by linarith+
  moreover obtain Sd where Sd: "decode_pass (?comp @ rest) (length ?comp) N 5 Destination = Some Sd" "dinv N (expand [] (toks bs)) Sd"
    using decode_pass_blocks [OF assms(1-3,5) _ assms(8), of rest] by auto
  moreover have "mBadTableFlag Sd = 0" "mDst Sd = expand [] (toks bs)" using Sd(2) assms(3) by (auto simp: dinv_def)
  ultimately show ?thesis using assms(4,9) h by (simp add: Decompress_def Let_def)
qed

text \<open>A block in which an \<open>A\<close> is followed by three copies of it.\<close>

definition demo :: block where
  "demo = \<lparr>bk_toks = [Lit 65, Copy 3 0], bk_T = Inr [0, 0, 1, 1],
           bk_C = Inr [Zero9 45, Len 1, Zero9 170, Len 1], bk_P = Inl 0\<rparr>"

lemma sum_coded: "sum_list (map (csize BL) (coded BL)) = sum_list (map (\<lambda>l. if l = 0 then 0 else 2 ^ (16 - l)) BL)"
proof -
  have "sum_list (map (csize BL) (coded BL)) = sum_list (map (\<lambda>d. (\<lambda>l. if l = 0 then 0 else 2 ^ (16 - l)) (BL ! d)) [0..<length BL])"
    unfolding coded_def sum_list_map_filter' by (rule arg_cong [where f = sum_list], rule map_cong) (auto simp: csize_def)
  also have "\<dots> = sum_list (map (\<lambda>l. if l = 0 then 0 else 2 ^ (16 - l)) BL)"
    by (subst (2) map_nth [symmetric]) (simp only: map_map comp_def)
  finally show ?thesis .
qed

lemma demo_items: "items_lens [Zero9 45, Len (Suc 0), Zero9 170, Len (Suc 0)] = replicate 65 0 @ 1 # replicate 190 0 @ [1]"
  by (simp add: items_lens_def)

lemma demo_main: "code_ok NC (code_C demo)" "has_code (code_C demo) 65" "has_code (code_C demo) 256"
  by (simp_all add: code_C_def demo_def demo_items pad_def complete_code_def sum_coded nth_append sum_list_replicate
      list_all_iff dec_consts)

lemma demo_ok: "block_ok 5 demo"
proof -
  have "codes_ok 5 demo"
    using demo_main(1)
    by (simp add: codes_ok_def desc_ok_def demo_def code_C_def pad_def complete_code_def sum_coded list_all_iff dec_consts demo_items)
  moreover have "list_all (tok_ok demo) (bk_toks demo)"
    using demo_main(2,3) by (simp add: demo_def code_P_def nbits.simps [of 0])
  ultimately show ?thesis by (simp add: block_ok_def demo_def)
qed

lemma demo_out: "toks [demo] = [Lit 65, Copy 3 0]" "copy_out [65 :: u8] 0 3 = [65, 65, 65, 65]"
  by (simp_all add: toks_def demo_def numeral_3_eq_3)

lemma demo_length: "length (efi_image [demo] N) = 18"
  by (simp add: efi_image_def Let_def ser_block_def ser_codes_def demo_def ser_lens_def zero_run_def ser_len_def ser_item_def
      code_C_def code_P_def ser_pos_def hcode_def demo_items pad_def nth_append pack_def dec_consts nbits.simps [of 0])

theorem Decompress_image_witness:
  "Decompress (efi_image [demo] 4 @ [7]) 19 [1, 2, 3, 4] 4 sizeof_SCRATCH_DATA = Some (EFI_SUCCESS, [65, 65, 65, 65])"
  using Decompress_image [of "[demo]" 4 19 "[1, 2, 3, 4]" sizeof_SCRATCH_DATA "[7]"] demo_ok
  by (simp add: demo_out demo_length)

end
