(* ===== verification/DecFacts.thy ===== *)
theory DecFacts
  imports DecRoundtrip
begin

text \<open>
  Properties of the single operations of the decompressor, and of inputs that no check catches: a stream for
  more bytes than the destination holds, a code length beyond the counters of \<^verbatim>\<open>MakeTable\<close>, a size whose sum
  with the header wraps around.
\<close>

section \<open>Reading numbers\<close>

text \<open>A sequence of calls of \<open>GetBits\<close>, and the numbers that stand in a stream one after another.\<close>

fun GetMany :: "u8 list \<Rightarrow> SCRATCH_DATA \<Rightarrow> nat list \<Rightarrow> (nat list \<times> SCRATCH_DATA) option" where
  "GetMany src Sd [] = Some ([], Sd)"
| "GetMany src Sd (k # ks) =
     do { (x, Sd1) \<leftarrow> GetBits src Sd k; (xs, Sd2) \<leftarrow> GetMany src Sd1 ks; Some (x # xs, Sd2) }"

fun fields :: "(nat \<Rightarrow> bool) \<Rightarrow> nat \<Rightarrow> nat list \<Rightarrow> nat list" where
  "fields s q [] = []"
| "fields s q (k # ks) = num s q k # fields s (q + k) ks"

lemma num_zbit: "num (zbit src n) (40 + q) k = num (sbit src n) q k"
  by (induction k) (simp_all add: zbit_def add.assoc)

lemma GetMany_window:
  "window src n (40 + q) Sd \<Longrightarrow> list_all (\<lambda>k. k < 32) ks \<Longrightarrow> \<exists>Sd'. GetMany src Sd ks = Some (fields (sbit src n) q ks, Sd')"
proof (induction ks arbitrary: q Sd)
  case Nil
  then show ?case by simp
next
  case (Cons k ks)
  then obtain S1 where S1: "GetBits src Sd k = Some (num (sbit src n) q k, S1)" "window src n (40 + (q + k)) S1"
    using GetBits_window [OF Cons.prems(1), of k] by (auto simp: num_zbit add.assoc)
  from Cons.IH [OF S1(2)] Cons.prems(2) S1(1) show ?case by auto
qed

text \<open>C19: From the start of a source, any sequence of calls of \<open>GetBits\<close> for less than 32 bits each returns the
  consecutive fields of the source, most significant bit first, with zeros behind its compressed size.\<close>

theorem GetBits_fields:
  assumes "n \<le> length src" "list_all (\<lambda>k. k < 32) ks"
  shows "\<exists>Sd Sd'. FillBuf src (init_scratch n N pb Dst) BITBUFSIZ = Some Sd
    \<and> GetMany src Sd ks = Some (fields (sbit src n) 0 ks, Sd')"
proof -
  obtain Sd where "FillBuf src (init_scratch n N pb Dst) BITBUFSIZ = Some Sd" "window src n (40 + 0) Sd"
    using window_start [OF assms(1), of N pb Dst] by auto
  with GetMany_window [OF this(2) assms(2)] show ?thesis by blast
qed

theorem GetBits_fields_witness:
  "(\<exists>Sd Sd'. FillBuf [0xAB, 0xCD, 0xEF] (init_scratch 2 5 5 []) BITBUFSIZ = Some Sd
      \<and> GetMany [0xAB, 0xCD, 0xEF] Sd [4, 8, 8] = Some ([0xA, 0xBC, 0xD0], Sd'))"
proof -
  have "fields (sbit [0xAB, 0xCD, 0xEF] 2) 0 [4, 8, 8] = [0xA, 0xBC, 0xD0]" by code_simp
  with GetBits_fields [of 2 "[0xAB, 0xCD, 0xEF]" "[4, 8, 8]" 5 5 "[]"] show ?thesis by simp
qed

section \<open>The tables\<close>

text \<open>The three kinds of tables, for any code lengths; incomplete ones are replaced by a code of two symbols.\<close>

definition code_or :: "nat \<Rightarrow> nat list \<Rightarrow> nat list" where
  "code_or n BL = (if length BL = n \<and> complete_code BL then BL else pad n [1, 1])"

lemma code_or_ok: "2 \<le> n \<Longrightarrow> length (code_or n BL) = n \<and> complete_code (code_or n BL)"
  by (auto simp: code_or_def pad_def complete_code_def sum_coded list_all_iff sum_list_replicate)

interpretation main_table: canonical "code_or NC BL" NC 12 for BL
  by unfold_locales (use code_or_ok [of NC BL] in \<open>simp_all add: dec_consts\<close>)

interpretation extra_table: canonical "code_or NT BL" NT 8 for BL
  by unfold_locales (use code_or_ok [of NT BL] in \<open>simp_all add: dec_consts\<close>)

interpretation pos_table: canonical "code_or MAXNP BL" MAXNP 8 for BL
  by unfold_locales (use code_or_ok [of MAXNP BL] in \<open>simp_all add: dec_consts\<close>)

lemma MakeTable_some:
  assumes "(n, TB) \<in> {(NC, 12), (NT, 8), (MAXNP, 8)}" "length BL = n" "complete_code BL" "length (tr_Table tr) = 2 ^ TB"
    "2 * n - 1 \<le> length (tr_Left tr)" "2 * n - 1 \<le> length (tr_Right tr)"
  shows "\<exists>t. MakeTable n BL TB tr = Some (0, t) \<and> decodes BL TB t"
proof -
  have c: "code_or n BL = BL" using assms(2,3) by (simp add: code_or_def)
  from assms(1) consider "n = NC" "TB = 12" | "n = NT" "TB = 8" | "n = MAXNP" "TB = 8" by auto
  then show ?thesis
  proof cases
    case 1
    with main_table.MakeTable_decodes [of tr BL] assms(4-6) c show ?thesis by auto
  next
    case 2
    with extra_table.MakeTable_decodes [of tr BL] assms(4-6) c show ?thesis by auto
  next
    case 3
    with pos_table.MakeTable_decodes [of tr BL] assms(4-6) c show ?thesis by auto
  qed
qed

text \<open>C11: For the lengths of a complete code of at most 16 bits, \<open>MakeTable\<close> accepts, stays inside of its arrays, and
  builds tables with which every symbol is found: where the code of the symbol stands in the stream, the table entry
  of the first bits of the window and the walk over the rest lead to it.\<close>

theorem MakeTable_lookup:
  assumes "(n, TB) \<in> {(NC, 12), (NT, 8), (MAXNP, 8)}" "length BL = n" "complete_code BL" "length (tr_Table tr) = 2 ^ TB"
    "2 * n - 1 \<le> length (tr_Left tr)" "2 * n - 1 \<le> length (tr_Right tr)"
  shows "\<exists>t. MakeTable n BL TB tr = Some (0, t)
    \<and> (\<forall>src m q Sd c. window src m q Sd \<longrightarrow> mLeft Sd = tr_Left t \<longrightarrow> mRight Sd = tr_Right t \<longrightarrow> c < n \<longrightarrow> 0 < BL ! c
          \<longrightarrow> at (zbit src m) q (hcode BL c)
          \<longrightarrow> (\<exists>v. rdx (tr_Table t) (unat (drop_bit (32 - TB) (mBitBuf Sd))) = Some v \<and> walk n Sd (2 ^ (31 - TB)) v = Some c))"
proof -
  obtain t where t: "MakeTable n BL TB tr = Some (0, t)" "decodes BL TB t" using MakeTable_some [OF assms] by blast
  have cs: "code_size n TB" using assms(1) code_sizes by auto
  have "\<exists>v. rdx (tr_Table t) (unat (drop_bit (32 - TB) (mBitBuf Sd))) = Some v \<and> walk n Sd (2 ^ (31 - TB)) v = Some c"
    if w: "window src m q Sd" and s: "mLeft Sd = tr_Left t" "mRight Sd = tr_Right t" and c: "c < n" "0 < BL ! c"
      and a: "at (zbit src m) q (hcode BL c)" for src m q Sd c
  proof -
    have "get_tree (tr_Table t) Sd = t" using s by (simp add: get_tree_def)
    then have "holds n TB (Lens BL) (tr_Table t) BL Sd" using t(2) assms(2) by simp
    from holds_lookup [OF w cs _ this, of c] a c assms(2,3) show ?thesis by auto
  qed
  with t(1) show ?thesis by blast
qed

theorem MakeTable_lookup_witness:
  "\<exists>t. MakeTable NT (pad NT [0, 0, 1, 1]) 8 \<lparr>tr_Table = replicate 256 9, tr_Left = replicate 37 9, tr_Right = replicate 37 9\<rparr> = Some (0, t)"
proof -
  have "complete_code (pad NT [0, 0, 1, 1])"
    by (simp add: pad_def complete_code_def sum_coded list_all_iff sum_list_replicate)
  moreover have "length (pad NT [0, 0, 1, 1]) = NT" by (simp add: pad_def NT_def)
  ultimately show ?thesis
    using MakeTable_lookup [of NT 8 "pad NT [0, 0, 1, 1]"
        "\<lparr>tr_Table = replicate 256 9, tr_Left = replicate 37 9, tr_Right = replicate 37 9\<rparr>"] by (auto simp: NT_def)
qed

section \<open>Inputs that are not caught\<close>

lemma Decode_lits:
  assumes ok: "code_ok NC (code_C b)"
  shows "window src m q Sd \<Longrightarrow> in_block b Sd \<Longrightarrow> list_all (tok_ok b) (map Lit xs) \<Longrightarrow> at (zbit src m) q (concat (map (ser_tok b) (map Lit xs))) \<Longrightarrow>
    mBlockSize Sd = length xs + k \<Longrightarrow> length xs + k < 2 ^ 16 \<Longrightarrow> dinv N out Sd \<Longrightarrow> length out + length xs \<le> N \<Longrightarrow>
    \<exists>Sd'. Decode src Sd = Decode src Sd' \<and> window src m (q + length (concat (map (ser_tok b) (map Lit xs)))) Sd' \<and> in_block b Sd'
      \<and> mBlockSize Sd' = k \<and> dinv N (out @ xs) Sd'"
proof (induction xs arbitrary: q Sd out)
  case Nil
  then show ?case by auto
next
  case (Cons x xs)
  have a: "at (zbit src m) q (ser_tok b (Lit x))" "at (zbit src m) (q + length (ser_tok b (Lit x))) (concat (map (ser_tok b) (map Lit xs)))"
    using Cons.prems(4) by (simp_all add: at_append)
  from Decode_lit [OF Cons.prems(1,2) ok _ a(1) _ _ Cons.prems(7), of "length xs + k"] Cons.prems obtain S1 where
    S1: "Decode src Sd = Decode src S1" "window src m (q + length (ser_tok b (Lit x))) S1" "in_block b S1"
      "mBlockSize S1 = length xs + k" "dinv N (out @ [x]) S1" by auto
  from Cons.IH [OF S1(2,3) _ a(2) S1(4) _ S1(5)] Cons.prems S1(1) show ?case by (simp add: add.assoc)
qed



text \<open>A code length above 16 is counted outside of the array of the counters.  \<open>ReadPTLen\<close> lets lengths up to 36 through.\<close>

theorem MakeTable_long_code:
  assumes "i < NumOfChar" "NumOfChar \<le> length BitLen" "16 < BitLen ! i"
  shows "MakeTable NumOfChar BitLen TableBits t = None"
proof -
  have "count_lens bs Count = None" if "b \<in> set bs" "length Count \<le> b" for b bs Count
    using that by (induction bs arbitrary: Count) auto
  moreover have "BitLen ! i \<in> set (take NumOfChar BitLen)"
    using nth_mem [of i "take NumOfChar BitLen"] assms(1,2) by simp
  ultimately have "count_lens (take NumOfChar BitLen) (replicate 17 0) = None" using assms(3) by simp
  with assms(2) show ?thesis by (simp add: MakeTable_def)
qed

theorem MakeTable_long_code_witness:
  "MakeTable 3 [1, 17, 2] 8 \<lparr>tr_Table = [], tr_Left = [], tr_Right = []\<rparr> = None"
  using MakeTable_long_code [of 1 3 "[1, 17, 2]" 8 "\<lparr>tr_Table = [], tr_Left = [], tr_Right = []\<rparr>"] by simp

text \<open>The check of the source size adds the size of the header in 32 bits.  A compressed size of at least
  \<open>2 ^ 32 - 8\<close> passes it with any source, and a source of eight bytes is read behind its end.\<close>

theorem Decompress_size_wrap:
  assumes "length Source = 8" "2 ^ 32 - 8 \<le> le_nat (take 4 Source)" "DstSize = le_nat (drop 4 Source)" "0 < DstSize"
    "8 \<le> SrcSize" "sizeof_SCRATCH_DATA \<le> ScratchSize"
  shows "Decompress Source SrcSize Destination DstSize ScratchSize = None"
proof -
  let ?n = "le_nat (take 4 Source)"
  have "le_nat (take 4 Source) < 256 ^ length (take 4 Source)" by (rule le_nat_bound)
  then have n: "?n < 2 ^ 32" using assms(1) by simp
  have "(?n + 8) mod 2 ^ 32 = (?n + 8 - 2 ^ 32) mod 2 ^ 32" by (rule le_mod_geq) (use assms(2) in linarith)
  then have "(?n + 8) mod 2 ^ 32 < 8" using n by simp
  then have w: "\<not> SrcSize < (?n + 8) mod 2 ^ 32" using assms(5) by linarith
  have "FillBuf_loop [] (init_scratch ?n DstSize 5 Destination) 32 = None"
    using assms(2) by (subst FillBuf_loop.simps) (simp add: init_scratch_def LoadByte_def rdx_def Let_def)
  then have "decode_pass [] ?n DstSize 5 Destination = None"
    by (simp add: decode_pass_def FillBuf_def BITBUFSIZ_def) (simp add: init_scratch_def)
  then show ?thesis using assms w by (auto simp: Decompress_def Let_def)
qed

theorem Decompress_size_wrap_witness:
  "Decompress [0xF8, 0xFF, 0xFF, 0xFF, 1, 0, 0, 0] 8 [0] 1 sizeof_SCRATCH_DATA = None"
  using Decompress_size_wrap [of "[0xF8, 0xFF, 0xFF, 0xFF, 1, 0, 0, 0]" 1 8 sizeof_SCRATCH_DATA "[0]"] by simp

end
