(* ===== verification/DecTypes.thy ===== *)
theory DecTypes
  imports DecFacts
begin

text \<open>Every operation of the decompressor keeps the sizes of the arrays, whatever the input is.\<close>

definition shape :: "SCRATCH_DATA \<Rightarrow> SCRATCH_DATA \<Rightarrow> bool" where
  "shape Sd Sd' \<longleftrightarrow>
     length (mDst Sd') = length (mDst Sd) \<and> length (mLeft Sd') = length (mLeft Sd) \<and> length (mRight Sd') = length (mRight Sd)
     \<and> length (mCLen Sd') = length (mCLen Sd) \<and> length (mPTLen Sd') = length (mPTLen Sd)
     \<and> length (mCTable Sd') = length (mCTable Sd) \<and> length (mPTTable Sd') = length (mPTTable Sd)
     \<and> mOrigSize Sd' = mOrigSize Sd \<and> mPBit Sd' = mPBit Sd"

lemmas bind_some = Option.bind_eq_Some_conv split_paired_Ex prod.case

lemma shape_refl [simp]: "shape Sd Sd"
  by (simp add: shape_def)

lemma shape_trans: "shape A B \<Longrightarrow> shape B C \<Longrightarrow> shape A C"
  by (simp add: shape_def)

lemma fill_length: "fill xs a b x = Some ys \<Longrightarrow> length ys = length xs"
  by (auto simp: fill_def split: if_splits)

lemma wrx_length: "wrx xs i x = Some ys \<Longrightarrow> length ys = length xs"
  by (auto simp: wrx_def split: if_splits)

lemma LoadByte_shape: "LoadByte src Sd = Some Sd' \<Longrightarrow> shape Sd Sd'"
  by (auto simp: LoadByte_def shape_def split: if_splits bind_split_asm)

lemma FillBuf_loop_shape:
  assumes "FillBuf_loop src Sd N = Some r"
  shows "shape Sd (fst r)"
proof (rule FillBuf_loop.raw_induct [OF _ assms, where P = "\<lambda>src Sd N r. shape Sd (fst r)"])
  fix f src Sd N r
  assume IH: "\<And>src Sd N r. f src Sd N = Some r \<Longrightarrow> shape Sd (fst r)"
    and r: "(if N > mBitCount Sd
      then
        let N = N - mBitCount Sd in
        do {
          Sd' \<leftarrow> LoadByte src (Sd\<lparr>mBitBuf := mBitBuf Sd OR push_bit N (mSubBitBuf Sd)\<rparr>);
          f src Sd' N
        }
      else Some (Sd, N)) = Some r"
  then show "shape Sd (fst r)"
    by (auto simp: Let_def shape_def split: if_splits bind_split_asm dest!: IH LoadByte_shape)
qed

lemma FillBuf_shape: "FillBuf src Sd N = Some Sd' \<Longrightarrow> shape Sd Sd'"
  by (auto simp: FillBuf_def Let_def shape_def split: if_splits bind_split_asm dest!: FillBuf_loop_shape)

lemma GetBits_shape: "GetBits src Sd N = Some r \<Longrightarrow> shape Sd (snd r)"
  by (auto simp: GetBits_def Let_def split: bind_split_asm dest: FillBuf_shape)

definition tshape :: "tree \<Rightarrow> tree \<Rightarrow> bool" where
  "tshape t t' \<longleftrightarrow> length (tr_Table t') = length (tr_Table t) \<and> length (tr_Left t') = length (tr_Left t)
     \<and> length (tr_Right t') = length (tr_Right t)"

lemma slot_put_tshape: "slot_put t p x = Some t' \<Longrightarrow> tshape t t'"
  by (cases p) (auto simp: tshape_def dest: wrx_length)

lemma insert_code_tshape: "insert_code Chr M i k p s = Some r \<Longrightarrow> tshape (snd s) (snd r)"
proof (induction Chr M i k p s rule: insert_code.induct)
  case (1 Chr M k p A t)
  then show ?case by (auto split: bind_split_asm dest: slot_put_tshape)
next
  case (2 Chr M i k p A t)
  from 2(2) obtain v A1 t1 w where v: "slot_get t p = Some v"
    "(if v = 0
          then do {
            l \<leftarrow> wrx (tr_Left t) A 0;
            r \<leftarrow> wrx (tr_Right t) A 0;
            t' \<leftarrow> slot_put (t\<lparr>tr_Left := l, tr_Right := r\<rparr>) p A;
            Some ((A + 1) mod 2 ^ 16, t')
          }
          else Some (A, t)) = Some (A1, t1)" "slot_get t1 p = Some w"
    "insert_code Chr M i (k * 2 mod 2 ^ 16) (if k AND M \<noteq> 0 then RightSlot w else LeftSlot w) (A1, t1) = Some r"
    unfolding insert_code.simps bind_some by blast
  have "tshape t t1" using v(2)
    by (auto simp: tshape_def bind_some split: if_splits dest!: slot_put_tshape wrx_length)
  moreover have "tshape t1 (snd r)" using 2(1) [OF v(1,2) refl v(3,4)] by simp
  ultimately show ?case by (simp add: tshape_def)
qed

lemma insert_chars_tshape: "insert_chars bs TB W c St s = Some r \<Longrightarrow> tshape (snd s) (snd r)"
proof (induction bs arbitrary: c St s)
  case Nil
  then show ?case by (simp add: tshape_def)
next
  case (Cons b bs)
  obtain A t where s: "s = (A, t)" by (cases s)
  show ?case
  proof (cases "b = 0")
    case True
    with Cons show ?thesis by simp
  next
    case False
    let ?N = "(St ! b + W ! b) mod 2 ^ 16"
    from Cons.prems [unfolded s] False obtain s1 where s1: "(if b \<le> TB
              then map_option (\<lambda>xs. (A, t\<lparr>tr_Table := xs\<rparr>)) (fill (tr_Table t) (St ! b) ?N c)
              else insert_code c (2 ^ (15 - TB)) (b - TB) (St ! b) (TableSlot (St ! b div 2 ^ (16 - TB))) (A, t)) = Some s1"
      "insert_chars bs TB W (c + 1) (St[b := ?N]) s1 = Some r"
      unfolding insert_chars.simps Let_def if_not_P [OF False] bind_some by blast
    have "tshape t (snd s1)"
      using s1(1) by (auto simp: tshape_def split: if_splits dest!: fill_length insert_code_tshape)
    with Cons.IH [OF s1(2)] show ?thesis by (simp add: s tshape_def)
  qed
qed

lemma MakeTable_tshape: "MakeTable n BL TB t = Some r \<Longrightarrow> tshape t (snd r)"
  unfolding MakeTable_def Let_def
  by (auto simp: tshape_def simp del: make_start.simps upt_Suc split: bind_split_asm if_splits dest!: insert_chars_tshape fill_length)

lemma ReadPTLen_loop_shape:
  assumes "ReadPTLen_loop src Sp n i Sd = Some r"
  shows "shape Sd (snd r)"
proof (rule ReadPTLen_loop.raw_induct [OF _ assms, where P = "\<lambda>src Sp n i Sd r. shape Sd (snd r)"], goal_cases)
  case (1 f src Sp n i Sd r)
  note IH = 1(1)
  show ?case
  proof (cases "i < n")
    case False
    with 1(2) show ?thesis by auto
  next
    case True
    let ?c0 = "unat (drop_bit (BITBUFSIZ - 3) (mBitBuf Sd))"
    let ?c = "if ?c0 = 7 then 7 + count_ones (mBitBuf Sd) (BITBUFSIZ - 3) else ?c0"
    from 1(2) obtain S1 L j S2 where S1: "FillBuf src Sd (if ?c < 7 then 3 else ?c - 3) = Some S1" "wrx (mPTLen S1) i ?c = Some L"
      "(if i + 1 = Sp
        then do {
          (z, Sd2) \<leftarrow> GetBits src (S1\<lparr>mPTLen := L\<rparr>) 2;
          L2 \<leftarrow> fill L (i + 1) (i + 1 + z) 0;
          Some (i + 1 + z, Sd2\<lparr>mPTLen := L2\<rparr>)
        }
        else Some (i + 1, S1\<lparr>mPTLen := L\<rparr>)) = Some (j, S2)" "f src Sp n j S2 = Some r"
      unfolding Let_def if_P [OF True] bind_some by blast
    have "shape S1 S2"
      using S1(2,3) by (auto simp: bind_some shape_def split: if_splits dest!: GetBits_shape wrx_length fill_length)
    with FillBuf_shape [OF S1(1)] IH [OF S1(4)] show ?thesis using shape_trans by blast
  qed
qed

lemma ReadPTLen_shape:
  assumes "ReadPTLen src Sd nn nbit Sp = Some r"
  shows "shape Sd (snd r)"
proof -
  obtain n S1 where S1: "GetBits src Sd nbit = Some (n, S1)" using assms unfolding ReadPTLen_def bind_some by blast
  have s1: "shape Sd S1" using GetBits_shape [OF S1] by simp
  show ?thesis
  proof (cases "n = 0")
    case True
    with assms S1 obtain c S2 T L where S2: "GetBits src S1 nbit = Some (c, S2)" "fill (mPTTable S2) 0 256 c = Some T"
      "fill (mPTLen S2) 0 nn 0 = Some L" "r = (0, S2\<lparr>mPTTable := T, mPTLen := L\<rparr>)"
      by (auto simp: ReadPTLen_def bind_some)
    then show ?thesis using s1 GetBits_shape [OF S2(1)] fill_length [OF S2(2)] fill_length [OF S2(3)] by (simp add: shape_def)
  next
    case False
    with assms S1 obtain i S2 L g t where S2: "ReadPTLen_loop src Sp n 0 S1 = Some (i, S2)" "fill (mPTLen S2) i nn 0 = Some L"
      "MakeTable nn L 8 (get_tree (mPTTable S2) S2) = Some (g, t)"
      "r = (g, S2\<lparr>mPTLen := L, mPTTable := tr_Table t, mLeft := tr_Left t, mRight := tr_Right t\<rparr>)"
      by (auto simp: ReadPTLen_def bind_some)
    then show ?thesis using s1 ReadPTLen_loop_shape [OF S2(1)] fill_length [OF S2(2)] MakeTable_tshape [OF S2(3)]
      by (simp add: shape_def tshape_def get_tree_def)
  qed
qed

lemma ReadCLen_loop_shape:
  assumes "ReadCLen_loop src n i Sd = Some r"
  shows "shape Sd (snd r)"
proof (rule ReadCLen_loop.raw_induct [OF _ assms, where P = "\<lambda>src n i Sd r. shape Sd (snd r)"], goal_cases)
  case (1 f src n i Sd r)
  note IH = 1(1)
  show ?case
  proof (cases "i < n")
    case False
    with 1(2) show ?thesis by auto
  next
    case True
    from 1(2) obtain c k S1 where S1: "FillBuf src Sd k = Some S1" "(if c \<le> 2
         then do {
           (z, Sd2) \<leftarrow>
             (if c = 0 then Some (1, S1)
              else if c = 1 then map_option (\<lambda>(x, S). (x + 3, S)) (GetBits src S1 4)
              else map_option (\<lambda>(x, S). (x + 20, S)) (GetBits src S1 CBIT));
           L \<leftarrow> fill (mCLen Sd2) i (i + z) 0;
           f src n (i + z) (Sd2\<lparr>mCLen := L\<rparr>)
         }
         else do {
           L \<leftarrow> wrx (mCLen S1) i (c - 2);
           f src n (i + 1) (S1\<lparr>mCLen := L\<rparr>)
         }) = Some r"
      unfolding if_P [OF True] bind_some by blast
    have s1: "shape Sd S1" by (rule FillBuf_shape [OF S1(1)])
    show ?thesis
    proof (cases "c \<le> 2")
      case True
      from S1(2) obtain z S2 L where S2: "(if c = 0 then Some (1, S1)
              else if c = 1 then map_option (\<lambda>(x, S). (x + 3, S)) (GetBits src S1 4)
              else map_option (\<lambda>(x, S). (x + 20, S)) (GetBits src S1 CBIT)) = Some (z, S2)"
        "fill (mCLen S2) i (i + z) 0 = Some L" "f src n (i + z) (S2\<lparr>mCLen := L\<rparr>) = Some r"
        unfolding if_P [OF True] bind_some by blast
      have "shape S1 S2" using S2(1) by (auto split: if_splits dest!: GetBits_shape)
      then show ?thesis using s1 fill_length [OF S2(2)] IH [OF S2(3)] by (simp add: shape_def)
    next
      case False
      from S1(2) obtain L where L: "wrx (mCLen S1) i (c - 2) = Some L" "f src n (i + 1) (S1\<lparr>mCLen := L\<rparr>) = Some r"
        unfolding if_not_P [OF False] bind_some by blast
      then show ?thesis using s1 wrx_length [OF L(1)] IH [OF L(2)] by (simp add: shape_def)
    qed
  qed
qed

lemma ReadCLen_shape:
  assumes "ReadCLen src Sd = Some Sd'"
  shows "shape Sd Sd'"
proof -
  obtain n S1 where S1: "GetBits src Sd CBIT = Some (n, S1)" using assms unfolding ReadCLen_def bind_some by blast
  have s1: "shape Sd S1" using GetBits_shape [OF S1] by simp
  show ?thesis
  proof (cases "n = 0")
    case True
    with assms S1 obtain c S2 T L where S2: "GetBits src S1 CBIT = Some (c, S2)" "fill (mCLen S2) 0 NC 0 = Some L"
      "fill (mCTable S2) 0 4096 c = Some T" "Sd' = S2\<lparr>mCLen := L, mCTable := T\<rparr>"
      by (auto simp: ReadCLen_def bind_some)
    then show ?thesis using s1 GetBits_shape [OF S2(1)] fill_length [OF S2(2)] fill_length [OF S2(3)] by (simp add: shape_def)
  next
    case False
    with assms S1 obtain i S2 L g t where S2: "ReadCLen_loop src n 0 S1 = Some (i, S2)" "fill (mCLen S2) i NC 0 = Some L"
      "MakeTable NC L 12 (get_tree (mCTable S2) S2) = Some (g, t)"
      "Sd' = S2\<lparr>mCLen := L, mCTable := tr_Table t, mLeft := tr_Left t, mRight := tr_Right t\<rparr>"
      by (auto simp: ReadCLen_def bind_some)
    then show ?thesis using s1 ReadCLen_loop_shape [OF S2(1)] fill_length [OF S2(2)] MakeTable_tshape [OF S2(3)]
      by (simp add: shape_def tshape_def get_tree_def)
  qed
qed

lemma shape_upd [simp]:
  "shape Sd (Sd'\<lparr>mBlockSize := b\<rparr>) = shape Sd Sd'" "shape Sd (Sd'\<lparr>mBadTableFlag := b\<rparr>) = shape Sd Sd'"
  "shape (Sd\<lparr>mBlockSize := b\<rparr>) Sd' = shape Sd Sd'" "shape (Sd\<lparr>mBadTableFlag := b\<rparr>) Sd' = shape Sd Sd'"
  "shape Sd (Sd'\<lparr>mOutBuf := b\<rparr>) = shape Sd Sd'" "shape (Sd\<lparr>mOutBuf := b\<rparr>) Sd' = shape Sd Sd'"
  by (simp_all add: shape_def)

lemma StartBlock_shape:
  assumes "StartBlock src Sd = Some r"
  shows "shape Sd (snd r)"
proof -
  obtain b S1 f S2 where S2: "GetBits src Sd 16 = Some (b, S1)" "ReadPTLen src (S1\<lparr>mBlockSize := b\<rparr>) NT TBIT 3 = Some (f, S2)"
    "(if f \<noteq> 0 then Some (False, S2\<lparr>mBadTableFlag := f\<rparr>)
        else do {
          Sd3 \<leftarrow> ReadCLen src (S2\<lparr>mBadTableFlag := f\<rparr>);
          (g, Sd4) \<leftarrow> ReadPTLen src Sd3 MAXNP (mPBit Sd3) 0xFFFF;
          Some (g = 0, Sd4\<lparr>mBadTableFlag := g\<rparr>)
        }) = Some r"
    using assms unfolding StartBlock_def bind_some by blast
  have "shape Sd S1" "shape S1 S2" using GetBits_shape [OF S2(1)] ReadPTLen_shape [OF S2(2)] by simp_all
  then have s2: "shape Sd S2" by (rule shape_trans)
  show ?thesis
  proof (cases "f = 0")
    case False
    with S2(3) s2 show ?thesis by auto
  next
    case True
    then have F: "\<not> f \<noteq> 0" by simp
    from S2(3) obtain S3 g S4 where S3: "ReadCLen src (S2\<lparr>mBadTableFlag := f\<rparr>) = Some S3"
      "ReadPTLen src S3 MAXNP (mPBit S3) 0xFFFF = Some (g, S4)" "Some (g = 0, S4\<lparr>mBadTableFlag := g\<rparr>) = Some r"
      unfolding if_not_P [OF F] bind_some by blast
    have "shape S2 S3" "shape S3 S4" using ReadCLen_shape [OF S3(1)] ReadPTLen_shape [OF S3(2)] by simp_all
    then have "shape Sd S4" using s2 shape_trans by blast
    moreover have "r = (g = 0, S4\<lparr>mBadTableFlag := g\<rparr>)" using S3(3) by simp
    ultimately show ?thesis by simp
  qed
qed

lemma DecodeC_shape:
  assumes "DecodeC src Sd = Some r"
  shows "shape Sd (snd r)"
proof -
  obtain ok S1 where S1: "(if mBlockSize Sd = 0 then StartBlock src Sd else Some (True, Sd)) = Some (ok, S1)"
    using assms unfolding DecodeC_def bind_some by blast
  have s1: "shape Sd S1" using S1 by (auto split: if_splits dest!: StartBlock_shape)
  show ?thesis
  proof (cases ok)
    case False
    with assms S1 s1 show ?thesis by (auto simp: DecodeC_def)
  next
    case True
    let ?S = "S1\<lparr>mBlockSize := (mBlockSize S1 + 0xFFFF) mod 2 ^ 16\<rparr>"
    from assms S1 True obtain n S3 where S3: "FillBuf src ?S n = Some S3" "snd r = S3"
      by (auto simp: DecodeC_def bind_some Let_def)
    have "shape S1 S3" using FillBuf_shape [OF S3(1)] by simp
    with s1 S3(2) show ?thesis using shape_trans by blast
  qed
qed

lemma DecodeP_shape:
  assumes "DecodeP src Sd = Some r"
  shows "shape Sd (snd r)"
proof -
  obtain Val n S1 where S1: "FillBuf src Sd n = Some S1" "(if Val > 1
        then do {
          (x, Sd2) \<leftarrow> GetBits src S1 (Val - 1);
          Some (2 ^ (Val - 1) + x, Sd2)
        }
        else Some (Val, S1)) = Some r"
    using assms unfolding DecodeP_def bind_some by blast
  have "shape S1 (snd r)" using S1(2) by (auto simp: bind_some split: if_splits dest!: GetBits_shape)
  with FillBuf_shape [OF S1(1)] shape_trans show ?thesis by blast
qed

lemma CopyBytes_shape: "CopyBytes n i Sd = Some r \<Longrightarrow> shape Sd (snd r)"
proof (induction n arbitrary: i Sd)
  case 0
  then show ?case by auto
next
  case (Suc n)
  from Suc.prems obtain x D where D: "wrx (mDst Sd) (mOutBuf Sd) x = Some D"
    "r = (True, Sd\<lparr>mDst := D, mOutBuf := (mOutBuf Sd + 1) mod 2 ^ 32\<rparr>)
     \<or> CopyBytes n ((i + 1) mod 2 ^ 32) (Sd\<lparr>mDst := D, mOutBuf := (mOutBuf Sd + 1) mod 2 ^ 32\<rparr>) = Some r"
    by (auto simp: bind_some Let_def split: if_splits)
  have s: "shape Sd (Sd\<lparr>mDst := D, mOutBuf := (mOutBuf Sd + 1) mod 2 ^ 32\<rparr>)" using wrx_length [OF D(1)] by (simp add: shape_def)
  from D(2) show ?case
  proof
    assume "CopyBytes n ((i + 1) mod 2 ^ 32) (Sd\<lparr>mDst := D, mOutBuf := (mOutBuf Sd + 1) mod 2 ^ 32\<rparr>) = Some r"
    from shape_trans [OF s Suc.IH [OF this]] show ?case .
  qed (use s in simp)
qed

lemma Decode_shape:
  assumes "Decode src Sd = Some Sd'"
  shows "shape Sd Sd'"
proof (rule Decode.raw_induct [OF _ assms, where P = "\<lambda>src Sd Sd'. shape Sd Sd'"], goal_cases)
  case (1 f src Sd r)
  note IH = 1(1)
  obtain c S1 where S1: "DecodeC src Sd = Some (c, S1)" using 1(2) unfolding bind_some by blast
  have s1: "shape Sd S1" using DecodeC_shape [OF S1] by simp
  show ?case
  proof (cases "mBadTableFlag S1 \<noteq> 0 \<or> c < 256 \<and> mOutBuf S1 \<ge> mOrigSize S1")
    case True
    with 1(2) S1 s1 show ?thesis by (auto split: if_splits)
  next
    case F: False
    show ?thesis
    proof (cases "c < 256")
      case True
      with 1(2) S1 F obtain D where D: "wrx (mDst S1) (mOutBuf S1) (word_of_nat c) = Some D"
        "f src (S1\<lparr>mDst := D, mOutBuf := mOutBuf S1 + 1\<rparr>) = Some r"
        by (auto simp: bind_some split: if_splits)
      from s1 wrx_length [OF D(1)] IH [OF D(2)] show ?thesis by (simp add: shape_def)
    next
      case False
      from F False have F': "\<not> mBadTableFlag S1 \<noteq> 0" by simp
      from 1(2) obtain p S2 full S3 where S3: "DecodeP src S1 = Some (p, S2)"
        "CopyBytes (c - (UINT8_MAX + 1 - THRESHOLD)) ((mOutBuf S1 + (2 ^ 33 - p - 1)) mod 2 ^ 32) S2 = Some (full, S3)"
        "(if full then Some S3 else f src S3) = Some r"
        unfolding S1 bind.bind_lunit prod.case if_not_P [OF F'] if_not_P [OF False] bind_some by blast
      have "shape S3 r" using S3(3) IH by (auto split: if_splits)
      moreover have "shape S1 S2" using DecodeP_shape [OF S3(1)] by simp
      moreover have "shape S2 S3" using CopyBytes_shape [OF S3(2)] by simp
      ultimately show ?thesis using s1 shape_trans by blast
    qed
  qed
qed



end
