(* ===== verification/DevicePath.thy ===== *)
theory DevicePath
  imports Prelude
begin

text \<open>
  The device path routines of \<^verbatim>\<open>AmiCompatibilityPkg/Library/EfiLib.c\<close> and the comparison of \<^verbatim>\<open>Memory.c\<close> they use.
  A device path is a sequence of nodes in memory: type, sub-type, length in two bytes, data.  End nodes end an
  instance of the path, or the path.

  A pointer that may be \<^verbatim>\<open>NULL\<close> is a \<open>nat option\<close>.  \<open>Malloc\<close> gives the answer of the pool to a request for a
  number of bytes.  A routine that writes outside of the block it was given, writes through \<^verbatim>\<open>NULL\<close>, or does not
  return, has the value \<open>None\<close>.
\<close>

section \<open>Nodes\<close>

definition HARDWARE_DEVICE_PATH :: u8 where "HARDWARE_DEVICE_PATH = 0x01"
definition ACPI_DEVICE_PATH :: u8 where "ACPI_DEVICE_PATH = 0x02"
definition MESSAGING_DEVICE_PATH :: u8 where "MESSAGING_DEVICE_PATH = 0x03"
definition MEDIA_DEVICE_PATH :: u8 where "MEDIA_DEVICE_PATH = 0x04"
definition BBS_DEVICE_PATH :: u8 where "BBS_DEVICE_PATH = 0x05"
definition END_DEVICE_PATH :: u8 where "END_DEVICE_PATH = 0x7F"
definition END_DEVICE_PATH1 :: u8 where "END_DEVICE_PATH1 = 0xFF"
definition END_ENTIRE_SUBTYPE :: u8 where "END_ENTIRE_SUBTYPE = 0xFF"
definition END_INSTANCE_SUBTYPE :: u8 where "END_INSTANCE_SUBTYPE = 0x01"
definition MAX_DP_SIZE :: nat where "MAX_DP_SIZE = 0x10000"
definition sizeof_node :: nat where "sizeof_node = 4"

lemmas dp_consts = HARDWARE_DEVICE_PATH_def ACPI_DEVICE_PATH_def MESSAGING_DEVICE_PATH_def MEDIA_DEVICE_PATH_def
  BBS_DEVICE_PATH_def END_DEVICE_PATH_def END_DEVICE_PATH1_def END_ENTIRE_SUBTYPE_def END_INSTANCE_SUBTYPE_def
  MAX_DP_SIZE_def sizeof_node_def

definition DevicePathTypes :: "u8 list" where
  "DevicePathTypes = [HARDWARE_DEVICE_PATH, ACPI_DEVICE_PATH, MESSAGING_DEVICE_PATH, MEDIA_DEVICE_PATH, BBS_DEVICE_PATH,
     END_DEVICE_PATH, END_DEVICE_PATH1]"

definition dp_Type :: "memory \<Rightarrow> nat \<Rightarrow> u8" where "dp_Type m p = m p"
definition dp_SubType :: "memory \<Rightarrow> nat \<Rightarrow> u8" where "dp_SubType m p = m (p + 1)"
definition NODE_LENGTH :: "memory \<Rightarrow> nat \<Rightarrow> nat" where "NODE_LENGTH m p = rd 2 m (p + 2)"
definition NEXT_NODE :: "memory \<Rightarrow> nat \<Rightarrow> nat" where "NEXT_NODE m p = p + NODE_LENGTH m p"
definition isEndNode :: "memory \<Rightarrow> nat \<Rightarrow> bool" where
  "isEndNode m p \<longleftrightarrow> dp_Type m p = END_DEVICE_PATH \<or> dp_Type m p = END_DEVICE_PATH1"

definition is_end_entire :: "memory \<Rightarrow> nat \<Rightarrow> bool" where
  "is_end_entire m p \<longleftrightarrow> isEndNode m p \<and> dp_SubType m p = END_ENTIRE_SUBTYPE"

definition EndOfDevicePathNode :: "u8 list" where
  "EndOfDevicePathNode = [END_DEVICE_PATH, END_ENTIRE_SUBTYPE, 4, 0]"

section \<open>Comparing memory\<close>

text \<open>The loops of \<^verbatim>\<open>MemCmp\<close>: bytes up to an aligned address, machine words, bytes.\<close>

fun MemCmp_align :: "memory \<Rightarrow> nat \<Rightarrow> nat \<Rightarrow> nat \<Rightarrow> nat \<times> nat" where
  "MemCmp_align m d s 0 = (d, s)"
| "MemCmp_align m d s (Suc r) = (if m d = m s then MemCmp_align m (d + 1) (s + 1) r else (d, s))"

function MemCmp_words :: "memory \<Rightarrow> nat \<Rightarrow> nat \<Rightarrow> nat \<Rightarrow> nat \<times> nat" where
  "MemCmp_words m d s e =
     (if d \<le> e - 8 \<and> 8 \<le> e then if rd 8 m d = rd 8 m s then MemCmp_words m (d + 8) (s + 8) e else (d, s) else (d, s))"
  by auto
termination by (relation "measure (\<lambda>(m, d, s, e). e - d)") auto

function MemCmp_bytes :: "memory \<Rightarrow> nat \<Rightarrow> nat \<Rightarrow> nat \<Rightarrow> int" where
  "MemCmp_bytes m d s e =
     (if d < e then if m d = m s then MemCmp_bytes m (d + 1) (s + 1) e else sint (m d) - sint (m s) else 0)"
  by auto
termination by (relation "measure (\<lambda>(m, d, s, e). e - d)") auto

declare MemCmp_words.simps [simp del] MemCmp_bytes.simps [simp del]

definition MemCmp :: "memory \<Rightarrow> nat \<Rightarrow> nat \<Rightarrow> nat \<Rightarrow> int" where
  "MemCmp m d s Count =
     (let e = d + Count;
          (d1, s1) =
            (if 8 \<le> Count
             then let r = d mod 8;
                      (d0, s0) = (if r \<noteq> 0 \<and> r = s mod 8 then MemCmp_align m d s (8 - r) else (d, s))
                  in MemCmp_words m d0 s0 e
             else (d, s))
      in MemCmp_bytes m d1 s1 e)"

section \<open>Allocation and copying\<close>

type_synonym pool = "nat \<Rightarrow> nat option"

text \<open>Writing to a new block of \<open>Size\<close> bytes, and copying to it.\<close>

definition blk_write :: "nat option \<Rightarrow> nat \<Rightarrow> nat \<Rightarrow> u8 list \<Rightarrow> memory \<Rightarrow> memory option" where
  "blk_write b Size off bs m =
     (if bs = [] then Some m
      else case b of None \<Rightarrow> None | Some a \<Rightarrow> if off + length bs \<le> Size then Some (wr_bytes m (a + off) bs) else None)"

definition blk_copy :: "nat option \<Rightarrow> nat \<Rightarrow> nat \<Rightarrow> nat \<Rightarrow> nat \<Rightarrow> memory \<Rightarrow> memory option" where
  "blk_copy b Size off src n m =
     (if n = 0 then Some m
      else case b of None \<Rightarrow> None | Some a \<Rightarrow> if off + n \<le> Size then Some (wr_bytes m (a + off) (rd_bytes m src n)) else None)"

section \<open>The routines\<close>

partial_function (option) IsValidDevicePath_loop :: "memory \<Rightarrow> nat \<Rightarrow> nat \<Rightarrow> efi_status option" where
  "IsValidDevicePath_loop m pDp DevicePathSize =
     (if is_end_entire m pDp then Some EFI_SUCCESS
      else
        let Size = DevicePathSize + NODE_LENGTH m pDp
        in if dp_Type m pDp \<notin> set DevicePathTypes \<or> Size > MAX_DP_SIZE then Some EFI_INVALID_PARAMETER
           else IsValidDevicePath_loop m (NEXT_NODE m pDp) Size)"

declare IsValidDevicePath_loop.simps [code]

definition IsValidDevicePath :: "memory \<Rightarrow> nat \<Rightarrow> efi_status option" where
  "IsValidDevicePath m pDp = IsValidDevicePath_loop m pDp 0"

partial_function (option) DPLength_loop :: "memory \<Rightarrow> nat \<Rightarrow> nat \<Rightarrow> nat option" where
  "DPLength_loop m pDp Size =
     (if is_end_entire m pDp then Some (Size + sizeof_node)
      else
        let Length = NODE_LENGTH m pDp
        in if dp_Type m pDp = 0 \<or> Length = 0 then Some Size else DPLength_loop m (NEXT_NODE m pDp) (Size + Length))"

declare DPLength_loop.simps [code]

fun DPLength :: "memory \<Rightarrow> nat option \<Rightarrow> nat option" where
  "DPLength m None = Some 0"
| "DPLength m (Some pDp) = DPLength_loop m pDp 0"

fun DPCopy :: "pool \<Rightarrow> memory \<Rightarrow> nat option \<Rightarrow> (nat option \<times> memory) option" where
  "DPCopy Malloc m None = Some (None, m)"
| "DPCopy Malloc m (Some pDp) =
     do {
       l \<leftarrow> DPLength m (Some pDp);
       m' \<leftarrow> blk_copy (Malloc l) l 0 pDp l m;
       Some (Malloc l, m')
     }"

text \<open>\<open>eon\<close> is the address of the static \<^verbatim>\<open>EndOfDevicePathNode\<close>.\<close>

definition DPAddNode ::
    "pool \<Rightarrow> nat \<Rightarrow> memory \<Rightarrow> nat option \<Rightarrow> nat option \<Rightarrow> (nat option \<times> memory) option" where
  "DPAddNode Malloc eon m pDp1 pDp2 =
     (case pDp2 of
        None \<Rightarrow> DPCopy Malloc m (if pDp1 \<noteq> None then pDp1 else Some eon)
      | Some p2 \<Rightarrow>
          do {
            l1 \<leftarrow> (if pDp1 \<noteq> None then map_option (\<lambda>l. uintn_sub l sizeof_node) (DPLength m pDp1) else Some 0);
            let Size = (l1 + NODE_LENGTH m p2 + sizeof_node) mod 2 ^ 64;
            let NewDp = Malloc Size;
            m1 \<leftarrow> (case pDp1 of Some p1 \<Rightarrow> blk_copy NewDp Size 0 p1 l1 m | None \<Rightarrow> Some m);
            m2 \<leftarrow> blk_copy NewDp Size l1 p2 (NODE_LENGTH m1 p2) m1;
            m3 \<leftarrow> blk_write NewDp Size (l1 + NODE_LENGTH m2 p2) EndOfDevicePathNode m2;
            Some (NewDp, m3)
          })"

definition DPAdd ::
    "pool \<Rightarrow> nat \<Rightarrow> memory \<Rightarrow> nat option \<Rightarrow> nat option \<Rightarrow> (nat option \<times> memory) option" where
  "DPAdd Malloc eon m pDp1 pDp2 =
     (case (pDp1, pDp2) of
        (None, _) \<Rightarrow> DPCopy Malloc m (if pDp2 \<noteq> None then pDp2 else Some eon)
      | (_, None) \<Rightarrow> DPCopy Malloc m pDp1
      | (Some p1, Some p2) \<Rightarrow>
          do {
            l1 \<leftarrow> map_option (\<lambda>l. uintn_sub l sizeof_node) (DPLength m (Some p1));
            l2 \<leftarrow> DPLength m (Some p2);
            let Size = (l1 + l2) mod 2 ^ 64;
            let NewDp = Malloc Size;
            m1 \<leftarrow> blk_copy NewDp Size 0 p1 l1 m;
            m2 \<leftarrow> blk_copy NewDp Size l1 p2 l2 m1;
            Some (NewDp, m2)
          })"

definition DPAddInstance ::
    "pool \<Rightarrow> memory \<Rightarrow> nat option \<Rightarrow> nat option \<Rightarrow> (nat option \<times> memory) option" where
  "DPAddInstance Malloc m pDp1 pDp2 =
     (case (pDp1, pDp2) of
        (_, None) \<Rightarrow> Some (None, m)
      | (None, Some p2) \<Rightarrow> DPCopy Malloc m (Some p2)
      | (Some p1, Some p2) \<Rightarrow>
          do {
            l1 \<leftarrow> DPLength m (Some p1);
            l2 \<leftarrow> DPLength m (Some p2);
            let Size = (l1 + l2) mod 2 ^ 64;
            let NewDp = Malloc Size;
            m1 \<leftarrow> blk_copy NewDp Size 0 p1 l1 m;
            m2 \<leftarrow> (if l1 < sizeof_node then None else blk_write NewDp Size (l1 - sizeof_node + 1) [END_INSTANCE_SUBTYPE] m1);
            m3 \<leftarrow> blk_copy NewDp Size l1 p2 l2 m2;
            Some (NewDp, m3)
          })"

text \<open>The loop of \<^verbatim>\<open>DPGetEndNode\<close>, which \<^verbatim>\<open>DPIsOneOf\<close> repeats.\<close>

partial_function (option) end_loop :: "memory \<Rightarrow> nat \<Rightarrow> nat option" where
  "end_loop m pDp = (if isEndNode m pDp then Some pDp else end_loop m (NEXT_NODE m pDp))"

declare end_loop.simps [code]

partial_function (option) match_loop :: "memory \<Rightarrow> nat \<Rightarrow> nat \<Rightarrow> (nat \<times> nat) option" where
  "match_loop m pPath pAll =
     (if NODE_LENGTH m pPath = NODE_LENGTH m pAll \<and> \<not> isEndNode m pPath \<and> MemCmp m pPath pAll (NODE_LENGTH m pAll) = 0
      then match_loop m (NEXT_NODE m pPath) (NEXT_NODE m pAll)
      else Some (pPath, pAll))"

declare match_loop.simps [code]

partial_function (option) DPIsOneOf :: "memory \<Rightarrow> nat \<Rightarrow> nat \<Rightarrow> bool \<Rightarrow> bool option" where
  "DPIsOneOf m pAll pOne ExactMatch =
     do {
       (pPath, pAll1) \<leftarrow> match_loop m pOne pAll;
       (if isEndNode m pAll1 \<and> (\<not> ExactMatch \<or> isEndNode m pPath) then Some True
        else do {
          pAll2 \<leftarrow> end_loop m pAll1;
          (if dp_SubType m pAll2 = END_ENTIRE_SUBTYPE then Some False
           else DPIsOneOf m (pAll2 + sizeof_node) pOne ExactMatch)
        })
     }"

declare DPIsOneOf.simps [code]

partial_function (option) last_loop :: "memory \<Rightarrow> nat \<Rightarrow> nat option \<Rightarrow> nat option option" where
  "last_loop m pDp dp = (if isEndNode m pDp then Some dp else last_loop m (NEXT_NODE m pDp) (Some pDp))"

declare last_loop.simps [code]

fun DPGetLastNode :: "memory \<Rightarrow> nat option \<Rightarrow> nat option option" where
  "DPGetLastNode m None = Some None"
| "DPGetLastNode m (Some pDp) = last_loop m pDp None"

definition DPCmp :: "memory \<Rightarrow> nat option \<Rightarrow> nat option \<Rightarrow> int option" where
  "DPCmp m pDp1 pDp2 =
     (case (pDp1, pDp2) of
        (None, None) \<Rightarrow> Some 0
      | (Some p1, Some p2) \<Rightarrow>
          do {
            len \<leftarrow> DPLength m (Some p1);
            l2 \<leftarrow> DPLength m (Some p2);
            Some (if l2 \<noteq> len then - 1 else MemCmp m p1 p2 len)
          }
      | _ \<Rightarrow> Some (- 1))"

fun DPCut :: "pool \<Rightarrow> memory \<Rightarrow> nat option \<Rightarrow> (nat option \<times> memory) option" where
  "DPCut Malloc m None = Some (None, m)"
| "DPCut Malloc m (Some pDp) =
     do {
       pdp \<leftarrow> DPGetLastNode m (Some pDp);
       let len = uintn_sub (case pdp of None \<Rightarrow> 0 | Some q \<Rightarrow> q) pDp;
       (if len = 0 then Some (None, m)
        else
          let Size = (len + sizeof_node) mod 2 ^ 64; new = Malloc Size
          in do {
               m1 \<leftarrow> blk_copy new Size 0 pDp len m;
               m2 \<leftarrow> blk_write new Size len [END_DEVICE_PATH, END_ENTIRE_SUBTYPE, 4, 0] m1;
               Some (new, m2)
             })
     }"

fun DPGetEndNode :: "memory \<Rightarrow> nat option \<Rightarrow> nat option option" where
  "DPGetEndNode m None = Some None"
| "DPGetEndNode m (Some pDp) = map_option Some (end_loop m pDp)"

text \<open>The result is the new instance, the pointer behind \<^verbatim>\<open>ppDp\<close> and the size afterwards (\<open>None\<close> for a
  \<^verbatim>\<open>NULL\<close> argument), and the memory.\<close>

definition DPNextInstance ::
    "pool \<Rightarrow> memory \<Rightarrow> nat option option \<Rightarrow> bool \<Rightarrow> (nat option \<times> nat option option \<times> nat option \<times> memory) option" where
  "DPNextInstance Malloc m ppDp hasSize =
     (let sz = (\<lambda>n. if hasSize then Some n else None)
      in case ppDp of
           None \<Rightarrow> Some (None, None, sz 0, m)
         | Some None \<Rightarrow> Some (None, Some None, sz 0, m)
         | Some (Some p) \<Rightarrow>
             do {
               pEnd \<leftarrow> end_loop m p;
               let Size = pEnd + sizeof_node - p;
               (case Malloc Size of
                  None \<Rightarrow> Some (None, ppDp, sz Size, m)
                | Some pNew \<Rightarrow>
                    let m1 = wr_bytes m pNew (rd_bytes m p Size);
                        m2 = wr_bytes m1 (pNew + Size - sizeof_node + 1) [END_ENTIRE_SUBTYPE]
                    in Some (Some pNew, Some (if dp_SubType m2 pEnd = END_ENTIRE_SUBTYPE then None else Some (pEnd + sizeof_node)),
                             sz Size, m2))
             })"

definition DPCreateNode ::
    "pool \<Rightarrow> memory \<Rightarrow> u8 \<Rightarrow> u8 \<Rightarrow> nat \<Rightarrow> nat option \<times> memory" where
  "DPCreateNode Malloc m Type SubType Length =
     (if Length < sizeof_node then (None, m)
      else case Malloc Length of
             None \<Rightarrow> (None, m)
           | Some p \<Rightarrow> (Some p, wr_bytes (wr_bytes m p (replicate Length 0)) p ([Type, SubType] @ le_bytes 2 Length)))"

definition DPIsMultiInstance :: "memory \<Rightarrow> nat option \<Rightarrow> bool option" where
  "DPIsMultiInstance m pDp =
     (case pDp of None \<Rightarrow> Some False
      | Some p \<Rightarrow> map_option (\<lambda>e. dp_SubType m e \<noteq> END_ENTIRE_SUBTYPE) (end_loop m p))"

end
