(* ===== verification/DevicePathFacts.thy ===== *)
theory DevicePathFacts
  imports DevicePath "HOL-Library.Sublist"
begin

text \<open>
  Device paths as lists of instances, each a list of nodes, and the routines as operations on these lists.
\<close>

section \<open>The bytes of a path\<close>

datatype dp_node = Node (nd_type: u8) (nd_sub: u8) (nd_data: "u8 list")

definition node_bytes :: "dp_node \<Rightarrow> u8 list" where
  "node_bytes n = [nd_type n, nd_sub n] @ le_bytes 2 (4 + length (nd_data n)) @ nd_data n"

definition nodes_bytes :: "dp_node list \<Rightarrow> u8 list" where
  "nodes_bytes ns = concat (map node_bytes ns)"

text \<open>A node of an instance is not an end node and fits its length field.\<close>

definition plain :: "dp_node \<Rightarrow> bool" where
  "plain n \<longleftrightarrow> nd_type n \<noteq> 0 \<and> nd_type n \<noteq> END_DEVICE_PATH \<and> nd_type n \<noteq> END_DEVICE_PATH1 \<and> length (nd_data n) < 2 ^ 16 - 4"

text \<open>An instance: its nodes and the type of the end node behind them.\<close>

type_synonym dp_instance = "dp_node list \<times> u8"

definition inst_ok :: "dp_instance \<Rightarrow> bool" where
  "inst_ok i \<longleftrightarrow> list_all plain (fst i) \<and> (snd i = END_DEVICE_PATH \<or> snd i = END_DEVICE_PATH1)"

definition inst_bytes :: "dp_instance \<Rightarrow> u8 \<Rightarrow> u8 list" where
  "inst_bytes i s = nodes_bytes (fst i) @ [snd i, s, 4, 0]"

fun path_bytes :: "dp_instance list \<Rightarrow> u8 list" where
  "path_bytes [] = []"
| "path_bytes [i] = inst_bytes i END_ENTIRE_SUBTYPE"
| "path_bytes (i # rest) = inst_bytes i END_INSTANCE_SUBTYPE @ path_bytes rest"

definition path_ok :: "dp_instance list \<Rightarrow> bool" where
  "path_ok I \<longleftrightarrow> I \<noteq> [] \<and> list_all inst_ok I"

definition has :: "memory \<Rightarrow> nat \<Rightarrow> u8 list \<Rightarrow> bool" where
  "has m p bs \<longleftrightarrow> rd_bytes m p (length bs) = bs"

lemma has_append: "has m p (xs @ ys) \<longleftrightarrow> has m p xs \<and> has m (p + length xs) ys"
  by (simp add: has_def rd_bytes_append)

lemma has_Cons: "has m p (x # xs) \<longleftrightarrow> m p = x \<and> has m (Suc p) xs"
  by (simp add: has_def rd_bytes_Suc)

lemma has_Nil [simp]: "has m p []"
  by (simp add: has_def)

lemma has_wr: "has (wr_bytes m a bs) a bs"
  by (simp add: has_def)

lemma has_frame: "a + length xs \<le> p \<or> p + length bs \<le> a \<Longrightarrow> has (wr_bytes m a xs) p bs \<longleftrightarrow> has m p bs"
  by (auto simp: has_def rd_bytes_wr_disjoint)

lemma has_rd: "has m p bs \<Longrightarrow> rd_bytes m p (length bs) = bs"
  by (simp add: has_def)

lemma length_node_bytes [simp]: "length (node_bytes n) = 4 + length (nd_data n)"
  by (simp add: node_bytes_def)

lemma nodes_bytes_simps [simp]: "nodes_bytes [] = []" "nodes_bytes (n # ns) = node_bytes n @ nodes_bytes ns"
  "nodes_bytes (ns @ ns') = nodes_bytes ns @ nodes_bytes ns'"
  by (simp_all add: nodes_bytes_def)

lemma length_inst_bytes: "length (inst_bytes i s) = length (nodes_bytes (fst i)) + 4"
  by (simp add: inst_bytes_def)

text \<open>The header of a node and of an end node.\<close>

lemma node_header:
  assumes "has m p (node_bytes n)" "plain n"
  shows "dp_Type m p = nd_type n" "NODE_LENGTH m p = length (node_bytes n)" "\<not> isEndNode m p" "\<not> is_end_entire m p"
    "dp_Type m p \<noteq> 0"
proof -
  have h: "m p = nd_type n" "has m (Suc (Suc p)) (le_bytes 2 (4 + length (nd_data n)))"
    using assms(1) by (simp_all add: node_bytes_def has_append has_Cons)
  have "rd_bytes m (p + 2) 2 = le_bytes 2 (4 + length (nd_data n))" using has_rd [OF h(2)] by simp
  then show "NODE_LENGTH m p = length (node_bytes n)"
    using assms(2) by (simp add: NODE_LENGTH_def rd_def plain_def)
  show "dp_Type m p = nd_type n" using h(1) by (simp add: dp_Type_def)
  then show "\<not> isEndNode m p" "dp_Type m p \<noteq> 0" using assms(2) by (auto simp: isEndNode_def plain_def)
  then show "\<not> is_end_entire m p" by (simp add: is_end_entire_def)
qed

lemma end_header:
  assumes "has m p [e, s, 4, 0]" "e = END_DEVICE_PATH \<or> e = END_DEVICE_PATH1"
  shows "isEndNode m p" "dp_SubType m p = s" "NODE_LENGTH m p = 4" "dp_Type m p = e"
proof -
  have h: "m p = e" "m (p + 1) = s" "m (p + 2) = 4" "m (p + 3) = 0"
    using assms(1) by (simp_all add: has_Cons numeral_2_eq_2 numeral_3_eq_3)
  then show "isEndNode m p" "dp_SubType m p = s" "dp_Type m p = e" using assms(2)
    by (simp_all add: isEndNode_def dp_Type_def dp_SubType_def)
  show "NODE_LENGTH m p = 4" using h(3,4) by (simp add: NODE_LENGTH_def rd_2 numeral_3_eq_3)
qed

section \<open>Walking over a path\<close>

lemma DPLength_nodes:
  "has m p (nodes_bytes ns) \<Longrightarrow> list_all plain ns \<Longrightarrow>
    DPLength_loop m p S = DPLength_loop m (p + length (nodes_bytes ns)) (S + length (nodes_bytes ns))"
proof (induction ns arbitrary: p S)
  case Nil
  then show ?case by simp
next
  case (Cons n ns)
  have h: "has m p (node_bytes n)" "has m (p + length (node_bytes n)) (nodes_bytes ns)" "plain n" "list_all plain ns"
    using Cons.prems by (simp_all add: has_append)
  note nh = node_header [OF h(1,3)]
  have "DPLength_loop m p S = DPLength_loop m (p + length (node_bytes n)) (S + length (node_bytes n))"
    using nh by (subst DPLength_loop.simps) (simp add: NEXT_NODE_def Let_def)
  with Cons.IH [OF h(2,4)] show ?case by (simp add: add.assoc)
qed

lemma DPLength_path:
  "has m p (path_bytes I) \<Longrightarrow> path_ok I \<Longrightarrow> DPLength_loop m p S = Some (S + length (path_bytes I))"
proof (induction I arbitrary: p S rule: path_bytes.induct)
  case 1
  then show ?case by (simp add: path_ok_def)
next
  case (2 i)
  have h: "has m p (nodes_bytes (fst i))" "has m (p + length (nodes_bytes (fst i))) [snd i, END_ENTIRE_SUBTYPE, 4, 0]"
    "list_all plain (fst i)" "snd i = END_DEVICE_PATH \<or> snd i = END_DEVICE_PATH1"
    using 2 by (simp_all add: inst_bytes_def has_append path_ok_def inst_ok_def)
  note eh = end_header [OF h(2,4)]
  show ?case
    unfolding DPLength_nodes [OF h(1,3)] using eh
    by (subst DPLength_loop.simps) (simp add: is_end_entire_def inst_bytes_def sizeof_node_def)
next
  case (3 i j rest)
  let ?l = "length (nodes_bytes (fst i))"
  have "has m p (inst_bytes i END_INSTANCE_SUBTYPE)" "has m (p + length (inst_bytes i END_INSTANCE_SUBTYPE)) (path_bytes (j # rest))"
    using 3(2) by (simp_all only: path_bytes.simps has_append)
  then have h5: "has m (p + ?l + 4) (path_bytes (j # rest))" and i: "has m p (inst_bytes i END_INSTANCE_SUBTYPE)"
    by (simp_all only: length_inst_bytes add.assoc)
  from i have h: "has m p (nodes_bytes (fst i))" "has m (p + ?l) [snd i, END_INSTANCE_SUBTYPE, 4, 0]"
    "list_all plain (fst i)" "snd i = END_DEVICE_PATH \<or> snd i = END_DEVICE_PATH1" "path_ok (j # rest)"
    using 3(3) by (simp_all add: inst_bytes_def has_append path_ok_def inst_ok_def add.assoc)
  note eh = end_header [OF h(2,4)]
  have "DPLength_loop m (p + ?l) (S + ?l) = DPLength_loop m (p + ?l + 4) (S + ?l + 4)"
    using eh h(4) by (subst DPLength_loop.simps) (auto simp: is_end_entire_def NEXT_NODE_def Let_def dp_consts)
  with 3(1) [OF h5 h(5)] DPLength_nodes [OF h(1,3), of S] show ?case by (simp add: inst_bytes_def add.assoc)
qed

lemma end_loop_nodes:
  "has m p (nodes_bytes ns @ [e, s, 4, 0]) \<Longrightarrow> list_all plain ns \<Longrightarrow> e = END_DEVICE_PATH \<or> e = END_DEVICE_PATH1 \<Longrightarrow>
    end_loop m p = Some (p + length (nodes_bytes ns))"
proof (induction ns arbitrary: p)
  case Nil
  then have "isEndNode m p" using end_header [of m p e s] by simp
  then show ?case by (subst end_loop.simps) simp
next
  case (Cons n ns)
  have h: "has m p (node_bytes n)" "has m (p + length (node_bytes n)) (nodes_bytes ns @ [e, s, 4, 0])" "plain n"
    using Cons.prems by (simp_all add: has_append add.assoc)
  note nh = node_header [OF h(1,3)]
  have "end_loop m p = end_loop m (p + length (node_bytes n))"
    using nh by (subst end_loop.simps) (simp add: NEXT_NODE_def)
  with Cons.IH [OF h(2)] Cons.prems(2,3) show ?case by (simp add: add.assoc)
qed

lemma path_cases:
  assumes "path_ok I"
  obtains i rest where "I = i # rest" "inst_ok i"
    "path_bytes I = inst_bytes i (if rest = [] then END_ENTIRE_SUBTYPE else END_INSTANCE_SUBTYPE) @ path_bytes rest"
proof (cases I)
  case Nil
  with assms show thesis by (simp add: path_ok_def)
next
  case (Cons i rest)
  with assms that [of i rest] show thesis by (cases rest) (auto simp: path_ok_def)
qed

section \<open>Joining paths\<close>

definition join :: "dp_instance list \<Rightarrow> dp_instance list \<Rightarrow> dp_instance list" where
  "join I K = butlast I @ (fst (last I) @ fst (hd K), snd (hd K)) # tl K"

lemma path_bytes_Cons: "rest \<noteq> [] \<Longrightarrow> path_bytes (i # rest) = inst_bytes i END_INSTANCE_SUBTYPE @ path_bytes rest"
  by (cases rest) simp_all

lemma path_bytes_length: "I \<noteq> [] \<Longrightarrow> 4 \<le> length (path_bytes I)"
  by (induction I rule: path_bytes.induct) (simp_all add: length_inst_bytes)

lemma path_bytes_join:
  "I \<noteq> [] \<Longrightarrow> K \<noteq> [] \<Longrightarrow> path_bytes (join I K) = take (length (path_bytes I) - 4) (path_bytes I) @ path_bytes K"
proof (induction I rule: path_bytes.induct)
  case 1
  then show ?case by simp
next
  case (2 i)
  obtain k ks where K: "K = k # ks" using 2 by (cases K) auto
  show ?case by (cases ks) (simp_all add: join_def inst_bytes_def K)
next
  case (3 i j rest)
  have "join (i # j # rest) K = i # join (j # rest) K" by (simp add: join_def)
  moreover have "join (j # rest) K \<noteq> []" by (simp add: join_def)
  moreover have "4 \<le> length (path_bytes (j # rest))" by (rule path_bytes_length) simp
  ultimately show ?case using 3 by (simp add: path_bytes_Cons)
qed

lemma path_ok_join: "path_ok I \<Longrightarrow> path_ok K \<Longrightarrow> path_ok (join I K)"
proof -
  assume a: "path_ok I" "path_ok K"
  then have "inst_ok (last I)" "inst_ok (hd K)" "list_all inst_ok (butlast I)" "list_all inst_ok (tl K)"
    by (auto simp: path_ok_def list_all_iff dest: in_set_butlastD list.set_sel(2))
  then show ?thesis by (simp add: path_ok_def join_def inst_ok_def)
qed

text \<open>A block of \<open>n\<close> bytes apart from a range.\<close>

definition apart :: "nat \<Rightarrow> nat \<Rightarrow> nat \<Rightarrow> nat \<Rightarrow> bool" where
  "apart a n p l \<longleftrightarrow> a + n \<le> p \<or> p + l \<le> a"

text \<open>C25: \<open>DPAdd\<close> allocates exactly the size of the joined path and writes it there: the instances of the first path,
  the nodes of the second one behind those of its last instance, and nothing else changes.\<close>

theorem DPAdd_joins:
  assumes "has m p (path_bytes I)" "path_ok I" "has m q (path_bytes K)" "path_ok K"
    and n: "n = length (path_bytes (join I K))" "n < 2 ^ 63" and a: "Malloc n = Some a"
    and "apart a n q (length (path_bytes K))"
  shows "DPAdd Malloc eon m (Some p) (Some q) = Some (Some a, wr_bytes m a (path_bytes (join I K)))"
proof -
  let ?i = "path_bytes I" and ?k = "path_bytes K"
  have ne: "I \<noteq> []" "K \<noteq> []" using assms(2,4) by (simp_all add: path_ok_def)
  have l4: "4 \<le> length ?i" by (rule path_bytes_length [OF ne(1)])
  have jn: "path_bytes (join I K) = take (length ?i - 4) ?i @ ?k" by (rule path_bytes_join [OF ne])
  then have nl: "n = length ?i - 4 + length ?k" using n(1) by simp
  then have sm: "length ?i < 2 ^ 64" "length ?k < 2 ^ 64" using n(2) path_bytes_length [OF ne(2)] l4 by auto
  have dl: "DPLength m (Some p) = Some (length ?i)" "DPLength m (Some q) = Some (length ?k)"
    using DPLength_path [OF assms(1,2), of 0] DPLength_path [OF assms(3,4), of 0] by simp_all
  have u: "uintn_sub (length ?i) sizeof_node = length ?i - 4" using l4 sm by (simp add: sizeof_node_def)
  have "rd_bytes m p (length ?i - 4 + 4) = ?i" using has_rd [OF assms(1)] l4 by simp
  then have "rd_bytes m p (length ?i - 4) @ rd_bytes m (p + (length ?i - 4)) 4 = ?i" unfolding rd_bytes_append .
  then have "take (length ?i - 4) (rd_bytes m p (length ?i - 4) @ rd_bytes m (p + (length ?i - 4)) 4) = take (length ?i - 4) ?i"
    by (rule arg_cong)
  then have t: "rd_bytes m p (length ?i - 4) = take (length ?i - 4) ?i" by simp
  let ?m1 = "wr_bytes m a (take (length ?i - 4) ?i)"
  have c1: "blk_copy (Some a) n 0 p (length ?i - 4) m = Some ?m1"
  proof -
    have "length ?i - 4 \<le> n" using nl by linarith
    then show ?thesis using t by (simp add: blk_copy_def)
  qed
  have "rd_bytes ?m1 q (length ?k) = ?k"
    using has_frame [of a "take (length ?i - 4) ?i" q ?k m] assms(3,8) nl by (auto simp: apart_def has_def)
  then have c2: "blk_copy (Some a) n (length ?i - 4) q (length ?k) ?m1 = Some (wr_bytes ?m1 (a + (length ?i - 4)) ?k)"
    using path_bytes_length [OF ne(2)] nl by (auto simp: blk_copy_def)
  have "wr_bytes ?m1 (a + (length ?i - 4)) ?k = wr_bytes m a (path_bytes (join I K))"
    unfolding jn by (rule wr_bytes_append') simp
  moreover have "(length ?i - 4 + length ?k) mod 2 ^ 64 = n" using nl n(2) by simp
  ultimately show ?thesis
    unfolding DPAdd_def prod.case option.case dl option.map u bind.bind_lunit Let_def using c1 c2 a by simp
qed

section \<open>Taking a path apart\<close>

definition isz :: "dp_instance \<Rightarrow> nat" where
  "isz i = length (nodes_bytes (fst i)) + 4"

lemma DPNextInstance_step:
  assumes h: "has m p (path_bytes (i # rest))" and ok: "path_ok (i # rest)" and a: "Malloc (isz i) = Some a"
    and d: "apart a (isz i) p (length (path_bytes (i # rest)))"
  shows "DPNextInstance Malloc m (Some (Some p)) hasSize
    = Some (Some a, Some (if rest = [] then None else Some (p + isz i)), (if hasSize then Some (isz i) else None),
        wr_bytes m a (path_bytes [i]))"
proof -
  let ?l = "length (nodes_bytes (fst i))"
  let ?s = "if rest = [] then END_ENTIRE_SUBTYPE else END_INSTANCE_SUBTYPE"
  have pb: "path_bytes (i # rest) = inst_bytes i ?s @ path_bytes rest" by (cases rest) simp_all
  have hi: "has m p (inst_bytes i ?s)" using h unfolding pb has_append by simp
  have ii: "list_all plain (fst i)" "snd i = END_DEVICE_PATH \<or> snd i = END_DEVICE_PATH1"
    using ok by (simp_all add: path_ok_def inst_ok_def)
  have e: "end_loop m p = Some (p + ?l)" using end_loop_nodes [OF _ ii, of m p ?s] hi by (simp add: inst_bytes_def)
  have "has m (p + ?l) [snd i, ?s, 4, 0]" using hi by (simp add: inst_bytes_def has_append)
  then have sub: "m (p + ?l + 1) = ?s" using end_header(2) [OF _ ii(2)] by (simp add: dp_SubType_def)
  have r: "rd_bytes m p (isz i) = inst_bytes i ?s" using has_rd [OF hi] by (simp add: length_inst_bytes isz_def)
  have "wr_bytes (wr_bytes m a ((nodes_bytes (fst i) @ [snd i]) @ [?s] @ [4, 0])) (a + ?l + 1) [END_ENTIRE_SUBTYPE]
    = wr_bytes m a ((nodes_bytes (fst i) @ [snd i]) @ [END_ENTIRE_SUBTYPE] @ [4, 0])"
    by (rule wr_bytes_mid) simp_all
  then have w: "wr_bytes (wr_bytes m a (inst_bytes i ?s)) (a + ?l + 1) [END_ENTIRE_SUBTYPE] = wr_bytes m a (path_bytes [i])"
    by (simp add: inst_bytes_def)
  have "p + ?l + 1 < a \<or> a + isz i \<le> p + ?l + 1"
    using d by (auto simp: apart_def pb isz_def length_inst_bytes)
  then have s2: "wr_bytes m a (path_bytes [i]) (p + ?l + 1) = m (p + ?l + 1)"
    by (intro wr_bytes_out) (auto simp: isz_def length_inst_bytes)
  have sz: "p + ?l + sizeof_node - p = isz i" "a + isz i - sizeof_node + 1 = a + ?l + 1" by (simp_all add: isz_def sizeof_node_def)
  have "(?s = END_ENTIRE_SUBTYPE) = (rest = [])" by (simp add: dp_consts)
  then show ?thesis
    unfolding DPNextInstance_def Let_def option.case e bind.bind_lunit sz a r w dp_SubType_def s2 sub
    by (simp add: isz_def sizeof_node_def)
qed

text \<open>A caller that takes all instances, with the blocks the pool gives to the successive calls.\<close>

fun each_instance :: "nat list \<Rightarrow> memory \<Rightarrow> nat option \<Rightarrow> (nat list \<times> memory) option" where
  "each_instance bs m None = Some ([], m)"
| "each_instance [] m (Some p) = None"
| "each_instance (b # bs) m (Some p) =
     (case DPNextInstance (\<lambda>_. Some b) m (Some (Some p)) False of
        Some (Some new, Some pp, _, m1) \<Rightarrow> map_option (\<lambda>(ns, m2). (new # ns, m2)) (each_instance bs m1 pp)
      | _ \<Rightarrow> None)"

lemma each_instance_all:
  "has m p (path_bytes I) \<Longrightarrow> path_ok I \<Longrightarrow> length bs = length I \<Longrightarrow>
    \<forall>(b, i)\<in>set (zip bs I). apart b (isz i) p (length (path_bytes I)) \<Longrightarrow>
    sorted_wrt (\<lambda>(b, i) (c, j). apart b (isz i) c (isz j)) (zip bs I) \<Longrightarrow>
    \<exists>m'. each_instance bs m (Some p) = Some (bs, m') \<and> (\<forall>(b, i)\<in>set (zip bs I). has m' b (path_bytes [i]))
      \<and> (\<forall>x xs. (\<forall>(b, i)\<in>set (zip bs I). apart b (isz i) x (length xs)) \<longrightarrow> has m x xs \<longrightarrow> has m' x xs)"
proof (induction I arbitrary: p m bs)
  case Nil
  then show ?case by (simp add: path_ok_def)
next
  case (Cons i I)
  obtain b cs where bs: "bs = b # cs" "length cs = length I" using Cons.prems(3) by (cases bs) auto
  let ?m = "wr_bytes m b (path_bytes [i])"
  have bl: "length (path_bytes [i]) = isz i" by (simp add: length_inst_bytes isz_def)
  have ap: "apart b (isz i) p (length (path_bytes (i # I)))" using Cons.prems(4) bs by simp
  have st: "DPNextInstance (\<lambda>_. Some b) m (Some (Some p)) False
    = Some (Some b, Some (if I = [] then None else Some (p + isz i)), None, ?m)"
    using DPNextInstance_step [OF Cons.prems(1,2), of "\<lambda>_. Some b" b False] ap by simp
  have fr: "has ?m x xs" if "apart b (isz i) x (length xs)" "has m x xs" for x xs
    using has_frame [of b "path_bytes [i]" x xs m] that bl by (simp add: apart_def)
  have hb: "has ?m b (path_bytes [i])" by (rule has_wr)
  show ?case
  proof (cases "I = []")
    case True
    then show ?thesis using st fr hb bs by (intro exI [of _ ?m]) auto
  next
    case False
    have pb: "path_bytes (i # I) = inst_bytes i END_INSTANCE_SUBTYPE @ path_bytes I" by (rule path_bytes_Cons [OF False])
    have li: "length (inst_bytes i END_INSTANCE_SUBTYPE) = isz i" by (simp add: length_inst_bytes isz_def)
    have hI: "has m (p + isz i) (path_bytes I)" using Cons.prems(1) unfolding pb has_append li by simp
    have sub: "apart c n (p + isz i) (length (path_bytes I))" if "apart c n p (length (path_bytes (i # I)))" for c n
      using that by (auto simp: apart_def pb li)
    have "has ?m (p + isz i) (path_bytes I)" by (rule fr [OF sub [OF ap] hI])
    moreover have "path_ok I" using Cons.prems(2) False by (simp add: path_ok_def)
    moreover have "\<forall>(c, j)\<in>set (zip cs I). apart c (isz j) (p + isz i) (length (path_bytes I))"
      using Cons.prems(4) sub by (auto simp: bs)
    moreover have sw: "sorted_wrt (\<lambda>(b, i) (c, j). apart b (isz i) c (isz j)) (zip cs I)"
      "\<forall>(c, j)\<in>set (zip cs I). apart b (isz i) c (isz j)"
      using Cons.prems(5) by (simp_all add: bs)
    ultimately obtain m' where m': "each_instance cs ?m (Some (p + isz i)) = Some (cs, m')"
      "\<forall>(c, j)\<in>set (zip cs I). has m' c (path_bytes [j])"
      "\<forall>x xs. (\<forall>(c, j)\<in>set (zip cs I). apart c (isz j) x (length xs)) \<longrightarrow> has ?m x xs \<longrightarrow> has m' x xs"
      using Cons.IH [of ?m "p + isz i" cs] bs(2) by blast
    have "\<forall>(c, j)\<in>set (zip cs I). apart c (isz j) b (length (path_bytes [i]))"
      using sw(2) unfolding bl by (auto simp: apart_def)
    then have "has m' b (path_bytes [i])" using m'(3) hb by blast
    moreover have "has m' x xs" if "\<forall>(c, j)\<in>set (zip bs (i # I)). apart c (isz j) x (length xs)" "has m x xs" for x xs
    proof -
      have "apart b (isz i) x (length xs)" "\<forall>(c, j)\<in>set (zip cs I). apart c (isz j) x (length xs)"
        using that(1) by (auto simp: bs)
      with m'(3) fr [OF _ that(2)] show ?thesis by blast
    qed
    ultimately show ?thesis using st m'(1,2) False by (intro exI [of _ m']) (auto simp: bs)
  qed
qed

text \<open>C27: A caller that repeats \<open>DPNextInstance\<close> on a path of any number of instances is given a copy of each instance as a
  path of its own, in order, and then \<^verbatim>\<open>NULL\<close>; the path itself stays as it is.\<close>

theorem DPNextInstance_enumerates:
  assumes "has m p (path_bytes I)" "path_ok I" "length bs = length I"
    "\<forall>(b, i)\<in>set (zip bs I). apart b (isz i) p (length (path_bytes I))"
    "sorted_wrt (\<lambda>(b, i) (c, j). apart b (isz i) c (isz j)) (zip bs I)"
  shows "\<exists>m'. each_instance bs m (Some p) = Some (bs, m') \<and> (\<forall>(b, i)\<in>set (zip bs I). has m' b (path_bytes [i]))
    \<and> has m' p (path_bytes I)"
  using each_instance_all [OF assms] assms(1,4) by blast

section \<open>Comparing\<close>

text \<open>What \<open>MemCmp\<close> computes: the signed difference of the first bytes that differ.\<close>

fun cmp_bytes :: "u8 list \<Rightarrow> u8 list \<Rightarrow> int" where
  "cmp_bytes (x # xs) (y # ys) = (if x = y then cmp_bytes xs ys else sint x - sint y)"
| "cmp_bytes _ _ = 0"

lemma cmp_bytes_prefix: "cmp_bytes (xs @ ys) (xs @ zs) = cmp_bytes ys zs"
  by (induction xs) simp_all

lemma cmp_bytes_0: "length xs = length ys \<Longrightarrow> cmp_bytes xs ys = 0 \<longleftrightarrow> xs = ys"
  by (induction xs ys rule: list_induct2) (use signed_word_eqI in auto)

text \<open>The pointers have moved over \<open>k\<close> equal bytes.\<close>

definition moved :: "memory \<Rightarrow> nat \<Rightarrow> nat \<Rightarrow> nat \<Rightarrow> nat \<times> nat \<Rightarrow> bool" where
  "moved m d s n r \<longleftrightarrow> (\<exists>k\<le>n. r = (d + k, s + k) \<and> rd_bytes m d k = rd_bytes m s k)"

lemma moved_0: "moved m d s n (d, s)"
  by (auto simp: moved_def intro: exI [of _ 0])

lemma moved_on:
  assumes "rd_bytes m d j = rd_bytes m s j" "moved m (d + j) (s + j) n r"
  shows "moved m d s (j + n) r"
proof -
  obtain k where k: "k \<le> n" "r = (d + j + k, s + j + k)" "rd_bytes m (d + j) k = rd_bytes m (s + j) k"
    using assms(2) by (auto simp: moved_def)
  then have "rd_bytes m d (j + k) = rd_bytes m s (j + k)" using assms(1) by (simp add: rd_bytes_append)
  with k show ?thesis unfolding moved_def by (intro exI [of _ "j + k"]) simp
qed

lemma moved_le: "moved m d s n r \<Longrightarrow> n \<le> n' \<Longrightarrow> moved m d s n' r"
  unfolding moved_def using le_trans by blast

lemma MemCmp_align_moved: "moved m d s r (MemCmp_align m d s r)"
proof (induction r arbitrary: d s)
  case 0
  then show ?case by (simp add: moved_0)
next
  case (Suc r)
  show ?case
  proof (cases "m d = m s")
    case True
    then have "rd_bytes m d 1 = rd_bytes m s 1" by (simp add: rd_bytes_Suc)
    from moved_on [OF this, of r] Suc True show ?thesis by simp
  next
    case False
    then show ?thesis by (simp add: moved_0)
  qed
qed

lemma le_nat_inj: "length xs = length ys \<Longrightarrow> le_nat xs = le_nat ys \<Longrightarrow> xs = ys"
  by (metis le_bytes_le_nat)

lemma MemCmp_words_moved: "d \<le> e \<Longrightarrow> moved m d s (e - d) (MemCmp_words m d s e)"
proof (induction m d s e rule: MemCmp_words.induct)
  case (1 m d s e)
  show ?case
  proof (cases "d \<le> e - 8 \<and> 8 \<le> e \<and> rd 8 m d = rd 8 m s")
    case True
    then have "rd_bytes m d 8 = rd_bytes m s 8" using le_nat_inj [of "rd_bytes m d 8" "rd_bytes m s 8"] by (simp add: rd_def)
    moreover have "moved m (d + 8) (s + 8) (e - (d + 8)) (MemCmp_words m (d + 8) (s + 8) e)"
      by (rule 1(1)) (use True in auto)
    ultimately have "moved m d s (8 + (e - (d + 8))) (MemCmp_words m (d + 8) (s + 8) e)" by (rule moved_on)
    then show ?thesis using True by (subst MemCmp_words.simps) (auto simp: moved_le)
  next
    case False
    then show ?thesis by (subst MemCmp_words.simps) (auto simp: moved_0)
  qed
qed

lemma MemCmp_bytes_cmp: "MemCmp_bytes m d s e = cmp_bytes (rd_bytes m d (e - d)) (rd_bytes m s (e - d))"
proof (induction m d s e rule: MemCmp_bytes.induct)
  case (1 m d s e)
  show ?case
  proof (cases "d < e")
    case True
    then obtain k where "e - d = Suc k" "e - (d + 1) = k" by (cases "e - d") auto
    with 1 True show ?thesis by (subst MemCmp_bytes.simps) (simp add: rd_bytes_Suc)
  next
    case False
    then show ?thesis by (subst MemCmp_bytes.simps) simp
  qed
qed

lemma MemCmp_cmp: "MemCmp m d s n = cmp_bytes (rd_bytes m d n) (rd_bytes m s n)"
proof -
  let ?p = "if 8 \<le> n
             then let r = d mod 8;
                      (d0, s0) = (if r \<noteq> 0 \<and> r = s mod 8 then MemCmp_align m d s (8 - r) else (d, s))
                  in MemCmp_words m d0 s0 (d + n)
             else (d, s)"
  have "moved m d s n ?p"
  proof (cases "8 \<le> n")
    case False
    then show ?thesis by (simp add: moved_0)
  next
    case True
    let ?r = "if d mod 8 \<noteq> 0 \<and> d mod 8 = s mod 8 then MemCmp_align m d s (8 - d mod 8) else (d, s)"
    have "moved m d s n ?r"
    proof (cases "d mod 8 \<noteq> 0 \<and> d mod 8 = s mod 8")
      case c: True
      have "8 - d mod 8 \<le> n" using True by linarith
      from moved_le [OF MemCmp_align_moved this] show ?thesis unfolding if_P [OF c] .
    next
      case False
      show ?thesis unfolding if_not_P [OF False] by (rule moved_0)
    qed
    then obtain k where k: "k \<le> n" "?r = (d + k, s + k)" "rd_bytes m d k = rd_bytes m s k" by (auto simp: moved_def)
    have "moved m (d + k) (s + k) (n - k) (MemCmp_words m (d + k) (s + k) (d + n))"
      using MemCmp_words_moved [of "d + k" "d + n" m "s + k"] k(1) by simp
    from moved_on [OF k(3) this] have "moved m d s n (MemCmp_words m (d + k) (s + k) (d + n))" using k(1) by simp
    then show ?thesis using True by (simp only: if_True Let_def k(2) prod.case)
  qed
  then obtain k where k: "k \<le> n" "?p = (d + k, s + k)" "rd_bytes m d k = rd_bytes m s k" by (auto simp: moved_def)
  have "MemCmp m d s n = MemCmp_bytes m (d + k) (s + k) (d + n)"
    unfolding MemCmp_def Let_def by (simp only: k(2) [unfolded Let_def] prod.case)
  also have "\<dots> = cmp_bytes (rd_bytes m (d + k) (n - k)) (rd_bytes m (s + k) (n - k))" by (simp add: MemCmp_bytes_cmp)
  also have "\<dots> = cmp_bytes (rd_bytes m d (k + (n - k))) (rd_bytes m s (k + (n - k)))"
    unfolding rd_bytes_append k(3) by (rule cmp_bytes_prefix [symmetric])
  finally show ?thesis using k(1) by simp
qed

lemma MemCmp_0: "MemCmp m d s n = 0 \<longleftrightarrow> rd_bytes m d n = rd_bytes m s n"
  by (simp add: MemCmp_cmp cmp_bytes_0)

section \<open>Searching a path for an instance\<close>

lemma node_bytes_inject: "node_bytes n = node_bytes k \<Longrightarrow> n = k"
  by (cases n; cases k) (simp add: node_bytes_def append_eq_append_conv)

lemma nodes_match:
  assumes "has m q (node_bytes n)" "plain n" "has m p (node_bytes k)" "plain k"
  shows "NODE_LENGTH m q = NODE_LENGTH m p \<and> MemCmp m q p (NODE_LENGTH m p) = 0 \<longleftrightarrow> n = k"
proof -
  have "node_bytes n = node_bytes k" if "length (node_bytes n) = length (node_bytes k)"
    "rd_bytes m q (length (node_bytes k)) = rd_bytes m p (length (node_bytes k))"
    using that has_rd [OF assms(1)] has_rd [OF assms(3)] by (metis (no_types))
  moreover have "rd_bytes m q (length (node_bytes k)) = rd_bytes m p (length (node_bytes k))" if "n = k"
    using has_rd [OF assms(1)] unfolding that has_rd [OF assms(3)] .
  ultimately show ?thesis
    unfolding MemCmp_0 node_header(2) [OF assms(1,2)] node_header(2) [OF assms(3,4)] using node_bytes_inject by blast
qed

lemma end_mismatch:
  assumes "has m q (node_bytes n)" "plain n" "has m p [e, s, 4, 0]" "e = END_DEVICE_PATH \<or> e = END_DEVICE_PATH1"
  shows "MemCmp m q p (NODE_LENGTH m p) \<noteq> 0"
proof
  assume "MemCmp m q p (NODE_LENGTH m p) = 0"
  then have "rd_bytes m q (Suc 3) = rd_bytes m p (Suc 3)" by (simp add: MemCmp_0 end_header(3) [OF assms(3,4)])
  then have "m q = m p" by (simp only: rd_bytes_Suc list.inject)
  then show False
    using node_header(1) [OF assms(1,2)] end_header(4) [OF assms(3,4)] assms(2,4) by (auto simp: plain_def dp_Type_def)
qed

lemma match_loop_here:
  assumes "match_loop m q p = Some (q, p)" "xs = [] \<or> ys = [] \<or> hd xs \<noteq> hd ys"
  shows "\<exists>c xs' ys'. xs = c @ xs' \<and> ys = c @ ys' \<and> (xs' = [] \<or> ys' = [] \<or> hd xs' \<noteq> hd ys')
    \<and> match_loop m q p = Some (q + length (nodes_bytes c), p + length (nodes_bytes c))"
  by (rule exI [of _ "[]"], rule exI [of _ xs], rule exI [of _ ys]) (use assms in simp)

text \<open>The first loop stops behind the nodes the two instances have in common.\<close>

lemma match_loop_nodes:
  assumes "has m q (nodes_bytes xs @ [f, t, 4, 0])" "list_all plain xs" "f = END_DEVICE_PATH \<or> f = END_DEVICE_PATH1"
    and "has m p (nodes_bytes ys @ [e, s, 4, 0])" "list_all plain ys" "e = END_DEVICE_PATH \<or> e = END_DEVICE_PATH1"
  shows "\<exists>c xs' ys'. xs = c @ xs' \<and> ys = c @ ys' \<and> (xs' = [] \<or> ys' = [] \<or> hd xs' \<noteq> hd ys')
    \<and> match_loop m q p = Some (q + length (nodes_bytes c), p + length (nodes_bytes c))"
  using assms
proof (induction xs arbitrary: q p ys)
  case Nil
  then have "isEndNode m q" using end_header(1) by simp
  then have "match_loop m q p = Some (q, p)" by (subst match_loop.simps) simp
  then show ?case by (rule match_loop_here) simp
next
  case (Cons x xs)
  have x: "has m q (node_bytes x)" "plain x" "has m (q + length (node_bytes x)) (nodes_bytes xs @ [f, t, 4, 0])" "list_all plain xs"
    using Cons.prems(1,2) by (simp_all add: has_append add.assoc)
  note nx = node_header [OF x(1,2)]
  show ?case
  proof (cases ys)
    case Nil
    then have "MemCmp m q p (NODE_LENGTH m p) \<noteq> 0" using end_mismatch [OF x(1,2)] Cons.prems(4,6) by simp
    then have "match_loop m q p = Some (q, p)" by (subst match_loop.simps) simp
    then show ?thesis by (rule match_loop_here) (simp add: Nil)
  next
    case ys: (Cons y zs)
    have y: "has m p (node_bytes y)" "plain y" "has m (p + length (node_bytes y)) (nodes_bytes zs @ [e, s, 4, 0])" "list_all plain zs"
      using Cons.prems(4,5) by (simp_all add: ys has_append add.assoc)
    note nm = nodes_match [OF x(1,2) y(1,2)]
    show ?thesis
    proof (cases "x = y")
      case False
      then have "match_loop m q p = Some (q, p)" using nm by (subst match_loop.simps) auto
      then show ?thesis by (rule match_loop_here) (simp add: False ys)
    next
      case True
      then have "match_loop m q p = match_loop m (q + length (node_bytes x)) (p + length (node_bytes x))"
        using nm nx node_header(2) [OF y(1,2)] by (subst match_loop.simps) (simp add: NEXT_NODE_def)
      moreover obtain c xs' ys' where c: "xs = c @ xs'" "zs = c @ ys'" "xs' = [] \<or> ys' = [] \<or> hd xs' \<noteq> hd ys'"
        "match_loop m (q + length (node_bytes x)) (p + length (node_bytes x))
          = Some (q + length (node_bytes x) + length (nodes_bytes c), p + length (node_bytes x) + length (nodes_bytes c))"
        using Cons.IH [OF x(3,4) Cons.prems(3), of "p + length (node_bytes x)" zs] y True Cons.prems(6) by blast
      ultimately have m: "match_loop m q p = Some (q + length (nodes_bytes (x # c)), p + length (nodes_bytes (x # c)))"
        by (simp add: add.assoc)
      show ?thesis
        by (rule exI [of _ "x # c"], rule exI [of _ xs'], rule exI [of _ ys']) (use c(1-3) m True ys in simp)
    qed
  qed
qed

lemma at_end:
  assumes "has m p (nodes_bytes ys @ [e, s, 4, 0])" "list_all plain ys" "e = END_DEVICE_PATH \<or> e = END_DEVICE_PATH1"
  shows "isEndNode m p \<longleftrightarrow> ys = []"
proof (cases ys)
  case Nil
  then show ?thesis using assms end_header(1) by simp
next
  case (Cons y zs)
  then show ?thesis using assms node_header(3) [of m p y] by (simp add: has_append)
qed

text \<open>The instance of a path that a non-exact search accepts: its nodes are the first nodes of the path searched for.\<close>

definition accepts :: "bool \<Rightarrow> dp_instance \<Rightarrow> dp_instance \<Rightarrow> bool" where
  "accepts X one i \<longleftrightarrow> (if X then fst i = fst one else prefix (fst i) (fst one))"

lemma DPIsOneOf_step:
  assumes q: "has m q (inst_bytes one t)" "inst_ok one" and p: "has m p (inst_bytes i s)" "inst_ok i"
  shows "DPIsOneOf m p q X =
    (if accepts X one i then Some True
     else if s = END_ENTIRE_SUBTYPE then Some False
     else DPIsOneOf m (p + length (inst_bytes i s)) q X)"
proof -
  let ?e = "snd i" and ?f = "snd one"
  have Q: "has m q (nodes_bytes (fst one) @ [?f, t, 4, 0])" "list_all plain (fst one)" "?f = END_DEVICE_PATH \<or> ?f = END_DEVICE_PATH1"
    using q by (simp_all add: inst_bytes_def inst_ok_def)
  have P: "has m p (nodes_bytes (fst i) @ [?e, s, 4, 0])" "list_all plain (fst i)" "?e = END_DEVICE_PATH \<or> ?e = END_DEVICE_PATH1"
    using p by (simp_all add: inst_bytes_def inst_ok_def)
  obtain c xs ys where c: "fst one = c @ xs" "fst i = c @ ys" "xs = [] \<or> ys = [] \<or> hd xs \<noteq> hd ys"
    "match_loop m q p = Some (q + length (nodes_bytes c), p + length (nodes_bytes c))"
    using match_loop_nodes [OF Q P] by blast
  let ?q = "q + length (nodes_bytes c)" and ?p = "p + length (nodes_bytes c)"
  have q': "has m ?q (nodes_bytes xs @ [?f, t, 4, 0])" "list_all plain xs" and p': "has m ?p (nodes_bytes ys @ [?e, s, 4, 0])" "list_all plain ys"
    using Q(1,2) P(1,2) by (simp_all add: c(1,2) has_append add.assoc)
  have en: "isEndNode m ?q \<longleftrightarrow> xs = []" "isEndNode m ?p \<longleftrightarrow> ys = []"
    by (rule at_end [OF q' Q(3)], rule at_end [OF p' P(3)])
  have ac: "accepts X one i \<longleftrightarrow> ys = [] \<and> (\<not> X \<or> xs = [])"
    using c(3) by (cases xs; cases ys) (auto simp: accepts_def c(1,2) prefix_def)
  have el: "end_loop m ?p = Some (?p + length (nodes_bytes ys))" by (rule end_loop_nodes [OF p' P(3)])
  have "has m (?p + length (nodes_bytes ys)) [?e, s, 4, 0]" using p'(1) by (simp add: has_append)
  from end_header(2) [OF this P(3)] have sub: "dp_SubType m (?p + length (nodes_bytes ys)) = s" .
  have "p + length (inst_bytes i s) = ?p + length (nodes_bytes ys) + sizeof_node"
    by (simp add: sizeof_node_def inst_bytes_def c(2))
  then show ?thesis
    by (subst DPIsOneOf.simps) (simp only: c(4) bind.bind_lunit prod.case en ac el sub simp_thms)
qed


section \<open>Malformed paths\<close>

text \<open>\<open>DPLength\<close> stops at junk, \<open>IsValidDevicePath\<close> does not: on a node of length zero it stays.\<close>

lemma IsValidDevicePath_stays:
  assumes "NODE_LENGTH m p = 0" "dp_Type m p \<in> set DevicePathTypes" "\<not> is_end_entire m p"
  shows "IsValidDevicePath m p = None"
proof (cases "IsValidDevicePath_loop m p 0")
  case (Some y)
  have "m' = m \<and> p' = p \<and> S = 0 \<longrightarrow> False" if "IsValidDevicePath_loop m' p' S = Some y" for m' p' S
    by (rule IsValidDevicePath_loop.raw_induct [OF _ that, where P = "\<lambda>m' p' S y. m' = m \<and> p' = p \<and> S = 0 \<longrightarrow> False"])
       (use assms in \<open>auto simp: NEXT_NODE_def Let_def dp_consts split: if_splits\<close>)
  with Some show ?thesis by blast
qed (simp add: IsValidDevicePath_def)

lemma DPLength_junk: "m p = 0 \<Longrightarrow> DPLength m (Some p) = Some 0"
  by (simp, subst DPLength_loop.simps) (simp add: is_end_entire_def isEndNode_def dp_Type_def dp_consts Let_def)

text \<open>The length of junk is below the size of the end node that \<open>DPAdd\<close> subtracts: it copies out of bounds.\<close>

lemma DPAdd_junk:
  assumes "m p = 0" "has m q (path_bytes K)" "path_ok K" "length (path_bytes K) < 2 ^ 63"
  shows "DPAdd Malloc eon m (Some p) (Some q) = None"
proof -
  have l: "DPLength m (Some q) = Some (length (path_bytes K))" using DPLength_path [OF assms(2,3), of 0] by simp
  have u: "uintn_sub 0 sizeof_node = 2 ^ 64 - 4" by (simp add: sizeof_node_def uintn_sub_def)
  have "blk_copy b ((2 ^ 64 - 4 + length (path_bytes K)) mod 2 ^ 64) 0 p (2 ^ 64 - 4) m = None" for b
  proof -
    have "4 \<le> length (path_bytes K)" using path_bytes_length assms(3) by (simp add: path_ok_def)
    then have "(2 ^ 64 - 4 + length (path_bytes K)) mod 2 ^ 64 = length (path_bytes K) - 4"
      using assms(4) by (simp add: mod_if)
    moreover have "\<not> 2 ^ 64 - 4 \<le> length (path_bytes K) - 4" using assms(4) by simp
    ultimately show ?thesis by (simp add: blk_copy_def split: option.split)
  qed
  then show ?thesis unfolding DPAdd_def by (simp add: DPLength_junk [where m = m and p = p, OF assms(1)] l u Let_def del: DPLength.simps)
qed

text \<open>\<open>DPCut\<close> of a path that has no node before its end subtracts the path from \<^verbatim>\<open>NULL\<close>.\<close>

lemma DPCut_no_node:
  assumes "isEndNode m p" "4 < p" "p < 2 ^ 64" "Malloc (2 ^ 64 - p + 4) = None"
  shows "DPCut Malloc m (Some p) = None"
proof -
  have "last_loop m p None = Some None" using assms(1) by (subst last_loop.simps) simp
  moreover have "uintn_sub 0 p = 2 ^ 64 - p" using uintn_sub_wrap [of 0 p] assms(2,3) by simp
  moreover have "(2 ^ 64 - p + sizeof_node) mod 2 ^ 64 = 2 ^ 64 - p + 4" "2 ^ 64 - p \<noteq> 0"
    using assms(2,3) by (simp_all add: sizeof_node_def)
  ultimately show ?thesis using assms(4) by (simp add: blk_copy_def Let_def)
qed

section \<open>Concrete paths\<close>

text \<open>A path of two instances and one of one, at 100 and 200.\<close>

definition two_instances :: "dp_instance list" where
  "two_instances = [([Node 2 1 [0xD0, 0x41, 3, 0xA], Node 1 1 [0, 2]], 0x7F), ([Node 2 1 [0xD0, 0x41, 3, 0xA]], 0xFF)]"

definition one_instance :: "dp_instance list" where
  "one_instance = [([Node 2 1 [0xD0, 0x41, 3, 0xA], Node 3 1 [0, 0, 1, 0]], 0x7F)]"

definition two_paths :: memory where
  "two_paths = wr_bytes (wr_bytes (\<lambda>_. 0) 100 (path_bytes two_instances)) 200 (path_bytes one_instance)"

lemma concrete_ok: "path_ok two_instances" "path_ok one_instance" "inst_ok (hd one_instance)"
  by (simp_all add: path_ok_def inst_ok_def two_instances_def one_instance_def plain_def dp_consts)

lemma concrete_lengths:
  "length (path_bytes two_instances) = 30" "length (path_bytes one_instance) = 20"
  "length (path_bytes (join two_instances one_instance)) = 46"
  by (simp_all add: two_instances_def one_instance_def join_def length_inst_bytes)

lemma concrete_has: "has two_paths 100 (path_bytes two_instances)" "has two_paths 200 (path_bytes one_instance)"
  by (simp_all add: two_paths_def has_frame has_wr concrete_lengths)

lemma DPAdd_joins_witness:
  "DPAdd (\<lambda>_. Some 300) 0 two_paths (Some 100) (Some 200)
    = Some (Some 300, wr_bytes two_paths 300 (path_bytes (join two_instances one_instance)))"
  by (rule DPAdd_joins [OF concrete_has(1) concrete_ok(1) concrete_has(2) concrete_ok(2) refl])
     (simp_all add: concrete_lengths apart_def)

lemma DPNextInstance_enumerates_witness:
  "\<exists>m'. each_instance [300, 400] two_paths (Some 100) = Some ([300, 400], m')
    \<and> (\<forall>(b, i)\<in>set (zip [300, 400] two_instances). has m' b (path_bytes [i])) \<and> has m' 100 (path_bytes two_instances)"
  by (rule DPNextInstance_enumerates [OF concrete_has(1) concrete_ok(1)])
     (simp_all add: concrete_lengths, simp_all add: two_instances_def apart_def isz_def)


end
