(* ===== verification/AuthLists.thy ===== *)
theory AuthLists
  imports DevicePath NvramService
begin

text \<open>
  Lists of signatures, the format of the key and signature databases, from
  \<^verbatim>\<open>AmiModulePkg/SecureBoot/AuthenticatedVariable/AuthVariable.c\<close>: \<^verbatim>\<open>ValidateSignatureList\<close> and
  \<^verbatim>\<open>FindInSignatureDb\<close>, which removes from the data of an append the signatures the database already has.

  The databases lie in memory and are read and changed there, as in the source.  \<open>None\<close> is a routine that
  does not return: a loop that does not end, or a division by zero.
\<close>

section \<open>Layout\<close>

definition EFI_GUID :: "nat \<Rightarrow> nat \<Rightarrow> nat \<Rightarrow> u8 list \<Rightarrow> u8 list" where
  "EFI_GUID a b c ds = le_bytes 4 a @ le_bytes 2 b @ le_bytes 2 c @ ds"

definition gEfiCertX509Sha256Guid :: "u8 list" where
  "gEfiCertX509Sha256Guid =
     EFI_GUID 0x3bd2a492 0x96c0 0x4079 [0xb4, 0x20, 0xfc, 0xf9, 0x8e, 0xf1, 0x03, 0xed]"
definition gEfiCertX509Sha384Guid :: "u8 list" where
  "gEfiCertX509Sha384Guid =
     EFI_GUID 0x7076876e 0x80c2 0x4ee6 [0xaa, 0xd2, 0x28, 0xb3, 0x49, 0xa6, 0x86, 0x5b]"
definition gEfiCertX509Sha512Guid :: "u8 list" where
  "gEfiCertX509Sha512Guid =
     EFI_GUID 0x446dbf63 0x2502 0x4cda [0xbc, 0xfa, 0x24, 0x65, 0xd2, 0xb0, 0xfe, 0x9d]"
definition gEfiCertSha256Guid :: "u8 list" where
  "gEfiCertSha256Guid =
     EFI_GUID 0xc1c41626 0x504c 0x4092 [0xac, 0xa9, 0x41, 0xf9, 0x36, 0x93, 0x43, 0x28]"
definition gEfiCertX509Guid :: "u8 list" where
  "gEfiCertX509Guid =
     EFI_GUID 0xa5c059a1 0x94e4 0x4aa7 [0x87, 0xb5, 0xab, 0x15, 0x5c, 0x2b, 0xf0, 0x72]"
definition gEfiCertRsa2048Guid :: "u8 list" where
  "gEfiCertRsa2048Guid =
     EFI_GUID 0x3c5766e8 0x269c 0x4e34 [0xaa, 0x14, 0xed, 0x77, 0x6e, 0x85, 0xb3, 0xb6]"
definition gEfiCertRsa2048Sha256Guid :: "u8 list" where
  "gEfiCertRsa2048Sha256Guid =
     EFI_GUID 0xe2b36190 0x879b 0x4a3d [0xad, 0x8d, 0xf2, 0xe7, 0xbb, 0xa3, 0x27, 0x84]"
definition gEfiCertRsa2048Sha1Guid :: "u8 list" where
  "gEfiCertRsa2048Sha1Guid =
     EFI_GUID 0x67f8444f 0x8743 0x48f1 [0xa3, 0x28, 0x1e, 0xaa, 0xb8, 0x73, 0x60, 0x80]"

text \<open>\<^verbatim>\<open>SIGSUPPORT_LIST\<close>\<close>

definition mSignatureSupport :: "u8 list list" where
  "mSignatureSupport =
     [gEfiCertX509Sha256Guid, gEfiCertX509Sha384Guid, gEfiCertX509Sha512Guid, gEfiCertSha256Guid,
      gEfiCertX509Guid, gEfiCertRsa2048Guid, gEfiCertRsa2048Sha256Guid, gEfiCertRsa2048Sha1Guid]"

text \<open>The size of the NVRAM area that the board sets in \<^verbatim>\<open>BayTrailPkg/Crb.sdl\<close>.\<close>

definition NVRAM_SIZE :: nat where "NVRAM_SIZE = 0x20000"

text \<open>\<^verbatim>\<open>EFI_SIGNATURE_LIST\<close> and \<^verbatim>\<open>EFI_SIGNATURE_DATA\<close>, both packed.\<close>

definition sizeof_SIGNATURE_LIST :: nat where "sizeof_SIGNATURE_LIST = 28"

definition SignatureType :: "memory \<Rightarrow> nat \<Rightarrow> u8 list" where "SignatureType m l = rd_bytes m l sizeof_GUID"
definition SignatureListSize :: "memory \<Rightarrow> nat \<Rightarrow> nat" where "SignatureListSize m l = rd 4 m (l + 16)"
definition SignatureHeaderSize :: "memory \<Rightarrow> nat \<Rightarrow> nat" where "SignatureHeaderSize m l = rd 4 m (l + 20)"
definition SignatureSize :: "memory \<Rightarrow> nat \<Rightarrow> nat" where "SignatureSize m l = rd 4 m (l + 24)"

definition SignatureData :: "nat \<Rightarrow> nat" where "SignatureData i = i + sizeof_GUID"

text \<open>The bytes of a list after its header, the first of its signatures, and their number, a \<^verbatim>\<open>UINT32\<close>; the
  processor traps if the size of a signature is zero.\<close>

definition signatures_size :: "memory \<Rightarrow> nat \<Rightarrow> nat" where
  "signatures_size m l =
     uintn_sub (uintn_sub (SignatureListSize m l) sizeof_SIGNATURE_LIST) (SignatureHeaderSize m l)"

definition first_signature :: "memory \<Rightarrow> nat \<Rightarrow> nat" where
  "first_signature m l = l + sizeof_SIGNATURE_LIST + SignatureHeaderSize m l"

definition signature_count :: "memory \<Rightarrow> nat \<Rightarrow> nat option" where
  "signature_count m l =
     (if SignatureSize m l = 0 then None else Some (signatures_size m l div SignatureSize m l mod 2 ^ 32))"

section \<open>ValidateSignatureList\<close>

function ValidateSignatureList_loop :: "memory \<Rightarrow> nat \<Rightarrow> nat \<Rightarrow> efi_status \<Rightarrow> efi_status" where
  "ValidateSignatureList_loop m SigList DataSize Status =
     (if DataSize > 0 \<and> DataSize \<ge> SignatureListSize m SigList
      then if SignatureType m SigList \<notin> set mSignatureSupport then EFI_SECURITY_VIOLATION
           else if SignatureListSize m SigList < 0x4c \<or> SignatureListSize m SigList > NVRAM_SIZE
           then EFI_SECURITY_VIOLATION
           else if SignatureHeaderSize m SigList \<noteq> 0 then EFI_SECURITY_VIOLATION
           else ValidateSignatureList_loop m (SigList + SignatureListSize m SigList)
                  (DataSize - SignatureListSize m SigList) EFI_SUCCESS
      else Status)"
  by auto
termination by (relation "measure (\<lambda>(m, l, n, s). n)") auto

declare ValidateSignatureList_loop.simps [simp del]

definition ValidateSignatureList :: "memory \<Rightarrow> nat \<Rightarrow> nat \<Rightarrow> efi_status" where
  "ValidateSignatureList m Data DataSize =
     (if Data = 0 \<or> DataSize = 0 then EFI_SECURITY_VIOLATION
      else ValidateSignatureList_loop m Data DataSize EFI_SECURITY_VIOLATION)"

section \<open>FindInSignatureDb\<close>

definition move_bytes :: "nat \<Rightarrow> nat \<Rightarrow> nat \<Rightarrow> memory \<Rightarrow> memory" where
  "move_bytes dst src n m = wr_bytes m dst (rd_bytes m src n)"

text \<open>The loop over the signatures of one new list: the memory, \<^verbatim>\<open>*DataSize\<close>, \<^verbatim>\<open>SigNewSize\<close> and
  \<^verbatim>\<open>bSigMatch\<close> after it.  \<open>n\<close> is the number of passes left.\<close>

primrec new_items :: "nat \<Rightarrow> nat \<Rightarrow> nat \<Rightarrow> nat \<Rightarrow> nat \<Rightarrow> nat \<Rightarrow> nat \<Rightarrow> memory \<Rightarrow> nat \<Rightarrow> nat
      \<Rightarrow> memory \<times> nat \<times> nat \<times> bool" where
  "new_items Data SigList SigItem SigListNew SigCountNew 0 SigItemNew m DataSize SigNewSize =
     (m, DataSize, SigNewSize, False)"
| "new_items Data SigList SigItem SigListNew SigCountNew (Suc n) SigItemNew m DataSize SigNewSize =
     (if MemCmp m (SignatureData SigItem) (SignatureData SigItemNew)
           (uintn_sub (SignatureSize m SigList) sizeof_GUID) = 0
      then if SigCountNew = 1
           then let L = SignatureListSize m SigListNew; SigNewSize' = uintn_sub SigNewSize L
                in (move_bytes SigListNew (SigListNew + L) SigNewSize' m, uintn_sub DataSize L, SigNewSize', True)
           else let S = SignatureSize m SigListNew;
                    m1 = move_bytes SigItemNew (SigItemNew + S) (uintn_sub (Data + DataSize) (SigItemNew + S)) m;
                    m2 = wr_bytes m1 (SigListNew + 16)
                           (le_bytes 4 (nat ((int (SignatureListSize m1 SigListNew)
                                              - int (SignatureSize m1 SigListNew)) mod 2 ^ 32)));
                    DataSize' = uintn_sub DataSize (SignatureSize m2 SigListNew)
                in if signatures_size m2 SigListNew = 0 then (m2, DataSize', SigNewSize, False)
                   else new_items Data SigList SigItem SigListNew SigCountNew n SigItemNew m2 DataSize' SigNewSize
      else new_items Data SigList SigItem SigListNew SigCountNew n (SigItemNew + SignatureSize m SigListNew)
             m DataSize SigNewSize)"

text \<open>The loop over the new lists.\<close>

partial_function (option) new_lists ::
    "nat \<Rightarrow> nat \<Rightarrow> nat \<Rightarrow> nat \<Rightarrow> memory \<Rightarrow> nat \<Rightarrow> nat \<Rightarrow> (memory \<times> nat) option" where
  "new_lists Data SigList SigItem SigListNew m DataSize SigNewSize =
     (if SigNewSize > 0 \<and> SigNewSize \<ge> SignatureListSize m SigListNew
      then case signature_count m SigListNew of
             None \<Rightarrow> None
           | Some SigCountNew \<Rightarrow>
               (let (m', DataSize', SigNewSize', bSigMatch) =
                      (if SignatureType m SigList = SignatureType m SigListNew
                          \<and> SignatureSize m SigList = SignatureSize m SigListNew
                       then new_items Data SigList SigItem SigListNew SigCountNew SigCountNew
                              (first_signature m SigListNew) m DataSize SigNewSize
                       else (m, DataSize, SigNewSize, False))
                in if bSigMatch then new_lists Data SigList SigItem SigListNew m' DataSize' SigNewSize'
                   else new_lists Data SigList SigItem (SigListNew + SignatureListSize m' SigListNew) m' DataSize'
                          (uintn_sub SigNewSize' (SignatureListSize m' SigListNew)))
      else Some (m, DataSize))"

text \<open>The loop over the signatures of a list of the database; \<open>n\<close> is the number of passes left.\<close>

primrec db_items :: "nat \<Rightarrow> nat \<Rightarrow> nat \<Rightarrow> nat \<Rightarrow> memory \<Rightarrow> nat \<Rightarrow> (memory \<times> nat) option" where
  "db_items Data SigList 0 SigItem m DataSize = Some (m, DataSize)"
| "db_items Data SigList (Suc n) SigItem m DataSize =
     (case new_lists Data SigList SigItem Data m DataSize DataSize of
        None \<Rightarrow> None
      | Some (m', DataSize') \<Rightarrow> db_items Data SigList n (SigItem + SignatureSize m' SigList) m' DataSize')"

text \<open>The loop over the lists of the database.\<close>

partial_function (option) db_lists :: "nat \<Rightarrow> nat \<Rightarrow> nat \<Rightarrow> memory \<Rightarrow> nat \<Rightarrow> (memory \<times> nat) option" where
  "db_lists Data SigList SigDbSize m DataSize =
     (if SigDbSize > 0 \<and> SigDbSize \<ge> SignatureListSize m SigList
      then case signature_count m SigList of
             None \<Rightarrow> None
           | Some SigCount \<Rightarrow>
               (case db_items Data SigList SigCount (first_signature m SigList) m DataSize of
                  None \<Rightarrow> None
                | Some (m', DataSize') \<Rightarrow>
                    db_lists Data (SigList + SignatureListSize m' SigList)
                      (uintn_sub SigDbSize (SignatureListSize m' SigList)) m' DataSize')
      else Some (m, DataSize))"

declare new_lists.simps [code] db_lists.simps [code]

definition FindInSignatureDb ::
    "u32 \<Rightarrow> nat \<Rightarrow> nat \<Rightarrow> nat \<Rightarrow> nat \<Rightarrow> memory \<Rightarrow> (efi_status \<times> memory \<times> nat) option" where
  "FindInSignatureDb Attributes Data DataSize SigDb SigDbSize m =
     (if (SigDb \<noteq> 0 \<and> SigDbSize \<noteq> 0) \<and> (Data \<noteq> SigDb \<and> has Attributes EFI_VARIABLE_APPEND_WRITE)
         \<and> \<not> EFI_ERROR (ValidateSignatureList m Data DataSize)
      then case db_lists Data SigDb SigDbSize m DataSize of
             None \<Rightarrow> None
           | Some (m', DataSize') \<Rightarrow>
               Some (if DataSize' = 0 then EFI_ALREADY_STARTED else EFI_SUCCESS, m', DataSize')
      else Some (EFI_SUCCESS, m, DataSize))"

end
