(* ===== verification/AuthListsFacts.thy ===== *)
theory AuthListsFacts
  imports DevicePathFacts AuthLists
begin

text \<open>
  Signature lists as values: what \<^verbatim>\<open>ValidateSignatureList\<close> accepts, and what \<^verbatim>\<open>FindInSignatureDb\<close> leaves of
  the data of an append.
\<close>

section \<open>The bytes of signature lists\<close>

abbreviation stored :: "memory \<Rightarrow> nat \<Rightarrow> u8 list \<Rightarrow> bool" where "stored \<equiv> DevicePathFacts.has"

text \<open>A list: its type, the size of its signatures, and the signatures, each the owner and the data.\<close>

datatype sig_list = SigList (sl_type: "u8 list") (sl_size: nat) (sl_sigs: "u8 list list")

definition sl_length :: "sig_list \<Rightarrow> nat" where
  "sl_length l = sizeof_SIGNATURE_LIST + length (sl_sigs l) * sl_size l"

definition sl_header :: "sig_list \<Rightarrow> u8 list" where
  "sl_header l = sl_type l @ le_bytes 4 (sl_length l) @ le_bytes 4 0 @ le_bytes 4 (sl_size l)"

definition sl_bytes :: "sig_list \<Rightarrow> u8 list" where
  "sl_bytes l = sl_header l @ concat (sl_sigs l)"

definition sl_ok :: "sig_list \<Rightarrow> bool" where
  "sl_ok l \<longleftrightarrow> length (sl_type l) = sizeof_GUID \<and> sizeof_GUID \<le> sl_size l \<and> sl_size l < 2 ^ 32 \<and> sl_length l < 2 ^ 32
     \<and> list_all (\<lambda>s. length s = sl_size l) (sl_sigs l)"

definition lists_bytes :: "sig_list list \<Rightarrow> u8 list" where
  "lists_bytes ls = concat (map sl_bytes ls)"

lemma lists_bytes_simps [simp]: "lists_bytes [] = []" "lists_bytes (l # ls) = sl_bytes l @ lists_bytes ls"
  "lists_bytes (ls @ ls') = lists_bytes ls @ lists_bytes ls'"
  by (simp_all add: lists_bytes_def)

lemma concat_const_length: "list_all (\<lambda>s. length s = n) ss \<Longrightarrow> length (concat ss) = length ss * n"
  by (induction ss) auto

lemma sl_lengths:
  assumes "sl_ok l"
  shows "length (sl_header l) = sizeof_SIGNATURE_LIST" "length (sl_bytes l) = sl_length l"
    "sizeof_SIGNATURE_LIST \<le> sl_length l" "0 < sl_length l" "sl_length l < 2 ^ 64" "sl_size l < 2 ^ 64"
proof -
  show h: "length (sl_header l) = sizeof_SIGNATURE_LIST"
    using assms by (simp add: sl_header_def sl_ok_def sizeof_SIGNATURE_LIST_def sizeof_GUID_def)
  then show "length (sl_bytes l) = sl_length l"
    using assms by (simp add: sl_bytes_def sl_length_def sl_ok_def concat_const_length)
  show "sizeof_SIGNATURE_LIST \<le> sl_length l" "0 < sl_length l" "sl_length l < 2 ^ 64"
    using assms by (simp_all add: sl_length_def sl_ok_def sizeof_SIGNATURE_LIST_def)
  show "sl_size l < 2 ^ 64" using assms by (simp add: sl_ok_def)
qed

text \<open>The fields of a stored list.\<close>

lemma stored_fields:
  assumes st: "stored m p (sl_header l)" and ok: "sl_ok l"
  shows "SignatureType m p = sl_type l" "SignatureListSize m p = sl_length l" "SignatureHeaderSize m p = 0"
    "SignatureSize m p = sl_size l"
proof -
  have t: "length (sl_type l) = 16" "sl_length l < 2 ^ 32" "sl_size l < 2 ^ 32" using ok by (simp_all add: sl_ok_def sizeof_GUID_def)
  have s: "stored m p (sl_type l)" "stored m (p + 16) (le_bytes 4 (sl_length l))" "stored m (p + 20) (le_bytes 4 0)"
    "stored m (p + 24) (le_bytes 4 (sl_size l))"
    using st t by (simp_all add: sl_header_def has_append add.commute)
  show "SignatureType m p = sl_type l" using has_rd [OF s(1)] t by (simp add: SignatureType_def sizeof_GUID_def)
  show "SignatureListSize m p = sl_length l" using has_rd [OF s(2)] t by (simp add: SignatureListSize_def rd_def)
  show "SignatureHeaderSize m p = 0" using has_rd [OF s(3)] by (simp add: SignatureHeaderSize_def rd_def)
  show "SignatureSize m p = sl_size l" using has_rd [OF s(4)] t by (simp add: SignatureSize_def rd_def)
qed

lemma stored_count:
  assumes st: "stored m p (sl_header l)" and ok: "sl_ok l"
  shows "signature_count m p = Some (length (sl_sigs l))" "first_signature m p = p + sizeof_SIGNATURE_LIST"
proof -
  note f = stored_fields [OF assms]
  have l: "16 \<le> sl_size l" "length (sl_sigs l) * sl_size l < 2 ^ 32"
    using ok by (simp_all add: sl_ok_def sl_length_def sizeof_GUID_def)
  have "length (sl_sigs l) * 1 \<le> length (sl_sigs l) * sl_size l" using l(1) by (intro mult_le_mono) auto
  then have n: "length (sl_sigs l) < 2 ^ 32" using l(2) by (simp only: mult_1_right)
  have "signatures_size m p = length (sl_sigs l) * sl_size l"
    using f sl_lengths [OF ok] by (simp add: signatures_size_def sl_length_def)
  then show "signature_count m p = Some (length (sl_sigs l))" using f(4) l n by (simp add: signature_count_def)
  show "first_signature m p = p + sizeof_SIGNATURE_LIST" using f(3) by (simp add: first_signature_def)
qed

text \<open>The comparison of two signatures skips their owners.\<close>

definition same_data :: "u8 list \<Rightarrow> u8 list \<Rightarrow> bool" where
  "same_data x y \<longleftrightarrow> drop sizeof_GUID x = drop sizeof_GUID y"

lemma stored_drop: "stored m p x \<Longrightarrow> rd_bytes m (p + k) (length x - k) = drop k x"
  using arg_cong [OF rd_bytes_append [of m p k "length x - k"], of "drop k"]
  by (cases "k \<le> length x") (auto simp: DevicePathFacts.has_def)

lemma stored_split: "stored m p x \<Longrightarrow> k \<le> length x \<Longrightarrow> stored m p (take k x) \<and> stored m (p + k) (drop k x)"
  using has_append [of m p "take k x" "drop k x"] by simp

lemma MemCmp_signatures:
  assumes "stored m p x" "stored m q y" "length x = n" "length y = n" "sizeof_GUID \<le> n" "n < 2 ^ 64"
  shows "MemCmp m (SignatureData p) (SignatureData q) (uintn_sub n sizeof_GUID) = 0 \<longleftrightarrow> same_data x y"
  using stored_drop [OF assms(1), of sizeof_GUID] stored_drop [OF assms(2), of sizeof_GUID] assms(3-)
  by (simp add: MemCmp_0 SignatureData_def same_data_def)

section \<open>Removing what the database has\<close>

text \<open>The data of the append: lists of one signature each, as tools make them for certificates.\<close>

definition single :: "sig_list \<Rightarrow> bool" where
  "single l \<longleftrightarrow> sl_ok l \<and> length (sl_sigs l) = 1"

definition known_sig :: "sig_list \<Rightarrow> u8 list \<Rightarrow> sig_list \<Rightarrow> bool" where
  "known_sig d x l \<longleftrightarrow> sl_type l = sl_type d \<and> sl_size l = sl_size d \<and> same_data x (hd (sl_sigs l))"

definition new_to :: "sig_list \<Rightarrow> u8 list \<Rightarrow> sig_list list \<Rightarrow> sig_list list" where
  "new_to d x ls = filter (\<lambda>l. \<not> known_sig d x l) ls"

lemma new_to_simps [simp]: "new_to d x [] = []"
  "new_to d x (l # ls) = (if known_sig d x l then new_to d x ls else l # new_to d x ls)"
  by (simp_all add: new_to_def)

text \<open>A header and a signature of the database, outside of the bytes from \<open>lo\<close> to \<open>hi\<close>.\<close>

definition db_item :: "memory \<Rightarrow> nat \<Rightarrow> nat \<Rightarrow> nat \<Rightarrow> nat \<Rightarrow> sig_list \<Rightarrow> u8 list \<Rightarrow> bool" where
  "db_item m lo hi h i d x \<longleftrightarrow> sl_ok d \<and> length x = sl_size d \<and> stored m h (sl_header d) \<and> stored m i x
     \<and> (h + sizeof_SIGNATURE_LIST \<le> lo \<or> hi \<le> h) \<and> (i + sl_size d \<le> lo \<or> hi \<le> i)"

text \<open>Memories that differ in the bytes from \<open>lo\<close> to \<open>hi\<close> only.\<close>

definition only_in :: "nat \<Rightarrow> nat \<Rightarrow> memory \<Rightarrow> memory \<Rightarrow> bool" where
  "only_in lo hi m m' \<longleftrightarrow> (\<forall>i. i < lo \<or> hi \<le> i \<longrightarrow> m' i = m i)"

lemma only_in_refl [simp]: "only_in lo hi m m"
  by (simp add: only_in_def)

lemma only_in_trans: "only_in lo hi m m1 \<Longrightarrow> only_in lo' hi' m1 m2 \<Longrightarrow> lo \<le> lo' \<Longrightarrow> hi' \<le> hi \<Longrightarrow> only_in lo hi m m2"
  by (auto simp: only_in_def)

lemma only_in_stored: "only_in lo hi m m' \<Longrightarrow> p + length bs \<le> lo \<or> hi \<le> p \<Longrightarrow> stored m' p bs = stored m p bs"
  unfolding DevicePathFacts.has_def only_in_def
  by (intro arg_cong [where f = "\<lambda>x. x = bs"] nth_equalityI) auto

lemma only_in_move: "only_in p (p + n) m (move_bytes p q n m)"
  by (simp add: only_in_def move_bytes_def wr_bytes_out)

lemma db_item_keep: "db_item m lo hi h i d x \<Longrightarrow> only_in lo hi m m' \<Longrightarrow> db_item m' lo hi h i d x"
  unfolding db_item_def using only_in_stored [of lo hi m m' h "sl_header d"] only_in_stored [of lo hi m m' i x]
  by (auto simp: sl_lengths)

lemma db_item_sub: "db_item m lo hi h i d x \<Longrightarrow> lo \<le> lo' \<Longrightarrow> hi' \<le> hi \<Longrightarrow> db_item m lo' hi' h i d x"
  by (auto simp: db_item_def)

lemma single_bytes:
  assumes "single l" "stored m p (sl_bytes l @ bs)"
  shows "stored m p (sl_header l)" "stored m (p + sizeof_SIGNATURE_LIST) (hd (sl_sigs l))" "length (hd (sl_sigs l)) = sl_size l"
    "stored m (p + sl_length l) bs"
proof -
  obtain y where y: "sl_sigs l = [y]" using assms(1) by (cases "sl_sigs l") (auto simp: single_def)
  have ok: "sl_ok l" using assms(1) by (simp add: single_def)
  show "stored m p (sl_header l)" "stored m (p + sizeof_SIGNATURE_LIST) (hd (sl_sigs l))" "length (hd (sl_sigs l)) = sl_size l"
    "stored m (p + sl_length l) bs"
    using assms(2) sl_lengths [OF ok] y ok by (auto simp: has_append sl_bytes_def sl_ok_def sl_length_def add.assoc)
qed

text \<open>One signature of the database against the new lists from \<open>p\<close> on.\<close>

lemma new_lists_single:
  assumes "list_all single ls" "stored m p (lists_bytes ls)" "db_item m p (p + length (lists_bytes ls)) h i d x"
    "a + length (lists_bytes ls) < 2 ^ 64" "p + length (lists_bytes ls) = Data + (a + length (lists_bytes ls))"
  shows "\<exists>m'. new_lists Data h i p m (a + length (lists_bytes ls)) (length (lists_bytes ls))
        = Some (m', a + length (lists_bytes (new_to d x ls)))
    \<and> stored m' p (lists_bytes (new_to d x ls)) \<and> only_in p (p + length (lists_bytes ls)) m m'"
  using assms
proof (induction ls arbitrary: m p a)
  case Nil
  then show ?case by (subst new_lists.simps) simp
next
  case (Cons l ls)
  let ?n = "length (lists_bytes ls)" and ?L = "sl_length l" and ?K = "known_sig d x l"
  have sg: "single l" "list_all single ls" using Cons.prems(1) by simp_all
  then have ok: "sl_ok l" by (simp add: single_def)
  have lb: "length (lists_bytes (l # ls)) = ?L + ?n" using sl_lengths [OF ok] by simp
  have at: "stored m p (sl_bytes l @ lists_bytes ls)" using Cons.prems(2) by simp
  note b = single_bytes [OF sg(1) at]
  note f = stored_fields [OF b(1) ok] stored_count [OF b(1) ok]
  have one: "length (sl_sigs l) = 1" using sg by (simp add: single_def)
  have db: "sl_ok d" "length x = sl_size d" "stored m h (sl_header d)" "stored m i x"
    using Cons.prems(3) by (simp_all add: db_item_def)
  note g = stored_fields [OF db(3,1)]
  note sz = sl_lengths [OF ok] sl_lengths [OF db(1)]
  have lt: "a + (?L + ?n) < 2 ^ 64" and pd: "p + (?L + ?n) = Data + (a + (?L + ?n))" using Cons.prems(4,5) lb by simp_all
  have cmp: "MemCmp m (SignatureData i) (SignatureData (p + sizeof_SIGNATURE_LIST)) (uintn_sub (sl_size d) sizeof_GUID) = 0
      \<longleftrightarrow> same_data x (hd (sl_sigs l))" if "sl_size d = sl_size l"
    using MemCmp_signatures [OF db(4) b(2) db(2)] b(3) that sz db(1) by (simp add: sl_ok_def)
  show ?case
  proof (cases ?K)
    case True
    let ?m = "move_bytes p (p + ?L) ?n m"
    have step: "new_lists Data h i p m (a + (?L + ?n)) (?L + ?n) = new_lists Data h i p ?m (a + ?n) ?n"
      using True f g one cmp lt sz(4) by (subst new_lists.simps) (simp add: known_sig_def Let_def)
    have m1: "stored ?m p (lists_bytes ls)"
      using b(4) by (simp add: move_bytes_def DevicePathFacts.has_def)
    have fr: "only_in p (p + (?L + ?n)) m ?m"
      using only_in_move [of p ?n m "p + ?L"] by (rule only_in_trans [OF only_in_refl]) auto
    then have "db_item ?m p (p + (?L + ?n)) h i d x" using Cons.prems(3) lb by (metis db_item_keep)
    then have db': "db_item ?m p (p + ?n) h i d x" by (rule db_item_sub) auto
    from Cons.IH [OF sg(2) m1 db', of a] lt pd show ?thesis
      using step True fr lb by (auto simp: elim!: only_in_trans)
  next
    case False
    have step: "new_lists Data h i p m (a + (?L + ?n)) (?L + ?n)
        = new_lists Data h i (p + ?L) m (a + (?L + ?n)) ?n"
      using False f g one cmp lt sz(4) by (subst new_lists.simps) (auto simp add: known_sig_def)
    have db': "db_item m (p + ?L) (p + ?L + ?n) h i d x"
      using Cons.prems(3) unfolding lb by (rule db_item_sub) auto
    have "a + ?L + ?n < 2 ^ 64" "p + ?L + ?n = Data + (a + ?L + ?n)" using lt pd by simp_all
    from Cons.IH [OF sg(2) b(4) db' this] obtain m' where m':
      "new_lists Data h i (p + ?L) m (a + ?L + ?n) ?n = Some (m', a + ?L + length (lists_bytes (new_to d x ls)))"
      "stored m' (p + ?L) (lists_bytes (new_to d x ls))" "only_in (p + ?L) (p + ?L + ?n) m m'"
      by blast
    have "stored m' p (sl_bytes l)"
      using at only_in_stored [OF m'(3), of p "sl_bytes l"] sl_lengths(2) [OF ok] by (simp add: has_append)
    then have "stored m' p (lists_bytes (new_to d x (l # ls)))" using m'(2) False sl_lengths(2) [OF ok] by (simp add: has_append)
    moreover have "only_in p (p + (?L + ?n)) m m'" using only_in_trans [OF only_in_refl m'(3)] by (simp add: add.assoc)
    ultimately show ?thesis using step m'(1) False lb sl_lengths(2) [OF ok] by (auto simp: add.assoc)
  qed
qed

text \<open>All signatures of a list of the database, and all its lists.\<close>

lemma db_items_single:
  assumes "list_all single ls" "stored m Data (lists_bytes ls)" "sl_ok d" "stored m h (sl_header d)"
    "stored m q (concat xs)" "list_all (\<lambda>x. length x = sl_size d) xs"
    "h + sizeof_SIGNATURE_LIST \<le> Data \<or> N \<le> h" "q + length (concat xs) \<le> Data \<or> N \<le> q"
    "Data + length (lists_bytes ls) \<le> N" "length (lists_bytes ls) < 2 ^ 64"
  shows "\<exists>m'. db_items Data h (length xs) q m (length (lists_bytes ls))
        = Some (m', length (lists_bytes (foldl (\<lambda>ls x. new_to d x ls) ls xs)))
    \<and> stored m' Data (lists_bytes (foldl (\<lambda>ls x. new_to d x ls) ls xs)) \<and> only_in Data N m m'"
  using assms
proof (induction xs arbitrary: m q ls)
  case Nil
  then show ?case by simp
next
  case (Cons x xs)
  let ?ls = "new_to d x ls"
  have x: "length x = sl_size d" "stored m q x" "stored m (q + sl_size d) (concat xs)"
    using Cons.prems(5,6) by (auto simp: has_append)
  have db: "db_item m Data (Data + length (lists_bytes ls)) h q d x"
    using Cons.prems x by (auto simp: db_item_def)
  from new_lists_single [OF Cons.prems(1,2) db, of 0 Data] Cons.prems(10) obtain m' where m':
    "new_lists Data h q Data m (length (lists_bytes ls)) (length (lists_bytes ls)) = Some (m', length (lists_bytes ?ls))"
    "stored m' Data (lists_bytes ?ls)" "only_in Data (Data + length (lists_bytes ls)) m m'"
    by auto
  have le: "length (lists_bytes ?ls) \<le> length (lists_bytes ls)" by (induction ls) auto
  have fr: "only_in Data N m m'" using only_in_trans [OF only_in_refl m'(3)] Cons.prems(9) by auto
  have hd: "stored m' h (sl_header d)" and tl: "stored m' (q + sl_size d) (concat xs)"
    using only_in_stored [OF fr, of h "sl_header d"] only_in_stored [OF fr, of "q + sl_size d" "concat xs"]
      Cons.prems(3,4,7,8) x sl_lengths(1) [OF Cons.prems(3)] by auto
  have "list_all single ?ls" using Cons.prems(1) by (simp add: new_to_def list_all_iff)
  from Cons.IH [OF this m'(2) Cons.prems(3) hd tl _ Cons.prems(7)] Cons.prems le x(1) obtain m'' where
    "db_items Data h (length xs) (q + sl_size d) m' (length (lists_bytes ?ls))
        = Some (m'', length (lists_bytes (foldl (\<lambda>ls x. new_to d x ls) ?ls xs)))"
    "stored m'' Data (lists_bytes (foldl (\<lambda>ls x. new_to d x ls) ?ls xs))" "only_in Data N m' m''"
    by auto
  then show ?case using m'(1) fr stored_fields(4) [OF hd Cons.prems(3)] by (auto intro: only_in_trans)
qed

lemma foldl_new_to: "foldl (\<lambda>ls x. new_to d x ls) ls xs = filter (\<lambda>l. \<not> (\<exists>x \<in> set xs. known_sig d x l)) ls"
  by (induction xs arbitrary: ls) (auto simp: new_to_def intro: filter_cong)

text \<open>The database has a signature of the same type and size with the same data.\<close>

definition in_db :: "sig_list list \<Rightarrow> sig_list \<Rightarrow> bool" where
  "in_db db l \<longleftrightarrow> (\<exists>d \<in> set db. \<exists>x \<in> set (sl_sigs d). known_sig d x l)"

lemma db_lists_single:
  assumes "list_all single ls" "stored m Data (lists_bytes ls)" "list_all sl_ok db" "stored m h (lists_bytes db)"
    "h + length (lists_bytes db) \<le> Data \<or> N \<le> h" "Data + length (lists_bytes ls) \<le> N"
    "length (lists_bytes ls) < 2 ^ 64" "length (lists_bytes db) < 2 ^ 64"
  shows "\<exists>m'. db_lists Data h (length (lists_bytes db)) m (length (lists_bytes ls))
        = Some (m', length (lists_bytes (filter (\<lambda>l. \<not> in_db db l) ls)))
    \<and> stored m' Data (lists_bytes (filter (\<lambda>l. \<not> in_db db l) ls)) \<and> only_in Data N m m'"
  using assms
proof (induction db arbitrary: m h ls)
  case Nil
  then show ?case by (subst db_lists.simps) (auto simp: in_db_def)
next
  case (Cons d db)
  let ?ls = "foldl (\<lambda>ls x. new_to d x ls) ls (sl_sigs d)" and ?L = "sl_length d"
  have ok: "sl_ok d" "list_all sl_ok db" using Cons.prems(3) by simp_all
  note sz = sl_lengths [OF ok(1)]
  have st: "stored m h (sl_header d)" "stored m (h + sizeof_SIGNATURE_LIST) (concat (sl_sigs d))"
    "stored m (h + ?L) (lists_bytes db)" and len: "list_all (\<lambda>x. length x = sl_size d) (sl_sigs d)"
    and cc: "sizeof_SIGNATURE_LIST + length (concat (sl_sigs d)) = ?L"
    using Cons.prems(4) sz(1,2) ok(1) by (auto simp: has_append sl_bytes_def sl_ok_def add.assoc)
  note f = stored_fields [OF st(1) ok(1)] stored_count [OF st(1) ok(1)]
  have "h + sizeof_SIGNATURE_LIST \<le> Data \<or> N \<le> h"
    "h + sizeof_SIGNATURE_LIST + length (concat (sl_sigs d)) \<le> Data \<or> N \<le> h + sizeof_SIGNATURE_LIST"
    using Cons.prems(5) sz(2) cc by auto
  from db_items_single [OF Cons.prems(1,2) ok(1) st(1,2) len this Cons.prems(6,7)] obtain m' where m':
    "db_items Data h (length (sl_sigs d)) (h + sizeof_SIGNATURE_LIST) m (length (lists_bytes ls))
       = Some (m', length (lists_bytes ?ls))"
    "stored m' Data (lists_bytes ?ls)" "only_in Data N m m'"
    by blast
  have hd: "stored m' h (sl_header d)" and tl: "stored m' (h + ?L) (lists_bytes db)"
    using only_in_stored [OF m'(3), of h "sl_header d"] only_in_stored [OF m'(3), of "h + ?L" "lists_bytes db"]
      st(1,3) Cons.prems(5) sz(1,2,3) by auto
  have le: "length (lists_bytes ?ls) \<le> length (lists_bytes ls)"
    unfolding foldl_new_to by (induction ls) auto
  have "list_all single ?ls" using Cons.prems(1) by (simp add: foldl_new_to list_all_iff)
  from Cons.IH [OF this m'(2) ok(2) tl] Cons.prems(5-8) le sz(2) obtain m'' where m'':
    "db_lists Data (h + ?L) (length (lists_bytes db)) m' (length (lists_bytes ?ls))
        = Some (m'', length (lists_bytes (filter (\<lambda>l. \<not> in_db db l) ?ls)))"
    "stored m'' Data (lists_bytes (filter (\<lambda>l. \<not> in_db db l) ?ls))" "only_in Data N m' m''"
    by auto
  have eq: "filter (\<lambda>l. \<not> in_db db l) ?ls = filter (\<lambda>l. \<not> in_db (d # db) l) ls"
    unfolding foldl_new_to filter_filter by (rule filter_cong) (auto simp: in_db_def)
  have "db_lists Data h (length (lists_bytes (d # db))) m (length (lists_bytes ls))
      = db_lists Data (h + ?L) (length (lists_bytes db)) m' (length (lists_bytes ?ls))"
    using f m'(1) sz Cons.prems(8) stored_fields(2) [OF hd ok(1)] by (subst db_lists.simps) simp
  with m'' m'(3) eq show ?case by (auto intro: only_in_trans)
qed

section \<open>What is accepted\<close>

text \<open>A list the check accepts.\<close>

definition acceptable :: "sig_list \<Rightarrow> bool" where
  "acceptable l \<longleftrightarrow> sl_ok l \<and> sl_type l \<in> set mSignatureSupport \<and> 0x4c \<le> sl_length l \<and> sl_length l \<le> NVRAM_SIZE"

lemma Validate_loop_lists:
  "list_all acceptable ls \<Longrightarrow> stored m p (lists_bytes ls) \<Longrightarrow>
   ValidateSignatureList_loop m p (length (lists_bytes ls) + k) s
     = ValidateSignatureList_loop m (p + length (lists_bytes ls)) k (if ls = [] then s else EFI_SUCCESS)"
proof (induction ls arbitrary: p s)
  case Nil
  then show ?case by simp
next
  case (Cons l ls)
  have ok: "sl_ok l" "sl_type l \<in> set mSignatureSupport" "0x4c \<le> sl_length l" "sl_length l \<le> NVRAM_SIZE"
    using Cons.prems(1) by (simp_all add: acceptable_def)
  note sz = sl_lengths [OF ok(1)]
  have st: "stored m p (sl_header l)" "stored m (p + sl_length l) (lists_bytes ls)"
    using Cons.prems(2) sz(2) by (simp_all add: has_append sl_bytes_def [of l] add.assoc)
  note f = stored_fields [OF st(1) ok(1)]
  show ?case
    using Cons.IH [OF _ st(2), of EFI_SUCCESS] Cons.prems(1) f ok sz
    by (subst ValidateSignatureList_loop.simps) (simp add: add.assoc)
qed

lemma lists_length_pos: "list_all sl_ok ls \<Longrightarrow> ls \<noteq> [] \<Longrightarrow> 0 < length (lists_bytes ls)"
  using sl_lengths(2,4) [of "hd ls"] by (cases ls) auto

lemma Validate_lists:
  assumes "list_all acceptable ls" "ls \<noteq> []" "stored m Data (lists_bytes ls)" "Data \<noteq> 0"
  shows "ValidateSignatureList m Data (length (lists_bytes ls)) = EFI_SUCCESS"
proof -
  have "list_all sl_ok ls" using assms(1) by (simp add: acceptable_def list_all_iff)
  then show ?thesis
    using Validate_loop_lists [OF assms(1,3), of 0] assms(2,4) lists_length_pos [of ls]
    by (simp add: ValidateSignatureList_def ValidateSignatureList_loop.simps [of _ _ 0])
qed

text \<open>The check accepts exactly the data that begin with acceptable lists; what follows the last of them is
  not looked at if it is shorter than it claims to be.\<close>

definition sig_header_ok :: "memory \<Rightarrow> nat \<Rightarrow> bool" where
  "sig_header_ok m p \<longleftrightarrow> SignatureType m p \<in> set mSignatureSupport \<and> 0x4c \<le> SignatureListSize m p
     \<and> SignatureListSize m p \<le> NVRAM_SIZE \<and> SignatureHeaderSize m p = 0"

inductive accepted :: "memory \<Rightarrow> nat \<Rightarrow> nat \<Rightarrow> bool" for m where
  last_list: "sig_header_ok m p \<Longrightarrow> SignatureListSize m p \<le> n \<Longrightarrow>
     n = SignatureListSize m p \<or> n - SignatureListSize m p < SignatureListSize m (p + SignatureListSize m p)
       \<Longrightarrow> accepted m p n"
| more_lists: "sig_header_ok m p \<Longrightarrow> SignatureListSize m p \<le> n \<Longrightarrow>
     accepted m (p + SignatureListSize m p) (n - SignatureListSize m p) \<Longrightarrow> accepted m p n"

lemma Validate_loop_accepted:
  "ValidateSignatureList_loop m p n EFI_SUCCESS = EFI_SUCCESS \<longleftrightarrow>
     n = 0 \<or> n < SignatureListSize m p \<or> accepted m p n"
proof (induction m p n EFI_SUCCESS rule: ValidateSignatureList_loop.induct)
  case (1 m p n)
  show ?case
  proof (cases "0 < n \<and> SignatureListSize m p \<le> n")
    case False
    then show ?thesis by (subst ValidateSignatureList_loop.simps) auto
  next
    case True
    let ?s = "SignatureListSize m p"
    have "ValidateSignatureList_loop m p n EFI_SUCCESS = EFI_SUCCESS \<longleftrightarrow>
        sig_header_ok m p \<and> ValidateSignatureList_loop m (p + ?s) (n - ?s) EFI_SUCCESS = EFI_SUCCESS"
      using True by (subst ValidateSignatureList_loop.simps) (auto simp: sig_header_ok_def)
    moreover have "accepted m p n \<longleftrightarrow> sig_header_ok m p \<and>
        (n = ?s \<or> n - ?s < SignatureListSize m (p + ?s) \<or> accepted m (p + ?s) (n - ?s))"
      using True by (subst accepted.simps) auto
    ultimately show ?thesis using True 1 by (auto simp: sig_header_ok_def)
  qed
qed

lemma ValidateSignatureList_accepts:
  "ValidateSignatureList m Data n = EFI_SUCCESS \<longleftrightarrow> Data \<noteq> 0 \<and> accepted m Data n"
proof (cases "Data = 0 \<or> n = 0 \<or> n < SignatureListSize m Data")
  case True
  have "\<not> accepted m Data n" if "n = 0 \<or> n < SignatureListSize m Data"
    using that by (subst accepted.simps) (auto simp: sig_header_ok_def)
  then show ?thesis using True by (auto simp: ValidateSignatureList_def ValidateSignatureList_loop.simps [of m Data n])
next
  case False
  then have "ValidateSignatureList m Data n = ValidateSignatureList_loop m Data n EFI_SUCCESS"
    by (simp add: ValidateSignatureList_def ValidateSignatureList_loop.simps [of m Data n])
  then show ?thesis using False Validate_loop_accepted [of m Data n] by simp
qed

section \<open>Appending what the database has\<close>

text \<open>C9: \<^verbatim>\<open>FindInSignatureDb\<close> on lists of one signature each: of the data of an append exactly the lists remain
  whose signature the database does not have (type, size and data; the owner does not count), in their
  order, the size is reduced to theirs, nothing outside of the data is changed, and
  \<^verbatim>\<open>EFI_ALREADY_STARTED\<close> says that none remains.\<close>

theorem FindInSignatureDb_dedup:
  assumes new: "list_all (\<lambda>l. single l \<and> acceptable l) new" "new \<noteq> []" "stored m Data (lists_bytes new)"
    and db: "list_all sl_ok db" "db \<noteq> []" "stored m SigDb (lists_bytes db)"
    and place: "SigDb \<noteq> 0" "Data \<noteq> 0" "SigDb + length (lists_bytes db) \<le> Data \<or> Data + length (lists_bytes new) \<le> SigDb"
      "length (lists_bytes new) < 2 ^ 64" "length (lists_bytes db) < 2 ^ 64"
    and app: "NvramRead.has A EFI_VARIABLE_APPEND_WRITE"
  shows "\<exists>m'. FindInSignatureDb A Data (length (lists_bytes new)) SigDb (length (lists_bytes db)) m
        = Some (if \<forall>l \<in> set new. in_db db l then EFI_ALREADY_STARTED else EFI_SUCCESS, m',
                length (lists_bytes (filter (\<lambda>l. \<not> in_db db l) new)))
    \<and> stored m' Data (lists_bytes (filter (\<lambda>l. \<not> in_db db l) new))
    \<and> (\<forall>i. i < Data \<or> Data + length (lists_bytes new) \<le> i \<longrightarrow> m' i = m i)"
proof -
  let ?kept = "filter (\<lambda>l. \<not> in_db db l) new"
  have s: "list_all single new" "list_all acceptable new" and o: "list_all sl_ok new" and ok: "list_all sl_ok ?kept"
    using new(1) by (auto simp: list_all_iff single_def)
  have "ValidateSignatureList m Data (length (lists_bytes new)) = EFI_SUCCESS"
    using Validate_lists [OF s(2) new(2,3) place(2)] .
  moreover obtain m' where m': "db_lists Data SigDb (length (lists_bytes db)) m (length (lists_bytes new))
        = Some (m', length (lists_bytes ?kept))" "stored m' Data (lists_bytes ?kept)"
      "only_in Data (Data + length (lists_bytes new)) m m'"
    using db_lists_single [OF s(1) new(3) db(1,3) place(3) order.refl place(4,5)] by blast
  moreover have "length (lists_bytes ?kept) = 0 \<longleftrightarrow> (\<forall>l \<in> set new. in_db db l)"
    using lists_length_pos [OF ok] by (cases "?kept = []") (auto simp: filter_empty_conv)
  moreover have "Data \<noteq> SigDb" using place(3) lists_length_pos [OF o new(2)] lists_length_pos [OF db(1,2)] by auto
  ultimately show ?thesis
    using place(1) app lists_length_pos [OF db(1,2)] by (auto simp: FindInSignatureDb_def only_in_def)
qed

definition ex_sig :: "u8 \<Rightarrow> u8 \<Rightarrow> u8 list" where
  "ex_sig owner b = replicate 16 owner @ replicate 32 b"

definition ex_one :: "u8 \<Rightarrow> u8 \<Rightarrow> sig_list" where
  "ex_one owner b = SigList gEfiCertSha256Guid 48 [ex_sig owner b]"

definition ex_lists :: "sig_list list \<Rightarrow> sig_list list \<Rightarrow> memory" where
  "ex_lists db new = wr_bytes (wr_bytes (\<lambda>_. 0) 0x1000 (lists_bytes db)) 0x2000 (lists_bytes new)"

lemma ex_lists_stored:
  assumes "length (lists_bytes db) \<le> 0x1000"
  shows "stored (ex_lists db new) 0x2000 (lists_bytes new)" "stored (ex_lists db new) 0x1000 (lists_bytes db)"
  using assms by (simp_all add: ex_lists_def has_wr has_frame)

theorem FindInSignatureDb_dedup_witness:
  "\<exists>m'. FindInSignatureDb EFI_VARIABLE_APPEND_WRITE 0x2000 152 0x1000 76 (ex_lists [ex_one 0 5] [ex_one 1 5, ex_one 1 6])
        = Some (EFI_SUCCESS, m', 76)
    \<and> stored m' 0x2000 (sl_bytes (ex_one 1 6))"
proof -
  let ?db = "[ex_one 0 5]" and ?new = "[ex_one 1 5, ex_one 1 6]"
  have n: "list_all (\<lambda>l. single l \<and> acceptable l) ?new" "?new \<noteq> []" "list_all sl_ok ?db" "?db \<noteq> []"
    "0x1000 \<noteq> (0 :: nat)" "0x2000 \<noteq> (0 :: nat)" "length (lists_bytes ?db) = 76" "length (lists_bytes ?new) = 152"
    "0x1000 + length (lists_bytes ?db) \<le> 0x2000 \<or> 0x2000 + length (lists_bytes ?new) \<le> 0x1000"
    "length (lists_bytes ?new) < 2 ^ 64" "length (lists_bytes ?db) < 2 ^ 64"
    "NvramRead.has EFI_VARIABLE_APPEND_WRITE EFI_VARIABLE_APPEND_WRITE"
    by code_simp+
  have db: "in_db ?db (ex_one 1 5)" "\<not> in_db ?db (ex_one 1 6)"
    by (simp_all add: in_db_def known_sig_def same_data_def ex_one_def ex_sig_def sizeof_GUID_def replicate_eq_replicate)
  have "lists_bytes (filter (\<lambda>l. \<not> in_db ?db l) ?new) = sl_bytes (ex_one 1 6)" "length (sl_bytes (ex_one 1 6)) = 76"
    using db n(7) by (simp_all add: ex_one_def ex_sig_def sl_bytes_def sl_header_def gEfiCertSha256Guid_def)
  then show ?thesis
    using FindInSignatureDb_dedup [OF n(1,2) ex_lists_stored(1) n(3,4) ex_lists_stored(2) n(5,6,9-12)] n(7,8) db by simp blast
qed

section \<open>A list of two signatures\<close>

text \<open>A header that claims a length of zero is never passed.\<close>

lemma new_lists_stuck:
  assumes "0 < k" "k < 2 ^ 64" "SignatureListSize m p = 0" "SignatureType m p \<noteq> SignatureType m h"
  shows "new_lists Data h i p m n k = None"
proof -
  have False if "new_lists Data h i p m n k = Some r" for r
    using refl [of "(Data, h, i, p, m, n, k)"]
  proof (rule new_lists.raw_induct [OF _ that, where P = "\<lambda>Data' h' i' p' m' n' k' _. (Data', h', i', p', m', n', k') \<noteq> (Data, h, i, p, m, n, k)", THEN notE, rotated])
    fix f Data' h' i' p' m' n' k' r'
    assume IH: "\<And>Data' h' i' p' m' n' k' r'. f Data' h' i' p' m' n' k' = Some r'
          \<Longrightarrow> (Data', h', i', p', m', n', k') \<noteq> (Data, h, i, p, m, n, k)"
      and run: "(if 0 < k' \<and> SignatureListSize m' p' \<le> k'
          then case signature_count m' p' of None \<Rightarrow> None
           | Some c \<Rightarrow>
               let (m'', n'', k'', b) =
                     if SignatureType m' h' = SignatureType m' p' \<and> SignatureSize m' h' = SignatureSize m' p'
                     then new_items Data' h' i' p' c c (first_signature m' p') m' n' k' else (m', n', k', False)
               in if b then f Data' h' i' p' m'' n'' k''
                  else f Data' h' i' (p' + SignatureListSize m'' p') m'' n'' (uintn_sub k'' (SignatureListSize m'' p'))
          else Some (m', n')) = Some r'"
    show "(Data', h', i', p', m', n', k') \<noteq> (Data, h, i, p, m, n, k)"
    proof
      assume eq: "(Data', h', i', p', m', n', k') = (Data, h, i, p, m, n, k)"
      with run assms have "f Data h i p m n k = Some r'" by (auto split: option.splits)
      then show False using IH by blast
    qed
  qed
  then show ?thesis by (cases "new_lists Data h i p m n k") auto
qed

text \<open>The first signature of a list of two is moved out.\<close>

lemma remove_first:
  assumes ok: "sl_ok (SigList t n [a, b])" and st: "stored m p (sl_bytes (SigList t n [a, b]))"
  defines "m1 \<equiv> move_bytes (p + 28) (p + 28 + n) n m"
  defines "m2 \<equiv> wr_bytes m1 (p + 16)
      (le_bytes 4 (nat ((int (SignatureListSize m1 p) - int (SignatureSize m1 p)) mod 2 ^ 32)))"
  shows "stored m2 p (sl_header (SigList t n [b]))" "stored m2 (p + 28) b" "stored m2 (p + 28 + n) b"
    "only_in p (p + 28 + n) m m2" "sl_ok (SigList t n [b])"
proof -
  let ?l = "SigList t n [a, b]" and ?k = "SigList t n [b]"
  have l: "length t = 16" "length a = n" "length b = n" "16 \<le> n" "28 + 2 * n < 2 ^ 32" and n: "n < 2 ^ 32"
    using ok by (simp_all add: sl_ok_def sl_length_def sizeof_GUID_def sizeof_SIGNATURE_LIST_def)
  show ok': "sl_ok ?k" using l by (simp add: sl_ok_def sl_length_def sizeof_GUID_def sizeof_SIGNATURE_LIST_def)
  have at: "stored m p (sl_header ?l)" "stored m (p + 28) a" "stored m (p + 28 + n) b"
    using st l sl_lengths(1) [OF ok] by (simp_all add: sl_bytes_def has_append sizeof_SIGNATURE_LIST_def)
  have f1: "only_in (p + 28) (p + 28 + n) m m1" unfolding m1_def by (rule only_in_move)
  have b1: "stored m1 (p + 28) b" using has_rd [OF at(3)] l rd_bytes_wr_same [of m "p + 28" b] by (simp add: m1_def move_bytes_def DevicePathFacts.has_def)
  have "stored m1 p (sl_header ?l)"
    using at(1) only_in_stored [OF f1, of p "sl_header ?l"] sl_lengths(1) [OF ok] by (simp add: sizeof_SIGNATURE_LIST_def)
  note f = stored_fields [OF this ok]
  have "nat ((int (SignatureListSize m1 p) - int (SignatureSize m1 p)) mod 2 ^ 32) = sl_length ?k"
    using f l by (simp add: sl_length_def sizeof_SIGNATURE_LIST_def mod_pos_pos_trivial)
  then have m2: "m2 = wr_bytes m1 (p + 16) (le_bytes 4 (sl_length ?k))" by (simp add: m2_def)
  have f2: "only_in (p + 16) (p + 16 + 4) m1 m2" by (simp add: m2 only_in_def wr_bytes_out)
  show f: "only_in p (p + 28 + n) m m2"
    using f1 f2 by (auto simp: only_in_def)
  show "stored m2 (p + 28) b" using b1 only_in_stored [OF f2, of "p + 28" b] by simp
  show "stored m2 (p + 28 + n) b" using at(3) only_in_stored [OF f, of "p + 28 + n" b] by simp
  have h: "stored m1 p t" "stored m1 (p + 20) (le_bytes 4 0 @ le_bytes 4 n)"
    using \<open>stored m1 p (sl_header ?l)\<close> l by (simp_all add: sl_header_def has_append add.commute)
  have "stored m2 p t" "stored m2 (p + 20) (le_bytes 4 0 @ le_bytes 4 n)" "stored m2 (p + 16) (le_bytes 4 (sl_length ?k))"
    using h only_in_stored [OF f2, of p t] only_in_stored [OF f2, of "p + 20" "le_bytes 4 0 @ le_bytes 4 n"] l m2
    by (simp_all add: has_wr del: le_bytes.simps)
  then show "stored m2 p (sl_header ?k)" using l by (simp add: sl_header_def has_append add.commute del: le_bytes.simps)
qed

lemma new_items_drop:
  assumes "MemCmp m (SignatureData i) (SignatureData j) (uintn_sub (SignatureSize m h) sizeof_GUID) = 0" "C \<noteq> 1"
    and "m1 = move_bytes j (j + SignatureSize m l) (uintn_sub (Data + N) (j + SignatureSize m l)) m"
    and "m2 = wr_bytes m1 (l + 16)
       (le_bytes 4 (nat ((int (SignatureListSize m1 l) - int (SignatureSize m1 l)) mod 2 ^ 32)))"
  shows "new_items Data h i l C (Suc c) j m N k
    = (if signatures_size m2 l = 0 then (m2, uintn_sub N (SignatureSize m2 l), k, False)
       else new_items Data h i l C c j m2 (uintn_sub N (SignatureSize m2 l)) k)"
  using assms by (simp only: new_items.simps simp_thms if_True if_False Let_def)

text \<open>Appending a list of two signatures of which the database has the first: the second is moved over it, but
  the size of what is left to look at is not reduced, and the old place of the second signature, behind the
  end of the data, is taken for another list.\<close>

lemma new_lists_two:
  assumes ok: "sl_ok (SigList t n [a, b])" "20 \<le> n" and st: "stored m Data (sl_bytes (SigList t n [a, b]))"
    and d: "db_item m Data (Data + sl_length (SigList t n [a, b])) h i (SigList t n cs) c"
    and dup: "same_data c a" "\<not> same_data c b"
    and tail: "take sizeof_GUID b \<noteq> t" "take 4 (drop sizeof_GUID b) = [0, 0, 0, 0]"
    and lt: "Data + sl_length (SigList t n [a, b]) < 2 ^ 64"
  shows "new_lists Data h i Data m (sl_length (SigList t n [a, b])) (sl_length (SigList t n [a, b])) = None"
proof -
  let ?l = "SigList t n [a, b]" and ?k = "SigList t n [b]"
  have l: "length t = 16" "length a = n" "length b = n" "16 \<le> n" "28 + 2 * n < 2 ^ 32" and N: "sl_length ?l = 28 + 2 * n"
    using ok by (simp_all add: sl_ok_def sl_length_def sizeof_GUID_def sizeof_SIGNATURE_LIST_def)
  define m1 where "m1 = move_bytes (Data + 28) (Data + 28 + n) n m"
  define m2 where "m2 = wr_bytes m1 (Data + 16)
      (le_bytes 4 (nat ((int (SignatureListSize m1 Data) - int (SignatureSize m1 Data)) mod 2 ^ 32)))"
  note r = remove_first [OF ok(1) st, folded m1_def, folded m2_def]
  have at: "stored m Data (sl_header ?l)" "stored m (Data + 28) a"
    using st l sl_lengths(1) [OF ok(1)] by (simp_all add: sl_bytes_def has_append sizeof_SIGNATURE_LIST_def)
  note f = stored_fields [OF at(1) ok(1)] stored_count [OF at(1) ok(1)]
  note k = stored_fields [OF r(1,5)] stored_count [OF r(1,5)]
  have db: "sl_ok (SigList t n cs)" "length c = n" "stored m h (sl_header (SigList t n cs))" "stored m i c"
    using d by (simp_all add: db_item_def)
  have "only_in Data (Data + sl_length ?l) m m2" using r(4) N by (auto simp: only_in_def)
  from db_item_keep [OF d this] have db2: "stored m2 h (sl_header (SigList t n cs))" "stored m2 i c"
    by (simp_all add: db_item_def)
  note g = stored_fields [OF db(3,1)] and g2 = stored_fields [OF db2(1) db(1)]
  have c1: "MemCmp m (SignatureData i) (SignatureData (Data + 28)) (uintn_sub n sizeof_GUID) = 0"
    using MemCmp_signatures [OF db(4) at(2), of n] dup(1) db(2) l by (simp add: sizeof_GUID_def)
  have c2: "MemCmp m2 (SignatureData i) (SignatureData (Data + 28)) (uintn_sub n sizeof_GUID) \<noteq> 0"
    using MemCmp_signatures [OF db2(2) r(2), of n] dup(2) db(2) l by (simp add: sizeof_GUID_def)
  have K: "sl_length ?k = 28 + n" using l by (simp add: sl_length_def sizeof_SIGNATURE_LIST_def)
  have s2: "signatures_size m2 Data = n" using k l K by (simp add: signatures_size_def sizeof_SIGNATURE_LIST_def)
  have u: "uintn_sub (Data + (28 + 2 * n)) (Data + 28 + n) = n" "uintn_sub (28 + 2 * n) n = 28 + n"
    "uintn_sub (28 + 2 * n) (28 + n) = n"
    using lt l by (simp_all add: N)
  have last: "new_items Data h i Data (Suc (Suc 0)) (Suc 0) (Data + 28) m2 (28 + n) (28 + 2 * n)
      = (m2, 28 + n, 28 + 2 * n, False)"
    using c2 g2 by simp
  have items: "new_items Data h i Data (Suc (Suc 0)) (Suc (Suc 0)) (Data + 28) m (28 + 2 * n) (28 + 2 * n)
      = (m2, 28 + n, 28 + 2 * n, False)"
  proof -
    have "MemCmp m (SignatureData i) (SignatureData (Data + 28)) (uintn_sub (SignatureSize m h) sizeof_GUID) = 0"
      "Suc (Suc 0) \<noteq> 1"
      "m1 = move_bytes (Data + 28) (Data + 28 + SignatureSize m Data)
         (uintn_sub (Data + (28 + 2 * n)) (Data + 28 + SignatureSize m Data)) m"
      using c1 g(4) f(4) u(1) by (simp_all add: m1_def)
    from new_items_drop [OF this m2_def, of "Suc 0" "28 + 2 * n"] show ?thesis
      using last s2 k(4) u(2) l(4) by simp
  qed
  have "stored m2 (Data + 28 + n) (take 16 b)" "stored m2 (Data + 28 + n + 16) (take 4 (drop 16 b))"
    using stored_split [OF r(3), of 16] stored_split [of m2 "Data + 28 + n + 16" "drop 16 b" 4] l ok(2) by simp_all
  then have "SignatureType m2 (Data + 28 + n) = take 16 b" "SignatureListSize m2 (Data + 28 + n) = 0"
    using l ok(2) tail(2) by (simp_all add: SignatureType_def SignatureListSize_def DevicePathFacts.has_def rd_def sizeof_GUID_def)
  then have "new_lists Data h i (Data + 28 + n) m2 (28 + n) n = None"
    using tail(1) g2(1) l by (intro new_lists_stuck) (simp_all add: sizeof_GUID_def)
  then show ?thesis
    unfolding N using items f [unfolded N] g u k(2) K l lt N
    by (subst new_lists.simps) (simp add: add.assoc sizeof_SIGNATURE_LIST_def del: new_items.simps)
qed

text \<open>A database whose first list has a signature the loop over the new lists does not get past.\<close>

lemma FindInSignatureDb_None:
  assumes db: "sl_ok d" "sl_sigs d \<noteq> []" "stored m SigDb (sl_bytes d)" "sl_length d \<le> k" "SigDb \<noteq> 0"
    and new: "ValidateSignatureList m Data n = EFI_SUCCESS" "Data \<noteq> SigDb" "NvramRead.has A EFI_VARIABLE_APPEND_WRITE"
    and stuck: "new_lists Data SigDb (SigDb + sizeof_SIGNATURE_LIST) Data m n n = None"
  shows "FindInSignatureDb A Data n SigDb k m = None"
proof -
  have h: "stored m SigDb (sl_header d)" using db(3) by (simp add: sl_bytes_def has_append)
  note f = stored_fields [OF h db(1)] stored_count [OF h db(1)]
  obtain c where "length (sl_sigs d) = Suc c" using db(2) by (cases "sl_sigs d") auto
  then have "db_lists Data SigDb k m n = None"
    using f db(4) sl_lengths(4) [OF db(1)] stuck by (subst db_lists.simps) simp
  then show ?thesis using new db(4,5) sl_lengths(4) [OF db(1)] by (simp add: FindInSignatureDb_def)
qed



text \<open>The check does not look at the size of the signatures, by which the routine divides.\<close>

lemma FindInSignatureDb_zero_size:
  assumes "sl_ok d" "sl_sigs d \<noteq> []" "stored m SigDb (sl_bytes d)" "sl_length d \<le> k" "SigDb \<noteq> 0"
    and "ValidateSignatureList m Data n = EFI_SUCCESS" "SignatureSize m Data = 0" "Data \<noteq> SigDb"
    and "NvramRead.has A EFI_VARIABLE_APPEND_WRITE"
  shows "FindInSignatureDb A Data n SigDb k m = None"
proof -
  have "Data \<noteq> 0" "accepted m Data n" using assms(6) by (simp_all add: ValidateSignatureList_accepts)
  from \<open>accepted m Data n\<close> have "SignatureListSize m Data \<le> n" "0 < n"
    by (cases rule: accepted.cases; simp add: sig_header_ok_def)+
  then have "new_lists Data SigDb (SigDb + sizeof_SIGNATURE_LIST) Data m n n = None"
    using assms(7) by (subst new_lists.simps) (simp add: signature_count_def)
  with assms show ?thesis by (intro FindInSignatureDb_None [where d = d])
qed

end
