(* ===== verification/AuthVariable.thy ===== *)
theory AuthVariable
  imports AuthLists
begin

text \<open>
  Authenticated variables, from \<^verbatim>\<open>AuthVariable.c\<close>, \<^verbatim>\<open>Auth2Variable.c\<close> and \<^verbatim>\<open>AuthVariableLink.c\<close> of
  \<^verbatim>\<open>AmiModulePkg/SecureBoot/AuthenticatedVariable\<close>, and \<^verbatim>\<open>os_mktime\<close> of \<^verbatim>\<open>AmiCryptoPkg/CryptoLib/TimeWrapper.c\<close>.

  The global variables of the module and the state of the variable services are one record.  The digital
  signature protocol (hashes and signature checks) and \<^verbatim>\<open>SetVariable\<close>, which calls \<^verbatim>\<open>VerifyVariable\<close> and is
  called by it, are parameters; reading a variable is the model's own \<^verbatim>\<open>GetVariable\<close>.  The mutex flags of
  the protocol are left out, since the build has \<^verbatim>\<open>PKCS7_MUTEX_LOCK = 0\<close>.  Addresses are numbers, \<open>0\<close> is
  \<^verbatim>\<open>NULL\<close>; \<open>None\<close> is a routine that does not return.
\<close>

section \<open>Names and modes\<close>

definition EFI_PLATFORM_KEY_NAME :: "char16 list" where "EFI_PLATFORM_KEY_NAME = map of_char ''PK''"
definition EFI_KEY_EXCHANGE_KEY_NAME :: "char16 list" where "EFI_KEY_EXCHANGE_KEY_NAME = map of_char ''KEK''"
definition EFI_SETUP_MODE_NAME :: "char16 list" where "EFI_SETUP_MODE_NAME = map of_char ''SetupMode''"
definition EFI_SECURE_BOOT_NAME :: "char16 list" where "EFI_SECURE_BOOT_NAME = map of_char ''SecureBoot''"
definition EFI_SIGNATURE_SUPPORT_NAME :: "char16 list" where
  "EFI_SIGNATURE_SUPPORT_NAME = map of_char ''SignatureSupport''"
definition EFI_VENDOR_KEYS_NAME :: "char16 list" where "EFI_VENDOR_KEYS_NAME = map of_char ''VendorKeys''"
definition AMI_SECURE_BOOT_SETUP_VAR :: "char16 list" where
  "AMI_SECURE_BOOT_SETUP_VAR = map of_char ''SecureBootSetup''"
definition SystemAccess_name :: "char16 list" where "SystemAccess_name = map of_char ''SystemAccess''"

definition ReservedReadOnlyVarNameList :: "char16 list list" where
  "ReservedReadOnlyVarNameList =
     [EFI_SETUP_MODE_NAME, EFI_SECURE_BOOT_NAME, EFI_SIGNATURE_SUPPORT_NAME, map of_char ''dbDefault'',
      map of_char ''dbxDefault'', map of_char ''PKDefault'', map of_char ''KEKDefault'', EFI_VENDOR_KEYS_NAME]"

definition gEfiImageSecurityDatabaseGuid :: "u8 list" where
  "gEfiImageSecurityDatabaseGuid =
     EFI_GUID 0xd719b2cb 0x3d3a 0x4596 [0xa3, 0xbc, 0xda, 0xd0, 0x0e, 0x67, 0x65, 0x6f]"
definition gEfiCertTypeRsa2048Sha256Guid :: "u8 list" where
  "gEfiCertTypeRsa2048Sha256Guid =
     EFI_GUID 0xa7717414 0xc616 0x4977 [0x94, 0x20, 0x84, 0x47, 0x12, 0xa7, 0x35, 0xbf]"
definition gEfiCertPkcs7Guid :: "u8 list" where
  "gEfiCertPkcs7Guid =
     EFI_GUID 0x4aafd29d 0x68df 0x49ee [0x8a, 0xa9, 0x34, 0x7d, 0x37, 0x56, 0x65, 0xa7]"
definition gEfiHashAlgorithmSha1Guid :: "u8 list" where
  "gEfiHashAlgorithmSha1Guid =
     EFI_GUID 0x2ae9d80f 0x3fb2 0x4095 [0xb7, 0xb1, 0xe9, 0x31, 0x57, 0xb9, 0x46, 0xb6]"
definition gEfiHashAlgorithmSha256Guid :: "u8 list" where
  "gEfiHashAlgorithmSha256Guid =
     EFI_GUID 0x51aa59de 0xfdf2 0x4ea3 [0xbc, 0x63, 0x87, 0x5f, 0xb7, 0x84, 0x2e, 0xe9]"
definition SystemAccessGuid :: "u8 list" where
  "SystemAccessGuid = EFI_GUID 0xe770bb69 0xbcb4 0x4d04 [0x9e, 0x97, 0x23, 0xff, 0x94, 0x56, 0xfe, 0xac]"
definition gSecureSetupGuid :: "u8 list" where
  "gSecureSetupGuid = EFI_GUID 0x7b59104a 0xc00d 0x4158 [0x87, 0xff, 0xf0, 0x4d, 0x63, 0x96, 0xa9, 0x15]"

definition SETUP_MODE :: u8 where "SETUP_MODE = 1"
definition USER_MODE :: u8 where "USER_MODE = 0"
definition SECURE_BOOT :: u8 where "SECURE_BOOT = 1"
definition SYSTEM_PASSWORD_ADMIN :: u8 where "SYSTEM_PASSWORD_ADMIN = 0"
definition WIN_CERT_TYPE_EFI_GUID :: nat where "WIN_CERT_TYPE_EFI_GUID = 0x0EF1"
definition SHA1 :: u8 where "SHA1 = 0"
definition SHA256 :: u8 where "SHA256 = 1"
definition HASH_SHA1_LEN :: nat where "HASH_SHA1_LEN = 20"

text \<open>\<^verbatim>\<open>SECURE_BOOT_SETUP_VAR\<close> is seven bytes; two of them are read here.\<close>

definition sizeof_SECURE_BOOT_SETUP :: nat where "sizeof_SECURE_BOOT_SETUP = 7"
definition SecureBootSupport :: "u8 list \<Rightarrow> u8" where "SecureBootSupport v = v ! 0"
definition BackDoorVendorKeyChange :: "u8 list \<Rightarrow> u8" where "BackDoorVendorKeyChange v = v ! 3"

datatype PKCS7_OP =
    Pkcs7CertValidate
  | Pkcs7GetSignerCert
  | Pkcs7GetDigestAlgorithm
  | Pkcs7CertValidateGetSignerCert
  | Pkcs7CertValidateGetSignerKeyHash
  | Pkcs7CertValidateGetSignerKey

section \<open>State and environment\<close>

record auth_state =
  mPlatformMode :: u8
  mSetupMode :: u8
  mCustomMode :: bool
  PublicKeyHashArray :: "u8 list"
  mSecureBootSetup :: "u8 list"
  au_s :: service

text \<open>\<^verbatim>\<open>Hash\<close> takes the algorithm and the pieces, \<^verbatim>\<open>Pkcs1Verify\<close> the key, the hash and the signature,
  \<^verbatim>\<open>Pkcs7Verify\<close> the operation, the certificate, the trusted certificate and the data; an empty list stands
  for a \<^verbatim>\<open>NULL\<close> pointer and a size of zero.  \<open>ae_located\<close> tells whether the protocol was found.\<close>

record auth_env =
  ae_se :: serv_env
  ae_located :: bool
  ae_Hash :: "u8 list \<Rightarrow> u8 list list \<Rightarrow> efi_status \<times> u8 list"
  ae_Pkcs1Verify :: "u8 list \<Rightarrow> u8 list \<Rightarrow> u8 list \<Rightarrow> efi_status"
  ae_Pkcs7Verify :: "PKCS7_OP \<Rightarrow> u8 list \<Rightarrow> u8 list \<Rightarrow> u8 list \<Rightarrow> efi_status \<times> u8 list"
  ae_SetVariable :: "set_args \<Rightarrow> auth_state \<Rightarrow> (efi_status \<times> auth_state) option"

abbreviation au_mem :: "auth_state \<Rightarrow> memory" where "au_mem st \<equiv> d_mem (sv_d (au_s st))"

definition set_au_mem :: "memory \<Rightarrow> auth_state \<Rightarrow> auth_state" where
  "set_au_mem m st = st\<lparr>au_s := (au_s st)\<lparr>sv_d := (sv_d (au_s st))\<lparr>d_mem := m\<rparr>\<rparr>\<rparr>"

text \<open>Writing bytes over the beginning of an array.\<close>

definition overlay :: "u8 list \<Rightarrow> u8 list \<Rightarrow> u8 list" where "overlay bs a = bs @ drop (length bs) a"

definition get_variable ::
    "auth_env \<Rightarrow> char16 list \<Rightarrow> u8 list \<Rightarrow> bool \<Rightarrow> nat \<Rightarrow> auth_state \<Rightarrow> (get_result \<times> auth_state) option" where
  "get_variable E name guid want Size st =
     do {
       (r, s) \<leftarrow> DxeGetVariable (ae_se E)
                   \<lparr>ga_VariableName = Some name, ga_VendorGuid = Some guid, ga_Attributes = want,
                    ga_DataSize = Some Size, ga_Data = True\<rparr> (au_s st);
       Some (r, st\<lparr>au_s := s\<rparr>)
     }"

definition set_variable ::
    "auth_env \<Rightarrow> char16 list \<Rightarrow> u32 \<Rightarrow> u8 list \<Rightarrow> auth_state \<Rightarrow> (efi_status \<times> auth_state) option" where
  "set_variable E name Attributes Data st =
     ae_SetVariable E \<lparr>sa_VariableName = Some name, sa_VendorGuid = Some gEfiGlobalVariableGuid,
                       sa_Attributes = Attributes, sa_DataSize = length Data, sa_Data = Some Data\<rparr> st"

section \<open>Names of the variables\<close>

definition StrSize16 :: "char16 list \<Rightarrow> nat" where "StrSize16 String = 2 * length (c_string String)"

text \<open>\<^verbatim>\<open>StrCmp16\<close> compares as many bytes as the second string has, and is compared with zero by its callers:
  this is the outcome of that comparison.  Both strings end in a zero, at which a shorter first string differs.\<close>

definition StrCmp16_0 :: "char16 list \<Rightarrow> char16 list \<Rightarrow> bool" where
  "StrCmp16_0 Dest Src \<longleftrightarrow> take (StrSize16 Src div 2) (c_string Dest @ [0]) = c_string Src"

definition IsPkVar :: "char16 list \<Rightarrow> u8 list \<Rightarrow> bool" where
  "IsPkVar VariableName VendorGuid \<longleftrightarrow>
     VendorGuid = gEfiGlobalVariableGuid \<and> StrCmp16_0 VariableName EFI_PLATFORM_KEY_NAME"

definition IsKekVar :: "char16 list \<Rightarrow> u8 list \<Rightarrow> bool" where
  "IsKekVar VariableName VendorGuid \<longleftrightarrow>
     VendorGuid = gEfiGlobalVariableGuid \<and> StrCmp16_0 VariableName EFI_KEY_EXCHANGE_KEY_NAME"

definition IsDbVar :: "u8 list \<Rightarrow> bool" where
  "IsDbVar VendorGuid \<longleftrightarrow> VendorGuid = gEfiImageSecurityDatabaseGuid"

definition IsReservedVariableName :: "char16 list \<Rightarrow> u8 list \<Rightarrow> auth_state \<Rightarrow> bool" where
  "IsReservedVariableName VariableName VendorGuid st \<longleftrightarrow>
     \<not> IsNvramRuntime (au_s st) \<and> list_ex (StrCmp16_0 VariableName) ReservedReadOnlyVarNameList
     \<and> VendorGuid = gEfiGlobalVariableGuid"

section \<open>Platform mode\<close>

text \<open>A call of \<^verbatim>\<open>FindVariable\<close>: the status, the attributes, and the address and size of the data.\<close>

definition find_variable ::
    "char16 list \<Rightarrow> u8 list \<Rightarrow> auth_state \<Rightarrow> efi_status \<times> u32 \<times> (nat \<times> nat) option" where
  "find_variable VariableName VendorGuid st =
     (let (Status, a, Data) = FindVariable (au_mem st) VariableName VendorGuid True True (nv_store (d_vs (sv_d (au_s st))))
      in (Status, case a of Some x \<Rightarrow> x | None \<Rightarrow> 0, Data))"

definition GetPlatformMode :: "auth_state \<Rightarrow> efi_status \<times> auth_state" where
  "GetPlatformMode st =
     (let (Status, VarAttr, Data) = find_variable EFI_PLATFORM_KEY_NAME gEfiGlobalVariableGuid st in
      (Status, st\<lparr>mPlatformMode :=
         (if Status \<noteq> EFI_SUCCESS \<or> (case Data of None \<Rightarrow> True | Some (_, n) \<Rightarrow> n = 0)
             \<or> \<not> has VarAttr UEFI23_1_AUTHENTICATED_VARIABLE_ATTRIBUTES
          then SETUP_MODE else USER_MODE)\<rparr>))"

definition UpdatePlatformMode :: "auth_env \<Rightarrow> u8 \<Rightarrow> auth_state \<Rightarrow> auth_state option" where
  "UpdatePlatformMode E Mode st =
     do {
       (_, st') \<leftarrow> set_variable E EFI_SETUP_MODE_NAME (EFI_VARIABLE_RUNTIME_ACCESS OR EFI_VARIABLE_BOOTSERVICE_ACCESS)
                      [Mode] (st\<lparr>mPlatformMode := Mode, mSetupMode := SETUP_MODE\<rparr>);
       Some (st'\<lparr>mSetupMode := USER_MODE\<rparr>)
     }"

text \<open>The variable is read into \<^verbatim>\<open>mSecureBootSetup\<close> with the size the variable has; a larger variable would
  overwrite what follows the structure.\<close>

definition GetmSecureBootSetup :: "auth_env \<Rightarrow> auth_state \<Rightarrow> (efi_status \<times> auth_state) option" where
  "GetmSecureBootSetup E st =
     do {
       (r, st1) \<leftarrow> get_variable E AMI_SECURE_BOOT_SETUP_VAR gSecureSetupGuid False 0 st;
       if gr_Status r \<noteq> EFI_BUFFER_TOO_SMALL then Some (gr_Status r, st1)
       else do {
         (r2, st2) \<leftarrow> get_variable E AMI_SECURE_BOOT_SETUP_VAR gSecureSetupGuid False
                         (case gr_DataSize r of Some n \<Rightarrow> n | None \<Rightarrow> 0) st1;
         case gr_Data r2 of
           None \<Rightarrow> Some (gr_Status r2, st2)
         | Some bs \<Rightarrow> if length bs > sizeof_SECURE_BOOT_SETUP then None
                      else Some (gr_Status r2, st2\<lparr>mSecureBootSetup := overlay bs (mSecureBootSetup st2)\<rparr>)
       }
     }"

definition GetVendorKeysMode :: "auth_env \<Rightarrow> auth_state \<Rightarrow> (u8 \<times> auth_state) option" where
  "GetVendorKeysMode E st =
     do {
       (Status, st1) \<leftarrow> GetmSecureBootSetup E st;
       Some (if \<not> EFI_ERROR Status \<and> BackDoorVendorKeyChange (mSecureBootSetup st1) = 0 then 1 else 0, st1)
     }"

definition PhysicalUserPresent :: "auth_env \<Rightarrow> auth_state \<Rightarrow> (bool \<times> auth_state) option" where
  "PhysicalUserPresent E st =
     do {
       (r, st1) \<leftarrow> get_variable E SystemAccess_name SystemAccessGuid True 1 st;
       Some (\<not> EFI_ERROR (gr_Status r) \<and> gr_Attributes r = Some EFI_VARIABLE_BOOTSERVICE_ACCESS
             \<and> (case gr_Data r of Some (b # _) \<Rightarrow> b = SYSTEM_PASSWORD_ADMIN | _ \<Rightarrow> False), st1)
     }"

text \<open>The hook of \<^verbatim>\<open>SetVariable\<close> for \<^verbatim>\<open>VendorKeys\<close>.\<close>

definition SetVendorKeysVar :: "auth_env \<Rightarrow> set_args \<Rightarrow> auth_state \<Rightarrow> (efi_status \<times> auth_state) option" where
  "SetVendorKeysVar E a st =
     (if mSetupMode st = USER_MODE \<and> sa_DataSize a = 1 \<and> \<not> IsNvramRuntime (au_s st)
         \<and> StrCmp16_0 (the (sa_VariableName a)) EFI_VENDOR_KEYS_NAME
         \<and> the (sa_VendorGuid a) = gEfiGlobalVariableGuid
      then do {
        (k, st1) \<leftarrow> (if mPlatformMode st = USER_MODE then GetVendorKeysMode E st else Some (0, st));
        (_, st2) \<leftarrow> set_variable E EFI_VENDOR_KEYS_NAME (EFI_VARIABLE_RUNTIME_ACCESS OR EFI_VARIABLE_BOOTSERVICE_ACCESS)
                      [if k \<noteq> 0 then 1 else 0] (st1\<lparr>mSetupMode := SETUP_MODE\<rparr>);
        Some (EFI_WRITE_PROTECTED, st2)
      }
      else Some (EFI_UNSUPPORTED, st))"

text \<open>The start of the service, without the search for the protocol.\<close>

definition AuthVariableServiceInit :: "auth_env \<Rightarrow> auth_state \<Rightarrow> auth_state option" where
  "AuthVariableServiceInit E st =
     (let RT_BS = EFI_VARIABLE_RUNTIME_ACCESS OR EFI_VARIABLE_BOOTSERVICE_ACCESS in
      do {
        (_, st1) \<leftarrow> set_variable E EFI_SIGNATURE_SUPPORT_NAME RT_BS (concat mSignatureSupport) st;
        let st2 = snd (GetPlatformMode st1);
        st3 \<leftarrow> UpdatePlatformMode E (mPlatformMode st2) st2;
        (Status, st4) \<leftarrow> GetmSecureBootSetup E st3;
        let Data = (if \<not> EFI_ERROR Status \<and> mPlatformMode st4 = USER_MODE
                       \<and> SecureBootSupport (mSecureBootSetup st4) = SECURE_BOOT then 1 else 0);
        (_, st5) \<leftarrow> set_variable E EFI_SECURE_BOOT_NAME RT_BS [Data] st4;
        (_, st6) \<leftarrow> set_variable E EFI_VENDOR_KEYS_NAME RT_BS [Data] st5;
        Some st6
      })"

section \<open>Time stamps\<close>

definition IsLeap :: "nat \<Rightarrow> bool" where
  "IsLeap y \<longleftrightarrow> y mod 4 = 0 \<and> (y mod 100 \<noteq> 0 \<or> y mod 400 = 0)"

definition SECSPERHOUR :: nat where "SECSPERHOUR = 60 * 60"
definition SECSPERDAY :: nat where "SECSPERDAY = 24 * SECSPERHOUR"

definition CumulativeDays :: "bool \<Rightarrow> nat list" where
  "CumulativeDays leap =
     (if leap then [0, 0, 31, 31 + 29, 31 + 29 + 31, 31 + 29 + 31 + 30, 31 + 29 + 31 + 30 + 31,
                    31 + 29 + 31 + 30 + 31 + 30, 31 + 29 + 31 + 30 + 31 + 30 + 31,
                    31 + 29 + 31 + 30 + 31 + 30 + 31 + 31, 31 + 29 + 31 + 30 + 31 + 30 + 31 + 31 + 30,
                    31 + 29 + 31 + 30 + 31 + 30 + 31 + 31 + 30 + 31,
                    31 + 29 + 31 + 30 + 31 + 30 + 31 + 31 + 30 + 31 + 30,
                    31 + 29 + 31 + 30 + 31 + 30 + 31 + 31 + 30 + 31 + 30 + 31]
      else [0, 0, 31, 31 + 28, 31 + 28 + 31, 31 + 28 + 31 + 30, 31 + 28 + 31 + 30 + 31,
            31 + 28 + 31 + 30 + 31 + 30, 31 + 28 + 31 + 30 + 31 + 30 + 31,
            31 + 28 + 31 + 30 + 31 + 30 + 31 + 31, 31 + 28 + 31 + 30 + 31 + 30 + 31 + 31 + 30,
            31 + 28 + 31 + 30 + 31 + 30 + 31 + 31 + 30 + 31,
            31 + 28 + 31 + 30 + 31 + 30 + 31 + 31 + 30 + 31 + 30,
            31 + 28 + 31 + 30 + 31 + 30 + 31 + 31 + 30 + 31 + 30 + 31])"

text \<open>\<^verbatim>\<open>EFI_TIME\<close>; \<^verbatim>\<open>os_time_t\<close> is \<^verbatim>\<open>long\<close>, 32 bits with the compiler of the build.  The result is the value
  stored and whether the routine returned \<^verbatim>\<open>-1\<close>.\<close>

record EFI_TIME =
  Year :: nat
  Month :: nat
  Day :: nat
  Hour :: nat
  Minute :: nat
  Second :: nat

primrec add_years :: "nat \<Rightarrow> nat \<Rightarrow> u32 \<Rightarrow> u32" where
  "add_years 0 Y t = t"
| "add_years (Suc n) Y t = add_years n (Suc Y) (t + of_nat (CumulativeDays (IsLeap Y) ! 13 * SECSPERDAY))"

definition os_mktime :: "EFI_TIME \<Rightarrow> bool \<times> u32" where
  "os_mktime T =
     (if Year T < 1970 \<or> Month T < 1 \<or> Month T > 12 \<or> Day T < 1 \<or> Day T > 31
         \<or> Hour T > 23 \<or> Minute T > 59 \<or> Second T > 60
      then (True, 0)
      else (False,
        add_years (Year T - 1970) 1970 0
        + of_nat (CumulativeDays (IsLeap (Year T)) ! Month T * SECSPERDAY)
        + of_nat ((if Day T > 0 then Day T - 1 else 0) * SECSPERDAY)
        + of_nat (Hour T * SECSPERHOUR) + of_nat (Minute T * 60) + of_nat (Second T)))"

end
