(* ===== verification/AuthVerify.thy ===== *)
theory AuthVerify
  imports AuthVariable
begin

text \<open>
  The verification of a write to an authenticated variable, from \<^verbatim>\<open>AuthVariable.c\<close> and \<^verbatim>\<open>Auth2Variable.c\<close>:
  the two kinds of authentication headers, the checks against the platform key and the key exchange keys,
  and \<^verbatim>\<open>VerifyVariable\<close>, which \<^verbatim>\<open>SetVariable\<close> calls before it writes.

  The routines return the status, the address and size of the data (the header is cut off), the security
  fields of the variable and the state.
\<close>

section \<open>Headers with a monotonic count\<close>

text \<open>\<^verbatim>\<open>EFI_VARIABLE_AUTHENTICATION\<close>: a count, \<^verbatim>\<open>WIN_CERTIFICATE_UEFI_GUID\<close> with
  \<^verbatim>\<open>EFI_CERT_BLOCK_RSA_2048_SHA256\<close>.\<close>

definition sizeof_VARIABLE_AUTHENTICATION :: nat where "sizeof_VARIABLE_AUTHENTICATION = 40"
definition CertHdrSize1 :: nat where "CertHdrSize1 = 0x230"
definition MonotonicCount :: "memory \<Rightarrow> nat \<Rightarrow> nat" where "MonotonicCount m p = rd 8 m p"
definition wCertificateType1 :: "memory \<Rightarrow> nat \<Rightarrow> nat" where "wCertificateType1 m p = rd 2 m (p + 14)"
definition CertType1 :: "memory \<Rightarrow> nat \<Rightarrow> u8 list" where "CertType1 m p = rd_bytes m (p + 16) sizeof_GUID"
definition PublicKey :: "nat \<Rightarrow> nat" where "PublicKey p = p + 48"
definition Signature :: "nat \<Rightarrow> nat" where "Signature p = p + 304"
definition RSA2048_PUB_KEY_LEN :: nat where "RSA2048_PUB_KEY_LEN = 256"

definition VerifyDataPayload :: "auth_env \<Rightarrow> memory \<Rightarrow> nat \<Rightarrow> nat \<Rightarrow> u8 list \<Rightarrow> efi_status" where
  "VerifyDataPayload E m Data DataSize PubKey =
     (let (Status, Digest) =
            ae_Hash E gEfiHashAlgorithmSha256Guid
              [rd_bytes m (Data + CertHdrSize1) (uintn_sub DataSize CertHdrSize1), rd_bytes m Data 8]
      in if EFI_ERROR Status then Status
         else ae_Pkcs1Verify E PubKey Digest (rd_bytes m (Signature Data) RSA2048_PUB_KEY_LEN))"

definition ProcessVarWithPk :: "auth_env \<Rightarrow> nat \<Rightarrow> nat \<Rightarrow> u32 \<Rightarrow> auth_state \<Rightarrow> efi_status" where
  "ProcessVarWithPk E Data DataSize Attributes st =
     (if \<not> has Attributes EFI_VARIABLE_NON_VOLATILE then EFI_INVALID_PARAMETER
      else if mPlatformMode st = SETUP_MODE \<or> mCustomMode st then EFI_SUCCESS
      else
        let m = au_mem st; (Status, _, V) = find_variable EFI_PLATFORM_KEY_NAME gEfiGlobalVariableGuid st in
        case V of
          None \<Rightarrow> EFI_SECURITY_VIOLATION
        | Some (VarData, VarDataSize) \<Rightarrow>
            if EFI_ERROR Status \<or> VarDataSize = 0 then EFI_SECURITY_VIOLATION
            else VerifyDataPayload E m Data DataSize
                   (rd_bytes m (SignatureData (first_signature m VarData)) RSA2048_PUB_KEY_LEN))"

primrec kek_search :: "memory \<Rightarrow> nat \<Rightarrow> nat \<Rightarrow> nat \<Rightarrow> nat \<Rightarrow> bool" where
  "kek_search m Key Size 0 KekItem = False"
| "kek_search m Key Size (Suc n) KekItem =
     (if MemCmp m (SignatureData KekItem) Key RSA2048_PUB_KEY_LEN = 0 then True
      else kek_search m Key Size n (KekItem + Size))"

definition ProcessVarWithKek :: "auth_env \<Rightarrow> nat \<Rightarrow> nat \<Rightarrow> u32 \<Rightarrow> auth_state \<Rightarrow> efi_status option" where
  "ProcessVarWithKek E Data DataSize Attributes st =
     (if \<not> has Attributes EFI_VARIABLE_NON_VOLATILE then Some EFI_INVALID_PARAMETER
      else if mPlatformMode st = SETUP_MODE \<or> mCustomMode st then Some EFI_SUCCESS
      else
        let m = au_mem st; (Status, _, V) = find_variable EFI_KEY_EXCHANGE_KEY_NAME gEfiGlobalVariableGuid st in
        if EFI_ERROR Status then Some EFI_SECURITY_VIOLATION
        else do {
          (KekList, _) \<leftarrow> V;
          if SignatureType m KekList \<noteq> gEfiCertRsa2048Guid then Some EFI_SECURITY_VIOLATION
          else do {
            KekCount \<leftarrow> signature_count m KekList;
            if kek_search m (PublicKey Data) (SignatureSize m KekList) KekCount (first_signature m KekList)
            then Some (VerifyDataPayload E m Data DataSize (rd_bytes m (PublicKey Data) RSA2048_PUB_KEY_LEN))
            else Some EFI_SECURITY_VIOLATION
          }
        })"

text \<open>What both versions do once a write to \<^verbatim>\<open>PK\<close>, \<^verbatim>\<open>KEK\<close> or a database is verified.\<close>

definition accept_lists ::
    "auth_env \<Rightarrow> bool \<Rightarrow> nat \<Rightarrow> nat \<Rightarrow> nat \<Rightarrow> EXT_SEC_FLAGS \<Rightarrow> auth_state
       \<Rightarrow> (efi_status \<times> nat \<times> nat \<times> EXT_SEC_FLAGS \<times> auth_state) option" where
  "accept_lists E IsPk CertHdrSize Data DataSize ext st =
     (let DataSize' = uintn_sub DataSize CertHdrSize; Data' = Data + CertHdrSize in
      if DataSize' \<noteq> 0 \<and> EFI_ERROR (ValidateSignatureList (au_mem st) Data' DataSize')
      then Some (EFI_SECURITY_VIOLATION, Data', DataSize', ext, st)
      else if IsPk
      then do {
        st' \<leftarrow> UpdatePlatformMode E (if DataSize' = 0 then SETUP_MODE else USER_MODE) st;
        Some (EFI_SUCCESS, Data', DataSize', ext, st')
      }
      else Some (EFI_SUCCESS, Data', DataSize', ext, st))"

text \<open>A variable that is none of these is signed with the key it came with first.\<close>

definition self_signed1 ::
    "auth_env \<Rightarrow> nat \<Rightarrow> nat \<Rightarrow> nat \<Rightarrow> EXT_SEC_FLAGS \<Rightarrow> auth_state \<Rightarrow> efi_status \<times> EXT_SEC_FLAGS \<times> auth_state" where
  "self_signed1 E Data DataSize OldData ext st =
     (let m = au_mem st; PubKey = rd_bytes m (PublicKey Data) RSA2048_PUB_KEY_LEN;
          Status = VerifyDataPayload E m Data DataSize PubKey
      in if EFI_ERROR Status then (EFI_SECURITY_VIOLATION, ext, st)
         else
           let (Status, h) = ae_Hash E gEfiHashAlgorithmSha256Guid [PubKey];
               arr = overlay h (PublicKeyHashArray st);
               hash = take HASH_SHA256_LEN arr;
               st' = st\<lparr>PublicKeyHashArray := arr\<rparr>
           in if OldData \<noteq> 0 \<and> take HASH_SHA256_LEN (KeyHash ext) \<noteq> hash
              then (EFI_SECURITY_VIOLATION, ext, st')
              else (if EFI_ERROR Status then EFI_SECURITY_VIOLATION else EFI_SUCCESS,
                    ext\<lparr>KeyHash := overlay hash (KeyHash ext)\<rparr>, st'))"

definition VerifyVariable1 ::
    "auth_env \<Rightarrow> char16 list \<Rightarrow> u8 list \<Rightarrow> u32 \<Rightarrow> nat \<Rightarrow> nat \<Rightarrow> nat \<Rightarrow> EXT_SEC_FLAGS \<Rightarrow> auth_state
       \<Rightarrow> (efi_status \<times> nat \<times> nat \<times> EXT_SEC_FLAGS \<times> auth_state) option" where
  "VerifyVariable1 E VariableName VendorGuid Attributes Data DataSize OldData ext st =
     (let m = au_mem st; append = has Attributes EFI_VARIABLE_APPEND_WRITE; mc = MonotonicCount m Data in
      if \<not> has Attributes EFI_VARIABLE_AUTHENTICATED_WRITE_ACCESS
      then Some (EFI_INVALID_PARAMETER, Data, DataSize, ext, st)
      else if DataSize < sizeof_VARIABLE_AUTHENTICATION
         \<or> wCertificateType1 m Data \<noteq> WIN_CERT_TYPE_EFI_GUID \<or> CertType1 m Data \<noteq> gEfiCertTypeRsa2048Sha256Guid
         \<or> DataSize < CertHdrSize1
         \<or> \<not> append \<and> OldData \<noteq> 0 \<and> Mc ext \<ge> mc
      then Some (EFI_SECURITY_VIOLATION, Data, DataSize, ext, st)
      else
        let ext' = (if append \<and> OldData \<noteq> 0 \<and> Mc ext > mc then ext else ext\<lparr>Mc := mc\<rparr>);
            sig_list = (\<lambda>IsPk Status.
              if EFI_ERROR Status then Some (EFI_SECURITY_VIOLATION, Data, DataSize, ext', st)
              else accept_lists E IsPk CertHdrSize1 Data DataSize ext' st)
        in if IsPkVar VariableName VendorGuid
           then sig_list True (ProcessVarWithPk E Data DataSize Attributes st)
           else if IsKekVar VariableName VendorGuid
           then sig_list False (ProcessVarWithPk E Data DataSize Attributes st)
           else if IsDbVar VendorGuid
           then do {
             Status \<leftarrow> ProcessVarWithKek E Data DataSize Attributes st;
             sig_list False (if Status = EFI_SECURITY_VIOLATION then ProcessVarWithPk E Data DataSize Attributes st
                             else Status)
           }
           else
             let (Status, ext2, st2) = self_signed1 E Data DataSize OldData ext' st
             in if EFI_ERROR Status then Some (Status, Data, DataSize, ext2, st2)
                else Some (Status, Data + CertHdrSize1, uintn_sub DataSize CertHdrSize1, ext2, st2))"

section \<open>Headers with a time stamp\<close>

text \<open>\<^verbatim>\<open>EFI_VARIABLE_AUTHENTICATION_2\<close>: \<^verbatim>\<open>EFI_TIME\<close> and \<^verbatim>\<open>WIN_CERTIFICATE_UEFI_GUID\<close>.\<close>

definition header_time :: "memory \<Rightarrow> nat \<Rightarrow> EFI_TIME" where
  "header_time m p =
     \<lparr>Year = rd 2 m p, Month = rd 1 m (p + 2), Day = rd 1 m (p + 3), Hour = rd 1 m (p + 4),
      Minute = rd 1 m (p + 5), Second = rd 1 m (p + 6)\<rparr>"

text \<open>The fields \<^verbatim>\<open>Pad1\<close>, \<^verbatim>\<open>Nanosecond\<close>, \<^verbatim>\<open>TimeZone\<close>, \<^verbatim>\<open>Daylight\<close> and \<^verbatim>\<open>Pad2\<close>.\<close>

definition reserved_time :: "memory \<Rightarrow> nat \<Rightarrow> bool" where
  "reserved_time m p \<longleftrightarrow> m (p + 7) \<noteq> 0 \<or> m (p + 15) \<noteq> 0 \<or> rd 4 m (p + 8) \<noteq> 0 \<or> rd 2 m (p + 12) \<noteq> 0 \<or> m (p + 14) \<noteq> 0"

definition sizeof_EFI_TIME :: nat where "sizeof_EFI_TIME = 16"
definition AUTHINFO_2_SIZE :: "memory \<Rightarrow> nat \<Rightarrow> nat" where
  "AUTHINFO_2_SIZE m p = rd 4 m (p + 16) + sizeof_EFI_TIME"
definition wCertificateType2 :: "memory \<Rightarrow> nat \<Rightarrow> nat" where "wCertificateType2 m p = rd 2 m (p + 22)"
definition CertType2 :: "memory \<Rightarrow> nat \<Rightarrow> u8 list" where "CertType2 m p = rd_bytes m (p + 24) sizeof_GUID"

definition Pkcs7Cert :: "memory \<Rightarrow> nat \<Rightarrow> u8 list" where
  "Pkcs7Cert m p = rd_bytes m (p + 40) (uintn_sub (AUTHINFO_2_SIZE m p) 40)"

definition ProcessVarWithPk2 :: "auth_env \<Rightarrow> u8 list \<Rightarrow> u8 list \<Rightarrow> auth_state \<Rightarrow> efi_status" where
  "ProcessVarWithPk2 E Cert Digest st =
     (let m = au_mem st; (Status, _, V) = find_variable EFI_PLATFORM_KEY_NAME gEfiGlobalVariableGuid st in
      case V of
        None \<Rightarrow> EFI_SECURITY_VIOLATION
      | Some (VarData, VarDataSize) \<Rightarrow>
          if EFI_ERROR Status \<or> VarDataSize = 0 then EFI_SECURITY_VIOLATION
          else
            let TrustCert = rd_bytes m (SignatureData (first_signature m VarData))
                              (uintn_sub (SignatureSize m VarData) sizeof_GUID);
                verify = (\<lambda>Operation x509_TrustCert.
                  let (Status, Data) = ae_Pkcs7Verify E Operation Cert x509_TrustCert Digest in
                  if EFI_ERROR Status then Status
                  else if TrustCert = Data then EFI_SUCCESS else EFI_SECURITY_VIOLATION)
            in if SignatureType m VarData = gEfiCertRsa2048Guid then verify Pkcs7CertValidateGetSignerKey []
               else if SignatureType m VarData = gEfiCertX509Guid
               then verify Pkcs7CertValidateGetSignerCert TrustCert
               else EFI_SECURITY_VIOLATION)"

text \<open>The loops over the key exchange keys; the length passed with a certificate is \<^verbatim>\<open>SignatureSize\<close>, which
  counts the owner as well.\<close>

primrec kek_items2 ::
    "auth_env \<Rightarrow> u8 list \<Rightarrow> memory \<Rightarrow> nat \<Rightarrow> nat \<Rightarrow> nat \<Rightarrow> u8 list \<Rightarrow> bool \<times> u8 list" where
  "kek_items2 E Cert m Size 0 KekItem Digest = (False, Digest)"
| "kek_items2 E Cert m Size (Suc n) KekItem Digest =
     (let (Status, Digest') = ae_Pkcs7Verify E Pkcs7CertValidate Cert (rd_bytes m (SignatureData KekItem) Size) Digest
      in if EFI_ERROR Status then kek_items2 E Cert m Size n (KekItem + Size) Digest' else (True, Digest'))"

partial_function (option) kek_lists2 ::
    "auth_env \<Rightarrow> u8 list \<Rightarrow> memory \<Rightarrow> nat \<Rightarrow> nat \<Rightarrow> u8 list \<Rightarrow> bool option" where
  "kek_lists2 E Cert m KekList VarDataSize Digest =
     (if VarDataSize > 0 \<and> VarDataSize \<ge> SignatureListSize m KekList
      then Option.bind
             (if SignatureType m KekList = gEfiCertX509Guid
              then map_option (\<lambda>n. kek_items2 E Cert m (SignatureSize m KekList) n (first_signature m KekList) Digest)
                     (signature_count m KekList)
              else Some (False, Digest))
             (\<lambda>(IsFound, Digest').
                if IsFound then Some True
                else kek_lists2 E Cert m (KekList + SignatureListSize m KekList)
                       (uintn_sub VarDataSize (SignatureListSize m KekList)) Digest')
      else Some False)"

declare kek_lists2.simps [code]

definition ProcessVarWithKek2 :: "auth_env \<Rightarrow> u8 list \<Rightarrow> u8 list \<Rightarrow> auth_state \<Rightarrow> efi_status option" where
  "ProcessVarWithKek2 E Cert Digest st =
     (let (Status, _, V) = find_variable EFI_KEY_EXCHANGE_KEY_NAME gEfiGlobalVariableGuid st in
      case V of
        None \<Rightarrow> Some EFI_SECURITY_VIOLATION
      | Some (VarData, VarDataSize) \<Rightarrow>
          if EFI_ERROR Status \<or> VarDataSize = 0 then Some EFI_SECURITY_VIOLATION
          else map_option (\<lambda>IsFound. if IsFound then EFI_SUCCESS else EFI_SECURITY_VIOLATION)
                 (kek_lists2 E Cert (au_mem st) VarData VarDataSize Digest))"

definition ValidateSelfSigned :: "auth_env \<Rightarrow> u8 list \<Rightarrow> u8 list \<Rightarrow> PKCS7_OP \<Rightarrow> efi_status \<times> u8 list" where
  "ValidateSelfSigned E Cert Digest Operation =
     (let (Status, x509_SignCert) = ae_Pkcs7Verify E Pkcs7GetSignerCert Cert [] [] in
      if EFI_ERROR Status then (Status, Digest)
      else ae_Pkcs7Verify E Operation Cert x509_SignCert Digest)"

text \<open>The digest of the name, the vendor, the attributes, the time and the data: the status, the length of
  the digest and the array it is stored in.\<close>

definition ConstructDataParameter ::
    "auth_env \<Rightarrow> memory \<Rightarrow> char16 list \<Rightarrow> u8 list \<Rightarrow> u32 \<Rightarrow> nat \<Rightarrow> nat \<Rightarrow> u8 list \<Rightarrow> efi_status \<times> nat \<times> u8 list" where
  "ConstructDataParameter E m VariableName VendorGuid Attributes Data DataSize pDigest =
     (let CertHdrSize = AUTHINFO_2_SIZE m Data;
          (Status, out) = ae_Pkcs7Verify E Pkcs7GetDigestAlgorithm (Pkcs7Cert m Data) [] [SHA1];
          HashType = hd (out @ [SHA1]);
          hash = (\<lambda>alg len.
            let (Status, h) = ae_Hash E alg
                  [concat (map (\<lambda>c. le_bytes 2 (unat c)) (c_string VariableName)), VendorGuid,
                   le_bytes 4 (unat Attributes), rd_bytes m Data sizeof_EFI_TIME,
                   rd_bytes m (Data + CertHdrSize) (uintn_sub DataSize CertHdrSize)]
            in (Status, len, overlay h pDigest))
      in if EFI_ERROR Status then (Status, 0, pDigest)
         else if HashType = SHA1 then hash gEfiHashAlgorithmSha1Guid HASH_SHA1_LEN
         else if HashType = SHA256 then hash gEfiHashAlgorithmSha256Guid HASH_SHA256_LEN
         else (EFI_UNSUPPORTED, 0, pDigest))"

datatype AUTHVAR_TYPE = IsPkVarType | IsKekVarType | IsDbVarType | IsPrivateVarType

definition AuthVarType :: "char16 list \<Rightarrow> u8 list \<Rightarrow> AUTHVAR_TYPE" where
  "AuthVarType VariableName VendorGuid =
     (if IsDbVar VendorGuid then IsDbVarType
      else if IsPkVar VariableName VendorGuid then IsPkVarType
      else if IsKekVar VariableName VendorGuid then IsKekVarType
      else IsPrivateVarType)"

text \<open>The time checks: the new value of \<^verbatim>\<open>ExtFlags->Mc\<close> as a signed 32-bit number, or a violation.\<close>

definition check_time :: "memory \<Rightarrow> nat \<Rightarrow> u32 \<Rightarrow> nat \<Rightarrow> nat \<Rightarrow> u32 option" where
  "check_time m Data Attributes OldData OldMc =
     (let (bad, TimeStamp) = os_mktime (header_time m Data);
          NonZeroTime = sum_list (map unat (rd_bytes m Data sizeof_EFI_TIME));
          Old = of_nat OldMc :: u32
      in if bad \<and> (NonZeroTime \<noteq> 0 \<or> \<not> has Attributes EFI_VARIABLE_APPEND_WRITE) then None
         else if has Attributes EFI_VARIABLE_APPEND_WRITE
         then Some (if OldData \<noteq> 0 \<and> sint Old > sint TimeStamp then Old else TimeStamp)
         else if reserved_time m Data \<or> OldData \<noteq> 0 \<and> sint Old \<ge> sint TimeStamp then None
         else Some TimeStamp)"

text \<open>The check of the signature of \<^verbatim>\<open>PK\<close>, \<^verbatim>\<open>KEK\<close> and the databases.\<close>

definition check_lists2 :: "auth_env \<Rightarrow> AUTHVAR_TYPE \<Rightarrow> u8 list \<Rightarrow> u8 list \<Rightarrow> auth_state \<Rightarrow> efi_status option" where
  "check_lists2 E type Cert Digest st =
     (if type = IsDbVarType
      then do {
        Status \<leftarrow> ProcessVarWithKek2 E Cert Digest st;
        Some (if Status = EFI_SECURITY_VIOLATION then ProcessVarWithPk2 E Cert Digest st else Status)
      }
      else Some (ProcessVarWithPk2 E Cert Digest st))"

text \<open>A private variable; \<open>ext\<close> has the new time already.  The hash of the signer's key is stored over the
  digest.\<close>

definition self_signed2 ::
    "auth_env \<Rightarrow> u8 list \<Rightarrow> u8 list \<Rightarrow> nat \<Rightarrow> EXT_SEC_FLAGS \<Rightarrow> auth_state \<Rightarrow> efi_status \<times> EXT_SEC_FLAGS \<times> auth_state" where
  "self_signed2 E Cert Digest OldData ext st =
     (let (Status, PubKeyHash) = ValidateSelfSigned E Cert Digest Pkcs7CertValidateGetSignerKeyHash in
      if EFI_ERROR Status then (Status, ext, st)
      else
        let st' = st\<lparr>PublicKeyHashArray := overlay PubKeyHash (PublicKeyHashArray st)\<rparr>
        in if OldData \<noteq> 0 \<and> take (length PubKeyHash) (KeyHash ext) \<noteq> PubKeyHash
           then (EFI_SECURITY_VIOLATION, ext, st')
           else (EFI_SUCCESS, ext\<lparr>KeyHash := overlay PubKeyHash (KeyHash ext)\<rparr>, st'))"

definition VerifyVariable2 ::
    "auth_env \<Rightarrow> char16 list \<Rightarrow> u8 list \<Rightarrow> u32 \<Rightarrow> nat \<Rightarrow> nat \<Rightarrow> nat \<Rightarrow> EXT_SEC_FLAGS \<Rightarrow> auth_state
       \<Rightarrow> (efi_status \<times> nat \<times> nat \<times> EXT_SEC_FLAGS \<times> auth_state) option" where
  "VerifyVariable2 E VariableName VendorGuid Attributes Data DataSize OldData ext st =
     (let m = au_mem st; CertHdrSize = AUTHINFO_2_SIZE m Data; Cert = Pkcs7Cert m Data in
      if \<not> has Attributes EFI_VARIABLE_TIME_BASED_AUTHENTICATED_WRITE_ACCESS
      then Some (EFI_INVALID_PARAMETER, Data, DataSize, ext, st)
      else if DataSize < CertHdrSize
         \<or> wCertificateType2 m Data \<noteq> WIN_CERT_TYPE_EFI_GUID \<or> CertType2 m Data \<noteq> gEfiCertPkcs7Guid
      then Some (EFI_SECURITY_VIOLATION, Data, DataSize, ext, st)
      else case check_time m Data Attributes OldData (Mc ext) of
        None \<Rightarrow> Some (EFI_SECURITY_VIOLATION, Data, DataSize, ext, st)
      | Some TimeStamp \<Rightarrow>
          let ext' = ext\<lparr>Mc := unat (scast TimeStamp :: u64)\<rparr>;
              type = AuthVarType VariableName VendorGuid
          in if type \<noteq> IsPrivateVarType \<and> \<not> has Attributes EFI_VARIABLE_NON_VOLATILE
             then Some (EFI_INVALID_PARAMETER, Data, DataSize, ext', st)
             else if type \<noteq> IsPrivateVarType \<and> (mPlatformMode st = SETUP_MODE \<or> mCustomMode st)
             then accept_lists E (type = IsPkVarType) CertHdrSize Data DataSize ext' st
             else
               let (Status, PubKeyHashLen, arr) =
                     ConstructDataParameter E m VariableName VendorGuid Attributes Data DataSize
                       (PublicKeyHashArray st);
                   st' = st\<lparr>PublicKeyHashArray := arr\<rparr>;
                   Digest = take PubKeyHashLen arr
               in if EFI_ERROR Status then Some (EFI_SECURITY_VIOLATION, Data, DataSize, ext', st')
                  else if type = IsPrivateVarType
                  then let (Status, ext2, st2) = self_signed2 E Cert Digest OldData ext' st'
                       in if EFI_ERROR Status then Some (Status, Data, DataSize, ext2, st2)
                          else Some (Status, Data + CertHdrSize, uintn_sub DataSize CertHdrSize, ext2, st2)
                  else do {
                    Status \<leftarrow> check_lists2 E type Cert Digest st';
                    if EFI_ERROR Status then Some (EFI_SECURITY_VIOLATION, Data, DataSize, ext', st')
                    else accept_lists E (type = IsPkVarType) CertHdrSize Data DataSize ext' st'
                  })"

section \<open>VerifyVariable\<close>

text \<open>The header is verified with all attributes of the old and the new variable, then the data of an append
  are compared with the current ones.  An append of nothing new only updates the count or the time.\<close>

definition verify_header ::
    "auth_env \<Rightarrow> char16 list \<Rightarrow> u8 list \<Rightarrow> u32 \<Rightarrow> nat \<Rightarrow> nat \<Rightarrow> nat \<Rightarrow> EXT_SEC_FLAGS \<Rightarrow> auth_state
       \<Rightarrow> (efi_status \<times> nat \<times> nat \<times> EXT_SEC_FLAGS \<times> auth_state) option" where
  "verify_header E VariableName VendorGuid AuthAttributes Data DataSize OldData ext st =
     (if has AuthAttributes EFI_VARIABLE_TIME_BASED_AUTHENTICATED_WRITE_ACCESS
      then VerifyVariable2 E VariableName VendorGuid AuthAttributes Data DataSize OldData ext st
      else VerifyVariable1 E VariableName VendorGuid AuthAttributes Data DataSize OldData ext st)"

definition verify_and_find ::
    "auth_env \<Rightarrow> char16 list \<Rightarrow> u8 list \<Rightarrow> u32 \<Rightarrow> u32 \<Rightarrow> nat \<Rightarrow> nat \<Rightarrow> nat \<Rightarrow> nat \<Rightarrow> EXT_SEC_FLAGS \<Rightarrow> auth_state
       \<Rightarrow> (efi_status \<times> nat \<times> nat \<times> EXT_SEC_FLAGS \<times> auth_state) option" where
  "verify_and_find E VariableName VendorGuid Attributes AuthAttributes Data DataSize OldData OldDataSize ext st =
     do {
       (Status, Data', DataSize', ext', st') \<leftarrow>
         verify_header E VariableName VendorGuid AuthAttributes Data DataSize OldData ext st;
       if EFI_ERROR Status then Some (Status, Data', DataSize', ext', st')
       else do {
         (Status2, m', DataSize2) \<leftarrow>
           FindInSignatureDb Attributes Data' DataSize' OldData OldDataSize (au_mem st');
         let st'' = set_au_mem m' st';
         if EFI_ERROR Status2
         then if Mc ext \<noteq> Mc ext' then Some (EFI_SUCCESS, Data', 0, ext', st'')
              else Some (Status2, Data', DataSize2, ext', st'')
         else Some (Status2, Data', DataSize2, ext', st'')
       }
     }"

definition VerifyVariable ::
    "auth_env \<Rightarrow> char16 list \<Rightarrow> u8 list \<Rightarrow> u32 \<Rightarrow> nat \<Rightarrow> nat \<Rightarrow> nat \<Rightarrow> nat \<Rightarrow> EXT_SEC_FLAGS \<Rightarrow> auth_state
       \<Rightarrow> (efi_status \<times> nat \<times> nat \<times> EXT_SEC_FLAGS \<times> auth_state) option" where
  "VerifyVariable E VariableName VendorGuid Attributes Data DataSize OldData OldDataSize ext st =
     (let st0 = st\<lparr>mCustomMode := False\<rparr>;
          AuthAttributes = ucast (AuthFlags ext) AND UEFI23_1_AUTHENTICATED_VARIABLE_ATTRIBUTES
      in if mSetupMode st = SETUP_MODE then Some (EFI_SUCCESS, Data, DataSize, ext, st0\<lparr>mSetupMode := USER_MODE\<rparr>)
         else if OldData \<noteq> 0 \<and> OldDataSize \<noteq> 0 \<and> IsReservedVariableName VariableName VendorGuid st0
         then Some (EFI_WRITE_PROTECTED, Data, DataSize, ext, st0)
         else if \<not> has Attributes UEFI23_1_AUTHENTICATED_VARIABLE_ATTRIBUTES \<and> AuthAttributes = 0
         then Some (EFI_SUCCESS, Data, DataSize, ext, st0)
         else
           let st1 = snd (GetPlatformMode st0) in
           if Attributes AND UEFI23_1_AUTHENTICATED_VARIABLE_ATTRIBUTES = UEFI23_1_AUTHENTICATED_VARIABLE_ATTRIBUTES
           then Some (EFI_INVALID_PARAMETER, Data, DataSize, ext, st1)
           else do {
             (user, st2) \<leftarrow> PhysicalUserPresent E st1;
             let st3 = st2\<lparr>mCustomMode := user\<rparr>;
             if user \<and> (DataSize = 0 \<or> Data = 0)
             then do {
               st4 \<leftarrow> (if IsPkVar VariableName VendorGuid then UpdatePlatformMode E SETUP_MODE st3 else Some st3);
               Some (EFI_SUCCESS, Data, DataSize, ext, st4)
             }
             else if AuthAttributes \<noteq> 0 \<and> Attributes \<noteq> 0
                \<and> AuthAttributes AND (Attributes AND UEFI23_1_AUTHENTICATED_VARIABLE_ATTRIBUTES) = 0
             then Some (EFI_SECURITY_VIOLATION, Data, DataSize, ext, st3)
             else if DataSize = 0 \<or> Data = 0 then Some (EFI_SECURITY_VIOLATION, Data, DataSize, ext, st3)
             else if \<not> ae_located E then Some (EFI_UNSUPPORTED, Data, DataSize, ext, st3)
             else verify_and_find E VariableName VendorGuid Attributes (AuthAttributes OR Attributes)
                    Data DataSize OldData OldDataSize ext st3
           })"

end
