(* ===== verification/AuthVerifyFacts.thy ===== *)
theory AuthVerifyFacts
  imports AuthVerify AuthListsFacts
begin

text \<open>
  Lemmas on the verification of authenticated variables: the order of the counts and time stamps, the lock of
  the read-only variables, and the signatures of the key and database variables.
\<close>

section \<open>Replays\<close>

lemma low_half [simp]: "ucast (scast (x :: u32) :: u64) = x"
  by (rule bit_word_eqI) (auto simp: bit_simps)

lemma append_attr [simp]:
  "NvramRead.has ((a AND UEFI23_1_AUTHENTICATED_VARIABLE_ATTRIBUTES) OR A) EFI_VARIABLE_APPEND_WRITE
     = NvramRead.has A EFI_VARIABLE_APPEND_WRITE"
proof -
  have "UEFI23_1_AUTHENTICATED_VARIABLE_ATTRIBUTES AND EFI_VARIABLE_APPEND_WRITE = 0" by code_simp
  then show ?thesis by (simp add: NvramRead.has_def bit.conj_disj_distrib2 and.assoc)
qed

lemma nonvolatile_attr [simp]:
  "NvramRead.has ((a AND UEFI23_1_AUTHENTICATED_VARIABLE_ATTRIBUTES) OR A) EFI_VARIABLE_NON_VOLATILE
     = NvramRead.has A EFI_VARIABLE_NON_VOLATILE"
proof -
  have "UEFI23_1_AUTHENTICATED_VARIABLE_ATTRIBUTES AND EFI_VARIABLE_NON_VOLATILE = 0" by code_simp
  then show ?thesis by (simp add: NvramRead.has_def bit.conj_disj_distrib2 and.assoc)
qed

text \<open>The order of the count or time stamp kept with the variable.\<close>

definition later :: "u32 \<Rightarrow> EXT_SEC_FLAGS \<Rightarrow> EXT_SEC_FLAGS \<Rightarrow> bool" where
  "later Attributes ext ext' \<longleftrightarrow>
     (if NvramRead.has Attributes EFI_VARIABLE_TIME_BASED_AUTHENTICATED_WRITE_ACCESS
      then sint (of_nat (Mc ext) :: u32) < sint (of_nat (Mc ext') :: u32) else Mc ext < Mc ext')"

lemma accept_lists_ext:
  "accept_lists E IsPk c Data n ext st = Some (s, Data', n', ext', st') \<Longrightarrow> ext' = ext"
  by (auto simp: accept_lists_def Let_def bind_eq_Some_conv split: if_splits)

lemma VerifyVariable1_later:
  assumes "VerifyVariable1 E name guid A Data n Old ext st = Some (EFI_SUCCESS, Data', n', ext', st')"
    "Old \<noteq> 0" "\<not> NvramRead.has A EFI_VARIABLE_APPEND_WRITE"
  shows "Mc ext < Mc ext'"
  using assms
  by (auto simp: VerifyVariable1_def Let_def self_signed1_def bind_eq_Some_conv dest!: accept_lists_ext
      split: if_splits prod.splits)

lemma check_time_later:
  "check_time m Data A Old mc = Some t \<Longrightarrow> Old \<noteq> 0 \<Longrightarrow> \<not> NvramRead.has A EFI_VARIABLE_APPEND_WRITE \<Longrightarrow>
    sint (of_nat mc :: u32) < sint t"
  by (auto simp: check_time_def Let_def split: prod.splits if_splits)

lemma VerifyVariable2_later:
  assumes "VerifyVariable2 E name guid A Data n Old ext st = Some (EFI_SUCCESS, Data', n', ext', st')"
    "Old \<noteq> 0" "\<not> NvramRead.has A EFI_VARIABLE_APPEND_WRITE"
  shows "sint (of_nat (Mc ext) :: u32) < sint (of_nat (Mc ext') :: u32)"
  using assms
  by (auto simp: VerifyVariable2_def Let_def self_signed2_def bind_eq_Some_conv
      dest!: accept_lists_ext check_time_later split: if_splits prod.splits option.splits)


lemma FindInSignatureDb_no_append:
  "\<not> NvramRead.has A EFI_VARIABLE_APPEND_WRITE \<Longrightarrow> FindInSignatureDb A Data n Old k m = Some (EFI_SUCCESS, m, n)"
  by (simp add: FindInSignatureDb_def)

definition all_attributes :: "u32 \<Rightarrow> EXT_SEC_FLAGS \<Rightarrow> u32" where
  "all_attributes A ext = (ucast (AuthFlags ext) AND UEFI23_1_AUTHENTICATED_VARIABLE_ATTRIBUTES) OR A"

text \<open>A write that is accepted, in the locked state, to a variable that is or becomes authenticated, with
  data: it went through the verification of its header.\<close>

lemma VerifyVariable_checks:
  assumes "VerifyVariable E name guid A Data n Old k ext st = Some (EFI_SUCCESS, Data', n', ext', st')"
    "mSetupMode st \<noteq> SETUP_MODE" "NvramRead.has (all_attributes A ext) UEFI23_1_AUTHENTICATED_VARIABLE_ATTRIBUTES"
    "n \<noteq> 0" "Data \<noteq> 0"
  obtains user st2 where
    "PhysicalUserPresent E (snd (GetPlatformMode (st\<lparr>mCustomMode := False\<rparr>))) = Some (user, st2)"
    "verify_and_find E name guid A (all_attributes A ext) Data n Old k ext (st2\<lparr>mCustomMode := user\<rparr>)
       = Some (EFI_SUCCESS, Data', n', ext', st')"
proof -
  have "\<not> (\<not> NvramRead.has A UEFI23_1_AUTHENTICATED_VARIABLE_ATTRIBUTES
      \<and> ucast (AuthFlags ext) AND UEFI23_1_AUTHENTICATED_VARIABLE_ATTRIBUTES = 0)"
    using assms(3) by (auto simp: all_attributes_def)
  with assms(1,2,4,5) show thesis
    using that unfolding VerifyVariable_def all_attributes_def Let_def
    by (auto simp: bind_eq_Some_conv split: if_split_asm prod.splits)
qed

lemma verify_and_find_header:
  assumes "verify_and_find E name guid A AA Data n Old k ext st = Some (EFI_SUCCESS, Data', n', ext', st')"
  shows "\<exists>n2 st2 s m' n3. verify_header E name guid AA Data n Old ext st = Some (EFI_SUCCESS, Data', n2, ext', st2)
    \<and> FindInSignatureDb A Data' n2 Old k (au_mem st2) = Some (s, m', n3)
    \<and> st' = set_au_mem m' st2 \<and> n' = (if s = EFI_SUCCESS then n3 else 0)"
proof -
  obtain s1 D n2 e2 st2 where h: "verify_header E name guid AA Data n Old ext st = Some (s1, D, n2, e2, st2)"
    using assms by (auto simp: verify_and_find_def bind_eq_Some_conv)
  then have s1: "s1 = EFI_SUCCESS" using assms by (auto simp: verify_and_find_def split: if_splits)
  then obtain s m' n3 where f: "FindInSignatureDb A D n2 Old k (au_mem st2) = Some (s, m', n3)"
    using assms h by (auto simp: verify_and_find_def bind_eq_Some_conv)
  then show ?thesis using assms h s1 by (auto simp: verify_and_find_def Let_def split: if_splits)
qed

lemma VerifyVariable_later:
  assumes "VerifyVariable E name guid A Data n Old k ext st = Some (EFI_SUCCESS, Data', n', ext', st')"
    "mSetupMode st \<noteq> SETUP_MODE" "NvramRead.has (all_attributes A ext) UEFI23_1_AUTHENTICATED_VARIABLE_ATTRIBUTES"
    "n \<noteq> 0" "Data \<noteq> 0" "Old \<noteq> 0" "\<not> NvramRead.has A EFI_VARIABLE_APPEND_WRITE"
  shows "later (all_attributes A ext) ext ext'"
proof -
  have na: "\<not> NvramRead.has (all_attributes A ext) EFI_VARIABLE_APPEND_WRITE"
    using assms(7) by (simp add: all_attributes_def)
  obtain user st2 where "verify_and_find E name guid A (all_attributes A ext) Data n Old k ext (st2\<lparr>mCustomMode := user\<rparr>)
       = Some (EFI_SUCCESS, Data', n', ext', st')"
    using VerifyVariable_checks [OF assms(1-5)] by blast
  then obtain n2 st4 where "verify_header E name guid (all_attributes A ext) Data n Old ext (st2\<lparr>mCustomMode := user\<rparr>)
       = Some (EFI_SUCCESS, Data', n2, ext', st4)"
    using verify_and_find_header by blast
  then show ?thesis
    using VerifyVariable1_later [OF _ assms(6) na] VerifyVariable2_later [OF _ assms(6) na]
    by (auto simp: verify_header_def later_def split: if_split_asm)
qed

section \<open>The lock of the read-only variables\<close>

text \<open>\<^verbatim>\<open>UpdatePlatformMode\<close> unlocks the read-only variables for the one write it makes.\<close>

lemma UpdatePlatformMode_locks: "UpdatePlatformMode E M st = Some st' \<Longrightarrow> mSetupMode st' = USER_MODE"
  by (auto simp: UpdatePlatformMode_def bind_eq_Some_conv)

lemma get_variable_frame:
  "get_variable E name guid want n st = Some (r, st') \<Longrightarrow> \<exists>s. st' = st\<lparr>au_s := s\<rparr>"
  by (auto simp: get_variable_def bind_eq_Some_conv)

lemma PhysicalUserPresent_frame: "PhysicalUserPresent E st = Some (u, st') \<Longrightarrow> \<exists>s. st' = st\<lparr>au_s := s\<rparr>"
  by (auto simp: PhysicalUserPresent_def bind_eq_Some_conv dest: get_variable_frame)

lemma GetPlatformMode_frame: "\<exists>M. snd (GetPlatformMode st) = st\<lparr>mPlatformMode := M\<rparr>"
  by (auto simp: GetPlatformMode_def Let_def split: prod.splits)

lemma accept_lists_lock:
  "accept_lists E IsPk c Data n ext st = Some (s, Data', n', ext', st') \<Longrightarrow> mSetupMode st = USER_MODE \<Longrightarrow> mSetupMode st' = USER_MODE"
  by (auto simp: accept_lists_def Let_def bind_eq_Some_conv UpdatePlatformMode_locks split: if_splits)

lemma VerifyVariable1_lock:
  "VerifyVariable1 E name guid A Data n Old ext st = Some (s, Data', n', ext', st') \<Longrightarrow>
     mSetupMode st = USER_MODE \<Longrightarrow> mSetupMode st' = USER_MODE"
  by (auto simp: VerifyVariable1_def Let_def self_signed1_def bind_eq_Some_conv dest: accept_lists_lock
      split: if_splits prod.splits)

lemma VerifyVariable2_lock:
  "VerifyVariable2 E name guid A Data n Old ext st = Some (s, Data', n', ext', st') \<Longrightarrow>
     mSetupMode st = USER_MODE \<Longrightarrow> mSetupMode st' = USER_MODE"
  by (auto simp: VerifyVariable2_def Let_def self_signed2_def bind_eq_Some_conv dest!: accept_lists_lock
      split: if_splits prod.splits option.splits)

lemma verify_and_find_lock:
  "verify_and_find E name guid A AA Data n Old k ext st = Some (s, Data', n', ext', st') \<Longrightarrow>
     mSetupMode st = USER_MODE \<Longrightarrow> mSetupMode st' = USER_MODE"
  unfolding verify_and_find_def verify_header_def Let_def
  by (auto simp: bind_eq_Some_conv set_au_mem_def dest: VerifyVariable1_lock VerifyVariable2_lock
      split: if_split_asm prod.splits)

section \<open>Keys\<close>

text \<open>Looking a variable up depends on the stores only.\<close>

lemma find_variable_simps [simp]:
  "find_variable name guid (st\<lparr>mCustomMode := b\<rparr>) = find_variable name guid st"
  "find_variable name guid (st\<lparr>PublicKeyHashArray := a\<rparr>) = find_variable name guid st"
  "find_variable name guid (st\<lparr>mPlatformMode := M\<rparr>) = find_variable name guid st"
  by (simp_all add: find_variable_def)

lemma GetPlatformMode_custom [simp]:
  "mPlatformMode (snd (GetPlatformMode (st\<lparr>mCustomMode := b\<rparr>))) = mPlatformMode (snd (GetPlatformMode st))"
  by (cases "find_variable EFI_PLATFORM_KEY_NAME gEfiGlobalVariableGuid st") (simp add: GetPlatformMode_def)

text \<open>The lists of a database of \<open>k\<close> bytes at \<open>p\<close>, as the loops walk over them.\<close>

inductive list_of :: "memory \<Rightarrow> nat \<Rightarrow> nat \<Rightarrow> nat \<Rightarrow> bool" for m where
  this_list: "0 < k \<Longrightarrow> SignatureListSize m p \<le> k \<Longrightarrow> list_of m p k p"
| next_list: "0 < k \<Longrightarrow> SignatureListSize m p \<le> k \<Longrightarrow>
     list_of m (p + SignatureListSize m p) (uintn_sub k (SignatureListSize m p)) l \<Longrightarrow> list_of m p k l"

definition signature_at :: "memory \<Rightarrow> nat \<Rightarrow> nat \<Rightarrow> bool" where
  "signature_at m l i \<longleftrightarrow> (\<exists>c j. signature_count m l = Some c \<and> j < c \<and> i = first_signature m l + j * SignatureSize m l)"

definition key_variable :: "char16 list \<Rightarrow> auth_state \<Rightarrow> nat \<Rightarrow> nat \<Rightarrow> bool" where
  "key_variable name st p k \<longleftrightarrow> (\<exists>a. find_variable name gEfiGlobalVariableGuid st = (EFI_SUCCESS, a, Some (p, k)))"

text \<open>A PKCS 7 certificate over a digest, signed by the platform key, or by a certificate that chains to one of
  the key exchange keys.\<close>

definition pk_signed :: "auth_env \<Rightarrow> auth_state \<Rightarrow> u8 list \<Rightarrow> u8 list \<Rightarrow> bool" where
  "pk_signed E st Cert Digest \<longleftrightarrow> (\<exists>p k. key_variable EFI_PLATFORM_KEY_NAME st p k \<and> k \<noteq> 0 \<and>
     (let m = au_mem st;
          Key = rd_bytes m (SignatureData (first_signature m p)) (uintn_sub (SignatureSize m p) sizeof_GUID)
      in SignatureType m p = gEfiCertRsa2048Guid
           \<and> ae_Pkcs7Verify E Pkcs7CertValidateGetSignerKey Cert [] Digest = (EFI_SUCCESS, Key)
         \<or> SignatureType m p = gEfiCertX509Guid
           \<and> ae_Pkcs7Verify E Pkcs7CertValidateGetSignerCert Cert Key Digest = (EFI_SUCCESS, Key)))"

definition kek_signed :: "auth_env \<Rightarrow> auth_state \<Rightarrow> u8 list \<Rightarrow> u8 list \<Rightarrow> bool" where
  "kek_signed E st Cert Digest \<longleftrightarrow> (\<exists>p k l i. key_variable EFI_KEY_EXCHANGE_KEY_NAME st p k \<and> k \<noteq> 0
     \<and> list_of (au_mem st) p k l \<and> SignatureType (au_mem st) l = gEfiCertX509Guid \<and> signature_at (au_mem st) l i
     \<and> fst (ae_Pkcs7Verify E Pkcs7CertValidate Cert
              (rd_bytes (au_mem st) (SignatureData i) (SignatureSize (au_mem st) l)) Digest) = EFI_SUCCESS)"

text \<open>A refused certificate leaves the digest alone.\<close>

definition keeps_digest :: "auth_env \<Rightarrow> bool" where
  "keeps_digest E \<longleftrightarrow> (\<forall>c t d. fst (ae_Pkcs7Verify E Pkcs7CertValidate c t d) \<noteq> EFI_SUCCESS
     \<longrightarrow> snd (ae_Pkcs7Verify E Pkcs7CertValidate c t d) = d)"

lemma keeps_digestD:
  "keeps_digest E \<Longrightarrow> ae_Pkcs7Verify E Pkcs7CertValidate c t d = (s, d') \<Longrightarrow> s \<noteq> EFI_SUCCESS \<Longrightarrow> d' = d"
  unfolding keeps_digest_def by (metis fst_conv snd_conv)

lemma ProcessVarWithPk2_signed: "ProcessVarWithPk2 E Cert Digest st = EFI_SUCCESS \<Longrightarrow> pk_signed E st Cert Digest"
  by (auto simp: ProcessVarWithPk2_def pk_signed_def key_variable_def Let_def split: prod.splits option.splits if_splits)

lemma kek_items2_found:
  "keeps_digest E \<Longrightarrow> fst (kek_items2 E Cert m s n i Digest) \<Longrightarrow>
     \<exists>j < n. fst (ae_Pkcs7Verify E Pkcs7CertValidate Cert (rd_bytes m (SignatureData (i + j * s)) s) Digest) = EFI_SUCCESS"
proof (induction n arbitrary: i)
  case 0
  then show ?case by simp
next
  case (Suc n)
  let ?r = "ae_Pkcs7Verify E Pkcs7CertValidate Cert (rd_bytes m (SignatureData i) s) Digest"
  show ?case
  proof (cases "fst ?r = EFI_SUCCESS")
    case True
    then show ?thesis by (intro exI [of _ 0]) simp
  next
    case False
    then have "fst (kek_items2 E Cert m s n (i + s) Digest)"
      using Suc.prems by (auto split: prod.splits dest: keeps_digestD)
    from Suc.IH [OF Suc.prems(1) this] obtain j where "j < n"
      "fst (ae_Pkcs7Verify E Pkcs7CertValidate Cert (rd_bytes m (SignatureData (i + s + j * s)) s) Digest) = EFI_SUCCESS"
      by blast
    then show ?thesis by (intro exI [of _ "Suc j"]) (simp add: add.assoc)
  qed
qed

lemma kek_items2_digest:
  "keeps_digest E \<Longrightarrow> \<not> fst (kek_items2 E Cert m s n i Digest) \<Longrightarrow> snd (kek_items2 E Cert m s n i Digest) = Digest"
proof (induction n arbitrary: i)
  case 0
  then show ?case by simp
next
  case (Suc n)
  then show ?case
    by (cases "ae_Pkcs7Verify E Pkcs7CertValidate Cert (rd_bytes m (SignatureData i) s) Digest")
       (auto split: if_splits dest: keeps_digestD)
qed

lemma kek_lists2_found:
  assumes "kek_lists2 E Cert m p k Digest = Some found" "found" "keeps_digest E"
  shows "\<exists>l i. list_of m p k l \<and> SignatureType m l = gEfiCertX509Guid \<and> signature_at m l i
     \<and> fst (ae_Pkcs7Verify E Pkcs7CertValidate Cert (rd_bytes m (SignatureData i) (SignatureSize m l)) Digest) = EFI_SUCCESS"
    (is "?Q E Cert m p k Digest")
proof -
  have "found \<longrightarrow> keeps_digest E \<longrightarrow> ?Q E Cert m p k Digest"
  proof (rule kek_lists2.raw_induct [OF _ assms(1), where P = "\<lambda>E Cert m p k Digest found. found \<longrightarrow> keeps_digest E \<longrightarrow> ?Q E Cert m p k Digest"], intro impI)
    fix f E Cert m p k Digest found
    assume IH: "\<And>E Cert m p k Digest found. f E Cert m p k Digest = Some found \<Longrightarrow> found \<longrightarrow> keeps_digest E \<longrightarrow> ?Q E Cert m p k Digest"
      and run: "(if 0 < k \<and> SignatureListSize m p \<le> k
         then (if SignatureType m p = gEfiCertX509Guid
               then map_option (\<lambda>n. kek_items2 E Cert m (SignatureSize m p) n (first_signature m p) Digest) (signature_count m p)
               else Some (False, Digest)) \<bind>
              (\<lambda>(IsFound, Digest'). if IsFound then Some True
                 else f E Cert m (p + SignatureListSize m p) (uintn_sub k (SignatureListSize m p)) Digest')
         else Some False) = Some found"
      and found: "found" and kd: "keeps_digest E"
    then have k: "0 < k" "SignatureListSize m p \<le> k" by (auto split: if_splits)
    have rest: "?Q E Cert m p k Digest" if "f E Cert m (p + SignatureListSize m p) (uintn_sub k (SignatureListSize m p)) Digest = Some found"
      using IH [OF that] found kd next_list [OF k] by blast
    show "?Q E Cert m p k Digest"
    proof (cases "SignatureType m p = gEfiCertX509Guid")
      case False
      then show ?thesis using run k rest by simp
    next
      case True
      then obtain n b d where n: "signature_count m p = Some n"
        and b: "kek_items2 E Cert m (SignatureSize m p) n (first_signature m p) Digest = (b, d)"
        using run k by (auto simp: bind_eq_Some_conv)
      show ?thesis
      proof (cases b)
        case True': True
        then show ?thesis
          using kek_items2_found [OF kd, of Cert m "SignatureSize m p" n "first_signature m p" Digest] b True n this_list [OF k]
          unfolding signature_at_def by (metis fst_conv)
      next
        case False
        then have "d = Digest"
          using kek_items2_digest [OF kd, of Cert m "SignatureSize m p" n "first_signature m p" Digest] b by simp
        then show ?thesis using run k True n b False rest by simp
      qed
    qed
  qed
  then show ?thesis using assms(2,3) by blast
qed

lemma ProcessVarWithKek2_signed:
  "ProcessVarWithKek2 E Cert Digest st = Some EFI_SUCCESS \<Longrightarrow> keeps_digest E \<Longrightarrow> kek_signed E st Cert Digest"
  by (auto simp: ProcessVarWithKek2_def kek_signed_def key_variable_def Let_def split: prod.splits option.splits if_splits
      dest!: kek_lists2_found)

section \<open>Key and database variables are signed\<close>

text \<open>The keys a header with a count may be signed with.\<close>

definition pk_key :: "auth_state \<Rightarrow> u8 list \<Rightarrow> bool" where
  "pk_key st Key \<longleftrightarrow> (\<exists>p k. key_variable EFI_PLATFORM_KEY_NAME st p k \<and> k \<noteq> 0
     \<and> Key = rd_bytes (au_mem st) (SignatureData (first_signature (au_mem st) p)) RSA2048_PUB_KEY_LEN)"

definition kek_key :: "auth_state \<Rightarrow> u8 list \<Rightarrow> bool" where
  "kek_key st Key \<longleftrightarrow> (\<exists>p k i. key_variable EFI_KEY_EXCHANGE_KEY_NAME st p k
     \<and> SignatureType (au_mem st) p = gEfiCertRsa2048Guid \<and> signature_at (au_mem st) p i
     \<and> Key = rd_bytes (au_mem st) (SignatureData i) RSA2048_PUB_KEY_LEN)"

lemma keys_simps [simp]:
  "pk_signed E (st\<lparr>mCustomMode := b\<rparr>) = pk_signed E st" "pk_signed E (st\<lparr>PublicKeyHashArray := a\<rparr>) = pk_signed E st"
  "kek_signed E (st\<lparr>mCustomMode := b\<rparr>) = kek_signed E st" "kek_signed E (st\<lparr>PublicKeyHashArray := a\<rparr>) = kek_signed E st"
  "pk_key (st\<lparr>mCustomMode := b\<rparr>) = pk_key st" "kek_key (st\<lparr>mCustomMode := b\<rparr>) = kek_key st"
  by (simp_all add: fun_eq_iff pk_signed_def kek_signed_def pk_key_def kek_key_def key_variable_def)

text \<open>What it means that the write is authorised: the header at \<open>Data\<close> carries a signature over the data, made
  with the platform key, or, for a database, with a key exchange key.\<close>

definition authorised ::
    "auth_env \<Rightarrow> char16 list \<Rightarrow> u8 list \<Rightarrow> u32 \<Rightarrow> nat \<Rightarrow> nat \<Rightarrow> auth_state \<Rightarrow> bool" where
  "authorised E name guid A Data n st \<longleftrightarrow>
     (let m = au_mem st; db = IsDbVar guid in
      if NvramRead.has A EFI_VARIABLE_TIME_BASED_AUTHENTICATED_WRITE_ACCESS
      then \<exists>len arr. ConstructDataParameter E m name guid A Data n (PublicKeyHashArray st) = (EFI_SUCCESS, len, arr)
             \<and> (pk_signed E st (Pkcs7Cert m Data) (take len arr) \<or> db \<and> kek_signed E st (Pkcs7Cert m Data) (take len arr))
      else \<exists>Key. (pk_key st Key \<or> db \<and> kek_key st Key) \<and> VerifyDataPayload E m Data n Key = EFI_SUCCESS)"

lemma authorised_simps [simp]:
  "authorised E name guid A Data n (st\<lparr>mCustomMode := b\<rparr>) = authorised E name guid A Data n st"
  by (simp add: authorised_def Let_def)

lemma kek_search_found:
  "kek_search m Key s n i \<Longrightarrow> \<exists>j < n. rd_bytes m (SignatureData (i + j * s)) RSA2048_PUB_KEY_LEN = rd_bytes m Key RSA2048_PUB_KEY_LEN"
proof (induction n arbitrary: i)
  case 0
  then show ?case by simp
next
  case (Suc n)
  show ?case
  proof (cases "rd_bytes m (SignatureData i) RSA2048_PUB_KEY_LEN = rd_bytes m Key RSA2048_PUB_KEY_LEN")
    case True
    then show ?thesis by (intro exI [of _ 0]) simp
  next
    case False
    then obtain j where "j < n"
      "rd_bytes m (SignatureData (i + s + j * s)) RSA2048_PUB_KEY_LEN = rd_bytes m Key RSA2048_PUB_KEY_LEN"
      using Suc.IH [of "i + s"] Suc.prems by (auto simp: MemCmp_0)
    then show ?thesis by (intro exI [of _ "Suc j"]) (simp add: add.assoc)
  qed
qed

lemma ProcessVarWithPk_key:
  "ProcessVarWithPk E Data n A st = EFI_SUCCESS \<Longrightarrow> mPlatformMode st \<noteq> SETUP_MODE \<Longrightarrow> \<not> mCustomMode st \<Longrightarrow>
    \<exists>Key. pk_key st Key \<and> VerifyDataPayload E (au_mem st) Data n Key = EFI_SUCCESS"
  by (auto simp: ProcessVarWithPk_def pk_key_def key_variable_def Let_def split: prod.splits option.splits if_splits)

lemma ProcessVarWithKek_key:
  assumes "ProcessVarWithKek E Data n A st = Some EFI_SUCCESS" "mPlatformMode st \<noteq> SETUP_MODE" "\<not> mCustomMode st"
  shows "\<exists>Key. kek_key st Key \<and> VerifyDataPayload E (au_mem st) Data n Key = EFI_SUCCESS"
proof -
  let ?m = "au_mem st"
  obtain p k c where kv: "key_variable EFI_KEY_EXCHANGE_KEY_NAME st p k" "SignatureType ?m p = gEfiCertRsa2048Guid"
    "signature_count ?m p = Some c" "kek_search ?m (PublicKey Data) (SignatureSize ?m p) c (first_signature ?m p)"
    "VerifyDataPayload E ?m Data n (rd_bytes ?m (PublicKey Data) RSA2048_PUB_KEY_LEN) = EFI_SUCCESS"
    using assms by (auto simp: ProcessVarWithKek_def key_variable_def Let_def bind_eq_Some_conv split: prod.splits if_splits)
  obtain j where "j < c" "rd_bytes ?m (SignatureData (first_signature ?m p + j * SignatureSize ?m p)) RSA2048_PUB_KEY_LEN
      = rd_bytes ?m (PublicKey Data) RSA2048_PUB_KEY_LEN"
    using kek_search_found [OF kv(4)] by blast
  then have "kek_key st (rd_bytes ?m (PublicKey Data) RSA2048_PUB_KEY_LEN)"
    using kv(1-3) unfolding kek_key_def signature_at_def by metis
  then show ?thesis using kv(5) by blast
qed

lemma VerifyVariable1_authorised:
  assumes "VerifyVariable1 E name guid A Data n Old ext st = Some (EFI_SUCCESS, Data', n', ext', st')"
    "mPlatformMode st \<noteq> SETUP_MODE" "\<not> mCustomMode st" "AuthVarType name guid \<noteq> IsPrivateVarType"
    "\<not> NvramRead.has A EFI_VARIABLE_TIME_BASED_AUTHENTICATED_WRITE_ACCESS"
  shows "authorised E name guid A Data n st"
proof -
  have "ProcessVarWithPk E Data n A st = EFI_SUCCESS \<or> IsDbVar guid \<and> ProcessVarWithKek E Data n A st = Some EFI_SUCCESS"
    using assms by (auto simp: VerifyVariable1_def Let_def AuthVarType_def bind_eq_Some_conv split: if_splits)
  then show ?thesis
    using ProcessVarWithPk_key [of E Data n A st] ProcessVarWithKek_key [of E Data n A st] assms(2,3,5)
    unfolding authorised_def Let_def if_not_P [OF assms(5)] by blast
qed

lemma VerifyVariable2_authorised:
  assumes "VerifyVariable2 E name guid A Data n Old ext st = Some (EFI_SUCCESS, Data', n', ext', st')"
    "mPlatformMode st \<noteq> SETUP_MODE" "\<not> mCustomMode st" "AuthVarType name guid \<noteq> IsPrivateVarType" "keeps_digest E"
  shows "authorised E name guid A Data n st"
proof -
  let ?m = "au_mem st"
  obtain len arr where d: "ConstructDataParameter E ?m name guid A Data n (PublicKeyHashArray st) = (EFI_SUCCESS, len, arr)"
    and c: "check_lists2 E (AuthVarType name guid) (Pkcs7Cert ?m Data) (take len arr) (st\<lparr>PublicKeyHashArray := arr\<rparr>) = Some EFI_SUCCESS"
    and t: "NvramRead.has A EFI_VARIABLE_TIME_BASED_AUTHENTICATED_WRITE_ACCESS"
    using assms(1-4) by (auto simp: VerifyVariable2_def Let_def bind_eq_Some_conv split: if_splits prod.splits option.splits)
  let ?st = "st\<lparr>PublicKeyHashArray := arr\<rparr>"
  have "pk_signed E ?st (Pkcs7Cert ?m Data) (take len arr) \<or>
      IsDbVar guid \<and> kek_signed E ?st (Pkcs7Cert ?m Data) (take len arr)"
    using c assms(4)
    by (auto simp: check_lists2_def bind_eq_Some_conv AuthVarType_def split: if_splits
        dest!: ProcessVarWithPk2_signed ProcessVarWithKek2_signed [OF _ assms(5)])
  then show ?thesis using d t by (auto simp: authorised_def Let_def)
qed

section \<open>Volatile keys\<close>

lemma verify_header_nonvolatile:
  assumes "AuthVarType name guid \<noteq> IsPrivateVarType" "\<not> NvramRead.has A EFI_VARIABLE_NON_VOLATILE"
  shows "verify_header E name guid A Data n Old ext st \<noteq> Some (EFI_SUCCESS, Data', n', ext', st')"
proof -
  have "VerifyVariable1 E name guid A Data n Old ext st \<noteq> Some (EFI_SUCCESS, Data', n', ext', st')"
    using assms by (auto simp: VerifyVariable1_def Let_def AuthVarType_def ProcessVarWithPk_def ProcessVarWithKek_def split: if_splits)
  moreover have "VerifyVariable2 E name guid A Data n Old ext st \<noteq> Some (EFI_SUCCESS, Data', n', ext', st')"
    using assms by (auto simp: VerifyVariable2_def Let_def split: if_splits option.splits)
  ultimately show ?thesis by (auto simp: verify_header_def)
qed

end
