(* ===== verification/AuthTime.thy ===== *)
theory AuthTime
  imports AuthVariable
begin

text \<open>
  The time stamps of authenticated variables: up to the year 2037 \<^verbatim>\<open>os_mktime\<close> keeps the order of the dates;
  from 2038 on the sum does not fit a signed 32-bit number.
\<close>

text \<open>A date of the calendar, between 1970 and 2037.\<close>

definition valid_time :: "EFI_TIME \<Rightarrow> bool" where
  "valid_time T \<longleftrightarrow> 1970 \<le> Year T \<and> Year T \<le> 2037 \<and> 1 \<le> Month T \<and> Month T \<le> 12
     \<and> 1 \<le> Day T
     \<and> CumulativeDays (IsLeap (Year T)) ! Month T + Day T \<le> CumulativeDays (IsLeap (Year T)) ! Suc (Month T)
     \<and> Hour T \<le> 23 \<and> Minute T \<le> 59 \<and> Second T \<le> 59"

definition earlier :: "EFI_TIME \<Rightarrow> EFI_TIME \<Rightarrow> bool" where
  "earlier T T' \<longleftrightarrow>
     ([Year T, Month T, Day T, Hour T, Minute T, Second T], [Year T', Month T', Day T', Hour T', Minute T', Second T'])
       \<in> lexord less_than"

section \<open>Days\<close>

primrec days_of_years :: "nat \<Rightarrow> nat" where
  "days_of_years 0 = 0"
| "days_of_years (Suc n) = days_of_years n + CumulativeDays (IsLeap (1970 + n)) ! 13"

definition day_number :: "EFI_TIME \<Rightarrow> nat" where
  "day_number T = days_of_years (Year T - 1970) + CumulativeDays (IsLeap (Year T)) ! Month T + (Day T - 1)"

definition second_of_day :: "EFI_TIME \<Rightarrow> nat" where
  "second_of_day T = Hour T * 3600 + Minute T * 60 + Second T"

lemma add_years_days:
  "add_years n (1970 + k) (of_nat (days_of_years k * SECSPERDAY)) = of_nat (days_of_years (k + n) * SECSPERDAY)"
proof (induction n arbitrary: k)
  case 0
  then show ?case by simp
next
  case (Suc n)
  have "of_nat (days_of_years k * SECSPERDAY) + of_nat (CumulativeDays (IsLeap (1970 + k)) ! 13 * SECSPERDAY)
      = (of_nat (days_of_years (Suc k) * SECSPERDAY) :: u32)"
    by (simp only: days_of_years.simps distrib_right of_nat_add)
  then show ?case using Suc.IH [of "Suc k"] by simp
qed

lemma CumulativeDays_mono: "m \<le> m' \<Longrightarrow> m' \<le> 13 \<Longrightarrow> CumulativeDays leap ! m \<le> CumulativeDays leap ! m'"
proof -
  have "sorted (CumulativeDays leap)" "length (CumulativeDays leap) = 14" by (simp_all add: CumulativeDays_def)
  then show "m \<le> m' \<Longrightarrow> m' \<le> 13 \<Longrightarrow> CumulativeDays leap ! m \<le> CumulativeDays leap ! m'"
    by (intro sorted_nth_mono) auto
qed

lemma days_of_years_mono: "n \<le> k \<Longrightarrow> days_of_years n \<le> days_of_years k"
  by (induction k) (auto simp: le_Suc_eq)

lemma day_in_year:
  assumes "valid_time T"
  shows "CumulativeDays (IsLeap (Year T)) ! Month T + (Day T - 1) < CumulativeDays (IsLeap (Year T)) ! Suc (Month T)"
    "day_number T < days_of_years (Suc (Year T - 1970))"
proof -
  show m: "CumulativeDays (IsLeap (Year T)) ! Month T + (Day T - 1) < CumulativeDays (IsLeap (Year T)) ! Suc (Month T)"
    using assms by (auto simp: valid_time_def)
  have "CumulativeDays (IsLeap (Year T)) ! Suc (Month T) \<le> CumulativeDays (IsLeap (Year T)) ! 13"
    using assms by (intro CumulativeDays_mono) (auto simp: valid_time_def)
  then show "day_number T < days_of_years (Suc (Year T - 1970))"
    using m assms by (simp add: day_number_def valid_time_def)
qed

lemma os_mktime_seconds:
  assumes "valid_time T"
  shows "os_mktime T = (False, of_nat (day_number T * SECSPERDAY + second_of_day T))"
    "day_number T * SECSPERDAY + second_of_day T < 2 ^ 31"
proof -
  have d31: "Day T \<le> 31"
  proof -
    have "list_all (\<lambda>m. CumulativeDays True ! Suc m \<le> CumulativeDays True ! m + 31) [1..<13]"
      "list_all (\<lambda>m. CumulativeDays False ! Suc m \<le> CumulativeDays False ! m + 31) [1..<13]"
      by code_simp+
    then have "CumulativeDays leap ! Suc m \<le> CumulativeDays leap ! m + 31" if "1 \<le> m" "m \<le> 12" for leap m
      using that by (cases leap) (auto simp: list_all_iff)
    from this [of "Month T" "IsLeap (Year T)"] show ?thesis using assms by (auto simp: valid_time_def)
  qed
  have "add_years (Year T - 1970) 1970 0 = of_nat (days_of_years (Year T - 1970) * SECSPERDAY)"
    using add_years_days [of "Year T - 1970" 0] by simp
  then show "os_mktime T = (False, of_nat (day_number T * SECSPERDAY + second_of_day T))"
    using assms d31 by (cases "Day T") (simp_all add: os_mktime_def valid_time_def day_number_def second_of_day_def
        SECSPERHOUR_def algebra_simps)
  have "Suc (Year T - 1970) \<le> 68" using assms by (auto simp: valid_time_def)
  then have "days_of_years (Suc (Year T - 1970)) \<le> days_of_years 68" by (rule days_of_years_mono)
  also have "days_of_years 68 = 24837" by code_simp
  finally have "day_number T \<le> 24836" using day_in_year(2) [OF assms] by simp
  moreover have "second_of_day T < SECSPERDAY"
    using assms by (auto simp: valid_time_def second_of_day_def SECSPERDAY_def SECSPERHOUR_def)
  ultimately show "day_number T * SECSPERDAY + second_of_day T < 2 ^ 31"
    by (simp add: SECSPERDAY_def SECSPERHOUR_def)
qed

lemma later_day:
  assumes "valid_time T" "valid_time T'"
    "Year T < Year T' \<or> Year T = Year T' \<and> (Month T < Month T' \<or> Month T = Month T' \<and> Day T < Day T')"
  shows "day_number T < day_number T'"
  using assms(3)
proof (elim disjE conjE)
  assume "Year T < Year T'"
  then have "days_of_years (Suc (Year T - 1970)) \<le> days_of_years (Year T' - 1970)"
    using assms(1) by (intro days_of_years_mono) (auto simp: valid_time_def)
  then show ?thesis using day_in_year(2) [OF assms(1)] by (simp add: day_number_def)
next
  assume y: "Year T = Year T'" and "Month T < Month T'"
  then have "CumulativeDays (IsLeap (Year T)) ! Suc (Month T) \<le> CumulativeDays (IsLeap (Year T)) ! Month T'"
    using assms(2) by (intro CumulativeDays_mono) (auto simp: valid_time_def)
  then show ?thesis using day_in_year(1) [OF assms(1)] y by (simp add: day_number_def)
next
  assume "Year T = Year T'" "Month T = Month T'" "Day T < Day T'"
  then show ?thesis using assms(1) by (auto simp: day_number_def valid_time_def)
qed

lemma earlier_seconds:
  assumes "valid_time T" "valid_time T'" "earlier T T'"
  shows "day_number T * SECSPERDAY + second_of_day T < day_number T' * SECSPERDAY + second_of_day T'"
proof (cases "Year T < Year T' \<or> Year T = Year T' \<and> (Month T < Month T' \<or> Month T = Month T' \<and> Day T < Day T')")
  case True
  then have "Suc (day_number T) \<le> day_number T'" using later_day [OF assms(1,2)] by simp
  then have "Suc (day_number T) * SECSPERDAY \<le> day_number T' * SECSPERDAY" by (rule mult_le_mono1)
  moreover have "second_of_day T < SECSPERDAY"
    using assms(1) by (auto simp: valid_time_def second_of_day_def SECSPERDAY_def SECSPERHOUR_def)
  ultimately show ?thesis by simp
next
  case False
  then have "Year T = Year T'" "Month T = Month T'" "Day T = Day T'" "second_of_day T < second_of_day T'"
    using assms by (auto simp: earlier_def valid_time_def second_of_day_def)
  then show ?thesis by (simp add: day_number_def)
qed

lemma sint_small: "n < 2 ^ 31 \<Longrightarrow> sint (of_nat n :: u32) = int n"
  by (simp add: signed_of_nat signed_take_bit_int_eq_self)

text \<open>C39: on the dates of the calendar from 1970 to 2037 the time stamps, compared as signed 32-bit numbers the way
  the time checks do, are in the order of the dates; no sum wraps around.\<close>

theorem os_mktime_order:
  assumes "valid_time T" "valid_time T'"
  shows "sint (snd (os_mktime T)) < sint (snd (os_mktime T')) \<longleftrightarrow> earlier T T'"
proof -
  let ?s = "\<lambda>T. day_number T * SECSPERDAY + second_of_day T"
  have v: "sint (snd (os_mktime T)) = int (?s T)" if "valid_time T" for T
    using os_mktime_seconds(1) [OF that] sint_small [OF os_mktime_seconds(2) [OF that]] by (simp only: snd_conv)
  have "earlier T T' \<or> earlier T' T \<or> ?s T = ?s T'"
    by (auto simp: earlier_def day_number_def second_of_day_def)
  then have "?s T < ?s T' \<longleftrightarrow> earlier T T'"
    using earlier_seconds [OF assms] earlier_seconds [OF assms(2,1)] by (metis less_asym less_irrefl)
  then show ?thesis unfolding v [OF assms(1)] v [OF assms(2)] of_nat_less_iff .
qed

theorem os_mktime_order_witness:
  "sint (snd (os_mktime \<lparr>Year = 2016, Month = 2, Day = 29, Hour = 23, Minute = 59, Second = 59\<rparr>))
     < sint (snd (os_mktime \<lparr>Year = 2016, Month = 3, Day = 1, Hour = 0, Minute = 0, Second = 0\<rparr>))"
proof -
  have "valid_time \<lparr>Year = 2016, Month = 2, Day = 29, Hour = 23, Minute = 59, Second = 59\<rparr>"
    "valid_time \<lparr>Year = 2016, Month = 3, Day = 1, Hour = 0, Minute = 0, Second = 0\<rparr>"
    by code_simp+
  from os_mktime_order [OF this] show ?thesis by (simp add: earlier_def)
qed

text \<open>In 2038 the stamp becomes negative: an update with a later date is then refused.\<close>

lemma os_mktime_2038:
  "os_mktime \<lparr>Year = 2038, Month = 1, Day = 20, Hour = 0, Minute = 0, Second = 0\<rparr> = (False, 0x80012400)"
proof -
  have "add_years 68 1970 0 = of_nat (days_of_years 68 * SECSPERDAY)" using add_years_days [of 68 0] by simp
  moreover have "days_of_years 68 = 24837" by code_simp
  ultimately show ?thesis by (simp add: os_mktime_def CumulativeDays_def SECSPERDAY_def SECSPERHOUR_def)
qed

end
