(* ===== verification/AuthExample.thy ===== *)
theory AuthExample
  imports NvramServiceFacts NvramCreate AuthVerifyFacts
begin

text \<open>
  Sample data for the authenticated variables: a store that holds a platform key, a signed header for \<^verbatim>\<open>KEK\<close>
  and a signature protocol in which a certificate is the key it was made with.
\<close>

definition ex_Pkcs7 :: "PKCS7_OP \<Rightarrow> u8 list \<Rightarrow> u8 list \<Rightarrow> u8 list \<Rightarrow> efi_status \<times> u8 list" where
  "ex_Pkcs7 Operation Cert TrustCert Data =
     (if Operation = Pkcs7GetDigestAlgorithm then (EFI_SUCCESS, [SHA256])
      else if Operation = Pkcs7GetSignerCert then (EFI_SUCCESS, Cert)
      else if Cert \<noteq> TrustCert then (EFI_SECURITY_VIOLATION, Data)
      else if Operation = Pkcs7CertValidate then (EFI_SUCCESS, Data)
      else if Operation = Pkcs7CertValidateGetSignerCert then (EFI_SUCCESS, Cert)
      else (EFI_SUCCESS, take 32 (Cert @ replicate 32 0)))"

definition ex_auth_env :: auth_env where
  "ex_auth_env =
     \<lparr>ae_se = ex_serv_env\<lparr>se_get_hooks := [\<lambda>_. gr_fail EFI_NOT_FOUND]\<rparr>, ae_located = True,
      ae_Hash = (\<lambda>_ _. (EFI_SUCCESS, replicate 32 1)), ae_Pkcs1Verify = (\<lambda>_ _ _. EFI_SUCCESS),
      ae_Pkcs7Verify = ex_Pkcs7, ae_SetVariable = (\<lambda>_ st. Some (EFI_SUCCESS, st))\<rparr>"

text \<open>A list with one signature, and a header of 41 bytes: 1 January 2014, with the one-byte certificate 7.\<close>

definition ex_sig_list :: "u8 list \<Rightarrow> u8 list \<Rightarrow> u8 list" where
  "ex_sig_list type Data = type @ le_bytes 4 (44 + length Data) @ le_bytes 4 0 @ le_bytes 4 (16 + length Data) @ replicate 16 0 @ Data"

definition ex_header :: "u8 list" where
  "ex_header = le_bytes 2 2014 @ [1, 1] @ replicate 12 0 @ le_bytes 4 25 @ le_bytes 2 0x200 @ le_bytes 2 0x0EF1
     @ gEfiCertPkcs7Guid @ [7]"

definition ex_request :: "u8 list" where
  "ex_request = ex_header @ ex_sig_list gEfiCertSha256Guid (replicate 32 5)"

definition ex_pk_record :: "u8 list" where
  "ex_pk_record = [0x4E, 0x56, 0x41, 0x52, 102, 0, 0xFF, 0xFF, 0xFF, 0xD3, 0, 0x50, 0x4B, 0]
     @ ex_sig_list gEfiCertX509Guid [7] @ [0x20] @ replicate 40 0 @ [43, 0]"

definition ex_auth_mem :: "bool \<Rightarrow> memory" where
  "ex_auth_mem pk a =
     (if a < 0x200 then 0xFF
      else if a < 0x200 + 117 then ex_request ! (a - 0x200)
      else if \<not> pk \<or> a < 0x10000 then 0xFF
      else if a < 0x10000 + 102 then ex_pk_record ! (a - 0x10000)
      else if a < 0x103F0 then 0xFF
      else gEfiGlobalVariableGuid ! (a - 0x103F0))"

definition ex_auth_info :: "bool \<Rightarrow> NVRAM_STORE_INFO" where
  "ex_auth_info pk = (if pk then blank_info\<lparr>pEndOfVars := 0x10000 + 102, NextGuid := 1, LastVarSize := 102\<rparr> else blank_info)"

definition ex_auth_state :: "bool \<Rightarrow> auth_state" where
  "ex_auth_state pk =
     \<lparr>mPlatformMode = 0, mSetupMode = 0, mCustomMode = False, PublicKeyHashArray = replicate 32 0,
      mSecureBootSetup = replicate 7 0,
      au_s = ex_service\<lparr>sv_d := (sv_d ex_service)\<lparr>d_mem := ex_auth_mem pk,
         d_vs := (d_vs (sv_d ex_service))\<lparr>NvramInfo := [ex_auth_info pk]\<rparr>\<rparr>\<rparr>\<rparr>"

abbreviation ex_verify :: "bool \<Rightarrow> u32 \<Rightarrow> nat \<Rightarrow> (efi_status \<times> nat \<times> nat \<times> EXT_SEC_FLAGS \<times> auth_state) option" where
  "ex_verify pk A Old \<equiv> VerifyVariable ex_auth_env EFI_KEY_EXCHANGE_KEY_NAME gEfiGlobalVariableGuid A 0x200 117 Old 0
      no_ext_flags (ex_auth_state pk)"

section \<open>A signed write to KEK\<close>

abbreviation ex_user_mode :: auth_state where
  "ex_user_mode \<equiv> (ex_auth_state True)\<lparr>mCustomMode := False, mPlatformMode := USER_MODE\<rparr>"

abbreviation ex_signed :: auth_state where
  "ex_signed \<equiv> ex_user_mode\<lparr>PublicKeyHashArray := replicate 32 1\<rparr>"

lemma ex_find_PK:
  "find_variable EFI_PLATFORM_KEY_NAME gEfiGlobalVariableGuid (ex_auth_state True) = (EFI_SUCCESS, 0x27, Some (0x1000E, 45))"
  by code_simp

lemma ex_platform_mode:
  "GetPlatformMode ((ex_auth_state True)\<lparr>mCustomMode := False\<rparr>) = (EFI_SUCCESS, ex_user_mode)"
  "mPlatformMode (snd (GetPlatformMode (ex_auth_state True))) = USER_MODE"
  unfolding GetPlatformMode_def find_variable_simps ex_find_PK by (simp_all add: NvramRead.has_def nv_consts)

lemma ex_no_user: "PhysicalUserPresent ex_auth_env st = Some (False, st)"
  by (simp add: PhysicalUserPresent_def get_variable_def DxeGetVariable_def ex_auth_env_def gr_fail_def)

lemma ex_state:
  "au_mem (ex_auth_state pk) = ex_auth_mem pk" "au_mem ex_user_mode = ex_auth_mem True"
  "au_mem (ex_user_mode\<lparr>PublicKeyHashArray := b\<rparr>) = ex_auth_mem True"
  "mPlatformMode ex_user_mode = USER_MODE" "mCustomMode ex_user_mode = False"
  "PublicKeyHashArray ex_user_mode = replicate 32 0" "ex_user_mode\<lparr>mCustomMode := False\<rparr> = ex_user_mode"
  "set_au_mem (ex_auth_mem True) ex_signed = ex_signed"
  by (simp_all add: ex_auth_state_def set_au_mem_def)

lemma ex_header_fields:
  "AUTHINFO_2_SIZE (ex_auth_mem True) 0x200 = 41" "Pkcs7Cert (ex_auth_mem True) 0x200 = [7]"
  "wCertificateType2 (ex_auth_mem True) 0x200 = WIN_CERT_TYPE_EFI_GUID" "CertType2 (ex_auth_mem True) 0x200 = gEfiCertPkcs7Guid"
  "ValidateSignatureList (ex_auth_mem True) 0x229 76 = EFI_SUCCESS"
  "check_time (ex_auth_mem True) 0x200 0x27 0 0 = Some 0x52C35A80"
  by code_simp+

lemma ex_kinds:
  "AuthVarType EFI_KEY_EXCHANGE_KEY_NAME gEfiGlobalVariableGuid = IsKekVarType"
  "\<not> IsPkVar EFI_KEY_EXCHANGE_KEY_NAME gEfiGlobalVariableGuid"
  "NvramRead.has 0x27 EFI_VARIABLE_TIME_BASED_AUTHENTICATED_WRITE_ACCESS" "NvramRead.has 0x27 EFI_VARIABLE_NON_VOLATILE"
  "NvramRead.has 0x27 UEFI23_1_AUTHENTICATED_VARIABLE_ATTRIBUTES" "\<not> NvramRead.has 0x27 EFI_VARIABLE_APPEND_WRITE"
  "(0x27 :: u32) AND UEFI23_1_AUTHENTICATED_VARIABLE_ATTRIBUTES \<noteq> UEFI23_1_AUTHENTICATED_VARIABLE_ATTRIBUTES"
  "USER_MODE \<noteq> SETUP_MODE" "ae_located ex_auth_env" "AuthFlags no_ext_flags = 0"
  by code_simp+

lemma ex_locked: "mSetupMode (ex_auth_state pk) \<noteq> SETUP_MODE"
  by (simp add: ex_auth_state_def SETUP_MODE_def)

lemma ex_digest:
  "ConstructDataParameter ex_auth_env (ex_auth_mem True) EFI_KEY_EXCHANGE_KEY_NAME gEfiGlobalVariableGuid 0x27 0x200 117 (replicate 32 0)
     = (EFI_SUCCESS, 32, replicate 32 1)"
  by (simp add: ConstructDataParameter_def ex_header_fields ex_auth_env_def ex_Pkcs7_def overlay_def HASH_SHA256_LEN_def
      SHA1_def SHA256_def)

lemma ex_signature: "ProcessVarWithPk2 ex_auth_env [7] (replicate 32 1) (ex_user_mode\<lparr>PublicKeyHashArray := b\<rparr>) = EFI_SUCCESS"
proof -
  have "ProcessVarWithPk2 ex_auth_env [7] (replicate 32 1) ex_user_mode = EFI_SUCCESS"
    unfolding ProcessVarWithPk2_def find_variable_simps ex_find_PK by (simp add: ex_state) code_simp
  then show ?thesis by (simp add: ProcessVarWithPk2_def)
qed

lemma ex_verified:
  "VerifyVariable2 ex_auth_env EFI_KEY_EXCHANGE_KEY_NAME gEfiGlobalVariableGuid 0x27 0x200 117 0 no_ext_flags ex_user_mode
     = Some (EFI_SUCCESS, 0x229, 76, no_ext_flags\<lparr>Mc := 0x52C35A80\<rparr>, ex_signed)"
  unfolding VerifyVariable2_def ex_kinds(1) Let_def ex_state ex_header_fields(1-4)
  by (simp add: ex_header_fields ex_digest ex_kinds no_ext_flags_def check_lists2_def ex_signature accept_lists_def
      uintn_sub_def ex_state del: auth_state.simps)

lemma ex_run: "ex_verify True 0x27 0 = Some (EFI_SUCCESS, 0x229, 76, no_ext_flags\<lparr>Mc := 0x52C35A80\<rparr>, ex_signed)"
proof -
  have "verify_header ex_auth_env EFI_KEY_EXCHANGE_KEY_NAME gEfiGlobalVariableGuid 0x27 0x200 117 0 no_ext_flags ex_user_mode
      = Some (EFI_SUCCESS, 0x229, 76, no_ext_flags\<lparr>Mc := 0x52C35A80\<rparr>, ex_signed)"
    unfolding verify_header_def if_P [OF ex_kinds(3)] by (rule ex_verified)
  then show ?thesis
    unfolding VerifyVariable_def Let_def if_not_P [OF ex_locked] ex_platform_mode ex_no_user ex_kinds(10)
    by (simp add: ex_kinds verify_and_find_def FindInSignatureDb_no_append ex_state)
qed

end
