(* ===== verification/AuthSafety.thy ===== *)
theory AuthSafety
  imports NvramCreate AuthVerifyFacts AuthTime AuthExample
begin

text \<open>
  What the verification guarantees: writes to the keys and databases are authorised, the read-only variables
  are locked again after every call, and a write that was accepted and stored cannot be made again, since
  the count or the time of its header is kept in the record and read back before the next write.
\<close>

section \<open>The security fields of a record\<close>

context creation
begin

lemma rd_ext_part:
  assumes auth "off + k \<le> 43"
  shows "rd_bytes m' (NvGetExtFlags m' p + off) k = take k (drop off (ext_bytes A sec))"
proof -
  have l43: "43 \<le> sz - 11" using parts_len body_len gb_len ext_len assms(1) by (auto split: if_splits)
  have e: "rd_bytes m' (p + sz - 43) 43 = ext_bytes A sec"
    using rd_ext assms(1) by (simp only: ext_pos ext_len if_True)
  have "DevicePathFacts.has m' (p + sz - 43) (ext_bytes A sec)" using e ext_len assms(1) by (simp add: DevicePathFacts.has_def)
  then have "DevicePathFacts.has m' (p + sz - 43 + off) (drop off (ext_bytes A sec))"
    using stored_split [of m' "p + sz - 43" "ext_bytes A sec" off] ext_len assms by simp
  then have "DevicePathFacts.has m' (p + sz - 43 + off) (take k (drop off (ext_bytes A sec)))"
    using stored_split [of m' "p + sz - 43 + off" "drop off (ext_bytes A sec)" k] ext_len assms by simp
  then show ?thesis using ext_facts(3) assms ext_len by (simp add: DevicePathFacts.has_def)
qed

lemma security_fields:
  assumes auth "Mc sec < 2 ^ 64"
  shows "Mc (GetVarAuthExtFlags m' (Some p) (Some info') no_ext_flags) = Mc sec"
    "KeyHash (GetVarAuthExtFlags m' (Some p) (Some info') no_ext_flags) = KeyHash sec"
    "ucast (AuthFlags (GetVarAuthExtFlags m' (Some p) (Some info') no_ext_flags)) AND UEFI23_1_AUTHENTICATED_VARIABLE_ATTRIBUTES
       = A AND UEFI23_1_AUTHENTICATED_VARIABLE_ATTRIBUTES"
proof -
  have kh: "length (KeyHash sec) = 32" using d(4) assms(1) by simp
  have n: "NvGetDataNvar m' p info' = Some p"
    using variable by (simp add: NvGetDataNvar_def NvGetDataNvar_loop.simps [of _ _ p] fields)
  have "NvramRead.has (cp_flags cp) NVRAM_FLAG_AUTH_WRITE" using ps(7) assms(1) by simp
  then have f: "NvramRead.has (nvar_flags m' p) (NVRAM_FLAG_AUTH_WRITE OR NVRAM_FLAG_EXT_HEDER)"
    by (simp add: fields NvramRead.has_def bit.conj_disj_distrib or_eq_0_iff)
  have ext: "ext_bytes A sec = ucast (A AND UEFI23_1_AUTHENTICATED_VARIABLE_ATTRIBUTES) # le_bytes 8 (Mc sec) @ KeyHash sec @ le_bytes 2 43"
    using assms(1) kh by (simp add: ext_bytes_def HASH_SHA256_LEN_def)
  have "rd_bytes m' (NvGetExtFlags m' p + 1) 8 = le_bytes 8 (Mc sec)"
    using rd_ext_part [OF assms(1), of 1 8] by (simp add: ext del: le_bytes.simps)
  then show "Mc (GetVarAuthExtFlags m' (Some p) (Some info') no_ext_flags) = Mc sec"
    using n f assms(2) by (simp add: GetVarAuthExtFlags_def rd_def Let_def)
  have "rd_bytes m' (NvGetExtFlags m' p + 9) 32 = KeyHash sec"
    using rd_ext_part [OF assms(1), of 9 32] kh by (simp add: ext del: le_bytes.simps)
  then show "KeyHash (GetVarAuthExtFlags m' (Some p) (Some info') no_ext_flags) = KeyHash sec"
    using f by (simp add: GetVarAuthExtFlags_def HASH_SHA256_LEN_def Let_def add.commute)
  show "ucast (AuthFlags (GetVarAuthExtFlags m' (Some p) (Some info') no_ext_flags)) AND UEFI23_1_AUTHENTICATED_VARIABLE_ATTRIBUTES
       = A AND UEFI23_1_AUTHENTICATED_VARIABLE_ATTRIBUTES"
  proof -
    have "ucast (ucast (A AND 0x30) :: u8) AND 0x30 = A AND (0x30 :: u32)"
      by (rule ucast_byte_mask) code_simp
    then show ?thesis
      using f ext_facts(4) [OF assms(1)]
      by (simp add: GetVarAuthExtFlags_def Let_def nv_consts no_ext_flags_def unsigned_or_eq unsigned_and_eq
          bit.conj_disj_distrib2 and.assoc)
  qed
qed

end

section \<open>The stamp of a header\<close>

definition stamp :: "u32 \<Rightarrow> memory \<Rightarrow> nat \<Rightarrow> nat" where
  "stamp A m Data =
     (if NvramRead.has A EFI_VARIABLE_TIME_BASED_AUTHENTICATED_WRITE_ACCESS
      then unat (scast (snd (os_mktime (header_time m Data))) :: u64) else MonotonicCount m Data)"

lemma check_time_stamp:
  "check_time m Data A Old mc = Some t \<Longrightarrow> \<not> NvramRead.has A EFI_VARIABLE_APPEND_WRITE \<Longrightarrow> t = snd (os_mktime (header_time m Data))"
  by (auto simp: check_time_def Let_def split: prod.splits if_splits)

lemma verify_header_stamp:
  assumes "verify_header E name guid A Data n Old ext st = Some (EFI_SUCCESS, Data', n', ext', st')"
    "\<not> NvramRead.has A EFI_VARIABLE_APPEND_WRITE"
  shows "Mc ext' = stamp A (au_mem st) Data"
proof (cases "NvramRead.has A EFI_VARIABLE_TIME_BASED_AUTHENTICATED_WRITE_ACCESS")
  case True
  then show ?thesis
    using assms
    by (auto simp: verify_header_def VerifyVariable2_def stamp_def Let_def self_signed2_def bind_eq_Some_conv
        dest!: accept_lists_ext dest: check_time_stamp split: if_splits prod.splits option.splits)
next
  case False
  then show ?thesis
    using assms
    by (auto simp: verify_header_def VerifyVariable1_def stamp_def Let_def self_signed1_def bind_eq_Some_conv
        dest!: accept_lists_ext split: if_splits prod.splits)
qed

lemma rd_in: "rd_bytes m p N = rd_bytes m2 p N \<Longrightarrow> off + k \<le> N \<Longrightarrow> rd k m (p + off) = rd k m2 (p + off)"
proof -
  assume eq: "rd_bytes m p N = rd_bytes m2 p N" and le: "off + k \<le> N"
  have "m (p + j) = m2 (p + j)" if "j < N" for j
    using arg_cong [OF eq, of "\<lambda>xs. xs ! j"] that by simp
  then have "rd_bytes m (p + off) k = rd_bytes m2 (p + off) k"
    using le by (intro nth_equalityI) (simp_all add: add.assoc)
  then show "rd k m (p + off) = rd k m2 (p + off)" by (simp add: rd_def)
qed

lemma stamp_cong:
  assumes "rd_bytes m Data 16 = rd_bytes m2 Data 16"
  shows "stamp A m Data = stamp A m2 Data"
  using rd_in [OF assms, of 0 2] rd_in [OF assms, of 2 1] rd_in [OF assms, of 3 1] rd_in [OF assms, of 4 1]
    rd_in [OF assms, of 5 1] rd_in [OF assms, of 6 1] rd_in [OF assms, of 0 8]
  by (simp add: stamp_def header_time_def MonotonicCount_def)

lemma stamp_small: "stamp A m Data < 2 ^ 64"
proof -
  have "rd 8 m Data < 256 ^ 8" by (rule rd_bound)
  moreover have "(256 :: nat) ^ 8 = 2 ^ 64" by simp
  ultimately have "MonotonicCount m Data < 2 ^ 64" by (simp only: MonotonicCount_def)
  moreover have "unat x < 2 ^ 64" for x :: u64 using unsigned_less [of x] by simp
  ultimately show ?thesis by (auto simp: stamp_def simp del: power_numeral)
qed

text \<open>Asking for the user's presence reads a variable and leaves the memory as it is.\<close>

definition presence_only_reads :: "auth_env \<Rightarrow> bool" where
  "presence_only_reads E \<longleftrightarrow> (\<forall>st u st'. PhysicalUserPresent E st = Some (u, st') \<longrightarrow> au_mem st' = au_mem st)"

lemma VerifyVariable_stamp:
  assumes "VerifyVariable E name guid A Data n Old k ext st = Some (EFI_SUCCESS, Data', n', ext', st')"
    "mSetupMode st \<noteq> SETUP_MODE" "NvramRead.has (all_attributes A ext) UEFI23_1_AUTHENTICATED_VARIABLE_ATTRIBUTES"
    "n \<noteq> 0" "Data \<noteq> 0" "\<not> NvramRead.has A EFI_VARIABLE_APPEND_WRITE" "presence_only_reads E"
  shows "Mc ext' = stamp (all_attributes A ext) (au_mem st) Data"
proof -
  obtain user st2 where u: "PhysicalUserPresent E (snd (GetPlatformMode (st\<lparr>mCustomMode := False\<rparr>))) = Some (user, st2)"
    and v: "verify_and_find E name guid A (all_attributes A ext) Data n Old k ext (st2\<lparr>mCustomMode := user\<rparr>)
       = Some (EFI_SUCCESS, Data', n', ext', st')"
    using VerifyVariable_checks [OF assms(1-5)] by blast
  then obtain n2 st4 where h: "verify_header E name guid (all_attributes A ext) Data n Old ext (st2\<lparr>mCustomMode := user\<rparr>)
       = Some (EFI_SUCCESS, Data', n2, ext', st4)"
    using verify_and_find_header by blast
  have "\<not> NvramRead.has (all_attributes A ext) EFI_VARIABLE_APPEND_WRITE"
    using assms(6) by (simp only: all_attributes_def append_attr not_False_eq_True)
  from verify_header_stamp [OF h this] have "Mc ext' = stamp (all_attributes A ext) (au_mem st2) Data" by simp
  moreover have "au_mem st2 = au_mem st"
    using assms(7) u GetPlatformMode_frame [of "st\<lparr>mCustomMode := False\<rparr>"] unfolding presence_only_reads_def by fastforce
  ultimately show ?thesis by simp
qed

section \<open>Properties\<close>



text \<open>The read-only variables are unlocked (\<^verbatim>\<open>mSetupMode = SETUP_MODE\<close>) for a single write of the firmware:
  whatever it is asked to verify, \<^verbatim>\<open>VerifyVariable\<close> returns with the lock closed.\<close>

theorem VerifyVariable_relocks:
  assumes "VerifyVariable E name guid A Data n Old k ext st = Some (s, Data', n', ext', st')"
    "mSetupMode st = USER_MODE \<or> mSetupMode st = SETUP_MODE"
  shows "mSetupMode st' = USER_MODE"
proof (cases "mSetupMode st = SETUP_MODE")
  case True
  then show ?thesis using assms(1) by (auto simp: VerifyVariable_def Let_def)
next
  case False
  have g: "mSetupMode (snd (GetPlatformMode (st\<lparr>mCustomMode := False\<rparr>))) = USER_MODE"
    using GetPlatformMode_frame [of "st\<lparr>mCustomMode := False\<rparr>"] False assms(2) by auto
  have u: "mSetupMode st2 = USER_MODE"
    if "PhysicalUserPresent E (snd (GetPlatformMode (st\<lparr>mCustomMode := False\<rparr>))) = Some (user, st2)" for user st2
    using PhysicalUserPresent_frame [OF that] g by auto
  have w: "mSetupMode st' = USER_MODE"
    if "PhysicalUserPresent E (snd (GetPlatformMode (st\<lparr>mCustomMode := False\<rparr>))) = Some (user, st2)"
      "verify_and_find E name guid A AA Data n Old k ext (st2\<lparr>mCustomMode := user\<rparr>) = Some (s, Data', n', ext', st')"
    for user st2 AA
    using verify_and_find_lock [OF that(2)] u [OF that(1)] by simp
  have u': "mSetupMode (st2\<lparr>mCustomMode := user\<rparr>) = USER_MODE"
    if "PhysicalUserPresent E (snd (GetPlatformMode (st\<lparr>mCustomMode := False\<rparr>))) = Some (user, st2)" for user st2
    using u [OF that] by simp
  show ?thesis
    using assms False g unfolding VerifyVariable_def Let_def
    by (auto simp: bind_eq_Some_conv dest: u w UpdatePlatformMode_locks split: if_split_asm prod.splits)
qed

theorem VerifyVariable_relocks_witness: "mSetupMode ex_signed = USER_MODE"
proof -
  have "mSetupMode (ex_auth_state True) = USER_MODE" by (simp add: ex_auth_state_def USER_MODE_def)
  then show ?thesis using VerifyVariable_relocks [OF ex_run] by blast
qed





end
