(* ===== verification/AuthService.thy ===== *)
theory AuthService
  imports AuthSafety
begin

text \<open>
  \<^verbatim>\<open>SetVariable\<close> together with the verification: the service of \<open>NvramService\<close>, which has the verification as
  a parameter, composed with \<^verbatim>\<open>VerifyVariable\<close>, which calls the service again for the variable \<^verbatim>\<open>SetupMode\<close>.
\<close>

section \<open>The composition\<close>

text \<open>The part of \<^verbatim>\<open>DxeSetVariable\<close> before the verification: the answer, or the variable, its store, the
  current data, the security fields and the driver.\<close>

definition set_front ::
    "serv_env \<Rightarrow> set_args \<Rightarrow> service
       \<Rightarrow> ((efi_status \<times> service) + (set_target \<times> nat \<times> VARIABLE_INTERFACE \<times> (nat \<times> nat) \<times> EXT_SEC_FLAGS \<times> driver)) option" where
  "set_front se a s =
     (if set_args_bad s a then Some (Inl (EFI_INVALID_PARAMETER, s))
      else
        let name = the (sa_VariableName a); guid = the (sa_VendorGuid a); Attributes = sa_Attributes a in
        if guid = gEfiGlobalVariableGuid \<and> VarNotInEfiGlobalVarList name Attributes
        then Some (Inl (EFI_INVALID_PARAMETER, s))
        else
          let h = SetVariableHook (se_set_hooks se) a in
          if h \<noteq> EFI_UNSUPPORTED then Some (Inl (h, s))
          else if sa_DataSize a > MAX_NVRAM_VARIABLE_SIZE then Some (Inl (EFI_OUT_OF_RESOURCES, s))
          else do {
            d1 \<leftarrow> CheckStore (se_ne se) (se_New0 se) False (sv_d s);
            let (t, d2) = find_target name guid d1;
            let s2 = s\<lparr>sv_d := d2\<rparr>;
            let m = d_mem d2;
            if (case st_Var t of
                  Some v \<Rightarrow> AreBtVariablesHidden s2 \<and> \<not> NvramRead.has (nvar_flags m v) NVRAM_FLAG_RUNTIME
                | None \<Rightarrow> False)
            then Some (Inl (EFI_INVALID_PARAMETER, s2))
            else case target_store t Attributes (d_vs d2) of
                   None \<Rightarrow> Some (Inl (EFI_INVALID_PARAMETER, s2))
                 | Some (k, i) \<Rightarrow>
                     let info = NvramInfo (d_vs d2) ! k;
                         sec = (if st_Var t = None then no_ext_flags
                                else GetVarAuthExtFlags m (st_Var t) (Some info) no_ext_flags)
                     in do {
                       Old \<leftarrow> old_data t m info;
                       Some (Inr (t, k, i, Old, sec, d2))
                     }
          })"

lemma DxeSetVariable_front:
  "DxeSetVariable se a s =
     do {
       r \<leftarrow> set_front se a s;
       case r of
         Inl x \<Rightarrow> Some x
       | Inr (t, k, i, Old, sec, d) \<Rightarrow>
           let name = the (sa_VariableName a); guid = the (sa_VendorGuid a);
               (st, Attributes', Data', sec') =
                 se_VerifyVariable se name guid (sa_Attributes a)
                   (take (sa_DataSize a) (case sa_Data a of Some x \<Rightarrow> x | None \<Rightarrow> []))
                   (rd_bytes (d_mem d) (fst Old) (snd Old)) sec
           in if EFI_ERROR st then Some (if st = EFI_ALREADY_STARTED then EFI_SUCCESS else st, s\<lparr>sv_d := d\<rparr>)
              else do {
                (st', d3) \<leftarrow> set_verified se t k i Old name guid Attributes' Data' sec' d;
                Some (st', s\<lparr>sv_d := d3\<rparr>)
              }
     }"
proof (cases "CheckStore (se_ne se) (se_New0 se) False (sv_d s)")
  case None
  then show ?thesis by (simp add: DxeSetVariable_def set_front_def Let_def)
next
  case (Some d1)
  show ?thesis
  proof (cases "find_target (the (sa_VariableName a)) (the (sa_VendorGuid a)) d1")
    case (Pair t d2)
    show ?thesis
      by (cases "target_store t (sa_Attributes a) (d_vs d2)")
         (auto simp: DxeSetVariable_def set_front_def Let_def Some Pair bind_eq_Some_conv split: Option.bind_splits)
  qed
qed

text \<open>\<open>Data\<close> is the address of the caller's data.\<close>

definition AuthSetVariable :: "auth_env \<Rightarrow> set_args \<Rightarrow> nat \<Rightarrow> auth_state \<Rightarrow> (efi_status \<times> auth_state) option" where
  "AuthSetVariable E a Data st =
     do {
       r \<leftarrow> set_front (ae_se E) a (au_s st);
       case r of
         Inl (Status, s) \<Rightarrow> Some (Status, st\<lparr>au_s := s\<rparr>)
       | Inr (t, k, i, Old, sec, d) \<Rightarrow>
           let name = the (sa_VariableName a); guid = the (sa_VendorGuid a) in
           do {
             (Status, Data', DataSize', sec', st') \<leftarrow>
               VerifyVariable E name guid (sa_Attributes a) Data (sa_DataSize a) (fst Old) (snd Old) sec
                 (st\<lparr>au_s := (au_s st)\<lparr>sv_d := d\<rparr>\<rparr>);
             if EFI_ERROR Status
             then Some (if Status = EFI_ALREADY_STARTED then EFI_SUCCESS else Status, st')
             else do {
               (Status', d') \<leftarrow>
                 set_verified (ae_se E) t k i Old name guid (sa_Attributes a)
                   (rd_bytes (au_mem st') Data' DataSize') sec' (sv_d (au_s st'));
               Some (Status', st'\<lparr>au_s := (au_s st')\<lparr>sv_d := d'\<rparr>\<rparr>)
             }
           }
     }"

text \<open>The service as it is called, \<open>n\<close> calls deep: the data of the call lie at \<open>src 0\<close>, those of the call it
  makes, if it makes one, at \<open>src 1\<close>, and so on.\<close>

fun SetVariable_at ::
    "nat \<Rightarrow> (nat \<Rightarrow> nat) \<Rightarrow> auth_env \<Rightarrow> set_args \<Rightarrow> auth_state \<Rightarrow> (efi_status \<times> auth_state) option" where
  "SetVariable_at 0 src E a st = None"
| "SetVariable_at (Suc n) src E a st =
     (let E' = E\<lparr>ae_SetVariable := SetVariable_at n (\<lambda>i. src (Suc i)) E\<rparr> in
      case sa_Data a of
        None \<Rightarrow> AuthSetVariable E' a 0 st
      | Some bs \<Rightarrow> AuthSetVariable E' a (src 0) (set_au_mem (wr_bytes (au_mem st) (src 0) bs) st))"

section \<open>The depth of the calls\<close>

lemma env_fields:
  "ae_se (E\<lparr>ae_SetVariable := f\<rparr>) = ae_se E" "ae_located (E\<lparr>ae_SetVariable := f\<rparr>) = ae_located E"
  "ae_Hash (E\<lparr>ae_SetVariable := f\<rparr>) = ae_Hash E" "ae_Pkcs1Verify (E\<lparr>ae_SetVariable := f\<rparr>) = ae_Pkcs1Verify E"
  "ae_Pkcs7Verify (E\<lparr>ae_SetVariable := f\<rparr>) = ae_Pkcs7Verify E"
  by simp_all

lemma env_routines1:
  "get_variable (E\<lparr>ae_SetVariable := f\<rparr>) = get_variable E"
  "VerifyDataPayload (E\<lparr>ae_SetVariable := f\<rparr>) = VerifyDataPayload E"
  "ProcessVarWithPk2 (E\<lparr>ae_SetVariable := f\<rparr>) = ProcessVarWithPk2 E"
  "ValidateSelfSigned (E\<lparr>ae_SetVariable := f\<rparr>) = ValidateSelfSigned E"
  "ConstructDataParameter (E\<lparr>ae_SetVariable := f\<rparr>) = ConstructDataParameter E"
  unfolding fun_eq_iff get_variable_def VerifyDataPayload_def ProcessVarWithPk2_def ValidateSelfSigned_def
    ConstructDataParameter_def env_fields by (rule allI refl)+

lemma env_routines2:
  "PhysicalUserPresent (E\<lparr>ae_SetVariable := f\<rparr>) = PhysicalUserPresent E"
  "ProcessVarWithPk (E\<lparr>ae_SetVariable := f\<rparr>) = ProcessVarWithPk E"
  "ProcessVarWithKek (E\<lparr>ae_SetVariable := f\<rparr>) = ProcessVarWithKek E"
  "self_signed1 (E\<lparr>ae_SetVariable := f\<rparr>) = self_signed1 E"
  "self_signed2 (E\<lparr>ae_SetVariable := f\<rparr>) = self_signed2 E"
  unfolding fun_eq_iff PhysicalUserPresent_def ProcessVarWithPk_def ProcessVarWithKek_def self_signed1_def self_signed2_def
    env_fields env_routines1 by (rule allI refl)+

lemma kek_items2_env: "kek_items2 (E\<lparr>ae_SetVariable := f\<rparr>) C m s n i d = kek_items2 E C m s n i d"
  by (induction n arbitrary: i d) (auto split: prod.splits)

lemma kek_lists2_env_Some:
  assumes "kek_lists2 E C m p k d = Some r"
  shows "kek_lists2 (E\<lparr>ae_SetVariable := f\<rparr>) C m p k d = Some r"
proof (rule kek_lists2.raw_induct [OF _ assms, where P = "\<lambda>E C m p k d r. kek_lists2 (E\<lparr>ae_SetVariable := f\<rparr>) C m p k d = Some r"])
  fix g E C m p k d r
  assume IH: "\<And>E C m p k d r. g E C m p k d = Some r \<Longrightarrow> kek_lists2 (E\<lparr>ae_SetVariable := f\<rparr>) C m p k d = Some r"
    and run: "(if 0 < k \<and> SignatureListSize m p \<le> k
         then (if SignatureType m p = gEfiCertX509Guid
               then map_option (\<lambda>n. kek_items2 E C m (SignatureSize m p) n (first_signature m p) d) (signature_count m p)
               else Some (False, d)) \<bind>
              (\<lambda>(IsFound, Digest'). if IsFound then Some True
                 else g E C m (p + SignatureListSize m p) (uintn_sub k (SignatureListSize m p)) Digest')
         else Some False) = Some r"
  then show "kek_lists2 (E\<lparr>ae_SetVariable := f\<rparr>) C m p k d = Some r"
    by (subst kek_lists2.simps) (auto simp: kek_items2_env bind_eq_Some_conv split: if_splits)
qed

lemma kek_lists2_env: "kek_lists2 (E\<lparr>ae_SetVariable := f\<rparr>) = kek_lists2 E"
proof (intro ext)
  fix C m p k d
  show "kek_lists2 (E\<lparr>ae_SetVariable := f\<rparr>) C m p k d = kek_lists2 E C m p k d"
    using kek_lists2_env_Some [of "E\<lparr>ae_SetVariable := f\<rparr>" C m p k d _ "ae_SetVariable E"] kek_lists2_env_Some [of E C m p k d _ f]
    by (cases "kek_lists2 E C m p k d"; cases "kek_lists2 (E\<lparr>ae_SetVariable := f\<rparr>) C m p k d") auto
qed

lemma env_routines3:
  "ProcessVarWithKek2 (E\<lparr>ae_SetVariable := f\<rparr>) = ProcessVarWithKek2 E"
  "check_lists2 (E\<lparr>ae_SetVariable := f\<rparr>) = check_lists2 E"
  unfolding fun_eq_iff ProcessVarWithKek2_def check_lists2_def kek_lists2_env env_routines1 by (rule allI refl)+

lemmas env_routines = env_fields env_routines1 env_routines2 env_routines3

text \<open>The service is only called with the lock of the read-only variables open.\<close>

definition same_unlocked ::
    "(set_args \<Rightarrow> auth_state \<Rightarrow> (efi_status \<times> auth_state) option) \<Rightarrow> (set_args \<Rightarrow> auth_state \<Rightarrow> (efi_status \<times> auth_state) option) \<Rightarrow> bool"
    where
  "same_unlocked f g \<longleftrightarrow> (\<forall>a st. mSetupMode st = SETUP_MODE \<longrightarrow> f a st = g a st)"

lemma UpdatePlatformMode_env:
  "same_unlocked f g \<Longrightarrow> UpdatePlatformMode (E\<lparr>ae_SetVariable := f\<rparr>) M st = UpdatePlatformMode (E\<lparr>ae_SetVariable := g\<rparr>) M st"
  by (simp add: UpdatePlatformMode_def set_variable_def same_unlocked_def)

lemma VerifyVariable_env:
  assumes "same_unlocked f g"
  shows "VerifyVariable (E\<lparr>ae_SetVariable := f\<rparr>) = VerifyVariable (E\<lparr>ae_SetVariable := g\<rparr>)"
proof -
  note u = UpdatePlatformMode_env [OF assms, of E]
  have a: "accept_lists (E\<lparr>ae_SetVariable := f\<rparr>) = accept_lists (E\<lparr>ae_SetVariable := g\<rparr>)"
    unfolding fun_eq_iff accept_lists_def u by (rule allI refl)+
  have v: "VerifyVariable1 (E\<lparr>ae_SetVariable := f\<rparr>) = VerifyVariable1 (E\<lparr>ae_SetVariable := g\<rparr>)"
    "VerifyVariable2 (E\<lparr>ae_SetVariable := f\<rparr>) = VerifyVariable2 (E\<lparr>ae_SetVariable := g\<rparr>)"
    unfolding fun_eq_iff VerifyVariable1_def VerifyVariable2_def env_routines a by (rule allI refl)+
  have "verify_and_find (E\<lparr>ae_SetVariable := f\<rparr>) = verify_and_find (E\<lparr>ae_SetVariable := g\<rparr>)"
    unfolding fun_eq_iff verify_and_find_def verify_header_def v by (rule allI refl)+
  note w = this
  show ?thesis unfolding fun_eq_iff VerifyVariable_def env_routines u w by (rule allI refl)+
qed

lemma AuthSetVariable_env:
  "same_unlocked f g \<Longrightarrow> AuthSetVariable (E\<lparr>ae_SetVariable := f\<rparr>) = AuthSetVariable (E\<lparr>ae_SetVariable := g\<rparr>)"
  unfolding fun_eq_iff AuthSetVariable_def env_fields by (simp add: VerifyVariable_env)

text \<open>A call with the lock open makes no further call.\<close>

lemma unlocked_no_call:
  assumes "mSetupMode st = SETUP_MODE"
  shows "AuthSetVariable (E\<lparr>ae_SetVariable := f\<rparr>) a Data st = AuthSetVariable (E\<lparr>ae_SetVariable := g\<rparr>) a Data st"
  unfolding AuthSetVariable_def VerifyVariable_def env_fields by (simp add: assms Let_def)

lemma SetVariable_at_unlocked: "same_unlocked (SetVariable_at (Suc n) src E) (SetVariable_at (Suc k) src E)"
  by (auto simp: same_unlocked_def Let_def set_au_mem_def intro!: unlocked_no_call split: option.split)


section \<open>Unauthorised writes\<close>

lemma accept_lists_refused:
  "accept_lists E IsPk c Data n ext st = Some (s, Data', n', ext', st') \<Longrightarrow> s \<noteq> EFI_SUCCESS \<Longrightarrow> st' = st"
  by (auto simp: accept_lists_def Let_def bind_eq_Some_conv split: if_splits)

lemma verify_header_refused:
  assumes "verify_header E name guid A Data n Old ext st = Some (s, Data', n', ext', st')" "s \<noteq> EFI_SUCCESS"
  shows "au_s st' = au_s st"
proof -
  have "au_s st' = au_s st" if "VerifyVariable1 E name guid A Data n Old ext st = Some (s, Data', n', ext', st')"
    using that assms(2)
    by (auto simp: VerifyVariable1_def Let_def self_signed1_def bind_eq_Some_conv dest!: accept_lists_refused
        split: if_splits prod.splits)
  moreover have "au_s st' = au_s st" if "VerifyVariable2 E name guid A Data n Old ext st = Some (s, Data', n', ext', st')"
    using that assms(2)
    by (auto simp: VerifyVariable2_def Let_def self_signed2_def bind_eq_Some_conv dest!: accept_lists_refused
        split: if_splits prod.splits option.splits)
  ultimately show ?thesis using assms(1) by (auto simp: verify_header_def split: if_splits)
qed

text \<open>What \<^verbatim>\<open>VerifyVariable\<close> does with a write to a key or database variable that is not authorised.\<close>

lemma VerifyVariable_refuses:
  assumes run: "VerifyVariable E name guid A Data n Old k ext st = Some (s, Data', n', ext', st')"
    and "mSetupMode st \<noteq> SETUP_MODE" "NvramRead.has (all_attributes A ext) UEFI23_1_AUTHENTICATED_VARIABLE_ATTRIBUTES"
    "n \<noteq> 0" "Data \<noteq> 0" "AuthVarType name guid \<noteq> IsPrivateVarType"
    "mPlatformMode (snd (GetPlatformMode st)) = USER_MODE"
    and user: "PhysicalUserPresent E (snd (GetPlatformMode (st\<lparr>mCustomMode := False\<rparr>))) = Some (False, st1)" and "keeps_digest E"
    and no: "\<not> authorised E name guid (all_attributes A ext) Data n st1"
  shows "s \<noteq> EFI_SUCCESS" "au_s st' = au_s st \<or> au_s st' = au_s st1"
proof -
  have m: "mPlatformMode (st1\<lparr>mCustomMode := False\<rparr>) \<noteq> SETUP_MODE"
    using PhysicalUserPresent_frame [OF user] assms(7) by (auto simp: USER_MODE_def SETUP_MODE_def)
  have header: "s' \<noteq> EFI_SUCCESS \<and> au_s st2 = au_s st1"
    if "verify_header E name guid (all_attributes A ext) Data n Old ext (st1\<lparr>mCustomMode := False\<rparr>) = Some (s', D, n2, e2, st2)"
    for s' D n2 e2 st2
  proof -
    have "s' \<noteq> EFI_SUCCESS"
      using that no VerifyVariable1_authorised [OF _ m _ assms(6)] VerifyVariable2_authorised [OF _ m _ assms(6,9)]
      by (auto simp: verify_header_def split: if_split_asm)
    then show ?thesis using verify_header_refused [OF that] by simp
  qed
  have find: "s' \<noteq> EFI_SUCCESS \<and> au_s st2 = au_s st1"
    if "verify_and_find E name guid A (all_attributes A ext) Data n Old k ext (st1\<lparr>mCustomMode := False\<rparr>) = Some (s', D, n2, e2, st2)"
    for s' D n2 e2 st2
    using that header by (auto simp: verify_and_find_def bind_eq_Some_conv split: if_split_asm)
  obtain M where g: "snd (GetPlatformMode (st\<lparr>mCustomMode := False\<rparr>)) = st\<lparr>mCustomMode := False, mPlatformMode := M\<rparr>"
    using GetPlatformMode_frame by blast
  have "\<not> (\<not> NvramRead.has A UEFI23_1_AUTHENTICATED_VARIABLE_ATTRIBUTES
      \<and> ucast (AuthFlags ext) AND UEFI23_1_AUTHENTICATED_VARIABLE_ATTRIBUTES = 0)"
    using assms(3) by (auto simp: all_attributes_def)
  then have "s \<noteq> EFI_SUCCESS \<and> (au_s st' = au_s st \<or> au_s st' = au_s st1)"
    using run assms(2,4,5) user find unfolding VerifyVariable_def Let_def all_attributes_def [symmetric] g
    by (auto simp: bind_eq_Some_conv split: if_split_asm)
  then show "s \<noteq> EFI_SUCCESS" "au_s st' = au_s st \<or> au_s st' = au_s st1" by simp_all
qed


definition ex_call :: set_args where
  "ex_call = \<lparr>sa_VariableName = Some EFI_KEY_EXCHANGE_KEY_NAME, sa_VendorGuid = Some gEfiGlobalVariableGuid,
     sa_Attributes = 0x27, sa_DataSize = 117, sa_Data = Some ex_request\<rparr>"

text \<open>A protocol that accepts no signature.\<close>

definition ex_denied_env :: auth_env where
  "ex_denied_env = ex_auth_env\<lparr>ae_Pkcs7Verify := \<lambda>_ _ _ d. (EFI_SECURITY_VIOLATION, d)\<rparr>"

abbreviation ex_new :: set_target where
  "ex_new \<equiv> \<lparr>st_Var = None, st_NameSize = 0, st_NvFound = False, st_Entry = None, st_UpdateIndex = False\<rparr>"

lemma ex_front:
  "set_front (ae_se ex_denied_env) ex_call (au_s (ex_auth_state True))
     = Some (Inr (ex_new, 0, NvInterface, (0, 0), no_ext_flags, sv_d (au_s (ex_auth_state True))))"
proof -
  let ?d = "sv_d (au_s (ex_auth_state True))"
  have c: "CheckStore ne New0 r ?d = Some ?d" for ne New0 r by (rule CheckStore_healthy) code_simp
  have "fst (find_target EFI_KEY_EXCHANGE_KEY_NAME gEfiGlobalVariableGuid ?d) = ex_new" by code_simp
  moreover have "snd (find_target EFI_KEY_EXCHANGE_KEY_NAME gEfiGlobalVariableGuid ?d) = ?d"
    by (simp add: find_target_def IndexFindVariableEntry_def ex_auth_state_def ex_service_def Let_def split: option.split)
  ultimately have f: "find_target EFI_KEY_EXCHANGE_KEY_NAME gEfiGlobalVariableGuid ?d = (ex_new, ?d)" by (metis prod.collapse)
  have "\<not> set_args_bad (au_s (ex_auth_state True)) ex_call"
    "\<not> VarNotInEfiGlobalVarList EFI_KEY_EXCHANGE_KEY_NAME 0x27" "SetVariableHook (se_set_hooks (ae_se ex_denied_env)) ex_call = EFI_UNSUPPORTED"
    "target_store ex_new 0x27 (d_vs ?d) = Some (0, NvInterface)"
    by code_simp+
  then show ?thesis
    by (simp add: set_front_def ex_call_def c f old_data_def MAX_NVRAM_VARIABLE_SIZE_def Let_def)
qed

lemma ex_denied_fields: "PhysicalUserPresent ex_denied_env = PhysicalUserPresent ex_auth_env" "ae_located ex_denied_env"
  by (simp_all add: fun_eq_iff ex_denied_env_def PhysicalUserPresent_def get_variable_def ex_kinds)

lemma ex_denied:
  "VerifyVariable ex_denied_env EFI_KEY_EXCHANGE_KEY_NAME gEfiGlobalVariableGuid 0x27 0x200 117 0 0 no_ext_flags (ex_auth_state True)
     = Some (EFI_SECURITY_VIOLATION, 0x200, 117, no_ext_flags\<lparr>Mc := 0x52C35A80\<rparr>, ex_user_mode)"
proof -
  have "ConstructDataParameter ex_denied_env (ex_auth_mem True) EFI_KEY_EXCHANGE_KEY_NAME gEfiGlobalVariableGuid 0x27 0x200 117 arr
      = (EFI_SECURITY_VIOLATION, 0, arr)" for arr
    by (simp add: ConstructDataParameter_def ex_denied_env_def)
  then have "VerifyVariable2 ex_denied_env EFI_KEY_EXCHANGE_KEY_NAME gEfiGlobalVariableGuid 0x27 0x200 117 0 no_ext_flags ex_user_mode
     = Some (EFI_SECURITY_VIOLATION, 0x200, 117, no_ext_flags\<lparr>Mc := 0x52C35A80\<rparr>, ex_user_mode)"
    unfolding VerifyVariable2_def ex_kinds(1) Let_def ex_state ex_header_fields(1-4)
    by (simp add: ex_header_fields ex_kinds no_ext_flags_def ex_state)
  then have "verify_header ex_denied_env EFI_KEY_EXCHANGE_KEY_NAME gEfiGlobalVariableGuid 0x27 0x200 117 0 no_ext_flags ex_user_mode
     = Some (EFI_SECURITY_VIOLATION, 0x200, 117, no_ext_flags\<lparr>Mc := 0x52C35A80\<rparr>, ex_user_mode)"
    unfolding verify_header_def if_P [OF ex_kinds(3)] .
  then show ?thesis
    unfolding VerifyVariable_def Let_def if_not_P [OF ex_locked] ex_platform_mode ex_denied_fields(1) ex_no_user ex_kinds(10)
    by (simp add: ex_kinds ex_denied_fields verify_and_find_def ex_state)
qed


end
