(* ===== verification/Spec2Isabelle.thy ===== *)
theory Spec2Isabelle
  imports Prelude NvramRead NvramFlash NvramWrite NvramStore NvramCreate NvramUpdate NvramReclaim
    DListLib NvramIndex NvramFt NvramFailsafe NvramService NvramServiceFacts
    NvramPei NvramPeiFacts NvramSmi NvramSmiFacts
    EfiDecompress DecStream DecTable DecMake DecLookup DecFormat DecBlock DecRoundtrip DecFacts DecTypes
    DevicePath DevicePathFacts
    AuthLists AuthListsFacts AuthVariable AuthVerify AuthVerifyFacts AuthTime AuthExample AuthSafety AuthService
begin

text \<open>
  A verification of four parts of the Bay Trail firmware: the variable driver
  (\<^verbatim>\<open>src/AmiModulePkg/NVRAM\<close>), which keeps the UEFI variables in flash memory, the authenticated variables
  (\<^verbatim>\<open>src/AmiModulePkg/SecureBoot/AuthenticatedVariable\<close>), which decide who may write the keys of secure boot, the
  decompressor of the
  firmware volumes (\<^verbatim>\<open>src/AmiCompatibilityPkg/Library/Decompress.c\<close>), through which the drivers in the flash
  part are loaded, and the device paths of \<^verbatim>\<open>src/AmiCompatibilityPkg/Library/EfiLib.c\<close>, by which the drivers
  name devices.

  \<^bold>\<open>The program.\<close>  A variable store is an area of flash that holds a sequence of records
  (\<^verbatim>\<open>NVAR\<close>: signature, size, next, flags, then the GUID or its index, the name, the data and an optional
  extended header); the GUIDs of the variables grow downwards from the end of the area.  Flash can only
  clear bits, so that a record is changed by writing a new one and linking the old one to it, and deleted
  by clearing a flag.  When the area is full the live variables are copied to a backup area and the two
  areas are exchanged; the state bytes of the two file headers say which one is in use if power fails in
  between.  \<^verbatim>\<open>NvramRead.c\<close> reads the areas, \<^verbatim>\<open>NvramDxe.c\<close> writes and reclaims them and offers the run-time
  services, with an index of the variables in memory whose lists are those of \<^verbatim>\<open>EfiLib.c\<close>.

  \<^bold>\<open>The theories\<close>, each over the ones before it:

    \<^item> \<open>Prelude\<close>: words, status codes, byte-addressed memory with little-endian fields, the lemma
      collections (\<open>nv_consts\<close> and the memory lemmas) and the search lemmas all components use.
    \<^item> \<open>NvramRead\<close> (\<^verbatim>\<open>NvramRead.c\<close>, \<^verbatim>\<open>NVRAM.h\<close>): header fields, record iteration, data and extended
      headers, names, look-up, the buffer protocol of \<^verbatim>\<open>GetVariable\<close>, enumeration over one and over several
      stores, defaults, the file states.  Its lemmas show that iteration moves forward within the area, that
      the look-up is a search in store order, and that enumeration visits each valid variable once.
    \<^item> \<open>NvramFlash\<close> (\<^verbatim>\<open>NvramDxe.c\<close>, lines 100 to 930): the memory, flash and hybrid update interfaces, the
      word-wise comparisons before a write, erasing a range that is not made of whole blocks, the buffers,
      the memory copy of the store.  The flash part is the locale \<open>flash_device\<close>: writes and erases stay in
      their range and a success means the bytes are there.  \<open>write_interface\<close> is what the store routines
      need of an interface: a write that only clears bits succeeds and is exact.  Both are interpreted, the
      second on the memory interface and on the flash interface with a NOR device.
    \<^item> \<open>NvramWrite\<close>: creating, updating, deleting and copying a variable, the recovery from a failed write,
      the filters of a copy, discovering the stores.
    \<^item> \<open>NvramStore\<close>: the invariant \<open>store_ok\<close> of a store (the records follow one another up to the end, names
      and extended headers lie within their records, links are forward and one to one, the space behind is
      erased) and how it is kept when a record is appended.
    \<^item> \<open>NvramCreate\<close>, \<open>NvramUpdate\<close>: creation, deletion and update keep \<open>store_ok\<close>; what each look-up finds
      afterwards.  The locales \<open>creation\<close>, \<open>deletion\<close> and \<open>relink\<close> hold the facts about one such operation
      and are interpreted on a store with the variable \<open>A\<close>.
    \<^item> \<open>NvramReclaim\<close>: copying all variables to another store keeps them.  The locale \<open>frozen\<close> is a store while
      memory outside of it changes, \<open>copying\<close> one step of the copy.
    \<^item> \<open>DListLib\<close> (\<^verbatim>\<open>EfiLib.c\<close>): the doubly linked lists on a heap of links, which refine lists.
    \<^item> \<open>NvramIndex\<close>: the variable index; its lists are represented by their elements in order, which
      \<open>DListLib\<close> justifies.
    \<^item> \<open>NvramFt\<close>: the exchange of the stores, the check of the stores, the reset to defaults, the start of
      the driver.
    \<^item> \<open>NvramFailsafe\<close>: the exchange of the stores survives failing writes.  \<open>local_writer\<close> is a writer that
      stays in a region, \<open>atomic_flash\<close> a flash part that programs a single byte completely or not at all,
      \<open>exchange\<close> the situation before an update, whose lemmas follow the state bytes step by step.
    \<^item> \<open>NvramService\<close>, \<open>NvramServiceFacts\<close>: the run-time services and their properties.
    \<^item> \<open>NvramPei\<close>, \<open>NvramPeiFacts\<close> (\<^verbatim>\<open>NvramPei.c\<close>): the module that runs before the driver, chooses the store in use
      and hands the choice over; the driver searches the same stores in the same order.
    \<^item> \<open>NvramSmi\<close>, \<open>NvramSmiFacts\<close> (\<^verbatim>\<open>NvramSmiDxe.c\<close>, \<^verbatim>\<open>NvramSmi.c\<close>): \<^verbatim>\<open>SetVariable\<close> through a buffer shared with
      system management mode.  The locale \<open>smi_channel\<close> is what the client needs of the communication service;
      it is interpreted on the handler.

  Before \<^verbatim>\<open>SetVariable\<close> writes an authenticated variable it calls \<^verbatim>\<open>VerifyVariable\<close>.  The data then begin with a
  header that holds a count (\<^verbatim>\<open>AuthVariable.c\<close>) or a time (\<^verbatim>\<open>Auth2Variable.c\<close>) and a signature; the keys are the variables
  \<^verbatim>\<open>PK\<close> and \<^verbatim>\<open>KEK\<close>, which are lists of signatures themselves.  Without a \<^verbatim>\<open>PK\<close> the platform is in setup mode and
  every well-formed write is accepted.

    \<^item> \<open>AuthLists\<close>, \<open>AuthListsFacts\<close> (\<^verbatim>\<open>AuthVariable.c\<close>): signature lists in memory; what \<^verbatim>\<open>ValidateSignatureList\<close> accepts, and
      that \<^verbatim>\<open>FindInSignatureDb\<close> removes from the data of an append what the database has, for lists of one
      signature, and does not return for some lists of two.
    \<^item> \<open>AuthVariable\<close>: the names, the modes of the platform and their variables, the start of the service, and
      \<^verbatim>\<open>os_mktime\<close> (\<^verbatim>\<open>TimeWrapper.c\<close>), which turns dates into 32-bit numbers.  The state \<open>auth_state\<close> is the globals of
      the module and the \<open>service\<close> of the driver, whose look-up finds the keys.
    \<^item> \<open>AuthVerify\<close>: \<^verbatim>\<open>VerifyVariable\<close> and the two kinds of headers.
    \<^item> \<open>AuthVerifyFacts\<close>, \<open>AuthTime\<close>, \<open>AuthExample\<close>, \<open>AuthSafety\<close>: an accepted write to the keys and databases is
      authorised, cannot be replayed once it is stored, and needs the non-volatile attribute; the time stamps
      are in the order of the dates up to 2037.
    \<^item> \<open>AuthService\<close>: \<^verbatim>\<open>SetVariable\<close> and \<^verbatim>\<open>VerifyVariable\<close> together.  They call each other, at most two calls of
      \<^verbatim>\<open>SetVariable\<close> deep, and an unauthorised write to the keys and databases writes nothing.

  The decompressor has no state in common with the driver.  A source is a header with two sizes and a stream
  of bits; the stream is a sequence of blocks, each with three Huffman codes, sent as code lengths, and a
  number of symbols: literals, and copies of bytes that are already in the destination.

    \<^item> \<open>EfiDecompress\<close> (\<^verbatim>\<open>Decompress.c\<close>): all of its routines, in the order of the file.
    \<^item> \<open>DecStream\<close>: the source as a function from positions to bits; \<open>window\<close> says that the buffers of the
      scratch area show the stream at a position, and \<open>FillBuf\<close> moves it.
    \<^item> \<open>DecTable\<close>, \<open>DecMake\<close>: canonical codes as intervals of 16-bit numbers (locale \<open>canonical\<close>, for a complete
      code), the invariant \<open>tree_inv\<close> of the trees \<^verbatim>\<open>MakeTable\<close> builds and the proof that every code is found in them.
    \<^item> \<open>DecLookup\<close>, \<open>DecFormat\<close>, \<open>DecBlock\<close>: the format as functions from codes and blocks to bits (\<open>ser_pt\<close>, \<open>ser_main\<close>,
      \<open>ser_codes\<close>), and the routines that read them back.
    \<^item> \<open>DecRoundtrip\<close>: tokens, their expansion, whole images.
    \<^item> \<open>DecFacts\<close>, \<open>DecTypes\<close>: the bit reader and the tables on their own, the interpretations of \<open>canonical\<close> for the
      three kinds of tables, the inputs that are not caught, the sizes of the arrays.

  A device path is a sequence of nodes in memory, cut into instances by end nodes.

    \<^item> \<open>DevicePath\<close> (\<^verbatim>\<open>EfiLib.c\<close>, \<^verbatim>\<open>Memory.c\<close>): the routines that measure, copy, join, search and take apart device
      paths, and \<^verbatim>\<open>MemCmp\<close>.  The pool is a parameter.
    \<^item> \<open>DevicePathFacts\<close>: paths as lists of instances (\<open>path_bytes\<close> is their image in memory); joining and taking
      apart as operations on these lists, \<^verbatim>\<open>DPIsOneOf\<close> as a search for an instance, the malformed paths the
      routines do not catch.

  \<^bold>\<open>How state is represented.\<close>  Memory is a function from addresses (natural numbers) to bytes; a routine
  that writes returns the new memory.  The globals are records: \<open>NVRAM_STORE_INFO\<close> and \<open>VARSTORE_INFO\<close> as in
  the source, \<open>buffer_state\<close> for the pre-allocated buffers, \<open>driver\<close> for the state the stores share,
  \<open>service\<close> for the driver at run time.  \<^verbatim>\<open>NULL\<close> is \<open>None\<close>, an out parameter is a component of the result
  and \<open>None\<close> when it is not written.  \<^verbatim>\<open>UINTN\<close> is 64 bits wide; where a computation can wrap it is written
  with \<open>uintn_add\<close> and \<open>uintn_sub\<close>.  \<^verbatim>\<open>CHAR8\<close> is signed, as with the compilers of the build.  Build
  switches have the values of \<^verbatim>\<open>NVRAM.sdl\<close> and of the board.

  \<^bold>\<open>Bounds.\<close>  \<open>layout_ok\<close> asks for a store of less than \<open>2 ^ 24\<close> bytes (the board's has \<open>0x20000\<close>) behind
  address \<open>0x2000\<close> and below \<open>2 ^ 63\<close>, with at most 256 GUIDs.  Loops that end because an address grows are
  total functions with a measure; loops whose end depends on memory contents or on the environment
  (names without a terminator, the enumeration of all variables, the recovery) are partial functions whose
  value is \<open>None\<close> when they do not end, and the properties about them show that they return.

  The loops of the decompressor whose end depends on the source are partial functions too; \<open>None\<close> also stands for
  an access outside of an array, so that a result of \<open>Some\<close> says that the routine returned and stayed in bounds.
  The device path routines do the same for the block they allocate.  In the loops over signature lists \<open>None\<close>
  is also the division by a signature size of zero.

  \<^bold>\<open>Parameters.\<close>  The flash device, allocation results and the pool, the hooks, the hand-off block, the
  external defaults and the digital signature protocol (hashes, PKCS 1 and PKCS 7, a wrapper of a vendored
  library) are arguments of the definitions that use them.  \<^verbatim>\<open>SetVariable\<close> and \<^verbatim>\<open>VerifyVariable\<close> call each other: in
  \<open>NvramService\<close> the verification is a parameter, in \<open>AuthVariable\<close> the write of the firmware's own variables is, and
  \<open>AuthService\<close> closes the circle.
  \<open>keeps_digest\<close> and \<open>presence_only_reads\<close> name what the properties need of the protocol and of reading a variable.

  \<^bold>\<open>Not modelled.\<close>  \<^verbatim>\<open>ReallocateHybridVarstoreToSmm\<close> and \<^verbatim>\<open>ReallocateVolatileVarstoreToSmm\<close> are not compiled
  with the settings of the build; with the same settings only \<^verbatim>\<open>SetVariable\<close> goes through system management mode, and
  the entry points of the driver that only install the services are left out, as are the callbacks that look for
  the signature protocol, the verification of images and the setup pages of secure boot, and the rest of
  the firmware: its drivers program devices, and its third-party packages are vendored.
\<close>

end
